(* ===== verification/Prelude.thy ===== *)
theory Prelude
  imports Main "HOL-Library.Word"
begin

text \<open>
  Shared vocabulary of the development: the fixed-width integer types of
  \<^verbatim>\<open>libcflat.h\<close>, the collections of rewrite rules the component theories feed
  (\<open>c_const\<close> for the values of C macros, \<open>layout\<close> for the laws of descriptor
  fields), and the facts on alignment and masks that both the memory model and the
  page-table code need.
\<close>

unbundle bit_operations_syntax

type_synonym u8 = "8 word"
type_synonym u16 = "16 word"
type_synonym u32 = "32 word"
type_synonym u64 = "64 word"

named_theorems c_const \<open>values of the C macros of the program\<close>
named_theorems layout \<open>laws of the fields of the shared descriptors\<close>

section \<open>Low and high halves of a register\<close>

definition lo32 :: "u64 \<Rightarrow> u32" where
  "lo32 w = ucast w"

definition hi32 :: "u64 \<Rightarrow> u32" where
  "hi32 w = ucast (drop_bit 32 w)"

definition set_lo32 :: "u32 \<Rightarrow> u64 \<Rightarrow> u64" where
  "set_lo32 v w = (w AND NOT (mask 32)) OR ucast v"

definition set_hi32 :: "u32 \<Rightarrow> u64 \<Rightarrow> u64" where
  "set_hi32 v w = (w AND mask 32) OR push_bit 32 (ucast v)"

lemma lo32_set_lo32 [simp]: "lo32 (set_lo32 v w) = v"
  by (rule bit_word_eqI) (auto simp: lo32_def set_lo32_def bit_simps)

lemma hi32_set_lo32 [simp]: "hi32 (set_lo32 v w) = hi32 w"
  by (rule bit_word_eqI) (auto simp: hi32_def set_lo32_def bit_simps dest: bit_imp_le_length)

lemma lo32_set_hi32 [simp]: "lo32 (set_hi32 v w) = lo32 w"
  by (rule bit_word_eqI) (auto simp: lo32_def set_hi32_def bit_simps)

lemma hi32_set_hi32 [simp]: "hi32 (set_hi32 v w) = v"
  by (rule bit_word_eqI) (auto simp: hi32_def set_hi32_def bit_simps dest: bit_imp_le_length)

lemma set_lo32_lo32 [simp]: "set_lo32 (lo32 w) w = w"
  by (rule bit_word_eqI) (auto simp: lo32_def set_lo32_def bit_simps dest: bit_imp_le_length)

lemma set_hi32_hi32 [simp]: "set_hi32 (hi32 w) w = w"
  by (rule bit_word_eqI) (auto simp: hi32_def set_hi32_def bit_simps dest: bit_imp_le_length)

lemma set_lo32_idem [simp]: "set_lo32 v (set_lo32 v' w) = set_lo32 v w"
  by (rule bit_word_eqI) (auto simp: set_lo32_def bit_simps dest: bit_imp_le_length)

lemma set_hi32_idem [simp]: "set_hi32 v (set_hi32 v' w) = set_hi32 v w"
  by (rule bit_word_eqI) (auto simp: set_hi32_def bit_simps dest: bit_imp_le_length)

lemma set_lo32_hi32_commute: "set_lo32 v (set_hi32 v' w) = set_hi32 v' (set_lo32 v w)"
  by (rule bit_word_eqI) (auto simp: set_lo32_def set_hi32_def bit_simps dest: bit_imp_le_length)

lemma ucast_u32_u64 [simp]: "ucast (ucast w :: u64) = w" for w :: u32
  by (rule bit_word_eqI) (simp add: bit_simps)

lemma ucast_u64_inj: "(ucast v :: u64) = ucast w \<longleftrightarrow> v = w" for v w :: u32
  by (metis ucast_u32_u64)

section \<open>The lowest bit\<close>

lemma and_1_cases: "x AND 1 = 0 \<or> x AND 1 = 1" for x :: u64
  by (cases "even x") (simp_all add: and_one_eq even_iff_mod_2_eq_zero odd_iff_mod_2_eq_one)

lemma xor_1_and_1: "((x AND 1) XOR 1) AND 1 = (x AND 1) XOR 1" for x :: u64
  using and_1_cases [of x] by auto

lemma xor_1_eq_0: "(x AND 1) XOR 1 = 0 \<longleftrightarrow> x AND 1 \<noteq> 0" for x :: u64
  using and_1_cases [of x] by auto

section \<open>Sums that do not wrap\<close>

lemma unat_add_small: "unat a + unat b < 2 ^ 64 \<Longrightarrow> unat (a + b) = unat a + unat b" for a b :: u64
  by (simp add: unat_word_ariths)

lemma unat_less_u64: "unat x < 2 ^ 64" for x :: u64
  using unsigned_less [of x, where ?'a = nat] by simp

lemma unat_of_nat_u64: "n < 2 ^ 64 \<Longrightarrow> unat (of_nat n :: u64) = n"
  by (simp add: unsigned_of_nat take_bit_nat_eq_self)

section \<open>Alignment\<close>

text \<open>\<open>aligned n a\<close>: the low \<open>n\<close> bits of the address are clear.\<close>

definition aligned :: "nat \<Rightarrow> u64 \<Rightarrow> bool" where
  "aligned n a \<longleftrightarrow> take_bit n a = 0"

lemma aligned_iff_dvd: "aligned n a \<longleftrightarrow> 2 ^ n dvd a"
  by (simp add: aligned_def take_bit_eq_0_iff)

lemma aligned_iff_bits: "aligned n a \<longleftrightarrow> (\<forall>k<n. \<not> bit a k)"
proof -
  have "aligned n a \<longleftrightarrow> (\<forall>k<64. k < n \<longrightarrow> \<not> bit a k)"
    by (auto simp: aligned_def bit_eq_iff bit_simps)
  then show ?thesis using bit_imp_le_length [of a] by auto
qed

lemma aligned_mono: "aligned n a \<Longrightarrow> m \<le> n \<Longrightarrow> aligned m a"
  by (auto simp: aligned_iff_bits)

lemma aligned_0 [simp]: "aligned n 0"
  by (simp add: aligned_def)

lemma aligned_add: "aligned n a \<Longrightarrow> aligned n b \<Longrightarrow> aligned n (a + b)"
  by (simp add: aligned_iff_dvd)

lemma aligned_or: "aligned n (a OR b) \<longleftrightarrow> aligned n a \<and> aligned n b"
  by (auto simp: aligned_iff_bits bit_simps)

lemma aligned_and: "aligned n a \<Longrightarrow> aligned n (a AND b)"
  by (auto simp: aligned_iff_bits bit_simps)

lemma aligned_push_bit: "n \<le> k \<Longrightarrow> aligned n (push_bit k a)"
  by (auto simp: aligned_iff_bits bit_simps)

text \<open>An aligned base and a small offset do not share bits: both can be read back.\<close>

lemma drop_bit_zero_bits:
  fixes x :: u64
  assumes "drop_bit n x = 0" "n \<le> k" shows "\<not> bit x k"
proof -
  have "bit x k \<longleftrightarrow> bit (drop_bit n x) (k - n)"
    using assms(2) by (simp add: bit_drop_bit_eq)
  then show ?thesis by (simp add: assms(1))
qed

lemma take_bit_aligned_or: "aligned n a \<Longrightarrow> drop_bit n x = 0 \<Longrightarrow> take_bit n (a OR x) = x"
  by (rule bit_word_eqI) (auto simp: aligned_iff_bits bit_simps not_less dest: drop_bit_zero_bits)

lemma aligned_add_or: "aligned n a \<Longrightarrow> drop_bit n x = 0 \<Longrightarrow> a + x = a OR x"
  by (rule disjunctive_add_eq_or, rule bit_word_eqI)
     (auto simp: aligned_iff_bits bit_simps not_less dest: drop_bit_zero_bits leI)

lemma drop_bit_aligned_or: "drop_bit n x = 0 \<Longrightarrow> drop_bit n (a OR x) = drop_bit n a" for a x :: u64
  by simp

lemma drop_bit_of_nat_small: "i < 2 ^ n \<Longrightarrow> drop_bit n (of_nat i :: u64) = 0"
proof -
  assume "i < 2 ^ n"
  moreover have "unat (of_nat i :: u64) \<le> i" by (simp add: unat_of_nat take_bit_nat_less_eq_self)
  ultimately have "drop_bit n (unat (of_nat i :: u64)) = 0"
    by (simp only: drop_bit_eq_div div_less)
  then have "unat (drop_bit n (of_nat i :: u64)) = 0" by (simp only: unat_drop_bit_eq)
  then show ?thesis by (simp add: unat_eq_0)
qed

lemma aligned_eq_drop_bit: "aligned n a \<Longrightarrow> push_bit n (drop_bit n a) = a"
  by (rule bit_word_eqI, simp add: aligned_iff_bits bit_simps) (metis le_add_diff_inverse not_le)

lemma aligned_or_split:
  assumes "aligned n a" "aligned n b" "drop_bit n x = 0" "drop_bit n y = 0"
  shows "a OR x = b OR y \<longleftrightarrow> a = b \<and> x = y"
proof
  assume eq: "a OR x = b OR y"
  have "x = y"
    using take_bit_aligned_or [OF assms(1,3)] take_bit_aligned_or [OF assms(2,4)] eq by metis
  moreover have "drop_bit n a = drop_bit n b"
    using drop_bit_aligned_or [OF assms(3), of a] drop_bit_aligned_or [OF assms(4), of b] eq by metis
  then have "a = b"
    using aligned_eq_drop_bit [OF assms(1)] aligned_eq_drop_bit [OF assms(2)] by metis
  ultimately show "a = b \<and> x = y" by blast
next
  assume "a = b \<and> x = y"
  then show "a OR x = b OR y" by blast
qed

text \<open>A count read as a signed number.\<close>

lemma sint_unat: "unat n < 2 ^ 63 \<Longrightarrow> sint n = int (unat n)" for n :: u64
proof -
  assume "unat n < 2 ^ 63"
  then have "int (unat n) < int (2 ^ 63)" by (simp only: of_nat_less_iff)
  then have "uint n < 2 ^ 63" by simp
  then have "signed_take_bit 63 (uint n) = uint n"
    using uint_ge_0 [of n] by (intro signed_take_bit_int_eq_self) linarith+
  then show ?thesis by (simp add: sint_uint)
qed

end
