(* ===== verification/CMemory.thy ===== *)
theory CMemory
  imports Prelude
begin

text \<open>
  The memory of one address space as the C code sees it: a byte per address, with the
  little-endian loads and stores of 16, 32 and 64 bits the compiler emits for the
  program's pointer accesses. \<open>loadn n\<close> and \<open>storen n\<close> read and write \<open>n\<close> bytes; a
  \<open>uintptr_t\<close> access is \<open>load64\<close>/\<open>store64\<close>.

  The interface \<open>word_store\<close> states what the page-table code relies on: a store is seen
  by a load of the same slot, by no load of another slot, and replaces an earlier one; the
  32- and the 64-bit accesses both provide it.
\<close>

type_synonym mem = "u64 \<Rightarrow> u8"

primrec loadn :: "nat \<Rightarrow> mem \<Rightarrow> u64 \<Rightarrow> u64" where
  "loadn 0 m a = 0"
| "loadn (Suc n) m a = ucast (m a) OR push_bit 8 (loadn n m (a + 1))"

primrec storen :: "nat \<Rightarrow> u64 \<Rightarrow> u64 \<Rightarrow> mem \<Rightarrow> mem" where
  "storen 0 a v m = m"
| "storen (Suc n) a v m = (storen n (a + 1) (drop_bit 8 v) m)(a := ucast v)"

definition load16 :: "mem \<Rightarrow> u64 \<Rightarrow> u16" where
  "load16 m a = ucast (loadn 2 m a)"

definition load32 :: "mem \<Rightarrow> u64 \<Rightarrow> u32" where
  "load32 m a = ucast (loadn 4 m a)"

definition load64 :: "mem \<Rightarrow> u64 \<Rightarrow> u64" where
  "load64 m a = loadn 8 m a"

definition store16 :: "u64 \<Rightarrow> u16 \<Rightarrow> mem \<Rightarrow> mem" where
  "store16 a v m = storen 2 a (ucast v) m"

definition store32 :: "u64 \<Rightarrow> u32 \<Rightarrow> mem \<Rightarrow> mem" where
  "store32 a v m = storen 4 a (ucast v) m"

definition store64 :: "u64 \<Rightarrow> u64 \<Rightarrow> mem \<Rightarrow> mem" where
  "store64 a v m = storen 8 a v m"

section \<open>Loads and stores of n bytes\<close>

lemma storen_other: "(\<And>i. i < n \<Longrightarrow> b \<noteq> a + of_nat i) \<Longrightarrow> storen n a v m b = m b"
proof (induction n arbitrary: a v)
  case 0
  then show ?case by simp
next
  case (Suc n)
  have "b \<noteq> (a + 1) + of_nat i" if "i < n" for i
    using Suc.prems [of "Suc i"] that by (simp add: add.assoc)
  moreover have "b \<noteq> a" using Suc.prems [of 0] by simp
  ultimately show ?case using Suc.IH by simp
qed

lemma loadn_cong: "(\<And>i. i < n \<Longrightarrow> m (a + of_nat i) = m' (a + of_nat i)) \<Longrightarrow> loadn n m a = loadn n m' a"
proof (induction n arbitrary: a)
  case 0
  then show ?case by simp
next
  case (Suc n)
  have "m ((a + 1) + of_nat i) = m' ((a + 1) + of_nat i)" if "i < n" for i
    using Suc.prems [of "Suc i"] that by (simp add: add.assoc)
  then have "loadn n m (a + 1) = loadn n m' (a + 1)" by (rule Suc.IH)
  moreover have "m a = m' a" using Suc.prems [of 0] by simp
  ultimately show ?case by simp
qed

lemma of_nat_neq_0: "0 < i \<Longrightarrow> i < 2 ^ 64 \<Longrightarrow> (of_nat i :: u64) \<noteq> 0"
  by (auto simp: word_of_nat_eq_0_iff dest: nat_dvd_not_less)

lemma loadn_storen: "n \<le> 8 \<Longrightarrow> loadn n (storen n a v m) a = take_bit (8 * n) v"
proof (induction n arbitrary: a v)
  case 0
  then show ?case by simp
next
  case (Suc n)
  let ?m' = "storen n (a + 1) (drop_bit 8 v) m"
  have "a + 1 + of_nat i \<noteq> a" if "i < n" for i
  proof
    assume "a + 1 + of_nat i = a"
    then have "a + of_nat (Suc i) = a" by (simp add: add.assoc)
    then have "(of_nat (Suc i) :: u64) = 0" by (rule add_cancel_left_right [THEN iffD1])
    then show False using of_nat_neq_0 [of "Suc i"] that Suc.prems by simp
  qed
  then have "loadn n (?m'(a := ucast v)) (a + 1) = loadn n ?m' (a + 1)"
    by (intro loadn_cong) simp
  also have "\<dots> = take_bit (8 * n) (drop_bit 8 v)"
    using Suc.IH Suc.prems by simp
  finally have rest: "loadn n (?m'(a := ucast v)) (a + 1) = take_bit (8 * n) (drop_bit 8 v)" .
  have "ucast (ucast v :: u8) OR push_bit 8 (take_bit (8 * n) (drop_bit 8 v)) = take_bit (8 * Suc n) v"
    by (rule bit_word_eqI) (auto simp: bit_simps not_less dest: bit_imp_le_length)
  then show ?case by (simp only: loadn.simps storen.simps fun_upd_same rest)
qed

lemma load64_store64_same [simp]: "load64 (store64 a v m) a = v"
  by (rule bit_word_eqI) (simp add: load64_def store64_def loadn_storen bit_simps)

lemma slots_apart:
  assumes "aligned k a" "aligned k b" "a \<noteq> b" "i < 2 ^ k" "j < 2 ^ k"
  shows "b + of_nat i \<noteq> a + of_nat j"
proof
  assume eq: "b + of_nat i = a + of_nat j"
  note small = drop_bit_of_nat_small [OF assms(4)] drop_bit_of_nat_small [OF assms(5)]
  have "b OR of_nat i = a OR of_nat j"
    using eq aligned_add_or [OF assms(1) small(2)] aligned_add_or [OF assms(2) small(1)] by simp
  then show False
    using aligned_or_split [OF assms(2,1) small] assms(3) by blast
qed

lemma loadn_storen_other:
  assumes "aligned k a" "aligned k b" "a \<noteq> b" "n \<le> 2 ^ k"
  shows "loadn n (storen n a v m) b = loadn n m b"
proof (rule loadn_cong)
  fix i assume "i < n"
  then show "storen n a v m (b + of_nat i) = m (b + of_nat i)"
    using slots_apart [OF assms(1-3)] assms(4) by (intro storen_other) simp
qed

lemma load64_store64_other:
  "aligned 3 a \<Longrightarrow> aligned 3 b \<Longrightarrow> a \<noteq> b \<Longrightarrow> load64 (store64 a v m) b = load64 m b"
  using loadn_storen_other [of 3 a b 8 v m] by (simp add: load64_def store64_def)

lemma load32_store32_same [simp]: "load32 (store32 a v m) a = v"
  by (rule bit_word_eqI) (simp add: load32_def store32_def loadn_storen bit_simps)

lemma load32_store32_other:
  "aligned 2 a \<Longrightarrow> aligned 2 b \<Longrightarrow> a \<noteq> b \<Longrightarrow> load32 (store32 a v m) b = load32 m b"
  using loadn_storen_other [of 2 a b 4 "ucast v" m] by (simp add: load32_def store32_def)

lemma storen_overwrites:
  "m b = m' b \<or> (\<exists>i<n. b = a + of_nat i) \<Longrightarrow> storen n a v m b = storen n a v m' b"
proof (induction n arbitrary: a v)
  case 0
  then show ?case by simp
next
  case (Suc n)
  show ?case
  proof (cases "b = a")
    case True
    then show ?thesis by simp
  next
    case False
    have "m b = m' b \<or> (\<exists>i<n. b = (a + 1) + of_nat i)"
      using Suc.prems False by (auto simp: add.assoc less_Suc_eq_0_disj)
    then show ?thesis using Suc.IH False by simp
  qed
qed

lemma storen_twice: "storen n a v (storen n a w m) = storen n a v m"
proof
  fix b
  show "storen n a v (storen n a w m) b = storen n a v m b"
    using storen_other [of n b a w m] by (intro storen_overwrites) blast
qed

lemma store64_twice: "store64 a v (store64 a w m) = store64 a v m"
  by (simp add: store64_def storen_twice)

lemma store32_twice: "store32 a v (store32 a w m) = store32 a v m"
  by (simp add: store32_def storen_twice)

lemma loadn_zero: "(\<And>i. i < n \<Longrightarrow> m (a + of_nat i) = 0) \<Longrightarrow> loadn n m a = 0"
proof (induction n arbitrary: a)
  case 0
  then show ?case by simp
next
  case (Suc n)
  have "m ((a + 1) + of_nat i) = 0" if "i < n" for i
    using Suc.prems [of "Suc i"] that by (simp add: add.assoc)
  then have "loadn n m (a + 1) = 0" by (rule Suc.IH)
  moreover have "m a = 0" using Suc.prems [of 0] by simp
  ultimately show ?case by simp
qed


section \<open>Slots of a table\<close>

locale word_store =
  fixes ld :: "mem \<Rightarrow> u64 \<Rightarrow> 'w::len word"
    and st :: "u64 \<Rightarrow> 'w word \<Rightarrow> mem \<Rightarrow> mem"
    and k :: nat
  assumes same: "ld (st a v m) a = v"
    and other: "aligned k a \<Longrightarrow> aligned k b \<Longrightarrow> a \<noteq> b \<Longrightarrow> ld (st a v m) b = ld m b"
    and twice: "st a v (st a w m) = st a v m"
begin

text \<open>The read-modify-write with which the code completes a descriptor.\<close>

lemma set_bits: "st a (ld (st a v m) a OR w) (st a v m) = st a (v OR w) m"
  by (simp add: same twice)

text \<open>Storing into a list of slots: a slot outside the list keeps its value.\<close>

lemma fold_other:
  "aligned k b \<Longrightarrow> \<forall>x\<in>set xs. aligned k (fst x) \<and> fst x \<noteq> b \<Longrightarrow>
   ld (fold (\<lambda>x. st (fst x) (snd x)) xs m) b = ld m b"
  by (induction xs arbitrary: m) (simp_all add: other)

end

interpretation dword: word_store load64 store64 3
  by unfold_locales (simp_all add: load64_store64_other store64_twice)

interpretation word: word_store load32 store32 2
  by unfold_locales (simp_all add: load32_store32_other store32_twice)

end
