(* ===== verification/Layout.thy ===== *)
theory Layout
  imports Prelude
begin

text \<open>
  The constants of the AArch64 build on the \<^verbatim>\<open>virt\<close> platform: physical memory map
  (\<^verbatim>\<open>platform/virt/platform.h\<close>, \<^verbatim>\<open>common/aarch64/memory.h\<close>), page-table descriptor bits
  (\<^verbatim>\<open>common/aarch64/vmsa.h\<close>), register bits (\<^verbatim>\<open>common/aarch64/cpu.h\<close>), exception
  classes (\<^verbatim>\<open>exception.h\<close>), exception levels and security states (\<^verbatim>\<open>state.h\<close>). Each
  macro is a definition of its own; its value is a rule of the collection \<open>c_const\<close>.
  Macros whose expansion has C type \<^verbatim>\<open>int\<close> are 32-bit words: where the code mixes them with
  a 64-bit register value they go through \<open>cint\<close>, the sign extension C performs.
\<close>

definition cint :: "u32 \<Rightarrow> u64" where
  "cint w = scast w"

section \<open>Platform\<close>

text \<open>The QEMU virt machine.\<close>

definition FLASH_BASE :: "u64" where
  [c_const]: "FLASH_BASE = 0x00000000"

definition FLASH_SIZE :: "u64" where
  [c_const]: "FLASH_SIZE = 0x08000000"

definition RAM_BASE :: "u64" where
  [c_const]: "RAM_BASE = 0x40000000"

definition UART0_BASE :: "u64" where
  [c_const]: "UART0_BASE = 0x09000000"

definition SYSREG_BASE :: "u64" where
  [c_const]: "SYSREG_BASE = 0x1c010000"

definition SYSREG_CFGCTRL :: "u64" where
  [c_const]: "SYSREG_CFGCTRL = 0xa4"

definition RAM_SIZE :: "u32" where
  [c_const]: "RAM_SIZE = 2 * 1024 * 1024 * 1024"

definition SYS_CFGCTRL_FUNC :: "u32 \<Rightarrow> u32" where
  [c_const]: "SYS_CFGCTRL_FUNC n = push_bit 20 (n AND 0x3f)"

definition SYS_CFGFUNC_RESET :: "u32" where
  [c_const]: "SYS_CFGFUNC_RESET = 5"

definition SYS_CFGFUNC_SHUTDOWN :: "u32" where
  [c_const]: "SYS_CFGFUNC_SHUTDOWN = 8"

definition SYS_CFGCTRL_START :: "u32" where
  [c_const]: "SYS_CFGCTRL_START = push_bit 31 1"

definition SYS_CFGCTRL_WRITE :: "u32" where
  [c_const]: "SYS_CFGCTRL_WRITE = push_bit 30 1"

definition SYS_SHUTDOWN :: "u32" where
  [c_const]: "SYS_SHUTDOWN = SYS_CFGCTRL_FUNC SYS_CFGFUNC_SHUTDOWN OR SYS_CFGCTRL_START OR SYS_CFGCTRL_WRITE"

definition SYS_RESET :: "u32" where
  [c_const]: "SYS_RESET = SYS_CFGCTRL_FUNC SYS_CFGFUNC_SHUTDOWN OR SYS_CFGCTRL_START OR SYS_CFGCTRL_WRITE"

section \<open>Pages and descriptors\<close>

text \<open>Bits of a VMSAv8-64 stage 1 descriptor with 4k granule.\<close>

definition PAGE_SIZE :: "u64" where
  [c_const]: "PAGE_SIZE = 0x1000"

definition ARMV8_PAGE_ATTRINDX_SHIFT :: "nat" where
  [c_const]: "ARMV8_PAGE_ATTRINDX_SHIFT = 2"

definition ARMV8_PAGE_NS_SHIFT :: "nat" where
  [c_const]: "ARMV8_PAGE_NS_SHIFT = 5"

definition ARMV8_PAGE_AP_SHIFT :: "nat" where
  [c_const]: "ARMV8_PAGE_AP_SHIFT = 6"

definition ARMV8_PAGE_SH_SHIFT :: "nat" where
  [c_const]: "ARMV8_PAGE_SH_SHIFT = 8"

definition ARMV8_PAGE_AF_SHIFT :: "nat" where
  [c_const]: "ARMV8_PAGE_AF_SHIFT = 10"

definition ARMV8_PAGE_NG_SHIFT :: "nat" where
  [c_const]: "ARMV8_PAGE_NG_SHIFT = 11"

definition ARMV8_PAGE_CONIG_SHIFT :: "nat" where
  [c_const]: "ARMV8_PAGE_CONIG_SHIFT = 52"

definition ARMV8_PAGE_PXN_SHIFT :: "nat" where
  [c_const]: "ARMV8_PAGE_PXN_SHIFT = 53"

definition ARMV8_PAGE_XN_SHIFT :: "nat" where
  [c_const]: "ARMV8_PAGE_XN_SHIFT = 54"

definition ARMV8_PAGE_EL1_RW :: "u64" where
  [c_const]: "ARMV8_PAGE_EL1_RW = push_bit ARMV8_PAGE_AP_SHIFT 0"

definition ARMV8_PAGE_EL0_RW :: "u64" where
  [c_const]: "ARMV8_PAGE_EL0_RW = push_bit ARMV8_PAGE_AP_SHIFT 1"

definition ARMV8_PAGE_EL1_R :: "u64" where
  [c_const]: "ARMV8_PAGE_EL1_R = push_bit ARMV8_PAGE_AP_SHIFT 2"

definition ARMV8_PAGE_EL0_R :: "u64" where
  [c_const]: "ARMV8_PAGE_EL0_R = push_bit ARMV8_PAGE_AP_SHIFT 3"

definition ARMv8_PAGE_ACCESS :: "u64" where
  [c_const]: "ARMv8_PAGE_ACCESS = push_bit ARMV8_PAGE_AF_SHIFT 1"

definition PTE_ACCESS :: "u64" where
  [c_const]: "PTE_ACCESS = ARMv8_PAGE_ACCESS"

definition PTE_PRIV_RW :: "u64" where
  [c_const]: "PTE_PRIV_RW = ARMV8_PAGE_EL1_RW"

definition PTE_PRIV_RO :: "u64" where
  [c_const]: "PTE_PRIV_RO = ARMV8_PAGE_EL1_R"

definition PTE_USER_RW :: "u64" where
  [c_const]: "PTE_USER_RW = ARMV8_PAGE_EL0_RW"

definition PTE_USER_RO :: "u64" where
  [c_const]: "PTE_USER_RO = ARMV8_PAGE_EL0_R"

definition PTE_PAGE :: "u64" where
  [c_const]: "PTE_PAGE = 0x3"

definition PTE_TABLE :: "u64" where
  [c_const]: "PTE_TABLE = 0x3"

section \<open>Memory map\<close>

text \<open>Flash images, RAM areas, stacks and heaps of each image.\<close>

definition VA_SIZE :: "u64" where
  [c_const]: "VA_SIZE = 48"

definition TnSZ :: "u64" where
  [c_const]: "TnSZ = (64-VA_SIZE)"

definition STACK_SIZE :: "u64" where
  [c_const]: "STACK_SIZE = 0x40000"

definition EL3_FLASH_BASE :: "u64" where
  [c_const]: "EL3_FLASH_BASE = FLASH_BASE"

definition EL3_RAM_BASE :: "u64" where
  [c_const]: "EL3_RAM_BASE = RAM_BASE"

definition EL3_RAM_SIZE :: "u64" where
  [c_const]: "EL3_RAM_SIZE = (512*1024)"

definition EL3_BASE_VA :: "u64" where
  [c_const]: "EL3_BASE_VA = 0xF000000000"

definition EL3_PGTBL_SIZE :: "u64" where
  [c_const]: "EL3_PGTBL_SIZE = 0x40000"

definition EL3_PGTBL_BASE :: "u64" where
  [c_const]: "EL3_PGTBL_BASE = EL3_RAM_BASE + EL3_RAM_SIZE - EL3_PGTBL_SIZE"

definition EL3_STACK_SIZE :: "u64" where
  [c_const]: "EL3_STACK_SIZE = STACK_SIZE"

definition EL3_STACK_BASE :: "u64" where
  [c_const]: "EL3_STACK_BASE = 0xFF00000000"

definition EL3_PTE_POOL_BASE :: "u64" where
  [c_const]: "EL3_PTE_POOL_BASE = EL3_RAM_BASE"

definition EL3_PA_POOL_BASE :: "u64" where
  [c_const]: "EL3_PA_POOL_BASE = (EL3_PTE_POOL_BASE+(0x40000-0x4000))"

definition EL3_INIT_STACK :: "u64" where
  [c_const]: "EL3_INIT_STACK = EL3_RAM_BASE+EL3_RAM_SIZE-0x1000"

definition EL3_VA_HEAP_BASE :: "u64" where
  [c_const]: "EL3_VA_HEAP_BASE = EL3_BASE_VA + 0x1000000"

definition EL1_S_FLASH_BASE :: "u64" where
  [c_const]: "EL1_S_FLASH_BASE = (FLASH_BASE+0x10000)"

definition EL1_S_RAM_BASE :: "u64" where
  [c_const]: "EL1_S_RAM_BASE = (RAM_BASE+0x1000000)"

definition EL1_S_RAM_SIZE :: "u64" where
  [c_const]: "EL1_S_RAM_SIZE = (512*1024)"

definition EL1_S_BASE_VA :: "u64" where
  [c_const]: "EL1_S_BASE_VA = 0xC000000000"

definition EL1_S_PGTBL_SIZE :: "u64" where
  [c_const]: "EL1_S_PGTBL_SIZE = 0x40000"

definition EL1_S_PGTBL_BASE :: "u64" where
  [c_const]: "EL1_S_PGTBL_BASE = EL1_S_RAM_BASE+EL1_S_RAM_SIZE-EL1_S_PGTBL_SIZE"

definition EL1_S_STACK_SIZE :: "u64" where
  [c_const]: "EL1_S_STACK_SIZE = STACK_SIZE"

definition EL1_S_STACK_BASE :: "u64" where
  [c_const]: "EL1_S_STACK_BASE = 0xCF00000000"

definition EL1_S_PA_POOL_BASE :: "u64" where
  [c_const]: "EL1_S_PA_POOL_BASE = (EL1_S_PGTBL_BASE+EL1_S_PGTBL_SIZE)"

definition EL1_S_PTE_POOL_BASE :: "u64" where
  [c_const]: "EL1_S_PTE_POOL_BASE = (EL1_S_PGTBL_BASE + 0x4000)"

definition EL1_S_INIT_STACK :: "u64" where
  [c_const]: "EL1_S_INIT_STACK = EL1_S_RAM_BASE+EL1_S_RAM_SIZE-0x1000"

definition EL1_S_VA_HEAP_BASE :: "u64" where
  [c_const]: "EL1_S_VA_HEAP_BASE = EL1_S_BASE_VA + 0x1000000"

definition EL1_NS_FLASH_BASE :: "u64" where
  [c_const]: "EL1_NS_FLASH_BASE = (FLASH_BASE+0x20000)"

definition EL1_NS_RAM_BASE :: "u64" where
  [c_const]: "EL1_NS_RAM_BASE = (RAM_BASE+0x2000000)"

definition EL1_NS_RAM_SIZE :: "u64" where
  [c_const]: "EL1_NS_RAM_SIZE = (512*1024)"

definition EL1_NS_BASE_VA :: "u64" where
  [c_const]: "EL1_NS_BASE_VA = 0x80000000"

definition EL1_NS_PGTBL_SIZE :: "u64" where
  [c_const]: "EL1_NS_PGTBL_SIZE = 0x40000"

definition EL1_NS_PGTBL_BASE :: "u64" where
  [c_const]: "EL1_NS_PGTBL_BASE = EL1_NS_RAM_BASE+EL1_NS_RAM_SIZE-EL1_NS_PGTBL_SIZE"

definition EL1_NS_STACK_SIZE :: "u64" where
  [c_const]: "EL1_NS_STACK_SIZE = STACK_SIZE"

definition EL1_NS_STACK_BASE :: "u64" where
  [c_const]: "EL1_NS_STACK_BASE = 0xFFFFF000"

definition EL1_NS_PA_POOL_BASE :: "u64" where
  [c_const]: "EL1_NS_PA_POOL_BASE = (EL1_NS_PGTBL_BASE+EL1_NS_PGTBL_SIZE)"

definition EL1_NS_PTE_POOL_BASE :: "u64" where
  [c_const]: "EL1_NS_PTE_POOL_BASE = (EL1_NS_PGTBL_BASE + 0x4000)"

definition EL1_NS_INIT_STACK :: "u64" where
  [c_const]: "EL1_NS_INIT_STACK = EL1_NS_RAM_BASE+EL1_NS_RAM_SIZE-0x1000"

definition EL1_NS_VA_HEAP_BASE :: "u64" where
  [c_const]: "EL1_NS_VA_HEAP_BASE = EL1_NS_BASE_VA + 0x1000000"

definition EL0_S_FLASH_BASE :: "u64" where
  [c_const]: "EL0_S_FLASH_BASE = (FLASH_BASE+0x50000)"

definition EL0_S_RAM_BASE :: "u64" where
  [c_const]: "EL0_S_RAM_BASE = (RAM_BASE+0x4000000)"

definition EL0_S_RAM_SIZE :: "u64" where
  [c_const]: "EL0_S_RAM_SIZE = (512*1024)"

definition EL0_S_BASE_VA :: "u64" where
  [c_const]: "EL0_S_BASE_VA = 0x000C0000"

definition EL0_S_STACK_SIZE :: "u64" where
  [c_const]: "EL0_S_STACK_SIZE = STACK_SIZE"

definition EL0_S_STACK_BASE :: "u64" where
  [c_const]: "EL0_S_STACK_BASE = 0x80000000-0x1000"

definition EL0_NS_FLASH_BASE :: "u64" where
  [c_const]: "EL0_NS_FLASH_BASE = (FLASH_BASE+0x30000)"

definition EL0_NS_RAM_BASE :: "u64" where
  [c_const]: "EL0_NS_RAM_BASE = (RAM_BASE+0x4000000)"

definition EL0_NS_RAM_SIZE :: "u64" where
  [c_const]: "EL0_NS_RAM_SIZE = (512*1024)"

definition EL0_NS_BASE_VA :: "u64" where
  [c_const]: "EL0_NS_BASE_VA = 0x00080000"

definition EL0_NS_STACK_SIZE :: "u64" where
  [c_const]: "EL0_NS_STACK_SIZE = STACK_SIZE"

definition EL0_NS_STACK_BASE :: "u64" where
  [c_const]: "EL0_NS_STACK_BASE = 0x70000000-0x1000"

section \<open>CPU register bits\<close>

text \<open>Fields of PSTATE, SCR_EL3, CPTR_EL3, SCTLR; all of C type int.\<close>

definition PSTATE_EL_EL0 :: "u32" where
  [c_const]: "PSTATE_EL_EL0 = 0x00"

definition PSTATE_EL_EL1H :: "u32" where
  [c_const]: "PSTATE_EL_EL1H = 0x04"

definition PSTATE_EL_EL1T :: "u32" where
  [c_const]: "PSTATE_EL_EL1T = 0x05"

definition PSTATE_EL_EL2H :: "u32" where
  [c_const]: "PSTATE_EL_EL2H = 0x08"

definition PSTATE_EL_EL2T :: "u32" where
  [c_const]: "PSTATE_EL_EL2T = 0x09"

definition PSTATE_EL_EL3H :: "u32" where
  [c_const]: "PSTATE_EL_EL3H = 0x0C"

definition PSTATE_EL_EL3T :: "u32" where
  [c_const]: "PSTATE_EL_EL3T = 0x0D"

definition SCR_NS :: "u32" where
  [c_const]: "SCR_NS = push_bit 0 1"

definition SCR_IRQ :: "u32" where
  [c_const]: "SCR_IRQ = push_bit 1 1"

definition SCR_FIQ :: "u32" where
  [c_const]: "SCR_FIQ = push_bit 2 1"

definition SCR_EA :: "u32" where
  [c_const]: "SCR_EA = push_bit 3 1"

definition SCR_NET :: "u32" where
  [c_const]: "SCR_NET = push_bit 6 1"

definition SCR_SMD :: "u32" where
  [c_const]: "SCR_SMD = push_bit 7 1"

definition SCR_SCD :: "u32" where
  [c_const]: "SCR_SCD = SCR_SMD"

definition SCR_HCE :: "u32" where
  [c_const]: "SCR_HCE = push_bit 8 1"

definition SCR_SIF :: "u32" where
  [c_const]: "SCR_SIF = push_bit 9 1"

definition SCR_RW :: "u32" where
  [c_const]: "SCR_RW = push_bit 10 1"

definition SCR_ST :: "u32" where
  [c_const]: "SCR_ST = push_bit 11 1"

definition SCR_TWI :: "u32" where
  [c_const]: "SCR_TWI = push_bit 12 1"

definition SCR_TWE :: "u32" where
  [c_const]: "SCR_TWE = push_bit 13 1"

definition CPTR_TFP :: "u32" where
  [c_const]: "CPTR_TFP = push_bit 10 1"

definition CPTR_TCPAC :: "u32" where
  [c_const]: "CPTR_TCPAC = push_bit 31 1"

definition SCTLR_nTWI :: "u32" where
  [c_const]: "SCTLR_nTWI = push_bit 16 1"

definition SCTLR_nTWE :: "u32" where
  [c_const]: "SCTLR_nTWE = push_bit 18 1"

definition SPSR_EL0 :: "u32" where
  [c_const]: "SPSR_EL0 = PSTATE_EL_EL0"

definition SPSR_EL1 :: "u32" where
  [c_const]: "SPSR_EL1 = PSTATE_EL_EL1T"

definition SPSR_EL2 :: "u32" where
  [c_const]: "SPSR_EL2 = PSTATE_EL_EL2T"

definition SPSR_EL3 :: "u32" where
  [c_const]: "SPSR_EL3 = PSTATE_EL_EL3T"

definition CPACR_FPEN :: "u32 \<Rightarrow> u32" where
  [c_const]: "CPACR_FPEN v = push_bit 20 v"

section \<open>Exception classes\<close>

text \<open>ESR.EC values the handlers switch on.\<close>

definition EC_UNKNOWN :: "u64" where
  [c_const]: "EC_UNKNOWN = 0x00"

definition EC_WFI_WFE :: "u64" where
  [c_const]: "EC_WFI_WFE = 0x01"

definition EC_SIMD :: "u64" where
  [c_const]: "EC_SIMD = 0x07"

definition EC_ILLEGAL_STATE :: "u64" where
  [c_const]: "EC_ILLEGAL_STATE = 0x0E"

definition EC_SVC32 :: "u64" where
  [c_const]: "EC_SVC32 = 0x11"

definition EC_SMC32 :: "u64" where
  [c_const]: "EC_SMC32 = 0x13"

definition EC_SVC64 :: "u64" where
  [c_const]: "EC_SVC64 = 0x15"

definition EC_SMC64 :: "u64" where
  [c_const]: "EC_SMC64 = 0x17"

definition EC_SYSINSN :: "u64" where
  [c_const]: "EC_SYSINSN = 0x18"

definition EC_IABORT_LOWER :: "u64" where
  [c_const]: "EC_IABORT_LOWER = 0x20"

definition EC_IABORT :: "u64" where
  [c_const]: "EC_IABORT = 0x21"

definition EC_DABORT_LOWER :: "u64" where
  [c_const]: "EC_DABORT_LOWER = 0x24"

definition EC_DABORT :: "u64" where
  [c_const]: "EC_DABORT = 0x25"

section \<open>Exception levels and security states\<close>

text \<open>The values compared by the dispatchers.\<close>

definition EL0 :: "u32" where
  [c_const]: "EL0 = 0"

definition EL1 :: "u32" where
  [c_const]: "EL1 = 1"

definition EL2 :: "u32" where
  [c_const]: "EL2 = 2"

definition EL3 :: "u32" where
  [c_const]: "EL3 = 3"

definition SECURE :: "u32" where
  [c_const]: "SECURE = 0"

definition NONSECURE :: "u32" where
  [c_const]: "NONSECURE = 1"

end
