(* ===== verification/PageTable.thy ===== *)
theory PageTable
  imports CMemory Layout
begin

text \<open>
  \<^verbatim>\<open>common/aarch64/mem_util.c\<close>: allocation of physical pages, mapping, unmapping and lookup
  in the four-level page table of the running exception level. The state \<open>mm\<close> is the four
  globals of the file together with the memory they point into. The code dereferences
  descriptor addresses as they are, so table pages are accessed at the virtual address that
  equals their physical one; \<open>PageTableProofs\<close> shows that the code keeps every table page
  mapped that way.

  \<open>mem_map_pa\<close> calls itself for every table page it allocates. Nothing in the code bounds
  that recursion, so it is a \<open>partial_function\<close> and \<open>None\<close> stands for a call that never
  returns; so is the loop of \<open>mem_heap_allocate\<close>, whose offset can wrap around.
\<close>

record mm =
  mem_pgtbl_base :: u64
  mem_next_pa :: u64
  mem_next_l1_page :: u64
  mem_heap_pool :: u64
  mem_bytes :: mem

definition rd64 :: "mm \<Rightarrow> u64 \<Rightarrow> u64" where
  "rd64 s a = load64 (mem_bytes s) a"

definition wr64 :: "u64 \<Rightarrow> u64 \<Rightarrow> mm \<Rightarrow> mm" where
  "wr64 a v s = s\<lparr>mem_bytes := store64 a v (mem_bytes s)\<rparr>"

definition mem_allocate_pa :: "mm \<Rightarrow> u64 \<times> mm" where
  "mem_allocate_pa s = (mem_next_pa s, s\<lparr>mem_next_pa := mem_next_pa s + PAGE_SIZE\<rparr>)"

text \<open>Index of a level in the table, the byte offset of its descriptor, and the address
  bits the code keeps of a descriptor.\<close>

definition pt_index :: "u64 \<Rightarrow> nat \<Rightarrow> u64" where
  "pt_index vaddr i = drop_bit (39 - i * 9) vaddr AND 0x1FF"

definition pt_off :: "u64 \<Rightarrow> nat \<Rightarrow> u64" where
  "pt_off vaddr i = push_bit 3 (pt_index vaddr i)"

definition DESC_ADDR :: u64 where
  "DESC_ADDR = 0x000FFFFFF000"

text \<open>The loop of \<open>mem_map_pa\<close> at level \<open>i\<close> with the current table at \<open>pa\<close>, and the final
  write of the page descriptor.\<close>

partial_function (option) map_levels ::
    "nat \<Rightarrow> u64 \<Rightarrow> u64 \<Rightarrow> u64 \<Rightarrow> u64 \<Rightarrow> u64 \<Rightarrow> mm \<Rightarrow> mm option" where
  "map_levels i vaddr paddr tblattr pgattr pa s =
     (let pte = pa OR pt_off vaddr i in
      if i < 3 then
        if rd64 s pte AND 0x1 = 0 then
          (let (npa, s1) = mem_allocate_pa s in
           Option.bind (map_levels 0 npa npa 0 PTE_USER_RW (mem_pgtbl_base s1) s1)
             (\<lambda>s2. let s3 = wr64 pte npa s2;
                       s4 = wr64 pte (rd64 s3 pte OR (PTE_TABLE OR tblattr)) s3
                   in map_levels (Suc i) vaddr paddr tblattr pgattr npa s4))
        else map_levels (Suc i) vaddr paddr tblattr pgattr (rd64 s pte AND DESC_ADDR) s
      else
        (let s1 = wr64 pte (paddr AND NOT 0xFFF) s
         in Some (wr64 pte (rd64 s1 pte OR (PTE_PAGE OR PTE_ACCESS OR pgattr)) s1)))"

definition mem_map_pa :: "u64 \<Rightarrow> u64 \<Rightarrow> u64 \<Rightarrow> u64 \<Rightarrow> mm \<Rightarrow> mm option" where
  "mem_map_pa vaddr paddr tblattr pgattr s =
     map_levels 0 vaddr paddr tblattr pgattr (mem_pgtbl_base s) s"

definition mem_map_va :: "u64 \<Rightarrow> u64 \<Rightarrow> u64 \<Rightarrow> mm \<Rightarrow> mm option" where
  "mem_map_va addr tblattr pgattr s =
     (let (pa, s1) = mem_allocate_pa s in mem_map_pa addr pa tblattr pgattr s1)"

text \<open>\<open>mem_unmap_va\<close>: four levels, each checked for a valid descriptor; \<open>-1\<close> leaves the
  state alone, \<open>0\<close> clears the page descriptor. \<open>pte\<close> is the address of the last descriptor
  examined.\<close>

fun unmap_levels :: "nat \<Rightarrow> u64 \<Rightarrow> u64 \<Rightarrow> u64 \<Rightarrow> mm \<Rightarrow> int \<times> mm" where
  "unmap_levels 0 addr pa pte s = (0, wr64 pte 0 s)"
| "unmap_levels (Suc n) addr pa pte s =
     (let pte' = pa OR pt_off addr (4 - Suc n) in
      if rd64 s pte' AND 0x1 = 0 then (- 1, s)
      else unmap_levels n addr (rd64 s pte' AND DESC_ADDR) pte' s)"

definition mem_unmap_va :: "u64 \<Rightarrow> mm \<Rightarrow> int \<times> mm" where
  "mem_unmap_va addr s = unmap_levels 4 addr (mem_pgtbl_base s) 0 s"

fun lookup_levels :: "nat \<Rightarrow> u64 \<Rightarrow> u64 \<Rightarrow> mm \<Rightarrow> u64" where
  "lookup_levels 0 va pa s = pa"
| "lookup_levels (Suc n) va pa s =
     (let pte = pa OR pt_off va (4 - Suc n) in
      if rd64 s pte AND 0x1 = 0 then - 1
      else lookup_levels n va (rd64 s pte AND DESC_ADDR) s)"

definition mem_lookup_pa :: "u64 \<Rightarrow> mm \<Rightarrow> u64" where
  "mem_lookup_pa va s = lookup_levels 4 va (mem_pgtbl_base s) s"

partial_function (option) heap_map_loop :: "u64 \<Rightarrow> u64 \<Rightarrow> mm \<Rightarrow> (u64 \<times> mm) option" where
  "heap_map_loop off len s =
     (if off < len then
        Option.bind (mem_map_va (mem_heap_pool s + off) 0 PTE_USER_RW s)
          (\<lambda>s1. heap_map_loop (off + 0x1000) len s1)
      else Some (off, s))"

definition mem_heap_allocate :: "u64 \<Rightarrow> mm \<Rightarrow> (u64 \<times> mm) option" where
  "mem_heap_allocate len s =
     (let addr = mem_heap_pool s in
      Option.bind (heap_map_loop 0 len s)
        (\<lambda>(off, s1). Some (addr, s1\<lparr>mem_heap_pool := mem_heap_pool s1 + off\<rparr>)))"

end
