(* ===== verification/Interop.thy ===== *)
theory Interop
  imports Layout
begin

text \<open>
  The descriptors that the exception levels exchange: \<^verbatim>\<open>common/interop.h\<close>, with the
  operation codes of \<^verbatim>\<open>common/smc.h\<close> and \<^verbatim>\<open>common/svc.h\<close> and the control block of
  \<^verbatim>\<open>common/syscntl.h\<close>. Both \<open>smc_op_desc_t\<close> and \<open>svc_op_desc_t\<close> are unions of 40 bytes on
  AArch64, and the handlers read and write them through different members (\<open>get.el\<close> lies
  where \<open>test.count\<close> does), so a descriptor is its five 64-bit words and every member
  access a read or write of a word or of half of one. The locale \<open>field\<close> is the contract of
  one member; it is interpreted for every member of every struct.
\<close>

record op_desc =
  w0 :: u64
  w1 :: u64
  w2 :: u64
  w3 :: u64
  w4 :: u64

definition zero_desc :: op_desc where
  "zero_desc = \<lparr>w0 = 0, w1 = 0, w2 = 0, w3 = 0, w4 = 0\<rparr>"

type_synonym smc_op_desc_t = op_desc
type_synonym svc_op_desc_t = op_desc

section \<open>Operation codes\<close>

definition SMC_OP_NOOP :: u32 where [c_const]: "SMC_OP_NOOP = 0"
definition SMC_OP_YIELD :: u32 where [c_const]: "SMC_OP_YIELD = 1"
definition SMC_OP_EXIT :: u32 where [c_const]: "SMC_OP_EXIT = 2"
definition SMC_OP_MAP :: u32 where [c_const]: "SMC_OP_MAP = 3"
definition SMC_OP_GET_REG :: u32 where [c_const]: "SMC_OP_GET_REG = 4"
definition SMC_OP_SET_REG :: u32 where [c_const]: "SMC_OP_SET_REG = 5"
definition SMC_OP_TEST :: u32 where [c_const]: "SMC_OP_TEST = 6"
definition SMC_OP_DISPATCH :: u32 where [c_const]: "SMC_OP_DISPATCH = 7"
definition SVC_OP_YIELD :: u32 where [c_const]: "SVC_OP_YIELD = 1"
definition SVC_OP_EXIT :: u32 where [c_const]: "SVC_OP_EXIT = 2"
definition SVC_OP_MAP :: u32 where [c_const]: "SVC_OP_MAP = 3"
definition SVC_OP_GET_REG :: u32 where [c_const]: "SVC_OP_GET_REG = 4"
definition SVC_OP_SET_REG :: u32 where [c_const]: "SVC_OP_SET_REG = 5"
definition SVC_OP_TEST :: u32 where [c_const]: "SVC_OP_TEST = 6"
definition SVC_OP_DISPATCH :: u32 where [c_const]: "SVC_OP_DISPATCH = 7"
definition SVC_OP_GET_SYSCNTL :: u32 where [c_const]: "SVC_OP_GET_SYSCNTL = 8"
definition SVC_OP_ALLOC :: u32 where [c_const]: "SVC_OP_ALLOC = 9"

definition OP_MAP_NSEC_EL0 :: u32 where [c_const]: "OP_MAP_NSEC_EL0 = 0"
definition OP_MAP_SEC_EL0 :: u32 where [c_const]: "OP_MAP_SEC_EL0 = 1"
definition OP_MAP_NSEC_EL1 :: u32 where [c_const]: "OP_MAP_NSEC_EL1 = 2"
definition OP_MAP_SEC_EL1 :: u32 where [c_const]: "OP_MAP_SEC_EL1 = 4"
definition OP_MAP_EL3 :: u32 where [c_const]: "OP_MAP_EL3 = 8"
definition OP_MAP_ALL :: u32 where [c_const]:
  "OP_MAP_ALL = OP_MAP_SEC_EL0 OR OP_MAP_NSEC_EL1 OR OP_MAP_SEC_EL1 OR OP_MAP_EL3"

definition KEY_CURRENTEL :: u64 where [c_const]: "KEY_CURRENTEL = 1"
definition KEY_CPTR_EL3 :: u64 where [c_const]: "KEY_CPTR_EL3 = 2"
definition KEY_CPACR :: u64 where [c_const]: "KEY_CPACR = 3"
definition KEY_SCR :: u64 where [c_const]: "KEY_SCR = 4"
definition KEY_SCTLR :: u64 where [c_const]: "KEY_SCTLR = 5"
definition KEY_CPSR :: u64 where [c_const]: "KEY_CPSR = 6"

section \<open>Members of the descriptors\<close>

text \<open>\<open>op_alloc_mem_t\<close>\<close>

definition alloc_type :: "op_desc \<Rightarrow> u32" where
  "alloc_type d = lo32 (w0 d)"

definition set_alloc_type :: "u32 \<Rightarrow> op_desc \<Rightarrow> op_desc" where
  "set_alloc_type v d = d\<lparr>w0 := set_lo32 v (w0 d)\<rparr>"

definition alloc_len :: "op_desc \<Rightarrow> u64" where
  "alloc_len d = w1 d"

definition set_alloc_len :: "u64 \<Rightarrow> op_desc \<Rightarrow> op_desc" where
  "set_alloc_len v d = d\<lparr>w1 := v\<rparr>"

definition alloc_addr :: "op_desc \<Rightarrow> u64" where
  "alloc_addr d = w2 d"

definition set_alloc_addr :: "u64 \<Rightarrow> op_desc \<Rightarrow> op_desc" where
  "set_alloc_addr v d = d\<lparr>w2 := v\<rparr>"


text \<open>\<open>op_map_mem_t\<close>\<close>

definition map_type :: "op_desc \<Rightarrow> u32" where
  "map_type d = lo32 (w0 d)"

definition set_map_type :: "u32 \<Rightarrow> op_desc \<Rightarrow> op_desc" where
  "set_map_type v d = d\<lparr>w0 := set_lo32 v (w0 d)\<rparr>"

definition map_len :: "op_desc \<Rightarrow> u64" where
  "map_len d = w1 d"

definition set_map_len :: "u64 \<Rightarrow> op_desc \<Rightarrow> op_desc" where
  "set_map_len v d = d\<lparr>w1 := v\<rparr>"

definition map_va :: "op_desc \<Rightarrow> u64" where
  "map_va d = w2 d"

definition set_map_va :: "u64 \<Rightarrow> op_desc \<Rightarrow> op_desc" where
  "set_map_va v d = d\<lparr>w2 := v\<rparr>"

definition map_pa :: "op_desc \<Rightarrow> u64" where
  "map_pa d = w3 d"

definition set_map_pa :: "u64 \<Rightarrow> op_desc \<Rightarrow> op_desc" where
  "set_map_pa v d = d\<lparr>w3 := v\<rparr>"


text \<open>\<open>op_dispatch_t\<close>\<close>

definition disp_fid :: "op_desc \<Rightarrow> u32" where
  "disp_fid d = lo32 (w0 d)"

definition set_disp_fid :: "u32 \<Rightarrow> op_desc \<Rightarrow> op_desc" where
  "set_disp_fid v d = d\<lparr>w0 := set_lo32 v (w0 d)\<rparr>"

definition disp_arg :: "op_desc \<Rightarrow> u64" where
  "disp_arg d = w1 d"

definition set_disp_arg :: "u64 \<Rightarrow> op_desc \<Rightarrow> op_desc" where
  "set_disp_arg v d = d\<lparr>w1 := v\<rparr>"

definition disp_state :: "op_desc \<Rightarrow> u64" where
  "disp_state d = w2 d"

definition set_disp_state :: "u64 \<Rightarrow> op_desc \<Rightarrow> op_desc" where
  "set_disp_state v d = d\<lparr>w2 := v\<rparr>"

definition disp_el :: "op_desc \<Rightarrow> u64" where
  "disp_el d = w3 d"

definition set_disp_el :: "u64 \<Rightarrow> op_desc \<Rightarrow> op_desc" where
  "set_disp_el v d = d\<lparr>w3 := v\<rparr>"

definition disp_ret :: "op_desc \<Rightarrow> u64" where
  "disp_ret d = w4 d"

definition set_disp_ret :: "u64 \<Rightarrow> op_desc \<Rightarrow> op_desc" where
  "set_disp_ret v d = d\<lparr>w4 := v\<rparr>"


text \<open>\<open>op_data_t\<close>\<close>

definition data_key :: "op_desc \<Rightarrow> u64" where
  "data_key d = w0 d"

definition set_data_key :: "u64 \<Rightarrow> op_desc \<Rightarrow> op_desc" where
  "set_data_key v d = d\<lparr>w0 := v\<rparr>"

definition data_data :: "op_desc \<Rightarrow> u64" where
  "data_data d = w1 d"

definition set_data_data :: "u64 \<Rightarrow> op_desc \<Rightarrow> op_desc" where
  "set_data_data v d = d\<lparr>w1 := v\<rparr>"

definition data_el :: "op_desc \<Rightarrow> u32" where
  "data_el d = lo32 (w2 d)"

definition set_data_el :: "u32 \<Rightarrow> op_desc \<Rightarrow> op_desc" where
  "set_data_el v d = d\<lparr>w2 := set_lo32 v (w2 d)\<rparr>"


text \<open>\<open>op_test_t\<close>\<close>

definition test_orig :: "op_desc \<Rightarrow> u64" where
  "test_orig d = w0 d"

definition set_test_orig :: "u64 \<Rightarrow> op_desc \<Rightarrow> op_desc" where
  "set_test_orig v d = d\<lparr>w0 := v\<rparr>"

definition test_val :: "op_desc \<Rightarrow> u64" where
  "test_val d = w1 d"

definition set_test_val :: "u64 \<Rightarrow> op_desc \<Rightarrow> op_desc" where
  "set_test_val v d = d\<lparr>w1 := v\<rparr>"

definition test_count :: "op_desc \<Rightarrow> u32" where
  "test_count d = lo32 (w2 d)"

definition set_test_count :: "u32 \<Rightarrow> op_desc \<Rightarrow> op_desc" where
  "set_test_count v d = d\<lparr>w2 := set_lo32 v (w2 d)\<rparr>"

definition test_fail :: "op_desc \<Rightarrow> u32" where
  "test_fail d = hi32 (w2 d)"

definition set_test_fail :: "u32 \<Rightarrow> op_desc \<Rightarrow> op_desc" where
  "set_test_fail v d = d\<lparr>w2 := set_hi32 v (w2 d)\<rparr>"

section \<open>The contract of a member\<close>

locale field =
  fixes get :: "'d \<Rightarrow> 'v" and put :: "'v \<Rightarrow> 'd \<Rightarrow> 'd"
  assumes get_put: "get (put v d) = v"
    and put_get: "put (get d) d = d"
    and put_put: "put v (put v' d) = put v d"
begin

lemma put_inj: "put v d = put v' d \<longleftrightarrow> v = v'"
  by (metis get_put)

lemma put_cancel: "get d = v \<Longrightarrow> put v (put v' d) = d"
  by (simp add: put_put) (metis put_get)

end

interpretation alloc_type: field alloc_type set_alloc_type
  by unfold_locales (simp_all add: alloc_type_def set_alloc_type_def)

interpretation alloc_len: field alloc_len set_alloc_len
  by unfold_locales (simp_all add: alloc_len_def set_alloc_len_def)

interpretation alloc_addr: field alloc_addr set_alloc_addr
  by unfold_locales (simp_all add: alloc_addr_def set_alloc_addr_def)

interpretation map_type: field map_type set_map_type
  by unfold_locales (simp_all add: map_type_def set_map_type_def)

interpretation map_len: field map_len set_map_len
  by unfold_locales (simp_all add: map_len_def set_map_len_def)

interpretation map_va: field map_va set_map_va
  by unfold_locales (simp_all add: map_va_def set_map_va_def)

interpretation map_pa: field map_pa set_map_pa
  by unfold_locales (simp_all add: map_pa_def set_map_pa_def)

interpretation disp_fid: field disp_fid set_disp_fid
  by unfold_locales (simp_all add: disp_fid_def set_disp_fid_def)

interpretation disp_arg: field disp_arg set_disp_arg
  by unfold_locales (simp_all add: disp_arg_def set_disp_arg_def)

interpretation disp_state: field disp_state set_disp_state
  by unfold_locales (simp_all add: disp_state_def set_disp_state_def)

interpretation disp_el: field disp_el set_disp_el
  by unfold_locales (simp_all add: disp_el_def set_disp_el_def)

interpretation disp_ret: field disp_ret set_disp_ret
  by unfold_locales (simp_all add: disp_ret_def set_disp_ret_def)

interpretation data_key: field data_key set_data_key
  by unfold_locales (simp_all add: data_key_def set_data_key_def)

interpretation data_data: field data_data set_data_data
  by unfold_locales (simp_all add: data_data_def set_data_data_def)

interpretation data_el: field data_el set_data_el
  by unfold_locales (simp_all add: data_el_def set_data_el_def)

interpretation test_orig: field test_orig set_test_orig
  by unfold_locales (simp_all add: test_orig_def set_test_orig_def)

interpretation test_val: field test_val set_test_val
  by unfold_locales (simp_all add: test_val_def set_test_val_def)

interpretation test_count: field test_count set_test_count
  by unfold_locales (simp_all add: test_count_def set_test_count_def)

interpretation test_fail: field test_fail set_test_fail
  by unfold_locales (simp_all add: test_fail_def set_test_fail_def)

text \<open>The members of one struct do not overlap.\<close>

lemma field_frame [layout]:
  "alloc_type (set_alloc_len v d) = alloc_type d"
  "alloc_type (set_alloc_addr v d) = alloc_type d"
  "alloc_len (set_alloc_type c d) = alloc_len d"
  "alloc_len (set_alloc_addr v d) = alloc_len d"
  "alloc_addr (set_alloc_type c d) = alloc_addr d"
  "alloc_addr (set_alloc_len v d) = alloc_addr d"
  "map_type (set_map_len v d) = map_type d"
  "map_type (set_map_va v d) = map_type d"
  "map_type (set_map_pa v d) = map_type d"
  "map_len (set_map_type c d) = map_len d"
  "map_len (set_map_va v d) = map_len d"
  "map_len (set_map_pa v d) = map_len d"
  "map_va (set_map_type c d) = map_va d"
  "map_va (set_map_len v d) = map_va d"
  "map_va (set_map_pa v d) = map_va d"
  "map_pa (set_map_type c d) = map_pa d"
  "map_pa (set_map_len v d) = map_pa d"
  "map_pa (set_map_va v d) = map_pa d"
  "disp_fid (set_disp_arg v d) = disp_fid d"
  "disp_fid (set_disp_state v d) = disp_fid d"
  "disp_fid (set_disp_el v d) = disp_fid d"
  "disp_fid (set_disp_ret v d) = disp_fid d"
  "disp_arg (set_disp_fid c d) = disp_arg d"
  "disp_arg (set_disp_state v d) = disp_arg d"
  "disp_arg (set_disp_el v d) = disp_arg d"
  "disp_arg (set_disp_ret v d) = disp_arg d"
  "disp_state (set_disp_fid c d) = disp_state d"
  "disp_state (set_disp_arg v d) = disp_state d"
  "disp_state (set_disp_el v d) = disp_state d"
  "disp_state (set_disp_ret v d) = disp_state d"
  "disp_el (set_disp_fid c d) = disp_el d"
  "disp_el (set_disp_arg v d) = disp_el d"
  "disp_el (set_disp_state v d) = disp_el d"
  "disp_el (set_disp_ret v d) = disp_el d"
  "disp_ret (set_disp_fid c d) = disp_ret d"
  "disp_ret (set_disp_arg v d) = disp_ret d"
  "disp_ret (set_disp_state v d) = disp_ret d"
  "disp_ret (set_disp_el v d) = disp_ret d"
  "data_key (set_data_data v d) = data_key d"
  "data_key (set_data_el c d) = data_key d"
  "data_data (set_data_key v d) = data_data d"
  "data_data (set_data_el c d) = data_data d"
  "data_el (set_data_key v d) = data_el d"
  "data_el (set_data_data v d) = data_el d"
  "test_orig (set_test_val v d) = test_orig d"
  "test_orig (set_test_count c d) = test_orig d"
  "test_orig (set_test_fail c d) = test_orig d"
  "test_val (set_test_orig v d) = test_val d"
  "test_val (set_test_count c d) = test_val d"
  "test_val (set_test_fail c d) = test_val d"
  "test_count (set_test_orig v d) = test_count d"
  "test_count (set_test_val v d) = test_count d"
  "test_count (set_test_fail c d) = test_count d"
  "test_fail (set_test_orig v d) = test_fail d"
  "test_fail (set_test_val v d) = test_fail d"
  "test_fail (set_test_count c d) = test_fail d"
  by (simp_all add: alloc_addr_def set_alloc_addr_def
      alloc_len_def set_alloc_len_def
      alloc_type_def set_alloc_type_def
      data_data_def set_data_data_def
      data_el_def set_data_el_def
      data_key_def set_data_key_def
      disp_arg_def set_disp_arg_def
      disp_el_def set_disp_el_def
      disp_fid_def set_disp_fid_def
      disp_ret_def set_disp_ret_def
      disp_state_def set_disp_state_def
      map_len_def set_map_len_def
      map_pa_def set_map_pa_def
      map_type_def set_map_type_def
      map_va_def set_map_va_def
      test_count_def set_test_count_def
      test_fail_def set_test_fail_def
      test_orig_def set_test_orig_def
      test_val_def set_test_val_def)

lemmas field_laws [layout] =
  alloc_type.get_put alloc_type.put_put
  alloc_len.get_put alloc_len.put_put
  alloc_addr.get_put alloc_addr.put_put
  map_type.get_put map_type.put_put
  map_len.get_put map_len.put_put
  map_va.get_put map_va.put_put
  map_pa.get_put map_pa.put_put
  disp_fid.get_put disp_fid.put_put
  disp_arg.get_put disp_arg.put_put
  disp_state.get_put disp_state.put_put
  disp_el.get_put disp_el.put_put
  disp_ret.get_put disp_ret.put_put
  data_key.get_put data_key.put_put
  data_data.get_put data_data.put_put
  data_el.get_put data_el.put_put
  test_orig.get_put test_orig.put_put
  test_val.get_put test_val.put_put
  test_count.get_put test_count.put_put
  test_fail.get_put test_fail.put_put

text \<open>Where the members of different structs do overlap: the selector \<open>get.el\<close> of a register
  access is the low half of the word that holds \<open>test.count\<close> and \<open>test.fail\<close>.\<close>

lemma data_el_is_test_count: "data_el d = test_count d"
  by (simp add: data_el_def test_count_def)

lemma data_el_set_test [layout]:
  "data_el (set_test_fail c d) = data_el d" "data_el (set_test_val v d) = data_el d"
  "data_el (set_test_count c d) = c"
  by (simp_all add: data_el_def set_test_fail_def set_test_val_def set_test_count_def)

section \<open>Copies\<close>

text \<open>\<open>memcpy(desc, map, sizeof(op_map_mem_t))\<close> copies the first four words only; a copy of a
  whole descriptor is the descriptor itself.\<close>

definition copy_map :: "op_desc \<Rightarrow> op_desc \<Rightarrow> op_desc" where
  "copy_map dst src = src\<lparr>w4 := w4 dst\<rparr>"

lemma copy_map_fields [layout]:
  "map_type (copy_map dst src) = map_type src" "map_len (copy_map dst src) = map_len src"
  "map_va (copy_map dst src) = map_va src" "map_pa (copy_map dst src) = map_pa src"
  by (simp_all add: copy_map_def map_type_def map_len_def map_va_def map_pa_def)

section \<open>The system control block\<close>

record sys_exception_t =
  excp_ec :: u32
  excp_iss :: u32
  excp_far :: u32
  excp_log :: bool
  excp_action :: u32
  excp_taken :: bool
  excp_el :: u32
  excp_state :: u32

definition EXCP_ACTION_SKIP :: u32 where [c_const]: "EXCP_ACTION_SKIP = 1"

record test_control_t =
  tc_fail_count :: u32
  tc_test_count :: u32

record sys_control_t =
  buf_pa :: u64
  buf_va :: u64
  excp :: sys_exception_t
  test_cntl :: u64

end
