(* ===== verification/Monitor.thy ===== *)
theory Monitor
  imports CMemory Interop
begin

text \<open>
  The monitor: the state buffer of \<^verbatim>\<open>el3/aarch64/el3_monitor.h\<close> and the macros and entry
  points of \<^verbatim>\<open>el3/aarch64/el3_monitor_asm.S\<close>. \<open>cpu\<close> holds the registers the code touches;
  \<open>gpr\<close> is x0 to x30. The state buffers are records, apart from the memory that holds EL3's
  stack, so the model assumes that no stack slot lies in a buffer. The instructions that are
  commented out of the macros are left out here as well.
\<close>

record cpu =
  r_elr_el3 :: u64
  r_spsr_el3 :: u64
  r_elr_el1 :: u64
  r_spsr_el1 :: u64
  r_esr_el1 :: u64
  r_sp_el1 :: u64
  r_spsel :: u64
  r_sp_el0 :: u64
  r_spsr_abt :: u64
  r_spsr_und :: u64
  r_spsr_irq :: u64
  r_spsr_fiq :: u64
  r_sctlr_el1 :: u64
  r_actlr_el1 :: u64
  r_cpacr_el1 :: u64
  r_csselr_el1 :: u64
  r_ttbr0_el1 :: u64
  r_ttbr1_el1 :: u64
  r_tcr_el1 :: u64
  r_vbar_el1 :: u64
  r_mair_el1 :: u64
  r_amair_el1 :: u64
  r_tpidr_el0 :: u64
  r_tpidr_el1 :: u64
  r_tpidrro_el0 :: u64
  r_contextidr_el1 :: u64
  r_par_el1 :: u64
  r_far_el1 :: u64
  r_afsr0_el1 :: u64
  r_afsr1_el1 :: u64
  r_scr_el3 :: u64
  r_cptr_el3 :: u64
  r_sp_el3 :: u64
  r_esr_el3 :: u64
  r_far_el3 :: u64
  r_cpsr :: u32
  gpr :: "nat \<Rightarrow> u64"
  stack_mem :: mem

record state_buf =
  b_elr_el3 :: u64
  b_spsr_el3 :: u64
  b_elr_el1 :: u64
  b_spsr_el1 :: u64
  b_esr_el1 :: u64
  b_sp_el1 :: u64
  b_spsel :: u64
  b_sp_el0 :: u64
  b_spsr_abt :: u64
  b_spsr_und :: u64
  b_spsr_irq :: u64
  b_spsr_fiq :: u64
  b_sctlr_el1 :: u64
  b_actlr_el1 :: u64
  b_cpacr_el1 :: u64
  b_csselr_el1 :: u64
  b_ttbr0_el1 :: u64
  b_ttbr1_el1 :: u64
  b_tcr_el1 :: u64
  b_vbar_el1 :: u64
  b_mair_el1 :: u64
  b_amair_el1 :: u64
  b_tpidr_el0 :: u64
  b_tpidr_el1 :: u64
  b_tpidrro_el0 :: u64
  b_contextidr_el1 :: u64
  b_par_el1 :: u64
  b_far_el1 :: u64
  b_afsr0_el1 :: u64
  b_afsr1_el1 :: u64
  b_reg :: "nat \<Rightarrow> u64"

text \<open>A cleared buffer: \<open>memset\<close> in \<open>el3_monitor_init\<close>.\<close>

definition zero_buf :: state_buf where
  "zero_buf = \<lparr>b_elr_el3 = 0, b_spsr_el3 = 0, b_elr_el1 = 0, b_spsr_el1 = 0, b_esr_el1 = 0, b_sp_el1 = 0,
     b_spsel = 0, b_sp_el0 = 0, b_spsr_abt = 0, b_spsr_und = 0, b_spsr_irq = 0, b_spsr_fiq = 0,
     b_sctlr_el1 = 0, b_actlr_el1 = 0, b_cpacr_el1 = 0, b_csselr_el1 = 0, b_ttbr0_el1 = 0, b_ttbr1_el1 = 0,
     b_tcr_el1 = 0, b_vbar_el1 = 0, b_mair_el1 = 0, b_amair_el1 = 0, b_tpidr_el0 = 0, b_tpidr_el1 = 0,
     b_tpidrro_el0 = 0, b_contextidr_el1 = 0, b_par_el1 = 0, b_far_el1 = 0, b_afsr0_el1 = 0, b_afsr1_el1 = 0,
     b_reg = (\<lambda>_. 0)\<rparr>"

section \<open>Saving and restoring\<close>

text \<open>\<open>MONITOR_SAVE_STATE\<close> into the buffer x0 points to. x1 and x2 are scratch registers; slot
  \<open>i\<close> of \<open>reg\<close> is x(4+i).\<close>

definition save_regs :: "cpu \<Rightarrow> state_buf \<Rightarrow> state_buf" where
  "save_regs c b = b\<lparr>
     b_elr_el3 := r_elr_el3 c,
     b_spsr_el3 := r_spsr_el3 c,
     b_elr_el1 := r_elr_el1 c,
     b_spsr_el1 := r_spsr_el1 c,
     b_esr_el1 := r_esr_el1 c,
     b_sp_el1 := r_sp_el1 c,
     b_spsel := r_spsel c,
     b_sp_el0 := r_sp_el0 c,
     b_sctlr_el1 := r_sctlr_el1 c,
     b_actlr_el1 := r_actlr_el1 c,
     b_cpacr_el1 := r_cpacr_el1 c,
     b_csselr_el1 := r_csselr_el1 c,
     b_ttbr0_el1 := r_ttbr0_el1 c,
     b_ttbr1_el1 := r_ttbr1_el1 c,
     b_tcr_el1 := r_tcr_el1 c,
     b_vbar_el1 := r_vbar_el1 c,
     b_mair_el1 := r_mair_el1 c,
     b_amair_el1 := r_amair_el1 c,
     b_tpidr_el0 := r_tpidr_el0 c,
     b_tpidr_el1 := r_tpidr_el1 c,
     b_tpidrro_el0 := r_tpidrro_el0 c,
     b_contextidr_el1 := r_contextidr_el1 c,
     b_reg := (\<lambda>i. if i < 27 then gpr c (4 + i) else b_reg b i)\<rparr>"

definition restore_regs :: "state_buf \<Rightarrow> cpu \<Rightarrow> cpu" where
  "restore_regs b c = c\<lparr>
     r_elr_el3 := b_elr_el3 b,
     r_spsr_el3 := b_spsr_el3 b,
     r_elr_el1 := b_elr_el1 b,
     r_spsr_el1 := b_spsr_el1 b,
     r_esr_el1 := b_esr_el1 b,
     r_sp_el1 := b_sp_el1 b,
     r_spsel := b_spsel b,
     r_sp_el0 := b_sp_el0 b,
     r_sctlr_el1 := b_sctlr_el1 b,
     r_actlr_el1 := b_actlr_el1 b,
     r_cpacr_el1 := b_cpacr_el1 b,
     r_csselr_el1 := b_csselr_el1 b,
     r_ttbr0_el1 := b_ttbr0_el1 b,
     r_ttbr1_el1 := b_ttbr1_el1 b,
     r_tcr_el1 := b_tcr_el1 b,
     r_vbar_el1 := b_vbar_el1 b,
     r_mair_el1 := b_mair_el1 b,
     r_amair_el1 := b_amair_el1 b,
     r_tpidr_el0 := b_tpidr_el0 b,
     r_tpidr_el1 := b_tpidr_el1 b,
     r_tpidrro_el0 := b_tpidrro_el0 b,
     r_contextidr_el1 := b_contextidr_el1 b,
     gpr := (\<lambda>n. if 4 \<le> n \<and> n \<le> 30 then b_reg b (n - 4) else gpr c n)\<rparr>"

text \<open>The last pair of system registers goes through x1 and x2.\<close>

definition monitor_save :: "cpu \<Rightarrow> state_buf \<Rightarrow> cpu \<times> state_buf" where
  "monitor_save c b =
     (c\<lparr>gpr := (gpr c)(1 := r_tpidrro_el0 c, 2 := r_contextidr_el1 c)\<rparr>, save_regs c b)"

definition monitor_restore :: "state_buf \<Rightarrow> cpu \<Rightarrow> cpu" where
  "monitor_restore b c = (restore_regs b c)\<lparr>
     gpr := (gpr (restore_regs b c))(1 := b_tpidrro_el0 b, 2 := b_contextidr_el1 b)\<rparr>"

section \<open>EL3's stack\<close>

text \<open>\<open>SPSel\<close> chooses the stack pointer EL3 uses: 0 is SP_EL0, 1 its own.\<close>

definition cur_sp :: "cpu \<Rightarrow> u64" where
  "cur_sp c = (if r_spsel c AND 1 = 0 then r_sp_el0 c else r_sp_el3 c)"

definition set_sp :: "u64 \<Rightarrow> cpu \<Rightarrow> cpu" where
  "set_sp a c = (if r_spsel c AND 1 = 0 then c\<lparr>r_sp_el0 := a\<rparr> else c\<lparr>r_sp_el3 := a\<rparr>)"

definition set_reg :: "nat \<Rightarrow> u64 \<Rightarrow> cpu \<Rightarrow> cpu" where
  "set_reg n v c = c\<lparr>gpr := (gpr c)(n := v)\<rparr>"

text \<open>\<open>stp a, b, [sp, #-16]!\<close> and \<open>ldp a, b, [sp], #16\<close>.\<close>

definition push_pair :: "nat \<Rightarrow> nat \<Rightarrow> cpu \<Rightarrow> cpu" where
  "push_pair a b c =
     (let sp = cur_sp c - 16; c1 = set_sp sp c
      in c1\<lparr>stack_mem := store64 (sp + 8) (gpr c b) (store64 sp (gpr c a) (stack_mem c1))\<rparr>)"

definition pop_pair :: "nat \<Rightarrow> nat \<Rightarrow> cpu \<Rightarrow> cpu" where
  "pop_pair a b c =
     (let sp = cur_sp c
      in set_sp (sp + 16) (set_reg b (load64 (stack_mem c) (sp + 8)) (set_reg a (load64 (stack_mem c) sp) c)))"

section \<open>monitor_switch\<close>

record monitor =
  mon_cpu :: cpu
  sec_state :: state_buf
  nsec_state :: state_buf

text \<open>x0 holds the buffer's address meanwhile; the final \<open>ldp\<close> overwrites it.\<close>

definition switch_body :: "u64 \<Rightarrow> monitor \<Rightarrow> monitor" where
  "switch_body ns m =
     (if ns = 0
      then (let (c, b) = monitor_save (mon_cpu m) (sec_state m)
            in m\<lparr>sec_state := b, mon_cpu := monitor_restore (nsec_state m) c\<rparr>)
      else (let (c, b) = monitor_save (mon_cpu m) (nsec_state m)
            in m\<lparr>nsec_state := b, mon_cpu := monitor_restore (sec_state m) c\<rparr>))"

definition monitor_switch :: "monitor \<Rightarrow> monitor" where
  "monitor_switch m =
     (let c1 = push_pair 2 3 (push_pair 0 1 (mon_cpu m));
          x3 = r_scr_el3 c1 AND 1;
          m1 = switch_body x3 (m\<lparr>mon_cpu := set_reg 3 x3 c1\<rparr>);
          c2 = (mon_cpu m1)\<lparr>r_scr_el3 := x3 XOR 1\<rparr>
      in m1\<lparr>mon_cpu := pop_pair 0 1 (pop_pair 2 3 (set_reg 3 (x3 XOR 1) c2))\<rparr>)"

text \<open>\<open>monitor_restore_state\<close> (the entry that \<open>el3_start\<close> uses) saves x30 on the stack around
  the macro.\<close>

definition monitor_restore_state :: "state_buf \<Rightarrow> cpu \<Rightarrow> cpu" where
  "monitor_restore_state b c =
     (let sp = cur_sp c - 8;
          c1 = (set_sp sp c)\<lparr>stack_mem := store64 sp (gpr c 30) (stack_mem c)\<rparr>;
          c2 = monitor_restore b c1;
          sp2 = cur_sp c2
      in set_sp (sp2 + 8) (set_reg 30 (load64 (stack_mem c2) sp2) c2))"

end
