(* ===== verification/TzTest.thy ===== *)
theory TzTest
  imports Interop
begin

text \<open>
  \<^verbatim>\<open>tztest/tztest.c\<close> and the test tables of \<^verbatim>\<open>tztest/el0\<close>, \<^verbatim>\<open>tztest/el1\<close> and
  \<^verbatim>\<open>tztest/el3\<close>: the list of test cases, the function tables of the five images, the
  routing decision \<open>run_test\<close> makes, and the step of the inter-level test that every level
  performs on the shared descriptor. \<open>arch\<close> stands for the AARCH32/AARCH64 preprocessor
  choice.
\<close>

datatype arch = AArch32 | AArch64

text \<open>\<open>tztest_func_id_t\<close>\<close>

definition TZTEST_SMC :: u32 where [c_const]: "TZTEST_SMC = 1"
definition TZTEST_REG_ACCESS :: u32 where [c_const]: "TZTEST_REG_ACCESS = 2"
definition TZTEST_CPACR_TRAP :: u32 where [c_const]: "TZTEST_CPACR_TRAP = 3"
definition TZTEST_WFX_TRAP :: u32 where [c_const]: "TZTEST_WFX_TRAP = 4"
definition TZTEST_FP_TRAP :: u32 where [c_const]: "TZTEST_FP_TRAP = 5"
definition TZTEST_MASK_BITS :: u32 where [c_const]: "TZTEST_MASK_BITS = 6"

section \<open>Test cases\<close>

record tztest_case_t =
  tc_fid :: u32
  tc_el :: u32
  tc_state :: u32
  tc_arg :: u32

definition TEST :: "u32 \<Rightarrow> u32 \<Rightarrow> u32 \<Rightarrow> u32 \<Rightarrow> tztest_case_t" where
  "TEST f e s a = \<lparr>tc_fid = f, tc_el = e, tc_state = s, tc_arg = a\<rparr>"

definition TEST_END :: tztest_case_t where
  "TEST_END = TEST 0 0 0 0"

definition tztest :: "arch \<Rightarrow> tztest_case_t list" where
  "tztest a =
     [TEST TZTEST_SMC EL0 NONSECURE 0,
      TEST TZTEST_SMC EL0 SECURE 0,
      TEST TZTEST_REG_ACCESS EL0 NONSECURE 0,
      TEST TZTEST_REG_ACCESS EL0 SECURE 0]
     @ (if a = AArch64 then
          [TEST TZTEST_CPACR_TRAP EL0 NONSECURE 0,
           TEST TZTEST_CPACR_TRAP EL0 SECURE 0,
           TEST TZTEST_WFX_TRAP EL0 NONSECURE 0,
           TEST TZTEST_WFX_TRAP EL0 SECURE 0,
           TEST TZTEST_FP_TRAP EL0 NONSECURE 0,
           TEST TZTEST_FP_TRAP EL0 SECURE 0]
        else [])
     @ [TEST TZTEST_REG_ACCESS EL1 NONSECURE 0,
        TEST TZTEST_REG_ACCESS EL1 SECURE 0]
     @ (if a = AArch32 then
          [TEST TZTEST_SMC EL1 NONSECURE 0,
           TEST TZTEST_SMC EL1 SECURE 0,
           TEST TZTEST_MASK_BITS EL1 NONSECURE 0,
           TEST TZTEST_SMC EL3 SECURE 0]
        else
          [TEST TZTEST_CPACR_TRAP EL1 NONSECURE 0,
           TEST TZTEST_CPACR_TRAP EL1 SECURE 0,
           TEST TZTEST_WFX_TRAP EL1 NONSECURE 0,
           TEST TZTEST_WFX_TRAP EL1 SECURE 0,
           TEST TZTEST_FP_TRAP EL1 NONSECURE 0,
           TEST TZTEST_FP_TRAP EL1 SECURE 0])
     @ [TEST_END]"

text \<open>The cases \<open>tztest_start\<close> runs: its loop stops at the first \<open>fid\<close> of 0.\<close>

fun tztest_loop :: "tztest_case_t list \<Rightarrow> tztest_case_t list" where
  "tztest_loop [] = []"
| "tztest_loop (t # ts) = (if tc_fid t \<noteq> 0 then t # tztest_loop ts else [])"

section \<open>Function tables\<close>

datatype test_fn =
    El0_check_smc | El0_check_register_access | El0_check_cpacr_trap | El0_check_wfx_trap
  | El0_check_fp_trap | El1_check_smc | El1_check_register_access_nsec
  | El1_check_register_access_sec | El1_check_cpacr_trap | El1_check_wfx_trap | El1_check_fp_trap
  | Check_mask_bits | El3_check_smc

text \<open>\<open>test_func\<close> of each image: the C array has as many slots as its highest designator
  needs, and the slots without one are null.\<close>

definition el0_test_func :: "arch \<Rightarrow> test_fn option list" where
  "el0_test_func a =
     [None, Some El0_check_smc, Some El0_check_register_access]
     @ (if a = AArch64 then [Some El0_check_cpacr_trap, Some El0_check_wfx_trap, Some El0_check_fp_trap] else [])"

definition el1_nsec_test_func :: "arch \<Rightarrow> test_fn option list" where
  "el1_nsec_test_func a =
     [None, Some El1_check_smc, Some El1_check_register_access_nsec]
     @ (if a = AArch64 then [Some El1_check_cpacr_trap, Some El1_check_wfx_trap, Some El1_check_fp_trap]
        else [None, None, None, Some Check_mask_bits])"

definition el1_sec_test_func :: "arch \<Rightarrow> test_fn option list" where
  "el1_sec_test_func a =
     [None, Some El1_check_smc, Some El1_check_register_access_sec]
     @ (if a = AArch64 then [Some El1_check_cpacr_trap, Some El1_check_wfx_trap, Some El1_check_fp_trap] else [])"

definition el3_test_func :: "arch \<Rightarrow> test_fn option list" where
  "el3_test_func a = (if a = AArch32 then [None, Some El3_check_smc] else [])"

text \<open>The table of the image that runs at a level in a security state (EL0 has one table per
  world with the same contents).\<close>

definition test_func :: "arch \<Rightarrow> u32 \<Rightarrow> u32 \<Rightarrow> test_fn option list" where
  "test_func a el state =
     (if el = EL0 then el0_test_func a
      else if el = EL1 then (if state = SECURE then el1_sec_test_func a else el1_nsec_test_func a)
      else if el = EL3 then el3_test_func a
      else [])"

section \<open>run_test\<close>

text \<open>What a call of \<open>run_test\<close> does: call the test, find a null slot, read past the end of
  the table (undefined in C), or issue \<open>SVC_OP_DISPATCH\<close> with a descriptor on the stack, of
  which \<open>junk\<close> is the earlier contents.\<close>

datatype run_outcome = Run test_fn u32 | Null_slot | Bad_index | Forward op_desc

definition dispatch_desc :: "op_desc \<Rightarrow> u32 \<Rightarrow> u32 \<Rightarrow> u32 \<Rightarrow> u32 \<Rightarrow> op_desc" where
  "dispatch_desc junk fid el state arg =
     set_disp_arg (ucast arg) (set_disp_state (ucast state) (set_disp_el (ucast el) (set_disp_fid fid junk)))"

definition run_test :: "test_fn option list \<Rightarrow> u32 \<Rightarrow> u32 \<Rightarrow> op_desc \<Rightarrow> u32 \<Rightarrow> u32 \<Rightarrow> u32 \<Rightarrow> u32 \<Rightarrow> run_outcome" where
  "run_test tf exception_level secure_state junk fid el state arg =
     (if el = exception_level \<and> state = secure_state then
        (if unat fid < length tf then
           (case tf ! unat fid of Some f \<Rightarrow> Run f arg | None \<Rightarrow> Null_slot)
         else Bad_index)
      else Forward (dispatch_desc junk fid el state arg))"

section \<open>TEST_CONDITION\<close>

text \<open>The outcome of a check is counted in the shared control block.\<close>

definition count_check :: "bool \<Rightarrow> test_control_t \<Rightarrow> test_control_t" where
  "count_check ok c =
     (let c1 = (if ok then c else c\<lparr>tc_fail_count := tc_fail_count c + 1\<rparr>)
      in c1\<lparr>tc_test_count := tc_test_count c1 + 1\<rparr>)"

section \<open>The inter-level test\<close>

text \<open>The step a level performs on the descriptor: \<open>val\<close> must be \<open>orig\<close> shifted right by the
  number of levels that have handled it. The shift is the target's LSR, which uses the low six
  bits of the amount.\<close>

definition lsr :: "u64 \<Rightarrow> u32 \<Rightarrow> u64" where
  "lsr x n = drop_bit (unat n mod 64) x"

definition test_step :: "op_desc \<Rightarrow> op_desc" where
  "test_step d =
     (let d1 = (if test_val d \<noteq> lsr (test_orig d) (test_count d) then set_test_fail (test_fail d + 1) d else d);
          d2 = set_test_val (drop_bit 1 (test_val d1)) d1
      in set_test_count (test_count d2 + 1) d2)"

text \<open>\<open>interop_test\<close>: the initial descriptor and the final condition.\<close>

definition interop_init :: "op_desc \<Rightarrow> op_desc" where
  "interop_init junk =
     set_test_count 0 (set_test_fail 0 (set_test_val 1024 (set_test_orig 1024 junk)))"

definition interop_ok :: "op_desc \<Rightarrow> bool" where
  "interop_ok d \<longleftrightarrow> test_fail d = 0 \<and> test_val d = lsr (test_orig d) (test_count d)"

section \<open>The table\<close>

text \<open>Every test case of the table finds a test function in the image it is directed to:
  \<open>run_test\<close> there neither reads past its table nor hits a null slot, on both architectures.\<close>

lemma tztest_cases_resolve:
  "list_all (\<lambda>t. \<exists>f. run_test (test_func a (tc_el t) (tc_state t)) (tc_el t) (tc_state t) junk
                       (tc_fid t) (tc_el t) (tc_state t) (tc_arg t) = Run f (tc_arg t))
     (tztest_loop (tztest a))"
  by (cases a) (simp_all add: tztest_def TEST_END_def TEST_def run_test_def test_func_def el0_test_func_def
      el1_nsec_test_func_def el1_sec_test_func_def el3_test_func_def c_const)

lemma tztest_loop_nonzero: "t \<in> set (tztest_loop ts) \<Longrightarrow> tc_fid t \<noteq> 0"
  by (induction ts) (auto split: if_splits)

lemma dispatch_desc_fields [layout]:
  "disp_fid (dispatch_desc junk fid el state arg) = fid"
  "disp_el (dispatch_desc junk fid el state arg) = ucast el"
  "disp_state (dispatch_desc junk fid el state arg) = ucast state"
  "disp_arg (dispatch_desc junk fid el state arg) = ucast arg"
  by (simp_all add: dispatch_desc_def layout)

text \<open>As long as every level has kept the contract, one more step keeps it.\<close>

lemma test_step_fields:
  "test_orig (test_step d) = test_orig d"
  "test_count (test_step d) = test_count d + 1"
  "test_val (test_step d) = drop_bit 1 (test_val d)"
  "test_fail (test_step d) =
     (if test_val d \<noteq> lsr (test_orig d) (test_count d) then test_fail d + 1 else test_fail d)"
  by (simp_all add: test_step_def Let_def layout)

lemma test_step_ok:
  assumes "interop_ok d" "test_count d < 63"
  shows "interop_ok (test_step d)"
proof -
  have u: "unat (test_count d) < 63" using assms(2) by (simp add: word_less_nat_alt)
  then have "unat (test_count d + 1) = unat (test_count d) + 1"
    by (simp add: unat_word_ariths)
  then show ?thesis
    using assms(1) u by (simp add: interop_ok_def test_step_fields lsr_def)
qed

lemma interop_init_ok: "interop_ok (interop_init junk)" "test_count (interop_init junk) = 0"
  by (simp_all add: interop_ok_def interop_init_def layout lsr_def)

lemma interop_steps:
  assumes "n \<le> 63"
  shows "interop_ok ((test_step ^^ n) (interop_init junk)) \<and>
     test_count ((test_step ^^ n) (interop_init junk)) = of_nat n \<and>
     test_val ((test_step ^^ n) (interop_init junk)) = drop_bit n 1024"
  using assms
proof (induction n)
  case 0
  then show ?case using interop_init_ok by (simp add: interop_init_def layout)
next
  case (Suc n)
  let ?d = "(test_step ^^ n) (interop_init junk)"
  have "interop_ok ?d" "test_count ?d = of_nat n" "test_val ?d = drop_bit n 1024"
    using Suc by simp_all
  moreover have "(of_nat n :: u32) < 63"
    using Suc.prems by (simp add: word_less_nat_alt unsigned_of_nat take_bit_nat_eq_self)
  ultimately show ?case by (simp add: test_step_ok test_step_fields add.commute)
qed

text \<open>After any number of levels up to 63 have taken their step, the descriptor passes the
  final check of \<open>interop_test\<close>; the values the levels see are 1024 shifted by their number.\<close>

theorem interop_steps_ok:
  assumes "n \<le> 63"
  shows "interop_ok ((test_step ^^ n) (interop_init junk)) \<and>
     test_count ((test_step ^^ n) (interop_init junk)) = of_nat n \<and>
     test_val ((test_step ^^ n) (interop_init junk)) = drop_bit n 1024"
  using interop_steps [OF assms] .

theorem interop_steps_ok_witness:
  "interop_ok ((test_step ^^ 5) (interop_init zero_desc)) \<and>
   test_val ((test_step ^^ 5) (interop_init zero_desc)) = 32"
  using interop_steps_ok [of 5 zero_desc] by simp

end
