(* ===== verification/El3.thy ===== *)
theory El3
  imports PageTable Monitor TzTest
begin

text \<open>
  The EL3 image, \<^verbatim>\<open>el3/el3.c\<close> and the exception vector of \<^verbatim>\<open>el3/aarch64/el3_exception.S\<close>.
  \<open>el3\<close> holds the image's globals, the processor, the two state buffers (inside \<open>monitor\<close>),
  the shared control block \<open>syscntl\<close>, and what the outside can see: the value written to the
  system configuration register and the tests EL3 ran. A handler returns \<open>None\<close> where a
  call of \<open>mem_map_pa\<close> does, and where the code reads past the end of its table of tests.
\<close>

record el3 =
  secure_state :: u32
  el3_mm :: mm
  el3_mon :: monitor
  syscntl :: sys_control_t
  syscntl_va :: u64
  smc_interop_buf :: u64
  cfgctrl :: u64
  wfi_count :: nat
  el3_ran :: "(test_fn \<times> u32) list"

definition exception_level_el3 :: u32 where [c_const]: "exception_level_el3 = EL3"

abbreviation cpu_of :: "el3 \<Rightarrow> cpu" where
  "cpu_of s \<equiv> mon_cpu (el3_mon s)"

definition upd_cpu :: "(cpu \<Rightarrow> cpu) \<Rightarrow> el3 \<Rightarrow> el3" where
  "upd_cpu f s = s\<lparr>el3_mon := (el3_mon s)\<lparr>mon_cpu := f (mon_cpu (el3_mon s))\<rparr>\<rparr>"

section \<open>Shutdown and memory operations\<close>

text \<open>The write of \<open>SYS_SHUTDOWN\<close> (an \<open>int\<close> with bit 31 set, so it is sign extended to the
  width of the pointer's type) and the \<open>wfi\<close> that follows; control returns after them where
  the platform ignores the register.\<close>

definition el3_shutdown :: "el3 \<Rightarrow> el3" where
  "el3_shutdown s = s\<lparr>cfgctrl := cint SYS_SHUTDOWN, wfi_count := wfi_count s + 1\<rparr>"

definition el3_alloc_mem :: "op_desc \<Rightarrow> el3 \<Rightarrow> (op_desc \<times> el3) option" where
  "el3_alloc_mem alloc s =
     Option.bind (mem_heap_allocate (alloc_len alloc) (el3_mm s))
       (\<lambda>(addr, mm'). Some (set_alloc_addr addr alloc, s\<lparr>el3_mm := mm'\<rparr>))"

definition el3_map_mem :: "op_desc \<Rightarrow> el3 \<Rightarrow> (u32 \<times> op_desc \<times> el3) option" where
  "el3_map_mem d s =
     Option.bind
       (if map_type d AND OP_MAP_EL3 = OP_MAP_EL3 then
          Option.bind (mem_map_pa (map_va d) (map_pa d) 0 PTE_PRIV_RW (el3_mm s))
            (\<lambda>mm'. Some (s\<lparr>el3_mm := mm'\<rparr>))
        else Some s)
       (\<lambda>s1. if map_type d AND OP_MAP_SEC_EL1 = OP_MAP_SEC_EL1
             then Some (SVC_OP_MAP, set_map_type (map_type d AND NOT OP_MAP_EL3) d, s1)
             else Some (0, d, s1))"

section \<open>Exceptions\<close>

text \<open>Logging, common to the three handlers: the registers are truncated to the width of the
  fields.\<close>

definition log_excp :: "u64 \<Rightarrow> u64 \<Rightarrow> u64 \<Rightarrow> u32 \<Rightarrow> u32 \<Rightarrow> sys_exception_t \<Rightarrow> sys_exception_t" where
  "log_excp ec iss far el state e =
     (if excp_log e then
        e\<lparr>excp_taken := True, excp_ec := ucast ec, excp_iss := ucast iss, excp_far := ucast far,
          excp_el := el, excp_state := state\<rparr>
      else e)"

definition upd_excp :: "(sys_exception_t \<Rightarrow> sys_exception_t) \<Rightarrow> sys_control_t \<Rightarrow> sys_control_t" where
  "upd_excp f c = c\<lparr>excp := f (excp c)\<rparr>"

definition set_exception_return_el3 :: "u64 \<Rightarrow> el3 \<Rightarrow> el3" where
  "set_exception_return_el3 elr = upd_cpu (\<lambda>c. c\<lparr>r_elr_el3 := elr\<rparr>)"

definition el3_handle_exception :: "u64 \<Rightarrow> u64 \<Rightarrow> u64 \<Rightarrow> u64 \<Rightarrow> el3 \<Rightarrow> u32 \<times> el3" where
  "el3_handle_exception ec iss far elr s =
     (let s1 = s\<lparr>syscntl := upd_excp (log_excp ec iss far exception_level_el3 0) (syscntl s)\<rparr>;
          skip = (if excp_action (excp (syscntl s1)) = EXCP_ACTION_SKIP then elr + 4 else elr);
          (elr', s2) =
            (if ec = EC_SMC64 \<or> ec = EC_SMC32 then (elr, s1)
             else if ec = EC_IABORT_LOWER then (elr, el3_shutdown s1)
             else if ec = EC_IABORT then (elr, el3_shutdown s1)
             else if ec = EC_DABORT_LOWER then (elr, el3_shutdown s1)
             else if ec = EC_DABORT then (elr, el3_shutdown s1)
             else if ec = EC_SYSINSN then (skip, s1)
             else if ec = EC_WFI_WFE then (skip, s1)
             else if ec = EC_SIMD then (skip, s1)
             else (elr, el3_shutdown s1))
      in (0, set_exception_return_el3 elr' s2))"

section \<open>The SMC handler\<close>

text \<open>\<open>run_test\<close> as called at EL3. A function number past the end of \<open>test_func\<close> is an undefined
  read and call: \<open>None\<close>. A forward would be an \<open>svc\<close> executed at EL3, which the
  vector table passes to \<open>el3_handle_exception\<close> with its own exception class; the handler
  ends with the return address of the SMC either way. The only test of this image is
  \<open>el3_check_smc\<close> of the AArch32 build; the call is recorded here and its body is a program of
  \<^verbatim>\<open>TestProgs\<close>.\<close>

definition el3_run_test :: "arch \<Rightarrow> u32 \<Rightarrow> u32 \<Rightarrow> u32 \<Rightarrow> u32 \<Rightarrow> el3 \<Rightarrow> el3 option" where
  "el3_run_test a fid el state arg s =
     (case run_test (el3_test_func a) exception_level_el3 (secure_state s) zero_desc fid el state arg of
        Run f x \<Rightarrow> Some (s\<lparr>el3_ran := el3_ran s @ [(f, x)]\<rparr>)
      | Null_slot \<Rightarrow> Some s
      | Bad_index \<Rightarrow> None
      | Forward d \<Rightarrow> Some (snd (el3_handle_exception EC_SVC64 0 (r_far_el3 (cpu_of s)) (r_elr_el3 (cpu_of s)) s)))"

text \<open>The register accessors of \<open>SMC_OP_GET_REG\<close>/\<open>SMC_OP_SET_REG\<close>: \<open>CurrentEL\<close> and CPTR_EL3 exist in
  the AArch64 build only, the CPSR in the AArch32 build only. \<open>CurrentEL\<close> reads
  as the level in bits 3:2; \<open>WRITE_CURRENTEL\<close> is defined as a read and changes nothing. A write
  of the CPSR that leaves the current mode changes the stack under the code and is not followed:
  \<open>None\<close>.\<close>

definition cpsr_mode_mask :: u32 where [c_const]: "cpsr_mode_mask = 0x1F"

definition el3_get_reg :: "arch \<Rightarrow> op_desc \<Rightarrow> el3 \<Rightarrow> op_desc" where
  "el3_get_reg a d s =
     (if data_el d = 3 then
        (if a = AArch64 \<and> data_key d = KEY_CURRENTEL then set_data_data (push_bit 2 (ucast exception_level_el3)) d
         else if a = AArch64 \<and> data_key d = KEY_CPTR_EL3 then set_data_data (r_cptr_el3 (cpu_of s)) d
         else if a = AArch32 \<and> data_key d = KEY_CPSR then set_data_data (ucast (r_cpsr (cpu_of s))) d
         else if data_key d = KEY_CPACR then set_data_data (r_cpacr_el1 (cpu_of s)) d
         else if data_key d = KEY_SCR then set_data_data (r_scr_el3 (cpu_of s)) d
         else if data_key d = KEY_SCTLR then set_data_data (r_sctlr_el1 (cpu_of s)) d
         else d)
      else d)"

definition el3_set_reg :: "arch \<Rightarrow> op_desc \<Rightarrow> el3 \<Rightarrow> el3 option" where
  "el3_set_reg a d s =
     (if data_el d = 3 then
        (if a = AArch64 \<and> data_key d = KEY_CURRENTEL then Some s
         else if a = AArch64 \<and> data_key d = KEY_CPTR_EL3 then Some (upd_cpu (\<lambda>c. c\<lparr>r_cptr_el3 := data_data d\<rparr>) s)
         else if a = AArch32 \<and> data_key d = KEY_CPSR then
           (if ucast (data_data d) AND cpsr_mode_mask = r_cpsr (cpu_of s) AND cpsr_mode_mask
            then Some (upd_cpu (\<lambda>c. c\<lparr>r_cpsr := ucast (data_data d)\<rparr>) s) else None)
         else if data_key d = KEY_CPACR then Some (upd_cpu (\<lambda>c. c\<lparr>r_cpacr_el1 := data_data d\<rparr>) s)
         else if data_key d = KEY_SCR then Some (upd_cpu (\<lambda>c. c\<lparr>r_scr_el3 := data_data d\<rparr>) s)
         else if data_key d = KEY_SCTLR then Some (upd_cpu (\<lambda>c. c\<lparr>r_sctlr_el1 := data_data d\<rparr>) s)
         else Some s)
      else Some s)"

text \<open>The switch of \<open>el3_handle_smc\<close>: \<open>SMC_OP_TEST\<close> has no \<open>break\<close> and falls through into
  \<open>SMC_OP_GET_REG\<close>.\<close>

definition el3_smc_switch :: "arch \<Rightarrow> u64 \<Rightarrow> op_desc \<Rightarrow> el3 \<Rightarrow> (u32 \<times> op_desc \<times> el3) option" where
  "el3_smc_switch a op d s =
     (if op = ucast SMC_OP_YIELD then Some (SVC_OP_YIELD, d, s)
      else if op = ucast SMC_OP_MAP then el3_map_mem d s
      else if op = ucast SMC_OP_NOOP then Some (0, d, s)
      else if op = ucast SMC_OP_EXIT then Some (0, d, el3_shutdown s)
      else if op = ucast SMC_OP_DISPATCH then
        (if disp_el d = ucast exception_level_el3 \<and>
            disp_state d = r_scr_el3 (cpu_of s) AND ucast SCR_NS
         then Option.bind (el3_run_test a (disp_fid d) (ucast (disp_el d)) (ucast (disp_state d)) (ucast (disp_arg d)) s)
                (\<lambda>s1. Some (0, d, s1))
         else Some (SVC_OP_DISPATCH, d, s))
      else if op = ucast SMC_OP_TEST then Some (SVC_OP_TEST, el3_get_reg a (test_step d) s, s)
      else if op = ucast SMC_OP_GET_REG then Some (0, el3_get_reg a d s, s)
      else if op = ucast SMC_OP_SET_REG then Option.bind (el3_set_reg a d s) (\<lambda>s1. Some (0, d, s1))
      else Some (0, d, el3_shutdown s))"

definition el3_handle_smc :: "arch \<Rightarrow> u64 \<Rightarrow> op_desc \<Rightarrow> u64 \<Rightarrow> el3 \<Rightarrow> (u32 \<times> op_desc \<times> el3) option" where
  "el3_handle_smc a op d elr s =
     Option.bind (el3_smc_switch a op d s)
       (\<lambda>(ret, d', s1).
          let s2 = (if ret \<noteq> 0 then s1\<lparr>secure_state := secure_state s1 XOR 1\<rparr> else s1)
          in Some (ret, d', set_exception_return_el3 elr s2))"

section \<open>The vector for exceptions from a lower level\<close>

text \<open>\<open>el3_sync_exception_lower64\<close>. The pushes and pops are balanced: x1 to x3, x30 and
  SPSR_EL3 are as they were at entry, x0 is too unless the exception was an SMC, whose result it
  carries. A result other than 0 goes on to \<open>monitor_switch\<close>.\<close>

definition el3_sync_lower64 :: "arch \<Rightarrow> op_desc \<Rightarrow> el3 \<Rightarrow> (op_desc \<times> el3) option" where
  "el3_sync_lower64 a d s =
     (let c = cpu_of s; spsr = r_spsr_el3 c;
          iss = r_esr_el3 c AND 0xFFFFFF; ec = drop_bit 26 (r_esr_el3 c)
      in if ec = EC_SMC64 \<or> ec = EC_SMC32 then
           Option.bind (el3_handle_smc a (gpr c 0) d (r_elr_el3 c) s)
             (\<lambda>(ret, d', s1).
                let s2 = upd_cpu (\<lambda>c. (set_reg 0 (ucast ret) c)\<lparr>r_spsr_el3 := spsr\<rparr>) s1
                in Some (d', if ret = 0 then s2 else s2\<lparr>el3_mon := monitor_switch (el3_mon s2)\<rparr>))
         else
           (let (_, s1) = el3_handle_exception ec iss (r_far_el3 c) (r_elr_el3 c) s
            in Some (d, upd_cpu (\<lambda>c. c\<lparr>r_spsr_el3 := spsr\<rparr>) s1)))"

section \<open>Start-up\<close>

text \<open>\<open>memset\<close> of the two buffers and their initial contents.\<close>

definition el3_monitor_init :: "el3 \<Rightarrow> el3" where
  "el3_monitor_init s =
     (let syscntl_pa = mem_lookup_pa (syscntl_va s) (el3_mm s);
          sec = zero_buf\<lparr>b_spsel := 1, b_reg := (b_reg zero_buf)(0 := syscntl_pa)\<rparr>;
          nsec = zero_buf\<lparr>b_elr_el3 := EL1_NS_FLASH_BASE, b_spsr_el3 := ucast SPSR_EL1, b_spsel := 1,
                   b_reg := (b_reg zero_buf)(0 := syscntl_pa)\<rparr>
      in s\<lparr>el3_mon := (el3_mon s)\<lparr>sec_state := sec, nsec_state := nsec\<rparr>\<rparr>)"

text \<open>The loop that unmaps the init section: \<open>len\<close> counts up in pages to \<open>lim\<close>.\<close>

partial_function (option) unmap_loop :: "u64 \<Rightarrow> u64 \<Rightarrow> u64 \<Rightarrow> mm \<Rightarrow> mm option" where
  "unmap_loop len lim addr s =
     (if len < lim then unmap_loop (len + PAGE_SIZE) lim (addr + PAGE_SIZE) (snd (mem_unmap_va addr s))
      else Some s)"

definition exception_return_el3 :: "u64 \<Rightarrow> u32 \<Rightarrow> cpu \<Rightarrow> cpu" where
  "exception_return_el3 addr spsr c = c\<lparr>r_elr_el3 := addr, r_spsr_el3 := ucast spsr\<rparr>"

definition el3_start :: "u64 \<Rightarrow> u64 \<Rightarrow> el3 \<Rightarrow> el3 option" where
  "el3_start base sz s =
     Option.bind (unmap_loop 0 ((sz + (PAGE_SIZE - 1)) AND NOT (PAGE_SIZE - 1)) base (el3_mm s))
       (\<lambda>m1. Option.bind (mem_heap_allocate PAGE_SIZE m1)
       (\<lambda>(sc, m2). Option.bind (mem_heap_allocate PAGE_SIZE m2)
       (\<lambda>(buf, m3).
          let s1 = s\<lparr>el3_mm := m3, syscntl_va := sc, smc_interop_buf := buf,
                     syscntl := (syscntl s)\<lparr>buf_va := buf, buf_pa := mem_lookup_pa buf m3\<rparr>\<rparr>;
              s2 = el3_monitor_init s1
          in Some (upd_cpu (\<lambda>c. exception_return_el3 EL1_S_FLASH_BASE SPSR_EL1
                      (monitor_restore_state (sec_state (el3_mon s2)) c)) s2))))"

end
