(* ===== verification/El1.thy ===== *)
theory El1
  imports El3
begin

text \<open>
  The EL1 images, \<^verbatim>\<open>el1/el1.c\<close>; the secure and the non-secure image differ in
  \<open>el1_secure\<close>; their start-up is in \<open>ElfLoad\<close>. The state is a record that a caller may extend:
  what an SMC does to the rest of the machine (EL3, and the other world when EL3 switches) is
  the argument \<open>smc\<close> of the handlers, and the accesses to system registers, which may trap,
  are the arguments \<open>mrs\<close> and \<open>msr\<close>; \<open>call\<close> is the body of a test function. \<open>System\<close>
  supplies them. An SMC takes the descriptor in
  the interop buffer. \<open>el1_tcnt\<close> is the block \<open>syscntl->test_cntl\<close> points to. \<open>None\<close> is a
  call that does not return.
\<close>

record el1 =
  ibuf :: op_desc
  el1_secure :: u32
  el1_mm :: mm
  el1_sysc :: sys_control_t
  el1_sysc_va :: u64
  el1_tcnt :: test_control_t
  el1_elr :: u64
  el1_ran :: "(test_fn \<times> u32) list"

record 's services =
  smc :: "u32 \<Rightarrow> 's \<Rightarrow> (u32 \<times> 's) option"
  mrs :: "u64 \<Rightarrow> 's \<Rightarrow> (u64 \<times> 's) option"
  msr :: "u64 \<Rightarrow> u64 \<Rightarrow> 's \<Rightarrow> 's option"
  call :: "test_fn \<Rightarrow> u32 \<Rightarrow> 's \<Rightarrow> 's option"

definition exception_level_el1 :: u32 where [c_const]: "exception_level_el1 = EL1"

definition el1_alloc_mem :: "op_desc \<Rightarrow> 'a el1_scheme \<Rightarrow> (op_desc \<times> 'a el1_scheme) option" where
  "el1_alloc_mem alloc s =
     Option.bind (mem_heap_allocate (alloc_len alloc) (el1_mm s))
       (\<lambda>(addr, m). Some (set_alloc_addr addr alloc, s\<lparr>el1_mm := m\<rparr>))"

text \<open>\<open>el1_map_secure\<close>: a request that names EL3 goes there through the interop buffer; the
  physical address is looked up when the request already has one.\<close>

definition el1_map_secure :: "'a el1_scheme services \<Rightarrow> op_desc \<Rightarrow> 'a el1_scheme \<Rightarrow> 'a el1_scheme option" where
  "el1_map_secure hw d s =
     (if map_type d AND OP_MAP_EL3 = OP_MAP_EL3 then
        (let b1 = copy_map (ibuf s) d;
             b2 = (if map_pa b1 \<noteq> 0 then set_map_pa (mem_lookup_pa (map_va b1) (el1_mm s)) b1 else b1)
         in Option.bind (smc hw SMC_OP_MAP (s\<lparr>ibuf := b2\<rparr>)) (\<lambda>(r, s1). Some s1))
      else
        Option.bind (mem_map_pa (map_va d) (map_pa d) 0 PTE_USER_RW (el1_mm s))
          (\<lambda>m. Some (s\<lparr>el1_mm := m\<rparr>)))"

definition el1_interop_test ::
    "'a el1_scheme services \<Rightarrow> op_desc \<Rightarrow> 'a el1_scheme \<Rightarrow> (op_desc \<times> 'a el1_scheme) option" where
  "el1_interop_test hw d s =
     Option.bind (smc hw SMC_OP_TEST (s\<lparr>ibuf := test_step d\<rparr>))
       (\<lambda>(r, s1). let s2 = s1\<lparr>ibuf := test_step (ibuf s1)\<rparr> in Some (ibuf s2, s2))"

text \<open>The register cases: the keys the image knows (\<open>CurrentEL\<close> and CPTR_EL3 in the AArch64 build
  only), read or written where it runs.\<close>

definition el1_reg_keys :: "arch \<Rightarrow> u64 list" where
  "el1_reg_keys a = (if a = AArch64 then [KEY_CURRENTEL, KEY_CPTR_EL3] else []) @ [KEY_CPACR, KEY_SCR, KEY_SCTLR]"

definition el1_get_reg :: "arch \<Rightarrow> 'a el1_scheme services \<Rightarrow> op_desc \<Rightarrow> 'a el1_scheme \<Rightarrow> (op_desc \<times> 'a el1_scheme) option" where
  "el1_get_reg a hw d s =
     (if data_el d = 1 then
        (if data_key d \<in> set (el1_reg_keys a)
         then Option.bind (mrs hw (data_key d) s) (\<lambda>(v, s1). Some (set_data_data v d, s1))
         else Some (d, s))
      else if data_el d = 3 then
        Option.bind (smc hw SMC_OP_GET_REG (s\<lparr>ibuf := d\<rparr>)) (\<lambda>(r, s1). Some (ibuf s1, s1))
      else Some (d, s))"

text \<open>\<open>WRITE_CURRENTEL\<close> is defined as a read whose value is dropped.\<close>

definition el1_set_reg :: "arch \<Rightarrow> 'a el1_scheme services \<Rightarrow> op_desc \<Rightarrow> 'a el1_scheme \<Rightarrow> 'a el1_scheme option" where
  "el1_set_reg a hw d s =
     (if data_el d = 1 then
        (if a = AArch64 \<and> data_key d = KEY_CURRENTEL then Option.bind (mrs hw KEY_CURRENTEL s) (\<lambda>(v, s1). Some s1)
         else if data_key d \<in> set (el1_reg_keys a) then msr hw (data_key d) (data_data d) s
         else Some s)
      else if data_el d = 3 then
        Option.bind (smc hw SMC_OP_SET_REG (s\<lparr>ibuf := d\<rparr>)) (\<lambda>(r, s1). Some s1)
      else Some s)"

text \<open>\<open>run_test\<close> at EL1. A forward would be an \<open>svc\<close> taken at EL1, an exception class that
  \<open>el1_handle_exception\<close> answers with \<open>SMC_EXIT\<close>; \<open>el1_dispatch\<close> calls it for its own level
  and world only. A function number past the end of \<open>test_func\<close> is an undefined read and call:
  \<open>None\<close>.\<close>

definition el1_run_test ::
    "arch \<Rightarrow> 'a el1_scheme services \<Rightarrow> u32 \<Rightarrow> u32 \<Rightarrow> u32 \<Rightarrow> u32 \<Rightarrow> 'a el1_scheme \<Rightarrow> 'a el1_scheme option" where
  "el1_run_test a hw fid el state arg s =
     (case run_test (test_func a EL1 (el1_secure s)) exception_level_el1 (el1_secure s) zero_desc fid el state arg of
        Run f x \<Rightarrow> call hw f x (s\<lparr>el1_ran := el1_ran s @ [(f, x)]\<rparr>)
      | Null_slot \<Rightarrow> Some s
      | Bad_index \<Rightarrow> None
      | Forward d \<Rightarrow> Option.bind (smc hw SMC_OP_EXIT s) (\<lambda>(r, s1). Some s1))"

definition el1_dispatch ::
    "arch \<Rightarrow> 'a el1_scheme services \<Rightarrow> op_desc \<Rightarrow> 'a el1_scheme \<Rightarrow> (op_desc \<times> 'a el1_scheme) option" where
  "el1_dispatch a hw d s =
     (if disp_el d = ucast exception_level_el1 \<and> disp_state d = ucast (el1_secure s) then
        Option.bind (el1_run_test a hw (disp_fid d) (ucast (disp_el d)) (ucast (disp_state d)) (ucast (disp_arg d)) s)
          (\<lambda>s1. Some (d, s1))
      else
        Option.bind (smc hw SMC_OP_DISPATCH (s\<lparr>ibuf := d\<rparr>)) (\<lambda>(r, s1). Some (ibuf s1, s1)))"

definition el1_svc_switch ::
    "arch \<Rightarrow> 'a el1_scheme services \<Rightarrow> u32 \<Rightarrow> op_desc \<Rightarrow> 'a el1_scheme \<Rightarrow> (u32 \<times> op_desc \<times> 'a el1_scheme) option" where
  "el1_svc_switch a hw op d s =
     (if op = SVC_OP_EXIT then Option.bind (smc hw SMC_OP_EXIT s) (\<lambda>(r, s1). Some (0, d, s1))
      else if op = SVC_OP_YIELD then
        Option.bind (smc hw SMC_OP_YIELD s) (\<lambda>(r, s1). Some (r, ibuf s1, s1))
      else if op = SVC_OP_ALLOC then
        Option.bind (el1_alloc_mem d s) (\<lambda>(d1, s1). Some (0, d1, s1))
      else if op = SVC_OP_MAP then Option.bind (el1_map_secure hw d s) (\<lambda>s1. Some (0, d, s1))
      else if op = SVC_OP_GET_SYSCNTL then Some (0, set_data_data (el1_sysc_va s) d, s)
      else if op = SVC_OP_GET_REG then Option.bind (el1_get_reg a hw d s) (\<lambda>(d1, s1). Some (0, d1, s1))
      else if op = SVC_OP_SET_REG then Option.bind (el1_set_reg a hw d s) (\<lambda>s1. Some (0, d, s1))
      else if op = SVC_OP_TEST then Option.bind (el1_interop_test hw d s) (\<lambda>(d1, s1). Some (0, d1, s1))
      else if op = SVC_OP_DISPATCH then Option.bind (el1_dispatch a hw d s) (\<lambda>(d1, s1). Some (0, d1, s1))
      else Some (0, d, s))"

text \<open>\<open>__set_exception_return\<close> at EL1 writes ELR_EL1.\<close>

definition el1_handle_svc ::
    "arch \<Rightarrow> 'a el1_scheme services \<Rightarrow> u32 \<Rightarrow> op_desc \<Rightarrow> u64 \<Rightarrow> 'a el1_scheme \<Rightarrow> (u32 \<times> op_desc \<times> 'a el1_scheme) option" where
  "el1_handle_svc a hw op d elr s =
     Option.bind (el1_svc_switch a hw op d s) (\<lambda>(r, d1, s1). Some (r, d1, s1\<lparr>el1_elr := elr\<rparr>))"

text \<open>\<open>el1_handle_exception\<close>: the EC_UNKNOWN case is the one the architectures treat
  differently.\<close>

definition el1_handle_exception ::
    "arch \<Rightarrow> 'a el1_scheme services \<Rightarrow> u64 \<Rightarrow> u64 \<Rightarrow> u64 \<Rightarrow> u64 \<Rightarrow> 'a el1_scheme \<Rightarrow> 'a el1_scheme option" where
  "el1_handle_exception a hw ec iss far elr s =
     (let s1 = s\<lparr>el1_sysc := upd_excp (log_excp ec iss far exception_level_el1 (el1_secure s)) (el1_sysc s)\<rparr>;
          skip = (excp_action (excp (el1_sysc s1)) = EXCP_ACTION_SKIP);
          exit = Option.bind (smc hw SMC_OP_EXIT s1) (\<lambda>(r, s2). Some (elr, s2))
      in Option.bind
           (if ec = EC_UNKNOWN then
              Some (if a = AArch32 then (if \<not> skip then elr + 4 else elr) else (if skip then elr + 4 else elr), s1)
            else if ec = EC_IABORT_LOWER then exit
            else if ec = EC_IABORT then exit
            else if ec = EC_DABORT_LOWER then exit
            else if ec = EC_DABORT then exit
            else if ec = EC_WFI_WFE then Some (if skip then elr + 4 else elr, s1)
            else if ec = EC_SIMD then Some (if skip then elr + 4 else elr, s1)
            else exit)
           (\<lambda>(elr', s2). Some (s2\<lparr>el1_elr := elr'\<rparr>)))"

end
