(* ===== verification/El0.thy ===== *)
theory El0
  imports TzTest
begin

text \<open>
  The EL0 images: the wrappers of \<^verbatim>\<open>el0/el0.c\<close>, the service loop of
  \<^verbatim>\<open>el0/secure/el0_sec.c\<close> and \<open>tztest_start\<close> of \<^verbatim>\<open>tztest/tztest.c\<close>; the two \<open>main\<close>
  functions are in \<open>El0Main\<close>. The effect of an \<open>svc\<close> on the rest of the machine
  is the argument \<open>svc\<close>; it returns the result and the descriptor as EL1 left it. \<open>tcall\<close> is
  the body of a test function, and \<open>tcount\<close> records the outcome of a check in the control block.
\<close>

record 's el0_services =
  svc :: "u32 \<Rightarrow> op_desc \<Rightarrow> 's \<Rightarrow> (u32 \<times> op_desc \<times> 's) option"
  tcall :: "test_fn \<Rightarrow> u32 \<Rightarrow> 's \<Rightarrow> 's option"
  tcount :: "bool \<Rightarrow> 's \<Rightarrow> 's"

section \<open>Wrappers\<close>

text \<open>\<open>alloc_mem\<close> and \<open>map_va\<close> fill a descriptor on the stack; \<open>junk\<close> is what was there.
  \<open>map_va\<close> does not set the member \<open>pa\<close>.\<close>

definition alloc_mem_desc :: "op_desc \<Rightarrow> u32 \<Rightarrow> u64 \<Rightarrow> op_desc" where
  "alloc_mem_desc junk type len = set_alloc_addr 0 (set_alloc_len len (set_alloc_type type junk))"

definition el0_alloc_mem :: "'s el0_services \<Rightarrow> op_desc \<Rightarrow> u32 \<Rightarrow> u64 \<Rightarrow> 's \<Rightarrow> (u64 \<times> 's) option" where
  "el0_alloc_mem hw junk type len s =
     Option.bind (svc hw SVC_OP_ALLOC (alloc_mem_desc junk type len) s)
       (\<lambda>(r, d, s1). Some (alloc_addr d, s1))"

definition map_va_desc :: "op_desc \<Rightarrow> u64 \<Rightarrow> u64 \<Rightarrow> u32 \<Rightarrow> op_desc" where
  "map_va_desc junk va len type = set_map_type type (set_map_len len (set_map_va va junk))"

definition el0_map_va :: "'s el0_services \<Rightarrow> op_desc \<Rightarrow> u64 \<Rightarrow> u64 \<Rightarrow> u32 \<Rightarrow> 's \<Rightarrow> 's option" where
  "el0_map_va hw junk va len type s =
     Option.bind (svc hw SVC_OP_MAP (map_va_desc junk va len type) s) (\<lambda>(r, d, s1). Some s1)"

section \<open>run_test at EL0\<close>

definition exception_level_el0 :: u32 where [c_const]: "exception_level_el0 = EL0"

text \<open>A function number past the end of \<open>test_func\<close> is an undefined read and call: \<open>None\<close>.\<close>

definition el0_run_test ::
    "arch \<Rightarrow> 's el0_services \<Rightarrow> u32 \<Rightarrow> op_desc \<Rightarrow> u32 \<Rightarrow> u32 \<Rightarrow> u32 \<Rightarrow> u32 \<Rightarrow> 's \<Rightarrow> 's option" where
  "el0_run_test a hw secure junk fid el state arg s =
     (case run_test (test_func a EL0 secure) exception_level_el0 secure junk fid el state arg of
        Run f x \<Rightarrow> tcall hw f x s
      | Null_slot \<Rightarrow> Some s
      | Bad_index \<Rightarrow> None
      | Forward d \<Rightarrow> Option.bind (svc hw SVC_OP_DISPATCH d s) (\<lambda>(r, d1, s1). Some s1))"

section \<open>The secure service loop\<close>

text \<open>The switch statement of \<open>el0_sec_loop\<close>: the operation to issue next, and the descriptor.\<close>

definition el0_sec_switch ::
    "arch \<Rightarrow> 's el0_services \<Rightarrow> op_desc \<Rightarrow> u32 \<Rightarrow> op_desc \<Rightarrow> 's \<Rightarrow> (u32 \<times> op_desc \<times> 's) option" where
  "el0_sec_switch a hw junk op d s =
     (if op = SVC_OP_MAP then Some (SVC_OP_MAP, d, s)
      else if op = SVC_OP_YIELD then Some (op, d, s)
      else if op = SVC_OP_TEST then Some (SVC_OP_YIELD, test_step d, s)
      else if op = SVC_OP_DISPATCH then
        Option.bind
          (el0_run_test a hw SECURE junk (disp_fid d) (ucast (disp_el d)) (ucast (disp_state d)) (ucast (disp_arg d)) s)
          (\<lambda>s1. Some (SVC_OP_YIELD, d, s1))
      else if op = 0 then Some (SVC_OP_YIELD, d, s)
      else Some (SVC_OP_EXIT, d, s))"

partial_function (option) el0_sec_loop ::
    "arch \<Rightarrow> 's el0_services \<Rightarrow> op_desc \<Rightarrow> u32 \<Rightarrow> op_desc \<Rightarrow> 's \<Rightarrow> 's option" where
  "el0_sec_loop a hw junk op d s =
     (if op \<noteq> SVC_OP_EXIT then
        Option.bind (el0_sec_switch a hw junk op d s)
          (\<lambda>(op1, d1, s1). Option.bind (svc hw op1 d1 s1)
          (\<lambda>(op2, d2, s2). el0_sec_loop a hw junk op2 d2 s2))
      else Option.bind (svc hw SVC_OP_EXIT d s) (\<lambda>(r, d1, s1). Some s1))"

section \<open>The test program\<close>

text \<open>\<open>interop_test\<close>: whether the test passed, and \<open>TEST_CONDITION\<close>.\<close>

definition interop_test :: "'s el0_services \<Rightarrow> op_desc \<Rightarrow> 's \<Rightarrow> (bool \<times> 's) option" where
  "interop_test hw junk s =
     Option.bind (svc hw SVC_OP_TEST (interop_init junk) s) 
       (\<lambda>(r, d, s1). Some (interop_ok d, tcount hw (interop_ok d) s1))"

fun run_tests :: "arch \<Rightarrow> 's el0_services \<Rightarrow> op_desc \<Rightarrow> tztest_case_t list \<Rightarrow> 's \<Rightarrow> 's option" where
  "run_tests a hw junk [] s = Some s"
| "run_tests a hw junk (t # ts) s =
     (if tc_fid t \<noteq> 0 then
        Option.bind (el0_run_test a hw NONSECURE junk (tc_fid t) (tc_el t) (tc_state t) (tc_arg t) s)
          (run_tests a hw junk ts)
      else Some s)"

definition tztest_start :: "arch \<Rightarrow> 's el0_services \<Rightarrow> op_desc \<Rightarrow> 's \<Rightarrow> (bool \<times> 's) option" where
  "tztest_start a hw junk s =
     Option.bind (interop_test hw junk s)
       (\<lambda>(ok, s1). Option.bind (run_tests a hw junk (tztest a) s1) (\<lambda>s2. Some (ok, s2)))"

lemma run_tests_loop: "run_tests a hw junk ts s = run_tests a hw junk (tztest_loop ts) s"
  by (induction ts arbitrary: s) (auto intro: bind_option_cong)

end
