(* ===== verification/TestProgs.thy ===== *)
theory TestProgs
  imports El1 El0 "HOL-Library.Monad_Syntax"
begin

text \<open>
  The test programs: the macros of \<^verbatim>\<open>tztest/tztest_internal.h\<close>, the register macros of
  \<^verbatim>\<open>common/svc.h\<close> and \<^verbatim>\<open>common/smc.h\<close>, and the test functions of \<^verbatim>\<open>tztest/el0\<close>,
  \<^verbatim>\<open>tztest/el1\<close> and \<^verbatim>\<open>tztest/el3\<close>. The state is that of an EL1 image with the world around it;
  \<open>el1_sysc\<close> is the control block the exception log is in, \<open>el1_tcnt\<close> the counters. What an
  instruction that may trap does is the argument \<open>t_exec\<close>: it delivers the value of a register
  read, and whatever the destination held when the read was skipped. \<open>t_svc\<close> and \<open>t_smc\<close>
  are the calls. Messages are not modelled, and the build is one without \<open>DEBUG\<close>. The programs
  end with a result that is always 0, which is left out.
\<close>

section \<open>Instructions\<close>

datatype sysreg = R_SCR | R_SDER | R_CPTR_EL3 | R_CPACR | R_SCTLR | R_CURRENTEL | R_MVBAR | R_NSACR | R_CPSR

datatype insn = I_smc | I_wfe | I_wfi | I_fcmp | I_mrs sysreg | I_msr sysreg u64

record 's test_env =
  t_svc :: "u32 \<Rightarrow> op_desc \<Rightarrow> 's \<Rightarrow> (u32 \<times> op_desc \<times> 's) option"
  t_smc :: "u32 \<Rightarrow> 's \<Rightarrow> (u32 \<times> 's) option"
  t_exec :: "insn \<Rightarrow> 's \<Rightarrow> (u64 \<times> 's) option"

section \<open>The macros\<close>

definition TEST_CONDITION :: "bool \<Rightarrow> 'a el1_scheme \<Rightarrow> 'a el1_scheme" where
  "TEST_CONDITION ok s = s\<lparr>el1_tcnt := count_check ok (el1_tcnt s)\<rparr>"

definition upd_log :: "(sys_exception_t \<Rightarrow> sys_exception_t) \<Rightarrow> 'a el1_scheme \<Rightarrow> 'a el1_scheme" where
  "upd_log f s = s\<lparr>el1_sysc := upd_excp f (el1_sysc s)\<rparr>"

abbreviation log_of :: "'a el1_scheme \<Rightarrow> sys_exception_t" where
  "log_of s \<equiv> excp (el1_sysc s)"

definition TEST_ENABLE_EXCP_LOG :: "'a el1_scheme \<Rightarrow> 'a el1_scheme" where
  "TEST_ENABLE_EXCP_LOG = upd_log (\<lambda>e. e\<lparr>excp_action := EXCP_ACTION_SKIP, excp_log := True\<rparr>)"

definition TEST_EXCP_RESET :: "'a el1_scheme \<Rightarrow> 'a el1_scheme" where
  "TEST_EXCP_RESET = upd_log (\<lambda>e. e\<lparr>excp_taken := False, excp_ec := 0, excp_iss := 0, excp_far := 0,
     excp_el := 0, excp_state := 0, excp_action := 0, excp_log := False\<rparr>)"

definition log_shows :: "u64 \<Rightarrow> u32 \<Rightarrow> 'a el1_scheme \<Rightarrow> bool" where
  "log_shows ec el s \<longleftrightarrow> excp_taken (log_of s) \<and> excp_el (log_of s) = el \<and> excp_ec (log_of s) = ucast ec"

definition TEST_EXCEPTION ::
    "('a el1_scheme \<Rightarrow> (u64 \<times> 'a el1_scheme) option) \<Rightarrow> u64 \<Rightarrow> u32 \<Rightarrow> 'a el1_scheme \<Rightarrow> (u64 \<times> 'a el1_scheme) option" where
  "TEST_EXCEPTION fn ec el s =
     do { (v, s) \<leftarrow> fn (TEST_ENABLE_EXCP_LOG s);
          Some (v, TEST_EXCP_RESET (TEST_CONDITION (log_shows ec el s) s)) }"

definition TEST_NO_EXCEPTION ::
    "('a el1_scheme \<Rightarrow> (u64 \<times> 'a el1_scheme) option) \<Rightarrow> 'a el1_scheme \<Rightarrow> (u64 \<times> 'a el1_scheme) option" where
  "TEST_NO_EXCEPTION fn s =
     do { (v, s) \<leftarrow> fn (TEST_ENABLE_EXCP_LOG s);
          Some (v, TEST_EXCP_RESET (TEST_CONDITION (\<not> excp_taken (log_of s)) s)) }"

abbreviation TEST_EL1_EXCEPTION ::
    "('a el1_scheme \<Rightarrow> (u64 \<times> 'a el1_scheme) option) \<Rightarrow> u64 \<Rightarrow> 'a el1_scheme \<Rightarrow> (u64 \<times> 'a el1_scheme) option" where
  "TEST_EL1_EXCEPTION fn ec \<equiv> TEST_EXCEPTION fn ec EL1"

abbreviation TEST_EL3_EXCEPTION ::
    "('a el1_scheme \<Rightarrow> (u64 \<times> 'a el1_scheme) option) \<Rightarrow> u64 \<Rightarrow> 'a el1_scheme \<Rightarrow> (u64 \<times> 'a el1_scheme) option" where
  "TEST_EL3_EXCEPTION fn ec \<equiv> TEST_EXCEPTION fn ec EL3"

text \<open>The status check that the floating-point tests write out, because printing has to wait
  until floating point is enabled again.\<close>

definition check_log :: "u64 \<Rightarrow> u32 \<Rightarrow> 'a el1_scheme \<Rightarrow> 'a el1_scheme" where
  "check_log ec el s =
     (let c = el1_tcnt s;
          c1 = (if excp_taken (log_of s) \<and> excp_el (log_of s) = el \<and> excp_ec (log_of s) = ucast ec then c
                else c\<lparr>tc_fail_count := tc_fail_count c + 1\<rparr>)
      in TEST_EXCP_RESET (s\<lparr>el1_tcnt := c1\<lparr>tc_test_count := tc_test_count c1 + 1\<rparr>\<rparr>))"

text \<open>\<open>SVC_GET_REG\<close> and \<open>SVC_SET_REG\<close> use a descriptor on the stack (\<open>junk\<close> before it is
  filled in), \<open>SMC_GET_REG\<close> and \<open>SMC_SET_REG\<close> the interop buffer.\<close>

definition SVC_GET_REG :: "'a el1_scheme test_env \<Rightarrow> op_desc \<Rightarrow> u64 \<Rightarrow> u32 \<Rightarrow> 'a el1_scheme \<Rightarrow> (u64 \<times> 'a el1_scheme) option" where
  "SVC_GET_REG hw junk key el s =
     do { (r, d, s) \<leftarrow> t_svc hw SVC_OP_GET_REG (set_data_el el (set_data_key key junk)) s;
          Some (data_data d, s) }"

definition SVC_SET_REG :: "'a el1_scheme test_env \<Rightarrow> op_desc \<Rightarrow> u64 \<Rightarrow> u32 \<Rightarrow> u64 \<Rightarrow> 'a el1_scheme \<Rightarrow> 'a el1_scheme option" where
  "SVC_SET_REG hw junk key el v s =
     do { (r, d, s) \<leftarrow> t_svc hw SVC_OP_SET_REG (set_data_data v (set_data_el el (set_data_key key junk))) s;
          Some s }"

definition SMC_GET_REG :: "'a el1_scheme test_env \<Rightarrow> u64 \<Rightarrow> u32 \<Rightarrow> 'a el1_scheme \<Rightarrow> (u64 \<times> 'a el1_scheme) option" where
  "SMC_GET_REG hw key el s =
     do { (r, s) \<leftarrow> t_smc hw SMC_OP_GET_REG (s\<lparr>ibuf := set_data_el el (set_data_key key (ibuf s))\<rparr>);
          Some (data_data (ibuf s), s) }"

definition SMC_SET_REG :: "'a el1_scheme test_env \<Rightarrow> u64 \<Rightarrow> u32 \<Rightarrow> u64 \<Rightarrow> 'a el1_scheme \<Rightarrow> 'a el1_scheme option" where
  "SMC_SET_REG hw key el v s =
     do { (r, s) \<leftarrow> t_smc hw SMC_OP_SET_REG (s\<lparr>ibuf := set_data_data v (set_data_el el (set_data_key key (ibuf s)))\<rparr>);
          Some s }"

text \<open>A macro whose value is dropped, as the argument of a test macro.\<close>

definition unit_op :: "('s \<Rightarrow> 's option) \<Rightarrow> 's \<Rightarrow> (u64 \<times> 's) option" where
  "unit_op f s = do { s \<leftarrow> f s; Some (0, s) }"

section \<open>EL0\<close>

type_synonym 'a test_prog = "'a el1_scheme test_env \<Rightarrow> op_desc \<Rightarrow> 'a el1_scheme \<Rightarrow> 'a el1_scheme option"

definition el0_check_smc :: "'a test_prog" where
  "el0_check_smc hw junk s = do { (_, s) \<leftarrow> TEST_EL1_EXCEPTION (t_exec hw I_smc) EC_UNKNOWN s; Some s }"

definition el0_check_register_access :: "arch \<Rightarrow> 'a test_prog" where
  "el0_check_register_access a hw junk s =
     do { (_, s) \<leftarrow> TEST_EL1_EXCEPTION (t_exec hw (I_mrs R_SCR)) EC_UNKNOWN s;
          (_, s) \<leftarrow> TEST_EL1_EXCEPTION (t_exec hw (I_msr R_SCR 0)) EC_UNKNOWN s;
          (_, s) \<leftarrow> TEST_EL1_EXCEPTION (t_exec hw (I_mrs R_SDER)) EC_UNKNOWN s;
          (_, s) \<leftarrow> TEST_EL1_EXCEPTION (t_exec hw (I_msr R_SDER 0)) EC_UNKNOWN s;
          if a = AArch32 then
            do { (_, s) \<leftarrow> TEST_EL1_EXCEPTION (t_exec hw (I_mrs R_MVBAR)) EC_UNKNOWN s;
                 (_, s) \<leftarrow> TEST_EL1_EXCEPTION (t_exec hw (I_msr R_MVBAR 0)) EC_UNKNOWN s;
                 (_, s) \<leftarrow> TEST_EL1_EXCEPTION (t_exec hw (I_msr R_NSACR 0)) EC_UNKNOWN s;
                 Some s }
          else
            do { (_, s) \<leftarrow> TEST_EL1_EXCEPTION (t_exec hw (I_mrs R_CPTR_EL3)) EC_UNKNOWN s;
                 (_, s) \<leftarrow> TEST_EL1_EXCEPTION (t_exec hw (I_msr R_CPTR_EL3 0)) EC_UNKNOWN s;
                 Some s } }"

text \<open>\<open>CPTR_TCPAC\<close> is an \<open>int\<close> with bit 31 set, so it is sign extended.\<close>

definition el0_check_cpacr_trap :: "'a test_prog" where
  "el0_check_cpacr_trap hw junk s =
     do { (cptr_el3, s) \<leftarrow> SVC_GET_REG hw junk KEY_CPTR_EL3 3 s;
          s \<leftarrow> SVC_SET_REG hw junk KEY_CPTR_EL3 3 (cptr_el3 OR cint CPTR_TCPAC) s;
          (cpacr, s) \<leftarrow> TEST_EL3_EXCEPTION (SVC_GET_REG hw junk KEY_CPACR 1) EC_SYSINSN s;
          (_, s) \<leftarrow> TEST_EL3_EXCEPTION (unit_op (SVC_SET_REG hw junk KEY_CPACR 1 cpacr)) EC_SYSINSN s;
          SVC_SET_REG hw junk KEY_CPTR_EL3 3 cptr_el3 s }"

definition el0_check_fp_trap :: "'a test_prog" where
  "el0_check_fp_trap hw junk s =
     do { (cptr_el3, s) \<leftarrow> SVC_GET_REG hw junk KEY_CPTR_EL3 3 s;
          (cpacr, s) \<leftarrow> SVC_GET_REG hw junk KEY_CPACR 1 s;
          \<comment> \<open>FPEN = 3\<close>
          s \<leftarrow> SVC_SET_REG hw junk KEY_CPACR 1 (cpacr OR cint (CPACR_FPEN 3)) s;
          s \<leftarrow> SVC_SET_REG hw junk KEY_CPTR_EL3 3 (cptr_el3 AND cint (NOT CPTR_TFP)) s;
          (_, s) \<leftarrow> TEST_NO_EXCEPTION (t_exec hw I_fcmp) s;
          \<comment> \<open>FPEN = 0\<close>
          s \<leftarrow> SVC_SET_REG hw junk KEY_CPACR 1 (cpacr AND cint (NOT (CPACR_FPEN 3))) s;
          (_, s) \<leftarrow> t_exec hw I_fcmp (TEST_ENABLE_EXCP_LOG s);
          s \<leftarrow> SVC_SET_REG hw junk KEY_CPACR 1 cpacr s;
          s \<leftarrow> Some (check_log EC_SIMD 1 s);
          \<comment> \<open>FPEN = 1\<close>
          s \<leftarrow> SVC_SET_REG hw junk KEY_CPACR 1 (cpacr AND cint (NOT (CPACR_FPEN 2))) s;
          (_, s) \<leftarrow> t_exec hw I_fcmp (TEST_ENABLE_EXCP_LOG s);
          s \<leftarrow> SVC_SET_REG hw junk KEY_CPACR 1 cpacr s;
          s \<leftarrow> Some (check_log EC_SIMD 1 s);
          \<comment> \<open>FPEN = 2\<close>
          s \<leftarrow> SVC_SET_REG hw junk KEY_CPACR 1 (cpacr AND cint (NOT (CPACR_FPEN 1))) s;
          (_, s) \<leftarrow> t_exec hw I_fcmp (TEST_ENABLE_EXCP_LOG s);
          s \<leftarrow> SVC_SET_REG hw junk KEY_CPACR 1 cpacr s;
          s \<leftarrow> Some (check_log EC_SIMD 1 s);
          \<comment> \<open>FPEN = 0, TFP = 1\<close>
          s \<leftarrow> SVC_SET_REG hw junk KEY_CPACR 1 (cpacr AND cint (NOT (CPACR_FPEN 3))) s;
          s \<leftarrow> SVC_SET_REG hw junk KEY_CPTR_EL3 3 (cptr_el3 OR cint CPTR_TFP) s;
          (_, s) \<leftarrow> t_exec hw I_fcmp (TEST_ENABLE_EXCP_LOG s);
          s \<leftarrow> SVC_SET_REG hw junk KEY_CPACR 1 cpacr s;
          s \<leftarrow> SVC_SET_REG hw junk KEY_CPTR_EL3 3 cptr_el3 s;
          s \<leftarrow> Some (check_log EC_SIMD 1 s);
          \<comment> \<open>FPEN = 3, TFP = 1\<close>
          s \<leftarrow> SVC_SET_REG hw junk KEY_CPTR_EL3 3 (cptr_el3 OR cint CPTR_TFP) s;
          (_, s) \<leftarrow> t_exec hw I_fcmp (TEST_ENABLE_EXCP_LOG s);
          s \<leftarrow> SVC_SET_REG hw junk KEY_CPTR_EL3 3 cptr_el3 s;
          s \<leftarrow> Some (check_log EC_SIMD 3 s);
          s \<leftarrow> SVC_SET_REG hw junk KEY_CPACR 1 cpacr s;
          SVC_SET_REG hw junk KEY_CPTR_EL3 3 cptr_el3 s }"

definition el0_check_wfx_trap :: "'a test_prog" where
  "el0_check_wfx_trap hw junk s =
     do { (scr, s) \<leftarrow> SVC_GET_REG hw junk KEY_SCR 3 s;
          (sctlr, s) \<leftarrow> SVC_GET_REG hw junk KEY_SCTLR 1 s;
          s \<leftarrow> SVC_SET_REG hw junk KEY_SCTLR 1 (sctlr AND cint (NOT SCTLR_nTWE)) s;
          (_, s) \<leftarrow> TEST_EL1_EXCEPTION (t_exec hw I_wfe) EC_WFI_WFE s;
          s \<leftarrow> SVC_SET_REG hw junk KEY_SCR 3 (scr OR cint SCR_TWE) s;
          (_, s) \<leftarrow> TEST_EL1_EXCEPTION (t_exec hw I_wfe) EC_WFI_WFE s;
          s \<leftarrow> SVC_SET_REG hw junk KEY_SCTLR 1 (sctlr OR cint SCTLR_nTWE) s;
          (_, s) \<leftarrow> TEST_EL3_EXCEPTION (t_exec hw I_wfe) EC_WFI_WFE s;
          s \<leftarrow> SVC_SET_REG hw junk KEY_SCR 3 scr s;
          s \<leftarrow> SVC_SET_REG hw junk KEY_SCTLR 1 (sctlr AND cint (NOT SCTLR_nTWI)) s;
          (_, s) \<leftarrow> TEST_EL1_EXCEPTION (t_exec hw I_wfi) EC_WFI_WFE s;
          s \<leftarrow> SVC_SET_REG hw junk KEY_SCR 3 (scr OR cint SCR_TWI) s;
          (_, s) \<leftarrow> TEST_EL1_EXCEPTION (t_exec hw I_wfi) EC_WFI_WFE s;
          s \<leftarrow> SVC_SET_REG hw junk KEY_SCTLR 1 (sctlr OR cint SCTLR_nTWI) s;
          (_, s) \<leftarrow> TEST_EL3_EXCEPTION (t_exec hw I_wfi) EC_WFI_WFE s;
          s \<leftarrow> SVC_SET_REG hw junk KEY_SCTLR 1 sctlr s;
          SVC_SET_REG hw junk KEY_SCR 3 scr s }"

section \<open>EL1\<close>

definition el1_check_smc :: "'a test_prog" where
  "el1_check_smc hw junk s =
     do { (scr, s) \<leftarrow> SMC_GET_REG hw KEY_SCR 3 s;
          s \<leftarrow> SMC_SET_REG hw KEY_SCR 3 (scr OR cint SCR_SMD) s;
          (_, s) \<leftarrow> TEST_NO_EXCEPTION (\<lambda>s. do { (r, s) \<leftarrow> t_smc hw SMC_OP_NOOP s; Some (ucast r, s) }) s;
          SMC_SET_REG hw KEY_SCR 3 scr s }"

text \<open>\<open>FP_TEST\<close> is not defined in any build, so its block is left out.\<close>

definition el1_check_cpacr_trap :: "'a test_prog" where
  "el1_check_cpacr_trap hw junk s =
     do { (cptr_el3, s) \<leftarrow> SMC_GET_REG hw KEY_CPTR_EL3 3 s;
          s \<leftarrow> SMC_SET_REG hw KEY_CPTR_EL3 3 (cptr_el3 OR cint CPTR_TCPAC) s;
          (cpacr, s) \<leftarrow> TEST_EL3_EXCEPTION (t_exec hw (I_mrs R_CPACR)) EC_SYSINSN s;
          (_, s) \<leftarrow> TEST_EL3_EXCEPTION (t_exec hw (I_msr R_CPACR cpacr)) EC_SYSINSN s;
          SMC_SET_REG hw KEY_CPTR_EL3 3 cptr_el3 s }"

definition el1_check_wfx_trap :: "'a test_prog" where
  "el1_check_wfx_trap hw junk s =
     do { (scr, s) \<leftarrow> SMC_GET_REG hw KEY_SCR 3 s;
          (sctlr, s) \<leftarrow> t_exec hw (I_mrs R_SCTLR) s;
          (_, s) \<leftarrow> t_exec hw (I_msr R_SCTLR (sctlr AND cint (NOT SCTLR_nTWE))) s;
          s \<leftarrow> SMC_SET_REG hw KEY_SCR 3 (scr AND cint (NOT SCR_TWE)) s;
          (_, s) \<leftarrow> TEST_NO_EXCEPTION (t_exec hw I_wfe) s;
          s \<leftarrow> SMC_SET_REG hw KEY_SCR 3 (scr OR cint SCR_TWE) s;
          (_, s) \<leftarrow> TEST_EL3_EXCEPTION (t_exec hw I_wfe) EC_WFI_WFE s;
          (_, s) \<leftarrow> t_exec hw (I_msr R_SCTLR (sctlr OR cint SCTLR_nTWE)) s;
          (_, s) \<leftarrow> TEST_EL3_EXCEPTION (t_exec hw I_wfe) EC_WFI_WFE s;
          s \<leftarrow> SMC_SET_REG hw KEY_SCR 3 (scr OR cint SCR_TWI) s;
          (_, s) \<leftarrow> TEST_EL3_EXCEPTION (t_exec hw I_wfi) EC_WFI_WFE s;
          (_, s) \<leftarrow> t_exec hw (I_msr R_SCTLR (sctlr OR cint SCTLR_nTWE)) s;
          (_, s) \<leftarrow> TEST_EL3_EXCEPTION (t_exec hw I_wfi) EC_WFI_WFE s;
          (_, s) \<leftarrow> t_exec hw (I_msr R_SCTLR sctlr) s;
          SMC_SET_REG hw KEY_SCR 3 scr s }"

definition el1_check_fp_trap :: "'a test_prog" where
  "el1_check_fp_trap hw junk s =
     do { (cptr_el3, s) \<leftarrow> SMC_GET_REG hw KEY_CPTR_EL3 3 s;
          (cpacr, s) \<leftarrow> t_exec hw (I_mrs R_CPACR) s;
          \<comment> \<open>FPEN = 3\<close>
          (_, s) \<leftarrow> t_exec hw (I_msr R_CPACR (cpacr OR cint (CPACR_FPEN 3))) s;
          s \<leftarrow> SMC_SET_REG hw KEY_CPTR_EL3 3 (cptr_el3 AND cint (NOT CPTR_TFP)) s;
          (_, s) \<leftarrow> TEST_NO_EXCEPTION (t_exec hw I_fcmp) s;
          \<comment> \<open>FPEN = 0\<close>
          (_, s) \<leftarrow> t_exec hw (I_msr R_CPACR (cpacr AND cint (NOT (CPACR_FPEN 3)))) s;
          (_, s) \<leftarrow> t_exec hw I_fcmp (TEST_ENABLE_EXCP_LOG s);
          (_, s) \<leftarrow> t_exec hw (I_msr R_CPACR cpacr) s;
          s \<leftarrow> Some (check_log EC_SIMD 1 s);
          \<comment> \<open>FPEN = 1: no exception at EL1\<close>
          (_, s) \<leftarrow> t_exec hw (I_msr R_CPACR (cpacr AND cint (NOT (CPACR_FPEN 2)))) s;
          (_, s) \<leftarrow> TEST_NO_EXCEPTION (t_exec hw I_fcmp) s;
          \<comment> \<open>FPEN = 2\<close>
          (_, s) \<leftarrow> t_exec hw (I_msr R_CPACR (cpacr AND cint (NOT (CPACR_FPEN 1)))) s;
          (_, s) \<leftarrow> t_exec hw I_fcmp (TEST_ENABLE_EXCP_LOG s);
          (_, s) \<leftarrow> t_exec hw (I_msr R_CPACR cpacr) s;
          s \<leftarrow> Some (check_log EC_SIMD 1 s);
          \<comment> \<open>FPEN = 0, TFP = 1\<close>
          (_, s) \<leftarrow> t_exec hw (I_msr R_CPACR (cpacr AND cint (NOT (CPACR_FPEN 3)))) s;
          s \<leftarrow> SMC_SET_REG hw KEY_CPTR_EL3 3 (cptr_el3 OR cint CPTR_TFP) s;
          (_, s) \<leftarrow> t_exec hw I_fcmp (TEST_ENABLE_EXCP_LOG s);
          (_, s) \<leftarrow> t_exec hw (I_msr R_CPACR cpacr) s;
          s \<leftarrow> SMC_SET_REG hw KEY_CPTR_EL3 3 cptr_el3 s;
          s \<leftarrow> Some (check_log EC_SIMD 1 s);
          \<comment> \<open>FPEN = 3, TFP = 1\<close>
          s \<leftarrow> SMC_SET_REG hw KEY_CPTR_EL3 3 (cptr_el3 OR cint CPTR_TFP) s;
          (_, s) \<leftarrow> t_exec hw I_fcmp (TEST_ENABLE_EXCP_LOG s);
          s \<leftarrow> SMC_SET_REG hw KEY_CPTR_EL3 3 cptr_el3 s;
          s \<leftarrow> Some (check_log EC_SIMD 3 s);
          (_, s) \<leftarrow> t_exec hw (I_msr R_CPACR cpacr) s;
          SMC_SET_REG hw KEY_CPTR_EL3 3 cptr_el3 s }"

text \<open>The register tests of the two EL1 images.\<close>

definition el1_check_register_access_nsec :: "arch \<Rightarrow> 'a test_prog" where
  "el1_check_register_access_nsec a hw junk s =
     do { (val, s) \<leftarrow> TEST_EL1_EXCEPTION (t_exec hw (I_mrs R_SCR)) EC_UNKNOWN s;
          (_, s) \<leftarrow> TEST_EL1_EXCEPTION (t_exec hw (I_msr R_SCR val)) EC_UNKNOWN s;
          (val, s) \<leftarrow> TEST_EL1_EXCEPTION (t_exec hw (I_mrs R_SDER)) EC_UNKNOWN s;
          (_, s) \<leftarrow> TEST_EL1_EXCEPTION (t_exec hw (I_msr R_SDER val)) EC_UNKNOWN s;
          if a = AArch32 then
            do { (val, s) \<leftarrow> TEST_EL1_EXCEPTION (t_exec hw (I_mrs R_MVBAR)) EC_UNKNOWN s;
                 (_, s) \<leftarrow> TEST_EL1_EXCEPTION (t_exec hw (I_msr R_MVBAR val)) EC_UNKNOWN s;
                 (_, s) \<leftarrow> TEST_EL1_EXCEPTION (t_exec hw (I_msr R_NSACR 0)) EC_UNKNOWN s;
                 Some s }
          else
            do { (val, s) \<leftarrow> TEST_EL1_EXCEPTION (t_exec hw (I_mrs R_CPTR_EL3)) EC_UNKNOWN s;
                 (_, s) \<leftarrow> TEST_EL1_EXCEPTION (t_exec hw (I_msr R_CPTR_EL3 val)) EC_UNKNOWN s;
                 Some s } }"

definition el1_check_register_access_sec :: "arch \<Rightarrow> 'a test_prog" where
  "el1_check_register_access_sec a hw junk s =
     (if a = AArch32 then
        do { (val, s) \<leftarrow> TEST_NO_EXCEPTION (t_exec hw (I_mrs R_SCR)) s;
             (_, s) \<leftarrow> TEST_NO_EXCEPTION (t_exec hw (I_msr R_SCR val)) s;
             (val, s) \<leftarrow> TEST_NO_EXCEPTION (t_exec hw (I_mrs R_SDER)) s;
             (_, s) \<leftarrow> TEST_NO_EXCEPTION (t_exec hw (I_msr R_SDER val)) s;
             (val, s) \<leftarrow> TEST_NO_EXCEPTION (t_exec hw (I_mrs R_MVBAR)) s;
             (_, s) \<leftarrow> TEST_NO_EXCEPTION (t_exec hw (I_msr R_MVBAR val)) s;
             (_, s) \<leftarrow> TEST_NO_EXCEPTION (t_exec hw (I_msr R_NSACR 0)) s;
             Some s }
      else
        do { (val, s) \<leftarrow> TEST_EL1_EXCEPTION (t_exec hw (I_mrs R_SCR)) EC_UNKNOWN s;
             (_, s) \<leftarrow> TEST_EL1_EXCEPTION (t_exec hw (I_msr R_SCR val)) EC_UNKNOWN s;
             (val, s) \<leftarrow> TEST_EL1_EXCEPTION (t_exec hw (I_mrs R_SDER)) EC_UNKNOWN s;
             (_, s) \<leftarrow> TEST_EL1_EXCEPTION (t_exec hw (I_msr R_SDER val)) EC_UNKNOWN s;
             (val, s) \<leftarrow> TEST_EL1_EXCEPTION (t_exec hw (I_mrs R_CPTR_EL3)) EC_UNKNOWN s;
             (_, s) \<leftarrow> TEST_EL1_EXCEPTION (t_exec hw (I_msr R_CPTR_EL3 val)) EC_UNKNOWN s;
             Some s })"

section \<open>AArch32 programs\<close>

text \<open>The masks of \<^verbatim>\<open>common/arm/cpu.h\<close> these use. Values are 32 bits wide there; the operations
  below do not leave that range.\<close>

definition SCR_FW :: u32 where [c_const]: "SCR_FW = push_bit 4 1"
definition SCR_AW :: u32 where [c_const]: "SCR_AW = push_bit 5 1"
definition CPSR_F :: u64 where [c_const]: "CPSR_F = push_bit 6 1"
definition CPSR_I :: u64 where [c_const]: "CPSR_I = push_bit 7 1"
definition CPSR_A :: u64 where [c_const]: "CPSR_A = push_bit 8 1"
definition CPSR_M_MON :: u64 where [c_const]: "CPSR_M_MON = 0x16"

text \<open>\<open>TEST_FUNCTION(WRITE_CPSR(val), cond (READ_CPSR(), val))\<close>\<close>

definition cpsr_write_check :: "'a el1_scheme test_env \<Rightarrow> (u64 \<Rightarrow> bool) \<Rightarrow> u64 \<Rightarrow> 'a el1_scheme \<Rightarrow> 'a el1_scheme option" where
  "cpsr_write_check hw cond val s =
     do { (_, s) \<leftarrow> t_exec hw (I_msr R_CPSR val) s;
          (c, s) \<leftarrow> t_exec hw (I_mrs R_CPSR) s;
          Some (TEST_CONDITION (cond c) s) }"

definition check_mask_bits :: "'a test_prog" where
  "check_mask_bits hw junk s =
     do { (cpsr, s) \<leftarrow> t_exec hw (I_mrs R_CPSR) s;
          (scr, s) \<leftarrow> SMC_GET_REG hw KEY_SCR 3 s;
          s \<leftarrow> SMC_SET_REG hw KEY_SCR 3 (scr OR ucast (SCR_AW OR SCR_FW)) s;
          s \<leftarrow> cpsr_write_check hw (\<lambda>c. c = cpsr OR CPSR_F) (cpsr OR CPSR_F) s;
          (_, s) \<leftarrow> t_exec hw (I_msr R_CPSR cpsr) s;
          s \<leftarrow> cpsr_write_check hw (\<lambda>c. c = cpsr OR CPSR_A) (cpsr OR CPSR_A) s;
          (_, s) \<leftarrow> t_exec hw (I_msr R_CPSR cpsr) s;
          s \<leftarrow> SMC_SET_REG hw KEY_SCR 3 scr s;
          s \<leftarrow> cpsr_write_check hw (\<lambda>c. c \<noteq> cpsr OR CPSR_F) (cpsr OR CPSR_F) s;
          (_, s) \<leftarrow> t_exec hw (I_msr R_CPSR cpsr) s;
          s \<leftarrow> cpsr_write_check hw (\<lambda>c. c \<noteq> cpsr OR CPSR_A) (cpsr OR CPSR_A) s;
          (_, s) \<leftarrow> t_exec hw (I_msr R_CPSR cpsr) s;
          Some s }"

definition el3_check_smc :: "'a test_prog" where
  "el3_check_smc hw junk s =
     do { (cpsr, s) \<leftarrow> t_exec hw (I_mrs R_CPSR) s;
          Some (TEST_CONDITION (CPSR_A = CPSR_A AND cpsr)
               (TEST_CONDITION (CPSR_I = CPSR_I AND cpsr)
               (TEST_CONDITION (CPSR_F = CPSR_F AND cpsr)
               (TEST_CONDITION (CPSR_M_MON = cpsr AND CPSR_M_MON) s)))) }"

text \<open>What the slots of the function tables call.\<close>

fun test_body :: "arch \<Rightarrow> test_fn \<Rightarrow> 'a test_prog" where
  "test_body a El0_check_smc = el0_check_smc"
| "test_body a El0_check_register_access = el0_check_register_access a"
| "test_body a El0_check_cpacr_trap = el0_check_cpacr_trap"
| "test_body a El0_check_wfx_trap = el0_check_wfx_trap"
| "test_body a El0_check_fp_trap = el0_check_fp_trap"
| "test_body a El1_check_smc = el1_check_smc"
| "test_body a El1_check_register_access_nsec = el1_check_register_access_nsec a"
| "test_body a El1_check_register_access_sec = el1_check_register_access_sec a"
| "test_body a El1_check_cpacr_trap = el1_check_cpacr_trap"
| "test_body a El1_check_wfx_trap = el1_check_wfx_trap"
| "test_body a El1_check_fp_trap = el1_check_fp_trap"
| "test_body a Check_mask_bits = check_mask_bits"
| "test_body a El3_check_smc = el3_check_smc"

end
