(* ===== verification/TestSpec.thy ===== *)
theory TestSpec
  imports TestProgs
begin

text \<open>
  What the test programs achieve on a machine that traps as the architecture documents. The
  locales are the interfaces the programs use: \<open>trap_machine\<close> is the execution of instructions
  that may trap to a handler that logs and skips them, \<open>reg_ops\<close> the register service EL3
  offers to the levels below; \<open>el0_tests\<close> and \<open>el1_tests\<close> put them together for the two
  levels, and hold the correctness of the programs: every check passes, and the registers,
  the log and the rest of the machine are as they were.
\<close>

section \<open>Programs that return\<close>

definition finishes :: "'x option \<Rightarrow> ('x \<Rightarrow> bool) \<Rightarrow> bool" where
  "finishes m Q \<longleftrightarrow> (\<exists>x. m = Some x \<and> Q x)"

lemma finishes_bind: "finishes m (\<lambda>x. finishes (k x) Q) \<Longrightarrow> finishes (Option.bind m k) Q"
  by (auto simp: finishes_def)

lemma finishes_Some [simp]: "finishes (Some x) Q = Q x"
  by (simp add: finishes_def)

section \<open>Routing of exceptions\<close>

datatype route = Executes | Trap u32 u64

text \<open>A handler returns behind the instruction for these classes when the log says so.\<close>

definition skippable :: "u32 \<Rightarrow> u64 \<Rightarrow> bool" where
  "skippable l ec \<longleftrightarrow>
     (l = EL1 \<and> ec \<in> {EC_UNKNOWN, EC_WFI_WFE, EC_SIMD}) \<or> (l = EL3 \<and> ec \<in> {EC_SYSINSN, EC_WFI_WFE, EC_SIMD})"

fun reg_after :: "insn \<Rightarrow> (sysreg \<Rightarrow> u64) \<Rightarrow> sysreg \<Rightarrow> u64" where
  "reg_after (I_msr r v) g = g(r := v)"
| "reg_after _ g = g"

text \<open>The routing the architecture documents, for the instructions the AArch64 programs use:
  undefined system registers go to EL1; CPTR_EL3.TCPAC and TFP trap to EL3; CPACR.FPEN traps to
  EL1 first; SCTLR.nTWE and nTWI apply to EL0 and come before SCR_EL3.TWE and TWI.\<close>

definition fpen :: "u64 \<Rightarrow> u64" where
  "fpen cpacr = take_bit 2 (drop_bit 20 cpacr)"

definition undef_regs :: "(insn \<Rightarrow> (sysreg \<Rightarrow> u64) \<Rightarrow> route) \<Rightarrow> bool" where
  "undef_regs rt \<longleftrightarrow>
     (\<forall>g v. \<forall>r \<in> {R_SCR, R_SDER, R_CPTR_EL3}. rt (I_mrs r) g = Trap EL1 EC_UNKNOWN \<and> rt (I_msr r v) g = Trap EL1 EC_UNKNOWN)"

definition el0_routes :: "(insn \<Rightarrow> (sysreg \<Rightarrow> u64) \<Rightarrow> route) \<Rightarrow> bool" where
  "el0_routes rt \<longleftrightarrow> undef_regs rt \<and>
     (\<forall>g. rt I_smc g = Trap EL1 EC_UNKNOWN) \<and>
     (\<forall>g. rt I_wfe g = (if \<not> bit (g R_SCTLR) 18 then Trap EL1 EC_WFI_WFE
                        else if bit (g R_SCR) 13 then Trap EL3 EC_WFI_WFE else Executes)) \<and>
     (\<forall>g. rt I_wfi g = (if \<not> bit (g R_SCTLR) 16 then Trap EL1 EC_WFI_WFE
                        else if bit (g R_SCR) 12 then Trap EL3 EC_WFI_WFE else Executes)) \<and>
     (\<forall>g. rt I_fcmp g = (if fpen (g R_CPACR) \<noteq> 3 then Trap EL1 EC_SIMD
                         else if bit (g R_CPTR_EL3) 10 then Trap EL3 EC_SIMD else Executes))"

definition el1_routes :: "(insn \<Rightarrow> (sysreg \<Rightarrow> u64) \<Rightarrow> route) \<Rightarrow> bool" where
  "el1_routes rt \<longleftrightarrow> undef_regs rt \<and>
     (\<forall>g v. rt (I_mrs R_SCTLR) g = Executes \<and> rt (I_msr R_SCTLR v) g = Executes \<and> rt (I_mrs R_CURRENTEL) g = Executes) \<and>
     (\<forall>g v. rt (I_mrs R_CPACR) g = (if bit (g R_CPTR_EL3) 31 then Trap EL3 EC_SYSINSN else Executes) \<and>
            rt (I_msr R_CPACR v) g = (if bit (g R_CPTR_EL3) 31 then Trap EL3 EC_SYSINSN else Executes)) \<and>
     (\<forall>g. rt I_wfe g = (if bit (g R_SCR) 13 then Trap EL3 EC_WFI_WFE else Executes)) \<and>
     (\<forall>g. rt I_wfi g = (if bit (g R_SCR) 12 then Trap EL3 EC_WFI_WFE else Executes)) \<and>
     (\<forall>g. rt I_fcmp g = (if even (fpen (g R_CPACR)) then Trap EL1 EC_SIMD
                         else if bit (g R_CPTR_EL3) 10 then Trap EL3 EC_SIMD else Executes))"

section \<open>The masks\<close>

named_theorems trap_bits \<open>bits of register values the programs write\<close>

lemma cint_masks:
  "cint CPTR_TCPAC = 0xFFFFFFFF80000000" "cint CPTR_TFP = 0x400" "cint (NOT CPTR_TFP) = - 0x401"
  "cint SCR_TWE = 0x2000" "cint SCR_TWI = 0x1000" "cint (NOT SCR_TWE) = - 0x2001" "cint SCR_SMD = 0x80"
  "cint SCTLR_nTWE = 0x40000" "cint SCTLR_nTWI = 0x10000" "cint (NOT SCTLR_nTWE) = - 0x40001"
  "cint (NOT SCTLR_nTWI) = - 0x10001" "cint (CPACR_FPEN 3) = 0x300000" "cint (NOT (CPACR_FPEN 3)) = - 0x300001"
  "cint (NOT (CPACR_FPEN 2)) = - 0x200001" "cint (NOT (CPACR_FPEN 1)) = - 0x100001"
  by (simp_all add: cint_def c_const)

lemma mask_bits [trap_bits]:
  "\<not> bit (x AND - 0x40001 :: u64) 18" "bit (x OR 0x40000 :: u64) 18" "\<not> bit (x AND - 0x10001 :: u64) 16"
  "bit (x OR 0x10000 :: u64) 16" "bit (x OR 0x2000 :: u64) 13" "\<not> bit (x AND - 0x2001 :: u64) 13"
  "bit (x OR 0x1000 :: u64) 12" "bit (x OR 0x400 :: u64) 10" "\<not> bit (x AND - 0x401 :: u64) 10"
  "bit (x OR 0xFFFFFFFF80000000 :: u64) 31" "bit (x AND - 0x401 :: u64) 31 = bit x 31" "bit (x OR 0x400 :: u64) 31 = bit x 31"
  by (simp_all add: bit_simps)

lemma ns_bit_kept [trap_bits]:
  "(x OR 0x2000) AND 1 = x AND (1 :: u64)" "(x OR 0x1000) AND 1 = x AND (1 :: u64)"
  "(x AND - 0x2001) AND 1 = x AND (1 :: u64)" "(x OR 0x80) AND 1 = x AND (1 :: u64)"
  by (simp_all add: bit.conj_disj_distrib2 and.assoc)

lemma fpen_or: "fpen (x OR y) = fpen x OR fpen y"
  by (simp add: fpen_def)

lemma fpen_and: "fpen (x AND y) = fpen x AND fpen y"
  by (simp add: fpen_def)

lemma fpen_values [trap_bits]:
  "fpen x = 3 \<Longrightarrow> fpen (x OR 0x300000) = 3" "fpen (x AND - 0x300001) = 0"
  "fpen x = 3 \<Longrightarrow> fpen (x AND - 0x200001) = 1" "fpen x = 3 \<Longrightarrow> fpen (x AND - 0x100001) = 2"
  by (simp_all only: fpen_or fpen_and) (simp_all add: fpen_def)

section \<open>The instructions\<close>

definition idle_log :: sys_exception_t where
  "idle_log = \<lparr>excp_ec = 0, excp_iss = 0, excp_far = 0, excp_log = False, excp_action = 0, excp_taken = False,
     excp_el = 0, excp_state = 0\<rparr>"

definition armed_log :: sys_exception_t where
  "armed_log = idle_log\<lparr>excp_action := EXCP_ACTION_SKIP, excp_log := True\<rparr>"

locale trap_machine =
  fixes ex :: "insn \<Rightarrow> 'a el1_scheme \<Rightarrow> (u64 \<times> 'a el1_scheme) option"
    and plain :: "insn \<Rightarrow> bool"
    and fault :: "insn \<Rightarrow> bool"
    and rt :: "insn \<Rightarrow> (sysreg \<Rightarrow> u64) \<Rightarrow> route"
    and regs :: "'a el1_scheme \<Rightarrow> sysreg \<Rightarrow> u64"
    and good :: "'a el1_scheme \<Rightarrow> bool"
    and rest :: "'a el1_scheme \<Rightarrow> 'b"
  assumes ex_runs: "good s \<Longrightarrow> plain i \<Longrightarrow> rt i (regs s) = Executes \<Longrightarrow>
      \<exists>v s'. ex i s = Some (v, s') \<and> good s' \<and> rest s' = rest s \<and> log_of s' = log_of s \<and> el1_tcnt s' = el1_tcnt s \<and>
        regs s' = reg_after i (regs s) \<and> (\<forall>r. i = I_mrs r \<longrightarrow> v = regs s r)"
    and ex_traps: "good s \<Longrightarrow> fault i \<Longrightarrow> rt i (regs s) = Trap l ec \<Longrightarrow> skippable l ec \<Longrightarrow> log_of s = armed_log \<Longrightarrow>
      \<exists>v s'. ex i s = Some (v, s') \<and> good s' \<and> rest s' = rest s \<and> log_shows ec l s' \<and> el1_tcnt s' = el1_tcnt s \<and>
        regs s' = regs s"
    and book: "good (s\<lparr>el1_sysc := c\<rparr>) = good s" "good (s\<lparr>el1_tcnt := t\<rparr>) = good s"
      "rest (s\<lparr>el1_tcnt := t\<rparr>) = rest s" "rest (upd_log f s) = rest s"
      "regs (s\<lparr>el1_sysc := c\<rparr>) = regs s" "regs (s\<lparr>el1_tcnt := t\<rparr>) = regs s"

locale reg_ops =
  fixes get :: "u64 \<Rightarrow> u32 \<Rightarrow> 'a el1_scheme \<Rightarrow> (u64 \<times> 'a el1_scheme) option"
    and put :: "u64 \<Rightarrow> u32 \<Rightarrow> u64 \<Rightarrow> 'a el1_scheme \<Rightarrow> 'a el1_scheme option"
    and regs :: "'a el1_scheme \<Rightarrow> sysreg \<Rightarrow> u64"
    and good :: "'a el1_scheme \<Rightarrow> bool"
    and rest :: "'a el1_scheme \<Rightarrow> 'b"
  assumes get_cptr: "good s \<Longrightarrow> \<exists>s'. get KEY_CPTR_EL3 3 s = Some (regs s R_CPTR_EL3, s') \<and> good s' \<and> rest s' = rest s \<and>
        log_of s' = log_of s \<and> el1_tcnt s' = el1_tcnt s \<and> regs s' = regs s"
    and get_scr: "good s \<Longrightarrow> \<exists>s'. get KEY_SCR 3 s = Some (regs s R_SCR, s') \<and> good s' \<and> rest s' = rest s \<and>
        log_of s' = log_of s \<and> el1_tcnt s' = el1_tcnt s \<and> regs s' = regs s"
    and put_cptr: "good s \<Longrightarrow> \<exists>s'. put KEY_CPTR_EL3 3 v s = Some s' \<and> good s' \<and> rest s' = rest s \<and>
        log_of s' = log_of s \<and> el1_tcnt s' = el1_tcnt s \<and> regs s' = (regs s)(R_CPTR_EL3 := v)"
    and put_scr: "good s \<Longrightarrow> v AND 1 = regs s R_SCR AND 1 \<Longrightarrow>
        \<exists>s'. put KEY_SCR 3 v s = Some s' \<and> good s' \<and> rest s' = rest s \<and>
        log_of s' = log_of s \<and> el1_tcnt s' = el1_tcnt s \<and> regs s' = (regs s)(R_SCR := v)"

section \<open>The macros over an instruction\<close>

lemma log_simps [simp]:
  "log_of (upd_log f s) = f (log_of s)" "el1_tcnt (upd_log f s) = el1_tcnt s"
  "log_of (TEST_CONDITION ok s) = log_of s" "el1_tcnt (TEST_CONDITION ok s) = count_check ok (el1_tcnt s)"
  "log_of (TEST_EXCP_RESET s) = idle_log" "el1_tcnt (TEST_EXCP_RESET s) = el1_tcnt s"
  "log_of s = idle_log \<Longrightarrow> log_of (TEST_ENABLE_EXCP_LOG s) = armed_log" "el1_tcnt (TEST_ENABLE_EXCP_LOG s) = el1_tcnt s"
  by (simp_all add: upd_log_def upd_excp_def TEST_CONDITION_def TEST_EXCP_RESET_def TEST_ENABLE_EXCP_LOG_def
      idle_log_def armed_log_def)

lemma check_log_shown:
  assumes "log_shows ec l s"
  shows "check_log ec l s = TEST_EXCP_RESET (TEST_CONDITION True s)"
  using assms by (simp add: check_log_def log_shows_def TEST_CONDITION_def count_check_def Let_def)

lemma log_shows_eq: "log_of s' = log_of s \<Longrightarrow> log_shows ec l s' = log_shows ec l s"
  by (simp add: log_shows_def)

lemma armed_not_taken: "\<not> excp_taken armed_log"
  by (simp add: armed_log_def idle_log_def)

text \<open>A snapshot: what is known of the machine between two steps of a program that began in \<open>s0\<close>.\<close>

definition snap :: "('a el1_scheme \<Rightarrow> sysreg \<Rightarrow> u64) \<Rightarrow> ('a el1_scheme \<Rightarrow> bool) \<Rightarrow> ('a el1_scheme \<Rightarrow> 'b) \<Rightarrow>
    'a el1_scheme \<Rightarrow> 'a el1_scheme \<Rightarrow> (sysreg \<Rightarrow> u64) \<Rightarrow> sys_exception_t \<Rightarrow> test_control_t \<Rightarrow> bool" where
  "snap regs good rest s0 s g l c \<longleftrightarrow>
     good s \<and> rest s = rest s0 \<and> regs s = g \<and> log_of s = l \<and> el1_tcnt s = c"

definition shown :: "u64 \<Rightarrow> u32 \<Rightarrow> sys_exception_t \<Rightarrow> bool" where
  "shown ec el l \<longleftrightarrow> excp_taken l \<and> excp_el l = el \<and> excp_ec l = ucast ec"

text \<open>What a program that passes leaves: \<open>n\<close> successful checks are counted.\<close>

definition passes :: "('a el1_scheme \<Rightarrow> sysreg \<Rightarrow> u64) \<Rightarrow> ('a el1_scheme \<Rightarrow> bool) \<Rightarrow> ('a el1_scheme \<Rightarrow> 'b) \<Rightarrow> nat \<Rightarrow>
    'a el1_scheme \<Rightarrow> 'a el1_scheme option \<Rightarrow> bool" where
  "passes regs good rest n s m \<longleftrightarrow> finishes m (\<lambda>s'. good s' \<and> rest s' = rest s \<and> regs s' = regs s \<and>
     log_of s' = idle_log \<and> el1_tcnt s' = (count_check True ^^ n) (el1_tcnt s))"

lemma passes_start:
  assumes "good s" "log_of s = idle_log"
    and "snap regs good rest s s (regs s) idle_log (el1_tcnt s) \<Longrightarrow>
      finishes m (\<lambda>s'. snap regs good rest s s' (regs s) idle_log ((count_check True ^^ n) (el1_tcnt s)))"
  shows "passes regs good rest n s m"
  using assms unfolding passes_def snap_def by blast

context trap_machine
begin

lemma book_macros [simp]:
  "good (TEST_CONDITION ok s) = good s" "rest (TEST_CONDITION ok s) = rest s" "regs (TEST_CONDITION ok s) = regs s"
  "good (TEST_EXCP_RESET s) = good s" "rest (TEST_EXCP_RESET s) = rest s" "regs (TEST_EXCP_RESET s) = regs s"
  "good (TEST_ENABLE_EXCP_LOG s) = good s" "rest (TEST_ENABLE_EXCP_LOG s) = rest s" "regs (TEST_ENABLE_EXCP_LOG s) = regs s"
  by (simp_all add: TEST_CONDITION_def TEST_EXCP_RESET_def TEST_ENABLE_EXCP_LOG_def book)
     (simp_all add: upd_log_def book)

lemma run_step:
  assumes "snap regs good rest s0 s g l c" "plain i" "rt i g = Executes"
    and "\<And>v s'. snap regs good rest s0 s' (reg_after i g) l c \<Longrightarrow> (\<And>r. i = I_mrs r \<Longrightarrow> v = g r) \<Longrightarrow> finishes (k v s') Q"
  shows "finishes (Option.bind (ex i s) (\<lambda>(v, s). k v s)) Q"
proof -
  obtain v s' where "ex i s = Some (v, s')" "snap regs good rest s0 s' (reg_after i g) l c" "\<forall>r. i = I_mrs r \<longrightarrow> v = g r"
    using ex_runs [of s i] assms(1-3) by (auto simp: snap_def)
  then show ?thesis using assms(4) by simp
qed

lemma read_step:
  assumes "snap regs good rest s0 s g l c" "plain (I_mrs r)" "rt (I_mrs r) g = Executes"
    and "\<And>s'. snap regs good rest s0 s' g l c \<Longrightarrow> finishes (k (g r) s') Q"
  shows "finishes (Option.bind (ex (I_mrs r) s) (\<lambda>(v, s). k v s)) Q"
  by (rule run_step [OF assms(1-3)]) (simp add: assms(4))

lemma write_step:
  assumes "snap regs good rest s0 s g l c" "plain (I_msr r w)" "rt (I_msr r w) g = Executes"
    and "\<And>v s'. snap regs good rest s0 s' (g(r := w)) l c \<Longrightarrow> finishes (k v s') Q"
  shows "finishes (Option.bind (ex (I_msr r w) s) (\<lambda>(v, s). k v s)) Q"
  by (rule run_step [OF assms(1-3)]) (simp add: assms(4))

lemma trap_step:
  assumes "snap regs good rest s0 s g idle_log c" "fault i" "rt i g = Trap l ec" "skippable l ec"
    and "\<And>v s' x. snap regs good rest s0 s' g x c \<Longrightarrow> shown ec l x \<Longrightarrow> finishes (k v s') Q"
  shows "finishes (Option.bind (ex i (TEST_ENABLE_EXCP_LOG s)) (\<lambda>(v, s). k v s)) Q"
proof -
  obtain v s' where "ex i (TEST_ENABLE_EXCP_LOG s) = Some (v, s')" "good s'" "rest s' = rest s" "log_shows ec l s'"
    "el1_tcnt s' = el1_tcnt s" "regs s' = regs s"
    using ex_traps [of "TEST_ENABLE_EXCP_LOG s" i l ec] assms(1-4) by (auto simp: snap_def)
  then show ?thesis using assms(1) assms(5) [of s' "log_of s'" v] by (simp add: snap_def shown_def log_shows_def)
qed

lemma trap_test_step:
  assumes "snap regs good rest s0 s g idle_log c" "fault i" "rt i g = Trap l ec" "skippable l ec"
    and "\<And>v s'. snap regs good rest s0 s' g idle_log (count_check True c) \<Longrightarrow> finishes (k v s') Q"
  shows "finishes (Option.bind (TEST_EXCEPTION (ex i) ec l s) (\<lambda>(v, s). k v s)) Q"
proof -
  obtain v s' where s': "ex i (TEST_ENABLE_EXCP_LOG s) = Some (v, s')" "good s'" "rest s' = rest s" "log_shows ec l s'"
    "el1_tcnt s' = el1_tcnt s" "regs s' = regs s"
    using ex_traps [of "TEST_ENABLE_EXCP_LOG s" i l ec] assms(1-4) by (auto simp: snap_def)
  then have "snap regs good rest s0 (TEST_EXCP_RESET (TEST_CONDITION True s')) g idle_log (count_check True c)"
    using assms(1) by (simp add: snap_def)
  from assms(5) [OF this] s'(1,4) show ?thesis by (simp add: TEST_EXCEPTION_def)
qed

lemma no_trap_test_step:
  assumes "snap regs good rest s0 s g idle_log c" "plain i" "rt i g = Executes"
    and "\<And>v s'. snap regs good rest s0 s' (reg_after i g) idle_log (count_check True c) \<Longrightarrow> finishes (k v s') Q"
  shows "finishes (Option.bind (TEST_NO_EXCEPTION (ex i) s) (\<lambda>(v, s). k v s)) Q"
proof -
  obtain v s' where s': "ex i (TEST_ENABLE_EXCP_LOG s) = Some (v, s')" "good s'" "rest s' = rest s" "log_of s' = armed_log"
    "el1_tcnt s' = el1_tcnt s" "regs s' = reg_after i (regs s)"
    using ex_runs [of "TEST_ENABLE_EXCP_LOG s" i] assms(1-3) by (auto simp: snap_def)
  then have "snap regs good rest s0 (TEST_EXCP_RESET (TEST_CONDITION True s')) (reg_after i g) idle_log (count_check True c)"
    using assms(1) by (simp add: snap_def)
  from assms(4) [OF this] s'(1,4) show ?thesis by (simp add: TEST_NO_EXCEPTION_def armed_not_taken)
qed

lemma check_step:
  assumes "snap regs good rest s0 s g x c" "shown ec l x"
    and "\<And>s'. snap regs good rest s0 s' g idle_log (count_check True c) \<Longrightarrow> finishes (k s') Q"
  shows "finishes (Option.bind (Some (check_log ec l s)) k) Q"
proof -
  have "check_log ec l s = TEST_EXCP_RESET (TEST_CONDITION True s)"
    using assms(1,2) by (intro check_log_shown) (simp add: snap_def shown_def log_shows_def)
  then show ?thesis using assms(1,3) by (simp add: snap_def)
qed

end

context reg_ops
begin

lemma get_cptr_step:
  assumes "snap regs good rest s0 s g l c"
    and "\<And>s'. snap regs good rest s0 s' g l c \<Longrightarrow> finishes (k (g R_CPTR_EL3) s') Q"
  shows "finishes (Option.bind (get KEY_CPTR_EL3 3 s) (\<lambda>(v, s). k v s)) Q"
  using get_cptr [of s] assms by (auto simp: snap_def)

lemma get_scr_step:
  assumes "snap regs good rest s0 s g l c"
    and "\<And>s'. snap regs good rest s0 s' g l c \<Longrightarrow> finishes (k (g R_SCR) s') Q"
  shows "finishes (Option.bind (get KEY_SCR 3 s) (\<lambda>(v, s). k v s)) Q"
  using get_scr [of s] assms by (auto simp: snap_def)

lemma put_cptr_step:
  assumes "snap regs good rest s0 s g l c"
    and "\<And>s'. snap regs good rest s0 s' (g(R_CPTR_EL3 := v)) l c \<Longrightarrow> finishes (k s') Q"
  shows "finishes (Option.bind (put KEY_CPTR_EL3 3 v s) k) Q"
  using put_cptr [of s v] assms by (auto simp: snap_def)

lemma put_scr_step:
  assumes "snap regs good rest s0 s g l c" "v AND 1 = g R_SCR AND 1"
    and "\<And>s'. snap regs good rest s0 s' (g(R_SCR := v)) l c \<Longrightarrow> finishes (k s') Q"
  shows "finishes (Option.bind (put KEY_SCR 3 v s) k) Q"
  using put_scr [of s v] assms by (auto simp: snap_def)

lemma put_cptr_end:
  assumes "snap regs good rest s0 s g l c"
    and "\<And>s'. snap regs good rest s0 s' (g(R_CPTR_EL3 := v)) l c \<Longrightarrow> Q s'"
  shows "finishes (put KEY_CPTR_EL3 3 v s) Q"
  using put_cptr [of s v] assms by (auto simp: snap_def finishes_def)

lemma put_scr_end:
  assumes "snap regs good rest s0 s g l c" "v AND 1 = g R_SCR AND 1"
    and "\<And>s'. snap regs good rest s0 s' (g(R_SCR := v)) l c \<Longrightarrow> Q s'"
  shows "finishes (put KEY_SCR 3 v s) Q"
  using put_scr [of s v] assms by (auto simp: snap_def finishes_def)

end

lemma snap_end:
  assumes "snap regs good rest s0 s g l c" "g = g'" "c = c'"
  shows "snap regs good rest s0 s g' l c'"
  using assms by simp

section \<open>The programs of EL1\<close>

definition plain_el1 :: "insn \<Rightarrow> bool" where
  "plain_el1 i \<longleftrightarrow> i \<in> {I_wfe, I_wfi, I_fcmp} \<or> (\<exists>r v. r \<in> {R_CPACR, R_SCTLR} \<and> (i = I_mrs r \<or> i = I_msr r v))"

locale el1_tests =
  t: trap_machine "t_exec hw" plain_el1 "\<lambda>i. True" rt regs good rest +
  r: reg_ops "SMC_GET_REG hw" "SMC_SET_REG hw" regs good rest
  for hw :: "'a el1_scheme test_env" and rt regs good and rest :: "'a el1_scheme \<Rightarrow> 'b"
begin

lemma el1_rts:
  assumes "el1_routes rt"
  shows
    "rt (I_mrs R_SCR) g = Trap EL1 EC_UNKNOWN" "rt (I_msr R_SCR v) g = Trap EL1 EC_UNKNOWN"
    "rt (I_mrs R_SDER) g = Trap EL1 EC_UNKNOWN" "rt (I_msr R_SDER v) g = Trap EL1 EC_UNKNOWN"
    "rt (I_mrs R_CPTR_EL3) g = Trap EL1 EC_UNKNOWN" "rt (I_msr R_CPTR_EL3 v) g = Trap EL1 EC_UNKNOWN"
    "rt (I_mrs R_SCTLR) g = Executes" "rt (I_msr R_SCTLR v) g = Executes"
    "rt (I_mrs R_CPACR) g = (if bit (g R_CPTR_EL3) 31 then Trap EL3 EC_SYSINSN else Executes)"
    "rt (I_msr R_CPACR v) g = (if bit (g R_CPTR_EL3) 31 then Trap EL3 EC_SYSINSN else Executes)"
    "rt I_wfe g = (if bit (g R_SCR) 13 then Trap EL3 EC_WFI_WFE else Executes)"
    "rt I_wfi g = (if bit (g R_SCR) 12 then Trap EL3 EC_WFI_WFE else Executes)"
    "rt I_fcmp g = (if even (fpen (g R_CPACR)) then Trap EL1 EC_SIMD
                    else if bit (g R_CPTR_EL3) 10 then Trap EL3 EC_SIMD else Executes)"
  using assms by (simp_all add: el1_routes_def undef_regs_def)

lemmas steps = t.trap_test_step t.no_trap_test_step t.read_step t.write_step t.trap_step t.check_step
  r.get_cptr_step r.get_scr_step r.put_cptr_step r.put_scr_step r.put_cptr_end r.put_scr_end

lemmas sides = el1_rts trap_bits plain_el1_def skippable_def EL1_def EL3_def

lemma cpacr_trap:
  assumes "good s" "log_of s = idle_log" "el1_routes rt"
  shows "passes regs good rest 2 s (el1_check_cpacr_trap hw junk s)"
  unfolding el1_check_cpacr_trap_def cint_masks
  by (rule passes_start, fact assms, fact assms)
     ((erule steps | (simp add: sides assms; fail))+, erule snap_end, simp_all add: fun_eq_iff eval_nat_numeral)

lemma register_access_nsec:
  assumes "good s" "log_of s = idle_log" "el1_routes rt"
  shows "passes regs good rest 6 s (el1_check_register_access_nsec AArch64 hw junk s)"
  unfolding el1_check_register_access_nsec_def
  by (rule passes_start, fact assms, fact assms)
     ((erule steps | (simp add: sides assms; fail) | simp only: arch.simps if_False)+, simp add: eval_nat_numeral)

lemma register_access_sec:
  assumes "good s" "log_of s = idle_log" "el1_routes rt"
  shows "passes regs good rest 6 s (el1_check_register_access_sec AArch64 hw junk s)"
  unfolding el1_check_register_access_sec_def
  by (rule passes_start, fact assms, fact assms)
     ((erule steps | (simp add: sides assms; fail) | simp only: arch.simps if_False)+, simp add: eval_nat_numeral)

lemma wfx_trap:
  assumes "good s" "log_of s = idle_log" "el1_routes rt"
  shows "passes regs good rest 5 s (el1_check_wfx_trap hw junk s)"
  unfolding el1_check_wfx_trap_def cint_masks
  by (rule passes_start, fact assms, fact assms)
     ((erule steps | (simp add: sides assms; fail))+, erule snap_end, simp_all add: fun_eq_iff eval_nat_numeral)

lemma fp_trap:
  assumes "good s" "log_of s = idle_log" "el1_routes rt" "fpen (regs s R_CPACR) = 3" "\<not> bit (regs s R_CPTR_EL3) 10" "\<not> bit (regs s R_CPTR_EL3) 31"
  shows "passes regs good rest 6 s (el1_check_fp_trap hw junk s)"
  unfolding el1_check_fp_trap_def cint_masks
  by (rule passes_start, fact assms, fact assms)
     ((erule steps | (simp add: sides assms; fail))+, erule snap_end, simp_all add: fun_eq_iff eval_nat_numeral)

end

section \<open>The programs of EL0\<close>

text \<open>At EL0 the registers of EL1 are reached through EL1's service, where the access itself may
  trap: \<open>svc_access\<close> sees the service as the instruction it executes.\<close>

fun reg_key :: "sysreg \<Rightarrow> u64" where
  "reg_key R_CPACR = KEY_CPACR"
| "reg_key R_SCTLR = KEY_SCTLR"
| "reg_key R_SCR = KEY_SCR"
| "reg_key R_CPTR_EL3 = KEY_CPTR_EL3"
| "reg_key R_CURRENTEL = KEY_CURRENTEL"
| "reg_key _ = 0"

fun svc_access :: "'a el1_scheme test_env \<Rightarrow> op_desc \<Rightarrow> insn \<Rightarrow> 'a el1_scheme \<Rightarrow> (u64 \<times> 'a el1_scheme) option" where
  "svc_access hw junk (I_mrs r) = SVC_GET_REG hw junk (reg_key r) 1"
| "svc_access hw junk (I_msr r v) = unit_op (SVC_SET_REG hw junk (reg_key r) 1 v)"
| "svc_access hw junk _ = (\<lambda>s. None)"

definition can_svc :: "insn \<Rightarrow> bool" where
  "can_svc i \<longleftrightarrow> (\<exists>r v. r \<in> {R_CPACR, R_SCTLR} \<and> (i = I_mrs r \<or> i = I_msr r v))"

definition plain_el0 :: "insn \<Rightarrow> bool" where
  "plain_el0 i \<longleftrightarrow> i \<in> {I_wfe, I_wfi, I_fcmp}"

lemma finishes_unit_op: "finishes (Option.bind (unit_op f s) (\<lambda>(v, s). k s)) Q = finishes (Option.bind (f s) k) Q"
  by (cases "f s") (simp_all add: unit_op_def)

locale el0_tests =
  t: trap_machine "t_exec hw" plain_el0 "\<lambda>i. True" rt regs good rest +
  v: trap_machine "svc_access hw junk" can_svc can_svc rt1 regs good rest +
  r: reg_ops "SVC_GET_REG hw junk" "SVC_SET_REG hw junk" regs good rest
  for hw :: "'a el1_scheme test_env" and junk rt rt1 regs good and rest :: "'a el1_scheme \<Rightarrow> 'b"
begin

lemma el0_rts:
  assumes "el0_routes rt"
  shows
    "rt (I_mrs R_SCR) g = Trap EL1 EC_UNKNOWN" "rt (I_msr R_SCR v) g = Trap EL1 EC_UNKNOWN"
    "rt (I_mrs R_SDER) g = Trap EL1 EC_UNKNOWN" "rt (I_msr R_SDER v) g = Trap EL1 EC_UNKNOWN"
    "rt (I_mrs R_CPTR_EL3) g = Trap EL1 EC_UNKNOWN" "rt (I_msr R_CPTR_EL3 v) g = Trap EL1 EC_UNKNOWN"
    "rt I_smc g = Trap EL1 EC_UNKNOWN"
    "rt I_wfe g = (if \<not> bit (g R_SCTLR) 18 then Trap EL1 EC_WFI_WFE
                   else if bit (g R_SCR) 13 then Trap EL3 EC_WFI_WFE else Executes)"
    "rt I_wfi g = (if \<not> bit (g R_SCTLR) 16 then Trap EL1 EC_WFI_WFE
                   else if bit (g R_SCR) 12 then Trap EL3 EC_WFI_WFE else Executes)"
    "rt I_fcmp g = (if fpen (g R_CPACR) \<noteq> 3 then Trap EL1 EC_SIMD
                    else if bit (g R_CPTR_EL3) 10 then Trap EL3 EC_SIMD else Executes)"
  using assms by (simp_all add: el0_routes_def undef_regs_def)

lemma svc_rts:
  assumes "el1_routes rt1"
  shows
    "rt1 (I_mrs R_SCTLR) g = Executes" "rt1 (I_msr R_SCTLR v) g = Executes"
    "rt1 (I_mrs R_CPACR) g = (if bit (g R_CPTR_EL3) 31 then Trap EL3 EC_SYSINSN else Executes)"
    "rt1 (I_msr R_CPACR v) g = (if bit (g R_CPTR_EL3) 31 then Trap EL3 EC_SYSINSN else Executes)"
  using assms by (simp_all add: el1_routes_def)

text \<open>The steps through EL1's service.\<close>

lemma svc_put_step:
  assumes "snap regs good rest s0 s g l c" "can_svc (I_msr r w)" "rt1 (I_msr r w) g = Executes"
    and "\<And>s'. snap regs good rest s0 s' (g(r := w)) l c \<Longrightarrow> finishes (k s') Q"
  shows "finishes (Option.bind (SVC_SET_REG hw junk (reg_key r) 1 w s) k) Q"
  using v.write_step [OF assms(1-3), of "\<lambda>v s. k s" Q] assms(4) by (simp add: finishes_unit_op)

lemmas svc_steps =
  v.read_step [of _ _ _ _ _ R_CPACR, simplified] v.read_step [of _ _ _ _ _ R_SCTLR, simplified]
  svc_put_step [of _ _ _ _ _ R_CPACR, simplified] svc_put_step [of _ _ _ _ _ R_SCTLR, simplified]
  v.trap_test_step [of _ _ _ _ "I_mrs R_CPACR", simplified] v.trap_test_step [of _ _ _ _ "I_msr R_CPACR w" for w, simplified]

lemmas steps = t.trap_test_step t.no_trap_test_step t.read_step t.write_step t.trap_step t.check_step
  r.get_cptr_step r.get_scr_step r.put_cptr_step r.put_scr_step r.put_cptr_end r.put_scr_end svc_steps

lemmas sides = el0_rts svc_rts trap_bits plain_el0_def can_svc_def skippable_def EL1_def EL3_def

lemma check_smc:
  assumes "good s" "log_of s = idle_log" "el0_routes rt" "el1_routes rt1"
  shows "passes regs good rest 1 s (el0_check_smc hw junk s)"
  unfolding el0_check_smc_def
  by (rule passes_start, fact assms, fact assms) (erule steps | (simp add: sides assms; fail))+

lemma register_access:
  assumes "good s" "log_of s = idle_log" "el0_routes rt" "el1_routes rt1"
  shows "passes regs good rest 6 s (el0_check_register_access AArch64 hw junk s)"
  unfolding el0_check_register_access_def
  by (rule passes_start, fact assms, fact assms)
     ((erule steps | (simp add: sides assms; fail) | simp only: arch.simps if_False)+, simp add: eval_nat_numeral)

lemma cpacr_trap:
  assumes "good s" "log_of s = idle_log" "el0_routes rt" "el1_routes rt1"
  shows "passes regs good rest 2 s (el0_check_cpacr_trap hw junk s)"
  unfolding el0_check_cpacr_trap_def cint_masks
  by (rule passes_start, fact assms, fact assms)
     ((erule steps | (simp add: sides assms; fail))+, erule snap_end, simp_all add: fun_eq_iff eval_nat_numeral)

lemma wfx_trap:
  assumes "good s" "log_of s = idle_log" "el0_routes rt" "el1_routes rt1"
  shows "passes regs good rest 6 s (el0_check_wfx_trap hw junk s)"
  unfolding el0_check_wfx_trap_def cint_masks
  by (rule passes_start, fact assms, fact assms)
     ((erule steps | (simp add: sides assms; fail))+, erule snap_end, simp_all add: fun_eq_iff eval_nat_numeral)

lemma fp_trap:
  assumes "good s" "log_of s = idle_log" "el0_routes rt" "el1_routes rt1" "fpen (regs s R_CPACR) = 3" "\<not> bit (regs s R_CPTR_EL3) 10" "\<not> bit (regs s R_CPTR_EL3) 31"
  shows "passes regs good rest 6 s (el0_check_fp_trap hw junk s)"
  unfolding el0_check_fp_trap_def cint_masks
  by (rule passes_start, fact assms, fact assms)
     ((erule steps | (simp add: sides assms; fail))+, erule snap_end, simp_all add: fun_eq_iff eval_nat_numeral)

end

end
