(* ===== verification/System.thy ===== *)
theory System
  imports El1 El0
begin

text \<open>
  The machine: EL3 with the two worlds, each with its EL1 and EL0 image, composed the way the
  SMC and SVC instructions connect them. \<open>sys\<close> extends the EL1 state, whose fields are those of
  the running world; \<open>m_other\<close> keeps the other world's. The secure world is a coroutine: while
  the non-secure world runs it waits in an SMC of its EL1, on behalf of the \<open>svc\<close> of its EL0
  that \<open>m_pend_op\<close> and \<open>m_pend\<close> record, and \<open>sec_resume\<close> continues there. A handler that is
  continued is evaluated with an SMC service that returns what the resumption delivers;
  \<open>el1_request\<close> says which SMC a handler issues and in which state.

  The bodies of the test functions and the system-register accesses come with the argument
  \<open>hw\<close>; return addresses of the instructions are left to the processor.
\<close>

record bank =
  b1_secure :: u32
  b1_mm :: mm
  b1_sysc_va :: u64
  b1_elr :: u64
  b1_ran :: "(test_fn \<times> u32) list"

record sys = el1 +
  m_el3 :: el3
  m_other :: bank
  m_pend_op :: u32
  m_pend :: op_desc
  m_pend_elr :: u64
  m_desc :: op_desc
  ran0_sec :: "(test_fn \<times> u32) list"
  ran0_nsec :: "(test_fn \<times> u32) list"

definition swap_world :: "sys \<Rightarrow> sys" where
  "swap_world s = s\<lparr>
     el1_secure := b1_secure (m_other s), el1_mm := b1_mm (m_other s), el1_sysc_va := b1_sysc_va (m_other s),
     el1_elr := b1_elr (m_other s), el1_ran := b1_ran (m_other s),
     m_other := \<lparr>b1_secure = el1_secure s, b1_mm = el1_mm s, b1_sysc_va = el1_sysc_va s,
                 b1_elr = el1_elr s, b1_ran = el1_ran s\<rparr>\<rparr>"

section \<open>SMC: entering EL3\<close>

text \<open>The processor takes the SMC exception with the operation in x0; the vector handles it. The
  control block is shared. The result is x0 and whether the other world runs now.\<close>

definition smc_entry :: "u32 \<Rightarrow> sys \<Rightarrow> el3" where
  "smc_entry op s =
     upd_cpu (\<lambda>c. (set_reg 0 (ucast op) c)\<lparr>r_esr_el3 := push_bit 26 EC_SMC64\<rparr>)
       ((m_el3 s)\<lparr>syscntl := el1_sysc s\<rparr>)"

definition enter_el3 :: "arch \<Rightarrow> u32 \<Rightarrow> sys \<Rightarrow> (u32 \<times> bool \<times> sys) option" where
  "enter_el3 a op s =
     Option.bind (el3_sync_lower64 a (ibuf s) (smc_entry op s))
       (\<lambda>(d, e). let s1 = s\<lparr>ibuf := d, el1_sysc := syscntl e, m_el3 := e\<rparr>;
                      sw = (r_scr_el3 (cpu_of e) AND 1 \<noteq> r_scr_el3 (cpu_of (m_el3 s)) AND 1)
                  in Some (ucast (gpr (cpu_of e) 0), sw, if sw then swap_world s1 else s1))"

section \<open>The SMC an EL1 handler issues\<close>

definition el1_request :: "u32 \<Rightarrow> op_desc \<Rightarrow> 'a el1_scheme \<Rightarrow> (u32 \<times> 'a el1_scheme) option" where
  "el1_request op d s =
     (if op = SVC_OP_EXIT then Some (SMC_OP_EXIT, s)
      else if op = SVC_OP_YIELD then Some (SMC_OP_YIELD, s)
      else if op = SVC_OP_MAP \<and> map_type d AND OP_MAP_EL3 = OP_MAP_EL3 then
        (let b = copy_map (ibuf s) d in
         Some (SMC_OP_MAP, s\<lparr>ibuf := if map_pa b \<noteq> 0 then set_map_pa (mem_lookup_pa (map_va b) (el1_mm s)) b else b\<rparr>))
      else if op = SVC_OP_GET_REG \<and> data_el d = 3 then Some (SMC_OP_GET_REG, s\<lparr>ibuf := d\<rparr>)
      else if op = SVC_OP_SET_REG \<and> data_el d = 3 then Some (SMC_OP_SET_REG, s\<lparr>ibuf := d\<rparr>)
      else if op = SVC_OP_TEST then Some (SMC_OP_TEST, s\<lparr>ibuf := test_step d\<rparr>)
      else if op = SVC_OP_DISPATCH \<and> \<not> (disp_el d = ucast EL1 \<and> disp_state d = ucast (el1_secure s))
        then Some (SMC_OP_DISPATCH, s\<lparr>ibuf := d\<rparr>)
      else None)"

section \<open>The secure world\<close>

datatype svc_result = Returned u32 op_desc sys | Switched u32 sys

text \<open>An \<open>svc\<close> of secure EL0: EL1 either finishes, or its SMC switches to the other world, which
  the second case hands on, with the pending call recorded.\<close>

definition sec_svc :: "arch \<Rightarrow> sys services \<Rightarrow> u32 \<Rightarrow> op_desc \<Rightarrow> sys \<Rightarrow> svc_result option" where
  "sec_svc a hw op d s =
     (case el1_request op d s of
        None \<Rightarrow> Option.bind (el1_handle_svc a hw op d (el1_elr s) s) (\<lambda>(r, d1, s1). Some (Returned r d1 s1))
      | Some (sop, s1) \<Rightarrow>
          Option.bind (enter_el3 a sop (s1\<lparr>m_pend_op := op, m_pend := d, m_pend_elr := el1_elr s\<rparr>))
            (\<lambda>(ret, sw, s2).
               if sw then Some (Switched ret s2)
               else Option.bind (el1_handle_svc a (hw\<lparr>smc := \<lambda>_ _. Some (ret, s2)\<rparr>) op d (el1_elr s) s)
                      (\<lambda>(r, d1, s3). Some (Returned r d1 s3))))"

definition count_sys :: "bool \<Rightarrow> sys \<Rightarrow> sys" where
  "count_sys ok s = s\<lparr>el1_tcnt := count_check ok (el1_tcnt s)\<rparr>"

definition sec_el0 :: "sys services \<Rightarrow> (u32 \<Rightarrow> op_desc \<Rightarrow> sys \<Rightarrow> (u32 \<times> op_desc \<times> sys) option) \<Rightarrow> sys el0_services" where
  "sec_el0 hw f = \<lparr>svc = f, tcall = (\<lambda>t x s. call hw t x (s\<lparr>ran0_sec := ran0_sec s @ [(t, x)]\<rparr>)), tcount = count_sys\<rparr>"

text \<open>The switch statement of the service loop; a forwarded dispatch may switch worlds in the
  middle of it.\<close>

definition sec_forward :: "arch \<Rightarrow> op_desc \<Rightarrow> u32 \<Rightarrow> op_desc \<Rightarrow> op_desc option" where
  "sec_forward a junk op d =
     (if op = SVC_OP_DISPATCH then
        (case run_test (test_func a EL0 SECURE) exception_level_el0 SECURE junk (disp_fid d)
                (ucast (disp_el d)) (ucast (disp_state d)) (ucast (disp_arg d)) of
           Forward fd \<Rightarrow> Some fd | Run f x \<Rightarrow> None | Null_slot \<Rightarrow> None | Bad_index \<Rightarrow> None)
      else None)"

definition returned :: "(u32 \<times> op_desc \<times> sys) option \<Rightarrow> svc_result option" where
  "returned r = Option.bind r (\<lambda>(op, d, s). Some (Returned op d s))"

definition sec_switch :: "arch \<Rightarrow> sys services \<Rightarrow> op_desc \<Rightarrow> u32 \<Rightarrow> sys \<Rightarrow> svc_result option" where
  "sec_switch a hw junk op s =
     (case sec_forward a junk op (m_desc s) of
        None \<Rightarrow> returned (el0_sec_switch a (sec_el0 hw (\<lambda>_ _ _. None)) junk op (m_desc s) s)
      | Some fd \<Rightarrow>
          Option.bind (sec_svc a hw SVC_OP_DISPATCH fd s)
            (\<lambda>res. case res of
                Switched ret s1 \<Rightarrow> Some (Switched ret s1)
              | Returned r d1 s1 \<Rightarrow>
                  returned (el0_sec_switch a (sec_el0 hw (\<lambda>_ _ _. Some (r, d1, s1))) junk op (m_desc s) s)))"

text \<open>The service loop from its head, until the other world runs; after \<open>SVC_OP_EXIT\<close> the loop
  is over and control does not come back.\<close>

partial_function (option) sec_run :: "arch \<Rightarrow> sys services \<Rightarrow> op_desc \<Rightarrow> u32 \<Rightarrow> sys \<Rightarrow> (u32 \<times> sys) option" where
  "sec_run a hw junk op s =
     (if op = SVC_OP_EXIT then None
      else Option.bind (sec_switch a hw junk op s)
        (\<lambda>res. case res of
            Switched ret s1 \<Rightarrow> Some (ret, s1)
          | Returned op1 d1 s1 \<Rightarrow>
              Option.bind (sec_svc a hw op1 d1 (s1\<lparr>m_desc := d1\<rparr>))
                (\<lambda>res2. case res2 of
                    Switched ret s2 \<Rightarrow> Some (ret, s2)
                  | Returned op2 d2 s2 \<Rightarrow> sec_run a hw junk op2 (s2\<lparr>m_desc := d2\<rparr>))))"

text \<open>The switch delivers \<open>ret\<close> to the pending SMC: EL1 finishes the pending \<open>svc\<close>. If that was
  the one of \<open>run_test\<close> in the loop's body, the body ends with \<open>SVC_OP_YIELD\<close>; otherwise it was
  the loop's own, and its result is the next operation.\<close>

definition sec_resume :: "arch \<Rightarrow> sys services \<Rightarrow> op_desc \<Rightarrow> u32 \<Rightarrow> sys \<Rightarrow> (u32 \<times> sys) option" where
  "sec_resume a hw junk ret s =
     Option.bind (el1_handle_svc a (hw\<lparr>smc := \<lambda>_ _. Some (ret, s)\<rparr>) (m_pend_op s) (m_pend s) (m_pend_elr s) s)
       (\<lambda>(r, d, s1).
          if m_pend_op s = SVC_OP_DISPATCH
          then Option.bind (sec_svc a hw SVC_OP_YIELD (m_desc s1) s1)
                 (\<lambda>res. case res of
                     Switched ret2 s2 \<Rightarrow> Some (ret2, s2)
                   | Returned op2 d2 s2 \<Rightarrow> sec_run a hw junk op2 (s2\<lparr>m_desc := d2\<rparr>))
          else sec_run a hw junk r (s1\<lparr>m_desc := d\<rparr>))"

section \<open>The non-secure world\<close>

definition ns_smc :: "arch \<Rightarrow> sys services \<Rightarrow> op_desc \<Rightarrow> u32 \<Rightarrow> sys \<Rightarrow> (u32 \<times> sys) option" where
  "ns_smc a hw junk op s =
     Option.bind (enter_el3 a op s)
       (\<lambda>(ret, sw, s1). if sw then sec_resume a hw junk ret s1 else Some (ret, s1))"

definition ns_svc :: "arch \<Rightarrow> sys services \<Rightarrow> op_desc \<Rightarrow> u32 \<Rightarrow> op_desc \<Rightarrow> sys \<Rightarrow> (u32 \<times> op_desc \<times> sys) option" where
  "ns_svc a hw junk op d s = el1_handle_svc a (hw\<lparr>smc := ns_smc a hw junk\<rparr>) op d (el1_elr s) s"

definition ns_el0 :: "arch \<Rightarrow> sys services \<Rightarrow> op_desc \<Rightarrow> sys el0_services" where
  "ns_el0 a hw junk =
     \<lparr>svc = ns_svc a hw junk, tcall = (\<lambda>t x s. call hw t x (s\<lparr>ran0_nsec := ran0_nsec s @ [(t, x)]\<rparr>)), tcount = count_sys\<rparr>"

end
