(* ===== verification/MonitorProofs.thy ===== *)
theory MonitorProofs
  imports Monitor
begin

text \<open>
  What a world switch does to the machine: which registers change hands, which pass through,
  and that a world finds its registers as it left them.
\<close>

section \<open>The stack\<close>

lemma aligned_sub8: "aligned 3 sp \<Longrightarrow> aligned 3 (sp - 8 * k)"
  by (simp add: aligned_iff_dvd)

lemma stack_slots:
  fixes m :: mem and a b c d :: u64
  assumes "aligned 3 sp"
  defines "m' \<equiv> store64 (sp - 24) d (store64 (sp - 32) c (store64 (sp - 8) b (store64 (sp - 16) a m)))"
  shows "load64 m' (sp - 8) = b" "load64 m' (sp - 16) = a" "load64 m' (sp - 24) = d" "load64 m' (sp - 32) = c"
proof -
  have al: "aligned 3 (sp - 8)" "aligned 3 (sp - 16)" "aligned 3 (sp - 24)" "aligned 3 (sp - 32)"
    using aligned_sub8 [OF assms(1), of 1] aligned_sub8 [OF assms(1), of 2]
      aligned_sub8 [OF assms(1), of 3] aligned_sub8 [OF assms(1), of 4] by simp_all
  have ne: "sp - i \<noteq> sp - j" if "i \<noteq> j" for i j :: u64 using that by simp
  show "load64 m' (sp - 8) = b" "load64 m' (sp - 16) = a" "load64 m' (sp - 24) = d" "load64 m' (sp - 32) = c"
    unfolding m'_def by (simp_all add: load64_store64_other al ne)
qed

lemma save_regs_twice: "save_regs c (save_regs c' b) = save_regs c b"
  by (simp add: save_regs_def fun_eq_iff)

text \<open>What a world has of its own, as a list written down register by register and not through the
  code's macros: the twenty-two system registers a switch exchanges, in the order of
  \<^verbatim>\<open>common/aarch64/state.h\<close> without the banked \<open>SPSR_abt\<close> to \<open>SPSR_fiq\<close> and the fault registers
  (which the buffer has members for and the macros leave out), and x4 to x30.\<close>

definition world_view :: "cpu \<Rightarrow> u64 list" where
  "world_view c = [r_elr_el3 c, r_spsr_el3 c, r_elr_el1 c, r_spsr_el1 c, r_esr_el1 c, r_sp_el1 c, r_spsel c,
     r_sp_el0 c, r_sctlr_el1 c, r_actlr_el1 c, r_cpacr_el1 c, r_csselr_el1 c, r_ttbr0_el1 c, r_ttbr1_el1 c,
     r_tcr_el1 c, r_vbar_el1 c, r_mair_el1 c, r_amair_el1 c, r_tpidr_el0 c, r_tpidr_el1 c, r_tpidrro_el0 c,
     r_contextidr_el1 c, gpr c 4, gpr c 5, gpr c 6, gpr c 7, gpr c 8, gpr c 9, gpr c 10, gpr c 11, gpr c 12,
     gpr c 13, gpr c 14, gpr c 15, gpr c 16, gpr c 17, gpr c 18, gpr c 19, gpr c 20, gpr c 21, gpr c 22,
     gpr c 23, gpr c 24, gpr c 25, gpr c 26, gpr c 27, gpr c 28, gpr c 29, gpr c 30]"

text \<open>The same registers as a buffer holds them.\<close>

definition buf_view :: "state_buf \<Rightarrow> u64 list" where
  "buf_view b = [b_elr_el3 b, b_spsr_el3 b, b_elr_el1 b, b_spsr_el1 b, b_esr_el1 b, b_sp_el1 b, b_spsel b,
     b_sp_el0 b, b_sctlr_el1 b, b_actlr_el1 b, b_cpacr_el1 b, b_csselr_el1 b, b_ttbr0_el1 b, b_ttbr1_el1 b,
     b_tcr_el1 b, b_vbar_el1 b, b_mair_el1 b, b_amair_el1 b, b_tpidr_el0 b, b_tpidr_el1 b, b_tpidrro_el0 b,
     b_contextidr_el1 b, b_reg b 0, b_reg b 1, b_reg b 2, b_reg b 3, b_reg b 4, b_reg b 5, b_reg b 6,
     b_reg b 7, b_reg b 8, b_reg b 9, b_reg b 10, b_reg b 11, b_reg b 12, b_reg b 13, b_reg b 14, b_reg b 15,
     b_reg b 16, b_reg b 17, b_reg b 18, b_reg b 19, b_reg b 20, b_reg b 21, b_reg b 22, b_reg b 23,
     b_reg b 24, b_reg b 25, b_reg b 26]"

text \<open>What a switch leaves alone: the registers of the two worlds that the macros do not name, and
  EL3's own. SCR_EL3, x0 to x3 and the stack pointer are stated apart.\<close>

definition shared_view :: "cpu \<Rightarrow> u64 list" where
  "shared_view c = [r_spsr_abt c, r_spsr_und c, r_spsr_irq c, r_spsr_fiq c, r_par_el1 c, r_far_el1 c,
     r_afsr0_el1 c, r_afsr1_el1 c, r_cptr_el3 c, r_esr_el3 c, r_far_el3 c]"

lemma buf_view_save: "buf_view (save_regs c b) = world_view c"
  by (simp add: world_view_def buf_view_def save_regs_def)

lemma world_view_restore: "world_view (restore_regs b c) = buf_view b"
  by (simp add: world_view_def buf_view_def restore_regs_def)

lemma shared_view_restore: "shared_view (restore_regs b c) = shared_view c"
  by (simp add: shared_view_def restore_regs_def)

text \<open>EL3 runs on its own stack, and the stack is aligned.\<close>

definition el3_mode :: "cpu \<Rightarrow> bool" where
  "el3_mode c \<longleftrightarrow> r_spsel c AND 1 \<noteq> 0 \<and> aligned 3 (r_sp_el3 c)"

definition current_buf :: "monitor \<Rightarrow> state_buf" where
  "current_buf m = (if r_scr_el3 (mon_cpu m) AND 1 = 0 then sec_state m else nsec_state m)"

definition other_buf :: "monitor \<Rightarrow> state_buf" where
  "other_buf m = (if r_scr_el3 (mon_cpu m) AND 1 = 0 then nsec_state m else sec_state m)"

lemma push_pairs:
  assumes "r_spsel c AND 1 \<noteq> 0"
  shows "push_pair 2 3 (push_pair 0 1 c) = c\<lparr>r_sp_el3 := r_sp_el3 c - 32, stack_mem :=
     store64 (r_sp_el3 c - 24) (gpr c 3) (store64 (r_sp_el3 c - 32) (gpr c 2)
       (store64 (r_sp_el3 c - 8) (gpr c 1) (store64 (r_sp_el3 c - 16) (gpr c 0) (stack_mem c))))\<rparr>"
  using assms by (simp add: push_pair_def cur_sp_def set_sp_def Let_def)

lemma pop_pairs:
  assumes "r_spsel c AND 1 \<noteq> 0"
  shows "pop_pair 0 1 (pop_pair 2 3 c) = c\<lparr>gpr := (gpr c)
     (2 := load64 (stack_mem c) (r_sp_el3 c), 3 := load64 (stack_mem c) (r_sp_el3 c + 8),
      0 := load64 (stack_mem c) (r_sp_el3 c + 16), 1 := load64 (stack_mem c) (r_sp_el3 c + 24)), r_sp_el3 := r_sp_el3 c + 32\<rparr>"
proof -
  have e: "r_sp_el3 c + 16 + 8 = r_sp_el3 c + 24" "r_sp_el3 c + 16 + 16 = r_sp_el3 c + 32" by simp_all
  show ?thesis using assms by (simp add: pop_pair_def cur_sp_def set_sp_def set_reg_def Let_def fun_upd_def e cong: if_cong)
qed

lemma monitor_switch_cases:
  assumes "el3_mode (mon_cpu m)" "b_spsel (other_buf m) AND 1 \<noteq> 0"
  shows "monitor_switch m =
    (let c = mon_cpu m; ns = r_scr_el3 c AND 1;
         sp = r_sp_el3 c;
         mm = store64 (sp - 24) (gpr c 3) (store64 (sp - 32) (gpr c 2)
                (store64 (sp - 8) (gpr c 1) (store64 (sp - 16) (gpr c 0) (stack_mem c))));
         c' = (restore_regs (other_buf m) c)\<lparr>r_scr_el3 := ns XOR 1, stack_mem := mm\<rparr>
     in if ns = 0 then m\<lparr>sec_state := save_regs c (sec_state m), mon_cpu := c'\<rparr>
        else m\<lparr>nsec_state := save_regs c (nsec_state m), mon_cpu := c'\<rparr>)"
proof -
  define c where "c = mon_cpu m"
  define sp where "sp = r_sp_el3 c"
  define mm where "mm = store64 (sp - 24) (gpr c 3) (store64 (sp - 32) (gpr c 2)
    (store64 (sp - 8) (gpr c 1) (store64 (sp - 16) (gpr c 0) (stack_mem c))))"
  have odd: "r_spsel c AND 1 \<noteq> 0" and al: "aligned 3 sp" using assms(1) by (simp_all add: el3_mode_def c_def sp_def)
  note ld = stack_slots [OF al, of "gpr c 3" "gpr c 2" "gpr c 1" "gpr c 0" "stack_mem c", folded mm_def]
  define c1 where "c1 = c\<lparr>r_sp_el3 := sp - 32, stack_mem := mm\<rparr>"
  have p1: "push_pair 2 3 (push_pair 0 1 c) = c1"
    using push_pairs [OF odd] by (simp add: c1_def mm_def sp_def)
  have fin: "pop_pair 0 1 (pop_pair 2 3 (set_reg 3 y ((monitor_restore b (set_reg 2 v (set_reg 1 u (set_reg 3 x c1))))\<lparr>r_scr_el3 := y\<rparr>)))
      = (restore_regs b c)\<lparr>r_scr_el3 := y, stack_mem := mm\<rparr>" if "b_spsel b AND 1 \<noteq> 0" for b x y u v
  proof -
    have o: "r_spsel (set_reg 3 y ((monitor_restore b (set_reg 2 v (set_reg 1 u (set_reg 3 x c1))))\<lparr>r_scr_el3 := y\<rparr>)) AND 1 \<noteq> 0"
      using that by (simp add: set_reg_def monitor_restore_def restore_regs_def)
    have e: "sp - 32 + 8 = sp - 24" "sp - 32 + 16 = sp - 16" "sp - 32 + 24 = sp - 8" "sp - 32 + 32 = sp" by simp_all
    show ?thesis
      unfolding pop_pairs [OF o]
      by (simp add: set_reg_def monitor_restore_def restore_regs_def c1_def e ld)
         (simp add: fun_eq_iff sp_def)
  qed
  have view: "save_regs (set_reg 3 x c1) b = save_regs c b" for x b
    by (simp add: save_regs_def set_reg_def c1_def fun_eq_iff)
  have scr: "r_scr_el3 c1 = r_scr_el3 c" by (simp add: c1_def)
  have ms: "monitor_save c' b = (set_reg 2 (r_contextidr_el1 c') (set_reg 1 (r_tpidrro_el0 c') c'), save_regs c' b)" for c' b
    by (simp add: monitor_save_def set_reg_def)
  show ?thesis
  proof (cases "r_scr_el3 c AND 1 = 0")
    case True
    then have "b_spsel (nsec_state m) AND 1 \<noteq> 0" using assms(2) by (simp add: other_buf_def c_def)
    then show ?thesis
      using True fin [of "nsec_state m"]
      by (simp add: monitor_switch_def switch_body_def Let_def ms view scr p1 other_buf_def flip: c_def sp_def mm_def del: One_nat_def)
  next
    case False
    then have "b_spsel (sec_state m) AND 1 \<noteq> 0" using assms(2) by (simp add: other_buf_def c_def)
    then show ?thesis
      using False fin [of "sec_state m"]
      by (simp add: monitor_switch_def switch_body_def Let_def ms view scr p1 other_buf_def flip: c_def sp_def mm_def del: One_nat_def)
  qed
qed

text \<open>What changes hands.\<close>

lemma world_view_frame: "world_view (c\<lparr>r_scr_el3 := x, stack_mem := y\<rparr>) = world_view c"
  by (simp add: world_view_def)

lemma shared_view_frame: "shared_view (c\<lparr>r_scr_el3 := x, stack_mem := y\<rparr>) = shared_view c"
  by (simp add: shared_view_def)

lemma monitor_switch_view:
  assumes "el3_mode (mon_cpu m)" "b_spsel (other_buf m) AND 1 \<noteq> 0"
  shows "world_view (mon_cpu (monitor_switch m)) = buf_view (other_buf m)"
    "shared_view (mon_cpu (monitor_switch m)) = shared_view (mon_cpu m)"
  using monitor_switch_cases [OF assms]
  by (simp_all add: Let_def world_view_frame world_view_restore shared_view_frame shared_view_restore split: if_splits)

lemma monitor_switch_passes:
  assumes "el3_mode (mon_cpu m)" "b_spsel (other_buf m) AND 1 \<noteq> 0"
  shows "r_scr_el3 (mon_cpu (monitor_switch m)) = (r_scr_el3 (mon_cpu m) AND 1) XOR 1"
    "n < 4 \<Longrightarrow> gpr (mon_cpu (monitor_switch m)) n = gpr (mon_cpu m) n"
    "r_sp_el3 (mon_cpu (monitor_switch m)) = r_sp_el3 (mon_cpu m)"
  using monitor_switch_cases [OF assms] by (auto simp: Let_def restore_regs_def split: if_splits)

lemma monitor_switch_buffers:
  assumes "el3_mode (mon_cpu m)" "b_spsel (other_buf m) AND 1 \<noteq> 0"
  shows "other_buf (monitor_switch m) = save_regs (mon_cpu m) (current_buf m)"
    "current_buf (monitor_switch m) = other_buf m"
  using monitor_switch_cases [OF assms] and_1_cases [of "r_scr_el3 (mon_cpu m)"]
  by (auto simp: Let_def current_buf_def other_buf_def split: if_splits)

section \<open>Properties\<close>

text \<open>C9: after a world switch the buffer of the world that ran holds its twenty-two system
  registers and x4 to x30, each in its own member, and the processor has in each of them what
  the buffer of the other world held; the security state bit is flipped, every other bit of
  SCR_EL3 is cleared, x0 to x3 (the result and the descriptor of the SMC), EL3's stack pointer
  and the registers outside the list are what they were, and the other world's buffer is not
  written.\<close>

theorem monitor_switch_transfers:
  assumes "el3_mode (mon_cpu m)" "b_spsel (other_buf m) AND 1 \<noteq> 0"
  shows "buf_view (other_buf (monitor_switch m)) = world_view (mon_cpu m) \<and>
     world_view (mon_cpu (monitor_switch m)) = buf_view (other_buf m) \<and>
     r_scr_el3 (mon_cpu (monitor_switch m)) = (r_scr_el3 (mon_cpu m) AND 1) XOR 1 \<and>
     (\<forall>n<4. gpr (mon_cpu (monitor_switch m)) n = gpr (mon_cpu m) n) \<and>
     r_sp_el3 (mon_cpu (monitor_switch m)) = r_sp_el3 (mon_cpu m) \<and>
     shared_view (mon_cpu (monitor_switch m)) = shared_view (mon_cpu m) \<and>
     current_buf (monitor_switch m) = other_buf m"
  using monitor_switch_view [OF assms] monitor_switch_passes [OF assms] monitor_switch_buffers [OF assms]
  by (simp add: buf_view_save)

text \<open>The switch keeps EL3 on its own stack, so that the next one may follow.\<close>

lemma monitor_switch_mode:
  assumes "el3_mode (mon_cpu m)" "b_spsel (other_buf m) AND 1 \<noteq> 0"
  shows "el3_mode (mon_cpu (monitor_switch m))"
proof -
  have "r_spsel (mon_cpu (monitor_switch m)) = b_spsel (other_buf m)"
    using monitor_switch_cases [OF assms] by (simp add: Let_def restore_regs_def split: if_splits)
  moreover have "r_sp_el3 (mon_cpu (monitor_switch m)) = r_sp_el3 (mon_cpu m)"
    using monitor_switch_cases [OF assms] by (simp add: Let_def restore_regs_def split: if_splits)
  ultimately show ?thesis using assms by (simp add: el3_mode_def)
qed

text \<open>C10: whatever the other world does with the registers in between (\<open>c'\<close> is arbitrary up to
  EL3's own stack selection and the security bit), after the switch back each of the twenty-two
  system registers and x4 to x30 holds what it held when the world left; the other world's are
  in its buffer.\<close>

theorem world_round_trip:
  assumes "el3_mode (mon_cpu m)" "b_spsel (other_buf m) AND 1 \<noteq> 0"
    and "m1 = monitor_switch m" "el3_mode c'" "r_scr_el3 c' AND 1 = r_scr_el3 (mon_cpu m1) AND 1"
  shows "world_view (mon_cpu (monitor_switch (m1\<lparr>mon_cpu := c'\<rparr>))) = world_view (mon_cpu m) \<and>
     buf_view (other_buf (monitor_switch (m1\<lparr>mon_cpu := c'\<rparr>))) = world_view c'"
proof -
  define m2 where "m2 = m1\<lparr>mon_cpu := c'\<rparr>"
  have ob: "other_buf m2 = save_regs (mon_cpu m) (current_buf m)"
    using monitor_switch_buffers(1) [OF assms(1,2)] assms(3,5)
    by (simp add: m2_def other_buf_def split: if_splits)
  then have "b_spsel (other_buf m2) AND 1 \<noteq> 0"
    using assms(1) by (simp add: save_regs_def el3_mode_def)
  then have "world_view (mon_cpu (monitor_switch m2)) = buf_view (other_buf m2)"
    "buf_view (other_buf (monitor_switch m2)) = world_view c'"
    using monitor_switch_view(1) [of m2] monitor_switch_buffers(1) [of m2] assms(4)
    by (simp_all add: m2_def buf_view_save)
  then show ?thesis by (simp only: ob buf_view_save flip: m2_def)
qed

section \<open>Instances\<close>

definition demo_cpu :: cpu where
  "demo_cpu = \<lparr>r_elr_el3 = 0, r_spsr_el3 = 0, r_elr_el1 = 0, r_spsr_el1 = 0, r_esr_el1 = 0, r_sp_el1 =
     0, r_spsel = 1, r_sp_el0 = 0, r_spsr_abt = 0, r_spsr_und = 0, r_spsr_irq = 0,
     r_spsr_fiq = 0, r_sctlr_el1 = 0, r_actlr_el1 = 0, r_cpacr_el1 = 0, r_csselr_el1 = 0,
     r_ttbr0_el1 = 0, r_ttbr1_el1 = 0, r_tcr_el1 = 0, r_vbar_el1 = 0, r_mair_el1 = 0,
     r_amair_el1 = 0, r_tpidr_el0 = 0, r_tpidr_el1 = 0, r_tpidrro_el0 = 0, r_contextidr_el1
     = 0, r_par_el1 = 0, r_far_el1 = 0, r_afsr0_el1 = 0, r_afsr1_el1 = 0, r_scr_el3 = 0,
     r_cptr_el3 = 0, r_sp_el3 = 0, r_esr_el3 = 0, r_far_el3 = 0, r_cpsr = 0xD6,
     gpr = of_nat, stack_mem = (\<lambda>_. 0)\<rparr>"

definition demo_monitor :: monitor where
  "demo_monitor = \<lparr>mon_cpu = demo_cpu\<lparr>r_sp_el3 := 0x8000, r_ttbr0_el1 := 0x1000\<rparr>, sec_state = zero_buf\<lparr>b_spsel := 1\<rparr>,
     nsec_state = zero_buf\<lparr>b_spsel := 1, b_elr_el3 := EL1_NS_FLASH_BASE, b_ttbr0_el1 := 0x2000\<rparr>\<rparr>"

lemma demo_monitor_mode: "el3_mode (mon_cpu demo_monitor)" "b_spsel (other_buf demo_monitor) AND 1 \<noteq> 0"
  by (simp_all add: demo_monitor_def demo_cpu_def el3_mode_def other_buf_def aligned_def take_bit_eq_mask
      mask_eq_exp_minus_1)

lemma monitor_switch_transfers_witness:
  "r_scr_el3 (mon_cpu (monitor_switch demo_monitor)) = 1 \<and>
   r_ttbr0_el1 (mon_cpu (monitor_switch demo_monitor)) = 0x2000 \<and>
   b_ttbr0_el1 (other_buf (monitor_switch demo_monitor)) = 0x1000 \<and>
   b_reg (other_buf (monitor_switch demo_monitor)) 26 = 30 \<and>
   r_elr_el3 (mon_cpu (monitor_switch demo_monitor)) = EL1_NS_FLASH_BASE \<and>
   gpr (mon_cpu (monitor_switch demo_monitor)) 30 = 0"
  using monitor_switch_transfers [OF demo_monitor_mode]
  by (simp add: world_view_def buf_view_def) (simp add: demo_monitor_def demo_cpu_def other_buf_def zero_buf_def)

lemma world_round_trip_witness:
  "world_view (mon_cpu (monitor_switch ((monitor_switch demo_monitor)
      \<lparr>mon_cpu := (mon_cpu (monitor_switch demo_monitor))\<lparr>r_ttbr0_el1 := 7, r_elr_el3 := 9\<rparr>\<rparr>)))
   = world_view (mon_cpu demo_monitor)"
proof (rule conjunct1 [OF world_round_trip [OF demo_monitor_mode refl]])
  show "el3_mode ((mon_cpu (monitor_switch demo_monitor))\<lparr>r_ttbr0_el1 := 7, r_elr_el3 := 9\<rparr>)"
    using monitor_switch_mode [OF demo_monitor_mode] by (simp add: el3_mode_def)
qed simp

end
