(* ===== verification/PageTableProofs.thy ===== *)
theory PageTableProofs
  imports PageTable
begin

text \<open>
  The contract of \<open>PageTable\<close>. \<open>tbl m b va i\<close> is the table that the walk for \<open>va\<close> reaches
  at level \<open>i\<close> (level 4 is the mapped page). \<open>pt_wf lim s\<close> says that the tables form a tree
  and that the physical pages from \<open>mem_next_pa\<close> up to \<open>lim\<close> are free, zeroed and can be
  identity mapped without a new table; \<open>pt_ident s\<close> that every table page is mapped at its
  own address. The lemmas show what one descriptor write does to every walk, that linking a
  new table keeps the invariant, and from that the behaviour of the operations.
\<close>

section \<open>Descriptor slots\<close>

definition slot :: "u64 \<Rightarrow> u64 \<Rightarrow> nat \<Rightarrow> u64" where
  "slot t va i = t OR pt_off va i"

definition page_frame :: "u64 \<Rightarrow> bool" where
  "page_frame p \<longleftrightarrow> p AND DESC_ADDR = p"

definition same_path :: "nat \<Rightarrow> u64 \<Rightarrow> u64 \<Rightarrow> bool" where
  "same_path i va va' \<longleftrightarrow> (\<forall>k<i. pt_index va k = pt_index va' k)"

lemma DESC_ADDR_mask: "DESC_ADDR = push_bit 12 (mask 24)"
  by (simp add: DESC_ADDR_def mask_eq_exp_minus_1 push_bit_eq_mult)

lemma bit_DESC_ADDR: "bit DESC_ADDR k \<longleftrightarrow> 12 \<le> k \<and> k < 36"
  by (auto simp: DESC_ADDR_mask bit_simps)

lemma page_frame_and [simp]: "page_frame (d AND DESC_ADDR)"
  by (simp add: page_frame_def and.assoc)

lemma page_frame_bits: "page_frame p \<longleftrightarrow> (\<forall>k. bit p k \<longrightarrow> 12 \<le> k \<and> k < 36)"
proof -
  have "page_frame p \<longleftrightarrow> (\<forall>k<64. bit p k \<longrightarrow> 12 \<le> k \<and> k < 36)"
    by (auto simp: page_frame_def bit_eq_iff bit_and_iff bit_DESC_ADDR)
  then show ?thesis using bit_imp_le_length [of p] by auto
qed

lemma page_frame_aligned: "page_frame p \<Longrightarrow> aligned 12 p"
  by (force simp: page_frame_bits aligned_iff_bits)

lemma bit_pt_index: "bit (pt_index va i) r \<longleftrightarrow> r < 9 \<and> bit va (39 - i * 9 + r)"
proof -
  have "pt_index va i = drop_bit (39 - i * 9) va AND mask 9"
    by (simp add: pt_index_def mask_eq_exp_minus_1)
  then show ?thesis
    by (auto simp: bit_simps dest: bit_imp_le_length)
qed

lemma bit_pt_off: "bit (pt_off va i) n \<longleftrightarrow> 3 \<le> n \<and> n < 12 \<and> bit va (39 - i * 9 + (n - 3))"
  by (auto simp: pt_off_def bit_push_bit_iff bit_pt_index)

lemma pt_off_bound: "drop_bit 12 (pt_off va i) = 0"
  by (rule bit_word_eqI) (simp add: bit_drop_bit_eq bit_pt_off)

lemma pt_off_aligned: "aligned 3 (pt_off va i)"
  by (simp add: aligned_iff_bits bit_pt_off)

lemma pt_off_eq: "pt_off va i = pt_off va' j \<longleftrightarrow> pt_index va i = pt_index va' j"
proof -
  have "drop_bit 3 (pt_off v k) = pt_index v k" for v k
    by (rule bit_word_eqI) (auto simp: bit_drop_bit_eq bit_pt_off bit_pt_index)
  then show ?thesis by (metis pt_off_def)
qed

lemma slot_aligned: "aligned 12 t \<Longrightarrow> aligned 3 (slot t va i)"
  by (auto simp: slot_def aligned_or pt_off_aligned intro: aligned_mono)

lemma slot_eq:
  "aligned 12 t \<Longrightarrow> aligned 12 t' \<Longrightarrow>
   slot t va i = slot t' va' j \<longleftrightarrow> t = t' \<and> pt_index va i = pt_index va' j"
  by (simp add: slot_def aligned_or_split [OF _ _ pt_off_bound pt_off_bound] pt_off_eq)

section \<open>Walks\<close>

fun tbl :: "mem \<Rightarrow> u64 \<Rightarrow> u64 \<Rightarrow> nat \<Rightarrow> u64 option" where
  "tbl m b va 0 = Some b"
| "tbl m b va (Suc i) =
     (case tbl m b va i of
        None \<Rightarrow> None
      | Some t \<Rightarrow> (let d = load64 m (slot t va i)
                  in if d AND 1 = 0 then None else Some (d AND DESC_ADDR)))"

abbreviation walk :: "mm \<Rightarrow> u64 \<Rightarrow> nat \<Rightarrow> u64 option" where
  "walk s va i \<equiv> tbl (mem_bytes s) (mem_pgtbl_base s) va i"

definition tree_tables :: "mem \<Rightarrow> u64 \<Rightarrow> bool" where
  "tree_tables m b \<longleftrightarrow>
     (\<forall>va va' i j t. i \<le> 3 \<longrightarrow> j \<le> 3 \<longrightarrow> tbl m b va i = Some t \<longrightarrow> tbl m b va' j = Some t \<longrightarrow>
        i = j \<and> same_path i va va')"

lemma tbl_frame: "page_frame b \<Longrightarrow> tbl m b va i = Some t \<Longrightarrow> page_frame t"
  by (cases i) (auto simp: Let_def split: option.splits if_splits)

lemma same_path_Suc: "same_path (Suc i) va va' \<longleftrightarrow> same_path i va va' \<and> pt_index va i = pt_index va' i"
  by (auto simp: same_path_def less_Suc_eq)

lemma same_path_mono: "same_path j va va' \<Longrightarrow> i \<le> j \<Longrightarrow> same_path i va va'"
  by (auto simp: same_path_def)

lemma same_path_refl [simp]: "same_path i va va"
  by (simp add: same_path_def)

lemma same_path_sym: "same_path i va va' \<Longrightarrow> same_path i va' va"
  by (simp add: same_path_def)

lemma same_path_trans: "same_path i a b \<Longrightarrow> same_path i b c \<Longrightarrow> same_path i a c"
  by (simp add: same_path_def)

lemma slot_path: "pt_index va i = pt_index va' i \<Longrightarrow> slot t va i = slot t va' i"
  by (simp add: slot_def pt_off_def)

lemma tbl_path: "same_path i va va' \<Longrightarrow> tbl m b va i = tbl m b va' i"
proof (induction i)
  case 0
  then show ?case by simp
next
  case (Suc i)
  then have "slot t va i = slot t va' i" for t
    by (intro slot_path) (simp add: same_path_Suc)
  with Suc show ?case by (cases "tbl m b va' i") (simp_all add: same_path_Suc)
qed

lemma tbl_less_some: "tbl m b va j = Some t \<Longrightarrow> i \<le> j \<Longrightarrow> \<exists>u. tbl m b va i = Some u"
proof (induction j arbitrary: t)
  case 0
  then have "i = 0" by simp
  then show ?case by simp
next
  case (Suc j)
  from Suc.prems(1) obtain v where "tbl m b va j = Some v"
    by (cases "tbl m b va j") simp_all
  show ?case
  proof (cases "i = Suc j")
    case True
    then show ?thesis using Suc.prems(1) by blast
  next
    case False
    then have "i \<le> j" using Suc.prems(2) by linarith
    then show ?thesis using Suc.IH [OF \<open>tbl m b va j = Some v\<close>] by blast
  qed
qed

lemma same_page_frames:
  assumes "page_frame p" "page_frame q" "same_path 4 p q" shows "p = q"
proof (rule bit_word_eqI)
  fix n :: nat
  have idx: "bit p (39 - k * 9 + r) = bit q (39 - k * 9 + r)" if "k < 4" "r < 9" for k r
    using assms(3) that bit_pt_index [of p k r] bit_pt_index [of q k r]
    by (auto simp: same_path_def)
  consider "n < 12 \<or> 36 \<le> n" | "12 \<le> n" "n < 21" | "21 \<le> n" "n < 30" | "30 \<le> n" "n < 39" by linarith
  then show "bit p n = bit q n"
  proof cases
    case 1 then show ?thesis using assms(1,2) by (fastforce simp: page_frame_bits)
  next
    case 2 then show ?thesis using idx [of 3 "n - 12"] by simp
  next
    case 3 then show ?thesis using idx [of 2 "n - 21"] by simp
  next
    case 4 then show ?thesis using idx [of 1 "n - 30"] by simp
  qed
qed

text \<open>One descriptor write at level \<open>i\<close>: walks that do not go through the slot are unchanged,
  walks through it continue as the new descriptor says.\<close>

lemma tbl_write_other:
  assumes "page_frame b" "tree_tables m b" "tbl m b va i = Some t" "i \<le> 3"
  shows "j \<le> 4 \<Longrightarrow> j \<le> i \<or> \<not> same_path (Suc i) va va' \<Longrightarrow>
         tbl (store64 (slot t va i) d m) b va' j = tbl m b va' j"
proof (induction j)
  case 0
  then show ?case by simp
next
  case (Suc j)
  have IH: "tbl (store64 (slot t va i) d m) b va' j = tbl m b va' j" using Suc by auto
  show ?case
  proof (cases "tbl m b va' j")
    case None
    then show ?thesis using IH by simp
  next
    case (Some u)
    have fr: "aligned 12 t" "aligned 12 u"
      using tbl_frame [OF assms(1)] assms(3) Some page_frame_aligned by blast+
    have "slot t va i \<noteq> slot u va' j"
    proof
      assume "slot t va i = slot u va' j"
      then have "t = u" "pt_index va i = pt_index va' j" using slot_eq [OF fr] by auto
      then have "i = j" "same_path i va va'"
        using assms(2-4) Some Suc.prems(1) unfolding tree_tables_def by (metis Suc_le_mono eval_nat_numeral(2) semiring_norm(26,27) Suc_leD numeral_3_eq_3)+
      then show False using Suc.prems(2) \<open>pt_index va i = pt_index va' j\<close> by (simp add: same_path_Suc)
    qed
    then have "load64 (store64 (slot t va i) d m) (slot u va' j) = load64 m (slot u va' j)"
      by (intro load64_store64_other slot_aligned fr)
    then show ?thesis using IH Some by simp
  qed
qed

lemma tbl_write_same:
  assumes "page_frame b" "tree_tables m b" "tbl m b va i = Some t" "i \<le> 3" "same_path (Suc i) va va'"
  shows "tbl (store64 (slot t va i) d m) b va' (Suc i) =
           (if d AND 1 = 0 then None else Some (d AND DESC_ADDR))"
proof -
  have "tbl (store64 (slot t va i) d m) b va i = Some t"
    using tbl_write_other [OF assms(1-4), of i va d] assms(3,4) by simp
  then have "tbl (store64 (slot t va i) d m) b va (Suc i) =
           (if d AND 1 = 0 then None else Some (d AND DESC_ADDR))"
    by (simp add: Let_def)
  then show ?thesis using tbl_path [OF assms(5)] by simp
qed

section \<open>The invariant\<close>

definition in_pool :: "u64 \<Rightarrow> mm \<Rightarrow> u64 \<Rightarrow> bool" where
  "in_pool lim s p \<longleftrightarrow> aligned 12 p \<and> mem_next_pa s \<le> p \<and> p < lim"

definition is_table :: "mm \<Rightarrow> u64 \<Rightarrow> bool" where
  "is_table s t \<longleftrightarrow> (\<exists>va i. i \<le> 3 \<and> walk s va i = Some t)"

definition zero_page :: "mm \<Rightarrow> u64 \<Rightarrow> bool" where
  "zero_page s p \<longleftrightarrow> (\<forall>va i. rd64 s (slot p va i) = 0)"

definition pt_wf :: "u64 \<Rightarrow> mm \<Rightarrow> bool" where
  "pt_wf lim s \<longleftrightarrow>
     page_frame (mem_pgtbl_base s) \<and> aligned 12 (mem_next_pa s) \<and> lim \<le> 2 ^ 36 \<and>
     tree_tables (mem_bytes s) (mem_pgtbl_base s) \<and>
     (\<forall>p. in_pool lim s p \<longrightarrow> zero_page s p \<and> \<not> is_table s p \<and> walk s p 3 \<noteq> None)"

definition pt_ident :: "mm \<Rightarrow> bool" where
  "pt_ident s \<longleftrightarrow> (\<forall>t. is_table s t \<longrightarrow> walk s t 4 = Some t)"

lemma lt_2p36_bits: "(p :: u64) < 2 ^ 36 \<Longrightarrow> bit p k \<Longrightarrow> k < 36"
proof -
  assume "p < 2 ^ 36" "bit p k"
  then have "take_bit 36 (unat p) = unat p"
    by (intro take_bit_nat_eq_self) (simp add: word_less_nat_alt)
  moreover have "bit (unat p) k" using \<open>bit p k\<close> by (simp add: bit_unsigned_iff)
  ultimately show ?thesis by (metis bit_take_bit_iff)
qed

lemma in_pool_frame: "pt_wf lim s \<Longrightarrow> in_pool lim s p \<Longrightarrow> page_frame p"
proof -
  assume "pt_wf lim s" and p: "in_pool lim s p"
  then have "p < 2 ^ 36" by (auto simp: pt_wf_def in_pool_def intro: less_le_trans)
  then show ?thesis
    using p lt_2p36_bits [OF \<open>p < 2 ^ 36\<close>]
    by (auto simp: page_frame_bits in_pool_def aligned_iff_bits not_less [symmetric])
qed

lemma is_table_frame: "pt_wf lim s \<Longrightarrow> is_table s t \<Longrightarrow> page_frame t"
  by (auto simp: pt_wf_def is_table_def intro: tbl_frame)

text \<open>A byte that no table and no free page owns.\<close>

definition data_byte :: "u64 \<Rightarrow> mm \<Rightarrow> u64 \<Rightarrow> bool" where
  "data_byte lim s a \<longleftrightarrow> (\<forall>t. is_table s t \<or> in_pool lim s t \<longrightarrow> drop_bit 12 a \<noteq> drop_bit 12 t)"

lemma slot_bytes:
  assumes "aligned 12 t" "k < 8"
  shows "drop_bit 12 (slot t va i + of_nat k) = drop_bit 12 t"
proof -
  have k: "drop_bit 3 (of_nat k :: u64) = 0" "drop_bit 12 (of_nat k :: u64) = 0"
    using assms(2) by (auto intro: drop_bit_of_nat_small)
  have "slot t va i + of_nat k = (t OR pt_off va i) OR of_nat k"
    using aligned_add_or [OF slot_aligned [OF assms(1)] k(1), of va i] by (simp add: slot_def)
  then show ?thesis using k(2) pt_off_bound by simp
qed

lemma wr64_slot_other:
  "aligned 12 t \<Longrightarrow> drop_bit 12 a \<noteq> drop_bit 12 t \<Longrightarrow> mem_bytes (wr64 (slot t va i) d s) a = mem_bytes s a"
  using slot_bytes [of t _ va i] by (auto simp: wr64_def store64_def intro!: storen_other)

lemma rd64_slot_cong:
  assumes "aligned 12 t" "\<And>a. drop_bit 12 a = drop_bit 12 t \<Longrightarrow> mem_bytes s' a = mem_bytes s a"
  shows "rd64 s' (slot t va i) = rd64 s (slot t va i)"
  unfolding rd64_def load64_def using slot_bytes [OF assms(1)] by (intro loadn_cong assms(2))

text \<open>A descriptor write at level \<open>i\<close>, as an operation on the whole state.\<close>

lemma walk_wr64_other:
  assumes "pt_wf lim s" "walk s va i = Some t" "i \<le> 3" "j \<le> 4" "j \<le> i \<or> \<not> same_path (Suc i) va va'"
  shows "walk (wr64 (slot t va i) d s) va' j = walk s va' j"
  using assms unfolding wr64_def
  by (simp add: pt_wf_def tbl_write_other)

lemma walk_wr64_same:
  assumes "pt_wf lim s" "walk s va i = Some t" "i \<le> 3" "same_path (Suc i) va va'"
  shows "walk (wr64 (slot t va i) d s) va' (Suc i) = (if d AND 1 = 0 then None else Some (d AND DESC_ADDR))"
  using tbl_write_same [OF _ _ assms(2,3,4), of d] assms(1)
  by (simp add: wr64_def pt_wf_def del: tbl.simps)

lemma wr64_frame [simp]:
  "mem_pgtbl_base (wr64 a v s) = mem_pgtbl_base s"
  "mem_next_pa (wr64 a v s) = mem_next_pa s"
  "mem_heap_pool (wr64 a v s) = mem_heap_pool s"
  "mem_next_l1_page (wr64 a v s) = mem_next_l1_page s"
  by (simp_all add: wr64_def)

lemma rd64_wr64_same [simp]: "rd64 (wr64 a v s) a = v"
  by (simp add: rd64_def wr64_def)

lemma rd64_wr64_other: "aligned 3 a \<Longrightarrow> aligned 3 b \<Longrightarrow> a \<noteq> b \<Longrightarrow> rd64 (wr64 a v s) b = rd64 s b"
  by (simp add: rd64_def wr64_def load64_store64_other)

lemma wr64_twice [simp]: "wr64 a v (wr64 a w s) = wr64 a v s"
  by (simp add: wr64_def store64_twice)

lemma in_pool_wr64 [simp]: "in_pool lim (wr64 a v s) p = in_pool lim s p"
  by (simp add: in_pool_def)

lemma walk_None_mono: "walk s va i = None \<Longrightarrow> i \<le> j \<Longrightarrow> walk s va j = None"
  using tbl_less_some [of "mem_bytes s" "mem_pgtbl_base s" va j _ i] by (cases "walk s va j") auto

lemma pool_slot_other:
  assumes "pt_wf lim s" "is_table s t" "page_frame p" "p \<noteq> t"
  shows "rd64 (wr64 (slot t va i) d s) (slot p va' j) = rd64 s (slot p va' j)"
proof -
  have al: "aligned 12 t" "aligned 12 p"
    using assms is_table_frame page_frame_aligned by blast+
  then show ?thesis
    using assms(4) by (intro rd64_wr64_other slot_aligned) (simp_all add: slot_eq)
qed

lemma zero_page_wr64:
  assumes "pt_wf lim s" "is_table s t" "page_frame p" "p \<noteq> t"
  shows "zero_page (wr64 (slot t va i) d s) p = zero_page s p"
  using pool_slot_other [OF assms] by (simp add: zero_page_def)

lemma is_tableI: "walk s va i = Some t \<Longrightarrow> i \<le> 3 \<Longrightarrow> is_table s t"
  by (auto simp: is_table_def)

text \<open>Writing a page descriptor (level 3) changes one translation and no table.\<close>

lemma leaf_walk:
  assumes "pt_wf lim s" "walk s va 3 = Some t"
  shows "j \<le> 3 \<Longrightarrow> walk (wr64 (slot t va 3) d s) va' j = walk s va' j"
    and "\<not> same_path 4 va va' \<Longrightarrow> walk (wr64 (slot t va 3) d s) va' 4 = walk s va' 4"
    and "same_path 4 va va' \<Longrightarrow> walk (wr64 (slot t va 3) d s) va' 4 =
           (if d AND 1 = 0 then None else Some (d AND DESC_ADDR))"
  using walk_wr64_other [OF assms, of j va' d] walk_wr64_other [OF assms, of 4 va' d]
    walk_wr64_same [OF assms, of va' d]
  by (simp_all del: tbl.simps add: eval_nat_numeral)

lemma leaf_wf:
  assumes "pt_wf lim s" "walk s va 3 = Some t"
  shows "pt_wf lim (wr64 (slot t va 3) d s)"
    and "is_table (wr64 (slot t va 3) d s) x = is_table s x"
proof -
  let ?s = "wr64 (slot t va 3) d s"
  have same: "j \<le> 3 \<Longrightarrow> walk ?s va' j = walk s va' j" for j va'
    by (rule leaf_walk(1) [OF assms])
  show tab: "is_table ?s x = is_table s x" for x
    unfolding is_table_def using same by metis
  have t: "is_table s t" using assms(2) by (auto intro: is_tableI)
  have tree: "tree_tables (mem_bytes ?s) (mem_pgtbl_base ?s)"
    unfolding tree_tables_def
  proof (intro allI impI)
    fix v v' i j x
    assume "i \<le> 3" "j \<le> 3" "walk ?s v i = Some x" "walk ?s v' j = Some x"
    then have "walk s v i = Some x" "walk s v' j = Some x" using same by metis+
    then show "i = j \<and> same_path i v v'"
      using assms(1) \<open>i \<le> 3\<close> \<open>j \<le> 3\<close> unfolding pt_wf_def tree_tables_def by blast
  qed
  have pool: "zero_page ?s p \<and> \<not> is_table ?s p \<and> walk ?s p 3 \<noteq> None" if "in_pool lim ?s p" for p
  proof -
    have p: "in_pool lim s p" using that by simp
    then have "zero_page s p" "\<not> is_table s p" "walk s p 3 \<noteq> None"
      using assms(1) by (auto simp: pt_wf_def)
    moreover have "p \<noteq> t" using \<open>\<not> is_table s p\<close> t by auto
    ultimately show ?thesis
      using zero_page_wr64 [OF assms(1) t in_pool_frame [OF assms(1) p]] tab same [of 3 p] by simp
  qed
  show "pt_wf lim ?s"
    using assms(1) tree pool unfolding pt_wf_def by auto
qed

text \<open>Linking a zeroed page that is no table yet as the table of an empty slot.\<close>

lemma link_walk:
  assumes wf: "pt_wf lim s" and t: "walk s va i = Some t" "i < 3" "walk s va (Suc i) = None"
    and np: "page_frame np" "zero_page s np" "\<not> is_table s np"
    and d: "d AND 1 \<noteq> 0" "d AND DESC_ADDR = np" and j: "j \<le> 4"
  shows "walk (wr64 (slot t va i) d s) va' j =
           (if same_path (Suc i) va va' \<and> i < j then if j = Suc i then Some np else None
            else walk s va' j)"
proof -
  let ?s = "wr64 (slot t va i) d s"
  have tt: "is_table s t" using t by (auto intro: is_tableI)
  have other: "walk ?s va' j = walk s va' j" if "j \<le> i \<or> \<not> same_path (Suc i) va va'"
    using walk_wr64_other [OF wf t(1)] t(2) j that by simp
  have new: "walk ?s va' (Suc i) = Some np" if "same_path (Suc i) va va'"
    using walk_wr64_same [OF wf t(1) _ that, of d] t(2) d by (simp del: tbl.simps)
  have "walk ?s va' (Suc (Suc i)) = None" if "same_path (Suc i) va va'"
  proof -
    have "np \<noteq> t" using np(3) tt by blast
    then have "rd64 ?s (slot np va' (Suc i)) = 0"
      using pool_slot_other [OF wf tt np(1)] np(2) by (simp add: zero_page_def)
    then show ?thesis using new [OF that] by (simp add: rd64_def)
  qed
  then have "walk ?s va' j = None" if "same_path (Suc i) va va'" "Suc i < j"
    using walk_None_mono [of ?s va' "Suc (Suc i)" j] that by simp
  then show ?thesis using other new by (auto simp: not_less less_Suc_eq simp del: tbl.simps)
qed

lemma link_table:
  assumes "pt_wf lim s" "walk s va i = Some t" "i < 3" "walk s va (Suc i) = None"
    "page_frame np" "zero_page s np" "\<not> is_table s np" "d AND 1 \<noteq> 0" "d AND DESC_ADDR = np"
  shows "is_table (wr64 (slot t va i) d s) x \<longleftrightarrow> is_table s x \<or> x = np"
    and "walk (wr64 (slot t va i) d s) va' 4 = walk s va' 4"
proof -
  let ?s = "wr64 (slot t va i) d s"
  note lw = link_walk [OF assms]
  have keep: "walk ?s v j = Some y" if "walk s v j = Some y" "j \<le> 3" for v j y
  proof -
    have "\<not> (same_path (Suc i) va v \<and> i < j)"
    proof
      assume "same_path (Suc i) va v \<and> i < j"
      then have "walk s v (Suc i) = None" using assms(4) tbl_path by metis
      then show False using walk_None_mono [of s v "Suc i" j] that(1) \<open>_ \<and> i < j\<close> by simp
    qed
    then show ?thesis using lw [of j v] that by (simp only: if_False)
  qed
  have "is_table ?s np"
    using lw [of "Suc i" va] assms(3) by (auto intro!: is_tableI [of ?s va "Suc i"])
  moreover have "is_table s x \<Longrightarrow> is_table ?s x" for x
    using keep unfolding is_table_def by blast
  moreover have "is_table s x \<or> x = np" if "is_table ?s x" for x
  proof -
    from that obtain v j where j: "j \<le> 3" "walk ?s v j = Some x" by (auto simp: is_table_def)
    then have "walk s v j = Some x \<or> x = np" using lw [of j v] by (auto split: if_splits)
    then show ?thesis using j(1) is_tableI by blast
  qed
  ultimately show "is_table ?s x \<longleftrightarrow> is_table s x \<or> x = np" by blast
  have "walk s va' 4 = None" if "same_path (Suc i) va va'"
    using walk_None_mono [of s va' "Suc i" 4] assms(3,4) tbl_path [OF that] by simp
  then show "walk ?s va' 4 = walk s va' 4" using lw [of 4 va'] assms(3) by auto
qed

lemma link_wf:
  assumes "pt_wf lim s" "walk s va i = Some t" "i < 3" "walk s va (Suc i) = None"
    "page_frame np" "zero_page s np" "\<not> is_table s np" "d AND 1 \<noteq> 0" "d AND DESC_ADDR = np"
    and out: "\<not> in_pool lim s np"
  shows "pt_wf lim (wr64 (slot t va i) d s)"
proof -
  let ?s = "wr64 (slot t va i) d s"
  note lw = link_walk [OF assms(1-9)] and lt = link_table [OF assms(1-9)]
  have tt: "is_table s t" using assms(2,3) by (auto intro: is_tableI)
  have new: "(same_path (Suc i) va v \<and> j = Suc i \<and> x = np) \<or> (walk s v j = Some x \<and> x \<noteq> np)"
    if "walk ?s v j = Some x" "j \<le> 3" for v j x
    using lw [of j v] that assms(7) is_tableI [of s v j np] by (auto split: if_splits)
  have tree: "tree_tables (mem_bytes ?s) (mem_pgtbl_base ?s)"
    unfolding tree_tables_def
  proof (intro allI impI)
    fix v v' a b x
    assume h: "a \<le> 3" "b \<le> 3" "walk ?s v a = Some x" "walk ?s v' b = Some x"
    from new [OF h(3,1)] new [OF h(4,2)]
    consider "same_path (Suc i) va v" "a = Suc i" "same_path (Suc i) va v'" "b = Suc i"
      | "walk s v a = Some x" "walk s v' b = Some x" by blast
    then show "a = b \<and> same_path a v v'"
    proof cases
      case 1
      then show ?thesis using same_path_trans same_path_sym by blast
    next
      case 2
      then show ?thesis using assms(1) h(1,2) unfolding pt_wf_def tree_tables_def by blast
    qed
  qed
  have pool: "zero_page ?s p \<and> \<not> is_table ?s p \<and> walk ?s p 3 \<noteq> None" if "in_pool lim ?s p" for p
  proof -
    have p: "in_pool lim s p" using that by simp
    then have old: "zero_page s p" "\<not> is_table s p" "walk s p 3 \<noteq> None"
      using assms(1) by (auto simp: pt_wf_def)
    have "\<not> same_path (Suc i) va p"
      using old(3) assms(3,4) walk_None_mono [of s p "Suc i" 3] tbl_path by fastforce
    moreover have "p \<noteq> t" "p \<noteq> np" using old(2) tt p out by auto
    ultimately show ?thesis
      using zero_page_wr64 [OF assms(1) tt in_pool_frame [OF assms(1) p]] old lt(1) lw [of 3 p] by simp
  qed
  show ?thesis using assms(1) tree pool unfolding pt_wf_def by auto
qed

section \<open>The levels of mem_map_pa\<close>

definition leaf_desc :: "u64 \<Rightarrow> u64 \<Rightarrow> u64" where
  "leaf_desc paddr pgattr = (paddr AND NOT 0xFFF) OR (PTE_PAGE OR PTE_ACCESS OR pgattr)"

lemma map_levels_leaf:
  "map_levels 3 va p ta pg t s = Some (wr64 (slot t va 3) (leaf_desc p pg) s)"
  by (subst map_levels.simps) (simp add: slot_def leaf_desc_def Let_def)

lemma map_levels_valid:
  "i < 3 \<Longrightarrow> rd64 s (slot t va i) AND 1 \<noteq> 0 \<Longrightarrow>
   map_levels i va p ta pg t s = map_levels (Suc i) va p ta pg (rd64 s (slot t va i) AND DESC_ADDR) s"
  by (subst map_levels.simps) (simp add: slot_def Let_def)

lemma map_levels_new:
  assumes "i < 3" "rd64 s (slot t va i) AND 1 = 0" "np = mem_next_pa s"
    and "mem_map_pa np np 0 PTE_USER_RW (s\<lparr>mem_next_pa := np + PAGE_SIZE\<rparr>) = Some s2"
  shows "map_levels i va p ta pg t s =
           map_levels (Suc i) va p ta pg np (wr64 (slot t va i) (np OR (PTE_TABLE OR ta)) s2)"
  using assms
  by (subst map_levels.simps) (simp add: slot_def Let_def mem_allocate_pa_def mem_map_pa_def)

lemma map_levels_walk:
  "i \<le> 3 \<Longrightarrow> walk s va i = Some t \<Longrightarrow> walk s va 3 = Some u \<Longrightarrow>
   map_levels i va p ta pg t s = Some (wr64 (slot u va 3) (leaf_desc p pg) s)"
proof (induction "3 - i" arbitrary: i t)
  case 0
  then have "i = 3" by simp
  with 0 show ?case by (simp add: map_levels_leaf)
next
  case (Suc n)
  then have i: "i < 3" by simp
  obtain t' where t': "walk s va (Suc i) = Some t'"
    using tbl_less_some [OF Suc.prems(3), of "Suc i"] i by auto
  then have v: "rd64 s (slot t va i) AND 1 \<noteq> 0" and a: "t' = rd64 s (slot t va i) AND DESC_ADDR"
    using Suc.prems(2) by (auto simp: Let_def rd64_def split: if_splits)
  have "map_levels (Suc i) va p ta pg t' s = Some (wr64 (slot u va 3) (leaf_desc p pg) s)"
    using Suc.hyps(1) [OF _ _ t' Suc.prems(3)] Suc.hyps(2) i by simp
  then show ?case using map_levels_valid [OF i v] a by simp
qed

corollary mem_map_pa_walk:
  "walk s va 3 = Some u \<Longrightarrow> mem_map_pa va p ta pg s = Some (wr64 (slot u va 3) (leaf_desc p pg) s)"
  using map_levels_walk [of 0 s va "mem_pgtbl_base s" u] by (simp add: mem_map_pa_def)

text \<open>What any sequence of table allocations and identity mappings keeps.\<close>

definition grows :: "u64 \<Rightarrow> mm \<Rightarrow> mm \<Rightarrow> bool" where
  "grows lim s s' \<longleftrightarrow>
     pt_wf lim s' \<and> pt_ident s' \<and>
     mem_pgtbl_base s' = mem_pgtbl_base s \<and> mem_heap_pool s' = mem_heap_pool s \<and>
     mem_next_l1_page s' = mem_next_l1_page s \<and> mem_next_pa s \<le> mem_next_pa s' \<and>
     (\<forall>t. is_table s' t \<longrightarrow> is_table s t \<or> in_pool lim s t) \<and>
     (\<forall>va. (\<forall>p. in_pool lim s p \<longrightarrow> \<not> same_path 4 p va) \<longrightarrow> walk s' va 4 = walk s va 4) \<and>
     (\<forall>a. data_byte lim s a \<longrightarrow> mem_bytes s' a = mem_bytes s a)"

lemma grows_refl: "pt_wf lim s \<Longrightarrow> pt_ident s \<Longrightarrow> grows lim s s"
  by (simp add: grows_def)

lemma grows_pool: "grows lim s s' \<Longrightarrow> in_pool lim s' p \<Longrightarrow> in_pool lim s p"
  by (auto simp: grows_def in_pool_def)

lemma grows_data: "grows lim s s' \<Longrightarrow> data_byte lim s a \<Longrightarrow> data_byte lim s' a"
  using grows_pool unfolding data_byte_def grows_def by blast

lemma grows_trans: "grows lim s s' \<Longrightarrow> grows lim s' s'' \<Longrightarrow> grows lim s s''"
proof -
  assume 1: "grows lim s s'" and 2: "grows lim s' s''"
  then have "is_table s'' t \<Longrightarrow> is_table s t \<or> in_pool lim s t" for t
    using grows_pool [OF 1] unfolding grows_def by blast
  moreover have "walk s'' va 4 = walk s va 4" if "\<And>p. in_pool lim s p \<Longrightarrow> \<not> same_path 4 p va" for va
    using 1 2 that grows_pool [OF 1] unfolding grows_def by metis
  moreover have "mem_bytes s'' a = mem_bytes s a" if "data_byte lim s a" for a
    using 1 2 that grows_data [OF 1 that] unfolding grows_def by metis
  ultimately show ?thesis using 1 2 unfolding grows_def by auto
qed

lemma leaf_desc_valid: "leaf_desc p pg AND 1 \<noteq> 0"
proof -
  have "bit (leaf_desc p pg) 0" by (simp add: leaf_desc_def PTE_PAGE_def bit_or_iff)
  then show ?thesis by (metis bit_0 one_and_eq and.commute odd_iff_mod_2_eq_one zero_neq_one)
qed

lemma leaf_desc_addr: "pg AND DESC_ADDR = 0 \<Longrightarrow> leaf_desc p pg AND DESC_ADDR = p AND DESC_ADDR"
proof -
  assume pg: "pg AND DESC_ADDR = 0"
  have "NOT 0xFFF AND DESC_ADDR = DESC_ADDR" "(PTE_PAGE OR PTE_ACCESS) AND DESC_ADDR = 0"
    by (simp_all add: DESC_ADDR_def c_const)
  then show ?thesis
    using pg by (simp add: leaf_desc_def bit.conj_disj_distrib2 and.assoc)
qed

lemma leaf_grows:
  assumes wf: "pt_wf lim s" "pt_ident s" and u: "walk s va 3 = Some u"
    and ok: "\<And>t. is_table s t \<Longrightarrow> same_path 4 va t \<Longrightarrow> d AND 1 \<noteq> 0 \<and> d AND DESC_ADDR = t"
  shows "pt_wf lim (wr64 (slot u va 3) d s)" "pt_ident (wr64 (slot u va 3) d s)"
    "is_table (wr64 (slot u va 3) d s) t = is_table s t"
proof -
  let ?s = "wr64 (slot u va 3) d s"
  show "pt_wf lim ?s" "is_table ?s t = is_table s t" for t by (rule leaf_wf [OF wf(1) u])+
  show "pt_ident ?s"
    unfolding pt_ident_def
  proof (intro allI impI)
    fix t assume "is_table ?s t"
    then have t: "is_table s t" by (simp add: leaf_wf(2) [OF wf(1) u])
    then have "walk s t 4 = Some t" using wf(2) by (simp add: pt_ident_def)
    then show "walk ?s t 4 = Some t"
      using leaf_walk(2,3) [OF wf(1) u, of t d] ok [OF t] by (cases "same_path 4 va t") auto
  qed
qed

lemma PTE_USER_RW_addr [simp]: "PTE_USER_RW AND DESC_ADDR = 0"
  by (simp add: DESC_ADDR_def c_const)

text \<open>Dropping a free page from the pool keeps the invariant.\<close>

lemma alloc_pool:
  assumes "pt_wf lim s" "mem_next_pa s < lim"
  defines "s1 \<equiv> s\<lparr>mem_next_pa := mem_next_pa s + PAGE_SIZE\<rparr>"
  shows "in_pool lim s (mem_next_pa s)" "mem_next_pa s < mem_next_pa s1"
    "in_pool lim s1 p \<Longrightarrow> in_pool lim s p \<and> p \<noteq> mem_next_pa s"
    "walk s1 va i = walk s va i" "is_table s1 t = is_table s t" "pt_wf lim s1" "pt_ident s1 = pt_ident s"
    "rd64 s1 a = rd64 s a"
proof -
  have lim: "lim \<le> 2 ^ 36" and al: "aligned 12 (mem_next_pa s)" using assms(1) by (auto simp: pt_wf_def)
  show p0: "in_pool lim s (mem_next_pa s)" using assms(2) al by (simp add: in_pool_def)
  have "unat (mem_next_pa s) < 2 ^ 36"
    using assms(2) lim by (simp add: word_less_nat_alt word_le_nat_alt)
  then have "mem_next_pa s < mem_next_pa s + 0x1000"
    by (simp add: word_less_nat_alt unat_add_small)
  then show lt: "mem_next_pa s < mem_next_pa s1" by (simp add: s1_def PAGE_SIZE_def)
  show pool: "in_pool lim s1 p \<Longrightarrow> in_pool lim s p \<and> p \<noteq> mem_next_pa s" for p
    using lt by (auto simp: in_pool_def)
  show wk: "walk s1 va i = walk s va i" for va i by (simp add: s1_def)
  show tb: "is_table s1 t = is_table s t" for t by (simp add: is_table_def wk)
  show "pt_ident s1 = pt_ident s" by (simp add: pt_ident_def tb wk)
  show rd: "rd64 s1 a = rd64 s a" for a by (simp add: rd64_def s1_def)
  have "aligned 12 (mem_next_pa s1)"
    using aligned_add [OF al, of PAGE_SIZE] by (simp add: s1_def) (simp add: aligned_def PAGE_SIZE_def)
  then show "pt_wf lim s1"
    using assms(1) pool tb wk unfolding pt_wf_def zero_page_def rd by (auto simp: s1_def)
qed

text \<open>A page taken from the pool and mapped at its own address, before it is linked.\<close>

lemma map_pool_page:
  assumes wf: "pt_wf lim s" "pt_ident s" and room: "mem_next_pa s < lim"
  defines "np \<equiv> mem_next_pa s"
  obtains s2 where
    "mem_map_pa np np 0 PTE_USER_RW (s\<lparr>mem_next_pa := np + PAGE_SIZE\<rparr>) = Some s2"
    "pt_wf lim s2" "pt_ident s2" "in_pool lim s np" "page_frame np" "zero_page s2 np"
    "\<not> is_table s np" "\<not> in_pool lim s2 np" "\<And>v j. j \<le> 3 \<Longrightarrow> walk s2 v j = walk s v j"
    "\<And>v. \<not> same_path 4 np v \<Longrightarrow> walk s2 v 4 = walk s v 4" "walk s2 np 4 = Some np"
    "mem_pgtbl_base s2 = mem_pgtbl_base s" "mem_heap_pool s2 = mem_heap_pool s"
    "mem_next_l1_page s2 = mem_next_l1_page s" "mem_next_pa s2 = np + PAGE_SIZE" "np < np + PAGE_SIZE"
    "\<And>a. data_byte lim s a \<Longrightarrow> mem_bytes s2 a = mem_bytes s a"
proof -
  define s1 where "s1 = s\<lparr>mem_next_pa := np + PAGE_SIZE\<rparr>"
  note ap = alloc_pool [OF wf(1) room, folded np_def, folded s1_def]
  have np: "in_pool lim s np" "page_frame np" "zero_page s np" "\<not> is_table s np"
    using ap(1) wf(1) in_pool_frame by (auto simp: pt_wf_def)
  obtain u where u: "walk s1 np 3 = Some u" using np(1) wf(1) ap(4) by (auto simp: pt_wf_def)
  define s2 where "s2 = wr64 (slot u np 3) (leaf_desc np PTE_USER_RW) s1"
  have leaf: "leaf_desc np PTE_USER_RW AND DESC_ADDR = np"
    using leaf_desc_addr [OF PTE_USER_RW_addr] np(2) by (simp add: page_frame_def)
  have s1: "pt_wf lim s1" "pt_ident s1" using ap(6,7) wf by auto
  have own: "leaf_desc np PTE_USER_RW AND 1 \<noteq> 0 \<and> leaf_desc np PTE_USER_RW AND DESC_ADDR = x"
    if "is_table s1 x" "same_path 4 np x" for x
    using same_page_frames [OF np(2) is_table_frame [OF s1(1) that(1)] that(2)] leaf leaf_desc_valid by simp
  have u_tab: "is_table s1 u" using u by (auto intro: is_tableI)
  then have "np \<noteq> u" using np(4) ap(5) by auto
  then have "zero_page s2 np"
    using zero_page_wr64 [OF s1(1) u_tab np(2)] np(3) ap(8) by (simp add: s2_def zero_page_def)
  moreover have "walk s2 np 4 = Some np"
    using leaf_walk(3) [OF s1(1) u, of np] leaf leaf_desc_valid by (simp add: s2_def)
  moreover have "walk s2 v 4 = walk s v 4" if "\<not> same_path 4 np v" for v
    using leaf_walk(2) [OF s1(1) u that] ap(4) by (simp add: s2_def)
  moreover have "walk s2 v j = walk s v j" if "j \<le> 3" for v j
    using leaf_walk(1) [OF s1(1) u that] ap(4) by (simp add: s2_def)
  moreover have "mem_map_pa np np 0 PTE_USER_RW s1 = Some s2"
    using mem_map_pa_walk [OF u] by (simp add: s2_def)
  moreover have "\<not> in_pool lim s2 np" "np < np + PAGE_SIZE" using ap(2,3) by (auto simp: s2_def s1_def)
  moreover have "mem_bytes s2 a = mem_bytes s a" if "data_byte lim s a" for a
  proof -
    have "is_table s u" using u_tab ap(5) by simp
    then have "drop_bit 12 a \<noteq> drop_bit 12 u" using that by (simp add: data_byte_def)
    then show ?thesis
      using wr64_slot_other [OF page_frame_aligned [OF is_table_frame [OF s1(1) u_tab]]] by (simp add: s2_def s1_def)
  qed
  ultimately show ?thesis
    using that [of s2] leaf_grows(1,2) [OF s1 u own, folded s2_def] np
    by (simp add: s1_def s2_def)
qed

lemma link_desc:
  assumes "page_frame np" "ta AND DESC_ADDR = 0"
  shows "(np OR (PTE_TABLE OR ta)) AND 1 \<noteq> 0" "(np OR (PTE_TABLE OR ta)) AND DESC_ADDR = np"
proof -
  have "bit (np OR (PTE_TABLE OR ta)) 0" by (simp add: PTE_TABLE_def bit_or_iff)
  then show "(np OR (PTE_TABLE OR ta)) AND 1 \<noteq> 0"
    by (metis bit_0 one_and_eq and.commute odd_iff_mod_2_eq_one zero_neq_one)
  have "PTE_TABLE AND DESC_ADDR = 0" by (simp add: PTE_TABLE_def DESC_ADDR_def)
  then show "(np OR (PTE_TABLE OR ta)) AND DESC_ADDR = np"
    using assms by (simp add: bit.conj_disj_distrib2 page_frame_def)
qed

text \<open>One empty level: the page is linked as the table of the slot.\<close>

lemma map_levels_alloc:
  assumes wf: "pt_wf lim s" "pt_ident s" and t: "walk s va i = Some t" "i < 3" "walk s va (Suc i) = None"
    and room: "mem_next_pa s < lim" and ta: "ta AND DESC_ADDR = 0"
  obtains s' where
    "map_levels i va p ta pg t s = map_levels (Suc i) va p ta pg (mem_next_pa s) s'"
    "grows lim s s'" "walk s' va (Suc i) = Some (mem_next_pa s)"
    "mem_next_pa s' = mem_next_pa s + PAGE_SIZE"
proof -
  define np where "np = mem_next_pa s"
  define d where "d = np OR (PTE_TABLE OR ta)"
  obtain s2 where s2:
    "mem_map_pa np np 0 PTE_USER_RW (s\<lparr>mem_next_pa := np + PAGE_SIZE\<rparr>) = Some s2"
    "pt_wf lim s2" "pt_ident s2" "in_pool lim s np" "page_frame np" "zero_page s2 np"
    "\<not> is_table s np" "\<not> in_pool lim s2 np" "\<And>v j. j \<le> 3 \<Longrightarrow> walk s2 v j = walk s v j"
    "\<And>v. \<not> same_path 4 np v \<Longrightarrow> walk s2 v 4 = walk s v 4" "walk s2 np 4 = Some np"
    "mem_pgtbl_base s2 = mem_pgtbl_base s" "mem_heap_pool s2 = mem_heap_pool s"
    "mem_next_l1_page s2 = mem_next_l1_page s" "mem_next_pa s2 = np + PAGE_SIZE" "np < np + PAGE_SIZE"
    "\<And>a. data_byte lim s a \<Longrightarrow> mem_bytes s2 a = mem_bytes s a"
    using map_pool_page [OF wf room] unfolding np_def by blast
  have tab2: "is_table s2 x = is_table s x" for x unfolding is_table_def using s2(9) by metis
  note d = link_desc [OF s2(5) ta, folded d_def]
  define s4 where "s4 = wr64 (slot t va i) d s2"
  have pre: "pt_wf lim s2" "walk s2 va i = Some t" "i < 3" "walk s2 va (Suc i) = None"
    "page_frame np" "zero_page s2 np" "\<not> is_table s2 np"
    using s2(2,5-7,9) t tab2 by (auto simp del: tbl.simps)
  note lw = link_walk [OF pre d, folded s4_def] and lt = link_table [OF pre d, folded s4_def]
  have "rd64 s (slot t va i) AND 1 = 0"
    using t(1,3) by (auto simp: rd64_def Let_def split: if_splits)
  then have "map_levels i va p ta pg t s = map_levels (Suc i) va p ta pg np s4"
    using map_levels_new [OF t(2) _ np_def s2(1)] by (simp add: s4_def d_def)
  moreover have "pt_ident s4"
    using s2(3,11) lt tab2 unfolding pt_ident_def by auto
  moreover have "walk s4 v 4 = walk s v 4" if "\<And>q. in_pool lim s q \<Longrightarrow> \<not> same_path 4 q v" for v
    using lt(2) s2(4,10) that by simp
  moreover have "is_table s x \<or> in_pool lim s x" if "is_table s4 x" for x
    using that lt(1) tab2 s2(4) by auto
  moreover have "mem_bytes s4 a = mem_bytes s a" if "data_byte lim s a" for a
  proof -
    have "is_table s t" using t(1,2) by (auto intro: is_tableI)
    then have "drop_bit 12 a \<noteq> drop_bit 12 t" "aligned 12 t"
      using that wf(1) is_table_frame page_frame_aligned by (auto simp: data_byte_def)
    then show ?thesis using wr64_slot_other [of t a va i d s2] s2(17) [OF that] by (simp add: s4_def)
  qed
  moreover have "walk s4 va (Suc i) = Some np" using lw [of "Suc i" va] t(2) by simp
  ultimately show ?thesis
    using that [of s4] link_wf [OF pre d s2(8), folded s4_def] s2(12-16)
    by (auto simp: grows_def np_def s4_def)
qed

lemma map_levels_grows:
  assumes "i \<le> 3" "pt_wf lim s" "pt_ident s" "walk s va i = Some t"
    "unat (mem_next_pa s) + (3 - i) * 4096 \<le> unat lim" "ta AND DESC_ADDR = 0"
  shows "\<exists>s' u. map_levels i va p ta pg t s = Some (wr64 (slot u va 3) (leaf_desc p pg) s') \<and>
           grows lim s s' \<and> walk s' va 3 = Some u \<and>
           unat (mem_next_pa s') \<le> unat (mem_next_pa s) + (3 - i) * 4096"
  using assms
proof (induction "3 - i" arbitrary: i t s)
  case 0
  then have "i = 3" by simp
  with 0 show ?case
    by (intro exI [of _ s] exI [of _ t]) (simp add: map_levels_leaf grows_refl del: tbl.simps)
next
  case (Suc n)
  then have i: "i < 3" by simp
  have lim: "lim \<le> 2 ^ 36" using Suc.prems(2) by (simp add: pt_wf_def)
  show ?case
  proof (cases "walk s va (Suc i)")
    case (Some t')
    then have v: "rd64 s (slot t va i) AND 1 \<noteq> 0" "t' = rd64 s (slot t va i) AND DESC_ADDR"
      using Suc.prems(4) by (auto simp: Let_def rd64_def split: if_splits)
    show ?thesis
      using Suc.hyps(1) [of "Suc i" s t'] Suc.hyps(2) Suc.prems Some i map_levels_valid [OF i v(1)] v(2)
      by (fastforce simp del: tbl.simps)
  next
    case None
    have "mem_next_pa s < lim" using Suc.prems(5) i by (simp add: word_less_nat_alt)
    then obtain s1 where s1:
      "map_levels i va p ta pg t s = map_levels (Suc i) va p ta pg (mem_next_pa s) s1"
      "grows lim s s1" "walk s1 va (Suc i) = Some (mem_next_pa s)" "mem_next_pa s1 = mem_next_pa s + PAGE_SIZE"
      using map_levels_alloc [OF Suc.prems(2-4) i None _ Suc.prems(6)] by blast
    have "unat (mem_next_pa s) < 2 ^ 36"
      using Suc.prems(5) i lim by (simp add: word_le_nat_alt)
    then have nx: "unat (mem_next_pa s1) = unat (mem_next_pa s) + 4096"
      by (simp add: s1(4) PAGE_SIZE_def unat_add_small)
    have n: "n = 3 - Suc i" using Suc.hyps(2) by simp
    have wf1: "pt_wf lim s1" "pt_ident s1" using s1(2) by (auto simp: grows_def)
    have "unat (mem_next_pa s1) + (3 - Suc i) * 4096 \<le> unat lim"
      using Suc.prems(5) nx n Suc.hyps(2) by (simp add: algebra_simps Suc_diff_Suc)
    then obtain s' u where r: "map_levels (Suc i) va p ta pg (mem_next_pa s) s1 =
        Some (wr64 (slot u va 3) (leaf_desc p pg) s')" "grows lim s1 s'" "walk s' va 3 = Some u"
        "unat (mem_next_pa s') \<le> unat (mem_next_pa s1) + (3 - Suc i) * 4096"
      using Suc.hyps(1) [OF n _ wf1 s1(3) _ Suc.prems(6)] i by auto
    moreover have "unat (mem_next_pa s') \<le> unat (mem_next_pa s) + (3 - i) * 4096"
      using r(4) nx n Suc.hyps(2) by (simp add: algebra_simps)
    ultimately show ?thesis using s1(1) grows_trans [OF s1(2)] by auto
  qed
qed

section \<open>Translations\<close>

definition reserved :: "u64 \<Rightarrow> mm \<Rightarrow> u64 \<Rightarrow> bool" where
  "reserved lim s va \<longleftrightarrow> (\<exists>t. (is_table s t \<or> in_pool lim s t) \<and> same_path 4 t va)"

definition pt_room :: "u64 \<Rightarrow> mm \<Rightarrow> bool" where
  "pt_room lim s \<longleftrightarrow> unat (mem_next_pa s) + 3 * 4096 \<le> unat lim"

lemma lookup_levels_walk:
  "walk s va (4 - n) = Some pa \<Longrightarrow> n \<le> 4 \<Longrightarrow>
   lookup_levels n va pa s = (case walk s va 4 of None \<Rightarrow> - 1 | Some q \<Rightarrow> q)"
proof (induction n arbitrary: pa)
  case 0
  then show ?case by (simp del: tbl.simps)
next
  case (Suc n)
  have e: "4 - n = Suc (4 - Suc n)" using Suc.prems(2) by simp
  show ?case
  proof (cases "rd64 s (slot pa va (4 - Suc n)) AND 1 = 0")
    case True
    then have "walk s va (4 - n) = None" using Suc.prems e by (simp add: rd64_def)
    then have "walk s va 4 = None" using walk_None_mono [of s va "4 - n" 4] by simp
    then show ?thesis using True by (simp add: slot_def Let_def del: tbl.simps)
  next
    case False
    then have "walk s va (4 - n) = Some (rd64 s (slot pa va (4 - Suc n)) AND DESC_ADDR)"
      using Suc.prems e by (simp add: rd64_def)
    then show ?thesis
      using Suc.IH Suc.prems False by (simp add: slot_def Let_def del: tbl.simps)
  qed
qed

lemma mem_lookup_pa_walk: "mem_lookup_pa va s = (case walk s va 4 of None \<Rightarrow> - 1 | Some q \<Rightarrow> q)"
  using lookup_levels_walk [of s va 4] by (simp add: mem_lookup_pa_def)

lemma same_path_lookup: "same_path 4 va va' \<Longrightarrow> mem_lookup_pa va s = mem_lookup_pa va' s"
  by (simp only: mem_lookup_pa_walk tbl_path)

definition pt_inv :: "u64 \<Rightarrow> mm \<Rightarrow> bool" where
  "pt_inv lim s \<longleftrightarrow> pt_wf lim s \<and> pt_ident s"

definition usable :: "u64 \<Rightarrow> mm \<Rightarrow> u64 \<Rightarrow> bool" where
  "usable lim s va \<longleftrightarrow> \<not> reserved lim s va"

definition pages_left :: "u64 \<Rightarrow> nat \<Rightarrow> mm \<Rightarrow> bool" where
  "pages_left lim n s \<longleftrightarrow> unat (mem_next_pa s) + n * 4096 \<le> unat lim"

text \<open>What every mapping operation keeps: the invariant, the globals it does not own, the
  usable addresses and the translations of all of them except one page.\<close>

definition maps_page :: "u64 \<Rightarrow> u64 \<Rightarrow> u64 \<Rightarrow> nat \<Rightarrow> mm \<Rightarrow> mm \<Rightarrow> bool" where
  "maps_page lim va pa n s s' \<longleftrightarrow>
     pt_inv lim s' \<and> mem_lookup_pa va s' = pa AND DESC_ADDR \<and>
     (\<forall>va'. usable lim s va' \<longrightarrow> usable lim s' va') \<and>
     (\<forall>va'. usable lim s va' \<longrightarrow> \<not> same_path 4 va va' \<longrightarrow> mem_lookup_pa va' s' = mem_lookup_pa va' s) \<and>
     mem_pgtbl_base s' = mem_pgtbl_base s \<and> mem_heap_pool s' = mem_heap_pool s \<and>
     mem_next_pa s \<le> mem_next_pa s' \<and> unat (mem_next_pa s') \<le> unat (mem_next_pa s) + n * 4096"

lemma grows_reserved: "grows lim s s' \<Longrightarrow> reserved lim s' va \<Longrightarrow> reserved lim s va"
proof -
  assume g: "grows lim s s'" and r: "reserved lim s' va"
  have "\<forall>t. is_table s' t \<longrightarrow> is_table s t \<or> in_pool lim s t" using g unfolding grows_def by blast
  then show ?thesis using r grows_pool [OF g] unfolding reserved_def by blast
qed

lemma grows_lookup: "grows lim s s' \<Longrightarrow> usable lim s va \<Longrightarrow> mem_lookup_pa va s' = mem_lookup_pa va s"
proof -
  assume g: "grows lim s s'" and u: "usable lim s va"
  have "\<forall>q. in_pool lim s q \<longrightarrow> \<not> same_path 4 q va" using u by (auto simp: usable_def reserved_def)
  then have "walk s' va 4 = walk s va 4" using g unfolding grows_def by blast
  then show ?thesis by (simp only: mem_lookup_pa_walk)
qed

lemma mem_map_pa_maps:
  assumes inv: "pt_inv lim s" and room: "pages_left lim 3 s" and us: "usable lim s va"
    and at: "tblattr AND DESC_ADDR = 0" "pgattr AND DESC_ADDR = 0"
  shows "\<exists>s'. mem_map_pa va pa tblattr pgattr s = Some s' \<and> maps_page lim va pa 3 s s'"
proof -
  let ?d = "leaf_desc pa pgattr"
  have "pt_wf lim s" "pt_ident s" using inv by (auto simp: pt_inv_def)
  then obtain s1 u where s1: "mem_map_pa va pa tblattr pgattr s = Some (wr64 (slot u va 3) ?d s1)"
      "grows lim s s1" "walk s1 va 3 = Some u" "unat (mem_next_pa s1) \<le> unat (mem_next_pa s) + 3 * 4096"
    using map_levels_grows [of 0 lim s va "mem_pgtbl_base s" tblattr pa pgattr] room at(1)
    by (auto simp: mem_map_pa_def pages_left_def)
  define s' where "s' = wr64 (slot u va 3) ?d s1"
  have wf1: "pt_wf lim s1" "pt_ident s1" using s1(2) by (auto simp: grows_def)
  have us1: "usable lim s1 v" if "usable lim s v" for v
    using that grows_reserved [OF s1(2)] by (auto simp: usable_def)
  have ok: "?d AND 1 \<noteq> 0 \<and> ?d AND DESC_ADDR = t" if "is_table s1 t" "same_path 4 va t" for t
    using us1 [OF us] that same_path_sym by (auto simp: usable_def reserved_def)
  note lg = leaf_grows [OF wf1 s1(3) ok, folded s'_def] and lw = leaf_walk [OF wf1(1) s1(3), where d = "?d", folded s'_def]
  have "mem_lookup_pa va s' = pa AND DESC_ADDR"
    using lw(3) [of va] leaf_desc_valid leaf_desc_addr [OF at(2)] by (simp add: mem_lookup_pa_walk del: tbl.simps)
  moreover have "mem_lookup_pa v s' = mem_lookup_pa v s" if "usable lim s v" "\<not> same_path 4 va v" for v
    using lw(2) [OF that(2)] grows_lookup [OF s1(2) that(1)] by (simp add: mem_lookup_pa_walk)
  moreover have "usable lim s' v" if "usable lim s v" for v
    using us1 [OF that] lg(3) by (auto simp: usable_def reserved_def s'_def)
  ultimately have "maps_page lim va pa 3 s s'"
    using lg(1,2) s1(2,4) by (auto simp: maps_page_def pt_inv_def grows_def s'_def)
  then show ?thesis using s1(1) s'_def by blast
qed

end
