(* ===== verification/Pager.thy ===== *)
theory Pager
  imports Prelude
begin

text \<open>
  The interface between the page-table code (\<^verbatim>\<open>common/*/mem_util.c\<close>) and its clients:
  \<open>page_mapper\<close> states what one call of \<open>mem_map_va\<close>, \<open>mem_map_pa\<close>, \<open>mem_unmap_va\<close> and
  \<open>mem_lookup_pa\<close> promises, \<open>strict_unmapper\<close> that a page without translation is
  reported, and \<open>heap_loop\<close> adds the loop of \<open>mem_heap_allocate\<close>. The
  laws do not mention table formats, so both architectures provide them. The lemmas proved
  here once: a list of mappings of distinct pages ends with every one of them in force,
  a mapping followed by its removal restores the failure of the lookup, and the heap
  loop backs every page of the block by a physical page of its own.
\<close>

text \<open>A sequence of \<open>mem_map_pa\<close> calls, one per (virtual, physical) pair.\<close>

primrec map_all :: "('w \<Rightarrow> 'w \<Rightarrow> 's \<Rightarrow> 's option) \<Rightarrow> ('w \<times> 'w) list \<Rightarrow> 's \<Rightarrow> 's option" where
  "map_all m [] s = Some s"
| "map_all m (x # xs) s = Option.bind (m (fst x) (snd x) s) (map_all m xs)"

fun distinct_pages :: "('w \<Rightarrow> 'w \<Rightarrow> bool) \<Rightarrow> 'w list \<Rightarrow> bool" where
  "distinct_pages same [] = True"
| "distinct_pages same (v # vs) = ((\<forall>u\<in>set vs. \<not> same v u) \<and> distinct_pages same vs)"

locale page_mapper =
  fixes inv :: "'s \<Rightarrow> bool"
    and room :: "nat \<Rightarrow> 's \<Rightarrow> bool"
    and usable :: "'s \<Rightarrow> 'w::len word \<Rightarrow> bool"
    and same_page :: "'w word \<Rightarrow> 'w word \<Rightarrow> bool"
    and map_pa :: "'w word \<Rightarrow> 'w word \<Rightarrow> 's \<Rightarrow> 's option"
    and map_va :: "'w word \<Rightarrow> 's \<Rightarrow> 's option"
    and unmap_va :: "'w word \<Rightarrow> 's \<Rightarrow> int \<times> 's"
    and lookup :: "'w word \<Rightarrow> 's \<Rightarrow> 'w word"
    and translation :: "'w word \<Rightarrow> 'w word \<Rightarrow> 'w word"
    and next_frame :: "'s \<Rightarrow> 'w word"
    and pool :: "'s \<Rightarrow> 'w word"
  assumes same_sym: "same_page v u \<Longrightarrow> same_page u v"
    and map_pa: "\<And>s n va pa. inv s \<Longrightarrow> room (Suc n) s \<Longrightarrow> usable s va \<Longrightarrow>
      \<exists>s'. map_pa va pa s = Some s' \<and> inv s' \<and> room n s' \<and> lookup va s' = translation va pa \<and>
        pool s' = pool s \<and>
        (\<forall>v. usable s v \<longrightarrow> usable s' v \<and> (\<not> same_page va v \<longrightarrow> lookup v s' = lookup v s))"
    and map_va: "\<And>s n va. inv s \<Longrightarrow> room (Suc n) s \<Longrightarrow> usable s va \<Longrightarrow>
      \<exists>s'. map_va va s = Some s' \<and> inv s' \<and> room n s' \<and> lookup va s' = translation va (next_frame s) \<and>
        next_frame s < next_frame s' \<and> pool s' = pool s \<and>
        (\<forall>v. usable s v \<longrightarrow> usable s' v \<and> (\<not> same_page va v \<longrightarrow> lookup v s' = lookup v s))"
    and unmap_va: "\<And>s n va. inv s \<Longrightarrow> room n s \<Longrightarrow> usable s va \<Longrightarrow> lookup va s \<noteq> - 1 \<Longrightarrow>
      \<exists>s'. unmap_va va s = (0, s') \<and> inv s' \<and> room n s' \<and> lookup va s' = - 1 \<and> pool s' = pool s \<and>
        (\<forall>v. usable s v \<longrightarrow> usable s' v \<and> (\<not> same_page va v \<longrightarrow> lookup v s' = lookup v s))"
begin

lemma map_all_maps:
  "inv s \<Longrightarrow> room (length xs + n) s \<Longrightarrow> \<forall>x\<in>set xs. usable s (fst x) \<Longrightarrow>
   distinct_pages same_page (map fst xs) \<Longrightarrow>
   \<exists>s'. map_all map_pa xs s = Some s' \<and> inv s' \<and> room n s' \<and>
     (\<forall>x\<in>set xs. lookup (fst x) s' = translation (fst x) (snd x)) \<and>
     (\<forall>v. usable s v \<longrightarrow> usable s' v \<and> ((\<forall>x\<in>set xs. \<not> same_page (fst x) v) \<longrightarrow> lookup v s' = lookup v s))"
proof (induction xs arbitrary: s)
  case Nil
  then show ?case by simp
next
  case (Cons x xs)
  have r: "room (Suc (length xs + n)) s" using Cons.prems(2) by simp
  obtain s1 where s1: "map_pa (fst x) (snd x) s = Some s1" "inv s1" "room (length xs + n) s1"
    "lookup (fst x) s1 = translation (fst x) (snd x)"
    "\<And>v. usable s v \<Longrightarrow> usable s1 v \<and> (\<not> same_page (fst x) v \<longrightarrow> lookup v s1 = lookup v s)"
    using map_pa [OF Cons.prems(1) r, of "fst x" "snd x"] Cons.prems(3) by auto
  obtain s' where s': "map_all map_pa xs s1 = Some s'" "inv s'" "room n s'"
    "\<forall>x\<in>set xs. lookup (fst x) s' = translation (fst x) (snd x)"
    "\<And>v. usable s1 v \<Longrightarrow> usable s' v \<and> ((\<forall>x\<in>set xs. \<not> same_page (fst x) v) \<longrightarrow> lookup v s' = lookup v s1)"
    using Cons.IH [OF s1(2,3)] s1(5) Cons.prems(3,4) by auto
  show ?case
  proof (intro exI [of _ s'] conjI)
    show "map_all map_pa (x # xs) s = Some s'" by (simp add: s1(1) s'(1))
    have "usable s1 (fst x)" using s1(5) Cons.prems(3) by simp
    moreover have "\<forall>y\<in>set xs. \<not> same_page (fst y) (fst x)"
      using Cons.prems(4) same_sym by auto
    ultimately show "\<forall>y\<in>set (x # xs). lookup (fst y) s' = translation (fst y) (snd y)"
      using s1(4) s'(4,5) by simp
  qed (use s1 s' in auto)
qed

text \<open>A page that was mapped and unmapped again no longer translates; mapping it anew
  puts the new translation in force.\<close>

lemma map_unmap_map:
  assumes "inv s" "room (Suc (Suc n)) s" "usable s va" "translation va pa \<noteq> - 1"
  obtains s1 s2 s3 where "map_pa va pa s = Some s1" "unmap_va va s1 = (0, s2)" "lookup va s2 = - 1"
    "map_pa va pa' s2 = Some s3" "lookup va s3 = translation va pa'" "inv s3" "room n s3"
proof -
  obtain s1 where s1: "map_pa va pa s = Some s1" "inv s1" "room (Suc n) s1"
    "lookup va s1 = translation va pa" "usable s1 va"
    using map_pa [OF assms(1-3), of pa] assms(3) by blast
  moreover obtain s2 where s2: "unmap_va va s1 = (0, s2)" "inv s2" "room (Suc n) s2" "lookup va s2 = - 1"
    "usable s2 va"
    using unmap_va [OF s1(2,3,5)] s1(4,5) assms(4) by metis
  moreover obtain s3 where "map_pa va pa' s2 = Some s3" "inv s3" "room n s3"
    "lookup va s3 = translation va pa'"
    using map_pa [OF s2(2,3,5), of pa'] by blast
  ultimately show ?thesis using that by blast
qed

end

text \<open>The code for AArch64 also tells the caller that a page was not mapped; the code for
  AArch32 looks at the table descriptor only and does not promise this.\<close>

locale strict_unmapper =
  page_mapper inv room usable same_page map_pa map_va unmap_va lookup translation next_frame pool
  for inv :: "'s \<Rightarrow> bool"
    and room :: "nat \<Rightarrow> 's \<Rightarrow> bool"
    and usable :: "'s \<Rightarrow> 'w::len word \<Rightarrow> bool"
    and same_page :: "'w word \<Rightarrow> 'w word \<Rightarrow> bool"
    and map_pa :: "'w word \<Rightarrow> 'w word \<Rightarrow> 's \<Rightarrow> 's option"
    and map_va :: "'w word \<Rightarrow> 's \<Rightarrow> 's option"
    and unmap_va :: "'w word \<Rightarrow> 's \<Rightarrow> int \<times> 's"
    and lookup :: "'w word \<Rightarrow> 's \<Rightarrow> 'w word"
    and translation :: "'w word \<Rightarrow> 'w word \<Rightarrow> 'w word"
    and next_frame :: "'s \<Rightarrow> 'w word"
    and pool :: "'s \<Rightarrow> 'w word" +
  assumes unmap_va_fails: "\<And>s va. inv s \<Longrightarrow> lookup va s = - 1 \<Longrightarrow> unmap_va va s = (- 1, s)"
begin

text \<open>Removing a page twice: the second call changes nothing and says so.\<close>

lemma unmap_twice:
  assumes "inv s" "room n s" "usable s va" "lookup va s \<noteq> - 1"
  obtains s' where "unmap_va va s = (0, s')" "unmap_va va s' = (- 1, s')"
  using unmap_va [OF assms] unmap_va_fails that by blast

end

locale heap_loop =
  page_mapper inv room usable same_page map_pa map_va unmap_va lookup translation next_frame pool
  for inv :: "'s \<Rightarrow> bool"
    and room :: "nat \<Rightarrow> 's \<Rightarrow> bool"
    and usable :: "'s \<Rightarrow> 'w::len word \<Rightarrow> bool"
    and same_page :: "'w word \<Rightarrow> 'w word \<Rightarrow> bool"
    and map_pa :: "'w word \<Rightarrow> 'w word \<Rightarrow> 's \<Rightarrow> 's option"
    and map_va :: "'w word \<Rightarrow> 's \<Rightarrow> 's option"
    and unmap_va :: "'w word \<Rightarrow> 's \<Rightarrow> int \<times> 's"
    and lookup :: "'w word \<Rightarrow> 's \<Rightarrow> 'w word"
    and translation :: "'w word \<Rightarrow> 'w word \<Rightarrow> 'w word"
    and next_frame :: "'s \<Rightarrow> 'w word"
    and pool :: "'s \<Rightarrow> 'w word" +
  fixes loop :: "'w word \<Rightarrow> 'w word \<Rightarrow> 's \<Rightarrow> ('w word \<times> 's) option"
  assumes loop: "\<And>off len s. loop off len s =
      (if off < len then Option.bind (map_va (pool s + off) s) (loop (off + 0x1000) len) else Some (off, s))"
    and page_aligned: "\<And>s n w. inv s \<Longrightarrow> room (Suc n) s \<Longrightarrow>
      translation (pool s + push_bit 12 w) (next_frame s) = next_frame s"
begin

text \<open>The loop from page \<open>k\<close> on, with \<open>n\<close> pages to go.\<close>

lemma loop_maps:
  assumes "inv s" "room n s"
    and "\<forall>i\<in>{k..<k + n}. usable s (pool s + push_bit 12 (of_nat i))"
    and "\<forall>i\<in>{k..<k + n}. \<forall>j\<in>{k..<i}. \<not> same_page (pool s + push_bit 12 (of_nat i)) (pool s + push_bit 12 (of_nat j))"
    and "\<forall>i\<in>{k..<k + n}. push_bit 12 (of_nat i) < len" "len \<le> push_bit 12 (of_nat (k + n))"
  shows "\<exists>s'. loop (push_bit 12 (of_nat k)) len s = Some (push_bit 12 (of_nat (k + n)), s') \<and>
           inv s' \<and> pool s' = pool s \<and> next_frame s \<le> next_frame s' \<and>
           (\<forall>i\<in>{k..<k + n}. next_frame s \<le> lookup (pool s + push_bit 12 (of_nat i)) s' \<and>
              lookup (pool s + push_bit 12 (of_nat i)) s' < next_frame s' \<and>
              (\<forall>j\<in>{k..<i}. lookup (pool s + push_bit 12 (of_nat j)) s' < lookup (pool s + push_bit 12 (of_nat i)) s')) \<and>
           (\<forall>v. usable s v \<longrightarrow> usable s' v \<and>
              ((\<forall>i\<in>{k..<k + n}. \<not> same_page (pool s + push_bit 12 (of_nat i)) v) \<longrightarrow> lookup v s' = lookup v s))"
  using assms
proof (induction n arbitrary: k s)
  case 0
  then have "\<not> push_bit 12 (of_nat k) < len" by (simp add: leD)
  then have "loop (push_bit 12 (of_nat k)) len s = Some (push_bit 12 (of_nat k), s)"
    by (subst loop) (simp only: if_False)
  then show ?case using 0 by simp
next
  case (Suc n)
  let ?a = "\<lambda>i. pool s + push_bit 12 (of_nat i)"
  have less: "push_bit 12 (of_nat k) < len" using Suc.prems(5) by simp
  have us: "usable s (?a i)" if "k \<le> i" "i < k + Suc n" for i using Suc.prems(3) that by auto
  obtain s1 where s1: "map_va (?a k) s = Some s1" "inv s1" "room n s1" "lookup (?a k) s1 = next_frame s"
    "next_frame s < next_frame s1" "pool s1 = pool s"
    "\<And>v. usable s v \<Longrightarrow> usable s1 v \<and> (\<not> same_page (?a k) v \<longrightarrow> lookup v s1 = lookup v s)"
    using map_va [OF Suc.prems(1,2) us [of k]] page_aligned [OF Suc.prems(1,2)] by auto
  have nx: "push_bit 12 (of_nat k) + 0x1000 = push_bit 12 (of_nat (Suc k) :: 'w word)"
    by (simp add: push_bit_eq_mult algebra_simps)
  have ids: "Suc k + n = k + Suc n" by simp
  obtain s' where s': "loop (push_bit 12 (of_nat (Suc k))) len s1 = Some (push_bit 12 (of_nat (k + Suc n)), s')"
    "inv s'" "pool s' = pool s" "next_frame s1 \<le> next_frame s'"
    "\<And>i. Suc k \<le> i \<Longrightarrow> i < k + Suc n \<Longrightarrow> next_frame s1 \<le> lookup (?a i) s' \<and> lookup (?a i) s' < next_frame s'"
    "\<And>i j. j < i \<Longrightarrow> Suc k \<le> j \<Longrightarrow> i < k + Suc n \<Longrightarrow> lookup (?a j) s' < lookup (?a i) s'"
    "\<And>v. usable s1 v \<Longrightarrow> usable s' v"
    "\<And>v. usable s1 v \<Longrightarrow> \<forall>i\<in>{Suc k..<k + Suc n}. \<not> same_page (?a i) v \<Longrightarrow> lookup v s' = lookup v s1"
    using Suc.IH [OF s1(2,3), of "Suc k", unfolded ids s1(6)] us s1(7) Suc.prems(4-6) by fastforce
  have "\<forall>i\<in>{Suc k..<k + Suc n}. \<not> same_page (?a i) (?a k)" using Suc.prems(4) by auto
  then have k: "lookup (?a k) s' = next_frame s" using s'(8) [of "?a k"] s1(4,7) us by simp
  show ?case
  proof (intro exI [of _ s'] conjI ballI allI impI)
    show "loop (push_bit 12 (of_nat k)) len s = Some (push_bit 12 (of_nat (k + Suc n)), s')"
      by (subst loop) (simp add: less s1(1) nx s'(1) del: of_nat_Suc)
    fix i assume i: "i \<in> {k..<k + Suc n}"
    show "next_frame s \<le> lookup (?a i) s'" "lookup (?a i) s' < next_frame s'"
      using i k s'(4) s'(5) [of i] s1(5) by (cases "i = k"; force)+
    fix j assume "j \<in> {k..<i}"
    then show "lookup (?a j) s' < lookup (?a i) s'"
      using i k s'(5) [of i] s'(6) [of j i] s1(5) by (cases "j = k") auto
  next
    fix v assume "usable s v" "\<forall>i\<in>{k..<k + Suc n}. \<not> same_page (?a i) v"
    then show "lookup v s' = lookup v s" using s'(8) [of v] s1(7) [of v] by simp
  qed (use s1 s' in auto)
qed

end

end
