(* ===== verification/PageTableOps.thy ===== *)
theory PageTableOps
  imports PageTableProofs Pager
begin

text \<open>
  \<open>mem_map_va\<close>, \<open>mem_unmap_va\<close> and \<open>mem_heap_allocate\<close> of
  \<^verbatim>\<open>common/aarch64/mem_util.c\<close> over the invariant of \<open>PageTableProofs\<close>, the interpretation
  of the paging interface on them, and the call pattern on which \<open>mem_map_pa\<close> never returns.
\<close>

section \<open>Same page\<close>

lemma same_path_bits: "same_path 4 va va' \<longleftrightarrow> (\<forall>k. 12 \<le> k \<and> k < 48 \<longrightarrow> bit va k = bit va' k)"
proof -
  have ix: "pt_index va i = pt_index va' i \<longleftrightarrow> (\<forall>r<9. bit va (39 - i * 9 + r) = bit va' (39 - i * 9 + r))" for i
  proof
    assume e: "pt_index va i = pt_index va' i"
    show "\<forall>r<9. bit va (39 - i * 9 + r) = bit va' (39 - i * 9 + r)"
    proof (intro allI impI)
      fix r :: nat assume "r < 9"
      then show "bit va (39 - i * 9 + r) = bit va' (39 - i * 9 + r)"
        using arg_cong [OF e, of "\<lambda>w. bit w r"] by (simp add: bit_pt_index)
    qed
  next
    assume "\<forall>r<9. bit va (39 - i * 9 + r) = bit va' (39 - i * 9 + r)"
    then show "pt_index va i = pt_index va' i"
      by (intro bit_word_eqI) (auto simp only: bit_pt_index)
  qed
  have "(\<forall>k. 12 \<le> k \<and> k < 48 \<longrightarrow> P k) \<longleftrightarrow> (\<forall>i<4. \<forall>r<9. P (39 - i * 9 + r))" for P :: "nat \<Rightarrow> bool"
  proof safe
    fix k :: nat
    assume all: "\<forall>i<4. \<forall>r<9. P (39 - i * 9 + r)" and k: "12 \<le> k" "k < 48"
    define j where "j = 3 - (k - 12) div 9"
    have "(k - 12) div 9 < 4" using k by (simp add: div_less_iff_less_mult)
    then have "j < 4" "39 - j * 9 = 12 + (k - 12) div 9 * 9" by (auto simp: j_def)
    moreover have "12 + (k - 12) div 9 * 9 + (k - 12) mod 9 = k" using k by simp
    ultimately show "P k" using all by (metis mod_less_divisor zero_less_numeral)
  next
    fix i r :: nat
    assume "\<forall>k. 12 \<le> k \<and> k < 48 \<longrightarrow> P k" "i < 4" "r < 9"
    moreover from this have "12 \<le> 39 - i * 9 + r" "39 - i * 9 + r < 48" by arith+
    ultimately show "P (39 - i * 9 + r)" by blast
  qed
  then show ?thesis by (simp add: same_path_def ix)
qed

text \<open>Distinct pages of a block below the end of the address space differ in their path.\<close>

lemma page_path_distinct:
  assumes "aligned 12 a" "unat a + (Suc i * 4096) \<le> 2 ^ 48" "j < i"
  shows "\<not> same_path 4 (a + push_bit 12 (of_nat i)) (a + push_bit 12 (of_nat j))"
proof
  let ?x = "a + push_bit 12 (of_nat i)" and ?y = "a + push_bit 12 (of_nat j)"
  assume p: "same_path 4 ?x ?y"
  have u: "unat (a + push_bit 12 (of_nat k)) = unat a + k * 4096" if "k \<le> i" for k
  proof -
    have "k * 4096 \<le> i * 4096" using that by simp
    then have "k * 4096 < 2 ^ 64" "unat a + k * 4096 < 2 ^ 64" using assms(2) by auto
    moreover have "push_bit 12 (of_nat k :: u64) = of_nat (k * 4096)" by (simp add: push_bit_eq_mult)
    moreover have "unat (of_nat (k * 4096) :: u64) = k * 4096"
      by (rule unat_of_nat_u64) fact
    ultimately show ?thesis by (simp only: unat_add_small)
  qed
  have small: "\<not> bit (a + push_bit 12 (of_nat k)) n" if "k \<le> i" "48 \<le> n" for k n
  proof
    assume "bit (a + push_bit 12 (of_nat k)) n"
    then have "bit (unat (a + push_bit 12 (of_nat k))) n" by (simp only: bit_unsigned_iff) simp
    then have "bit (unat a + k * 4096) n" by (simp only: u [OF that(1)])
    moreover have "unat a + k * 4096 < 2 ^ 48"
    proof -
      have "k * 4096 \<le> i * 4096" using that(1) by simp
      then show ?thesis using assms(2) by simp
    qed
    then have "unat a + k * 4096 < 2 ^ n" using that(2)
      by (meson less_le_trans one_le_numeral power_increasing)
    ultimately show False by (metis bit_take_bit_iff less_irrefl take_bit_nat_eq_self)
  qed
  have al: "aligned 12 ?x" "aligned 12 ?y" using assms(1) by (auto intro: aligned_add aligned_push_bit)
  have "bit ?x n = bit ?y n" for n
    using p al small [of i n] small [of j n] assms(3)
    by (cases "n < 12"; cases "n < 48") (auto simp: same_path_bits aligned_iff_bits not_less)
  then have "?x = ?y" by (simp add: bit_eq_iff)
  then have "unat a + i * 4096 = unat a + j * 4096" using u [of i] u [of j] assms(3) by simp
  then show False using assms(3) by simp
qed

section \<open>mem_map_va and mem_unmap_va\<close>

lemma pages_left_less: "pages_left lim (Suc n) s \<Longrightarrow> mem_next_pa s < lim"
  by (simp add: pages_left_def word_less_nat_alt)

lemma maps_page_left:
  "maps_page lim va pa k s s' \<Longrightarrow> pages_left lim (k + n) s \<Longrightarrow> pages_left lim n s'"
  by (auto simp: maps_page_def pages_left_def algebra_simps)

lemma mem_map_va_maps:
  assumes inv: "pt_inv lim s" and room: "pages_left lim 4 s" and us: "usable lim s va"
    and at: "tblattr AND DESC_ADDR = 0" "pgattr AND DESC_ADDR = 0"
  shows "\<exists>s'. mem_map_va va tblattr pgattr s = Some s' \<and> maps_page lim va (mem_next_pa s) 4 s s' \<and>
           mem_lookup_pa va s' = mem_next_pa s \<and> mem_next_pa s < mem_next_pa s'"
proof -
  define s1 where "s1 = s\<lparr>mem_next_pa := mem_next_pa s + PAGE_SIZE\<rparr>"
  have wf: "pt_wf lim s" "pt_ident s" using inv by (auto simp: pt_inv_def)
  have lt: "mem_next_pa s < lim" using room pages_left_less [of lim 3 s] by (simp add: eval_nat_numeral)
  note ap = alloc_pool [OF wf(1) lt, folded s1_def]
  have inv1: "pt_inv lim s1" using ap(6,7) wf by (simp add: pt_inv_def)
  have "unat (mem_next_pa s) < 2 ^ 36"
    using lt wf(1) by (auto simp: pt_wf_def word_less_nat_alt word_le_nat_alt)
  then have nx: "unat (mem_next_pa s1) = unat (mem_next_pa s) + 4096"
    by (simp add: s1_def PAGE_SIZE_def unat_add_small)
  have room1: "pages_left lim 3 s1" using room by (simp add: pages_left_def nx)
  have us1: "usable lim s1 v" if "usable lim s v" for v
    using that ap(3,5) unfolding usable_def reserved_def by blast
  have lk: "mem_lookup_pa v s1 = mem_lookup_pa v s" for v by (simp only: mem_lookup_pa_walk ap(4))
  have keep: "mem_pgtbl_base s1 = mem_pgtbl_base s" "mem_heap_pool s1 = mem_heap_pool s"
    by (simp_all add: s1_def)
  obtain s' where s': "mem_map_pa va (mem_next_pa s) tblattr pgattr s1 = Some s'"
      "maps_page lim va (mem_next_pa s) 3 s1 s'"
    using mem_map_pa_maps [OF inv1 room1 us1 [OF us] at] by blast
  have fr: "mem_next_pa s AND DESC_ADDR = mem_next_pa s"
    using in_pool_frame [OF wf(1) ap(1)] by (simp add: page_frame_def)
  have "maps_page lim va (mem_next_pa s) 4 s s'"
    using s'(2) us1 nx ap(2) by (auto simp: maps_page_def lk keep)
  moreover have "mem_next_pa s < mem_next_pa s'" using s'(2) ap(2) by (auto simp: maps_page_def)
  moreover have "mem_map_va va tblattr pgattr s = Some s'"
    using s'(1) by (simp add: mem_map_va_def mem_allocate_pa_def s1_def)
  moreover have "mem_lookup_pa va s' = mem_next_pa s" using s'(2) fr by (simp add: maps_page_def)
  ultimately show ?thesis by blast
qed

lemma unmap_levels_walk:
  "walk s va (4 - n) = Some pa \<Longrightarrow> n \<le> 4 \<Longrightarrow>
   unmap_levels n va pa pte s =
     (case walk s va 4 of None \<Rightarrow> (- 1, s)
      | Some _ \<Rightarrow> (0, wr64 (if n = 0 then pte else slot (the (walk s va 3)) va 3) 0 s))"
proof (induction n arbitrary: pa pte)
  case 0
  then show ?case by (simp del: tbl.simps)
next
  case (Suc n)
  have e: "4 - n = Suc (4 - Suc n)" using Suc.prems(2) by simp
  show ?case
  proof (cases "rd64 s (slot pa va (4 - Suc n)) AND 1 = 0")
    case True
    then have "walk s va (4 - n) = None" using Suc.prems e by (simp add: rd64_def)
    then have "walk s va 4 = None" using walk_None_mono [of s va "4 - n" 4] by simp
    then show ?thesis using True by (simp add: slot_def Let_def del: tbl.simps)
  next
    case False
    then have w: "walk s va (4 - n) = Some (rd64 s (slot pa va (4 - Suc n)) AND DESC_ADDR)"
      using Suc.prems e by (simp add: rd64_def)
    have "unmap_levels (Suc n) va pa pte s =
        unmap_levels n va (rd64 s (slot pa va (4 - Suc n)) AND DESC_ADDR) (slot pa va (4 - Suc n)) s"
      using False by (simp add: slot_def Let_def del: tbl.simps)
    also have "\<dots> = (case walk s va 4 of None \<Rightarrow> (- 1, s)
      | Some _ \<Rightarrow> (0, wr64 (if n = 0 then slot pa va (4 - Suc n) else slot (the (walk s va 3)) va 3) 0 s))"
      by (rule Suc.IH [OF w]) (use Suc.prems(2) in simp)
    also have "(if n = 0 then slot pa va (4 - Suc n) else slot (the (walk s va 3)) va 3) =
        slot (the (walk s va 3)) va 3"
      using Suc.prems(1) by (cases n) (simp_all del: tbl.simps)
    finally show ?thesis by (simp del: tbl.simps)
  qed
qed

lemma mem_unmap_va_walk:
  "mem_unmap_va va s = (case walk s va 4 of None \<Rightarrow> (- 1, s)
     | Some _ \<Rightarrow> (0, wr64 (slot (the (walk s va 3)) va 3) 0 s))"
  using unmap_levels_walk [of s va 4] by (simp add: mem_unmap_va_def)

lemma walk_frame: "pt_wf lim s \<Longrightarrow> walk s va i = Some t \<Longrightarrow> page_frame t"
  using tbl_frame [of "mem_pgtbl_base s"] by (auto simp: pt_wf_def)

lemma page_frame_neq_minus1: "page_frame t \<Longrightarrow> t \<noteq> - 1"
  by (auto simp: page_frame_def DESC_ADDR_def)

text \<open>A valid translation is never \<open>-1\<close>, so \<open>-1\<close> means that the walk failed.\<close>

lemma mem_lookup_pa_minus1: "pt_wf lim s \<Longrightarrow> mem_lookup_pa va s = - 1 \<longleftrightarrow> walk s va 4 = None"
  using walk_frame [of lim s va 4] page_frame_neq_minus1
  by (auto simp: mem_lookup_pa_walk simp del: tbl.simps split: option.splits)

lemma mem_unmap_va_unmaps:
  assumes inv: "pt_inv lim s" and us: "usable lim s va" and mapped: "mem_lookup_pa va s \<noteq> - 1"
  shows "\<exists>s'. mem_unmap_va va s = (0, s') \<and> pt_inv lim s' \<and> mem_lookup_pa va s' = - 1 \<and>
           mem_next_pa s' = mem_next_pa s \<and> mem_heap_pool s' = mem_heap_pool s \<and>
           (\<forall>v. usable lim s' v = usable lim s v) \<and>
           (\<forall>v. \<not> same_path 4 va v \<longrightarrow> mem_lookup_pa v s' = mem_lookup_pa v s)"
proof -
  have wf: "pt_wf lim s" "pt_ident s" using inv by (auto simp: pt_inv_def)
  obtain q where q: "walk s va 4 = Some q"
    using mapped mem_lookup_pa_minus1 [OF wf(1)] by (cases "walk s va 4") (auto simp del: tbl.simps)
  then obtain u where u: "walk s va 3 = Some u" using tbl_less_some [OF q, of 3] by auto
  define s' where "s' = wr64 (slot u va 3) 0 s"
  have none: "(0::u64) AND 1 \<noteq> 0 \<and> (0::u64) AND DESC_ADDR = t" if "is_table s t" "same_path 4 va t" for t
    using us that same_path_sym by (auto simp: usable_def reserved_def)
  note lg = leaf_grows [OF wf u none, folded s'_def] and lw = leaf_walk [OF wf(1) u, where d = 0, folded s'_def]
  have wf': "pt_wf lim s'" by (rule lg(1))
  have "mem_unmap_va va s = (0, s')" by (simp add: mem_unmap_va_walk q u s'_def del: tbl.simps)
  moreover have "pt_inv lim s'" using lg by (simp add: pt_inv_def)
  moreover have "mem_lookup_pa va s' = - 1" using lw(3) [of va] by (simp add: mem_lookup_pa_walk del: tbl.simps)
  moreover have "mem_lookup_pa v s' = mem_lookup_pa v s" if "\<not> same_path 4 va v" for v
    using lw(2) [OF that] by (simp only: mem_lookup_pa_walk)
  moreover have "usable lim s' v = usable lim s v" for v
    using lg(3) by (simp add: usable_def reserved_def s'_def)
  ultimately show ?thesis by (simp add: s'_def)
qed

section \<open>The paging interface on AArch64\<close>

definition page_attr :: "bool \<Rightarrow> u64" where
  "page_attr priv = (if priv then PTE_PRIV_RW else PTE_USER_RW)"

lemma page_attr_addr: "page_attr priv AND DESC_ADDR = 0"
  by (simp add: page_attr_def DESC_ADDR_def c_const)

lemma next_pa_frame: "pt_inv lim s \<Longrightarrow> pages_left lim (Suc n) s \<Longrightarrow> mem_next_pa s AND DESC_ADDR = mem_next_pa s"
  using alloc_pool(1) [of lim s] in_pool_frame [of lim s] pages_left_less [of lim n s]
  by (auto simp: pt_inv_def page_frame_def)

lemma lookup_minus1_unmap: "mem_lookup_pa va s = - 1 \<Longrightarrow> pt_wf lim s \<Longrightarrow> mem_unmap_va va s = (- 1, s)"
  using mem_lookup_pa_minus1 [of lim s va] by (simp add: mem_unmap_va_walk del: tbl.simps)

lemma pager_map:
  assumes "pt_inv lim s" "pages_left lim (4 * Suc n) s" "usable lim s va"
  shows "\<exists>s'. mem_map_pa va pa 0 (page_attr priv) s = Some s' \<and> pt_inv lim s' \<and> pages_left lim (4 * n) s' \<and>
     mem_lookup_pa va s' = pa AND DESC_ADDR \<and> mem_heap_pool s' = mem_heap_pool s \<and>
     (\<forall>v. usable lim s v \<longrightarrow> usable lim s' v \<and> (\<not> same_path 4 va v \<longrightarrow> mem_lookup_pa v s' = mem_lookup_pa v s))"
proof -
  have left: "pages_left lim 3 s" "pages_left lim (3 + 4 * n) s" using assms(2) by (auto simp: pages_left_def)
  show ?thesis
    using mem_map_pa_maps [OF assms(1) left(1) assms(3) _ page_attr_addr, of 0 pa priv] maps_page_left [OF _ left(2)]
    by (fastforce simp: maps_page_def)
qed

lemma pager_map_va:
  assumes "pt_inv lim s" "pages_left lim (4 * Suc n) s" "usable lim s va"
  shows "\<exists>s'. mem_map_va va 0 (page_attr priv) s = Some s' \<and> pt_inv lim s' \<and> pages_left lim (4 * n) s' \<and>
     mem_lookup_pa va s' = mem_next_pa s AND DESC_ADDR \<and> mem_next_pa s < mem_next_pa s' \<and>
     mem_heap_pool s' = mem_heap_pool s \<and>
     (\<forall>v. usable lim s v \<longrightarrow> usable lim s' v \<and> (\<not> same_path 4 va v \<longrightarrow> mem_lookup_pa v s' = mem_lookup_pa v s))"
proof -
  have left: "pages_left lim 4 s" "pages_left lim (4 + 4 * n) s" using assms(2) by (auto simp: pages_left_def)
  show ?thesis
    using mem_map_va_maps [OF assms(1) left(1) assms(3) _ page_attr_addr, of 0 priv] maps_page_left [OF _ left(2)]
    by (fastforce simp: maps_page_def)
qed

text \<open>The invariant the interface carries, and its laws on the code of this file.\<close>

interpretation aarch64: strict_unmapper "pt_inv lim" "\<lambda>n. pages_left lim (4 * n)" "usable lim" "same_path 4"
    "\<lambda>va pa. mem_map_pa va pa 0 (page_attr priv)" "\<lambda>va. mem_map_va va 0 (page_attr priv)"
    mem_unmap_va mem_lookup_pa "\<lambda>va pa. pa AND DESC_ADDR" mem_next_pa mem_heap_pool
  for lim priv
proof (unfold_locales, goal_cases)
  case (1 v u)
  then show ?case by (rule same_path_sym)
next
  case (2 s n va pa)
  then show ?case by (rule pager_map)
next
  case (3 s n va)
  then show ?case by (rule pager_map_va)
next
  case (4 s n va)
  then show ?case using mem_unmap_va_unmaps [of lim s va] by (auto simp: pages_left_def)
next
  case (5 s va)
  then show ?case by (intro lookup_minus1_unmap [of va s lim]) (simp_all add: pt_inv_def)
qed

interpretation aarch64_heap: heap_loop "pt_inv lim" "\<lambda>n. pages_left lim (4 * n)" "usable lim" "same_path 4"
    "\<lambda>va pa. mem_map_pa va pa 0 (page_attr False)" "\<lambda>va. mem_map_va va 0 (page_attr False)"
    mem_unmap_va mem_lookup_pa "\<lambda>va pa. pa AND DESC_ADDR" mem_next_pa mem_heap_pool heap_map_loop
  for lim
proof (unfold_locales, goal_cases)
  case (1 off len s)
  then show ?case by (subst heap_map_loop.simps) (simp add: page_attr_def)
next
  case (2 s n w)
  then show ?case by (auto intro: next_pa_frame [of lim s "3 + 4 * n"])
qed

text \<open>The heap pointer is no part of the tables.\<close>

lemma heap_pool_update:
  "mem_lookup_pa v (s\<lparr>mem_heap_pool := h\<rparr>) = mem_lookup_pa v s"
  "pt_inv lim (s\<lparr>mem_heap_pool := h\<rparr>) = pt_inv lim s"
  "usable lim (s\<lparr>mem_heap_pool := h\<rparr>) v = usable lim s v"
  by (simp_all add: mem_lookup_pa_walk pt_inv_def pt_wf_def pt_ident_def is_table_def in_pool_def
      zero_page_def rd64_def usable_def reserved_def)

section \<open>Properties\<close>

text \<open>C6: a call of \<open>mem_map_pa\<close> on a page that holds no table and is not waiting in the
  pool returns, and afterwards the page translates to the physical page of the argument,
  every other usable page translates as before, the invariant of the tables holds again and
  at most three pages of the pool were taken (for the three table levels).\<close>

theorem mem_map_pa_correct:
  assumes "pt_inv lim s" "pages_left lim 3 s" "usable lim s va"
    and "tblattr AND DESC_ADDR = 0" "pgattr AND DESC_ADDR = 0"
  shows "\<exists>s'. mem_map_pa va pa tblattr pgattr s = Some s' \<and>
           pt_inv lim s' \<and> mem_lookup_pa va s' = pa AND DESC_ADDR \<and>
           (\<forall>v. usable lim s v \<longrightarrow> usable lim s' v \<and>
              (\<not> same_path 4 va v \<longrightarrow> mem_lookup_pa v s' = mem_lookup_pa v s)) \<and>
           mem_heap_pool s' = mem_heap_pool s \<and>
           unat (mem_next_pa s') \<le> unat (mem_next_pa s) + 3 * 4096"
  using mem_map_pa_maps [OF assms, of pa] by (fastforce simp: maps_page_def)

text \<open>C7: \<open>mem_unmap_va\<close> of a mapped usable page returns 0, removes that translation and no
  other, and keeps the invariant; of an unmapped page it returns -1 and changes nothing.\<close>

theorem mem_unmap_va_correct:
  assumes "pt_inv lim s" "usable lim s va"
  shows "if mem_lookup_pa va s = - 1 then mem_unmap_va va s = (- 1, s)
         else \<exists>s'. mem_unmap_va va s = (0, s') \<and> pt_inv lim s' \<and> mem_lookup_pa va s' = - 1 \<and>
                (\<forall>v. \<not> same_path 4 va v \<longrightarrow> mem_lookup_pa v s' = mem_lookup_pa v s)"
  using mem_unmap_va_unmaps [OF assms] aarch64.unmap_va_fails [OF assms(1)] by auto

text \<open>C8: \<open>mem_heap_allocate\<close> returns the old pool address, advances the pool by the length
  rounded up to pages, and backs every page of the block by a physical page of its own,
  taken from the free pages.\<close>

theorem mem_heap_allocate_backs:
  assumes inv: "pt_inv lim s" and al: "aligned 12 (mem_heap_pool s)"
    and n: "n = (unat len + 4095) div 4096" and top: "unat (mem_heap_pool s) + n * 4096 \<le> 2 ^ 48"
    and us: "\<forall>i<n. usable lim s (mem_heap_pool s + push_bit 12 (of_nat i))" and room: "pages_left lim (4 * n) s"
  shows "\<exists>s'. mem_heap_allocate len s = Some (mem_heap_pool s, s') \<and> pt_inv lim s' \<and>
           mem_heap_pool s' = mem_heap_pool s + push_bit 12 (of_nat n) \<and>
           (\<forall>i<n. mem_next_pa s \<le> mem_lookup_pa (mem_heap_pool s + push_bit 12 (of_nat i)) s' \<and>
              mem_lookup_pa (mem_heap_pool s + push_bit 12 (of_nat i)) s' < mem_next_pa s' \<and>
              (\<forall>j<i. mem_lookup_pa (mem_heap_pool s + push_bit 12 (of_nat j)) s' <
                     mem_lookup_pa (mem_heap_pool s + push_bit 12 (of_nat i)) s'))"
proof -
  have u: "unat (push_bit 12 (of_nat i) :: u64) = i * 4096" if "i \<le> n" for i
  proof -
    have "i * 4096 < 2 ^ 64" using that top mult_le_mono1 [OF that, of 4096] by simp
    moreover have "push_bit 12 (of_nat i :: u64) = of_nat (i * 4096)" by (simp add: push_bit_eq_mult)
    ultimately show ?thesis by (simp only: unat_of_nat_u64)
  qed
  have less: "push_bit 12 (of_nat i) < len" if "i < n" for i
    using u [of i] that n by (simp add: word_less_nat_alt)
  have last: "len \<le> push_bit 12 (of_nat (0 + n))"
    using u [of n] n by (simp add: word_le_nat_alt)
  have apart: "\<not> same_path 4 (mem_heap_pool s + push_bit 12 (of_nat i)) (mem_heap_pool s + push_bit 12 (of_nat j))"
    if "i < n" "j < i" for i j
  proof (rule page_path_distinct [OF al _ that(2)])
    show "unat (mem_heap_pool s) + Suc i * 4096 \<le> 2 ^ 48"
      using top mult_le_mono1 [of "Suc i" n 4096] that(1) by simp
  qed
  obtain s' where "heap_map_loop (push_bit 12 (of_nat 0)) len s = Some (push_bit 12 (of_nat (0 + n)), s')"
    "pt_inv lim s'" "mem_heap_pool s' = mem_heap_pool s"
    "\<forall>i\<in>{0..<0 + n}. mem_next_pa s \<le> mem_lookup_pa (mem_heap_pool s + push_bit 12 (of_nat i)) s' \<and>
       mem_lookup_pa (mem_heap_pool s + push_bit 12 (of_nat i)) s' < mem_next_pa s' \<and>
       (\<forall>j\<in>{0..<i}. mem_lookup_pa (mem_heap_pool s + push_bit 12 (of_nat j)) s' <
          mem_lookup_pa (mem_heap_pool s + push_bit 12 (of_nat i)) s')"
    using aarch64_heap.loop_maps [OF inv room, of 0 len] us less apart last by auto
  then show ?thesis
    by (simp add: mem_heap_allocate_def heap_pool_update)
qed

end
