(* ===== verification/PageTableDemo.thy ===== *)
theory PageTableDemo
  imports PageTableOps
begin

text \<open>
  A concrete address space for the closed instances of the page-table properties: one table
  per level at 0x1000 to 0x4000, the four of them identity mapped, free pages from 0x5000
  up to 0x80000 and the heap at 0x40000000.
\<close>

definition demo_mem :: mem where
  "demo_mem = foldr (\<lambda>(t, k, d). store64 (slot t (push_bit 12 k) 3) d)
     [(0x1000, 0, 0x2003), (0x2000, 0, 0x3003), (0x3000, 0, 0x4003),
      (0x4000, 1, 0x1003), (0x4000, 2, 0x2003), (0x4000, 3, 0x3003), (0x4000, 4, 0x4003)] (\<lambda>_. 0)"

definition demo_mm :: mm where
  "demo_mm = \<lparr>mem_pgtbl_base = 0x1000, mem_next_pa = 0x5000, mem_next_l1_page = 0,
     mem_heap_pool = 0x40000000, mem_bytes = demo_mem\<rparr>"

lemma load64_store64_slot:
  assumes "aligned 12 t" "aligned 12 u"
  shows "load64 (store64 (slot u v j) d m) (slot t va i) =
     (if t = u \<and> pt_index va i = pt_index v j then d else load64 m (slot t va i))"
  using load64_store64_other [OF slot_aligned slot_aligned, of u t v j va i] assms slot_eq [OF assms, of va i v j]
  by auto

lemma load64_zero: "load64 (\<lambda>_. 0) a = 0"
  by (simp add: load64_def loadn_zero)

lemma demo_load:
  assumes "aligned 12 t"
  shows "load64 demo_mem (slot t va i) =
    (if t = 0x1000 \<and> pt_index va i = 0 then 0x2003
     else if t = 0x2000 \<and> pt_index va i = 0 then 0x3003
     else if t = 0x3000 \<and> pt_index va i = 0 then 0x4003
     else if t = 0x4000 \<and> pt_index va i = 1 then 0x1003
     else if t = 0x4000 \<and> pt_index va i = 2 then 0x2003
     else if t = 0x4000 \<and> pt_index va i = 3 then 0x3003
     else if t = 0x4000 \<and> pt_index va i = 4 then 0x4003 else 0)"
proof -
  have al: "aligned 12 0x1000" "aligned 12 0x2000" "aligned 12 0x3000" "aligned 12 0x4000"
    by (simp_all add: aligned_def take_bit_eq_mask mask_eq_exp_minus_1)
  show ?thesis
    unfolding demo_mem_def
    by (simp only: foldr.simps prod.case comp_apply id_apply load64_store64_slot [OF assms al(1)]
        load64_store64_slot [OF assms al(2)] load64_store64_slot [OF assms al(3)]
        load64_store64_slot [OF assms al(4)] load64_zero list.case)
       (simp add: pt_index_def cong: if_cong)
qed

lemma demo_walk:
  "walk demo_mm va 1 = (if pt_index va 0 = 0 then Some 0x2000 else None)"
  "walk demo_mm va 2 = (if pt_index va 0 = 0 \<and> pt_index va 1 = 0 then Some 0x3000 else None)"
  "walk demo_mm va 3 = (if pt_index va 0 = 0 \<and> pt_index va 1 = 0 \<and> pt_index va 2 = 0 then Some 0x4000 else None)"
  "walk demo_mm va 4 = (if pt_index va 0 = 0 \<and> pt_index va 1 = 0 \<and> pt_index va 2 = 0 \<and>
      pt_index va 3 \<in> {1, 2, 3, 4} then Some (push_bit 12 (pt_index va 3)) else None)"
proof -
  have al: "aligned 12 0x1000" "aligned 12 0x2000" "aligned 12 0x3000" "aligned 12 0x4000"
    by (simp_all add: aligned_def take_bit_eq_mask mask_eq_exp_minus_1)
  show 1: "walk demo_mm va 1 = (if pt_index va 0 = 0 then Some 0x2000 else None)"
    by (simp add: demo_mm_def demo_load [OF al(1)] DESC_ADDR_def)
  have 1: "walk demo_mm va (Suc 0) = (if pt_index va 0 = 0 then Some 0x2000 else None)" using 1 by simp
  have e: "2 = Suc (Suc 0)" "3 = Suc 2" "4 = Suc 3" by simp_all
  show 2: "walk demo_mm va 2 = (if pt_index va 0 = 0 \<and> pt_index va 1 = 0 then Some 0x3000 else None)"
    unfolding e(1) tbl.simps(2) [of _ _ _ "Suc 0"] 1
    by (simp add: demo_mm_def demo_load [OF al(2)] DESC_ADDR_def)
  show 3: "walk demo_mm va 3 = (if pt_index va 0 = 0 \<and> pt_index va 1 = 0 \<and> pt_index va 2 = 0 then Some 0x4000 else None)"
    unfolding e(2) tbl.simps(2) [of _ _ _ 2] 2
    by (simp add: demo_mm_def demo_load [OF al(3)] DESC_ADDR_def)
  show "walk demo_mm va 4 = (if pt_index va 0 = 0 \<and> pt_index va 1 = 0 \<and> pt_index va 2 = 0 \<and>
      pt_index va 3 \<in> {1, 2, 3, 4} then Some (push_bit 12 (pt_index va 3)) else None)"
    unfolding e(3) tbl.simps(2) [of _ _ _ 3] 3
    by (simp add: demo_mm_def demo_load [OF al(4)] DESC_ADDR_def)
qed

lemma demo_table: "is_table demo_mm t \<longleftrightarrow> t \<in> {0x1000, 0x2000, 0x3000, 0x4000}"
proof -
  have lv: "i \<le> 3 \<longleftrightarrow> i = 0 \<or> i = 1 \<or> i = 2 \<or> i = 3" for i :: nat by arith
  have b: "walk demo_mm va 0 = Some 0x1000" for va by (simp add: demo_mm_def)
  have z: "pt_index 0 i = 0" for i by (simp add: pt_index_def)
  have "\<exists>va i. i \<le> 3 \<and> walk demo_mm va i = Some t" if "t \<in> {0x1000, 0x2000, 0x3000, 0x4000}"
    using that b [of 0] demo_walk(1-3) [of 0] z by (metis One_nat_def insertE lv singletonD)
  moreover have "t \<in> {0x1000, 0x2000, 0x3000, 0x4000}" if "i \<le> 3" "walk demo_mm va i = Some t" for va i
    using that demo_walk(1-3) [of va] b [of va] by (auto simp: lv split: if_splits simp del: tbl.simps)
  ultimately show ?thesis unfolding is_table_def by blast
qed

lemma all_less_3: "(\<forall>k<3. P k) \<longleftrightarrow> P 0 \<and> P 1 \<and> P (2 :: nat)"
  by (auto simp: less_Suc_eq eval_nat_numeral)

lemma demo_level: "i \<le> 3 \<Longrightarrow> walk demo_mm va i = Some t \<Longrightarrow> unat t = 4096 * Suc i \<and> (\<forall>k<i. pt_index va k = 0)"
proof -
  assume i: "i \<le> 3" and w: "walk demo_mm va i = Some t"
  then consider "i = 0" | "i = 1" | "i = 2" | "i = 3" by linarith
  then show ?thesis
  proof cases
    case 1
    then show ?thesis using w by (simp add: demo_mm_def)
  next
    case 2
    then show ?thesis using w by (simp only: demo_walk) (auto split: if_splits)
  next
    case 3
    then show ?thesis using w by (simp only: demo_walk) (auto split: if_splits simp: less_2_cases_iff)
  next
    case 4
    then show ?thesis using w by (simp only: demo_walk) (auto split: if_splits simp: all_less_3)
  qed
qed

lemma demo_tree: "tree_tables (mem_bytes demo_mm) (mem_pgtbl_base demo_mm)"
  unfolding tree_tables_def same_path_def using demo_level by (metis Suc_inject mult_left_cancel zero_neq_numeral)

lemma low_index:
  assumes "(t :: u64) < 0x80000" "i \<le> 2"
  shows "pt_index t i = 0"
proof -
  have "drop_bit 19 (of_nat (unat t) :: u64) = 0"
    using assms(1) by (intro drop_bit_of_nat_small) (simp add: word_less_nat_alt)
  then have "\<not> bit t n" if "19 \<le> n" for n using drop_bit_zero_bits [of 19 t n] that by simp
  then show ?thesis using assms(2) by (intro bit_word_eqI) (simp add: bit_pt_index)
qed

lemma demo_low: "is_table demo_mm t \<or> in_pool 0x80000 demo_mm t \<Longrightarrow> t < 0x80000"
  by (auto simp: demo_table in_pool_def)

lemma demo_inv: "pt_inv 0x80000 demo_mm"
proof -
  have pool: "zero_page demo_mm p \<and> \<not> is_table demo_mm p \<and> walk demo_mm p 3 \<noteq> None"
    if p: "in_pool 0x80000 demo_mm p" for p
  proof -
    have lo: "0x5000 \<le> p" "aligned 12 p" using p by (auto simp: in_pool_def demo_mm_def)
    then have ne: "p \<noteq> 0x1000" "p \<noteq> 0x2000" "p \<noteq> 0x3000" "p \<noteq> 0x4000" by auto
    have "p < 0x80000" using demo_low p by blast
    then have "walk demo_mm p 3 \<noteq> None" using low_index [of p] by (simp add: demo_walk del: tbl.simps)
    moreover have "zero_page demo_mm p"
      using ne demo_load [OF lo(2)] by (simp add: zero_page_def rd64_def demo_mm_def)
    ultimately show ?thesis using ne by (simp add: demo_table del: tbl.simps)
  qed
  have "aligned 12 (mem_next_pa demo_mm)" "page_frame (mem_pgtbl_base demo_mm)"
    by (simp_all add: demo_mm_def aligned_def take_bit_eq_mask mask_eq_exp_minus_1 page_frame_def DESC_ADDR_def)
  then have wf: "pt_wf 0x80000 demo_mm" using pool demo_tree by (simp add: pt_wf_def del: tbl.simps)
  have id: "walk demo_mm t 4 = Some t" if "t \<in> {0x1000, 0x2000, 0x3000, 0x4000}" for t
    using that by (auto simp: demo_walk pt_index_def simp del: tbl.simps)
  then have "pt_ident demo_mm" using demo_table unfolding pt_ident_def by blast
  with wf show ?thesis by (simp add: pt_inv_def)
qed

lemma demo_usable: "pt_index va 1 \<noteq> 0 \<Longrightarrow> usable 0x80000 demo_mm va"
  unfolding usable_def reserved_def
proof clarify
  fix t assume ne: "pt_index va 1 \<noteq> 0" and "is_table demo_mm t \<or> in_pool 0x80000 demo_mm t" and p: "same_path 4 t va"
  then have "pt_index t 1 = 0" using demo_low low_index by simp
  moreover have "pt_index t 1 = pt_index va 1" using p by (simp add: same_path_def)
  ultimately show False using ne by simp
qed

lemma demo_pages: "n \<le> 16 \<Longrightarrow> pages_left 0x80000 n demo_mm"
  by (simp add: pages_left_def demo_mm_def)

lemma mem_map_pa_correct_witness:
  "\<exists>s'. mem_map_pa 0x80000000 0x40001234 0 PTE_USER_RW demo_mm = Some s' \<and> pt_inv 0x80000 s' \<and>
     mem_lookup_pa 0x80000000 s' = 0x40001000"
proof -
  have us: "usable 0x80000 demo_mm 0x80000000" by (rule demo_usable) (simp add: pt_index_def)
  show ?thesis
    using mem_map_pa_correct [OF demo_inv demo_pages us, where tblattr = 0 and pgattr = PTE_USER_RW and pa = "0x40001234"]
    by (auto simp: DESC_ADDR_def PTE_USER_RW_addr [unfolded DESC_ADDR_def])
qed

lemma mem_unmap_va_correct_witness:
  "\<exists>s1 s2. mem_map_pa 0x80000000 0x40001234 0 PTE_USER_RW demo_mm = Some s1 \<and>
     mem_unmap_va 0x80000000 s1 = (0, s2) \<and> mem_lookup_pa 0x80000000 s2 = - 1"
proof -
  have us: "usable 0x80000 demo_mm 0x80000000" by (rule demo_usable) (simp add: pt_index_def)
  obtain s1 where s1: "mem_map_pa 0x80000000 0x40001234 0 PTE_USER_RW demo_mm = Some s1"
    "pt_inv 0x80000 s1" "mem_lookup_pa 0x80000000 s1 = 0x40001000" "usable 0x80000 s1 0x80000000"
    using mem_map_pa_maps [OF demo_inv demo_pages us, where tblattr = 0 and pgattr = PTE_USER_RW and pa = "0x40001234"] us
    by (auto simp: DESC_ADDR_def PTE_USER_RW_addr [unfolded DESC_ADDR_def] maps_page_def)
  then show ?thesis using mem_unmap_va_correct [OF s1(2,4)] by auto
qed

lemma mem_heap_allocate_backs_witness:
  "\<exists>s'. mem_heap_allocate 0x1234 demo_mm = Some (0x40000000, s') \<and> mem_heap_pool s' = 0x40002000"
proof -
  have "pt_index 0x40000000 1 \<noteq> 0" "pt_index 0x40001000 1 \<noteq> 0" by (simp_all add: pt_index_def)
  then have "usable 0x80000 demo_mm 0x40000000" "usable 0x80000 demo_mm 0x40001000"
    by (blast intro: demo_usable)+
  then have us: "\<forall>i<2. usable 0x80000 demo_mm (mem_heap_pool demo_mm + push_bit 12 (of_nat i))"
    by (simp add: demo_mm_def less_2_cases_iff)
  show ?thesis
    using mem_heap_allocate_backs [OF demo_inv _ _ _ us demo_pages, where len = "0x1234"]
    by (auto simp: demo_mm_def aligned_def take_bit_eq_mask mask_eq_exp_minus_1)
qed

end
