(* ===== verification/El3Proofs.thy ===== *)
theory El3Proofs
  imports El3 MonitorProofs PageTableDemo
begin

text \<open>
  The EL3 handlers: what each SMC operation does to the descriptor, the registers and the
  secure state, when control moves to the other world, that EL3's own idea of the secure state
  agrees with SCR_EL3 at every return, and what the exception handler logs and skips.
\<close>

section \<open>Shared facts\<close>

lemma cpu_upd_cpu [simp]: "cpu_of (upd_cpu f s) = f (cpu_of s)"
  by (simp add: upd_cpu_def)

lemma upd_cpu_frame [simp]:
  "secure_state (upd_cpu f s) = secure_state s" "el3_mm (upd_cpu f s) = el3_mm s"
  "syscntl (upd_cpu f s) = syscntl s" "cfgctrl (upd_cpu f s) = cfgctrl s"
  "wfi_count (upd_cpu f s) = wfi_count s" "el3_ran (upd_cpu f s) = el3_ran s"
  "sec_state (el3_mon (upd_cpu f s)) = sec_state (el3_mon s)"
  "nsec_state (el3_mon (upd_cpu f s)) = nsec_state (el3_mon s)"
  "syscntl_va (upd_cpu f s) = syscntl_va s" "smc_interop_buf (upd_cpu f s) = smc_interop_buf s"
  by (simp_all add: upd_cpu_def)

lemma el3_shutdown_frame [simp]:
  "secure_state (el3_shutdown s) = secure_state s" "el3_mm (el3_shutdown s) = el3_mm s"
  "syscntl (el3_shutdown s) = syscntl s" "el3_mon (el3_shutdown s) = el3_mon s"
  "el3_ran (el3_shutdown s) = el3_ran s" "cfgctrl (el3_shutdown s) = cint SYS_SHUTDOWN"
  "wfi_count (el3_shutdown s) = wfi_count s + 1"
  by (simp_all add: el3_shutdown_def)

lemma smc_codes [simp]:
  "ucast SMC_OP_NOOP = (0 :: u64)" "ucast SMC_OP_YIELD = (1 :: u64)" "ucast SMC_OP_EXIT = (2 :: u64)"
  "ucast SMC_OP_MAP = (3 :: u64)" "ucast SMC_OP_GET_REG = (4 :: u64)" "ucast SMC_OP_SET_REG = (5 :: u64)"
  "ucast SMC_OP_TEST = (6 :: u64)" "ucast SMC_OP_DISPATCH = (7 :: u64)"
  by (simp_all add: c_const)

section \<open>Secure state\<close>

text \<open>EL3's flag agrees with SCR_EL3.NS, and EL3 can switch worlds.\<close>

definition el3_inv :: "el3 \<Rightarrow> bool" where
  "el3_inv s \<longleftrightarrow> ucast (secure_state s) = r_scr_el3 (cpu_of s) AND 1 \<and> el3_mode (cpu_of s) \<and>
     b_spsel (sec_state (el3_mon s)) AND 1 \<noteq> 0 \<and> b_spsel (nsec_state (el3_mon s)) AND 1 \<noteq> 0"

definition keeps_ns :: "u64 \<Rightarrow> op_desc \<Rightarrow> el3 \<Rightarrow> bool" where
  "keeps_ns op d s \<longleftrightarrow>
     (op = ucast SMC_OP_SET_REG \<longrightarrow> data_el d = 3 \<longrightarrow> data_key d = KEY_SCR \<longrightarrow>
        data_data d AND 1 = r_scr_el3 (cpu_of s) AND 1)"

definition smc_switches :: "u64 \<Rightarrow> op_desc \<Rightarrow> el3 \<Rightarrow> bool" where
  "smc_switches op d s \<longleftrightarrow>
     op = ucast SMC_OP_YIELD \<or> op = ucast SMC_OP_TEST \<or>
     (op = ucast SMC_OP_MAP \<and> map_type d AND OP_MAP_SEC_EL1 = OP_MAP_SEC_EL1) \<or>
     (op = ucast SMC_OP_DISPATCH \<and>
        \<not> (disp_el d = ucast EL3 \<and> disp_state d = r_scr_el3 (cpu_of s) AND 1))"

lemma el3_run_test_local:
  assumes "ucast (secure_state s) = disp_state d" "disp_el d = ucast EL3"
  shows "el3_run_test a (disp_fid d) (ucast (disp_el d)) (ucast (disp_state d)) x s =
    (if unat (disp_fid d) < length (el3_test_func a) then
       (case el3_test_func a ! unat (disp_fid d) of
          Some f \<Rightarrow> Some (s\<lparr>el3_ran := el3_ran s @ [(f, x)]\<rparr>) | None \<Rightarrow> Some s)
     else None)"
proof -
  have "ucast (disp_el d) = EL3" using assms(2) by (simp add: c_const)
  moreover have "ucast (disp_state d) = secure_state s"
    using assms(1) by (metis ucast_u32_u64)
  ultimately show ?thesis
    by (auto simp: el3_run_test_def run_test_def exception_level_el3_def split: option.splits)
qed

lemma ucast_xor_1: "(ucast (w XOR 1) :: u64) = ucast w XOR 1" for w :: u32
  by (rule bit_word_eqI) (auto simp: bit_simps)

lemma el3_shutdown_inv: "el3_inv (el3_shutdown s) = el3_inv s"
  by (simp add: el3_inv_def)

lemma el3_inv_update:
  "el3_inv (s\<lparr>el3_mm := m\<rparr>) = el3_inv s" "el3_inv (s\<lparr>el3_ran := r\<rparr>) = el3_inv s"
  "el3_inv (s\<lparr>syscntl := c\<rparr>) = el3_inv s"
  by (simp_all add: el3_inv_def)

text \<open>What the switch statement leaves of the registers that matter for a world switch.\<close>

definition same_world :: "el3 \<Rightarrow> el3 \<Rightarrow> bool" where
  "same_world s s' \<longleftrightarrow> secure_state s' = secure_state s \<and>
     r_scr_el3 (cpu_of s') AND 1 = r_scr_el3 (cpu_of s) AND 1 \<and>
     r_spsel (cpu_of s') = r_spsel (cpu_of s) \<and> r_sp_el3 (cpu_of s') = r_sp_el3 (cpu_of s) \<and>
     gpr (cpu_of s') = gpr (cpu_of s) \<and>
     sec_state (el3_mon s') = sec_state (el3_mon s) \<and> nsec_state (el3_mon s') = nsec_state (el3_mon s)"

lemma same_world_refl [simp]: "same_world s s"
  by (simp add: same_world_def)

lemma same_world_shutdown [simp]: "same_world s (el3_shutdown s)"
  by (simp add: same_world_def)

lemma same_world_inv: "same_world s s' \<Longrightarrow> el3_inv s' = el3_inv s"
  by (simp add: same_world_def el3_inv_def el3_mode_def)

lemma el3_map_mem_world:
  "el3_map_mem d s = Some (ret, d', s') \<Longrightarrow> same_world s s' \<and>
     (ret \<noteq> 0 \<longleftrightarrow> map_type d AND OP_MAP_SEC_EL1 = OP_MAP_SEC_EL1)"
  by (auto simp: el3_map_mem_def same_world_def c_const split: if_splits bind_splits)

lemma el3_set_reg_a64: "\<exists>s'. el3_set_reg AArch64 d s = Some s'"
  by (simp add: el3_set_reg_def)

lemma el3_set_reg_world: "keeps_ns 5 d s \<Longrightarrow> el3_set_reg a d s = Some s' \<Longrightarrow> same_world s s'"
  by (auto simp: keeps_ns_def el3_set_reg_def same_world_def split: if_splits)

lemma el3_run_test_world:
  assumes "el3_inv s" "disp_el d = ucast EL3" "disp_state d = r_scr_el3 (cpu_of s) AND 1"
    and "el3_run_test a (disp_fid d) (ucast (disp_el d)) (ucast (disp_state d)) x s = Some s'"
  shows "same_world s s'"
proof -
  have "ucast (secure_state s) = disp_state d" using assms by (simp add: el3_inv_def)
  then show ?thesis
    using el3_run_test_local [OF _ assms(2)] assms(4) by (auto simp: same_world_def split: option.splits if_splits)
qed

lemma el3_smc_switch_world:
  assumes inv: "el3_inv s" and ns: "keeps_ns op d s" and sw: "el3_smc_switch a op d s = Some (ret, d', s')"
  shows "same_world s s' \<and> (ret \<noteq> 0 \<longleftrightarrow> smc_switches op d s)"
proof -
  have SCR: "ucast SCR_NS = (1 :: u64)" "ucast exception_level_el3 = (ucast EL3 :: u64)" by (simp_all add: c_const)
  have nz: "SVC_OP_YIELD \<noteq> 0" "SVC_OP_DISPATCH \<noteq> 0" "SVC_OP_TEST \<noteq> 0" by (simp_all add: c_const)
  note defs = el3_smc_switch_def smc_switches_def SCR nz
  consider "op = 1" | "op = 3" | "op = 0" | "op = 2" | "op = 7" | "op = 6" | "op = 4" | "op = 5" | "op \<notin> {0, 1, 2, 3, 4, 5, 6, 7}"
    by blast
  then show ?thesis
  proof cases
    case 2
    then show ?thesis using sw el3_map_mem_world by (simp add: defs)
  next
    case 5
    then show ?thesis using sw el3_run_test_world [OF inv] by (auto simp: defs bind_eq_Some_conv split: if_splits)
  next
    case 8
    then show ?thesis using sw ns el3_set_reg_world by (auto simp: defs bind_eq_Some_conv)
  qed (use sw in \<open>auto simp: defs\<close>)
qed

lemma el3_inv_ns: "el3_inv s \<Longrightarrow> ucast (secure_state s XOR 1) = (r_scr_el3 (cpu_of s) AND 1) XOR 1"
  by (simp add: el3_inv_def ucast_xor_1)

text \<open>Setting x0, SPSR_EL3 and ELR_EL3 does not matter for the switch.\<close>

lemma monitor_switch_inv:
  assumes "ucast (secure_state s) = (r_scr_el3 (cpu_of s) AND 1) XOR 1" "el3_mode (cpu_of s)"
    and "b_spsel (sec_state (el3_mon s)) AND 1 \<noteq> 0" "b_spsel (nsec_state (el3_mon s)) AND 1 \<noteq> 0"
  shows "el3_inv (s\<lparr>el3_mon := monitor_switch (el3_mon s)\<rparr>)"
proof -
  let ?m = "el3_mon s"
  have ob: "b_spsel (other_buf ?m) AND 1 \<noteq> 0" using assms(3,4) by (simp add: other_buf_def)
  have "r_scr_el3 (mon_cpu (monitor_switch ?m)) AND 1 = (r_scr_el3 (mon_cpu ?m) AND 1) XOR 1"
    using monitor_switch_passes(1) [OF assms(2) ob] xor_1_and_1 by simp
  moreover have "b_spsel (save_regs (mon_cpu ?m) b) AND 1 \<noteq> 0" for b
    using assms(2) by (simp add: save_regs_def el3_mode_def)
  then have "b_spsel (sec_state (monitor_switch ?m)) AND 1 \<noteq> 0 \<and> b_spsel (nsec_state (monitor_switch ?m)) AND 1 \<noteq> 0"
    using monitor_switch_cases [OF assms(2) ob] assms(3,4) by (auto simp: Let_def)
  ultimately show ?thesis
    using assms(1) monitor_switch_mode [OF assms(2) ob] by (simp add: el3_inv_def)
qed

lemma el3_handle_smc_world:
  assumes "el3_inv s" "keeps_ns op d s" "el3_handle_smc a op d elr s = Some (ret, d', s')"
  obtains s1 where "el3_smc_switch a op d s = Some (ret, d', s1)" "same_world s s1"
    "ret \<noteq> 0 \<longleftrightarrow> smc_switches op d s"
    "s' = set_exception_return_el3 elr (if ret \<noteq> 0 then s1\<lparr>secure_state := secure_state s1 XOR 1\<rparr> else s1)"
  using assms el3_smc_switch_world [OF assms(1,2)]
  by (auto simp: el3_handle_smc_def Let_def bind_eq_Some_conv)

text \<open>C11: EL3 asks for a world switch exactly for the yield, the inter-level test, a mapping
  request that names secure EL1, and a dispatch to another level or world; it flips its secure
  state exactly then, sets the return address to the one of the SMC, and leaves NS to the
  monitor. The one request left out (by \<open>keeps_ns\<close>) is \<open>SMC_OP_SET_REG\<close> on SCR with another NS
  bit, which writes NS itself.\<close>

theorem el3_handle_smc_switches:
  assumes "el3_inv s" "keeps_ns op d s" "el3_handle_smc a op d elr s = Some (ret, d', s')"
  shows "(ret \<noteq> 0 \<longleftrightarrow> smc_switches op d s) \<and>
     secure_state s' = (if smc_switches op d s then secure_state s XOR 1 else secure_state s) \<and>
     r_scr_el3 (cpu_of s') AND 1 = r_scr_el3 (cpu_of s) AND 1 \<and> r_elr_el3 (cpu_of s') = elr"
proof -
  obtain s1 where s1: "same_world s s1" "ret \<noteq> 0 \<longleftrightarrow> smc_switches op d s"
    "s' = set_exception_return_el3 elr (if ret \<noteq> 0 then s1\<lparr>secure_state := secure_state s1 XOR 1\<rparr> else s1)"
    using el3_handle_smc_world [OF assms] by blast
  show ?thesis using s1 by (simp add: set_exception_return_el3_def same_world_def)
qed

lemma el3_handle_exception_world: "same_world s (snd (el3_handle_exception ec iss far elr s))"
  by (simp add: el3_handle_exception_def Let_def same_world_def set_exception_return_el3_def split: prod.splits)

text \<open>\<open>SMC_OP_SET_REG\<close> on SCR with another NS bit: EL3's flag is not told.\<close>

lemma el3_set_scr:
  assumes "\<not> keeps_ns op d s" "el3_handle_smc a op d elr s = Some (ret, d', s')"
  shows "ret = 0" "r_scr_el3 (cpu_of s') AND 1 \<noteq> r_scr_el3 (cpu_of s) AND 1" "secure_state s' = secure_state s"
proof -
  have d: "op = 5" "data_el d = 3" "data_key d = KEY_SCR" "data_data d AND 1 \<noteq> r_scr_el3 (cpu_of s) AND 1"
    using assms(1) by (simp_all add: keeps_ns_def)
  have k: "KEY_SCR \<noteq> KEY_CURRENTEL" "KEY_SCR \<noteq> KEY_CPTR_EL3" "KEY_SCR \<noteq> KEY_CPSR" "KEY_SCR \<noteq> KEY_CPACR"
    by (simp_all add: c_const)
  have "ret = 0 \<and> s' = set_exception_return_el3 elr (upd_cpu (\<lambda>c. c\<lparr>r_scr_el3 := data_data d\<rparr>) s)"
    using assms(2) d(1-3) k by (auto simp: el3_handle_smc_def el3_smc_switch_def el3_set_reg_def)
  then show "ret = 0" "r_scr_el3 (cpu_of s') AND 1 \<noteq> r_scr_el3 (cpu_of s) AND 1" "secure_state s' = secure_state s"
    using d(4) by (simp_all add: set_exception_return_el3_def)
qed

abbreviation took_smc :: "el3 \<Rightarrow> bool" where
  "took_smc s \<equiv> drop_bit 26 (r_esr_el3 (cpu_of s)) = EC_SMC64 \<or> drop_bit 26 (r_esr_el3 (cpu_of s)) = EC_SMC32"

lemma el3_sync_lower64_smc:
  assumes inv: "el3_inv s" and smc: "took_smc s" and run: "el3_sync_lower64 a d s = Some (d', s')"
  shows "el3_inv s' = keeps_ns (gpr (cpu_of s) 0) d s"
proof -
  obtain ret s1 where h: "el3_handle_smc a (gpr (cpu_of s) 0) d (r_elr_el3 (cpu_of s)) s = Some (ret, d', s1)"
    and s': "s' = (let s2 = upd_cpu (\<lambda>c. (set_reg 0 (ucast ret) c)\<lparr>r_spsr_el3 := r_spsr_el3 (cpu_of s)\<rparr>) s1
                   in if ret = 0 then s2 else s2\<lparr>el3_mon := monitor_switch (el3_mon s2)\<rparr>)"
    using run smc by (auto simp: el3_sync_lower64_def Let_def bind_eq_Some_conv)
  show ?thesis
  proof (cases "keeps_ns (gpr (cpu_of s) 0) d s")
    case ns: True
    obtain s0 where s0: "same_world s s0"
      "s1 = set_exception_return_el3 (r_elr_el3 (cpu_of s)) (if ret \<noteq> 0 then s0\<lparr>secure_state := secure_state s0 XOR 1\<rparr> else s0)"
      using el3_handle_smc_world [OF inv ns h] by blast
    have i0: "el3_inv s0" using same_world_inv [OF s0(1)] inv by simp
    have "el3_inv s'"
    proof (cases "ret = 0")
      case True
      then show ?thesis
        using i0 s' s0(2) by (simp add: el3_inv_def el3_mode_def set_exception_return_el3_def set_reg_def)
    next
      case False
      then show ?thesis
        using i0 el3_inv_ns [OF i0] s' s0(2)
        by (simp add: Let_def) (rule monitor_switch_inv, simp_all add: set_exception_return_el3_def set_reg_def el3_inv_def el3_mode_def)
    qed
    then show ?thesis using ns by simp
  next
    case False
    note f = el3_set_scr [OF False h]
    have "r_scr_el3 (cpu_of s') = r_scr_el3 (cpu_of s1)" "secure_state s' = secure_state s1"
      using s' f(1) by (simp_all add: set_reg_def)
    then show ?thesis using f inv False by (simp add: el3_inv_def)
  qed
qed

text \<open>C12: when the vector for a synchronous exception from a lower level is done, EL3's secure
  state agrees with SCR_EL3.NS and both worlds can be switched to, for every exception and every
  SMC but one: \<open>SMC_OP_SET_REG\<close> on SCR with another NS bit. That one request breaks the
  agreement, because the handler writes SCR_EL3 and does not tell \<open>secure_state\<close>.\<close>

theorem el3_sync_lower64_invariant:
  assumes inv: "el3_inv s" and run: "el3_sync_lower64 a d s = Some (d', s')"
  shows "el3_inv s' \<longleftrightarrow>
     \<not> (drop_bit 26 (r_esr_el3 (cpu_of s)) \<in> {EC_SMC64, EC_SMC32} \<and> gpr (cpu_of s) 0 = ucast SMC_OP_SET_REG \<and>
        data_el d = 3 \<and> data_key d = KEY_SCR \<and> data_data d AND 1 \<noteq> r_scr_el3 (cpu_of s) AND 1)"
proof (cases "took_smc s")
  case True
  then show ?thesis
    using el3_sync_lower64_smc [OF inv True run] True by (auto simp: keeps_ns_def)
next
  case False
  then have "s' = upd_cpu (\<lambda>c. c\<lparr>r_spsr_el3 := r_spsr_el3 (cpu_of s)\<rparr>)
      (snd (el3_handle_exception (drop_bit 26 (r_esr_el3 (cpu_of s))) (r_esr_el3 (cpu_of s) AND 0xFFFFFF)
         (r_far_el3 (cpu_of s)) (r_elr_el3 (cpu_of s)) s))"
    using run by (auto simp: el3_sync_lower64_def Let_def split: prod.splits)
  then show ?thesis
    using same_world_inv [OF el3_handle_exception_world] inv False
    by (simp add: el3_inv_def el3_mode_def)
qed

text \<open>C13: the exception handler logs only when logging is on, shuts the machine down exactly for
  aborts and classes it does not know, and returns to the next instruction exactly for a
  system-register, WFI/WFE or SIMD trap under the SKIP action.\<close>

theorem el3_handle_exception_spec:
  assumes "el3_handle_exception ec iss far elr s = (r, s')"
  shows "r = 0 \<and>
     r_elr_el3 (cpu_of s') =
       (if ec \<in> {EC_SYSINSN, EC_WFI_WFE, EC_SIMD} \<and> excp_action (excp (syscntl s)) = EXCP_ACTION_SKIP
        then elr + 4 else elr) \<and>
     wfi_count s' = (if ec \<in> {EC_SMC64, EC_SMC32, EC_SYSINSN, EC_WFI_WFE, EC_SIMD} then wfi_count s
                     else wfi_count s + 1) \<and>
     (wfi_count s' \<noteq> wfi_count s \<longrightarrow> cfgctrl s' = cint SYS_SHUTDOWN) \<and>
     excp (syscntl s') =
       (if excp_log (excp (syscntl s))
        then (excp (syscntl s))\<lparr>excp_taken := True, excp_ec := ucast ec, excp_iss := ucast iss,
               excp_far := ucast far, excp_el := EL3, excp_state := SECURE\<rparr>
        else excp (syscntl s))"
proof -
  note defs = el3_handle_exception_def Let_def set_exception_return_el3_def upd_excp_def log_excp_def c_const
  consider "ec = EC_SMC64 \<or> ec = EC_SMC32" | "ec \<in> {EC_IABORT_LOWER, EC_IABORT, EC_DABORT_LOWER, EC_DABORT}"
    | "ec \<in> {EC_SYSINSN, EC_WFI_WFE, EC_SIMD}"
    | "ec \<notin> {EC_SMC64, EC_SMC32, EC_SYSINSN, EC_WFI_WFE, EC_SIMD, EC_IABORT_LOWER, EC_IABORT, EC_DABORT_LOWER, EC_DABORT}"
    by blast
  then show ?thesis
  proof cases
    case 1
    then show ?thesis using assms by (elim disjE) (auto simp: defs)
  next
    case 2
    then show ?thesis using assms by (elim insertE) (auto simp: defs)
  next
    case 3
    then show ?thesis using assms by (elim insertE) (auto simp: defs)
  next
    case 4
    then show ?thesis using assms by (auto simp: defs)
  qed
qed

text \<open>C14: the missing \<open>break\<close> after the inter-level test is harmless as long as the descriptor
  has not passed two levels before EL3: then EL3 performs exactly its step. With a count of 2
  the step makes \<open>get.el\<close> equal to 3, and the test value is overwritten by the register the
  test's \<open>orig\<close> happens to name.\<close>

theorem el3_smc_test_fallthrough:
  assumes "el3_handle_smc a (ucast SMC_OP_TEST) d elr s = Some (ret, d', s')"
  shows "ret = SVC_OP_TEST \<and> (test_count d \<noteq> 2 \<longrightarrow> d' = test_step d) \<and>
     (test_count d = 2 \<longrightarrow> test_orig d = KEY_SCR \<longrightarrow> test_val d' = r_scr_el3 (cpu_of s))"
proof -
  have r: "ret = SVC_OP_TEST" "d' = el3_get_reg a (test_step d) s"
    using assms by (auto simp: el3_handle_smc_def el3_smc_switch_def Let_def)
  have el: "data_el (test_step d) = test_count d + 1" "data_key (test_step d) = test_orig d"
    by (simp_all add: data_el_is_test_count test_step_fields data_key_def test_orig_def [symmetric])
  have "test_val (set_data_data v x) = v" for v x by (simp add: test_val_def set_data_data_def)
  then show ?thesis
    using r el by (auto simp: el3_get_reg_def c_const) 
qed

lemma PTE_PRIV_RW_addr [simp]: "PTE_PRIV_RW AND DESC_ADDR = 0"
  by (simp add: DESC_ADDR_def c_const)

text \<open>C15: a mapping request that names EL3 is carried out in EL3's own table before anything
  else: the page translates to the requested frame, all other usable pages are untouched; and
  it is passed on to secure EL1 with the EL3 bit cleared (so that it does not come back) and
  every other member as it was.\<close>

theorem el3_handle_smc_map:
  assumes "pt_inv lim (el3_mm s)" "pages_left lim 3 (el3_mm s)" "usable lim (el3_mm s) (map_va d)"
    and "map_type d AND OP_MAP_EL3 = OP_MAP_EL3"
  shows "\<exists>ret d' s'. el3_handle_smc a (ucast SMC_OP_MAP) d elr s = Some (ret, d', s') \<and>
     pt_inv lim (el3_mm s') \<and> mem_lookup_pa (map_va d) (el3_mm s') = map_pa d AND DESC_ADDR \<and>
     (\<forall>v. usable lim (el3_mm s) v \<longrightarrow> \<not> same_path 4 (map_va d) v \<longrightarrow>
        mem_lookup_pa v (el3_mm s') = mem_lookup_pa v (el3_mm s)) \<and>
     (if map_type d AND OP_MAP_SEC_EL1 = OP_MAP_SEC_EL1
      then ret = SVC_OP_MAP \<and> map_type d' = map_type d AND NOT OP_MAP_EL3
      else ret = 0 \<and> map_type d' = map_type d) \<and>
     map_len d' = map_len d \<and> map_va d' = map_va d \<and> map_pa d' = map_pa d"
proof -
  obtain m where m: "mem_map_pa (map_va d) (map_pa d) 0 PTE_PRIV_RW (el3_mm s) = Some m"
    "maps_page lim (map_va d) (map_pa d) 3 (el3_mm s) m"
    using mem_map_pa_maps [OF assms(1-3), of 0 PTE_PRIV_RW "map_pa d"] by auto
  have "SVC_OP_MAP \<noteq> 0" by (simp add: c_const)
  then show ?thesis
    using m assms(4)
    by (auto simp: el3_handle_smc_def el3_smc_switch_def el3_map_mem_def set_exception_return_el3_def
        maps_page_def layout Let_def)
qed

end
