(* ===== verification/El3Start.thy ===== *)
theory El3Start
  imports El3Proofs
begin

text \<open>
  Start-up of the EL3 image: the loop that unmaps the init section ends and leaves none of its
  pages mapped, the control block and the interop buffer get pages of their own, and the two
  state buffers send the secure world to its image and the non-secure one to its own.
\<close>

abbreviation nth_page :: "u64 \<Rightarrow> nat \<Rightarrow> u64" where
  "nth_page a i \<equiv> a + push_bit 12 (of_nat i)"

lemma nth_page_Suc: "nth_page a (Suc i) = nth_page (a + PAGE_SIZE) i"
  by (simp add: push_bit_eq_mult PAGE_SIZE_def algebra_simps)

text \<open>Unmapping a page leaves every other translation alone or turns it into a failure.\<close>

lemma mem_unmap_va_any:
  assumes "pt_inv lim s" "usable lim s va"
  shows "pt_inv lim (snd (mem_unmap_va va s))" "mem_lookup_pa va (snd (mem_unmap_va va s)) = - 1"
    "mem_next_pa (snd (mem_unmap_va va s)) = mem_next_pa s" "mem_heap_pool (snd (mem_unmap_va va s)) = mem_heap_pool s"
    "usable lim (snd (mem_unmap_va va s)) v = usable lim s v"
    "mem_lookup_pa v s = - 1 \<Longrightarrow> mem_lookup_pa v (snd (mem_unmap_va va s)) = - 1"
proof -
  let ?s' = "snd (mem_unmap_va va s)"
  have main: "pt_inv lim ?s' \<and> mem_lookup_pa va ?s' = - 1 \<and> mem_next_pa ?s' = mem_next_pa s \<and>
      mem_heap_pool ?s' = mem_heap_pool s \<and> usable lim ?s' v = usable lim s v \<and>
      (mem_lookup_pa v s = - 1 \<longrightarrow> mem_lookup_pa v ?s' = - 1)"
  proof (cases "mem_lookup_pa va s = - 1")
    case True
    then have "mem_unmap_va va s = (- 1, s)" using assms(1) by (intro lookup_minus1_unmap [of va s lim]) (auto simp: pt_inv_def)
    then show ?thesis using assms True by simp
  next
    case False
    then obtain s' where "mem_unmap_va va s = (0, s')" "pt_inv lim s'" "mem_lookup_pa va s' = - 1"
      "mem_next_pa s' = mem_next_pa s" "mem_heap_pool s' = mem_heap_pool s" "\<And>v. usable lim s' v = usable lim s v"
      "\<And>v. \<not> same_path 4 va v \<Longrightarrow> mem_lookup_pa v s' = mem_lookup_pa v s"
      using mem_unmap_va_unmaps [OF assms False] by blast
    moreover from this(3) have "same_path 4 va v \<Longrightarrow> mem_lookup_pa v s' = - 1"
      using same_path_lookup [of va v s'] by simp
    ultimately show ?thesis by (cases "same_path 4 va v") simp_all
  qed
  from main show "pt_inv lim ?s'" "mem_lookup_pa va ?s' = - 1" "mem_next_pa ?s' = mem_next_pa s"
    "mem_heap_pool ?s' = mem_heap_pool s" "usable lim ?s' v = usable lim s v"
    "mem_lookup_pa v s = - 1 \<Longrightarrow> mem_lookup_pa v ?s' = - 1" by simp_all
qed

lemma unmap_loop_ok:
  assumes "unat lim' = unat len + n * 4096" "pt_inv lim s" "\<forall>i<n. usable lim s (nth_page addr i)"
  shows "\<exists>s'. unmap_loop len lim' addr s = Some s' \<and> pt_inv lim s' \<and> mem_next_pa s' = mem_next_pa s \<and>
     mem_heap_pool s' = mem_heap_pool s \<and> (\<forall>v. usable lim s' v = usable lim s v) \<and>
     (\<forall>i<n. mem_lookup_pa (nth_page addr i) s' = - 1) \<and> (\<forall>v. mem_lookup_pa v s = - 1 \<longrightarrow> mem_lookup_pa v s' = - 1)"
  using assms
proof (induction n arbitrary: len addr s)
  case 0
  then have "\<not> len < lim'" by (simp add: word_less_nat_alt)
  then show ?case using 0 by (subst unmap_loop.simps) simp
next
  case (Suc n)
  let ?s1 = "snd (mem_unmap_va addr s)"
  have less: "len < lim'" using Suc.prems(1) by (simp add: word_less_nat_alt)
  have u0: "usable lim s addr" using Suc.prems(3) by force
  note um = mem_unmap_va_any [OF Suc.prems(2) u0]
  have bound: "unat lim' < 2 ^ 64" by (rule unat_less_u64)
  then have "unat (len + PAGE_SIZE) = unat len + 4096"
    using Suc.prems(1) by (subst unat_add_small) (simp_all add: PAGE_SIZE_def)
  then have l: "unat lim' = unat (len + PAGE_SIZE) + n * 4096" using Suc.prems(1) by simp
  have pages: "\<forall>i<n. usable lim ?s1 (nth_page (addr + PAGE_SIZE) i)"
    using Suc.prems(3) um(5) nth_page_Suc [of addr] by (metis Suc_less_eq)
  then obtain s' where s': "unmap_loop (len + PAGE_SIZE) lim' (addr + PAGE_SIZE) ?s1 = Some s'" "pt_inv lim s'"
    "mem_next_pa s' = mem_next_pa s" "mem_heap_pool s' = mem_heap_pool s" "\<forall>v. usable lim s' v = usable lim s v"
    "\<forall>i<n. mem_lookup_pa (nth_page (addr + PAGE_SIZE) i) s' = - 1"
    "\<forall>v. mem_lookup_pa v ?s1 = - 1 \<longrightarrow> mem_lookup_pa v s' = - 1"
    using Suc.IH [OF l um(1) pages] unfolding um(3-5) by blast
  have "mem_lookup_pa (nth_page addr i) s' = - 1" if "i < Suc n" for i
  proof (cases i)
    case 0
    then show ?thesis using s'(7) um(2) by simp
  next
    case (Suc j)
    then have "j < n" using that by simp
    then show ?thesis using s'(6) unfolding \<open>i = Suc j\<close> nth_page_Suc by blast
  qed
  then show ?case
    using s' um(6) less by (subst unmap_loop.simps) auto
qed

text \<open>The bound of the loop: the size rounded up to pages.\<close>

lemma round_up_page:
  assumes "unat sz + 4095 < 2 ^ 64"
  shows "unat ((sz + (PAGE_SIZE - 1)) AND NOT (PAGE_SIZE - 1)) = (unat sz + 4095) div 4096 * 4096"
proof -
  let ?x = "sz + (PAGE_SIZE - 1)"
  have P: "PAGE_SIZE - 1 = mask 12" "unat (PAGE_SIZE - 1) = 4095" by (simp_all add: PAGE_SIZE_def mask_eq_exp_minus_1)
  have u: "unat ?x = unat sz + 4095" using assms P(2) by (subst unat_add_small) simp_all
  have "?x AND NOT (mask 12) = push_bit 12 (drop_bit 12 ?x)"
    by (rule bit_word_eqI) (auto simp: bit_simps)
  also have "\<dots> = ?x div 4096 * 4096" by (simp add: push_bit_eq_mult drop_bit_eq_div)
  finally have "unat (?x AND NOT (mask 12)) = unat ?x div 4096 * 4096 mod 2 ^ 64"
    by (simp add: unat_word_ariths unat_div)
  moreover have "unat ?x div 4096 * 4096 < 2 ^ 64"
    using div_times_less_eq_dividend [of "unat ?x" 4096] unat_less_u64 [of ?x] by linarith
  ultimately show ?thesis by (simp only: P(1) [symmetric] u) simp
qed

text \<open>A heap block of one page.\<close>

lemma heap_one_page:
  assumes "pt_inv lim s" "pages_left lim 4 s" "usable lim s (mem_heap_pool s)"
  shows "\<exists>s'. mem_heap_allocate PAGE_SIZE s = Some (mem_heap_pool s, s') \<and> pt_inv lim s' \<and>
     mem_heap_pool s' = mem_heap_pool s + PAGE_SIZE \<and> mem_next_pa s < mem_next_pa s' \<and>
     unat (mem_next_pa s') \<le> unat (mem_next_pa s) + 4 * 4096 \<and>
     mem_lookup_pa (mem_heap_pool s) s' = mem_next_pa s \<and>
     (\<forall>v. usable lim s v \<longrightarrow> usable lim s' v \<and>
        (\<not> same_path 4 (mem_heap_pool s) v \<longrightarrow> mem_lookup_pa v s' = mem_lookup_pa v s))"
proof -
  obtain s1 where s1: "mem_map_va (mem_heap_pool s) 0 PTE_USER_RW s = Some s1"
    "maps_page lim (mem_heap_pool s) (mem_next_pa s) 4 s s1"
    "mem_lookup_pa (mem_heap_pool s) s1 = mem_next_pa s" "mem_next_pa s < mem_next_pa s1"
    using mem_map_va_maps [OF assms, of 0 PTE_USER_RW] by auto
  have "heap_map_loop 0 PAGE_SIZE s = Some (PAGE_SIZE, s1)"
  proof -
    have "heap_map_loop 0x1000 0x1000 t = Some (0x1000, t)" for t by (subst heap_map_loop.simps) simp
    then show ?thesis by (subst heap_map_loop.simps) (simp add: PAGE_SIZE_def s1(1))
  qed
  then show ?thesis
    using s1 by (auto simp: mem_heap_allocate_def maps_page_def heap_pool_update)
qed

text \<open>\<open>monitor_restore_state\<close> keeps x30 and the stack when both sides use EL3's own stack.\<close>

lemma monitor_restore_state_own:
  assumes "r_spsel c AND 1 \<noteq> 0" "b_spsel b AND 1 \<noteq> 0"
  shows "r_sp_el3 (monitor_restore_state b c) = r_sp_el3 c" "r_spsel (monitor_restore_state b c) = b_spsel b"
    "r_scr_el3 (monitor_restore_state b c) = r_scr_el3 c" "gpr (monitor_restore_state b c) 30 = gpr c 30"
    "4 \<le> n \<Longrightarrow> n < 30 \<Longrightarrow> gpr (monitor_restore_state b c) n = b_reg b (n - 4)"
  using assms by (simp_all add: monitor_restore_state_def monitor_restore_def restore_regs_def cur_sp_def set_sp_def
      set_reg_def Let_def)

text \<open>Starting EL3 with a well-formed address space ends: no page of the init section
  translates any more, the page tables keep their invariant, control block and interop buffer have different physical pages, the
  control block holds the buffer's virtual and physical address, both worlds get the control
  block's physical address in x4, EL3 returns to the secure EL1 image, the first switch will
  enter the non-secure one, and the state invariant of the SMC handlers holds.\<close>

theorem el3_start_ok:
  assumes inv: "pt_inv lim (el3_mm s)" and n: "n = (unat sz + 4095) div 4096" "unat sz + 4095 < 2 ^ 64"
    and init: "\<forall>i<n. usable lim (el3_mm s) (nth_page base i)"
    and heap: "h = mem_heap_pool (el3_mm s)" "usable lim (el3_mm s) h" "usable lim (el3_mm s) (h + PAGE_SIZE)"
    and apart: "\<not> same_path 4 (h + PAGE_SIZE) h" "\<forall>i<n. \<not> same_path 4 h (nth_page base i) \<and> \<not> same_path 4 (h + PAGE_SIZE) (nth_page base i)"
    and room: "pages_left lim 8 (el3_mm s)"
    and cpu: "el3_mode (cpu_of s)" "ucast (secure_state s) = r_scr_el3 (cpu_of s) AND 1"
  shows "\<exists>s'. el3_start base sz s = Some s' \<and> el3_inv s' \<and> pt_inv lim (el3_mm s') \<and>
     (\<forall>i<n. mem_lookup_pa (nth_page base i) (el3_mm s') = - 1) \<and>
     syscntl_va s' = h \<and> smc_interop_buf s' = h + PAGE_SIZE \<and>
     mem_lookup_pa (syscntl_va s') (el3_mm s') \<noteq> mem_lookup_pa (smc_interop_buf s') (el3_mm s') \<and>
     buf_va (syscntl s') = smc_interop_buf s' \<and>
     buf_pa (syscntl s') = mem_lookup_pa (smc_interop_buf s') (el3_mm s') \<and>
     r_elr_el3 (cpu_of s') = EL1_S_FLASH_BASE \<and>
     gpr (cpu_of s') 4 = mem_lookup_pa (syscntl_va s') (el3_mm s') \<and>
     b_elr_el3 (nsec_state (el3_mon s')) = EL1_NS_FLASH_BASE \<and>
     b_reg (nsec_state (el3_mon s')) 0 = mem_lookup_pa (syscntl_va s') (el3_mm s')"
proof -
  let ?m0 = "el3_mm s" and ?lim = "(sz + (PAGE_SIZE - 1)) AND NOT (PAGE_SIZE - 1)"
  have l: "unat ?lim = unat (0 :: u64) + n * 4096" using round_up_page [OF n(2)] n(1) by simp
  obtain m1 where m1: "unmap_loop 0 ?lim base ?m0 = Some m1" "pt_inv lim m1" "mem_next_pa m1 = mem_next_pa ?m0"
    "mem_heap_pool m1 = h" "\<And>v. usable lim m1 v = usable lim ?m0 v" "\<And>i. i < n \<Longrightarrow> mem_lookup_pa (nth_page base i) m1 = - 1"
    using unmap_loop_ok [OF l inv init] heap(1) by auto
  have left: "pages_left lim 4 m1" using room m1(3) by (simp add: pages_left_def)
  obtain m2 where m2: "mem_heap_allocate PAGE_SIZE m1 = Some (h, m2)" "pt_inv lim m2" "mem_heap_pool m2 = h + PAGE_SIZE"
    "mem_next_pa m1 < mem_next_pa m2" "unat (mem_next_pa m2) \<le> unat (mem_next_pa m1) + 4 * 4096"
    "mem_lookup_pa h m2 = mem_next_pa m1" "\<And>v. usable lim m1 v \<Longrightarrow> usable lim m2 v"
    "\<And>v. usable lim m1 v \<Longrightarrow> \<not> same_path 4 h v \<Longrightarrow> mem_lookup_pa v m2 = mem_lookup_pa v m1"
    using heap_one_page [OF m1(2) left] m1(4,5) heap(2) by auto
  have left2: "pages_left lim 4 m2" using room m1(3) m2(5) by (simp add: pages_left_def)
  obtain m3 where m3: "mem_heap_allocate PAGE_SIZE m2 = Some (h + PAGE_SIZE, m3)"
    "mem_lookup_pa (h + PAGE_SIZE) m3 = mem_next_pa m2"
    "\<And>v. usable lim m2 v \<Longrightarrow> \<not> same_path 4 (h + PAGE_SIZE) v \<Longrightarrow> mem_lookup_pa v m3 = mem_lookup_pa v m2"
    "pt_inv lim m3"
    using heap_one_page [OF m2(2) left2] m2(3,7) m1(5) heap(3) by auto
  have sc: "mem_lookup_pa h m3 = mem_next_pa m1"
    using m3(3) [of h] m2(6,7) m1(5) heap(2) apart(1) by simp
  have gone: "mem_lookup_pa (nth_page base i) m3 = - 1" if "i < n" for i
    using m3(3) m2(7,8) m1(5,6) init apart(2) that by simp
  have ne: "mem_lookup_pa h m3 \<noteq> mem_lookup_pa (h + PAGE_SIZE) m3" using sc m3(2) m2(4) by simp
  have odd: "r_spsel (cpu_of s) AND 1 \<noteq> 0" using cpu(1) by (simp add: el3_mode_def)
  obtain s' where s': "el3_start base sz s = Some s'"
    "s' = (let s1 = s\<lparr>el3_mm := m3, syscntl_va := h, smc_interop_buf := h + PAGE_SIZE,
             syscntl := (syscntl s)\<lparr>buf_va := h + PAGE_SIZE, buf_pa := mem_lookup_pa (h + PAGE_SIZE) m3\<rparr>\<rparr>;
             s2 = el3_monitor_init s1
           in upd_cpu (\<lambda>c. exception_return_el3 EL1_S_FLASH_BASE SPSR_EL1 (monitor_restore_state (sec_state (el3_mon s2)) c)) s2)"
    using m1(1) m2(1) m3(1) by (simp add: el3_start_def Let_def)
  show ?thesis
    using s' ne gone cpu m3(4) monitor_restore_state_own [OF odd]
    by (simp add: Let_def el3_monitor_init_def exception_return_el3_def el3_inv_def el3_mode_def zero_buf_def)
qed

end
