(* ===== verification/El3Demo.thy ===== *)
theory El3Demo
  imports El3Start
begin

text \<open>Closed instances of the EL3 properties, on the address space of \<open>PageTableDemo\<close> and the
  processor of \<open>MonitorProofs\<close>.\<close>

definition demo_syscntl :: sys_control_t where
  "demo_syscntl = \<lparr>buf_pa = 0, buf_va = 0,
     excp = \<lparr>excp_ec = 0, excp_iss = 0, excp_far = 0, excp_log = True, excp_action = EXCP_ACTION_SKIP,
             excp_taken = False, excp_el = 0, excp_state = 0\<rparr>,
     test_cntl = 0\<rparr>"

definition demo_el3 :: el3 where
  "demo_el3 = \<lparr>secure_state = SECURE, el3_mm = demo_mm, el3_mon = demo_monitor, syscntl = demo_syscntl,
     syscntl_va = 0, smc_interop_buf = 0, cfgctrl = 0, wfi_count = 0, el3_ran = []\<rparr>"

lemma demo_el3_inv: "el3_inv demo_el3"
  using demo_monitor_mode(1) by (simp add: el3_inv_def demo_el3_def demo_monitor_def demo_cpu_def c_const)

lemma smc_yield: "el3_handle_smc a (ucast SMC_OP_YIELD) d elr s =
    Some (SVC_OP_YIELD, d, set_exception_return_el3 elr (s\<lparr>secure_state := secure_state s XOR 1\<rparr>))"
  by (simp add: el3_handle_smc_def el3_smc_switch_def) (simp add: c_const)

lemma el3_handle_smc_switches_witness:
  "\<exists>s'. el3_handle_smc AArch64 (ucast SMC_OP_YIELD) zero_desc 0x100 demo_el3 = Some (SVC_OP_YIELD, zero_desc, s') \<and>
     secure_state s' = NONSECURE \<and> r_elr_el3 (cpu_of s') = 0x100"
proof -
  have ns: "keeps_ns (ucast SMC_OP_YIELD) zero_desc demo_el3" by (simp add: keeps_ns_def)
  show ?thesis
    using el3_handle_smc_switches [OF demo_el3_inv ns smc_yield] smc_yield [of AArch64 zero_desc "0x100" demo_el3]
    by (auto simp: smc_switches_def demo_el3_def c_const)
qed

definition demo_smc :: el3 where
  "demo_smc = upd_cpu (\<lambda>c. c\<lparr>r_esr_el3 := push_bit 26 EC_SMC64, gpr := (gpr c)(0 := 1)\<rparr>) demo_el3"

text \<open>The request that breaks the agreement: SCR_EL3.NS set by \<open>SMC_OP_SET_REG\<close>.\<close>

definition demo_scr_write :: op_desc where
  "demo_scr_write = set_data_data 1 (set_data_el 3 (set_data_key KEY_SCR zero_desc))"

lemma el3_sync_lower64_invariant_witness:
  "(\<exists>d' s'. el3_sync_lower64 AArch64 zero_desc demo_smc = Some (d', s') \<and> el3_inv s') \<and>
   (\<exists>d' s'. el3_sync_lower64 AArch64 demo_scr_write (upd_cpu (set_reg 0 5) demo_smc) = Some (d', s') \<and> \<not> el3_inv s')"
proof -
  have inv: "el3_inv demo_smc" using demo_el3_inv by (simp add: demo_smc_def el3_inv_def el3_mode_def)
  have "\<exists>d' s'. el3_sync_lower64 AArch64 zero_desc demo_smc = Some (d', s')"
    using smc_yield [of AArch64 zero_desc "r_elr_el3 (cpu_of demo_smc)" demo_smc]
    by (simp add: el3_sync_lower64_def Let_def) (simp add: demo_smc_def c_const)
  then have yield: "\<exists>d' s'. el3_sync_lower64 AArch64 zero_desc demo_smc = Some (d', s') \<and> el3_inv s'"
    using el3_sync_lower64_invariant [OF inv] by (fastforce simp: demo_smc_def)
  let ?s = "upd_cpu (set_reg 0 5) demo_smc"
  have inv2: "el3_inv ?s" using inv by (simp add: el3_inv_def el3_mode_def set_reg_def)
  have d: "data_el demo_scr_write = 3" "data_key demo_scr_write = KEY_SCR" "data_data demo_scr_write = 1"
    by (simp_all add: demo_scr_write_def layout c_const)
  have "\<exists>d' s'. el3_sync_lower64 AArch64 demo_scr_write ?s = Some (d', s')"
    using d by (simp add: el3_sync_lower64_def el3_handle_smc_def el3_smc_switch_def el3_set_reg_def set_reg_def Let_def)
      (simp add: demo_smc_def c_const)
  moreover have "drop_bit 26 (r_esr_el3 (cpu_of ?s)) \<in> {EC_SMC64, EC_SMC32}" "gpr (cpu_of ?s) 0 = ucast SMC_OP_SET_REG"
    "r_scr_el3 (cpu_of ?s) AND 1 = 0"
    by (simp_all add: demo_smc_def set_reg_def c_const demo_el3_def demo_monitor_def demo_cpu_def)
  ultimately have "\<exists>d' s'. el3_sync_lower64 AArch64 demo_scr_write ?s = Some (d', s') \<and> \<not> el3_inv s'"
    using el3_sync_lower64_invariant [OF inv2, of AArch64 demo_scr_write] d by fastforce
  then show ?thesis using yield by blast
qed

lemma el3_handle_exception_spec_witness:
  "r_elr_el3 (cpu_of (snd (el3_handle_exception EC_WFI_WFE 0 0 0x100 demo_el3))) = 0x104"
proof -
  obtain r s' where e: "el3_handle_exception EC_WFI_WFE 0 0 0x100 demo_el3 = (r, s')" by fastforce
  show ?thesis using el3_handle_exception_spec [OF e] e by (simp add: demo_el3_def demo_syscntl_def)
qed

lemma el3_smc_test_fallthrough_witness:
  "fst (snd (the (el3_handle_smc AArch64 (ucast SMC_OP_TEST) (interop_init zero_desc) 0 demo_el3)))
   = test_step (interop_init zero_desc)"
proof -
  obtain ret d' s' where e: "el3_handle_smc AArch64 (ucast SMC_OP_TEST) (interop_init zero_desc) 0 demo_el3 = Some (ret, d', s')"
    by (simp add: el3_handle_smc_def el3_smc_switch_def Let_def)
  show ?thesis using el3_smc_test_fallthrough [OF e] e interop_init_ok by simp
qed

definition demo_map :: op_desc where
  "demo_map = set_map_pa 0x40001000 (set_map_va 0x80000000 (set_map_type OP_MAP_ALL zero_desc))"

lemma demo_el3_mm: "el3_mm demo_el3 = demo_mm"
  by (simp add: demo_el3_def)

lemma el3_handle_smc_map_witness:
  "\<exists>ret d' s'. el3_handle_smc AArch64 (ucast SMC_OP_MAP) demo_map 0 demo_el3 = Some (ret, d', s') \<and>
     ret = SVC_OP_MAP \<and> mem_lookup_pa 0x80000000 (el3_mm s') = 0x40001000 \<and> map_type d' = 7"
proof -
  have us: "usable 0x80000 (el3_mm demo_el3) (map_va demo_map)"
    unfolding demo_el3_mm by (rule demo_usable) (simp add: pt_index_def demo_map_def layout)
  have ty: "map_type demo_map AND OP_MAP_EL3 = OP_MAP_EL3" "map_type demo_map AND OP_MAP_SEC_EL1 = OP_MAP_SEC_EL1"
    "map_type demo_map AND NOT OP_MAP_EL3 = 7" "map_va demo_map = 0x80000000" "map_pa demo_map AND DESC_ADDR = 0x40001000"
    by (simp_all add: demo_map_def layout c_const DESC_ADDR_def)
  show ?thesis
    using el3_handle_smc_map [OF demo_inv [folded demo_el3_mm] _ us ty(1), of AArch64 0] demo_pages [of 3] demo_el3_mm ty
    by auto
qed

lemma el3_start_ok_witness:
  "\<exists>s'. el3_start 0x80000000 0x1800 demo_el3 = Some s' \<and> el3_inv s' \<and>
     mem_lookup_pa 0x80001000 (el3_mm s') = - 1 \<and> smc_interop_buf s' = 0x40001000 \<and>
     r_elr_el3 (cpu_of s') = EL1_S_FLASH_BASE"
proof -
  have ix: "pt_index 0x80000000 1 = 2" "pt_index 0x80001000 1 = 2" "pt_index 0x40000000 1 = 1" "pt_index 0x40001000 1 = 1"
    "pt_index 0x40000000 3 = 0" "pt_index 0x40001000 3 = 1"
    by (simp_all add: pt_index_def)
  have two: "(\<forall>i<2. P i) \<longleftrightarrow> P 0 \<and> P (1 :: nat)" for P by (auto simp: less_2_cases_iff)
  note One_nat_def [simp del]
  have ne: "pt_index va 1 \<noteq> pt_index va' 1 \<Longrightarrow> \<not> same_path 4 va va'"
    "pt_index va 3 \<noteq> pt_index va' 3 \<Longrightarrow> \<not> same_path 4 va va'" for va va'
  proof -
    have "(1 :: nat) < 4" "(3 :: nat) < 4" by simp_all
    then show "pt_index va 1 \<noteq> pt_index va' 1 \<Longrightarrow> \<not> same_path 4 va va'"
      "pt_index va 3 \<noteq> pt_index va' 3 \<Longrightarrow> \<not> same_path 4 va va'"
      unfolding same_path_def by blast+
  qed
  have us: "usable 0x80000 demo_mm 0x80000000" "usable 0x80000 demo_mm 0x80001000" "usable 0x80000 demo_mm 0x40000000"
    "usable 0x80000 demo_mm 0x40001000"
    by (rule demo_usable, simp add: ix)+
  have mode: "el3_mode (cpu_of demo_el3)" "ucast (secure_state demo_el3) = r_scr_el3 (cpu_of demo_el3) AND 1"
    using demo_el3_inv by (simp_all add: el3_inv_def)
  have h: "(0x40000000 :: u64) = mem_heap_pool (el3_mm demo_el3)" by (simp add: demo_el3_def demo_mm_def)
  show ?thesis
    using el3_start_ok [OF demo_inv [folded demo_el3_mm], where n = 2 and sz = "0x1800" and base = "0x80000000" and h = "0x40000000"]
      us ne ix mode h demo_pages [of 8]
    by (simp add: two demo_el3_mm PAGE_SIZE_def) blast
qed

end
