(* ===== verification/SystemProofs.thy ===== *)
theory SystemProofs
  imports System El3Demo
begin

text \<open>
  The composed machine: entering EL3 and coming back, the secure service loop from one switch
  to the next, and from these the end-to-end behaviour of the test framework: a dispatched
  test runs once, at the level and in the world it names, and the machine is ready for the
  next one.
\<close>

section \<open>SMC entry\<close>

lemma smc_entry_facts [simp]:
  "gpr (cpu_of (smc_entry op s)) 0 = ucast op" "r_scr_el3 (cpu_of (smc_entry op s)) = r_scr_el3 (cpu_of (m_el3 s))"
  "secure_state (smc_entry op s) = secure_state (m_el3 s)" "el3_mm (smc_entry op s) = el3_mm (m_el3 s)"
  "el3_ran (smc_entry op s) = el3_ran (m_el3 s)" "syscntl (smc_entry op s) = el1_sysc s"
  "el3_inv (smc_entry op s) = el3_inv (m_el3 s)" "cfgctrl (smc_entry op s) = cfgctrl (m_el3 s)"
  by (simp_all add: smc_entry_def set_reg_def el3_inv_def el3_mode_def)

lemma el3_inv_ns_bit: "el3_inv e \<Longrightarrow> r_scr_el3 (cpu_of e) AND 1 = ucast (secure_state e)"
  by (simp add: el3_inv_def)

text \<open>What the test programs depend on besides the running world: CPTR_EL3, the CPACR of either
  world (the processor's, or the one saved in the world's buffer), the exception log and the
  counters. No switch changes it.\<close>

record test_view =
  tv_cptr :: u64
  tv_ns_cpacr :: u64
  tv_sec_cpacr :: u64
  tv_excp :: sys_exception_t
  tv_cnt :: test_control_t

definition ns_cpacr :: "el3 \<Rightarrow> u64" where
  "ns_cpacr e = (if r_scr_el3 (cpu_of e) AND 1 = 0 then b_cpacr_el1 (nsec_state (el3_mon e)) else r_cpacr_el1 (cpu_of e))"

definition sec_cpacr :: "el3 \<Rightarrow> u64" where
  "sec_cpacr e = (if r_scr_el3 (cpu_of e) AND 1 = 0 then r_cpacr_el1 (cpu_of e) else b_cpacr_el1 (sec_state (el3_mon e)))"

definition view_of :: "el3 \<Rightarrow> sys_exception_t \<Rightarrow> test_control_t \<Rightarrow> test_view" where
  "view_of e x c = \<lparr>tv_cptr = r_cptr_el3 (cpu_of e), tv_ns_cpacr = ns_cpacr e, tv_sec_cpacr = sec_cpacr e, tv_excp = x, tv_cnt = c\<rparr>"

definition tst :: "sys \<Rightarrow> test_view" where
  "tst s = view_of (m_el3 s) (excp (el1_sysc s)) (el1_tcnt s)"

lemma tst_fold [simp]: "view_of (m_el3 s) (excp (el1_sysc s)) (el1_tcnt s) = tst s"
  by (simp add: tst_def)

lemma view_smc_entry [simp]: "view_of (smc_entry op s) = view_of (m_el3 s)"
  by (simp add: fun_eq_iff view_of_def ns_cpacr_def sec_cpacr_def smc_entry_def set_reg_def)

lemma view_el3_upd [simp]:
  "view_of (e\<lparr>el3_mm := m\<rparr>) = view_of e" "view_of (e\<lparr>el3_ran := r\<rparr>) = view_of e"
  "view_of (e\<lparr>syscntl := c\<rparr>) = view_of e" "view_of (e\<lparr>secure_state := x\<rparr>) = view_of e"
  by (simp_all add: fun_eq_iff view_of_def ns_cpacr_def sec_cpacr_def)

lemma view_switch:
  assumes "el3_mode (cpu_of e)" "b_spsel (other_buf (el3_mon e)) AND 1 \<noteq> 0"
  shows "view_of (e\<lparr>el3_mon := monitor_switch (el3_mon e)\<rparr>) = view_of e"
  using monitor_switch_cases [OF assms] and_1_cases [of "r_scr_el3 (cpu_of e)"]
  by (auto simp: fun_eq_iff view_of_def ns_cpacr_def sec_cpacr_def other_buf_def Let_def restore_regs_def save_regs_def
      cong: if_cong)

text \<open>The vector on an SMC whose handler is known: either it stays in the world, or the monitor
  switches.\<close>

lemma sync_stay:
  assumes "el3_smc_switch a (ucast op) d (smc_entry op s) = Some (0, d', e1)" "same_world (smc_entry op s) e1" "el3_inv (m_el3 s)"
  shows "\<exists>e. el3_sync_lower64 a d (smc_entry op s) = Some (d', e) \<and> el3_inv e \<and>
     gpr (cpu_of e) 0 = 0 \<and> r_scr_el3 (cpu_of e) AND 1 = r_scr_el3 (cpu_of (m_el3 s)) AND 1 \<and>
     el3_ran e = el3_ran e1 \<and> el3_mm e = el3_mm e1 \<and> syscntl e = syscntl e1 \<and> cfgctrl e = cfgctrl e1 \<and>
     view_of e = view_of e1"
proof -
  have ec: "drop_bit 26 (r_esr_el3 (cpu_of (smc_entry op s))) = EC_SMC64" by (simp add: smc_entry_def c_const)
  show ?thesis
    using assms same_world_inv [OF assms(2)]
    by (simp add: el3_sync_lower64_def Let_def ec el3_handle_smc_def)
       (simp add: set_exception_return_el3_def set_reg_def el3_inv_def el3_mode_def same_world_def
          fun_eq_iff view_of_def ns_cpacr_def sec_cpacr_def)
qed

lemma sync_switch:
  assumes sw: "el3_smc_switch a (ucast op) d (smc_entry op s) = Some (ret, d', e1)" "ret \<noteq> 0"
    and w: "same_world (smc_entry op s) e1" "el3_inv (m_el3 s)"
  shows "\<exists>e. el3_sync_lower64 a d (smc_entry op s) = Some (d', e) \<and> el3_inv e \<and>
     gpr (cpu_of e) 0 = ucast ret \<and> r_scr_el3 (cpu_of e) AND 1 = (r_scr_el3 (cpu_of (m_el3 s)) AND 1) XOR 1 \<and>
     el3_ran e = el3_ran e1 \<and> el3_mm e = el3_mm e1 \<and> syscntl e = syscntl e1 \<and> cfgctrl e = cfgctrl e1 \<and>
     view_of e = view_of e1"
proof -
  have ec: "drop_bit 26 (r_esr_el3 (cpu_of (smc_entry op s))) = EC_SMC64" by (simp add: smc_entry_def c_const)
  define e2 where "e2 = upd_cpu (\<lambda>c. (set_reg 0 (ucast ret) c)\<lparr>r_spsr_el3 := r_spsr_el3 (cpu_of (smc_entry op s))\<rparr>)
    (set_exception_return_el3 (r_elr_el3 (cpu_of (smc_entry op s))) (e1\<lparr>secure_state := secure_state e1 XOR 1\<rparr>))"
  have run: "el3_sync_lower64 a d (smc_entry op s) = Some (d', e2\<lparr>el3_mon := monitor_switch (el3_mon e2)\<rparr>)"
    using sw by (simp add: el3_sync_lower64_def Let_def ec el3_handle_smc_def e2_def)
  have i1: "el3_inv e1" using same_world_inv [OF w(1)] w(2) by simp
  have e2: "ucast (secure_state e2) = (r_scr_el3 (cpu_of e2) AND 1) XOR 1" "el3_mode (cpu_of e2)"
    "b_spsel (sec_state (el3_mon e2)) AND 1 \<noteq> 0" "b_spsel (nsec_state (el3_mon e2)) AND 1 \<noteq> 0"
    using i1 el3_inv_ns [OF i1]
    by (simp_all add: e2_def set_exception_return_el3_def set_reg_def el3_inv_def el3_mode_def)
  have ob: "b_spsel (other_buf (el3_mon e2)) AND 1 \<noteq> 0" using e2 by (simp add: other_buf_def)
  have "el3_inv (e2\<lparr>el3_mon := monitor_switch (el3_mon e2)\<rparr>)" by (rule monitor_switch_inv [OF e2])
  moreover have "gpr (mon_cpu (monitor_switch (el3_mon e2))) 0 = ucast ret"
    using monitor_switch_passes(2) [OF e2(2) ob, of 0] by (simp add: e2_def set_reg_def)
  moreover have "r_scr_el3 (mon_cpu (monitor_switch (el3_mon e2))) AND 1 = (r_scr_el3 (cpu_of (m_el3 s)) AND 1) XOR 1"
    using monitor_switch_passes(1) [OF e2(2) ob] w(1) xor_1_and_1
    by (simp add: e2_def set_reg_def set_exception_return_el3_def same_world_def)
  moreover have "view_of (e2\<lparr>el3_mon := monitor_switch (el3_mon e2)\<rparr>) = view_of e1"
    using view_switch [OF e2(2) ob]
    by (simp add: e2_def set_exception_return_el3_def fun_eq_iff view_of_def ns_cpacr_def sec_cpacr_def set_reg_def)
  ultimately show ?thesis using run by (simp add: e2_def set_exception_return_el3_def)
qed

text \<open>The same for \<open>enter_el3\<close>. \<open>after\<close> is the machine with EL3's part replaced.\<close>

definition after :: "op_desc \<Rightarrow> el3 \<Rightarrow> sys \<Rightarrow> sys" where
  "after d e s = s\<lparr>ibuf := d, el1_sysc := syscntl e, m_el3 := e\<rparr>"

lemma enter_stay:
  assumes "el3_smc_switch a (ucast op) (ibuf s) (smc_entry op s) = Some (0, d', e1)"
    "same_world (smc_entry op s) e1" "el3_inv (m_el3 s)"
  shows "\<exists>e. enter_el3 a op s = Some (0, False, after d' e s) \<and> el3_inv e \<and>
     r_scr_el3 (cpu_of e) AND 1 = r_scr_el3 (cpu_of (m_el3 s)) AND 1 \<and>
     el3_ran e = el3_ran e1 \<and> el3_mm e = el3_mm e1 \<and> syscntl e = syscntl e1 \<and> cfgctrl e = cfgctrl e1 \<and>
     view_of e = view_of e1"
proof -
  obtain e where e: "el3_sync_lower64 a (ibuf s) (smc_entry op s) = Some (d', e)" "el3_inv e" "gpr (cpu_of e) 0 = 0"
    "r_scr_el3 (cpu_of e) AND 1 = r_scr_el3 (cpu_of (m_el3 s)) AND 1"
    "el3_ran e = el3_ran e1" "el3_mm e = el3_mm e1" "syscntl e = syscntl e1" "cfgctrl e = cfgctrl e1" "view_of e = view_of e1"
    using sync_stay [OF assms] by blast
  then have "enter_el3 a op s = Some (0, False, after d' e s)" by (simp add: enter_el3_def after_def Let_def)
  with e show ?thesis by blast
qed

lemma enter_switch:
  assumes "el3_smc_switch a (ucast op) (ibuf s) (smc_entry op s) = Some (ret, d', e1)" "ret \<noteq> 0"
    "same_world (smc_entry op s) e1" "el3_inv (m_el3 s)"
  shows "\<exists>e. enter_el3 a op s = Some (ret, True, swap_world (after d' e s)) \<and> el3_inv e \<and>
     r_scr_el3 (cpu_of e) AND 1 = (r_scr_el3 (cpu_of (m_el3 s)) AND 1) XOR 1 \<and>
     el3_ran e = el3_ran e1 \<and> el3_mm e = el3_mm e1 \<and> syscntl e = syscntl e1 \<and> cfgctrl e = cfgctrl e1 \<and>
     view_of e = view_of e1"
proof -
  have "(x AND 1) XOR 1 \<noteq> x AND 1" for x :: u64 using and_1_cases [of x] by auto
  then have ne: "(x AND 1) XOR 1 = x AND 1 \<longleftrightarrow> False" for x :: u64 by simp
  obtain e where e: "el3_sync_lower64 a (ibuf s) (smc_entry op s) = Some (d', e)" "el3_inv e" "gpr (cpu_of e) 0 = ucast ret"
    "r_scr_el3 (cpu_of e) AND 1 = (r_scr_el3 (cpu_of (m_el3 s)) AND 1) XOR 1"
    "el3_ran e = el3_ran e1" "el3_mm e = el3_mm e1" "syscntl e = syscntl e1" "cfgctrl e = cfgctrl e1" "view_of e = view_of e1"
    using sync_switch [OF assms] by blast
  then have "enter_el3 a op s = Some (ret, True, swap_world (after d' e s))"
    by (simp add: enter_el3_def after_def Let_def ne)
  with e show ?thesis by blast
qed

section \<open>The SMCs of the test framework\<close>

text \<open>EL3 after an SMC that does not change anything but which world runs.\<close>

definition el3_kept :: "u64 \<Rightarrow> sys \<Rightarrow> el3 \<Rightarrow> bool" where
  "el3_kept ns s e \<longleftrightarrow> el3_inv e \<and> r_scr_el3 (cpu_of e) AND 1 = ns \<and> el3_mm e = el3_mm (m_el3 s) \<and>
     syscntl e = el1_sysc s \<and> cfgctrl e = cfgctrl (m_el3 s) \<and> view_of e = view_of (m_el3 s)"

lemma svc_codes [simp]:
  "SVC_OP_YIELD \<noteq> 0" "SVC_OP_DISPATCH \<noteq> 0" "SVC_OP_TEST \<noteq> 0" "SVC_OP_MAP \<noteq> 0"
  "SVC_OP_YIELD \<noteq> SVC_OP_EXIT" "SVC_OP_DISPATCH \<noteq> SVC_OP_EXIT" "SVC_OP_TEST \<noteq> SVC_OP_EXIT" "SVC_OP_MAP \<noteq> SVC_OP_EXIT"
  "SVC_OP_EXIT \<noteq> SVC_OP_YIELD" "SVC_OP_EXIT \<noteq> 0"
  "SVC_OP_DISPATCH \<noteq> SVC_OP_YIELD" "SVC_OP_YIELD \<noteq> SVC_OP_DISPATCH" "SVC_OP_TEST \<noteq> SVC_OP_YIELD"
  "SVC_OP_DISPATCH \<noteq> SVC_OP_MAP" "SVC_OP_TEST \<noteq> SVC_OP_MAP" "SVC_OP_YIELD \<noteq> SVC_OP_MAP" "SVC_OP_DISPATCH \<noteq> SVC_OP_TEST"
  "SVC_OP_TEST \<noteq> SVC_OP_DISPATCH" "SVC_OP_DISPATCH \<noteq> SVC_OP_ALLOC" "SVC_OP_DISPATCH \<noteq> SVC_OP_GET_SYSCNTL"
  "SVC_OP_DISPATCH \<noteq> SVC_OP_GET_REG" "SVC_OP_DISPATCH \<noteq> SVC_OP_SET_REG"
  "SVC_OP_TEST \<noteq> SVC_OP_ALLOC" "SVC_OP_TEST \<noteq> SVC_OP_GET_SYSCNTL" "SVC_OP_TEST \<noteq> SVC_OP_GET_REG" "SVC_OP_TEST \<noteq> SVC_OP_SET_REG"
  "SVC_OP_MAP \<noteq> SVC_OP_YIELD" "SVC_OP_MAP \<noteq> SVC_OP_ALLOC" "SVC_OP_MAP \<noteq> SVC_OP_DISPATCH" "SVC_OP_MAP \<noteq> SVC_OP_TEST"
  "SVC_OP_MAP \<noteq> SVC_OP_GET_REG" "SVC_OP_MAP \<noteq> SVC_OP_SET_REG" "SVC_OP_MAP \<noteq> SVC_OP_GET_SYSCNTL"
  by (simp_all add: c_const)

lemma enter_yield:
  assumes "el3_inv (m_el3 s)"
  shows "\<exists>e. enter_el3 a SMC_OP_YIELD s = Some (SVC_OP_YIELD, True, swap_world (after (ibuf s) e s)) \<and>
     el3_kept ((r_scr_el3 (cpu_of (m_el3 s)) AND 1) XOR 1) s e \<and> el3_ran e = el3_ran (m_el3 s)"
proof -
  have "el3_smc_switch a (ucast SMC_OP_YIELD) (ibuf s) (smc_entry SMC_OP_YIELD s) =
      Some (SVC_OP_YIELD, ibuf s, smc_entry SMC_OP_YIELD s)"
    by (simp add: el3_smc_switch_def)
  from enter_switch [OF this _ _ assms] show ?thesis by (auto simp: el3_kept_def)
qed

lemma enter_dispatch_away:
  assumes "el3_inv (m_el3 s)"
    and "\<not> (disp_el (ibuf s) = ucast EL3 \<and> disp_state (ibuf s) = r_scr_el3 (cpu_of (m_el3 s)) AND 1)"
  shows "\<exists>e. enter_el3 a SMC_OP_DISPATCH s = Some (SVC_OP_DISPATCH, True, swap_world (after (ibuf s) e s)) \<and>
     el3_kept ((r_scr_el3 (cpu_of (m_el3 s)) AND 1) XOR 1) s e \<and> el3_ran e = el3_ran (m_el3 s)"
proof -
  have "ucast exception_level_el3 = (ucast EL3 :: u64)" "ucast SCR_NS = (1 :: u64)" by (simp_all add: c_const)
  then have "el3_smc_switch a (ucast SMC_OP_DISPATCH) (ibuf s) (smc_entry SMC_OP_DISPATCH s) =
      Some (SVC_OP_DISPATCH, ibuf s, smc_entry SMC_OP_DISPATCH s)"
    using assms(2) by (auto simp: el3_smc_switch_def)
  from enter_switch [OF this _ _ assms(1)] show ?thesis by (auto simp: el3_kept_def)
qed

lemma enter_dispatch_local:
  assumes "el3_inv (m_el3 s)" "disp_el (ibuf s) = ucast EL3" "disp_state (ibuf s) = r_scr_el3 (cpu_of (m_el3 s)) AND 1"
    and f: "unat (disp_fid (ibuf s)) < length (el3_test_func a)" "el3_test_func a ! unat (disp_fid (ibuf s)) = Some f"
  shows "\<exists>e. enter_el3 a SMC_OP_DISPATCH s = Some (0, False, after (ibuf s) e s) \<and>
     el3_kept (r_scr_el3 (cpu_of (m_el3 s)) AND 1) s e \<and>
     el3_ran e = el3_ran (m_el3 s) @ [(f, ucast (disp_arg (ibuf s)))]"
proof -
  let ?e = "smc_entry SMC_OP_DISPATCH s"
  define e1 where "e1 = ?e\<lparr>el3_ran := el3_ran (m_el3 s) @ [(f, ucast (disp_arg (ibuf s)))]\<rparr>"
  have c: "ucast exception_level_el3 = (ucast EL3 :: u64)" "ucast SCR_NS = (1 :: u64)" by (simp_all add: c_const)
  have "ucast (secure_state ?e) = disp_state (ibuf s)"
    using assms(3) el3_inv_ns_bit [OF assms(1)] by simp
  from el3_run_test_local [OF this assms(2)]
  have "el3_smc_switch a (ucast SMC_OP_DISPATCH) (ibuf s) ?e = Some (0, ibuf s, e1)"
    using assms(2,3) f by (simp add: el3_smc_switch_def c e1_def)
  moreover have "same_world ?e e1" by (simp add: same_world_def e1_def)
  ultimately show ?thesis using enter_stay [OF _ _ assms(1)] by (fastforce simp: el3_kept_def e1_def)
qed

section \<open>Which world runs\<close>

text \<open>\<open>J\<close> is what the test programs need and keep of the view.\<close>

definition ns_running :: "(test_view \<Rightarrow> bool) \<Rightarrow> sys \<Rightarrow> bool" where
  "ns_running J s \<longleftrightarrow> el1_secure s = NONSECURE \<and> b1_secure (m_other s) = SECURE \<and> el3_inv (m_el3 s) \<and>
     r_scr_el3 (cpu_of (m_el3 s)) AND 1 = 1 \<and> m_pend_op s = SVC_OP_YIELD \<and> J (tst s)"

definition sec_running :: "(test_view \<Rightarrow> bool) \<Rightarrow> sys \<Rightarrow> bool" where
  "sec_running J s \<longleftrightarrow> el1_secure s = SECURE \<and> b1_secure (m_other s) = NONSECURE \<and> el3_inv (m_el3 s) \<and>
     r_scr_el3 (cpu_of (m_el3 s)) AND 1 = 0 \<and> J (tst s)"

text \<open>The tests run so far, by level and world (\<open>True\<close> is the secure one).\<close>

datatype place = At_EL0 bool | At_EL1 bool | At_EL3

definition place_of :: "u32 \<Rightarrow> u32 \<Rightarrow> place" where
  "place_of el state =
     (if el = EL0 then At_EL0 (state = SECURE) else if el = EL1 then At_EL1 (state = SECURE) else At_EL3)"

fun ran_at :: "sys \<Rightarrow> place \<Rightarrow> (test_fn \<times> u32) list" where
  "ran_at s (At_EL0 b) = (if b then ran0_sec s else ran0_nsec s)"
| "ran_at s (At_EL1 b) = (if b = (el1_secure s = SECURE) then el1_ran s else b1_ran (m_other s))"
| "ran_at s At_EL3 = el3_ran (m_el3 s)"

lemma ran_at_eqI:
  assumes "ran0_sec s' = f (At_EL0 True)" "ran0_nsec s' = f (At_EL0 False)"
    "el1_ran s' = f (At_EL1 (el1_secure s' = SECURE))" "b1_ran (m_other s') = f (At_EL1 (el1_secure s' \<noteq> SECURE))"
    "el3_ran (m_el3 s') = f At_EL3"
  shows "ran_at s' = f"
proof
  fix p show "ran_at s' p = f p" using assms by (cases p) (auto split: if_splits)
qed

text \<open>The contract of the test bodies: in either world they return, they leave the framework's own
  state and the security state alone, and lead from \<open>J\<close> to \<open>J'\<close>; the registers, the interop
  buffer and the page tables are theirs to use. A test at EL3 runs inside EL3 and does not use
  the services.\<close>

definition undisturbed :: "sys \<Rightarrow> sys \<Rightarrow> bool" where
  "undisturbed s s' \<longleftrightarrow> el1_secure s' = el1_secure s \<and> m_other s' = m_other s \<and> m_pend_op s' = m_pend_op s \<and>
     m_pend s' = m_pend s \<and> m_pend_elr s' = m_pend_elr s \<and> m_desc s' = m_desc s \<and> el1_ran s' = el1_ran s \<and>
     ran0_sec s' = ran0_sec s \<and> ran0_nsec s' = ran0_nsec s \<and> el3_ran (m_el3 s') = el3_ran (m_el3 s) \<and>
     el3_inv (m_el3 s') \<and> r_scr_el3 (cpu_of (m_el3 s')) AND 1 = r_scr_el3 (cpu_of (m_el3 s)) AND 1"

definition tame :: "(test_view \<Rightarrow> bool) \<Rightarrow> (test_view \<Rightarrow> bool) \<Rightarrow> sys services \<Rightarrow> test_fn \<Rightarrow> bool" where
  "tame J J' hw f \<longleftrightarrow> (\<forall>x s. ns_running J s \<or> sec_running J s \<longrightarrow>
     (\<exists>s'. call hw f x s = Some s' \<and> undisturbed s s' \<and> J' (tst s')))"

definition body_ok :: "(test_view \<Rightarrow> bool) \<Rightarrow> (test_view \<Rightarrow> bool) \<Rightarrow> sys services \<Rightarrow> u32 \<Rightarrow> test_fn \<Rightarrow> bool" where
  "body_ok J J' hw el f \<longleftrightarrow> (if el = EL3 then J' = J else tame J J' hw f)"

lemma undisturbed_running:
  "undisturbed s s' \<Longrightarrow> J' (tst s') \<Longrightarrow> ns_running J s \<Longrightarrow> ns_running J' s'"
  "undisturbed s s' \<Longrightarrow> J' (tst s') \<Longrightarrow> sec_running J s \<Longrightarrow> sec_running J' s'"
  by (simp_all add: undisturbed_def ns_running_def sec_running_def)

lemma ran_at_desc: "ran_at (s\<lparr>m_desc := d\<rparr>) = ran_at s"
  by (rule ran_at_eqI) simp_all

lemma undisturbed_ran_at: "undisturbed s s' \<Longrightarrow> ran_at s' = ran_at s"
  by (rule ran_at_eqI) (simp_all add: undisturbed_def)

lemma tameE:
  assumes "tame J J' hw f" "ns_running J s \<or> sec_running J s"
  obtains s' where "call hw f x s = Some s'" "undisturbed s s'" "J' (tst s')"
  using assms unfolding tame_def by blast

lemma swap_after [simp]:
  "el1_secure (swap_world s) = b1_secure (m_other s)" "b1_secure (m_other (swap_world s)) = el1_secure s"
  "el1_ran (swap_world s) = b1_ran (m_other s)" "b1_ran (m_other (swap_world s)) = el1_ran s"
  "el1_mm (swap_world s) = b1_mm (m_other s)" "b1_mm (m_other (swap_world s)) = el1_mm s"
  "m_el3 (swap_world s) = m_el3 s" "ibuf (swap_world s) = ibuf s" "m_pend_op (swap_world s) = m_pend_op s"
  "m_pend (swap_world s) = m_pend s" "m_desc (swap_world s) = m_desc s" "m_pend_elr (swap_world s) = m_pend_elr s"
  "ran0_sec (swap_world s) = ran0_sec s" "ran0_nsec (swap_world s) = ran0_nsec s" "el1_sysc (swap_world s) = el1_sysc s"
  by (simp_all add: swap_world_def)

lemma tst_upd [simp]:
  "tst (swap_world s) = tst s" "tst (after d e s) = view_of e (excp (syscntl e)) (el1_tcnt s)"
  "tst (s\<lparr>ibuf := d\<rparr>) = tst s" "tst (s\<lparr>el1_elr := x\<rparr>) = tst s" "tst (s\<lparr>ran0_nsec := y\<rparr>) = tst s"
  "tst (s\<lparr>ran0_sec := y\<rparr>) = tst s" "tst (s\<lparr>el1_ran := y\<rparr>) = tst s" "tst (s\<lparr>m_desc := d\<rparr>) = tst s"
  "tst (s\<lparr>m_pend_op := w\<rparr>) = tst s" "tst (s\<lparr>m_pend := d\<rparr>) = tst s" "tst (s\<lparr>m_pend_elr := x\<rparr>) = tst s"
  "tst (s\<lparr>el1_mm := m\<rparr>) = tst s"
  by (simp_all add: tst_def swap_world_def after_def del: tst_fold)

lemma after_simps [simp]:
  "el1_secure (after d e s) = el1_secure s" "m_other (after d e s) = m_other s" "el1_ran (after d e s) = el1_ran s"
  "m_el3 (after d e s) = e" "ibuf (after d e s) = d" "m_pend_op (after d e s) = m_pend_op s"
  "m_pend (after d e s) = m_pend s" "m_desc (after d e s) = m_desc s" "m_pend_elr (after d e s) = m_pend_elr s"
  "ran0_sec (after d e s) = ran0_sec s" "ran0_nsec (after d e s) = ran0_nsec s" "el1_mm (after d e s) = el1_mm s"
  "el1_sysc (after d e s) = syscntl e"
  by (simp_all add: after_def)

text \<open>Parking: the loop's yield hands the machine to the non-secure world.\<close>

lemma sec_park:
  assumes "sec_running J s"
  shows "\<exists>s'. sec_svc a hw SVC_OP_YIELD d s = Some (Switched SVC_OP_YIELD s') \<and> ns_running J s' \<and>
     ran_at s' = ran_at s \<and> ibuf s' = ibuf s \<and> el1_mm s' = b1_mm (m_other s) \<and> b1_mm (m_other s') = el1_mm s \<and>
     el3_mm (m_el3 s') = el3_mm (m_el3 s) \<and> m_desc s' = m_desc s"
proof -
  define t where "t = s\<lparr>m_pend_op := SVC_OP_YIELD, m_pend := d, m_pend_elr := el1_elr s\<rparr>"
  have inv: "el3_inv (m_el3 t)" using assms by (simp add: sec_running_def t_def)
  obtain e where e: "enter_el3 a SMC_OP_YIELD t = Some (SVC_OP_YIELD, True, swap_world (after (ibuf t) e t))"
    "el3_kept ((r_scr_el3 (cpu_of (m_el3 t)) AND 1) XOR 1) t e" "el3_ran e = el3_ran (m_el3 t)"
    using enter_yield [OF inv] by blast
  have "ns_running J (swap_world (after (ibuf t) e t))"
    using assms e(2) by (simp add: ns_running_def sec_running_def el3_kept_def t_def)
  moreover have "ran_at (swap_world (after (ibuf t) e t)) = ran_at s"
    using assms e(3) by (intro ran_at_eqI) (simp_all add: sec_running_def t_def c_const)
  moreover have "el1_request SVC_OP_YIELD d s = Some (SMC_OP_YIELD, s)" by (simp add: el1_request_def)
  ultimately show ?thesis
    using e(1,2) by (auto simp: sec_svc_def t_def el3_kept_def)
qed

text \<open>The secure service loop on a dispatch for the secure world: the test runs at its level
  and the loop parks.\<close>

lemma sec_dispatch_el0:
  assumes "sec_running J s" "tame J J' hw f" "disp_el (m_desc s) = ucast EL0" "disp_state (m_desc s) = ucast SECURE"
    and run: "run_test (test_func a EL0 SECURE) EL0 SECURE junk (disp_fid (m_desc s)) EL0 SECURE (ucast (disp_arg (m_desc s))) = Run f x"
  shows "\<exists>s'. sec_run a hw junk SVC_OP_DISPATCH s = Some (SVC_OP_YIELD, s') \<and> ns_running J' s' \<and>
     ran_at s' = (ran_at s)(At_EL0 True := ran_at s (At_EL0 True) @ [(f, x)])"
proof -
  define s0 where "s0 = s\<lparr>ran0_sec := ran0_sec s @ [(f, x)]\<rparr>"
  have r0: "sec_running J s0" using assms(1) by (simp add: sec_running_def s0_def)
  obtain s1 where s1: "call hw f x s0 = Some s1" "undisturbed s0 s1" "J' (tst s1)"
    using tameE [OF assms(2), of s0] r0 by blast
  have e: "ucast (ucast EL0 :: u64) = EL0" "ucast (ucast SECURE :: u64) = SECURE" "exception_level_el0 = EL0"
    by (simp_all add: exception_level_el0_def)
  have sw: "sec_switch a hw junk SVC_OP_DISPATCH s = Some (Returned SVC_OP_YIELD (m_desc s) s1)"
    using assms(2-4) run s1(1)
    by (simp add: sec_switch_def sec_forward_def el0_sec_switch_def el0_run_test_def sec_el0_def returned_def s0_def e)
  have r1: "sec_running J' (s1\<lparr>m_desc := m_desc s\<rparr>)"
    using undisturbed_running(2) [where J = J and J' = J', OF s1(2,3) r0] by (simp add: sec_running_def)
  have "ran_at s0 = (ran_at s)(At_EL0 True := ran_at s (At_EL0 True) @ [(f, x)])"
    by (rule ran_at_eqI) (simp_all add: s0_def)
  then have tr: "ran_at (s1\<lparr>m_desc := m_desc s\<rparr>) = (ran_at s)(At_EL0 True := ran_at s (At_EL0 True) @ [(f, x)])"
    using undisturbed_ran_at [OF s1(2)] by (simp only: ran_at_desc)
  show ?thesis
    using sec_park [OF r1, of a hw "m_desc s"] sw tr by (subst sec_run.simps) fastforce
qed

text \<open>A dispatch for another level: \<open>run_test\<close> at secure EL0 forwards it with an \<open>svc\<close>; when
  that returns, the loop parks.\<close>

lemma levels: "EL1 \<noteq> EL0" "EL3 \<noteq> EL0" "EL3 \<noteq> EL1" "EL1 \<noteq> EL3" "NONSECURE \<noteq> SECURE" "SECURE \<noteq> NONSECURE"
  "exception_level_el0 = EL0" "exception_level_el1 = EL1" "exception_level_el3 = EL3" "EL0 \<noteq> EL3"
  by (simp_all add: c_const)

lemma sec_forwarded:
  assumes "disp_el (m_desc s) = ucast el" "disp_state (m_desc s) = ucast state" "el \<noteq> EL0 \<or> state \<noteq> SECURE"
    and svc: "sec_svc a hw SVC_OP_DISPATCH (dispatch_desc junk (disp_fid (m_desc s)) el state (ucast (disp_arg (m_desc s)))) s
        = Some (Returned r d1 s1)" and s1: "sec_running J s1"
  shows "\<exists>s'. sec_run a hw junk SVC_OP_DISPATCH s = Some (SVC_OP_YIELD, s') \<and> ns_running J s' \<and> ran_at s' = ran_at s1"
proof -
  have sw: "sec_switch a hw junk SVC_OP_DISPATCH s = Some (Returned SVC_OP_YIELD (m_desc s) s1)"
    using assms(1-3) svc
    by (auto simp: sec_switch_def sec_forward_def el0_sec_switch_def el0_run_test_def sec_el0_def returned_def
        run_test_def levels(7))
  have r1: "sec_running J (s1\<lparr>m_desc := m_desc s\<rparr>)" using s1 by (simp add: sec_running_def)
  have tr: "ran_at (s1\<lparr>m_desc := m_desc s\<rparr>) = ran_at s1" by (rule ran_at_eqI) simp_all
  show ?thesis
    using sec_park [OF r1, of a hw "m_desc s"] sw tr by (subst sec_run.simps) fastforce
qed

lemma el1_svc_dispatch_local:
  assumes "disp_el d = ucast EL1" "disp_state d = ucast (el1_secure s)"
    and run: "run_test (test_func a EL1 (el1_secure s)) EL1 (el1_secure s) zero_desc (disp_fid d) EL1 (el1_secure s) (ucast (disp_arg d)) = Run f x"
  shows "el1_handle_svc a hw SVC_OP_DISPATCH d elr s = 
     Option.bind (call hw f x (s\<lparr>el1_ran := el1_ran s @ [(f, x)]\<rparr>)) (\<lambda>s1. Some (0, d, s1\<lparr>el1_elr := elr\<rparr>))"
  using assms
  by (cases "call hw f x (s\<lparr>el1_ran := el1_ran s @ [(f, x)]\<rparr>)")
     (simp_all add: el1_handle_svc_def el1_svc_switch_def el1_dispatch_def el1_run_test_def levels(8))

lemma el1_svc_dispatch_away:
  assumes "\<not> (disp_el d = ucast EL1 \<and> disp_state d = ucast (el1_secure s))"
  shows "el1_handle_svc a hw SVC_OP_DISPATCH d elr s =
     Option.bind (smc hw SMC_OP_DISPATCH (s\<lparr>ibuf := d\<rparr>)) (\<lambda>(r, s1). Some (0, ibuf s1, s1\<lparr>el1_elr := elr\<rparr>))"
  using assms
  by (cases "smc hw SMC_OP_DISPATCH (s\<lparr>ibuf := d\<rparr>)")
     (auto simp: el1_handle_svc_def el1_svc_switch_def el1_dispatch_def levels(8))

lemma sec_dispatch_el1:
  assumes "sec_running J s" "tame J J' hw f" "disp_el (m_desc s) = ucast EL1" "disp_state (m_desc s) = ucast SECURE"
    and run: "\<And>j. run_test (test_func a EL1 SECURE) EL1 SECURE j (disp_fid (m_desc s)) EL1 SECURE (ucast (disp_arg (m_desc s))) = Run f x"
  shows "\<exists>s'. sec_run a hw junk SVC_OP_DISPATCH s = Some (SVC_OP_YIELD, s') \<and> ns_running J' s' \<and>
     ran_at s' = (ran_at s)(At_EL1 True := ran_at s (At_EL1 True) @ [(f, x)])"
proof -
  let ?d = "dispatch_desc junk (disp_fid (m_desc s)) EL1 SECURE (ucast (disp_arg (m_desc s)))"
  define s0 where "s0 = s\<lparr>el1_ran := el1_ran s @ [(f, x)]\<rparr>"
  have r0: "sec_running J s0" using assms(1) by (simp add: sec_running_def s0_def)
  obtain s2 where s2: "call hw f x s0 = Some s2" "undisturbed s0 s2" "J' (tst s2)"
    using tameE [OF assms(2), of s0] r0 by blast
  define s1 where "s1 = s2\<lparr>el1_elr := el1_elr s\<rparr>"
  have sec: "el1_secure s = SECURE" using assms(1) by (simp add: sec_running_def)
  have u: "ucast (ucast (ucast (disp_arg (m_desc s)) :: u32) :: u64) = (ucast (disp_arg (m_desc s)) :: u32)" by simp
  have "el1_handle_svc a hw SVC_OP_DISPATCH ?d (el1_elr s) s = Some (0, ?d, s1)"
    using el1_svc_dispatch_local [of ?d s a f x hw "el1_elr s"] run sec s2(1) by (simp add: layout s0_def s1_def)
  moreover have "el1_request SVC_OP_DISPATCH ?d s = None" using sec by (simp add: el1_request_def layout)
  ultimately have svc: "sec_svc a hw SVC_OP_DISPATCH ?d s = Some (Returned 0 ?d s1)" by (simp add: sec_svc_def)
  have r1: "sec_running J' s1" using undisturbed_running(2) [where J = J and J' = J', OF s2(2,3) r0] by (simp add: sec_running_def s1_def)
  have "ran_at s0 = (ran_at s)(At_EL1 True := ran_at s (At_EL1 True) @ [(f, x)])"
    using sec by (intro ran_at_eqI) (simp_all add: s0_def)
  moreover have "ran_at s1 = ran_at s2" by (rule ran_at_eqI) (simp_all add: s1_def)
  ultimately have "ran_at s1 = (ran_at s)(At_EL1 True := ran_at s (At_EL1 True) @ [(f, x)])"
    using undisturbed_ran_at [OF s2(2)] by simp
  then show ?thesis using sec_forwarded [OF assms(3,4) _ svc r1] levels(1) by simp
qed

lemma sec_dispatch_el3:
  assumes "sec_running J s" "disp_el (m_desc s) = ucast EL3" "disp_state (m_desc s) = ucast SECURE"
    and f: "unat (disp_fid (m_desc s)) < length (el3_test_func a)" "el3_test_func a ! unat (disp_fid (m_desc s)) = Some f"
  shows "\<exists>s'. sec_run a hw junk SVC_OP_DISPATCH s = Some (SVC_OP_YIELD, s') \<and> ns_running J s' \<and>
     ran_at s' = (ran_at s)(At_EL3 := ran_at s At_EL3 @ [(f, ucast (disp_arg (m_desc s)))])"
proof -
  let ?d = "dispatch_desc junk (disp_fid (m_desc s)) EL3 SECURE (ucast (disp_arg (m_desc s)))"
  define t where "t = s\<lparr>ibuf := ?d, m_pend_op := SVC_OP_DISPATCH, m_pend := ?d, m_pend_elr := el1_elr s\<rparr>"
  have ns: "r_scr_el3 (cpu_of (m_el3 s)) AND 1 = 0" "el3_inv (m_el3 t)" using assms(1) by (simp_all add: sec_running_def t_def)
  have "ucast SECURE = (0 :: u64)" by (simp add: c_const)
  then obtain e where e: "enter_el3 a SMC_OP_DISPATCH t = Some (0, False, after ?d e t)"
    "el3_kept 0 t e" "el3_ran e = el3_ran (m_el3 t) @ [(f, ucast (disp_arg (m_desc s)))]"
    using enter_dispatch_local [OF ns(2), of a f] ns(1) f by (auto simp: t_def layout)
  define s1 where "s1 = (after ?d e t)\<lparr>el1_elr := el1_elr s\<rparr>"
  have nl: "\<not> (disp_el ?d = ucast EL1 \<and> disp_state ?d = ucast (el1_secure s))"
    using levels(3) by (simp add: layout ucast_u64_inj)
  then have "el1_request SVC_OP_DISPATCH ?d s = Some (SMC_OP_DISPATCH, s\<lparr>ibuf := ?d\<rparr>)"
    by (simp add: el1_request_def)
  then have svc: "sec_svc a hw SVC_OP_DISPATCH ?d s = Some (Returned 0 ?d s1)"
    using e(1) el1_svc_dispatch_away [OF nl] by (simp add: sec_svc_def t_def s1_def)
  have r1: "sec_running J s1" using assms(1) e(2) by (simp add: sec_running_def s1_def el3_kept_def t_def)
  have "ran_at s1 = (ran_at s)(At_EL3 := ran_at s At_EL3 @ [(f, ucast (disp_arg (m_desc s)))])"
    using e(3) by (intro ran_at_eqI) (simp_all add: s1_def t_def)
  then show ?thesis using sec_forwarded [OF assms(2,3) _ svc r1] levels(2) by simp
qed

section \<open>From the non-secure world\<close>

text \<open>The secure world is woken by a forwarded operation: its pending yield returns that
  operation with the descriptor in the interop buffer.\<close>

lemma sec_resume_yield:
  assumes "m_pend_op s = SVC_OP_YIELD"
  shows "sec_resume a hw junk ret s = sec_run a hw junk ret (s\<lparr>el1_elr := m_pend_elr s, m_desc := ibuf s\<rparr>)"
  using assms by (simp add: sec_resume_def el1_handle_svc_def el1_svc_switch_def)

lemma ns_smc_dispatch_away:
  assumes "ns_running J s" "\<not> (disp_el (ibuf s) = ucast EL3 \<and> disp_state (ibuf s) = 1)"
  shows "\<exists>s1. ns_smc a hw junk SMC_OP_DISPATCH s = sec_run a hw junk SVC_OP_DISPATCH s1 \<and> sec_running J s1 \<and>
     m_desc s1 = ibuf s \<and> ran_at s1 = ran_at s"
proof -
  have ns: "el3_inv (m_el3 s)" "r_scr_el3 (cpu_of (m_el3 s)) AND 1 = 1" using assms(1) by (simp_all add: ns_running_def)
  obtain e where e: "enter_el3 a SMC_OP_DISPATCH s = Some (SVC_OP_DISPATCH, True, swap_world (after (ibuf s) e s))"
    "el3_kept 0 s e" "el3_ran e = el3_ran (m_el3 s)"
    using enter_dispatch_away [OF ns(1), of a] assms(2) ns(2) by auto
  define s1 where "s1 = (swap_world (after (ibuf s) e s))\<lparr>el1_elr := m_pend_elr s, m_desc := ibuf s\<rparr>"
  have "ns_smc a hw junk SMC_OP_DISPATCH s = sec_run a hw junk SVC_OP_DISPATCH s1"
    using e(1) assms(1) sec_resume_yield [of "swap_world (after (ibuf s) e s)"]
    by (simp add: ns_smc_def s1_def ns_running_def)
  moreover have "sec_running J s1"
    using assms(1) e(2) by (simp add: ns_running_def sec_running_def el3_kept_def s1_def)
  moreover have "ran_at s1 = ran_at s"
    using assms(1) e(3) by (intro ran_at_eqI) (simp_all add: s1_def ns_running_def c_const)
  ultimately show ?thesis by (intro exI [of _ s1]) (simp add: s1_def)
qed

text \<open>The descriptor does not matter for who runs.\<close>

lemma ns_running_upd [simp]:
  "ns_running J (s\<lparr>ibuf := d\<rparr>) = ns_running J s" "ns_running J (s\<lparr>el1_elr := x\<rparr>) = ns_running J s"
  "ns_running J (s\<lparr>ran0_nsec := y\<rparr>) = ns_running J s" "ns_running J (s\<lparr>el1_ran := y\<rparr>) = ns_running J s"
  by (simp_all add: ns_running_def)

lemma ran_at_upd [simp]: "ran_at (s\<lparr>ibuf := d\<rparr>) = ran_at s" "ran_at (s\<lparr>el1_elr := x\<rparr>) = ran_at s"
  by (rule ran_at_eqI; simp)+

lemma tame_smc [simp]: "tame J J' (hw\<lparr>smc := f\<rparr>) = tame J J' hw"
  by (simp add: fun_eq_iff tame_def)

lemma ns_svc_dispatch_local:
  assumes "ns_running J s" "tame J J' hw f" "disp_el d = ucast EL1" "disp_state d = ucast NONSECURE"
    and run: "\<And>j. run_test (test_func a EL1 NONSECURE) EL1 NONSECURE j (disp_fid d) EL1 NONSECURE (ucast (disp_arg d)) = Run f x"
  shows "\<exists>s'. ns_svc a hw junk SVC_OP_DISPATCH d s = Some (0, d, s') \<and> ns_running J' s' \<and>
     ran_at s' = (ran_at s)(At_EL1 False := ran_at s (At_EL1 False) @ [(f, x)])"
proof -
  define s0 where "s0 = s\<lparr>el1_ran := el1_ran s @ [(f, x)]\<rparr>"
  have r0: "ns_running J s0" using assms(1) by (simp add: s0_def)
  obtain s2 where s2: "call hw f x s0 = Some s2" "undisturbed s0 s2" "J' (tst s2)"
    using tameE [OF assms(2), of s0] r0 by blast
  define s' where "s' = s2\<lparr>el1_elr := el1_elr s\<rparr>"
  have sec: "el1_secure s = NONSECURE" using assms(1) by (simp add: ns_running_def)
  have "ns_svc a hw junk SVC_OP_DISPATCH d s = Some (0, d, s')"
    using el1_svc_dispatch_local [of d s a f x "hw\<lparr>smc := ns_smc a hw junk\<rparr>" "el1_elr s"] assms run sec s2(1)
    by (simp add: ns_svc_def s'_def s0_def)
  moreover have "ran_at s0 = (ran_at s)(At_EL1 False := ran_at s (At_EL1 False) @ [(f, x)])"
    using sec by (intro ran_at_eqI) (simp_all add: s0_def levels)
  then have "ran_at s' = (ran_at s)(At_EL1 False := ran_at s (At_EL1 False) @ [(f, x)])"
    using undisturbed_ran_at [OF s2(2)] by (simp add: s'_def)
  moreover have "ns_running J' s'" using undisturbed_running(1) [where J = J and J' = J', OF s2(2,3) r0] by (simp add: s'_def)
  ultimately show ?thesis by blast
qed

lemma ns_svc_dispatch_away:
  assumes "ns_running J s" "\<not> (disp_el d = ucast EL1 \<and> disp_state d = ucast NONSECURE)"
    and smc: "ns_smc a hw junk SMC_OP_DISPATCH (s\<lparr>ibuf := d\<rparr>) = Some (r, s1)" "ns_running J' s1"
  shows "\<exists>s'. ns_svc a hw junk SVC_OP_DISPATCH d s = Some (0, ibuf s1, s') \<and> ns_running J' s' \<and> ran_at s' = ran_at s1"
proof -
  have sec: "el1_secure s = NONSECURE" using assms(1) by (simp add: ns_running_def)
  have "ns_svc a hw junk SVC_OP_DISPATCH d s = Some (0, ibuf s1, s1\<lparr>el1_elr := el1_elr s\<rparr>)"
    using el1_svc_dispatch_away [of d s a "hw\<lparr>smc := ns_smc a hw junk\<rparr>" "el1_elr s"] assms(2) smc(1) sec
    by (simp add: ns_svc_def)
  then show ?thesis using smc(2) by simp
qed

lemma ns_smc_dispatch_el3:
  assumes "ns_running J s" "disp_el (ibuf s) = ucast EL3" "disp_state (ibuf s) = ucast NONSECURE"
    and f: "unat (disp_fid (ibuf s)) < length (el3_test_func a)" "el3_test_func a ! unat (disp_fid (ibuf s)) = Some f"
  shows "\<exists>s1. ns_smc a hw junk SMC_OP_DISPATCH s = Some (0, s1) \<and> ns_running J s1 \<and>
     ran_at s1 = (ran_at s)(At_EL3 := ran_at s At_EL3 @ [(f, ucast (disp_arg (ibuf s)))])"
proof -
  have ns: "el3_inv (m_el3 s)" "r_scr_el3 (cpu_of (m_el3 s)) AND 1 = 1" using assms(1) by (simp_all add: ns_running_def)
  have "disp_state (ibuf s) = r_scr_el3 (cpu_of (m_el3 s)) AND 1" using assms(3) ns(2) by (simp add: c_const)
  then obtain e where e: "enter_el3 a SMC_OP_DISPATCH s = Some (0, False, after (ibuf s) e s)" "el3_kept 1 s e"
    "el3_ran e = el3_ran (m_el3 s) @ [(f, ucast (disp_arg (ibuf s)))]"
    using enter_dispatch_local [OF ns(1) assms(2) _ f] ns(2) by auto
  have "ran_at (after (ibuf s) e s) = (ran_at s)(At_EL3 := ran_at s At_EL3 @ [(f, ucast (disp_arg (ibuf s)))])"
    using e(3) by (intro ran_at_eqI) simp_all
  moreover have "ns_running J (after (ibuf s) e s)" using assms(1) e(2) by (simp add: ns_running_def el3_kept_def)
  ultimately show ?thesis using e(1) by (simp add: ns_smc_def)
qed

text \<open>A test case for another place is forwarded, and the caller goes on when the call returns.\<close>

lemma ns_run_test_forward:
  assumes "el \<noteq> EL0 \<or> state \<noteq> NONSECURE"
    and "ns_svc a hw junk SVC_OP_DISPATCH (dispatch_desc junk fid el state arg) s = Some (r, d, s')"
  shows "el0_run_test a (ns_el0 a hw junk) NONSECURE junk fid el state arg s = Some s'"
  using assms by (auto simp: el0_run_test_def run_test_def levels(7) ns_el0_def)

lemma run_test_slot:
  assumes "unat fid < length (test_func a el state)" "test_func a el state ! unat fid = Some f"
  shows "run_test (test_func a el state) el state j fid el state arg = Run f arg"
  using assms by (simp add: run_test_def)

lemma ns_run_test_secure:
  assumes s: "ns_running J s" "body_ok J J' hw el f" and el: "el \<in> {EL0, EL1, EL3}"
    and slot: "unat fid < length (test_func a el SECURE)" "test_func a el SECURE ! unat fid = Some f"
  shows "\<exists>s'. el0_run_test a (ns_el0 a hw junk) NONSECURE junk fid el SECURE arg s = Some s' \<and> ns_running J' s' \<and>
     ran_at s' = (ran_at s)(place_of el SECURE := ran_at s (place_of el SECURE) @ [(f, arg)])"
proof -
  let ?d = "dispatch_desc junk fid el SECURE arg"
  have away: "\<not> (disp_el ?d = ucast EL1 \<and> disp_state ?d = ucast NONSECURE)" "\<not> (disp_el ?d = ucast EL3 \<and> disp_state ?d = 1)"
    by (simp_all add: layout c_const)
  obtain s1 where s1: "ns_smc a hw junk SMC_OP_DISPATCH (s\<lparr>ibuf := ?d\<rparr>) = sec_run a hw junk SVC_OP_DISPATCH s1"
    "sec_running J s1" "m_desc s1 = ?d" "ran_at s1 = ran_at s"
    using ns_smc_dispatch_away [of J "s\<lparr>ibuf := ?d\<rparr>" a hw junk] s(1) away(2) by auto
  have run: "run_test (test_func a el SECURE) el SECURE j fid el SECURE arg = Run f arg" for j
    by (rule run_test_slot [OF slot])
  have "\<exists>s2. sec_run a hw junk SVC_OP_DISPATCH s1 = Some (SVC_OP_YIELD, s2) \<and> ns_running J' s2 \<and>
     ran_at s2 = (ran_at s)(place_of el SECURE := ran_at s (place_of el SECURE) @ [(f, arg)])"
    using el
  proof (elim insertE)
    assume "el = EL0"
    then show ?thesis
      using sec_dispatch_el0 [OF s1(2), of J' hw f a junk arg] s(2) s1(3,4) run by (simp add: layout place_of_def body_ok_def levels)
  next
    assume "el = EL1"
    then show ?thesis
      using sec_dispatch_el1 [OF s1(2), of J' hw f a arg junk] s(2) s1(3,4) run by (simp add: layout place_of_def body_ok_def levels)
  next
    assume e: "el = EL3"
    then have J: "J' = J" using s(2) by (simp add: body_ok_def)
    have "test_func a el SECURE = el3_test_func a" using e by (simp add: test_func_def levels)
    then show ?thesis
      using e J sec_dispatch_el3 [OF s1(2), of a f hw junk] s1(3,4) slot by (simp add: layout place_of_def levels)
  qed simp
  then obtain s2 where s2: "ns_smc a hw junk SMC_OP_DISPATCH (s\<lparr>ibuf := ?d\<rparr>) = Some (SVC_OP_YIELD, s2)" "ns_running J' s2"
    "ran_at s2 = (ran_at s)(place_of el SECURE := ran_at s (place_of el SECURE) @ [(f, arg)])"
    using s1(1) by auto
  show ?thesis
    using ns_svc_dispatch_away [OF s(1) away(1) s2(1,2)] s2(3) ns_run_test_forward [of el SECURE a hw junk fid arg s]
    by (fastforce simp: levels)
qed

lemma ns_run_test_nonsecure:
  assumes s: "ns_running J s" "body_ok J J' hw el f" and el: "el \<in> {EL0, EL1, EL3}"
    and slot: "unat fid < length (test_func a el NONSECURE)" "test_func a el NONSECURE ! unat fid = Some f"
  shows "\<exists>s'. el0_run_test a (ns_el0 a hw junk) NONSECURE junk fid el NONSECURE arg s = Some s' \<and> ns_running J' s' \<and>
     ran_at s' = (ran_at s)(place_of el NONSECURE := ran_at s (place_of el NONSECURE) @ [(f, arg)])"
proof -
  let ?d = "dispatch_desc junk fid el NONSECURE arg"
  have run: "run_test (test_func a el NONSECURE) el NONSECURE j fid el NONSECURE arg = Run f arg" for j
    by (rule run_test_slot [OF slot])
  show ?thesis
    using el
  proof (elim insertE)
    assume e: "el = EL0"
    define s0 where "s0 = s\<lparr>ran0_nsec := ran0_nsec s @ [(f, arg)]\<rparr>"
    have r0: "ns_running J s0" using s(1) by (simp add: s0_def)
    have tm: "tame J J' hw f" using s(2) e levels(2) by (simp add: body_ok_def)
    obtain s1 where s1: "call hw f arg s0 = Some s1" "undisturbed s0 s1" "J' (tst s1)"
      using tameE [OF tm, of s0] r0 by blast
    have "ran_at s0 = (ran_at s)(At_EL0 False := ran_at s (At_EL0 False) @ [(f, arg)])"
      by (rule ran_at_eqI) (simp_all add: s0_def)
    then show ?thesis
      using e run [of junk] s1(1) undisturbed_ran_at [OF s1(2)] undisturbed_running(1) [where J = J and J' = J', OF s1(2,3) r0]
      by (simp add: el0_run_test_def ns_el0_def levels place_of_def s0_def)
  next
    assume e: "el = EL1"
    then have tm: "tame J J' hw f" using s(2) by (simp add: body_ok_def levels)
    show ?thesis
      using e ns_svc_dispatch_local [OF s(1) tm, of ?d a arg junk] run ns_run_test_forward [of el NONSECURE a hw junk fid arg s]
      by (fastforce simp: layout levels place_of_def)
  next
    assume e: "el = EL3"
    then have tf: "test_func a el NONSECURE = el3_test_func a" and J: "J' = J" using s(2) by (simp_all add: test_func_def levels body_ok_def)
    have away: "\<not> (disp_el ?d = ucast EL1 \<and> disp_state ?d = ucast NONSECURE)"
      using e by (simp add: layout c_const)
    obtain s1 where s1: "ns_smc a hw junk SMC_OP_DISPATCH (s\<lparr>ibuf := ?d\<rparr>) = Some (0, s1)" "ns_running J s1"
      "ran_at s1 = (ran_at s)(At_EL3 := ran_at s At_EL3 @ [(f, arg)])"
      using ns_smc_dispatch_el3 [of J "s\<lparr>ibuf := ?d\<rparr>" a f hw junk] s(1) e slot tf by (auto simp: layout)
    show ?thesis
      using ns_svc_dispatch_away [OF s(1) away s1(1,2)] s1(3) e J ns_run_test_forward [of el NONSECURE a hw junk fid arg s]
      by (fastforce simp: levels place_of_def)
  qed simp
qed

section \<open>Properties\<close>

text \<open>C19: a test that non-secure EL0 runs for any level and world whose table has it is run
  exactly once, with its argument, at that level and in that world and nowhere else; the call
  returns to non-secure EL0 with the secure world parked in its yield, EL3's secure state and
  SCR_EL3 in agreement, and both worlds ready for the next test.\<close>

theorem dispatched_test_runs_once:
  assumes "ns_running J s" "body_ok J J' hw el f" and "el \<in> {EL0, EL1, EL3}" "state \<in> {SECURE, NONSECURE}"
    and "unat fid < length (test_func a el state)" "test_func a el state ! unat fid = Some f"
  shows "\<exists>s'. el0_run_test a (ns_el0 a hw junk) NONSECURE junk fid el state arg s = Some s' \<and> ns_running J' s' \<and>
     ran_at s' = (ran_at s)(place_of el state := ran_at s (place_of el state) @ [(f, arg)])"
  using assms ns_run_test_secure [OF assms(1-3)] ns_run_test_nonsecure [OF assms(1-3)] by auto

end
