(* ===== verification/SystemRun.thy ===== *)
theory SystemRun
  imports SystemProofs
begin

text \<open>
  The test program as a whole: the inter-level test, every case of the table, and
  \<open>tztest_start\<close>. The locale \<open>interop_peer\<close> is what the EL1 step of the inter-level test needs
  from the levels above and across: they return, and leave the descriptor \<open>k\<close> steps further.
\<close>

section \<open>The inter-level test\<close>

locale interop_peer =
  fixes peer :: "u32 \<Rightarrow> 'a el1_scheme \<Rightarrow> (u32 \<times> 'a el1_scheme) option"
    and ready :: "'a el1_scheme \<Rightarrow> bool"
    and k :: nat
  assumes test: "ready s \<Longrightarrow> test_count (ibuf s) \<noteq> 2 \<Longrightarrow>
      \<exists>r s'. peer SMC_OP_TEST s = Some (r, s') \<and> ready s' \<and> ibuf s' = (test_step ^^ k) (ibuf s)"
    and ready_buf: "ready (s\<lparr>ibuf := d\<rparr>) = ready s"
begin

lemma interop_test_steps:
  assumes "ready s" "test_count d \<noteq> 1" "smc hw = peer"
  shows "\<exists>s'. el1_interop_test hw d s = Some ((test_step ^^ (k + 2)) d, s') \<and> ready s'"
proof -
  have "test_count (test_step d) \<noteq> 2" using assms(2) by (simp add: test_step_fields)
  then obtain r s1 where s1: "peer SMC_OP_TEST (s\<lparr>ibuf := test_step d\<rparr>) = Some (r, s1)" "ready s1"
    "ibuf s1 = (test_step ^^ k) (test_step d)"
    using test [of "s\<lparr>ibuf := test_step d\<rparr>"] ready_buf assms(1) by auto
  have "test_step (ibuf s1) = (test_step ^^ (k + 2)) d" by (simp add: s1(3) funpow_swap1)
  then show ?thesis using s1 assms(3) ready_buf by (simp add: el1_interop_test_def Let_def)
qed

lemma interop_passes:
  assumes "ready s" "smc hw = peer" "k \<le> 60"
  shows "\<exists>d s'. el1_interop_test hw (interop_init junk) s = Some (d, s') \<and> ready s' \<and> interop_ok d \<and>
     test_count d = of_nat (k + 2)"
proof -
  have ok: "interop_ok ((test_step ^^ (k + 2)) (interop_init junk))"
    "test_count ((test_step ^^ (k + 2)) (interop_init junk)) = of_nat (k + 2)"
    using interop_steps [of "k + 2" junk] assms(3) by auto
  have "test_count (interop_init junk) \<noteq> 1" by (simp add: interop_init_ok)
  then show ?thesis using interop_test_steps [OF assms(1) _ assms(2), of "interop_init junk"] ok by blast
qed

end

text \<open>The peer in this program: EL3 takes one step, wakes secure EL0, which takes its step on a
  copy of its own, and parks again.\<close>

lemma enter_test:
  assumes "el3_inv (m_el3 s)" "test_count (ibuf s) \<noteq> 2"
  shows "\<exists>e. enter_el3 a SMC_OP_TEST s = Some (SVC_OP_TEST, True, swap_world (after (test_step (ibuf s)) e s)) \<and>
     el3_kept ((r_scr_el3 (cpu_of (m_el3 s)) AND 1) XOR 1) s e \<and> el3_ran e = el3_ran (m_el3 s)"
proof -
  have "data_el (test_step (ibuf s)) \<noteq> 3"
    using assms(2) by (simp add: data_el_is_test_count test_step_fields)
  then have "el3_smc_switch a (ucast SMC_OP_TEST) (ibuf s) (smc_entry SMC_OP_TEST s) =
      Some (SVC_OP_TEST, test_step (ibuf s), smc_entry SMC_OP_TEST s)"
    by (simp add: el3_smc_switch_def el3_get_reg_def)
  from enter_switch [OF this _ _ assms(1)] show ?thesis by (auto simp: el3_kept_def)
qed

lemma sec_run_test_op:
  assumes "sec_running J s"
  shows "\<exists>s'. sec_run a hw junk SVC_OP_TEST s = Some (SVC_OP_YIELD, s') \<and> ns_running J s' \<and> ran_at s' = ran_at s \<and>
     ibuf s' = ibuf s \<and> m_desc s' = test_step (m_desc s)"
proof -
  let ?d = "test_step (m_desc s)"
  have sw: "sec_switch a hw junk SVC_OP_TEST s = Some (Returned SVC_OP_YIELD ?d s)"
    by (simp add: sec_switch_def sec_forward_def el0_sec_switch_def returned_def)
  have r1: "sec_running J (s\<lparr>m_desc := ?d\<rparr>)" using assms by (simp add: sec_running_def)
  have tr: "ran_at (s\<lparr>m_desc := ?d\<rparr>) = ran_at s" by (rule ran_at_eqI) simp_all
  show ?thesis
    using sec_park [OF r1, of a hw ?d] sw tr by (subst sec_run.simps) fastforce
qed

lemma ns_smc_test:
  assumes "ns_running J s" "test_count (ibuf s) \<noteq> 2"
  shows "\<exists>s'. ns_smc a hw junk SMC_OP_TEST s = Some (SVC_OP_YIELD, s') \<and> ns_running J s' \<and> ran_at s' = ran_at s \<and>
     ibuf s' = test_step (ibuf s) \<and> m_desc s' = test_step (test_step (ibuf s))"
proof -
  have ns: "el3_inv (m_el3 s)" "r_scr_el3 (cpu_of (m_el3 s)) AND 1 = 1" using assms(1) by (simp_all add: ns_running_def)
  obtain e where e: "enter_el3 a SMC_OP_TEST s = Some (SVC_OP_TEST, True, swap_world (after (test_step (ibuf s)) e s))"
    "el3_kept 0 s e" "el3_ran e = el3_ran (m_el3 s)"
    using enter_test [OF ns(1) assms(2), of a] ns(2) by auto
  define s1 where "s1 = (swap_world (after (test_step (ibuf s)) e s))\<lparr>el1_elr := m_pend_elr s, m_desc := test_step (ibuf s)\<rparr>"
  have "ns_smc a hw junk SMC_OP_TEST s = sec_run a hw junk SVC_OP_TEST s1"
    using e(1) assms(1) sec_resume_yield [of "swap_world (after (test_step (ibuf s)) e s)"]
    by (simp add: ns_smc_def s1_def ns_running_def)
  moreover have "sec_running J s1"
    using assms(1) e(2) by (simp add: ns_running_def sec_running_def el3_kept_def s1_def)
  moreover have "ran_at s1 = ran_at s"
    using assms(1) e(3) by (intro ran_at_eqI) (simp_all add: s1_def ns_running_def c_const)
  ultimately show ?thesis using sec_run_test_op [of J s1 a hw junk] by (auto simp: s1_def)
qed

interpretation ns_peer: interop_peer "ns_smc a hw junk" "\<lambda>s. ns_running J s \<and> ran_at s = r" 1
  for a hw junk J r
proof (unfold_locales, goal_cases)
  case (1 s)
  then show ?case using ns_smc_test [of J s a hw junk] by fastforce
next
  case (2 s d)
  then show ?case by simp
qed

text \<open>A check that passed is counted; \<open>J\<close> is indexed by the number of checks.\<close>

definition counting :: "(nat \<Rightarrow> test_view \<Rightarrow> bool) \<Rightarrow> bool" where
  "counting J \<longleftrightarrow> (\<forall>n v. J n v \<longrightarrow> J (n + 1) (v\<lparr>tv_cnt := count_check True (tv_cnt v)\<rparr>))"

lemma count_sys_running:
  assumes "ns_running (J n) s" "counting J"
  shows "ns_running (J (n + 1)) (count_sys True s) \<and> ran_at (count_sys True s) = ran_at s"
proof -
  have "tst (count_sys True s) = (tst s)\<lparr>tv_cnt := count_check True (tv_cnt (tst s))\<rparr>"
    by (simp add: tst_def view_of_def count_sys_def del: tst_fold)
  then have "ns_running (J (n + 1)) (count_sys True s)"
    using assms by (simp add: ns_running_def counting_def) (simp add: count_sys_def)
  moreover have "ran_at (count_sys True s) = ran_at s" by (rule ran_at_eqI) (simp_all add: count_sys_def)
  ultimately show ?thesis by blast
qed

lemma ns_interop_test:
  assumes "ns_running (J n) s" "counting J"
  shows "\<exists>s'. interop_test (ns_el0 a hw junk) junk s = Some (True, s') \<and> ns_running (J (n + 1)) s' \<and> ran_at s' = ran_at s"
proof -
  obtain d s1 where "el1_interop_test (hw\<lparr>smc := ns_smc a hw junk\<rparr>) (interop_init junk) s = Some (d, s1)"
    "ns_running (J n) s1" "ran_at s1 = ran_at s" "interop_ok d"
    using ns_peer.interop_passes [of "J n" s "ran_at s" "hw\<lparr>smc := ns_smc a hw junk\<rparr>" a hw junk junk] assms by auto
  moreover from this have "ns_svc a hw junk SVC_OP_TEST (interop_init junk) s = Some (0, d, s1\<lparr>el1_elr := el1_elr s\<rparr>)"
    by (simp add: ns_svc_def el1_handle_svc_def el1_svc_switch_def)
  ultimately show ?thesis
    using count_sys_running [of J n "s1\<lparr>el1_elr := el1_elr s\<rparr>"] assms(2) by (simp add: interop_test_def ns_el0_def)
qed

section \<open>The table\<close>

text \<open>The test a case resolves to, and the sequence of tests a place should see.\<close>

definition case_ok :: "arch \<Rightarrow> tztest_case_t \<Rightarrow> bool" where
  "case_ok a t \<longleftrightarrow> tc_fid t \<noteq> 0 \<and> tc_el t \<in> {EL0, EL1, EL3} \<and> tc_state t \<in> {SECURE, NONSECURE} \<and>
     unat (tc_fid t) < length (test_func a (tc_el t) (tc_state t)) \<and>
     test_func a (tc_el t) (tc_state t) ! unat (tc_fid t) \<noteq> None"

definition planned :: "arch \<Rightarrow> tztest_case_t list \<Rightarrow> place \<Rightarrow> (test_fn \<times> u32) list" where
  "planned a ts p = map (\<lambda>t. (the (test_func a (tc_el t) (tc_state t) ! unat (tc_fid t)), tc_arg t))
     (filter (\<lambda>t. place_of (tc_el t) (tc_state t) = p) ts)"

lemma tztest_cases_ok: "list_all (case_ok a) (tztest_loop (tztest a))"
  by (cases a) (simp_all add: tztest_def TEST_END_def TEST_def case_ok_def test_func_def el0_test_func_def
      el1_nsec_test_func_def el1_sec_test_func_def el3_test_func_def c_const)

text \<open>The contract for a whole table: \<open>J n\<close> is what holds when \<open>n\<close> checks have been made, and
  \<open>w\<close> says how many checks a case makes.\<close>

definition case_fn :: "arch \<Rightarrow> tztest_case_t \<Rightarrow> test_fn" where
  "case_fn a t = the (test_func a (tc_el t) (tc_state t) ! unat (tc_fid t))"

definition bodies_ok :: "arch \<Rightarrow> (nat \<Rightarrow> test_view \<Rightarrow> bool) \<Rightarrow> (test_fn \<Rightarrow> nat) \<Rightarrow> sys services \<Rightarrow> tztest_case_t list \<Rightarrow> bool" where
  "bodies_ok a J w hw ts \<longleftrightarrow>
     (\<forall>t \<in> set ts. \<forall>n. body_ok (J n) (J (n + w (case_fn a t))) hw (tc_el t) (case_fn a t))"

definition total_checks :: "arch \<Rightarrow> (test_fn \<Rightarrow> nat) \<Rightarrow> tztest_case_t list \<Rightarrow> nat" where
  "total_checks a w ts = sum_list (map (\<lambda>t. w (case_fn a t)) ts)"

lemma total_checks_simps [simp]:
  "total_checks a w [] = 0" "total_checks a w (t # ts) = w (case_fn a t) + total_checks a w ts"
  by (simp_all add: total_checks_def)

lemma ns_run_case:
  assumes "ns_running J s" "body_ok J J' hw (tc_el t) (case_fn a t)" "case_ok a t"
  shows "\<exists>s'. el0_run_test a (ns_el0 a hw junk) NONSECURE junk (tc_fid t) (tc_el t) (tc_state t) (tc_arg t) s = Some s' \<and>
     ns_running J' s' \<and> ran_at s' = (\<lambda>p. ran_at s p @ planned a [t] p)"
proof -
  obtain f where f: "test_func a (tc_el t) (tc_state t) ! unat (tc_fid t) = Some f" using assms(3) by (auto simp: case_ok_def)
  then have b: "body_ok J J' hw (tc_el t) f" using assms(2) by (simp add: case_fn_def)
  have el: "tc_el t \<in> {EL0, EL1, EL3}" and slot: "unat (tc_fid t) < length (test_func a (tc_el t) (tc_state t))"
    using assms(3) by (auto simp: case_ok_def)
  have st: "tc_state t = SECURE \<or> tc_state t = NONSECURE" using assms(3) by (auto simp: case_ok_def)
  have "\<exists>s'. el0_run_test a (ns_el0 a hw junk) NONSECURE junk (tc_fid t) (tc_el t) (tc_state t) (tc_arg t) s = Some s' \<and>
     ns_running J' s' \<and> ran_at s' = (ran_at s)(place_of (tc_el t) (tc_state t) :=
       ran_at s (place_of (tc_el t) (tc_state t)) @ [(f, tc_arg t)])"
    using st ns_run_test_secure [OF assms(1) b el, where a = a] ns_run_test_nonsecure [OF assms(1) b el, where a = a] slot f
    by (elim disjE) simp_all
  then show ?thesis using f by (fastforce simp: planned_def fun_eq_iff)
qed

lemma ns_run_tests:
  assumes "ns_running (J n) s" "bodies_ok a J w hw ts" "list_all (case_ok a) ts"
  shows "\<exists>s'. run_tests a (ns_el0 a hw junk) junk ts s = Some s' \<and>
     ns_running (J (n + total_checks a w ts)) s' \<and> ran_at s' = (\<lambda>p. ran_at s p @ planned a ts p)"
  using assms
proof (induction ts arbitrary: s n)
  case Nil
  then show ?case by (simp add: planned_def)
next
  case (Cons t ts)
  have t: "case_ok a t" "tc_fid t \<noteq> 0" "body_ok (J n) (J (n + w (case_fn a t))) hw (tc_el t) (case_fn a t)"
    "bodies_ok a J w hw ts"
    using Cons.prems(2,3) by (simp_all add: case_ok_def bodies_ok_def)
  obtain s1 where s1: "el0_run_test a (ns_el0 a hw junk) NONSECURE junk (tc_fid t) (tc_el t) (tc_state t) (tc_arg t) s = Some s1"
    "ns_running (J (n + w (case_fn a t))) s1" "ran_at s1 = (\<lambda>p. ran_at s p @ planned a [t] p)"
    using ns_run_case [OF Cons.prems(1) t(3,1)] by blast
  obtain s' where "run_tests a (ns_el0 a hw junk) junk ts s1 = Some s'"
    "ns_running (J (n + w (case_fn a t) + total_checks a w ts)) s'"
    "ran_at s' = (\<lambda>p. ran_at s1 p @ planned a ts p)"
    using Cons.IH [OF s1(2) t(4)] Cons.prems(3) by auto
  then show ?case using s1 t(2) by (simp add: planned_def fun_eq_iff add.assoc)
qed

lemma ns_tztest_start:
  assumes "ns_running (J n) s" "counting J" "bodies_ok a J w hw (tztest_loop (tztest a))"
  shows "\<exists>s'. tztest_start a (ns_el0 a hw junk) junk s = Some (True, s') \<and>
     ns_running (J (n + 1 + total_checks a w (tztest_loop (tztest a)))) s' \<and>
     (\<forall>p. ran_at s' p = ran_at s p @ planned a (tztest_loop (tztest a)) p)"
proof -
  obtain s1 where s1: "interop_test (ns_el0 a hw junk) junk s = Some (True, s1)" "ns_running (J (n + 1)) s1" "ran_at s1 = ran_at s"
    using ns_interop_test [OF assms(1,2)] by blast
  obtain s' where "run_tests a (ns_el0 a hw junk) junk (tztest_loop (tztest a)) s1 = Some s'"
    "ns_running (J (n + 1 + total_checks a w (tztest_loop (tztest a)))) s'"
    "ran_at s' = (\<lambda>p. ran_at s1 p @ planned a (tztest_loop (tztest a)) p)"
    using ns_run_tests [where J = J, OF s1(2) assms(3) tztest_cases_ok] by blast
  then show ?thesis using s1 run_tests_loop [of a "ns_el0 a hw junk" junk "tztest a"] by (simp add: tztest_start_def)
qed

text \<open>C20: \<open>tztest_start\<close> returns: the inter-level test passes, and then every case of the table
  runs, in order, at the level and in the world it names, and nothing else runs anywhere.\<close>

theorem tztest_start_runs_table:
  assumes "ns_running (J n) s" "counting J" "bodies_ok a J w hw (tztest_loop (tztest a))"
  shows "\<exists>s'. tztest_start a (ns_el0 a hw junk) junk s = Some (True, s') \<and>
     ns_running (J (n + 1 + total_checks a w (tztest_loop (tztest a)))) s' \<and>
     (\<forall>p. ran_at s' p = ran_at s p @ planned a (tztest_loop (tztest a)) p)"
  using ns_tztest_start [OF assms] .

text \<open>C21: the step of secure EL0 in the inter-level test stays in its own descriptor: the SMC
  returns to non-secure EL1 with EL3's step alone, while secure EL0's descriptor is one step
  further, so a failure that only secure EL0 sees is not reported.\<close>

theorem secure_el0_step_lost:
  assumes "ns_running J s" "test_count (ibuf s) \<noteq> 2"
  shows "\<exists>s'. ns_smc a hw junk SMC_OP_TEST s = Some (SVC_OP_YIELD, s') \<and> ibuf s' = test_step (ibuf s) \<and>
     m_desc s' = test_step (ibuf s') \<and> test_fail (ibuf s') = test_fail (test_step (ibuf s))"
  using ns_smc_test [OF assms, of a hw junk] by auto

end
