(* ===== verification/Machine.thy ===== *)
theory Machine
  imports TestSpec SystemRun
begin

text \<open>
  The test programs on the composed machine. \<open>processor\<close> is what the program relies on of the
  processor: where an instruction goes, as a function of the level and the control registers,
  and the values the exception delivers. An exception runs the handler of the level it goes to,
  \<open>el1_handle_exception\<close> or EL3's vector, and the program continues behind the instruction only
  if the handler moved the return address there: at the old address the instruction would trap
  again, for ever. The control registers are those of the processor in EL3's state.
\<close>

section \<open>The processor\<close>

record processor =
  p_route :: "u32 \<Rightarrow> insn \<Rightarrow> (sysreg \<Rightarrow> u64) \<Rightarrow> route"
  p_iss :: "insn \<Rightarrow> u64"
  p_far :: "insn \<Rightarrow> u64"
  p_pc :: "insn \<Rightarrow> u64"
  p_val :: "insn \<Rightarrow> u64"

definition arm_routes :: "processor \<Rightarrow> bool" where
  "arm_routes p \<longleftrightarrow> el0_routes (p_route p EL0) \<and> el1_routes (p_route p EL1)"

fun cpu_reg :: "cpu \<Rightarrow> sysreg \<Rightarrow> u64" where
  "cpu_reg c R_SCR = r_scr_el3 c"
| "cpu_reg c R_CPTR_EL3 = r_cptr_el3 c"
| "cpu_reg c R_CPACR = r_cpacr_el1 c"
| "cpu_reg c R_SCTLR = r_sctlr_el1 c"
| "cpu_reg c R_CURRENTEL = push_bit 2 (ucast EL1)"
| "cpu_reg c _ = 0"

fun cpu_write :: "sysreg \<Rightarrow> u64 \<Rightarrow> cpu \<Rightarrow> cpu" where
  "cpu_write R_SCR v c = c\<lparr>r_scr_el3 := v\<rparr>"
| "cpu_write R_CPTR_EL3 v c = c\<lparr>r_cptr_el3 := v\<rparr>"
| "cpu_write R_CPACR v c = c\<lparr>r_cpacr_el1 := v\<rparr>"
| "cpu_write R_SCTLR v c = c\<lparr>r_sctlr_el1 := v\<rparr>"
| "cpu_write _ v c = c"

definition sys_regs :: "sys \<Rightarrow> sysreg \<Rightarrow> u64" where
  "sys_regs s = cpu_reg (cpu_of (m_el3 s))"

fun perform :: "insn \<Rightarrow> sys \<Rightarrow> u64 \<times> sys" where
  "perform (I_mrs r) s = (sys_regs s r, s)"
| "perform (I_msr r v) s = (0, s\<lparr>m_el3 := upd_cpu (cpu_write r v) (m_el3 s)\<rparr>)"
| "perform _ s = (0, s)"

text \<open>The SMCs of the test programs stay in their world.\<close>

definition local_smc :: "u32 \<Rightarrow> sys \<Rightarrow> (u32 \<times> sys) option" where
  "local_smc op s =
     Option.bind (enter_el3 AArch64 op s) (\<lambda>(ret, sw, s1). if sw then None else Some (ret, s1))"

definition smc_only :: "sys services" where
  "smc_only = \<lparr>smc = local_smc, mrs = (\<lambda>_ _. None), msr = (\<lambda>_ _ _. None), call = (\<lambda>_ _ _. None)\<rparr>"

definition take_el1 :: "processor \<Rightarrow> insn \<Rightarrow> u64 \<Rightarrow> sys \<Rightarrow> (u64 \<times> sys) option" where
  "take_el1 p i ec s =
     Option.bind (el1_handle_exception AArch64 smc_only ec (p_iss p i) (p_far p i) (p_pc p i) s)
       (\<lambda>s1. if el1_elr s1 = p_pc p i + 4 then Some (p_val p i, s1) else None)"

definition el3_entry :: "processor \<Rightarrow> insn \<Rightarrow> u64 \<Rightarrow> sys \<Rightarrow> el3" where
  "el3_entry p i ec s =
     upd_cpu (\<lambda>c. c\<lparr>r_esr_el3 := push_bit 26 ec OR take_bit 25 (p_iss p i), r_far_el3 := p_far p i, r_elr_el3 := p_pc p i\<rparr>)
       ((m_el3 s)\<lparr>syscntl := el1_sysc s\<rparr>)"

definition take_el3 :: "processor \<Rightarrow> insn \<Rightarrow> u64 \<Rightarrow> sys \<Rightarrow> (u64 \<times> sys) option" where
  "take_el3 p i ec s =
     Option.bind (el3_sync_lower64 AArch64 (ibuf s) (el3_entry p i ec s))
       (\<lambda>(d, e). if r_elr_el3 (cpu_of e) = p_pc p i + 4
                  then Some (p_val p i, s\<lparr>ibuf := d, el1_sysc := syscntl e, m_el3 := e\<rparr>) else None)"

definition exec :: "processor \<Rightarrow> u32 \<Rightarrow> insn \<Rightarrow> sys \<Rightarrow> (u64 \<times> sys) option" where
  "exec p el i s =
     (case p_route p el i (sys_regs s) of
        Executes \<Rightarrow> Some (perform i s)
      | Trap l ec \<Rightarrow> (if l = EL1 then take_el1 p i ec s else if l = EL3 then take_el3 p i ec s else None))"

section \<open>The services of the levels\<close>

definition key_reg :: "u64 \<Rightarrow> sysreg" where
  "key_reg k = (if k = KEY_CPTR_EL3 then R_CPTR_EL3 else if k = KEY_CPACR then R_CPACR
     else if k = KEY_SCR then R_SCR else if k = KEY_SCTLR then R_SCTLR else R_CURRENTEL)"

definition el1_machine :: "processor \<Rightarrow> sys services" where
  "el1_machine p = smc_only\<lparr>mrs := (\<lambda>k. exec p EL1 (I_mrs (key_reg k))),
     msr := (\<lambda>k v s. map_option snd (exec p EL1 (I_msr (key_reg k) v) s))\<rparr>"

definition test_env_of :: "processor \<Rightarrow> u32 \<Rightarrow> sys test_env" where
  "test_env_of p el =
     \<lparr>t_svc = (\<lambda>op d s. el1_handle_svc AArch64 (el1_machine p) op d (el1_elr s) s),
      t_smc = local_smc, t_exec = exec p el\<rparr>"

fun fn_level :: "test_fn \<Rightarrow> u32" where
  "fn_level El0_check_smc = EL0"
| "fn_level El0_check_register_access = EL0"
| "fn_level El0_check_cpacr_trap = EL0"
| "fn_level El0_check_wfx_trap = EL0"
| "fn_level El0_check_fp_trap = EL0"
| "fn_level El3_check_smc = EL3"
| "fn_level _ = EL1"

text \<open>The machine with the test functions of the images as its test bodies.\<close>

definition test_machine :: "processor \<Rightarrow> op_desc \<Rightarrow> sys services" where
  "test_machine p junk = (el1_machine p)\<lparr>call := (\<lambda>f x s. test_body AArch64 f (test_env_of p (fn_level f)) junk s)\<rparr>"

end
