(* ===== verification/MachineProofs.thy ===== *)
theory MachineProofs
  imports Machine
begin

text \<open>
  The contracts of \<open>TestSpec\<close> on the machine: EL3's register service, exceptions that EL1 and
  EL3 log and skip, and EL1's register service for EL0.
\<close>

section \<open>What the programs may not touch\<close>

definition sys_good :: "sys \<Rightarrow> bool" where
  "sys_good s \<longleftrightarrow> el3_inv (m_el3 s)"

record sys_frame =
  f_secure :: u32
  f_other :: bank
  f_pend :: "u32 \<times> op_desc \<times> u64"
  f_desc :: op_desc
  f_ran :: "(test_fn \<times> u32) list \<times> (test_fn \<times> u32) list \<times> (test_fn \<times> u32) list \<times> (test_fn \<times> u32) list"
  f_state :: u32
  f_bufs :: "state_buf \<times> state_buf"
  f_mm :: "mm \<times> mm"
  f_cfg :: u64
  f_cntl :: "u64 \<times> u64 \<times> u64"

definition sys_rest :: "sys \<Rightarrow> sys_frame" where
  "sys_rest s = \<lparr>f_secure = el1_secure s, f_other = m_other s, f_pend = (m_pend_op s, m_pend s, m_pend_elr s),
     f_desc = m_desc s, f_ran = (el1_ran s, ran0_sec s, ran0_nsec s, el3_ran (m_el3 s)),
     f_state = secure_state (m_el3 s), f_bufs = (sec_state (el3_mon (m_el3 s)), nsec_state (el3_mon (m_el3 s))),
     f_mm = (el1_mm s, el3_mm (m_el3 s)), f_cfg = cfgctrl (m_el3 s),
     f_cntl = (buf_pa (el1_sysc s), buf_va (el1_sysc s), test_cntl (el1_sysc s))\<rparr>"

lemma sys_book [simp]:
  "sys_good (s\<lparr>el1_sysc := c\<rparr>) = sys_good s" "sys_good (s\<lparr>el1_tcnt := t\<rparr>) = sys_good s"
  "sys_good (s\<lparr>ibuf := d\<rparr>) = sys_good s" "sys_good (s\<lparr>el1_elr := x\<rparr>) = sys_good s"
  "sys_rest (s\<lparr>el1_tcnt := t\<rparr>) = sys_rest s" "sys_rest (upd_log f s) = sys_rest s"
  "sys_rest (s\<lparr>ibuf := d\<rparr>) = sys_rest s" "sys_rest (s\<lparr>el1_elr := x\<rparr>) = sys_rest s"
  "sys_regs (s\<lparr>el1_sysc := c\<rparr>) = sys_regs s" "sys_regs (s\<lparr>el1_tcnt := t\<rparr>) = sys_regs s"
  "sys_regs (s\<lparr>ibuf := d\<rparr>) = sys_regs s" "sys_regs (s\<lparr>el1_elr := x\<rparr>) = sys_regs s"
  by (simp_all add: sys_good_def sys_rest_def sys_regs_def upd_log_def upd_excp_def)

section \<open>SMCs that stay\<close>

definition smc_exit :: "u32 \<Rightarrow> sys \<Rightarrow> el3 \<Rightarrow> el3" where
  "smc_exit op s e = upd_cpu (\<lambda>c. (set_reg 0 0 c)\<lparr>r_spsr_el3 := r_spsr_el3 (cpu_of (smc_entry op s))\<rparr>)
     (set_exception_return_el3 (r_elr_el3 (cpu_of (smc_entry op s))) e)"

lemma local_smc_stays:
  assumes "el3_smc_switch AArch64 (ucast op) (ibuf s) (smc_entry op s) = Some (0, d, e)"
    "r_scr_el3 (cpu_of e) AND 1 = r_scr_el3 (cpu_of (m_el3 s)) AND 1"
  shows "local_smc op s = Some (0, after d (smc_exit op s e) s)"
proof -
  have ec: "drop_bit 26 (r_esr_el3 (cpu_of (smc_entry op s))) = EC_SMC64" by (simp add: smc_entry_def c_const)
  have "el3_sync_lower64 AArch64 (ibuf s) (smc_entry op s) = Some (d, smc_exit op s e)"
    using assms(1) by (simp add: el3_sync_lower64_def Let_def ec el3_handle_smc_def smc_exit_def)
  moreover have "r_scr_el3 (cpu_of (smc_exit op s e)) = r_scr_el3 (cpu_of e)" "gpr (cpu_of (smc_exit op s e)) 0 = 0"
    by (simp_all add: smc_exit_def set_reg_def set_exception_return_el3_def)
  ultimately show ?thesis using assms(2) by (simp add: local_smc_def enter_el3_def after_def Let_def)
qed

lemma smc_exit_facts [simp]:
  "cpu_reg (cpu_of (smc_exit op s e)) = cpu_reg (cpu_of e)" "el3_inv (smc_exit op s e) = el3_inv e"
  "secure_state (smc_exit op s e) = secure_state e" "el3_ran (smc_exit op s e) = el3_ran e"
  "sec_state (el3_mon (smc_exit op s e)) = sec_state (el3_mon e)"
  "nsec_state (el3_mon (smc_exit op s e)) = nsec_state (el3_mon e)" "el3_mm (smc_exit op s e) = el3_mm e"
  "cfgctrl (smc_exit op s e) = cfgctrl e" "syscntl (smc_exit op s e) = syscntl e"
proof -
  have "cpu_reg (cpu_of (smc_exit op s e)) r = cpu_reg (cpu_of e) r" for r
    by (cases r) (simp_all add: smc_exit_def set_reg_def set_exception_return_el3_def)
  then show "cpu_reg (cpu_of (smc_exit op s e)) = cpu_reg (cpu_of e)" by blast
qed (simp_all add: smc_exit_def set_reg_def set_exception_return_el3_def el3_inv_def el3_mode_def)

lemma smc_entry_more [simp]:
  "cpu_reg (cpu_of (smc_entry op s)) = cpu_reg (cpu_of (m_el3 s))"
  "sec_state (el3_mon (smc_entry op s)) = sec_state (el3_mon (m_el3 s))"
  "nsec_state (el3_mon (smc_entry op s)) = nsec_state (el3_mon (m_el3 s))"
  "r_cptr_el3 (cpu_of (smc_entry op s)) = r_cptr_el3 (cpu_of (m_el3 s))"
  "r_cpacr_el1 (cpu_of (smc_entry op s)) = r_cpacr_el1 (cpu_of (m_el3 s))"
  "r_sctlr_el1 (cpu_of (smc_entry op s)) = r_sctlr_el1 (cpu_of (m_el3 s))"
  "r_spsel (cpu_of (smc_entry op s)) = r_spsel (cpu_of (m_el3 s))"
  "r_sp_el3 (cpu_of (smc_entry op s)) = r_sp_el3 (cpu_of (m_el3 s))"
proof -
  have "cpu_reg (cpu_of (smc_entry op s)) r = cpu_reg (cpu_of (m_el3 s)) r" for r
    by (cases r) (simp_all add: smc_entry_def set_reg_def)
  then show "cpu_reg (cpu_of (smc_entry op s)) = cpu_reg (cpu_of (m_el3 s))" by blast
qed (simp_all add: smc_entry_def set_reg_def)

text \<open>The register service of EL3, for the two registers the programs use there.\<close>

definition el3_key :: "u64 \<Rightarrow> bool" where
  "el3_key k \<longleftrightarrow> k = KEY_CPTR_EL3 \<or> k = KEY_SCR"

lemma smc_get:
  assumes "sys_good s" "el3_key (data_key (ibuf s))" "data_el (ibuf s) = 3"
  shows "\<exists>s'. local_smc SMC_OP_GET_REG s = Some (0, s') \<and> data_data (ibuf s') = sys_regs s (key_reg (data_key (ibuf s))) \<and>
     sys_good s' \<and> sys_rest s' = sys_rest s \<and> log_of s' = log_of s \<and> el1_tcnt s' = el1_tcnt s \<and> sys_regs s' = sys_regs s"
proof -
  let ?e = "smc_entry SMC_OP_GET_REG s" and ?d = "ibuf s"
  have "el3_smc_switch AArch64 (ucast SMC_OP_GET_REG) ?d ?e = Some (0, el3_get_reg AArch64 ?d ?e, ?e)"
    by (simp add: el3_smc_switch_def)
  then have run: "local_smc SMC_OP_GET_REG s = Some (0, after (el3_get_reg AArch64 ?d ?e) (smc_exit SMC_OP_GET_REG s ?e) s)"
    by (rule local_smc_stays) simp
  have "data_data (el3_get_reg AArch64 ?d ?e) = sys_regs s (key_reg (data_key ?d))"
    using assms(2,3) by (auto simp: el3_get_reg_def el3_key_def key_reg_def sys_regs_def layout c_const)
  then show ?thesis
    using run assms(1) by (simp add: sys_good_def sys_rest_def sys_regs_def) (simp add: after_def)
qed

lemma smc_put:
  assumes "sys_good s" "el3_key (data_key (ibuf s))" "data_el (ibuf s) = 3"
    "data_key (ibuf s) = KEY_SCR \<Longrightarrow> data_data (ibuf s) AND 1 = sys_regs s R_SCR AND 1"
  shows "\<exists>s'. local_smc SMC_OP_SET_REG s = Some (0, s') \<and> sys_good s' \<and> sys_rest s' = sys_rest s \<and>
     log_of s' = log_of s \<and> el1_tcnt s' = el1_tcnt s \<and> sys_regs s' = (sys_regs s)(key_reg (data_key (ibuf s)) := data_data (ibuf s))"
proof -
  let ?e = "smc_entry SMC_OP_SET_REG s" and ?d = "ibuf s"
  obtain e1 where e1: "el3_set_reg AArch64 ?d ?e = Some e1"
    using el3_set_reg_a64 by blast
  have sw: "el3_smc_switch AArch64 (ucast SMC_OP_SET_REG) ?d ?e = Some (0, ?d, e1)"
    using e1 by (simp add: el3_smc_switch_def)
  have f: "secure_state e1 = secure_state ?e" "el3_ran e1 = el3_ran ?e" "el3_mm e1 = el3_mm ?e" "cfgctrl e1 = cfgctrl ?e"
    "syscntl e1 = syscntl ?e" "sec_state (el3_mon e1) = sec_state (el3_mon ?e)" "nsec_state (el3_mon e1) = nsec_state (el3_mon ?e)"
    "r_spsel (cpu_of e1) = r_spsel (cpu_of ?e)" "r_sp_el3 (cpu_of e1) = r_sp_el3 (cpu_of ?e)"
    "r_scr_el3 (cpu_of e1) AND 1 = r_scr_el3 (cpu_of ?e) AND 1"
    using assms(2-4) e1 by (auto simp: el3_set_reg_def el3_key_def sys_regs_def c_const)
  have inv: "el3_inv e1" using assms(1) f by (simp add: sys_good_def el3_inv_def el3_mode_def)
  have "cpu_reg (cpu_of e1) r = ((cpu_reg (cpu_of ?e))(key_reg (data_key ?d) := data_data ?d)) r" for r
    using assms(2,3) e1 by (cases r) (auto simp: el3_set_reg_def el3_key_def key_reg_def c_const)
  then have regs: "cpu_reg (cpu_of e1) = (sys_regs s)(key_reg (data_key ?d) := data_data ?d)"
    by (simp add: fun_eq_iff sys_regs_def)
  have "local_smc SMC_OP_SET_REG s = Some (0, after ?d (smc_exit SMC_OP_SET_REG s e1) s)"
    by (rule local_smc_stays [OF sw]) (simp add: f)
  then show ?thesis
    using inv regs f by (simp add: sys_good_def sys_rest_def sys_regs_def) (simp add: after_def)
qed

section \<open>Exceptions that are logged and skipped\<close>

lemma armed_logs:
  assumes "log_of s = armed_log"
  shows "excp_log (log_of s)" "excp_action (log_of s) = EXCP_ACTION_SKIP"
  using assms by (simp_all add: armed_log_def)

lemma take_el1_skips:
  assumes "sys_good s" "skippable EL1 ec" "log_of s = armed_log"
  shows "\<exists>v s'. take_el1 p i ec s = Some (v, s') \<and> sys_good s' \<and> sys_rest s' = sys_rest s \<and> log_shows ec EL1 s' \<and>
     el1_tcnt s' = el1_tcnt s \<and> sys_regs s' = sys_regs s"
proof -
  let ?f = "log_excp ec (p_iss p i) (p_far p i) exception_level_el1 (el1_secure s)"
  define s1 where "s1 = (upd_log ?f s)\<lparr>el1_elr := p_pc p i + 4\<rparr>"
  have ec: "ec = EC_UNKNOWN \<or> ec = EC_WFI_WFE \<or> ec = EC_SIMD"
    using assms(2) by (auto simp: skippable_def c_const)
  have "el1_handle_exception AArch64 smc_only ec (p_iss p i) (p_far p i) (p_pc p i) s = Some s1"
    using ec armed_logs [OF assms(3)]
    by (elim disjE) (simp_all add: el1_handle_exception_def Let_def s1_def upd_log_def upd_excp_def log_excp_def c_const)
  moreover have "log_shows ec EL1 s1"
    using armed_logs [OF assms(3)]
    by (simp add: s1_def log_shows_def upd_log_def upd_excp_def log_excp_def exception_level_el1_def)
  moreover have "sys_good s1 \<and> sys_rest s1 = sys_rest s \<and> el1_tcnt s1 = el1_tcnt s \<and> sys_regs s1 = sys_regs s"
    using assms(1) by (simp add: s1_def) (simp add: upd_log_def)
  ultimately show ?thesis by (simp add: take_el1_def s1_def)
qed

lemma esr_class:
  assumes "ec \<in> {EC_SYSINSN, EC_WFI_WFE, EC_SIMD}"
  shows "drop_bit 26 (push_bit 26 ec OR take_bit 25 iss) = (ec :: u64)"
proof -
  have "drop_bit 26 (push_bit 26 ec) = ec" using assms by (auto simp: c_const)
  moreover have "drop_bit 26 (take_bit 25 iss) = 0" by (simp add: drop_bit_take_bit)
  ultimately show ?thesis by simp
qed

lemma el3_entry_facts [simp]:
  "cpu_reg (cpu_of (el3_entry p i ec s)) = cpu_reg (cpu_of (m_el3 s))" "el3_inv (el3_entry p i ec s) = el3_inv (m_el3 s)"
  "secure_state (el3_entry p i ec s) = secure_state (m_el3 s)" "el3_ran (el3_entry p i ec s) = el3_ran (m_el3 s)"
  "sec_state (el3_mon (el3_entry p i ec s)) = sec_state (el3_mon (m_el3 s))"
  "nsec_state (el3_mon (el3_entry p i ec s)) = nsec_state (el3_mon (m_el3 s))"
  "el3_mm (el3_entry p i ec s) = el3_mm (m_el3 s)" "cfgctrl (el3_entry p i ec s) = cfgctrl (m_el3 s)"
  "syscntl (el3_entry p i ec s) = el1_sysc s" "r_elr_el3 (cpu_of (el3_entry p i ec s)) = p_pc p i"
  "r_esr_el3 (cpu_of (el3_entry p i ec s)) = push_bit 26 ec OR take_bit 25 (p_iss p i)"
proof -
  have "cpu_reg (cpu_of (el3_entry p i ec s)) r = cpu_reg (cpu_of (m_el3 s)) r" for r
    by (cases r) (simp_all add: el3_entry_def)
  then show "cpu_reg (cpu_of (el3_entry p i ec s)) = cpu_reg (cpu_of (m_el3 s))" by blast
qed (simp_all add: el3_entry_def el3_inv_def el3_mode_def)

lemma el3_exception_skips:
  assumes "ec \<in> {EC_SYSINSN, EC_WFI_WFE, EC_SIMD}" "excp_action (excp (syscntl e)) = EXCP_ACTION_SKIP"
  shows "el3_handle_exception ec iss far elr e =
     (0, set_exception_return_el3 (elr + 4) (e\<lparr>syscntl := upd_excp (log_excp ec iss far exception_level_el3 0) (syscntl e)\<rparr>))"
proof -
  have act: "excp_action (excp (upd_excp (log_excp x iss far exception_level_el3 0) (syscntl e))) = EXCP_ACTION_SKIP" for x
    using assms(2) by (simp add: upd_excp_def log_excp_def)
  have ec: "EC_WFI_WFE \<noteq> EC_SYSINSN" "EC_SIMD \<noteq> EC_SYSINSN" "EC_SIMD \<noteq> EC_WFI_WFE" by (simp_all add: c_const)
  have ne: "ec \<noteq> EC_SMC64" "ec \<noteq> EC_SMC32" "ec \<noteq> EC_IABORT_LOWER" "ec \<noteq> EC_IABORT" "ec \<noteq> EC_DABORT_LOWER" "ec \<noteq> EC_DABORT"
    using assms(1) by (auto simp: c_const)
  have "ec = EC_SYSINSN \<or> ec = EC_WFI_WFE \<or> ec = EC_SIMD" using assms(1) by simp
  then show ?thesis using ne by (elim disjE) (simp_all add: el3_handle_exception_def Let_def act ec)
qed

lemma take_el3_skips:
  assumes "sys_good s" "skippable EL3 ec" "log_of s = armed_log"
  shows "\<exists>v s'. take_el3 p i ec s = Some (v, s') \<and> sys_good s' \<and> sys_rest s' = sys_rest s \<and> log_shows ec EL3 s' \<and>
     el1_tcnt s' = el1_tcnt s \<and> sys_regs s' = sys_regs s"
proof -
  define e where "e = el3_entry p i ec s"
  define esr where "esr = push_bit 26 ec OR take_bit 25 (p_iss p i)"
  have ec: "ec \<in> {EC_SYSINSN, EC_WFI_WFE, EC_SIMD}" "\<not> (ec = EC_SMC64 \<or> ec = EC_SMC32)"
    using assms(2) by (auto simp: skippable_def c_const)
  define f where "f = log_excp ec (esr AND 0xFFFFFF) (r_far_el3 (cpu_of e)) exception_level_el3 0"
  define e1 where "e1 = set_exception_return_el3 (p_pc p i + 4) (e\<lparr>syscntl := upd_excp f (el1_sysc s)\<rparr>)"
  define e2 where "e2 = upd_cpu (\<lambda>c. c\<lparr>r_spsr_el3 := r_spsr_el3 (cpu_of e)\<rparr>) e1"
  have e: "syscntl e = el1_sysc s" "r_elr_el3 (cpu_of e) = p_pc p i" "r_esr_el3 (cpu_of e) = esr" by (simp_all add: e_def esr_def)
  have "el3_handle_exception ec (esr AND 0xFFFFFF) (r_far_el3 (cpu_of e)) (p_pc p i) e = (0, e1)"
    using el3_exception_skips [OF ec(1), of e] armed_logs [OF assms(3)] e by (simp add: e1_def f_def)
  then have run: "el3_sync_lower64 AArch64 (ibuf s) e = Some (ibuf s, e2)"
    using ec(2) esr_class [OF ec(1), of "p_iss p i", folded esr_def] e(2,3)
    by (simp add: el3_sync_lower64_def Let_def e2_def)
  define s' where "s' = s\<lparr>ibuf := ibuf s, el1_sysc := upd_excp f (el1_sysc s), m_el3 := e2\<rparr>"
  have e2: "r_elr_el3 (cpu_of e2) = p_pc p i + 4" "syscntl e2 = upd_excp f (el1_sysc s)" "secure_state e2 = secure_state e"
    "el3_ran e2 = el3_ran e" "sec_state (el3_mon e2) = sec_state (el3_mon e)" "nsec_state (el3_mon e2) = nsec_state (el3_mon e)"
    "el3_mm e2 = el3_mm e" "cfgctrl e2 = cfgctrl e" "el3_inv e2 = el3_inv e"
    by (simp_all add: e2_def e1_def set_exception_return_el3_def el3_inv_def el3_mode_def)
  have "cpu_reg (cpu_of e2) r = cpu_reg (cpu_of e) r" for r
    by (cases r) (simp_all add: e2_def e1_def set_exception_return_el3_def)
  then have "sys_regs s' = sys_regs s" by (simp add: sys_regs_def fun_eq_iff s'_def e_def)
  moreover have "log_shows ec EL3 s'"
    using armed_logs [OF assms(3)] by (simp add: s'_def log_shows_def upd_excp_def f_def log_excp_def exception_level_el3_def)
  moreover have "sys_good s' \<and> sys_rest s' = sys_rest s"
    using assms(1) e2 by (simp add: s'_def sys_good_def sys_rest_def e_def upd_excp_def)
  moreover have "take_el3 p i ec s = Some (p_val p i, s')"
    using run e2(1,2) by (simp add: take_el3_def e_def s'_def)
  moreover have "el1_tcnt s' = el1_tcnt s" by (simp add: s'_def)
  ultimately show ?thesis by blast
qed

section \<open>The contracts\<close>

lemma exec_traps:
  assumes "sys_good s" "p_route p el i (sys_regs s) = Trap l ec" "skippable l ec" "log_of s = armed_log"
  shows "\<exists>v s'. exec p el i s = Some (v, s') \<and> sys_good s' \<and> sys_rest s' = sys_rest s \<and> log_shows ec l s' \<and>
     el1_tcnt s' = el1_tcnt s \<and> sys_regs s' = sys_regs s"
proof (cases "l = EL1")
  case True
  then show ?thesis using take_el1_skips [of s ec p i] assms by (simp add: exec_def)
next
  case False
  then have "l = EL3" using assms(3) by (auto simp: skippable_def)
  then show ?thesis using take_el3_skips [of s ec p i] assms False by (simp add: exec_def)
qed

lemma exec_runs:
  assumes "sys_good s" "plain_el1 i" "p_route p el i (sys_regs s) = Executes"
  shows "\<exists>v s'. exec p el i s = Some (v, s') \<and> sys_good s' \<and> sys_rest s' = sys_rest s \<and> log_of s' = log_of s \<and>
     el1_tcnt s' = el1_tcnt s \<and> sys_regs s' = reg_after i (sys_regs s) \<and> (\<forall>r. i = I_mrs r \<longrightarrow> v = sys_regs s r)"
proof (cases i)
  case (I_msr r v)
  define s' where "s' = s\<lparr>m_el3 := upd_cpu (cpu_write r v) (m_el3 s)\<rparr>"
  have r: "r = R_CPACR \<or> r = R_SCTLR" using assms(2) I_msr by (auto simp: plain_el1_def)
  have "sys_regs s' q = ((sys_regs s)(r := v)) q" for q
    using r by (cases q) (auto simp: s'_def sys_regs_def)
  moreover have "sys_good s'" using r assms(1) by (auto simp: s'_def sys_good_def el3_inv_def el3_mode_def)
  moreover have "sys_rest s' = sys_rest s" by (simp add: s'_def sys_rest_def)
  ultimately show ?thesis
    using I_msr assms(3) by (simp add: exec_def s'_def [symmetric] fun_eq_iff) (simp add: s'_def)
qed (use assms in \<open>auto simp: exec_def plain_el1_def\<close>)

interpretation at_el1: trap_machine "exec p EL1" plain_el1 "\<lambda>i. True" "p_route p EL1" sys_regs sys_good sys_rest for p
  by unfold_locales (use exec_runs exec_traps in \<open>auto\<close>)

interpretation at_el0: trap_machine "exec p EL0" plain_el0 "\<lambda>i. True" "p_route p EL0" sys_regs sys_good sys_rest for p
proof (unfold_locales, goal_cases)
  case (1 s i)
  then show ?case using exec_runs [of s i p EL0] by (auto simp: plain_el0_def plain_el1_def)
next
  case (2 s i l ec)
  then show ?case using exec_traps [of s p EL0 i l ec] by blast
qed simp_all

lemma key_regs [simp]:
  "el3_key KEY_CPTR_EL3" "el3_key KEY_SCR" "key_reg KEY_CPTR_EL3 = R_CPTR_EL3" "key_reg KEY_SCR = R_SCR"
  "key_reg KEY_CPACR = R_CPACR" "key_reg KEY_SCTLR = R_SCTLR" "KEY_CPTR_EL3 \<noteq> KEY_SCR"
  "KEY_CPACR \<in> set (el1_reg_keys AArch64)" "KEY_SCTLR \<in> set (el1_reg_keys AArch64)" "KEY_CPACR \<noteq> KEY_CURRENTEL" "KEY_SCTLR \<noteq> KEY_CURRENTEL"
  by (simp_all add: el3_key_def key_reg_def el1_reg_keys_def c_const)

lemma env_of [simp]:
  "t_smc (test_env_of p el) = local_smc" "t_exec (test_env_of p el) = exec p el"
  "t_svc (test_env_of p el) = (\<lambda>op d s. el1_handle_svc AArch64 (el1_machine p) op d (el1_elr s) s)"
  "smc (el1_machine p) = local_smc"
  by (simp_all add: test_env_of_def el1_machine_def smc_only_def)

lemma SMC_GET_REG_ok:
  assumes "sys_good s" "el3_key key"
  shows "\<exists>s'. SMC_GET_REG (test_env_of p el) key 3 s = Some (sys_regs s (key_reg key), s') \<and> sys_good s' \<and>
     sys_rest s' = sys_rest s \<and> log_of s' = log_of s \<and> el1_tcnt s' = el1_tcnt s \<and> sys_regs s' = sys_regs s"
proof -
  let ?s = "s\<lparr>ibuf := set_data_el 3 (set_data_key key (ibuf s))\<rparr>"
  obtain s' where "local_smc SMC_OP_GET_REG ?s = Some (0, s')" "data_data (ibuf s') = sys_regs s (key_reg key)" "sys_good s'"
    "sys_rest s' = sys_rest s" "log_of s' = log_of s" "el1_tcnt s' = el1_tcnt s" "sys_regs s' = sys_regs s"
    using smc_get [of ?s] assms by (auto simp: layout)
  then show ?thesis by (simp add: SMC_GET_REG_def)
qed

lemma SMC_SET_REG_ok:
  assumes "sys_good s" "el3_key key" "key = KEY_SCR \<Longrightarrow> v AND 1 = sys_regs s R_SCR AND 1"
  shows "\<exists>s'. SMC_SET_REG (test_env_of p el) key 3 v s = Some s' \<and> sys_good s' \<and>
     sys_rest s' = sys_rest s \<and> log_of s' = log_of s \<and> el1_tcnt s' = el1_tcnt s \<and> sys_regs s' = (sys_regs s)(key_reg key := v)"
proof -
  let ?s = "s\<lparr>ibuf := set_data_data v (set_data_el 3 (set_data_key key (ibuf s)))\<rparr>"
  obtain s' where "local_smc SMC_OP_SET_REG ?s = Some (0, s')" "sys_good s'" "sys_rest s' = sys_rest s"
    "log_of s' = log_of s" "el1_tcnt s' = el1_tcnt s" "sys_regs s' = (sys_regs s)(key_reg key := v)"
    using smc_put [of ?s] assms by (auto simp: layout)
  then show ?thesis by (simp add: SMC_SET_REG_def)
qed

lemma SVC_GET_REG_ok:
  assumes "sys_good s" "el3_key key"
  shows "\<exists>s'. SVC_GET_REG (test_env_of p el) junk key 3 s = Some (sys_regs s (key_reg key), s') \<and> sys_good s' \<and>
     sys_rest s' = sys_rest s \<and> log_of s' = log_of s \<and> el1_tcnt s' = el1_tcnt s \<and> sys_regs s' = sys_regs s"
proof -
  let ?s = "s\<lparr>ibuf := set_data_el 3 (set_data_key key junk)\<rparr>"
  obtain s' where "local_smc SMC_OP_GET_REG ?s = Some (0, s')" "data_data (ibuf s') = sys_regs s (key_reg key)" "sys_good s'"
    "sys_rest s' = sys_rest s" "log_of s' = log_of s" "el1_tcnt s' = el1_tcnt s" "sys_regs s' = sys_regs s"
    using smc_get [of ?s] assms by (auto simp: layout)
  then show ?thesis
    by (simp add: SVC_GET_REG_def el1_handle_svc_def el1_svc_switch_def el1_get_reg_def layout) (simp add: c_const)
qed

lemma SVC_SET_REG_ok:
  assumes "sys_good s" "el3_key key" "key = KEY_SCR \<Longrightarrow> v AND 1 = sys_regs s R_SCR AND 1"
  shows "\<exists>s'. SVC_SET_REG (test_env_of p el) junk key 3 v s = Some s' \<and> sys_good s' \<and>
     sys_rest s' = sys_rest s \<and> log_of s' = log_of s \<and> el1_tcnt s' = el1_tcnt s \<and> sys_regs s' = (sys_regs s)(key_reg key := v)"
proof -
  let ?s = "s\<lparr>ibuf := set_data_data v (set_data_el 3 (set_data_key key junk))\<rparr>"
  obtain s' where "local_smc SMC_OP_SET_REG ?s = Some (0, s')" "sys_good s'" "sys_rest s' = sys_rest s"
    "log_of s' = log_of s" "el1_tcnt s' = el1_tcnt s" "sys_regs s' = (sys_regs s)(key_reg key := v)"
    using smc_put [of ?s] assms by (auto simp: layout)
  then show ?thesis
    by (simp add: SVC_SET_REG_def el1_handle_svc_def el1_svc_switch_def el1_set_reg_def layout) (simp add: c_const)
qed

interpretation el1_regs: reg_ops "SMC_GET_REG (test_env_of p el)" "SMC_SET_REG (test_env_of p el)" sys_regs sys_good sys_rest
  for p el
proof (unfold_locales, goal_cases)
  case (1 s)
  then show ?case using SMC_GET_REG_ok [of s KEY_CPTR_EL3 p el] by simp
next
  case (2 s)
  then show ?case using SMC_GET_REG_ok [of s KEY_SCR p el] by simp
next
  case (3 s v)
  then show ?case using SMC_SET_REG_ok [of s KEY_CPTR_EL3 v p el] by simp
next
  case (4 s v)
  then show ?case using SMC_SET_REG_ok [of s KEY_SCR v p el] by simp
qed

interpretation el0_regs: reg_ops "SVC_GET_REG (test_env_of p el) junk" "SVC_SET_REG (test_env_of p el) junk" sys_regs sys_good sys_rest
  for p el junk
proof (unfold_locales, goal_cases)
  case (1 s)
  then show ?case using SVC_GET_REG_ok [of s KEY_CPTR_EL3 p el junk] by simp
next
  case (2 s)
  then show ?case using SVC_GET_REG_ok [of s KEY_SCR p el junk] by simp
next
  case (3 s v)
  then show ?case using SVC_SET_REG_ok [of s KEY_CPTR_EL3 v p el junk] by simp
next
  case (4 s v)
  then show ?case using SVC_SET_REG_ok [of s KEY_SCR v p el junk] by simp
qed

text \<open>EL1's register service for EL0: the access happens at EL1, and may trap there.\<close>

lemma svc_access_exec:
  assumes "can_svc i"
  shows "svc_access (test_env_of p el) junk i s =
    (case exec p EL1 i s of None \<Rightarrow> None
     | Some (v, s') \<Rightarrow> Some ((case i of I_mrs r \<Rightarrow> v | _ \<Rightarrow> 0), s'\<lparr>el1_elr := el1_elr s\<rparr>))"
proof -
  obtain r v where r: "r = R_CPACR \<or> r = R_SCTLR" "i = I_mrs r \<or> i = I_msr r v" using assms by (auto simp: can_svc_def)
  have ops: "SVC_OP_GET_REG \<notin> {SVC_OP_EXIT, SVC_OP_YIELD, SVC_OP_ALLOC, SVC_OP_MAP, SVC_OP_GET_SYSCNTL}"
    "SVC_OP_SET_REG \<notin> {SVC_OP_EXIT, SVC_OP_YIELD, SVC_OP_ALLOC, SVC_OP_MAP, SVC_OP_GET_SYSCNTL, SVC_OP_GET_REG}"
    by (simp_all add: c_const)
  have k: "reg_key r \<in> set (el1_reg_keys AArch64)" "reg_key r \<noteq> KEY_CURRENTEL" "key_reg (reg_key r) = r" using r(1) by auto
  have m: "mrs (el1_machine p) (reg_key r) = exec p EL1 (I_mrs r)"
    "msr (el1_machine p) (reg_key r) v s = map_option snd (exec p EL1 (I_msr r v) s)"
    using k by (simp_all add: el1_machine_def)
  show ?thesis
    using r(2)
  proof (elim disjE)
    assume i: "i = I_mrs r"
    show ?thesis
      using ops k m
      by (cases "exec p EL1 (I_mrs r) s")
         (auto simp: i SVC_GET_REG_def el1_handle_svc_def el1_svc_switch_def el1_get_reg_def layout)
  next
    assume i: "i = I_msr r v"
    show ?thesis
      using ops k m
      by (cases "exec p EL1 (I_msr r v) s")
         (auto simp: i unit_op_def SVC_SET_REG_def el1_handle_svc_def el1_svc_switch_def el1_set_reg_def layout)
  qed
qed

interpretation via_svc: trap_machine "svc_access (test_env_of p el) junk" can_svc can_svc "p_route p EL1" sys_regs sys_good sys_rest
  for p el junk
proof (unfold_locales, goal_cases)
  case (1 s i)
  then have "plain_el1 i" by (auto simp: can_svc_def plain_el1_def)
  with 1 obtain v s' where "exec p EL1 i s = Some (v, s')" "sys_good s'" "sys_rest s' = sys_rest s" "log_of s' = log_of s"
    "el1_tcnt s' = el1_tcnt s" "sys_regs s' = reg_after i (sys_regs s)" "\<forall>r. i = I_mrs r \<longrightarrow> v = sys_regs s r"
    using exec_runs [of s i p EL1] by auto
  then show ?case by (simp add: svc_access_exec [OF 1(2)] split: insn.splits)
next
  case (2 s i l ec)
  then obtain v s' where "exec p EL1 i s = Some (v, s')" "sys_good s'" "sys_rest s' = sys_rest s" "log_shows ec l s'"
    "el1_tcnt s' = el1_tcnt s" "sys_regs s' = sys_regs s"
    using exec_traps [of s p EL1 i l ec] by auto
  then show ?case by (simp add: svc_access_exec [OF 2(2)] log_shows_def)
qed simp_all

interpretation el1_bodies: el1_tests "test_env_of p EL1" "p_route p EL1" sys_regs sys_good sys_rest for p
  using at_el1.trap_machine_axioms [of p] el1_regs.reg_ops_axioms [of p EL1] by (simp add: el1_tests_def)

interpretation el0_bodies: el0_tests "test_env_of p EL0" junk "p_route p EL0" "p_route p EL1" sys_regs sys_good sys_rest
  for p junk
  using at_el0.trap_machine_axioms [of p] via_svc.trap_machine_axioms [of p EL0 junk] el0_regs.reg_ops_axioms [of p EL0 junk]
  by (simp add: el0_tests_def)

end
