(* ===== verification/MachineRun.thy ===== *)
theory MachineRun
  imports MachineProofs
begin

text \<open>
  Every test function the AArch64 table calls passes on a machine with the documented trap
  routing, leaves registers, log and the framework's state as they were, and with that the
  whole run of \<open>tztest_start\<close>: no check fails, and as many are counted as the table has.
\<close>

section \<open>The test functions\<close>

text \<open>How many checks a test function makes.\<close>

fun checks :: "test_fn \<Rightarrow> nat" where
  "checks El0_check_smc = 1"
| "checks El0_check_register_access = 6"
| "checks El0_check_cpacr_trap = 2"
| "checks El0_check_wfx_trap = 6"
| "checks El0_check_fp_trap = 6"
| "checks El1_check_smc = 1"
| "checks El1_check_register_access_nsec = 6"
| "checks El1_check_register_access_sec = 6"
| "checks El1_check_cpacr_trap = 2"
| "checks El1_check_wfx_trap = 5"
| "checks El1_check_fp_trap = 6"
| "checks Check_mask_bits = 4"
| "checks El3_check_smc = 4"

text \<open>The functions the cases of the AArch64 table call (\<open>table_calls\<close>). The two EL1 images also have
  \<open>el1_check_smc\<close> in their tables, which only cases of the AArch32 table call: it sets
  SCR_EL3.SMD, with which the SMCs it makes next are undefined on AArch64.\<close>

definition aarch64_fns :: "test_fn list" where
  "aarch64_fns = [El0_check_smc, El0_check_register_access, El0_check_cpacr_trap, El0_check_wfx_trap, El0_check_fp_trap,
     El1_check_register_access_nsec, El1_check_register_access_sec, El1_check_cpacr_trap, El1_check_wfx_trap, El1_check_fp_trap]"

text \<open>Floating point is enabled, and neither CPACR accesses nor floating point trap to EL3.\<close>

definition fp_ready :: "(sysreg \<Rightarrow> u64) \<Rightarrow> bool" where
  "fp_ready g \<longleftrightarrow> fpen (g R_CPACR) = 3 \<and> \<not> bit (g R_CPTR_EL3) 10 \<and> \<not> bit (g R_CPTR_EL3) 31"

lemma body_passes:
  assumes "arm_routes p" "sys_good s" "log_of s = idle_log" "fp_ready (sys_regs s)" "f \<in> set aarch64_fns"
  shows "passes sys_regs sys_good sys_rest (checks f) s (test_body AArch64 f (test_env_of p (fn_level f)) junk s)"
proof -
  have r: "el0_routes (p_route p EL0)" "el1_routes (p_route p EL1)" using assms(1) by (simp_all add: arm_routes_def)
  have g: "fpen (sys_regs s R_CPACR) = 3" "\<not> bit (sys_regs s R_CPTR_EL3) 10" "\<not> bit (sys_regs s R_CPTR_EL3) 31"
    using assms(4) by (simp_all add: fp_ready_def)
  note el0 = el0_bodies.check_smc [OF assms(2,3) r] el0_bodies.register_access [OF assms(2,3) r]
    el0_bodies.cpacr_trap [OF assms(2,3) r] el0_bodies.wfx_trap [OF assms(2,3) r] el0_bodies.fp_trap [OF assms(2,3) r g]
  note el1 = el1_bodies.register_access_nsec [OF assms(2,3) r(2)] el1_bodies.register_access_sec [OF assms(2,3) r(2)]
    el1_bodies.cpacr_trap [OF assms(2,3) r(2)] el1_bodies.wfx_trap [OF assms(2,3) r(2)] el1_bodies.fp_trap [OF assms(2,3) r(2) g]
  show ?thesis using assms(5) el0 el1 by (auto simp: aarch64_fns_def)
qed

section \<open>The contract of the framework\<close>

text \<open>What holds when \<open>n\<close> checks have been made, all of them passed.\<close>

definition all_passed :: "nat \<Rightarrow> test_view \<Rightarrow> bool" where
  "all_passed n v \<longleftrightarrow> \<not> bit (tv_cptr v) 10 \<and> \<not> bit (tv_cptr v) 31 \<and> fpen (tv_ns_cpacr v) = 3 \<and> fpen (tv_sec_cpacr v) = 3 \<and>
     tv_excp v = idle_log \<and> tc_fail_count (tv_cnt v) = 0 \<and> tc_test_count (tv_cnt v) = of_nat n"

lemma count_passed:
  "tc_fail_count ((count_check True ^^ n) c) = tc_fail_count c" "tc_test_count ((count_check True ^^ n) c) = tc_test_count c + of_nat n"
  by (induction n) (simp_all add: count_check_def Let_def)

lemma counting_all_passed: "counting all_passed"
  by (simp add: counting_def all_passed_def count_check_def Let_def)

lemma running_cpacr:
  "r_scr_el3 (cpu_of (m_el3 s)) AND 1 = 1 \<Longrightarrow> tv_ns_cpacr (tst s) = sys_regs s R_CPACR"
  "r_scr_el3 (cpu_of (m_el3 s)) AND 1 = 0 \<Longrightarrow> tv_sec_cpacr (tst s) = sys_regs s R_CPACR"
  "tv_cptr (tst s) = sys_regs s R_CPTR_EL3" "tv_excp (tst s) = log_of s" "tv_cnt (tst s) = el1_tcnt s"
  by (simp_all add: tst_def view_of_def ns_cpacr_def sec_cpacr_def sys_regs_def del: tst_fold)

lemma same_view:
  assumes "sys_regs s' = sys_regs s" "sys_rest s' = sys_rest s"
  shows "tv_ns_cpacr (tst s') = tv_ns_cpacr (tst s)" "tv_sec_cpacr (tst s') = tv_sec_cpacr (tst s)"
proof -
  have "cpu_reg (cpu_of (m_el3 s')) r = cpu_reg (cpu_of (m_el3 s)) r" for r using assms(1) by (simp add: sys_regs_def)
  from this [of R_CPACR] this [of R_SCR]
  show "tv_ns_cpacr (tst s') = tv_ns_cpacr (tst s)" "tv_sec_cpacr (tst s') = tv_sec_cpacr (tst s)"
    using assms(2) by (simp_all add: tst_def view_of_def ns_cpacr_def sec_cpacr_def sys_rest_def del: tst_fold)
qed

lemma rest_undisturbed:
  assumes "sys_good s" "sys_good s'" "sys_rest s' = sys_rest s"
  shows "undisturbed s s'"
  using assms el3_inv_ns_bit [of "m_el3 s"] el3_inv_ns_bit [of "m_el3 s'"]
  by (simp add: undisturbed_def sys_rest_def sys_good_def)

lemma body_tame:
  assumes "arm_routes p" "f \<in> set aarch64_fns"
  shows "tame (all_passed n) (all_passed (n + checks f)) (test_machine p junk) f"
  unfolding tame_def
proof (intro allI impI)
  fix x s
  assume run: "ns_running (all_passed n) s \<or> sec_running (all_passed n) s"
  then have s: "sys_good s" "all_passed n (tst s)"
    and ns: "r_scr_el3 (cpu_of (m_el3 s)) AND 1 = 1 \<or> r_scr_el3 (cpu_of (m_el3 s)) AND 1 = 0"
    by (auto simp: ns_running_def sec_running_def sys_good_def)
  have "fp_ready (sys_regs s)" "log_of s = idle_log"
    using s(2) ns running_cpacr [of s] by (auto simp: all_passed_def fp_ready_def)
  from body_passes [OF assms(1) s(1) this(2,1) assms(2), of junk]
  obtain s' where s': "test_body AArch64 f (test_env_of p (fn_level f)) junk s = Some s'" "sys_good s'"
    "sys_rest s' = sys_rest s" "sys_regs s' = sys_regs s" "log_of s' = idle_log"
    "el1_tcnt s' = (count_check True ^^ checks f) (el1_tcnt s)"
    by (auto simp: passes_def finishes_def)
  have "all_passed (n + checks f) (tst s')"
    using s(2) s'(4-6) same_view [OF s'(4,3)] running_cpacr(3-5) [of s] running_cpacr(3-5) [of s']
    by (simp add: all_passed_def count_passed)
  moreover have "undisturbed s s'" using rest_undisturbed [OF s(1) s'(2,3)] .
  ultimately show "\<exists>s'. call (test_machine p junk) f x s = Some s' \<and> undisturbed s s' \<and> all_passed (n + checks f) (tst s')"
    using s'(1) by (simp add: test_machine_def)
qed

lemma table_calls:
  "list_all (\<lambda>t. case_fn AArch64 t \<in> set aarch64_fns \<and> tc_el t \<noteq> EL3) (tztest_loop (tztest AArch64))"
  by (simp add: tztest_def TEST_END_def TEST_def case_fn_def aarch64_fns_def test_func_def el0_test_func_def
      el1_nsec_test_func_def el1_sec_test_func_def c_const)

lemma table_slots:
  "list_all (\<lambda>t. unat (tc_fid t) < length (test_func AArch64 (tc_el t) (tc_state t)) \<and>
       test_func AArch64 (tc_el t) (tc_state t) ! unat (tc_fid t) = Some (case_fn AArch64 t) \<and>
       fn_level (case_fn AArch64 t) = tc_el t)
     (tztest_loop (tztest AArch64))"
  by (simp add: tztest_def TEST_END_def TEST_def case_fn_def aarch64_fns_def test_func_def el0_test_func_def
      el1_nsec_test_func_def el1_sec_test_func_def c_const)

lemma table_bodies:
  assumes "arm_routes p"
  shows "bodies_ok AArch64 all_passed checks (test_machine p junk) (tztest_loop (tztest AArch64))"
  using table_calls body_tame [OF assms] by (auto simp: bodies_ok_def body_ok_def list_all_iff)

lemma table_checks: "total_checks AArch64 checks (tztest_loop (tztest AArch64)) = 80"
  by (simp add: tztest_def TEST_END_def TEST_def case_fn_def test_func_def el0_test_func_def
      el1_nsec_test_func_def el1_sec_test_func_def c_const)

section \<open>Properties\<close>

text \<open>C3: every case of the AArch64 table names a function of the image that runs at its level in its
  world, and that function, run at that level on a processor with the documented routing,
  returns; every one of its checks passes and is
  counted; the registers it changed are restored, the exception log is reset, and the state of
  the framework and of EL3 is as before. (\<open>el1_check_smc\<close>, which no AArch64 case names, is not
  among them.)\<close>

theorem test_functions_pass:
  assumes "arm_routes p" "el3_inv (m_el3 s)" "log_of s = idle_log" "fp_ready (sys_regs s)"
    "t \<in> set (tztest_loop (tztest AArch64))"
  shows "\<exists>f s'. unat (tc_fid t) < length (test_func AArch64 (tc_el t) (tc_state t)) \<and>
     test_func AArch64 (tc_el t) (tc_state t) ! unat (tc_fid t) = Some f \<and>
     test_body AArch64 f (test_env_of p (tc_el t)) junk s = Some s' \<and> sys_regs s' = sys_regs s \<and>
     sys_rest s' = sys_rest s \<and> el3_inv (m_el3 s') \<and> log_of s' = idle_log \<and>
     tc_fail_count (el1_tcnt s') = tc_fail_count (el1_tcnt s) \<and>
     tc_test_count (el1_tcnt s') = tc_test_count (el1_tcnt s) + of_nat (checks f)"
proof -
  have f: "case_fn AArch64 t \<in> set aarch64_fns" "unat (tc_fid t) < length (test_func AArch64 (tc_el t) (tc_state t))"
    "test_func AArch64 (tc_el t) (tc_state t) ! unat (tc_fid t) = Some (case_fn AArch64 t)"
    "fn_level (case_fn AArch64 t) = tc_el t"
    using table_calls table_slots assms(5) by (simp_all add: list_all_iff)
  have "sys_good s" using assms(2) by (simp add: sys_good_def)
  from body_passes [OF assms(1) this assms(3,4) f(1), of junk] show ?thesis
    using f(2-4) by (auto simp: passes_def finishes_def count_passed sys_good_def)
qed

text \<open>C2: on a processor with the documented routing the whole test program returns: from a
  machine whose two worlds have floating point enabled and whose counters are 0, \<open>tztest_start\<close>
  runs the inter-level test and every case of the AArch64 table in order and at its place, the
  81 checks are counted, none of them fails, and the machine is ready for the next run.\<close>

theorem aarch64_run_passes:
  assumes "arm_routes p" "ns_running (all_passed 0) s"
  shows "\<exists>s'. tztest_start AArch64 (ns_el0 AArch64 (test_machine p junk) junk) junk s = Some (True, s') \<and>
     tc_fail_count (el1_tcnt s') = 0 \<and> tc_test_count (el1_tcnt s') = 81 \<and> log_of s' = idle_log \<and>
     ns_running (all_passed 81) s' \<and> (\<forall>q. ran_at s' q = ran_at s q @ planned AArch64 (tztest_loop (tztest AArch64)) q)"
proof -
  obtain s' where s': "tztest_start AArch64 (ns_el0 AArch64 (test_machine p junk) junk) junk s = Some (True, s')"
    "ns_running (all_passed 81) s'" "\<forall>q. ran_at s' q = ran_at s q @ planned AArch64 (tztest_loop (tztest AArch64)) q"
    using ns_tztest_start [OF assms(2) counting_all_passed table_bodies [OF assms(1)], of junk junk] by (auto simp: table_checks)
  then have "all_passed 81 (tst s')" by (simp add: ns_running_def)
  then show ?thesis using s' running_cpacr(4,5) [of s'] by (auto simp: all_passed_def)
qed

text \<open>An SMC of a test function does what the framework's SMC does.\<close>

lemma local_smc_agrees: "local_smc op s = Some (r, s') \<Longrightarrow> ns_smc AArch64 hw junk op s = Some (r, s')"
  by (cases "enter_el3 AArch64 op s") (auto simp: local_smc_def ns_smc_def split: if_splits prod.splits)

end
