(* ===== verification/SystemMap.thy ===== *)
theory SystemMap
  imports SystemRun
begin

text \<open>
  A mapping request of non-secure EL0 on its way through the machine: non-secure EL1 fills in
  the physical address, EL3 maps the page and passes the request on, secure EL0 hands it to
  secure EL1, which maps it too, and control comes back.
\<close>

definition map_ready :: "u64 \<Rightarrow> u64 \<Rightarrow> mm \<Rightarrow> bool" where
  "map_ready lim va m \<longleftrightarrow> pt_inv lim m \<and> pages_left lim 3 m \<and> usable lim m va"

lemma map_ready_maps:
  assumes "map_ready lim va m" "pg AND DESC_ADDR = 0"
  shows "\<exists>m'. mem_map_pa va pa 0 pg m = Some m' \<and> mem_lookup_pa va m' = pa AND DESC_ADDR \<and> pt_inv lim m' \<and>
     (\<forall>v. usable lim m v \<longrightarrow> \<not> same_path 4 va v \<longrightarrow> mem_lookup_pa v m' = mem_lookup_pa v m)"
  using mem_map_pa_maps [of lim m va 0 pg pa] assms by (fastforce simp: map_ready_def maps_page_def)

text \<open>EL3's part: the page is mapped there, the EL3 bit is cleared, the world switches.\<close>

lemma enter_map:
  assumes inv: "el3_inv (m_el3 s)" and t: "map_type (ibuf s) AND OP_MAP_EL3 = OP_MAP_EL3"
      "map_type (ibuf s) AND OP_MAP_SEC_EL1 = OP_MAP_SEC_EL1"
    and rdy: "map_ready lim (map_va (ibuf s)) (el3_mm (m_el3 s))"
  shows "\<exists>e. enter_el3 a SMC_OP_MAP s = Some (SVC_OP_MAP, True,
        swap_world (after (set_map_type (map_type (ibuf s) AND NOT OP_MAP_EL3) (ibuf s)) e s)) \<and>
     el3_inv e \<and> r_scr_el3 (cpu_of e) AND 1 = (r_scr_el3 (cpu_of (m_el3 s)) AND 1) XOR 1 \<and>
     el3_ran e = el3_ran (m_el3 s) \<and>
     view_of e = view_of (m_el3 s) \<and> syscntl e = el1_sysc s \<and>
     mem_lookup_pa (map_va (ibuf s)) (el3_mm e) = map_pa (ibuf s) AND DESC_ADDR \<and> pt_inv lim (el3_mm e)"
proof -
  let ?e = "smc_entry SMC_OP_MAP s"
  obtain m' where m': "mem_map_pa (map_va (ibuf s)) (map_pa (ibuf s)) 0 PTE_PRIV_RW (el3_mm (m_el3 s)) = Some m'"
    "mem_lookup_pa (map_va (ibuf s)) m' = map_pa (ibuf s) AND DESC_ADDR" "pt_inv lim m'"
    using map_ready_maps [OF rdy PTE_PRIV_RW_addr] by blast
  have "el3_smc_switch a (ucast SMC_OP_MAP) (ibuf s) ?e =
      Some (SVC_OP_MAP, set_map_type (map_type (ibuf s) AND NOT OP_MAP_EL3) (ibuf s), ?e\<lparr>el3_mm := m'\<rparr>)"
    using m'(1) t by (simp add: el3_smc_switch_def el3_map_mem_def)
  moreover have "same_world ?e (?e\<lparr>el3_mm := m'\<rparr>)" by (simp add: same_world_def)
  ultimately show ?thesis using enter_switch [OF _ _ _ inv, where op = SMC_OP_MAP and a = a] m' by fastforce
qed

text \<open>The secure world's part: secure EL1 maps the page in its own table, the loop parks.\<close>

lemma sec_run_map:
  assumes s: "sec_running J s" and t: "map_type (m_desc s) AND OP_MAP_EL3 \<noteq> OP_MAP_EL3"
    and rdy: "map_ready lim (map_va (m_desc s)) (el1_mm s)"
  shows "\<exists>s'. sec_run a hw junk SVC_OP_MAP s = Some (SVC_OP_YIELD, s') \<and> ns_running J s' \<and> ran_at s' = ran_at s \<and>
     mem_lookup_pa (map_va (m_desc s)) (b1_mm (m_other s')) = map_pa (m_desc s) AND DESC_ADDR \<and>
     pt_inv lim (b1_mm (m_other s')) \<and> el1_mm s' = b1_mm (m_other s) \<and> el3_mm (m_el3 s') = el3_mm (m_el3 s)"
proof -
  let ?d = "m_desc s"
  obtain m' where m': "mem_map_pa (map_va ?d) (map_pa ?d) 0 PTE_USER_RW (el1_mm s) = Some m'"
    "mem_lookup_pa (map_va ?d) m' = map_pa ?d AND DESC_ADDR" "pt_inv lim m'"
    using map_ready_maps [OF rdy PTE_USER_RW_addr] by blast
  define s1 where "s1 = s\<lparr>el1_mm := m', el1_elr := el1_elr s, m_desc := ?d\<rparr>"
  have sw: "sec_switch a hw junk SVC_OP_MAP s = Some (Returned SVC_OP_MAP ?d s)"
    by (simp add: sec_switch_def sec_forward_def el0_sec_switch_def returned_def)
  have "el1_request SVC_OP_MAP ?d (s\<lparr>m_desc := ?d\<rparr>) = None" using t by (simp add: el1_request_def)
  moreover have "el1_handle_svc a hw SVC_OP_MAP ?d (el1_elr s) (s\<lparr>m_desc := ?d\<rparr>) = Some (0, ?d, s1)"
    using t m'(1) by (simp add: el1_handle_svc_def el1_svc_switch_def el1_map_secure_def s1_def)
  ultimately have svc: "sec_svc a hw SVC_OP_MAP ?d (s\<lparr>m_desc := ?d\<rparr>) = Some (Returned 0 ?d s1)"
    by (simp add: sec_svc_def)
  have run: "sec_run a hw junk SVC_OP_MAP s = sec_run a hw junk 0 (s1\<lparr>m_desc := ?d\<rparr>)"
    using sw svc by (subst sec_run.simps) simp
  have sw0: "sec_switch a hw junk 0 (s1\<lparr>m_desc := ?d\<rparr>) = Some (Returned SVC_OP_YIELD ?d (s1\<lparr>m_desc := ?d\<rparr>))"
    by (simp add: sec_switch_def sec_forward_def el0_sec_switch_def returned_def c_const)
  have r1: "sec_running J (s1\<lparr>m_desc := ?d\<rparr>)" using s by (simp add: sec_running_def s1_def)
  have tr: "ran_at (s1\<lparr>m_desc := ?d\<rparr>) = ran_at s" by (rule ran_at_eqI) (simp_all add: s1_def)
  obtain s' where s': "sec_svc a hw SVC_OP_YIELD ?d (s1\<lparr>m_desc := ?d\<rparr>) = Some (Switched SVC_OP_YIELD s')" "ns_running J s'"
    "ran_at s' = ran_at s" "el1_mm s' = b1_mm (m_other s)" "b1_mm (m_other s') = m'" "el3_mm (m_el3 s') = el3_mm (m_el3 s)"
    using sec_park [OF r1, of a hw ?d] tr by (auto simp: s1_def)
  have "sec_run a hw junk 0 (s1\<lparr>m_desc := ?d\<rparr>) = Some (SVC_OP_YIELD, s')"
    using sw0 s'(1) by (subst sec_run.simps) (simp add: c_const)
  then show ?thesis using run s' m' by simp
qed

lemma map_bits:
  assumes "x AND OP_MAP_ALL = OP_MAP_ALL"
  shows "x AND OP_MAP_EL3 = OP_MAP_EL3" "x AND OP_MAP_SEC_EL1 = OP_MAP_SEC_EL1"
    "(x AND NOT OP_MAP_EL3) AND OP_MAP_EL3 \<noteq> OP_MAP_EL3"
proof -
  have c: "OP_MAP_ALL = 15" "OP_MAP_EL3 = 8" "OP_MAP_SEC_EL1 = 4" by (simp_all add: c_const)
  have "x AND (15 AND k) = 15 AND k" for k :: u32
    using assms unfolding c by (metis and.assoc)
  from this [of 8] this [of 4] show "x AND OP_MAP_EL3 = OP_MAP_EL3" "x AND OP_MAP_SEC_EL1 = OP_MAP_SEC_EL1"
    by (simp_all add: c)
  have "(x AND NOT 8) AND 8 = (0 :: u32)" by (simp add: and.assoc)
  then show "(x AND NOT OP_MAP_EL3) AND OP_MAP_EL3 \<noteq> OP_MAP_EL3" by (simp add: c)
qed

text \<open>The whole round, for the physical address that non-secure EL1 puts into the request.\<close>

lemma ns_svc_map:
  assumes s: "ns_running J s" and t: "map_type d AND OP_MAP_ALL = OP_MAP_ALL"
    and p: "p = (if map_pa d \<noteq> 0 then mem_lookup_pa (map_va d) (el1_mm s) else 0)"
    and rdy: "map_ready lim (map_va d) (el3_mm (m_el3 s))" "map_ready lim2 (map_va d) (b1_mm (m_other s))"
  shows "\<exists>d' s'. ns_svc a hw junk SVC_OP_MAP d s = Some (0, d', s') \<and> ns_running J s' \<and> ran_at s' = ran_at s \<and>
     mem_lookup_pa (map_va d) (el3_mm (m_el3 s')) = p AND DESC_ADDR \<and>
     mem_lookup_pa (map_va d) (b1_mm (m_other s')) = p AND DESC_ADDR \<and>
     pt_inv lim (el3_mm (m_el3 s')) \<and> pt_inv lim2 (b1_mm (m_other s')) \<and> el1_mm s' = el1_mm s"
proof -
  define b where "b = (let b1 = copy_map (ibuf s) d in
    if map_pa b1 \<noteq> 0 then set_map_pa (mem_lookup_pa (map_va b1) (el1_mm s)) b1 else b1)"
  have b: "map_type b = map_type d" "map_va b = map_va d" "map_pa b = p"
    using p by (simp_all add: b_def Let_def layout)
  note mb = map_bits [OF t]
  define s0 where "s0 = s\<lparr>ibuf := b\<rparr>"
  have ns: "el3_inv (m_el3 s0)" "r_scr_el3 (cpu_of (m_el3 s0)) AND 1 = 1" using s by (simp_all add: ns_running_def s0_def)
  define b' where "b' = set_map_type (map_type b AND NOT OP_MAP_EL3) b"
  have b': "map_type b' = map_type d AND NOT OP_MAP_EL3" "map_va b' = map_va d" "map_pa b' = p"
    by (simp_all add: b'_def b layout)
  obtain e where e: "enter_el3 a SMC_OP_MAP s0 = Some (SVC_OP_MAP, True, swap_world (after b' e s0))" "el3_inv e"
    "r_scr_el3 (cpu_of e) AND 1 = 0" "el3_ran e = el3_ran (m_el3 s)"
    "view_of e = view_of (m_el3 s)" "syscntl e = el1_sysc s"
    "mem_lookup_pa (map_va d) (el3_mm e) = p AND DESC_ADDR" "pt_inv lim (el3_mm e)"
    using enter_map [OF ns(1), of lim a] mb(1,2) rdy(1) ns(2) b by (auto simp: s0_def b'_def)
  define s1 where "s1 = (swap_world (after b' e s0))\<lparr>el1_elr := m_pend_elr s, m_desc := b'\<rparr>"
  have smc: "ns_smc a hw junk SMC_OP_MAP s0 = sec_run a hw junk SVC_OP_MAP s1"
    using e(1) s sec_resume_yield [of "swap_world (after b' e s0)"]
    by (simp add: ns_smc_def s1_def s0_def ns_running_def)
  have r1: "sec_running J s1" using s e(2,3,5,6) by (simp add: ns_running_def sec_running_def s1_def s0_def)
  have tr: "ran_at s1 = ran_at s"
    using s e(4) by (intro ran_at_eqI) (simp_all add: s1_def s0_def ns_running_def c_const)
  have m1: "m_desc s1 = b'" "el1_mm s1 = b1_mm (m_other s)" "b1_mm (m_other s1) = el1_mm s" "m_el3 s1 = e"
    by (simp_all add: s1_def s0_def)
  obtain s2 where s2: "sec_run a hw junk SVC_OP_MAP s1 = Some (SVC_OP_YIELD, s2)" "ns_running J s2" "ran_at s2 = ran_at s"
    "mem_lookup_pa (map_va d) (b1_mm (m_other s2)) = p AND DESC_ADDR" "pt_inv lim2 (b1_mm (m_other s2))"
    "el1_mm s2 = el1_mm s" "el3_mm (m_el3 s2) = el3_mm e"
    using sec_run_map [OF r1, of lim2 a hw junk] mb(3) rdy(2) b' m1 tr by auto
  have "ns_svc a hw junk SVC_OP_MAP d s = Some (0, d, s2\<lparr>el1_elr := el1_elr s\<rparr>)"
    using smc s2(1) mb(1)
    by (simp add: ns_svc_def el1_handle_svc_def el1_svc_switch_def el1_map_secure_def Let_def s0_def
        flip: b_def [unfolded Let_def])
  then show ?thesis using s2 e by simp
qed

text \<open>C22: a request of non-secure EL0 to share a page with every level is carried out in EL3's
  table and in secure EL1's. Non-secure EL1 fills in the physical address only when the member
  \<open>pa\<close> of the request is not 0 already: then the page ends up, in both, at the physical page that
  non-secure EL1 has for it; with 0 there it ends up at physical page 0. (The only caller,
  \<open>map_va\<close>, leaves that member uninitialised.) Both tables keep their invariant, non-secure EL1's
  own table is not touched, and no test runs.\<close>

theorem map_request_shares_page:
  assumes "ns_running J s" "map_type d AND OP_MAP_ALL = OP_MAP_ALL"
    and "p = mem_lookup_pa (map_va d) (el1_mm s)" "p AND DESC_ADDR = p"
    and "map_ready lim (map_va d) (el3_mm (m_el3 s))" "map_ready lim2 (map_va d) (b1_mm (m_other s))"
  shows "\<exists>d' s'. ns_svc a hw junk SVC_OP_MAP d s = Some (0, d', s') \<and> ns_running J s' \<and> ran_at s' = ran_at s \<and>
     mem_lookup_pa (map_va d) (el3_mm (m_el3 s')) = (if map_pa d \<noteq> 0 then p else 0) \<and>
     mem_lookup_pa (map_va d) (b1_mm (m_other s')) = (if map_pa d \<noteq> 0 then p else 0) \<and>
     pt_inv lim (el3_mm (m_el3 s')) \<and> pt_inv lim2 (b1_mm (m_other s')) \<and> el1_mm s' = el1_mm s"
  using ns_svc_map [OF assms(1,2) refl assms(5,6), of a hw junk] assms(3,4) by (cases "map_pa d = 0") auto

text \<open>\<open>map_va\<close> of EL0 leaves the member \<open>pa\<close> as the stack had it. Where that happens to be
  0, the page is mapped at physical page 0 in EL3 and in secure EL1, whatever non-secure EL1
  has for it.\<close>

lemma el0_map_va_uninitialised_pa:
  assumes "ns_running J s" "map_pa stk = 0"
    and "map_ready lim va (el3_mm (m_el3 s))" "map_ready lim2 va (b1_mm (m_other s))"
  shows "\<exists>s'. el0_map_va (ns_el0 a hw junk) stk va len OP_MAP_ALL s = Some s' \<and> ns_running J s' \<and>
     mem_lookup_pa va (el3_mm (m_el3 s')) = 0 \<and> mem_lookup_pa va (b1_mm (m_other s')) = 0"
proof -
  let ?d = "map_va_desc stk va len OP_MAP_ALL"
  have d: "map_type ?d AND OP_MAP_ALL = OP_MAP_ALL" "map_va ?d = va" "map_pa ?d = 0"
    using assms(2) by (simp_all add: map_va_desc_def layout)
  obtain d' s' where "ns_svc a hw junk SVC_OP_MAP ?d s = Some (0, d', s')" "ns_running J s'"
    "mem_lookup_pa va (el3_mm (m_el3 s')) = 0" "mem_lookup_pa va (b1_mm (m_other s')) = 0"
    using ns_svc_map [OF assms(1) d(1), where p = 0 and a = a and hw = hw and junk = junk and lim = lim and ?lim2.0 = lim2]
      assms(3,4) d by auto
  then show ?thesis by (simp add: el0_map_va_def ns_el0_def)
qed

end
