(* ===== verification/SystemDemo.thy ===== *)
theory SystemDemo
  imports SystemMap
begin

text \<open>Closed instances of the properties of the composed machine.\<close>

definition demo_hw :: "sys services" where
  "demo_hw = \<lparr>smc = (\<lambda>_ _. None), mrs = (\<lambda>_ s. Some (0, s)), msr = (\<lambda>_ _ s. Some s), call = (\<lambda>_ _ s. Some s)\<rparr>"

text \<open>The non-secure world runs; in its table 0x80000000 translates to 0x40001000.\<close>

definition demo_ns_mm :: mm where
  "demo_ns_mm = the (mem_map_pa 0x80000000 0x40001000 0 PTE_USER_RW demo_mm)"

definition demo_sys :: sys where
  "demo_sys = \<lparr>ibuf = zero_desc, el1_secure = NONSECURE, el1_mm = demo_ns_mm, el1_sysc = demo_syscntl,
     el1_sysc_va = 0, el1_tcnt = \<lparr>tc_fail_count = 0, tc_test_count = 0\<rparr>, el1_elr = 0, el1_ran = [],
     m_el3 = (upd_cpu (\<lambda>c. c\<lparr>r_scr_el3 := 1\<rparr>) demo_el3)\<lparr>secure_state := NONSECURE\<rparr>,
     m_other = \<lparr>b1_secure = SECURE, b1_mm = demo_mm, b1_sysc_va = 0, b1_elr = 0, b1_ran = []\<rparr>,
     m_pend_op = SVC_OP_YIELD, m_pend = zero_desc, m_pend_elr = 0, m_desc = zero_desc,
     ran0_sec = [], ran0_nsec = []\<rparr>"

lemma demo_tame: "body_ok (\<lambda>_. True) (\<lambda>_. True) demo_hw el f"
  by (auto simp: body_ok_def tame_def undisturbed_def demo_hw_def ns_running_def sec_running_def)

lemma demo_bodies: "bodies_ok a (\<lambda>_ _. True) (\<lambda>_. 0) demo_hw ts"
  using demo_tame by (simp add: bodies_ok_def)

lemma demo_ns_running: "ns_running (\<lambda>_. True) demo_sys"
  using demo_el3_inv by (simp add: ns_running_def demo_sys_def el3_inv_def el3_mode_def) (simp add: c_const)

lemma counting_True: "counting (\<lambda>_ _. True)"
  by (simp add: counting_def)

lemma demo_ran: "ran_at demo_sys p = []"
  by (cases p) (simp_all add: demo_sys_def demo_el3_def)

lemma demo_usable_top: "usable 0x80000 demo_mm 0x80000000"
  by (rule demo_usable) (simp add: pt_index_def)

lemma demo_ready: "map_ready 0x80000 0x80000000 demo_mm"
  using demo_inv demo_pages demo_usable_top by (simp add: map_ready_def)

lemma demo_ns_lookup: "mem_lookup_pa 0x80000000 demo_ns_mm = 0x40001000"
proof -
  obtain m where "mem_map_pa 0x80000000 0x40001000 0 PTE_USER_RW demo_mm = Some m"
    "mem_lookup_pa 0x80000000 m = 0x40001000 AND DESC_ADDR"
    using map_ready_maps [OF demo_ready PTE_USER_RW_addr] by blast
  then show ?thesis by (simp add: demo_ns_mm_def DESC_ADDR_def)
qed

lemma dispatched_test_runs_once_witness:
  "\<exists>s'. el0_run_test AArch64 (ns_el0 AArch64 demo_hw zero_desc) NONSECURE zero_desc TZTEST_WFX_TRAP EL1 SECURE 0 demo_sys = Some s' \<and>
     ran_at s' (At_EL1 True) = [(El1_check_wfx_trap, 0)] \<and> ran_at s' (At_EL0 False) = []"
proof -
  have "unat TZTEST_WFX_TRAP < length (test_func AArch64 EL1 SECURE)"
    "test_func AArch64 EL1 SECURE ! unat TZTEST_WFX_TRAP = Some El1_check_wfx_trap"
    by (simp_all add: test_func_def el1_sec_test_func_def c_const)
  then obtain s' where
    "el0_run_test AArch64 (ns_el0 AArch64 demo_hw zero_desc) NONSECURE zero_desc TZTEST_WFX_TRAP EL1 SECURE 0 demo_sys = Some s'"
    "ran_at s' = (ran_at demo_sys)(place_of EL1 SECURE := ran_at demo_sys (place_of EL1 SECURE) @ [(El1_check_wfx_trap, 0)])"
    using dispatched_test_runs_once [OF demo_ns_running demo_tame, of EL1 SECURE TZTEST_WFX_TRAP AArch64 El1_check_wfx_trap zero_desc 0]
    by auto
  then show ?thesis by (simp add: place_of_def levels demo_ran del: ran_at.simps)
qed

lemma tztest_start_runs_table_witness:
  "\<exists>s'. tztest_start AArch32 (ns_el0 AArch32 demo_hw zero_desc) zero_desc demo_sys = Some (True, s') \<and>
     ran_at s' At_EL3 = [(El3_check_smc, 0)] \<and> length (ran_at s' (At_EL1 False)) = 3"
proof -
  obtain s' where s': "tztest_start AArch32 (ns_el0 AArch32 demo_hw zero_desc) zero_desc demo_sys = Some (True, s')"
    "\<forall>p. ran_at s' p = ran_at demo_sys p @ planned AArch32 (tztest_loop (tztest AArch32)) p"
    using tztest_start_runs_table [OF demo_ns_running counting_True demo_bodies] by blast
  have "planned AArch32 (tztest_loop (tztest AArch32)) At_EL3 = [(El3_check_smc, 0)]"
    "length (planned AArch32 (tztest_loop (tztest AArch32)) (At_EL1 False)) = 3"
    by (simp_all add: planned_def tztest_def TEST_END_def TEST_def place_of_def test_func_def el3_test_func_def c_const)
  then show ?thesis using s' by (simp add: demo_ran del: ran_at.simps)
qed

lemma secure_el0_step_lost_witness:
  "\<exists>s'. ns_smc AArch64 demo_hw zero_desc SMC_OP_TEST (demo_sys\<lparr>ibuf := test_step (interop_init zero_desc)\<rparr>) = Some (SVC_OP_YIELD, s') \<and>
     test_count (ibuf s') = 2 \<and> test_count (m_desc s') = 3"
proof -
  have "ns_running (\<lambda>_. True) (demo_sys\<lparr>ibuf := test_step (interop_init zero_desc)\<rparr>)" using demo_ns_running by simp
  then show ?thesis
    using secure_el0_step_lost [of "\<lambda>_. True" "demo_sys\<lparr>ibuf := test_step (interop_init zero_desc)\<rparr>" AArch64 demo_hw zero_desc]
    by (auto simp: test_step_fields interop_init_ok)
qed

lemma map_request_shares_page_witness:
  "\<exists>d' s'. ns_svc AArch64 demo_hw zero_desc SVC_OP_MAP (set_map_pa 4 (map_va_desc zero_desc 0x80000000 0x1000 OP_MAP_ALL)) demo_sys
      = Some (0, d', s') \<and>
     mem_lookup_pa 0x80000000 (el3_mm (m_el3 s')) = 0x40001000 \<and> mem_lookup_pa 0x80000000 (b1_mm (m_other s')) = 0x40001000"
proof -
  let ?d = "set_map_pa 4 (map_va_desc zero_desc 0x80000000 0x1000 OP_MAP_ALL)"
  have d: "map_type ?d AND OP_MAP_ALL = OP_MAP_ALL" "map_pa ?d \<noteq> 0" "map_va ?d = 0x80000000"
    by (simp_all add: map_va_desc_def layout)
  have mm: "el1_mm demo_sys = demo_ns_mm" "el3_mm (m_el3 demo_sys) = demo_mm" "b1_mm (m_other demo_sys) = demo_mm"
    by (simp_all add: demo_sys_def demo_el3_def upd_cpu_def)
  have fr: "(0x40001000 :: u64) AND DESC_ADDR = 0x40001000" by (simp add: DESC_ADDR_def)
  show ?thesis
    using map_request_shares_page [OF demo_ns_running d(1) refl, where lim = "0x80000" and ?lim2.0 = "0x80000"
        and a = AArch64 and hw = demo_hw and junk = zero_desc] d mm demo_ns_lookup demo_ready fr
    by auto
qed

lemma el0_map_va_uninitialised_pa_witness:
  "\<exists>s'. el0_map_va (ns_el0 AArch64 demo_hw zero_desc) zero_desc 0x80000000 0x1000 OP_MAP_ALL demo_sys = Some s' \<and>
     mem_lookup_pa 0x80000000 (el1_mm demo_sys) = 0x40001000 \<and> mem_lookup_pa 0x80000000 (el3_mm (m_el3 s')) = 0"
proof -
  have mm: "el1_mm demo_sys = demo_ns_mm" "el3_mm (m_el3 demo_sys) = demo_mm" "b1_mm (m_other demo_sys) = demo_mm"
    by (simp_all add: demo_sys_def demo_el3_def upd_cpu_def)
  have z: "map_pa zero_desc = 0" by (simp add: map_pa_def zero_desc_def)
  show ?thesis
    using el0_map_va_uninitialised_pa [OF demo_ns_running z, of "0x80000" "0x80000000" "0x80000" AArch64 demo_hw zero_desc "0x1000"]
      mm demo_ns_lookup demo_ready by auto
qed

end
