(* ===== verification/MachineDemo.thy ===== *)
theory MachineDemo
  imports MachineRun SystemDemo
begin

text \<open>A processor with the documented routing, and a machine on which the test program runs.\<close>

fun demo_route :: "u32 \<Rightarrow> insn \<Rightarrow> (sysreg \<Rightarrow> u64) \<Rightarrow> route" where
  "demo_route el I_smc g = Trap EL1 EC_UNKNOWN"
| "demo_route el I_wfe g =
     (if el = EL0 \<and> \<not> bit (g R_SCTLR) 18 then Trap EL1 EC_WFI_WFE else if bit (g R_SCR) 13 then Trap EL3 EC_WFI_WFE else Executes)"
| "demo_route el I_wfi g =
     (if el = EL0 \<and> \<not> bit (g R_SCTLR) 16 then Trap EL1 EC_WFI_WFE else if bit (g R_SCR) 12 then Trap EL3 EC_WFI_WFE else Executes)"
| "demo_route el I_fcmp g =
     (if (if el = EL0 then fpen (g R_CPACR) \<noteq> 3 else even (fpen (g R_CPACR))) then Trap EL1 EC_SIMD
      else if bit (g R_CPTR_EL3) 10 then Trap EL3 EC_SIMD else Executes)"
| "demo_route el (I_mrs r) g =
     (if r \<in> {R_SCR, R_SDER, R_CPTR_EL3} then Trap EL1 EC_UNKNOWN
      else if r = R_CPACR \<and> bit (g R_CPTR_EL3) 31 then Trap EL3 EC_SYSINSN else Executes)"
| "demo_route el (I_msr r v) g =
     (if r \<in> {R_SCR, R_SDER, R_CPTR_EL3} then Trap EL1 EC_UNKNOWN
      else if r = R_CPACR \<and> bit (g R_CPTR_EL3) 31 then Trap EL3 EC_SYSINSN else Executes)"

definition demo_processor :: processor where
  "demo_processor = \<lparr>p_route = demo_route, p_iss = (\<lambda>_. 5), p_far = (\<lambda>_. 0), p_pc = (\<lambda>_. 0x8000), p_val = (\<lambda>_. 0xdead)\<rparr>"

lemma demo_routes: "arm_routes demo_processor"
proof -
  have "EL1 \<noteq> EL0" by (simp add: c_const)
  then show ?thesis
    by (simp add: arm_routes_def el0_routes_def el1_routes_def undef_regs_def demo_processor_def)
qed

definition demo_run :: sys where
  "demo_run = demo_sys\<lparr>el1_sysc := demo_syscntl\<lparr>excp := idle_log\<rparr>,
     m_el3 := (m_el3 demo_sys)\<lparr>el3_mon := (el3_mon (m_el3 demo_sys))
       \<lparr>mon_cpu := (cpu_of (m_el3 demo_sys))\<lparr>r_cpacr_el1 := 0x300000\<rparr>,
        sec_state := (sec_state (el3_mon (m_el3 demo_sys)))\<lparr>b_cpacr_el1 := 0x300000\<rparr>\<rparr>\<rparr>\<rparr>"

lemma demo_run_inv: "el3_inv (m_el3 demo_run)"
  using demo_ns_running by (simp add: ns_running_def demo_run_def el3_inv_def el3_mode_def)

lemma demo_run_regs:
  "sys_regs demo_run R_CPACR = 0x300000" "sys_regs demo_run R_CPTR_EL3 = 0" "log_of demo_run = idle_log"
  by (simp_all add: demo_run_def sys_regs_def demo_sys_def demo_el3_def demo_monitor_def demo_cpu_def upd_cpu_def)

lemma demo_run_running: "ns_running (all_passed 0) demo_run"
proof -
  have "r_scr_el3 (cpu_of (m_el3 demo_run)) = 1" by (simp add: demo_run_def demo_sys_def demo_el3_def upd_cpu_def)
  moreover have "r_cptr_el3 (cpu_of (m_el3 demo_run)) = 0" "r_cpacr_el1 (cpu_of (m_el3 demo_run)) = 0x300000"
    "b_cpacr_el1 (sec_state (el3_mon (m_el3 demo_run))) = 0x300000" "log_of demo_run = idle_log"
    "tc_fail_count (el1_tcnt demo_run) = 0" "tc_test_count (el1_tcnt demo_run) = 0"
    by (simp_all add: demo_run_def demo_sys_def demo_el3_def demo_monitor_def demo_cpu_def upd_cpu_def)
  ultimately have "all_passed 0 (tst demo_run)"
    by (simp add: all_passed_def tst_def view_of_def ns_cpacr_def sec_cpacr_def fpen_def del: tst_fold)
  then show ?thesis
    using demo_ns_running demo_run_inv by (simp add: ns_running_def) (simp add: demo_run_def)
qed

lemma test_functions_pass_witness:
  "\<exists>s'. test_body AArch64 El0_check_wfx_trap (test_env_of demo_processor EL0) zero_desc demo_run = Some s' \<and>
     sys_regs s' = sys_regs demo_run \<and> tc_fail_count (el1_tcnt s') = 0 \<and> tc_test_count (el1_tcnt s') = 6"
proof -
  have "fp_ready (sys_regs demo_run)" by (simp add: fp_ready_def demo_run_regs fpen_def)
  moreover have "TEST TZTEST_WFX_TRAP EL0 NONSECURE 0 \<in> set (tztest_loop (tztest AArch64))"
    by (simp add: tztest_def TEST_END_def TEST_def c_const)
  moreover have "test_func AArch64 EL0 NONSECURE ! unat TZTEST_WFX_TRAP = Some El0_check_wfx_trap"
    by (simp add: test_func_def el0_test_func_def c_const)
  moreover have "tc_fail_count (el1_tcnt demo_run) = 0" "tc_test_count (el1_tcnt demo_run) = 0"
    by (simp_all add: demo_run_def demo_sys_def)
  ultimately show ?thesis
    using test_functions_pass [OF demo_routes demo_run_inv demo_run_regs(3), of "TEST TZTEST_WFX_TRAP EL0 NONSECURE 0" zero_desc]
    by (auto simp: TEST_def)
qed

lemma aarch64_run_passes_witness:
  "\<exists>s'. tztest_start AArch64 (ns_el0 AArch64 (test_machine demo_processor zero_desc) zero_desc) zero_desc demo_run = Some (True, s') \<and>
     tc_fail_count (el1_tcnt s') = 0 \<and> tc_test_count (el1_tcnt s') = 81"
  using aarch64_run_passes [OF demo_routes demo_run_running, of zero_desc] by blast

end
