(* ===== verification/LibString.thy ===== *)
theory LibString
  imports CMemory
begin

text \<open>
  The string routines of \<^verbatim>\<open>libcflat/string.c\<close>, over the byte memory of \<open>CMemory\<close>.
  A pointer is an address, \<open>NULL\<close> is address 0, \<open>size_t\<close> and \<open>unsigned long\<close> are 64
  bits (the AArch64 build), and \<open>char\<close> is unsigned, as the procedure call standard of
  both Arm architectures has it.  A loop that ends at a terminating NUL is a
  \<open>partial_function\<close>: \<open>None\<close> is a loop that never ends.  A loop that counts down an
  argument recurses on the number of iterations left.

  \<open>c_str m a s\<close> says that the NUL-terminated string at \<open>a\<close> is \<open>s\<close>;
  \<open>bytes_at\<close> and \<open>write_bytes\<close> are the simultaneous read and write of a region, which
  the copying routines are compared with.
\<close>

section \<open>The routines\<close>

partial_function (option) strlen_loop :: "mem \<Rightarrow> u64 \<Rightarrow> u64 \<Rightarrow> u64 option" where
  "strlen_loop m buf len = (if m buf \<noteq> 0 then strlen_loop m (buf + 1) (len + 1) else Some len)"

definition strlen :: "mem \<Rightarrow> u64 \<Rightarrow> u64 option" where
  "strlen m buf = strlen_loop m buf 0"

partial_function (option) strcat_find :: "mem \<Rightarrow> u64 \<Rightarrow> u64 option" where
  "strcat_find m p = (if m p \<noteq> 0 then strcat_find m (p + 1) else Some p)"

partial_function (option) strcat_copy :: "mem \<Rightarrow> u64 \<Rightarrow> u64 \<Rightarrow> mem option" where
  "strcat_copy m p src =
     (if m src \<noteq> 0 then strcat_copy (m(p := m src)) (p + 1) (src + 1) else Some (m(p := m src)))"

definition strcat :: "mem \<Rightarrow> u64 \<Rightarrow> u64 \<Rightarrow> (mem \<times> u64) option" where
  "strcat m dest src = (case strcat_find m dest of None \<Rightarrow> None | Some p \<Rightarrow>
     (case strcat_copy m p src of None \<Rightarrow> None | Some m' \<Rightarrow> Some (m', dest)))"

definition strcpy :: "mem \<Rightarrow> u64 \<Rightarrow> u64 \<Rightarrow> (mem \<times> u64) option" where
  "strcpy m dest src = strcat (m(dest := 0)) dest src"

partial_function (option) strcmp :: "mem \<Rightarrow> u64 \<Rightarrow> u64 \<Rightarrow> int option" where
  "strcmp m a b =
     (if m a = m b \<and> m a \<noteq> 0 then strcmp m (a + 1) (b + 1) else Some (uint (m a) - uint (m b)))"

partial_function (option) strchr :: "mem \<Rightarrow> u64 \<Rightarrow> u32 \<Rightarrow> u64 option" where
  "strchr m s c =
     (if m s \<noteq> ucast c then (if m s = 0 then Some 0 else strchr m (s + 1) c) else Some s)"

definition memset :: "mem \<Rightarrow> u64 \<Rightarrow> u32 \<Rightarrow> u64 \<Rightarrow> mem \<times> u64" where
  "memset m s c n = (fold (\<lambda>i m. m(s + of_nat i := ucast c)) [0..<unat n] m, s)"

definition memcpy :: "mem \<Rightarrow> u64 \<Rightarrow> u64 \<Rightarrow> u64 \<Rightarrow> mem \<times> u64" where
  "memcpy m dest src n =
     (fold (\<lambda>i m. m(dest + of_nat i := m (src + of_nat i))) [0..<unat n] m, dest)"

primrec memcmp_loop :: "nat \<Rightarrow> mem \<Rightarrow> u64 \<Rightarrow> u64 \<Rightarrow> int \<Rightarrow> int" where
  "memcmp_loop 0 m a b ret = ret"
| "memcmp_loop (Suc n) m a b ret =
     (let ret = uint (m a) - uint (m b) in
      if ret \<noteq> 0 then ret else memcmp_loop n m (a + 1) (b + 1) ret)"

definition memcmp :: "mem \<Rightarrow> u64 \<Rightarrow> u64 \<Rightarrow> u64 \<Rightarrow> int" where
  "memcmp m s1 s2 n = memcmp_loop (unat n) m s1 s2 0"

primrec memmove_up :: "nat \<Rightarrow> mem \<Rightarrow> u64 \<Rightarrow> u64 \<Rightarrow> mem" where
  "memmove_up 0 m d s = m"
| "memmove_up (Suc n) m d s = memmove_up n (m(d := m s)) (d + 1) (s + 1)"

primrec memmove_down :: "nat \<Rightarrow> mem \<Rightarrow> u64 \<Rightarrow> u64 \<Rightarrow> mem" where
  "memmove_down 0 m d s = m"
| "memmove_down (Suc n) m d s = memmove_down n (m(d - 1 := m (s - 1))) (d - 1) (s - 1)"

definition memmove :: "mem \<Rightarrow> u64 \<Rightarrow> u64 \<Rightarrow> u64 \<Rightarrow> mem \<times> u64" where
  "memmove m dest src n =
     (if dest \<le> src then memmove_up (unat n) m dest src
      else memmove_down (unat n) m (dest + n) (src + n), dest)"

primrec memchr_loop :: "nat \<Rightarrow> mem \<Rightarrow> u64 \<Rightarrow> u8 \<Rightarrow> u64" where
  "memchr_loop 0 m str chr = 0"
| "memchr_loop (Suc n) m str chr =
     (if m str = chr then str + 1 - 1 else memchr_loop n m (str + 1) chr)"

definition memchr :: "mem \<Rightarrow> u64 \<Rightarrow> u32 \<Rightarrow> u64 \<Rightarrow> u64" where
  "memchr m s c n = memchr_loop (unat n) m s (ucast c)"

text \<open>
  \<open>atol\<close>: white space, a sign, then digits.  \<open>long\<close> is a 64-bit word and wraps where the
  C result would overflow.
\<close>

partial_function (option) atol_space :: "mem \<Rightarrow> u64 \<Rightarrow> u64 option" where
  "atol_space m s = (if m s = 32 \<or> m s = 9 then atol_space m (s + 1) else Some s)"

partial_function (option) atol_digits :: "mem \<Rightarrow> u64 \<Rightarrow> u64 \<Rightarrow> u64 option" where
  "atol_digits m s acc =
     (if m s \<noteq> 0 then
        if m s < 48 \<or> m s > 57 then Some acc
        else atol_digits m (s + 1) (acc * 10 + (ucast (m s) - 48))
      else Some acc)"

definition atol :: "mem \<Rightarrow> u64 \<Rightarrow> u64 option" where
  "atol m ptr = (case atol_space m ptr of None \<Rightarrow> None | Some s \<Rightarrow>
     if m s = 45 then map_option uminus (atol_digits m (s + 1) 0)
     else atol_digits m (if m s = 43 then s + 1 else s) 0)"

section \<open>Strings and regions of memory\<close>

primrec c_str :: "mem \<Rightarrow> u64 \<Rightarrow> u8 list \<Rightarrow> bool" where
  "c_str m a [] \<longleftrightarrow> m a = 0"
| "c_str m a (c # s) \<longleftrightarrow> c \<noteq> 0 \<and> m a = c \<and> c_str m (a + 1) s"

definition bytes_at :: "mem \<Rightarrow> u64 \<Rightarrow> nat \<Rightarrow> u8 list" where
  "bytes_at m a n = map (\<lambda>i. m (a + of_nat i)) [0..<n]"

primrec write_bytes :: "u64 \<Rightarrow> u8 list \<Rightarrow> mem \<Rightarrow> mem" where
  "write_bytes a [] m = m"
| "write_bytes a (b # bs) m = write_bytes (a + 1) bs (m(a := b))"

text \<open>\<open>within a n x\<close>: \<open>x\<close> is one of the \<open>n\<close> bytes from \<open>a\<close> on;
  \<open>apart a n b k\<close>: the two regions share no byte.\<close>

definition within :: "u64 \<Rightarrow> nat \<Rightarrow> u64 \<Rightarrow> bool" where
  "within a n x \<longleftrightarrow> unat (x - a) < n"

definition apart :: "u64 \<Rightarrow> nat \<Rightarrow> u64 \<Rightarrow> nat \<Rightarrow> bool" where
  "apart a n b k \<longleftrightarrow> (\<forall>i<n. \<forall>j<k. a + of_nat i \<noteq> b + of_nat j)"

lemma within_of_nat: "within a n x \<Longrightarrow> \<exists>i<n. x = a + of_nat i"
  by (intro exI [of _ "unat (x - a)"]) (simp add: within_def)

lemma within_offset: "i < n \<Longrightarrow> within a n (a + of_nat i)"
  by (simp add: within_def unsigned_of_nat take_bit_nat_less_eq_self le_less_trans [OF take_bit_nat_less_eq_self])

lemma within_0 [simp]: "\<not> within a 0 x"
  by (simp add: within_def)

lemma within_iff: "within a n x \<longleftrightarrow> (\<exists>i<n. x = a + of_nat i)"
  using within_of_nat within_offset by blast

lemma within_mono: "within a n x \<Longrightarrow> n \<le> k \<Longrightarrow> within a k x"
  by (simp add: within_def)

lemma within_Suc: "within a (Suc n) x \<longleftrightarrow> x = a \<or> within (a + 1) n x"
proof -
  have "(\<exists>i<Suc n. x = a + of_nat i) \<longleftrightarrow> x = a \<or> (\<exists>i<n. x = a + 1 + of_nat i)"
    by (simp add: Ex_less_Suc2 add.assoc)
  then show ?thesis by (simp add: within_iff)
qed

lemma apart_iff: "apart a n b k \<longleftrightarrow> (\<forall>x. within a n x \<longrightarrow> \<not> within b k x)"
  by (auto simp: apart_def within_iff)

lemma apart_sym: "apart a n b k \<Longrightarrow> apart b k a n"
  by (auto simp: apart_iff)

lemma apart_Suc: "apart a (Suc n) b (Suc k) \<Longrightarrow> apart (a + 1) n (b + 1) k"
  by (auto simp: apart_iff within_Suc)

lemma apart_mono: "apart a n b k \<Longrightarrow> n' \<le> n \<Longrightarrow> k' \<le> k \<Longrightarrow> apart a n' b k'"
  by (auto simp: apart_def)


lemma apart_below:
  assumes "unat a + n \<le> unat b" "unat b + k \<le> 2 ^ 64" shows "apart a n b k"
  unfolding apart_def
proof (intro allI impI notI)
  fix i j
  assume ij: "i < n" "j < k" and eq: "a + of_nat i = b + of_nat j"
  have "unat (a + of_nat i) = unat a + i" "unat (b + of_nat j) = unat b + j"
    using ij assms by (simp_all add: unat_add_small unat_of_nat_u64)
  then show False using eq ij assms by simp
qed

lemma apart_above: "unat b + k \<le> unat a \<Longrightarrow> unat a + n \<le> 2 ^ 64 \<Longrightarrow> apart a n b k"
  by (rule apart_sym, rule apart_below)

section \<open>Laws of strings and regions\<close>

lemma c_str_cong: "(\<And>x. within a (Suc (length s)) x \<Longrightarrow> m x = m' x) \<Longrightarrow> c_str m a s = c_str m' a s"
proof (induction s arbitrary: a)
  case Nil
  then show ?case by (simp add: within_Suc)
next
  case (Cons c s)
  have "c_str m (a + 1) s = c_str m' (a + 1) s"
    by (rule Cons.IH) (rule Cons.prems, simp only: within_Suc [of a "Suc (length s)"] length_Cons simp_thms)
  moreover have "m a = m' a" by (rule Cons.prems) (simp only: within_Suc, blast)
  ultimately show ?case by simp
qed

lemma c_str_upd: "\<not> within a (Suc (length s)) p \<Longrightarrow> c_str (m(p := c)) a s = c_str m a s"
  by (rule c_str_cong) auto

lemma c_str_unique: "c_str m a s \<Longrightarrow> c_str m a t \<Longrightarrow> s = t"
proof (induction s arbitrary: a t)
  case Nil
  then show ?case by (cases t) auto
next
  case (Cons c s)
  then show ?case by (cases t) auto
qed

lemma c_str_nth: "c_str m a s \<Longrightarrow> i < length s \<Longrightarrow> m (a + of_nat i) = s ! i \<and> s ! i \<noteq> 0"
proof (induction s arbitrary: a i)
  case Nil
  then show ?case by simp
next
  case (Cons c s)
  then show ?case using Cons.IH [of "a + 1" "i - 1"] by (cases i) (simp_all add: add.assoc)
qed

lemma c_str_end: "c_str m a s \<Longrightarrow> m (a + of_nat (length s)) = 0"
  by (induction s arbitrary: a) (simp_all add: add.assoc [symmetric])

lemma c_str_length: "c_str m a s \<Longrightarrow> length s < 2 ^ 64"
proof (rule ccontr)
  assume str: "c_str m a s" and "\<not> length s < 2 ^ 64"
  then have long: "length s mod 2 ^ 64 < length s"
    by (meson mod_less_divisor not_le less_le_trans zero_less_numeral zero_less_power)
  have "(of_nat (length s) :: u64) = of_nat (length s mod 2 ^ 64)"
    by (simp add: word_unat_eq_iff unsigned_of_nat take_bit_eq_mod)
  then show False
    using c_str_nth [OF str long] c_str_end [OF str] by simp
qed

lemma c_str_nonzero: "c_str m a s \<Longrightarrow> 0 \<notin> set s"
  by (induction s arbitrary: a) auto

lemma write_bytes_append: "write_bytes a (bs @ cs) m = write_bytes (a + of_nat (length bs)) cs (write_bytes a bs m)"
  by (induction bs arbitrary: a m) (simp_all add: add.assoc)

lemma write_bytes_outside: "\<not> within a (length bs) x \<Longrightarrow> write_bytes a bs m x = m x"
  by (induction bs arbitrary: a m) (simp_all add: within_Suc)

lemma within_short:
  assumes "Suc n \<le> 2 ^ 64" shows "\<not> within (a + 1) n a"
proof
  assume "within (a + 1) n a"
  then obtain i where "i < n" "a = a + 1 + of_nat i" by (auto simp: within_iff)
  then have "(of_nat (Suc i) :: u64) = 0" by (simp add: add.assoc)
  then show False using of_nat_neq_0 [of "Suc i"] \<open>i < n\<close> assms by simp
qed

lemma write_bytes_nth:
  "length bs \<le> 2 ^ 64 \<Longrightarrow> i < length bs \<Longrightarrow> write_bytes a bs m (a + of_nat i) = bs ! i"
proof (induction bs arbitrary: a m i)
  case Nil
  then show ?case by simp
next
  case (Cons b bs)
  show ?case
  proof (cases i)
    case 0
    then show ?thesis
      using write_bytes_outside [OF within_short [of "length bs" a]] Cons.prems by simp
  next
    case (Suc k)
    then show ?thesis using Cons.IH [of k "a + 1"] Cons.prems by (simp add: add.assoc)
  qed
qed

lemma write_bytes_eqI:
  assumes "length bs \<le> 2 ^ 64" "\<And>x. \<not> within a (length bs) x \<Longrightarrow> m' x = m x"
    "\<And>i. i < length bs \<Longrightarrow> m' (a + of_nat i) = bs ! i"
  shows "m' = write_bytes a bs m"
proof
  fix x
  show "m' x = write_bytes a bs m x"
  proof (cases "within a (length bs) x")
    case True
    then obtain i where "i < length bs" "x = a + of_nat i" by (auto simp: within_iff)
    then show ?thesis using assms(1,3) by (simp add: write_bytes_nth)
  next
    case False
    then show ?thesis using assms(2) by (simp add: write_bytes_outside)
  qed
qed

lemma c_str_write_bytes:
  "length s < 2 ^ 64 \<Longrightarrow> 0 \<notin> set s \<Longrightarrow> c_str (write_bytes a (s @ [0]) m) a s"
proof (induction s arbitrary: a m)
  case Nil
  then show ?case by simp
next
  case (Cons c s)
  have "write_bytes (a + 1) (s @ [0]) (m(a := c)) a = c"
    using write_bytes_outside [OF within_short [of "length (s @ [0])" a]] Cons.prems by simp
  then show ?case using Cons by simp
qed

lemma length_bytes_at [simp]: "length (bytes_at m a n) = n"
  by (simp add: bytes_at_def)

lemma bytes_at_nth: "i < n \<Longrightarrow> bytes_at m a n ! i = m (a + of_nat i)"
  by (simp add: bytes_at_def)

lemma bytes_at_0 [simp]: "bytes_at m a 0 = []"
  by (simp add: bytes_at_def)

lemma bytes_at_Suc: "bytes_at m a (Suc n) = m a # bytes_at m (a + 1) n"
  by (rule nth_equalityI) (auto simp: bytes_at_nth nth_Cons add.assoc split: nat.splits)

lemma bytes_at_snoc: "bytes_at m a (Suc n) = bytes_at m a n @ [m (a + of_nat n)]"
  by (simp add: bytes_at_def)

lemma bytes_at_cong: "(\<And>x. within a n x \<Longrightarrow> m x = m' x) \<Longrightarrow> bytes_at m a n = bytes_at m' a n"
  by (auto simp: bytes_at_def within_offset)

section \<open>Loops that end at the NUL\<close>

lemma strlen_loop_c_str: "c_str m a s \<Longrightarrow> strlen_loop m a n = Some (n + of_nat (length s))"
  by (induction s arbitrary: a n) (subst strlen_loop.simps, simp)+

lemma strlen_loop_returns:
  assumes "strlen_loop m a n = Some r"
  shows "\<exists>s. c_str m a s \<and> r = n + of_nat (length s)"
proof (rule strlen_loop.raw_induct
    [where P = "\<lambda>m a n r. \<exists>s. c_str m a s \<and> r = n + of_nat (length s)", OF _ assms])
  fix loop :: "mem \<Rightarrow> u64 \<Rightarrow> u64 \<Rightarrow> u64 option" and m a n r
  assume IH: "\<And>m a n r. loop m a n = Some r \<Longrightarrow> \<exists>s. c_str m a s \<and> r = n + of_nat (length s)"
    and step: "(if m a \<noteq> 0 then loop m (a + 1) (n + 1) else Some n) = Some r"
  show "\<exists>s. c_str m a s \<and> r = n + of_nat (length s)"
  proof (cases "m a = 0")
    case True
    then show ?thesis using step by (intro exI [of _ "[]"]) simp
  next
    case False
    then obtain s where "c_str m (a + 1) s" "r = n + 1 + of_nat (length s)"
      using step IH [of m "a + 1" "n + 1" r] by auto
    then show ?thesis using False by (intro exI [of _ "m a # s"]) simp
  qed
qed

lemma strlen_c_str: "c_str m a s \<Longrightarrow> strlen m a = Some (of_nat (length s))"
  by (simp add: strlen_def strlen_loop_c_str)

lemma strcat_find_c_str: "c_str m a s \<Longrightarrow> strcat_find m a = Some (a + of_nat (length s))"
  by (induction s arbitrary: a) (subst strcat_find.simps, simp add: add.assoc)+

lemma strcat_copy_c_str:
  "c_str m src s \<Longrightarrow> apart p (Suc (length s)) src (Suc (length s)) \<Longrightarrow>
   strcat_copy m p src = Some (write_bytes p (s @ [0]) m)"
proof (induction s arbitrary: m p src)
  case Nil
  then show ?case by (subst strcat_copy.simps) simp
next
  case (Cons c s)
  have "\<not> within (src + 1) (Suc (length s)) p"
    using Cons.prems(2) by (auto simp: apart_iff within_Suc)
  then have "c_str (m(p := c)) (src + 1) s"
    using Cons.prems(1) by (simp add: c_str_upd)
  moreover have "apart (p + 1) (Suc (length s)) (src + 1) (Suc (length s))"
    using Cons.prems(2) by (auto intro: apart_Suc)
  ultimately have "strcat_copy (m(p := c)) (p + 1) (src + 1)
      = Some (write_bytes (p + 1) (s @ [0]) (m(p := c)))"
    by (rule Cons.IH)
  then show ?case using Cons.prems(1) by (subst strcat_copy.simps) simp
qed

lemma uint_diff [simp]:
  "uint c - uint e = 0 \<longleftrightarrow> c = e" "uint c - uint e < 0 \<longleftrightarrow> c < e" for c e :: u8
  by (simp_all add: word_uint_eq_iff word_less_def)

lemma strcmp_c_str:
  "c_str m a s \<Longrightarrow> c_str m b t \<Longrightarrow>
   \<exists>d. strcmp m a b = Some d \<and> (d = 0 \<longleftrightarrow> s = t) \<and> (d < 0 \<longleftrightarrow> ord_class.lexordp s t)"
proof (induction s arbitrary: a b t)
  case Nil
  then show ?case
    by (cases t) (subst strcmp.simps, simp add: word_less_def word_uint_eq_iff less_le)+
next
  case (Cons c s)
  show ?case
  proof (cases t)
    case Nil
    then show ?thesis using Cons.prems by (subst strcmp.simps) (simp add: word_uint_eq_iff)
  next
    case t: (Cons e t')
    show ?thesis
    proof (cases "c = e")
      case True
      then show ?thesis using Cons.prems Cons.IH [of "a + 1" "b + 1" t'] t
        by (subst strcmp.simps) simp
    next
      case False
      then have "strcmp m a b = Some (uint c - uint e)"
        using Cons.prems t by (subst strcmp.simps) simp
      then show ?thesis using False t by (simp del: diff_less_0_iff_less right_minus_eq) (metis not_less_iff_gr_or_eq)
    qed
  qed
qed


lemma strchr_c_str:
  "c_str m a s \<Longrightarrow> strchr m a c = Some
     (let n = length (takeWhile ((\<noteq>) (ucast c)) s) in
      if n < length s \<or> (ucast c :: u8) = 0 then a + of_nat n else 0)"
proof (induction s arbitrary: a)
  case Nil
  then show ?case by (subst strchr.simps) (cases "(ucast c :: u8) = 0"; simp)
next
  case (Cons d s)
  show ?case
  proof (cases "d = ucast c")
    case True
    then show ?thesis using Cons.prems by (subst strchr.simps) simp
  next
    case False
    then have "strchr m a c = strchr m (a + 1) c"
      using Cons.prems by (subst strchr.simps) simp
    moreover have "c_str m (a + 1) s" using Cons.prems by simp
    moreover note Cons.IH [OF this]
    ultimately show ?thesis using False not_sym [OF False]
      by (simp only: takeWhile.simps if_True list.size Let_def of_nat_Suc add.assoc Suc_less_eq add_0_right) (simp add: ac_simps)
  qed
qed

section \<open>Loops that count\<close>

lemma fold_upto_Suc: "fold f [0..<Suc n] m = f n (fold f [0..<n] m)"
  by simp

lemma fold_upd_range:
  assumes "n \<le> 2 ^ 64"
  shows "fold (\<lambda>i m. m(a + of_nat i := f i)) [0..<n] m = write_bytes a (map f [0..<n]) m"
  using assms
proof (induction n)
  case 0
  then show ?case by simp
next
  case (Suc n)
  have "fold (\<lambda>i m. m(a + of_nat i := f i)) [0..<n] m = write_bytes a (map f [0..<n]) m"
    by (rule Suc.IH [OF Suc_leD [OF Suc.prems]])
  moreover have "map f [0..<Suc n] = map f [0..<n] @ [f n]" by simp
  ultimately show ?case
    by (simp only: fold_upto_Suc write_bytes_append length_map length_upt diff_zero write_bytes.simps)
qed

lemma memset_fills: "memset m s c n = (write_bytes s (replicate (unat n) (ucast c)) m, s)"
  using unat_less_u64 [of n] fold_upd_range [of "unat n" s "\<lambda>_. ucast c" m]
  by (simp add: memset_def map_replicate_const)

lemma memcpy_fold:
  assumes "apart dest k src k" "n \<le> k" "k \<le> 2 ^ 64"
  shows "fold (\<lambda>i m. m(dest + of_nat i := m (src + of_nat i))) [0..<n] m
    = write_bytes dest (bytes_at m src n) m"
  using assms(2)
proof (induction n)
  case 0
  then show ?case by simp
next
  case (Suc n)
  have "\<not> within dest n (src + of_nat n)"
    using assms(1) Suc.prems apart_iff [of dest k src k] within_mono [of dest n _ k]
      within_offset [of n k src] by auto
  then have "write_bytes dest (bytes_at m src n) m (src + of_nat n) = m (src + of_nat n)"
    by (simp add: write_bytes_outside)
  moreover have "fold (\<lambda>i m. m(dest + of_nat i := m (src + of_nat i))) [0..<n] m
      = write_bytes dest (bytes_at m src n) m"
    by (rule Suc.IH) (use Suc.prems in linarith)
  ultimately show ?case
    by (simp only: fold_upto_Suc bytes_at_snoc write_bytes_append length_bytes_at) simp
qed

lemma memcpy_copies:
  "apart dest (unat n) src (unat n) \<Longrightarrow>
   memcpy m dest src n = (write_bytes dest (bytes_at m src (unat n)) m, dest)"
  using unat_less_u64 [of n] by (simp add: memcpy_def memcpy_fold less_imp_le)

lemma memcmp_loop_compares:
  "\<exists>d. memcmp_loop n m a b 0 = d \<and> (d = 0 \<longleftrightarrow> bytes_at m a n = bytes_at m b n) \<and>
     (d < 0 \<longleftrightarrow> ord_class.lexordp (bytes_at m a n) (bytes_at m b n))"
proof (induction n arbitrary: a b)
  case 0
  then show ?case by simp
next
  case (Suc n)
  show ?case
  proof (cases "m a = m b")
    case True
    then show ?thesis using Suc.IH [of "a + 1" "b + 1"] by (simp add: bytes_at_Suc)
  next
    case False
    then have "memcmp_loop (Suc n) m a b 0 = uint (m a) - uint (m b)" 
      by (simp add: Let_def word_uint_eq_iff)
    then show ?thesis using False
      by (simp add: bytes_at_Suc del: memcmp_loop.simps diff_less_0_iff_less right_minus_eq)
        (metis not_less_iff_gr_or_eq)
  qed
qed

lemma memchr_loop_finds:
  "memchr_loop n m a c =
     (let k = length (takeWhile ((\<noteq>) c) (bytes_at m a n)) in if k < n then a + of_nat k else 0)"
  by (induction n arbitrary: a) (auto simp: Let_def bytes_at_Suc add.assoc)

section \<open>Copies that overlap\<close>

text \<open>A region that does not run past the end of the address space.\<close>

lemma memmove_up_step: "d \<le> s \<Longrightarrow> unat s + Suc n \<le> 2 ^ 64 \<Longrightarrow> \<not> within (s + 1) n d"
proof
  assume le: "d \<le> s" and top: "unat s + Suc n \<le> 2 ^ 64" and "within (s + 1) n d"
  then obtain i where i: "i < n" "d = s + of_nat (Suc i)" by (auto simp: within_iff add.assoc)
  then have "unat d = unat s + Suc i"
    using top by (simp add: unat_add_small unat_of_nat_u64 del: of_nat_Suc)
  then show False using le by (simp add: word_le_nat_alt)
qed

lemma memmove_up_moves:
  "d \<le> s \<Longrightarrow> unat s + n \<le> 2 ^ 64 \<Longrightarrow> memmove_up n m d s = write_bytes d (bytes_at m s n) m"
proof (induction n arbitrary: m d s)
  case 0
  then show ?case by simp
next
  case (Suc n)
  have same: "bytes_at (m(d := m s)) (s + 1) n = bytes_at m (s + 1) n"
    using memmove_up_step [OF Suc.prems] by (intro bytes_at_cong) auto
  show ?case
  proof (cases n)
    case 0
    then show ?thesis by (simp add: bytes_at_Suc)
  next
    case (Suc k)
    then have "unat (s + 1) = unat s + 1" using Suc.prems by (simp add: unat_add_small)
    moreover have "unat (d + 1) = unat d + 1"
      using Suc Suc.prems by (simp add: unat_add_small word_le_nat_alt)
    ultimately have "d + 1 \<le> s + 1" "unat (s + 1) + n \<le> 2 ^ 64"
      using Suc.prems by (simp_all add: word_le_nat_alt)
    then have "memmove_up n (m(d := m s)) (d + 1) (s + 1)
        = write_bytes (d + 1) (bytes_at m (s + 1) n) (m(d := m s))"
      using Suc.IH [of "d + 1" "s + 1" "m(d := m s)"] by (simp only: same)
    then show ?thesis by (simp add: bytes_at_Suc)
  qed
qed

lemma memmove_down_step: "s < d \<Longrightarrow> unat d + n < 2 ^ 64 \<Longrightarrow> \<not> within s n (d + of_nat n)"
proof
  assume lt: "s < d" and top: "unat d + n < 2 ^ 64" and "within s n (d + of_nat n)"
  then obtain i where i: "i < n" "d + of_nat n = s + of_nat i" by (auto simp: within_iff)
  moreover have "unat (d + of_nat n) = unat d + n"
    using top by (simp add: unat_add_small unat_of_nat_u64)
  moreover have "unat (s + of_nat i) = unat s + i"
    using i(1) lt top by (simp add: unat_add_small unat_of_nat_u64 word_less_nat_alt)
  ultimately show False using lt by (simp add: word_less_nat_alt)
qed

lemma write_bytes_commute:
  "\<not> within a (length bs) x \<Longrightarrow> write_bytes a bs (m(x := c)) = (write_bytes a bs m)(x := c)"
  by (induction bs arbitrary: a m) (simp_all add: within_Suc fun_upd_twist)

lemma memmove_down_moves:
  "s < d \<Longrightarrow> unat d + n \<le> 2 ^ 64 \<Longrightarrow>
   memmove_down n m (d + of_nat n) (s + of_nat n) = write_bytes d (bytes_at m s n) m"
proof (induction n arbitrary: m)
  case 0
  then show ?case by simp
next
  case (Suc n)
  let ?c = "m (s + of_nat n)"
  have "memmove_down (Suc n) m (d + of_nat (Suc n)) (s + of_nat (Suc n))
      = memmove_down n (m(d + of_nat n := ?c)) (d + of_nat n) (s + of_nat n)"
    by (simp add: add.commute)
  also have "\<dots> = write_bytes d (bytes_at (m(d + of_nat n := ?c)) s n) (m(d + of_nat n := ?c))"
    using Suc by simp
  also have "bytes_at (m(d + of_nat n := ?c)) s n = bytes_at m s n"
    using memmove_down_step [of s d n] Suc.prems by (intro bytes_at_cong) auto
  also have "write_bytes d (bytes_at m s n) (m(d + of_nat n := ?c))
      = (write_bytes d (bytes_at m s n) m)(d + of_nat n := ?c)"
  proof (rule write_bytes_commute)
    show "\<not> within d (length (bytes_at m s n)) (d + of_nat n)"
      using Suc.prems by (simp add: within_def unsigned_of_nat take_bit_nat_eq_self)
  qed
  finally show ?case by (simp add: bytes_at_snoc write_bytes_append)
qed

lemma memmove_moves:
  assumes "unat dest + unat n \<le> 2 ^ 64" "unat src + unat n \<le> 2 ^ 64"
  shows "memmove m dest src n = (write_bytes dest (bytes_at m src (unat n)) m, dest)"
  using assms memmove_up_moves [of dest src "unat n" m] memmove_down_moves [of src dest "unat n" m]
  by (simp add: memmove_def)


section \<open>Numbers in text\<close>

text \<open>The value of a sequence of decimal digits, and what \<open>atol\<close> makes of a string.\<close>

definition is_digit :: "u8 \<Rightarrow> bool" where
  "is_digit c \<longleftrightarrow> 48 \<le> c \<and> c \<le> 57"

definition decimal :: "u64 \<Rightarrow> u8 list \<Rightarrow> u64" where
  "decimal acc ds = foldl (\<lambda>acc c. acc * 10 + (ucast c - 48)) acc ds"

definition number_of_text :: "u8 list \<Rightarrow> u64" where
  "number_of_text s = (case dropWhile (\<lambda>c. c = 32 \<or> c = 9) s of
     [] \<Rightarrow> 0
   | c # t \<Rightarrow> if c = 45 then - decimal 0 (takeWhile is_digit t)
       else decimal 0 (takeWhile is_digit (if c = 43 then t else c # t)))"

lemma not_digit_iff: "c < 48 \<or> 57 < c \<longleftrightarrow> \<not> is_digit c"
  by (auto simp: is_digit_def not_le)

lemma atol_digits_c_str: "c_str m a s \<Longrightarrow> atol_digits m a acc = Some (decimal acc (takeWhile is_digit s))"
proof (induction s arbitrary: a acc)
  case Nil
  then show ?case by (subst atol_digits.simps) (simp add: decimal_def)
next
  case (Cons c s)
  then show ?case by (subst atol_digits.simps) (simp add: decimal_def not_digit_iff)
qed

lemma atol_space_c_str:
  "c_str m a s \<Longrightarrow> \<exists>b. atol_space m a = Some b \<and> c_str m b (dropWhile (\<lambda>c. c = 32 \<or> c = 9) s)"
proof (induction s arbitrary: a)
  case Nil
  then show ?case by (subst atol_space.simps) simp
next
  case (Cons c s)
  then show ?case by (subst atol_space.simps) auto
qed

lemma atol_c_str: "c_str m a s \<Longrightarrow> atol m a = Some (number_of_text s)"
proof -
  assume "c_str m a s"
  from atol_space_c_str [OF this] obtain b where
    space: "atol_space m a = Some b" and str: "c_str m b (dropWhile (\<lambda>c. c = 32 \<or> c = 9) s)"
    by blast
  show ?thesis
  proof (cases "dropWhile (\<lambda>c. c = 32 \<or> c = 9) s")
    case Nil
    then have "c_str m b []" using str by (simp del: dropWhile_eq_Nil_conv)
    then show ?thesis using space Nil atol_digits_c_str [of m b "[]" 0]
      by (simp add: atol_def number_of_text_def decimal_def del: dropWhile_eq_Nil_conv)
  next
    case (Cons c t)
    then have "c_str m b (c # t)" "c_str m (b + 1) t" "m b = c" using str by simp_all
    then show ?thesis using space Cons
      by (simp add: atol_def number_of_text_def atol_digits_c_str del: takeWhile.simps)
  qed
qed


section \<open>What the routines promise\<close>

lemma strcpy_c_str:
  assumes "c_str m src s" "apart dest (Suc (length s)) src (Suc (length s))"
  shows "strcpy m dest src = Some (write_bytes dest (s @ [0]) m, dest)"
proof -
  have "\<not> within src (Suc (length s)) dest"
    using assms(2) by (auto simp: apart_iff within_Suc)
  then have "c_str (m(dest := 0)) src s" using assms(1) by (simp add: c_str_upd)
  moreover have "strcat_find (m(dest := 0)) dest = Some dest"
    by (subst strcat_find.simps) simp
  moreover have "write_bytes dest (s @ [0]) (m(dest := 0)) = write_bytes dest (s @ [0]) m"
    by (cases s) simp_all
  ultimately show ?thesis
    using assms(2) by (simp add: strcpy_def strcat_def strcat_copy_c_str)
qed

text \<open>\<^verbatim>\<open>strlen\<close> returns exactly when a NUL-terminated string starts at its
  argument, and then with the length of that string: it ends on every such string, and
  on no other memory.\<close>

theorem strlen_returns_iff:
  "strlen m a = Some n \<longleftrightarrow> (\<exists>s. c_str m a s \<and> n = of_nat (length s))"
  using strlen_loop_returns [of m a 0 n] strlen_c_str [of m a] by (auto simp: strlen_def)

text \<open>C39: \<^verbatim>\<open>strcat\<close> on a destination with room and a source that does not overlap it
  returns the destination, which then holds the concatenation; the source still holds
  its string, and no byte outside the destination's new extent has changed.\<close>

theorem strcat_appends:
  assumes "c_str m dest d" "c_str m src s"
    "apart dest (Suc (length d + length s)) src (Suc (length s))"
    "length d + length s < 2 ^ 64"
  shows "\<exists>m'. strcat m dest src = Some (m', dest) \<and> c_str m' dest (d @ s) \<and> c_str m' src s \<and>
     (\<forall>x. within dest (Suc (length d + length s)) x \<or> m' x = m x)"
proof -
  let ?p = "dest + of_nat (length d)"
  let ?m' = "write_bytes ?p (s @ [0]) m"
  have "apart ?p (Suc (length s)) src (Suc (length s))"
    using assms(3) unfolding apart_def
    by (metis (no_types, lifting) Suc_less_eq add.assoc add_Suc_right nat_add_left_cancel_less of_nat_add)
  then have run: "strcat m dest src = Some (?m', dest)"
    using assms by (simp add: strcat_def strcat_find_c_str strcat_copy_c_str)
  have all: "?m' = write_bytes dest (d @ s @ [0]) m"
  proof -
    have "write_bytes dest d m = m"
      using write_bytes_eqI [of d dest m m] c_str_nth [OF assms(1)] c_str_length [OF assms(1)] by simp
    then show ?thesis by (simp add: write_bytes_append)
  qed
  have frame: "within dest (Suc (length d + length s)) x \<or> ?m' x = m x" for x
    unfolding all using write_bytes_outside [of dest "d @ s @ [0]" x m] by auto
  have "c_str ?m' dest (d @ s)"
    unfolding all using c_str_write_bytes [of "d @ s" dest m] assms(4)
      c_str_nonzero [OF assms(1)] c_str_nonzero [OF assms(2)] by simp
  moreover have "c_str ?m' src s"
  proof -
    have "m x = ?m' x" if "within src (Suc (length s)) x" for x
      using frame [of x] that assms(3) by (auto simp: apart_iff)
    then show ?thesis using c_str_cong [of src s m ?m'] assms(2) by blast
  qed
  ultimately show ?thesis using run frame by blast
qed

text \<open>C40: \<^verbatim>\<open>strcmp\<close> of two strings returns, with 0 exactly for equal strings and a
  negative value exactly when the first comes first in the lexicographic order of their
  bytes: it is an equivalence test and a linear order on strings.\<close>

theorem strcmp_orders:
  assumes "c_str m a s" "c_str m b t"
  shows "\<exists>d. strcmp m a b = Some d \<and> (d = 0 \<longleftrightarrow> s = t) \<and> (d < 0 \<longleftrightarrow> ord_class.lexordp s t)"
  using strcmp_c_str [OF assms] .

text \<open>C26: \<^verbatim>\<open>memmove\<close> is the simultaneous copy for every overlap of its regions: it
  leaves in the destination what the source held before the call and changes no other
  byte.  The direction of its loop is what makes this hold.\<close>

theorem memmove_overlapping:
  assumes "unat dest + unat n \<le> 2 ^ 64" "unat src + unat n \<le> 2 ^ 64"
  shows "\<exists>m'. memmove m dest src n = (m', dest) \<and>
    bytes_at m' dest (unat n) = bytes_at m src (unat n) \<and>
    (\<forall>x. within dest (unat n) x \<or> m' x = m x)"
proof -
  let ?m' = "write_bytes dest (bytes_at m src (unat n)) m"
  have "bytes_at ?m' dest (unat n) = bytes_at m src (unat n)"
    using unat_less_u64 [of n]
    by (intro nth_equalityI) (simp_all add: bytes_at_nth write_bytes_nth)
  moreover have "within dest (unat n) x \<or> ?m' x = m x" for x
    using write_bytes_outside [of dest "bytes_at m src (unat n)" x m] by auto
  ultimately show ?thesis using memmove_moves [OF assms] by blast
qed

text \<open>On regions that do not overlap \<^verbatim>\<open>memcpy\<close> and \<^verbatim>\<open>memmove\<close> are the same
  function.\<close>

theorem memcpy_memmove_equiv:
  assumes "unat dest + unat n \<le> 2 ^ 64" "unat src + unat n \<le> 2 ^ 64"
    "apart dest (unat n) src (unat n)"
  shows "memcpy m dest src n = memmove m dest src n"
  using memcpy_copies [OF assms(3)] memmove_moves [OF assms(1,2)] by simp

text \<open>\<^verbatim>\<open>memcmp\<close> compares its regions as unsigned bytes: 0 exactly when they are
  equal, negative exactly when the first is lexicographically smaller.\<close>

theorem memcmp_orders:
  "(memcmp m a b n = 0 \<longleftrightarrow> bytes_at m a (unat n) = bytes_at m b (unat n)) \<and>
   (memcmp m a b n < 0 \<longleftrightarrow> ord_class.lexordp (bytes_at m a (unat n)) (bytes_at m b (unat n)))"
  using memcmp_loop_compares [of "unat n" m a b] by (simp add: memcmp_def)

end
