(* ===== verification/LibPrintf.thy ===== *)
theory LibPrintf
  imports LibString "HOL-Library.Signed_Division" "HOL-Library.Monad_Syntax"
begin

text \<open>
  The formatter of \<^verbatim>\<open>libcflat/printf.c\<close> on AArch64.  A \<^verbatim>\<open>pstream_t\<close> writes into the
  same memory the format string, the arguments and the local arrays of the functions live
  in, so every routine takes and returns the memory together with the stream.

  Places the compiler chooses are arguments: \<open>fr\<close> is the address of the local array
  \<^verbatim>\<open>buf\<close> of \<^verbatim>\<open>print_int\<close> and \<^verbatim>\<open>print_unsigned\<close>, \<open>lit\<close> that of the literal \<^verbatim>\<open>"0x"\<close>.  A
  \<^verbatim>\<open>va_list\<close> is the list of the 64-bit argument slots not yet fetched.  \<open>int\<close> is a
  32-bit word read by \<open>sint\<close>.  \<open>None\<close> is a call that never returns, or one to
  which C gives no meaning: an index outside \<^verbatim>\<open>digits\<close>, a \<^verbatim>\<open>va_arg\<close> past the arguments.
\<close>

section \<open>The stream\<close>

record pstream =
  ps_buffer :: u64
  ps_remain :: u32
  ps_added :: u32

record strprops =
  sp_pad :: u8
  sp_npad :: u32

type_synonym out = "mem \<times> pstream"

definition addchar :: "out \<Rightarrow> u8 \<Rightarrow> out" where
  "addchar out c =
     (let m = fst out; p = snd out;
          (m, p) = (if ps_remain p \<noteq> 0
                    then (m(ps_buffer p := c),
                          p\<lparr>ps_buffer := ps_buffer p + 1, ps_remain := ps_remain p - 1\<rparr>)
                    else (m, p))
      in (m, p\<lparr>ps_added := ps_added p + 1\<rparr>))"

primrec add_pad :: "nat \<Rightarrow> out \<Rightarrow> u8 \<Rightarrow> out" where
  "add_pad 0 out c = out"
| "add_pad (Suc n) out c = add_pad n (addchar out c) c"

partial_function (option) add_str :: "out \<Rightarrow> u64 \<Rightarrow> out option" where
  "add_str out s = (let c = fst out s in
     if c \<noteq> 0 then add_str (addchar out c) (s + 1) else Some out)"

definition print_str :: "out \<Rightarrow> u64 \<Rightarrow> strprops \<Rightarrow> out option" where
  "print_str out s props = do {
     npad \<leftarrow> (if 0 < sint (sp_npad props)
              then map_option (\<lambda>len. sp_npad props - ucast len) (strlen (fst out) s)
              else Some (sp_npad props));
     let out = add_pad (nat (sint npad)) out (sp_pad props);
     out \<leftarrow> add_str out s;
     if sint npad < 0 then do {
       len \<leftarrow> strlen (fst out) s;
       Some (add_pad (nat (- sint (npad + ucast len))) out 32)
     } else Some out
   }"

section \<open>Numbers\<close>

text \<open>The table \<^verbatim>\<open>"0123456789abcdef"\<close>; an index outside it is an undefined read: \<open>None\<close>.\<close>

definition digits :: "u8 list" where
  "digits = [48, 49, 50, 51, 52, 53, 54, 55, 56, 57, 97, 98, 99, 100, 101, 102]"

definition digit_at :: "int \<Rightarrow> u8 option" where
  "digit_at i = (if 0 \<le> i \<and> i < 16 then Some (digits ! nat i) else None)"

partial_function (option) int_digits :: "mem \<Rightarrow> u64 \<Rightarrow> u64 \<Rightarrow> u64 \<Rightarrow> (mem \<times> u64) option" where
  "int_digits m p n base =
     (if n \<noteq> 0 then do {
        d \<leftarrow> digit_at (sint n smod sint base);
        int_digits (m(p := d)) (p + 1) (word_of_int (sint n sdiv sint base)) base
      } else Some (m, p))"

partial_function (option) unsigned_digits :: "mem \<Rightarrow> u64 \<Rightarrow> u64 \<Rightarrow> u64 \<Rightarrow> (mem \<times> u64) option" where
  "unsigned_digits m p n base =
     (if n \<noteq> 0 then do {
        d \<leftarrow> digit_at (uint (n mod base));
        unsigned_digits (m(p := d)) (p + 1) (n div base) base
      } else Some (m, p))"

text \<open>The loop that turns the digits round: \<^verbatim>\<open>buf[i]\<close> and \<^verbatim>\<open>p[-1-i]\<close> are exchanged.\<close>

definition swap_ends :: "u64 \<Rightarrow> u64 \<Rightarrow> nat \<Rightarrow> mem \<Rightarrow> mem" where
  "swap_ends buf p i m =
     (let tmp = m (buf + of_nat i); m = m(buf + of_nat i := m (p - 1 - of_nat i))
      in m(p - 1 - of_nat i := tmp))"

definition reverse_buf :: "u64 \<Rightarrow> u64 \<Rightarrow> mem \<Rightarrow> mem" where
  "reverse_buf buf p m = fold (swap_ends buf p) [0..<unat (p - buf) div 2] m"

text \<open>The negation of the most negative \<^verbatim>\<open>long long\<close> overflows, which C leaves undefined: \<open>None\<close>.\<close>

definition print_int :: "u64 \<Rightarrow> out \<Rightarrow> u64 \<Rightarrow> u32 \<Rightarrow> strprops \<Rightarrow> out option" where
  "print_int fr out n base props = (if sint n = - (2 ^ 63) then None else do {
     let s = sint n < 0;
     let n = (if s then - n else n);
     (m, p) \<leftarrow> int_digits (fst out) fr n (scast base);
     let (m, p) = (if s then (m(p := 45), p + 1) else (m, p));
     let (m, p) = (if p = fr then (m(p := 48), p + 1) else (m, p));
     let m = reverse_buf fr p m;
     let m = m(p := 0);
     print_str (m, snd out) fr props
   })"

definition print_unsigned :: "u64 \<Rightarrow> out \<Rightarrow> u64 \<Rightarrow> u32 \<Rightarrow> strprops \<Rightarrow> out option" where
  "print_unsigned fr out n base props = do {
     (m, p) \<leftarrow> unsigned_digits (fst out) fr n (scast base);
     let (m, p) = (if p = fr then (m(p := 48), p + 1) else (m, p));
     let m = reverse_buf fr p m;
     let m = m(p := 0);
     print_str (m, snd out) fr props
   }"

section \<open>The format string\<close>

partial_function (option) fmtnum_digits :: "mem \<Rightarrow> u64 \<Rightarrow> u64 \<Rightarrow> u64 option" where
  "fmtnum_digits m f len =
     (if 48 \<le> m f \<and> m f \<le> 57 then fmtnum_digits m (f + 1) (len + 1) else Some len)"

definition fmtnum :: "mem \<Rightarrow> u64 \<Rightarrow> (u32 \<times> u64) option" where
  "fmtnum m fmt = do {
     len \<leftarrow> (if m fmt = 45 then fmtnum_digits m (fmt + 1) 1 else fmtnum_digits m fmt 0);
     num \<leftarrow> atol m fmt;
     Some (ucast num, fmt + len)
   }"

definition va_arg :: "u64 list \<Rightarrow> (u64 \<times> u64 list) option" where
  "va_arg va = (case va of [] \<Rightarrow> None | a # va \<Rightarrow> Some (a, va))"

text \<open>
  The loop of \<^verbatim>\<open>vsnprintf\<close>.  The phase says where in its body control is: at the head of
  the loop, or at the label \<^verbatim>\<open>morefmt\<close> with the locals \<^verbatim>\<open>nlong\<close> and \<^verbatim>\<open>props\<close>.
  \<open>directive\<close> is the \<^verbatim>\<open>switch\<close>, up to the next time control reaches one of the two.
\<close>

datatype fmt_phase = Head | Morefmt nat strprops

type_synonym fmt_state = "out \<times> u64 \<times> u64 list \<times> fmt_phase"

definition directive ::
  "u64 \<Rightarrow> u64 \<Rightarrow> out \<Rightarrow> u64 \<Rightarrow> u64 list \<Rightarrow> nat \<Rightarrow> strprops \<Rightarrow> fmt_state option" where
  "directive lit fr out fmt va nlong props =
     (let f = fst out fmt; fmt = fmt + 1 in
      if f = 37 then Some (addchar out 37, fmt, va, Head)
      else if f = 99 then do {
        (a, va) \<leftarrow> va_arg va;
        Some (addchar out (ucast a), fmt, va, Head) }
      else if f = 0 then Some (out, fmt - 1, va, Head)
      else if f = 48 then do {
        (num, fmt) \<leftarrow> fmtnum (fst out) (fmt + 1 - 1);
        Some (out, fmt, va, Morefmt nlong (props\<lparr>sp_pad := 48, sp_npad := num\<rparr>)) }
      else if 49 \<le> f \<and> f \<le> 57 \<or> f = 45 then do {
        (num, fmt) \<leftarrow> fmtnum (fst out) (fmt - 1);
        Some (out, fmt, va, Morefmt nlong (props\<lparr>sp_npad := num\<rparr>)) }
      else if f = 108 then Some (out, fmt, va, Morefmt (nlong + 1) props)
      else if f = 100 then do {
        (a, va) \<leftarrow> va_arg va;
        out \<leftarrow> print_int fr out (if nlong = 0 then scast (lo32 a) else a) 10 props;
        Some (out, fmt, va, Head) }
      else if f = 120 then do {
        (a, va) \<leftarrow> va_arg va;
        out \<leftarrow> print_unsigned fr out (if nlong = 0 then ucast (lo32 a) else a) 16 props;
        Some (out, fmt, va, Head) }
      else if f = 112 then do {
        out \<leftarrow> print_str out lit props;
        (a, va) \<leftarrow> va_arg va;
        out \<leftarrow> print_unsigned fr out a 16 props;
        Some (out, fmt, va, Head) }
      else if f = 115 then do {
        (a, va) \<leftarrow> va_arg va;
        out \<leftarrow> print_str out a props;
        Some (out, fmt, va, Head) }
      else Some (addchar out f, fmt, va, Head))"

definition fmt_step :: "u64 \<Rightarrow> u64 \<Rightarrow> fmt_state \<Rightarrow> fmt_state option" where
  "fmt_step lit fr st = (case st of (out, fmt, va, phase) \<Rightarrow>
     (case phase of
        Head \<Rightarrow>
          if fst out fmt \<noteq> 37 then Some (addchar out (fst out fmt), fmt + 1, va, Head)
          else Some (out, fmt + 1, va, Morefmt 0 \<lparr>sp_pad = 32, sp_npad = 0\<rparr>)
      | Morefmt nlong props \<Rightarrow> directive lit fr out fmt va nlong props))"

definition fmt_done :: "fmt_state \<Rightarrow> bool" where
  "fmt_done st = (case st of (out, fmt, va, phase) \<Rightarrow> phase = Head \<and> fst out fmt = 0)"

partial_function (option) vformat :: "u64 \<Rightarrow> u64 \<Rightarrow> fmt_state \<Rightarrow> out option" where
  "vformat lit fr st =
     (if fmt_done st then Some (fst st)
      else Option.bind (fmt_step lit fr st) (vformat lit fr))"

definition vsnprintf ::
  "u64 \<Rightarrow> u64 \<Rightarrow> mem \<Rightarrow> u64 \<Rightarrow> u32 \<Rightarrow> u64 \<Rightarrow> u64 list \<Rightarrow> (mem \<times> u32) option" where
  "vsnprintf lit fr m buf sz fmt va = do {
     (m, s) \<leftarrow> vformat lit fr ((m, \<lparr>ps_buffer = buf, ps_remain = sz - 1, ps_added = 0\<rparr>), fmt, va, Head);
     let m = m(ps_buffer s := 0);
     Some (m, ps_added s + 1)
   }"

definition snprintf ::
  "u64 \<Rightarrow> u64 \<Rightarrow> mem \<Rightarrow> u64 \<Rightarrow> u32 \<Rightarrow> u64 \<Rightarrow> u64 list \<Rightarrow> (mem \<times> u32) option" where
  "snprintf lit fr m buf sz fmt va = vsnprintf lit fr m buf sz fmt va"

text \<open>
  \<^verbatim>\<open>puts\<close> of \<^verbatim>\<open>io.c\<close> stores the bytes one by one into the data register of the UART;
  what the device has received is the list of those bytes.  \<open>bf\<close> is the address of the
  2000-byte array in the frame of \<^verbatim>\<open>printf\<close>.
\<close>

partial_function (option) puts :: "mem \<Rightarrow> u64 \<Rightarrow> u8 list \<Rightarrow> u8 list option" where
  "puts m s uart = (if m s \<noteq> 0 then puts m (s + 1) (uart @ [m s]) else Some uart)"

definition printf ::
  "u64 \<Rightarrow> u64 \<Rightarrow> u64 \<Rightarrow> mem \<Rightarrow> u8 list \<Rightarrow> u64 \<Rightarrow> u64 list \<Rightarrow> (mem \<times> u8 list \<times> u32) option" where
  "printf lit fr bf m uart fmt va = do {
     (m, r) \<leftarrow> vsnprintf lit fr m bf 2000 fmt va;
     uart \<leftarrow> puts m bf uart;
     Some (m, uart, r)
   }"

end
