(* ===== verification/LibPrintfNum.thy ===== *)
theory LibPrintfNum
  imports LibPrintf
begin

text \<open>
  What \<^verbatim>\<open>vsnprintf\<close> writes.  \<open>emit cs out\<close> sends the bytes \<open>cs\<close> to a stream; every routine
  of \<open>LibPrintf\<close> turns out to be the \<open>emit\<close> of a text that does not mention memory
  (\<open>pad_text\<close>, \<open>int_text\<close>, \<open>fmt_text\<close>), as long as the buffer of the stream, the local
  array and the strings read are apart.  The last section joins these into the
  refinement of the list-level specification \<open>fmt_text\<close>, from which the bound on the
  bytes written and the round trip through \<^verbatim>\<open>atol\<close> follow.
\<close>

section \<open>Sending text to a stream\<close>

definition emit :: "u8 list \<Rightarrow> out \<Rightarrow> out" where
  "emit cs out = foldl addchar out cs"

lemma emit_simps [simp]:
  "emit [] out = out" "emit (c # cs) out = emit cs (addchar out c)"
  "emit (cs @ ds) out = emit ds (emit cs out)"
  by (simp_all add: emit_def)

lemma add_pad_emit: "add_pad n out c = emit (replicate n c) out"
  by (induction n arbitrary: out) simp_all

text \<open>The stream is inside the \<open>k\<close> bytes at \<open>buf\<close> and knows how many of them are left.\<close>

definition confined :: "u64 \<Rightarrow> nat \<Rightarrow> pstream \<Rightarrow> bool" where
  "confined buf k p \<longleftrightarrow>
     (\<exists>j\<le>k. ps_buffer p = buf + of_nat j \<and> ps_remain p = of_nat (k - j) \<and> k < 2 ^ 32)"

lemma of_nat_u32_0: "n < 2 ^ 32 \<Longrightarrow> (of_nat n :: u32) = 0 \<longleftrightarrow> n = 0"
  by (simp add: word_unat_eq_iff unsigned_of_nat take_bit_nat_eq_self)

lemma addchar_confined:
  assumes "confined buf k (snd out)"
  shows "confined buf k (snd (addchar out c)) \<and>
    (\<forall>x. within buf k x \<or> fst (addchar out c) x = fst out x)"
proof -
  obtain j where j: "j \<le> k" "ps_buffer (snd out) = buf + of_nat j"
    "ps_remain (snd out) = of_nat (k - j)" "k < 2 ^ 32"
    using assms by (auto simp: confined_def)
  show ?thesis
  proof (cases "j = k")
    case True
    then show ?thesis
      using j by (auto simp: addchar_def confined_def Let_def intro!: exI [of _ k])
  next
    case False
    then have lt: "j < k" "k - j = Suc (k - Suc j)" using j(1) by simp_all
    then have "(of_nat (k - j) :: u32) \<noteq> 0" using j(4) of_nat_u32_0 [of "k - j"] by simp
    moreover have "(of_nat (k - j) :: u32) - 1 = of_nat (k - Suc j)"
      using lt by simp
    moreover have "buf + of_nat j + 1 = buf + of_nat (Suc j)" by (simp add: add.assoc add.commute)
    ultimately show ?thesis
      using j lt within_offset [of j k buf]
      by (auto simp: addchar_def confined_def Let_def algebra_simps intro!: exI [of _ "Suc j"])
  qed
qed

lemma emit_confined:
  "confined buf k (snd out) \<Longrightarrow> confined buf k (snd (emit cs out)) \<and>
    (\<forall>x. within buf k x \<or> fst (emit cs out) x = fst out x)"
proof (induction cs arbitrary: out)
  case Nil
  then show ?case by simp
next
  case (Cons c cs)
  show ?case
    using addchar_confined [OF Cons.prems, of c] Cons.IH [of "addchar out c"] by simp metis
qed

lemma emit_keeps_str:
  assumes "confined buf k (snd out)" "apart s (Suc (length t)) buf k"
  shows "c_str (fst (emit cs out)) s t = c_str (fst out) s t"
proof (rule c_str_cong)
  fix x
  assume "within s (Suc (length t)) x"
  then have "\<not> within buf k x" using assms(2) by (simp add: apart_iff)
  then show "fst (emit cs out) x = fst out x" using emit_confined [OF assms(1)] by blast
qed

lemma add_str_emit:
  "c_str (fst out) s t \<Longrightarrow> confined buf k (snd out) \<Longrightarrow> apart s (Suc (length t)) buf k \<Longrightarrow>
   add_str out s = Some (emit t out)"
proof (induction t arbitrary: out s)
  case Nil
  then show ?case by (subst add_str.simps) simp
next
  case (Cons c t)
  have tail: "apart (s + 1) (Suc (length t)) buf k"
    using Cons.prems(3) by (auto simp: apart_iff within_Suc)
  moreover have "confined buf k (snd (addchar out c))"
    using addchar_confined [OF Cons.prems(2)] by blast
  moreover have "c_str (fst (addchar out c)) (s + 1) t"
    using emit_keeps_str [OF Cons.prems(2) tail, of "[c]"] Cons.prems(1) by simp
  ultimately have "add_str (addchar out c) (s + 1) = Some (emit t (addchar out c))"
    using Cons.IH by blast
  then show ?case using Cons.prems(1) by (subst add_str.simps) (simp add: Let_def)
qed

section \<open>Padding\<close>

definition pad_text :: "strprops \<Rightarrow> u8 list \<Rightarrow> u8 list" where
  "pad_text props t =
     (let n = sint (sp_npad props); len = int (length t) in
      if 0 < n then replicate (nat (n - len)) (sp_pad props) @ t
      else t @ replicate (nat (- n - len)) 32)"

lemma sint_u32_bounds: "- (2 ^ 31) \<le> sint a" "sint a < 2 ^ 31" for a :: u32
  using sint_ge [of a] sint_lt [of a] by simp_all

lemma sint_of_int_u32: "- (2 ^ 31) \<le> i \<Longrightarrow> i < 2 ^ 31 \<Longrightarrow> sint (word_of_int i :: u32) = i"
  by (simp add: sint_sbintrunc' signed_take_bit_int_eq_self)

lemma ucast_of_nat_u32: "(ucast (of_nat n :: u64) :: u32) = word_of_int (int n)"
  by (rule bit_word_eqI) (simp add: bit_simps)

lemma sint_add_small:
  fixes a :: u32
  assumes "- (2 ^ 31) \<le> sint a + i" "sint a + i < 2 ^ 31"
  shows "sint (a + word_of_int i) = sint a + i"
  using sint_of_int_u32 [OF assms] by simp

lemma print_str_emit:
  assumes str: "c_str (fst out) s t" and conf: "confined buf k (snd out)"
    and ap: "apart s (Suc (length t)) buf k" and len: "length t < 2 ^ 31"
  shows "print_str out s props = Some (emit (pad_text props t) out)"
proof -
  let ?n = "sp_npad props" and ?l = "word_of_int (int (length t)) :: u32"
  have strl: "strlen (fst (emit cs out)) s = Some (of_nat (length t))" for cs
    using emit_keeps_str [OF conf ap, of cs] str strlen_c_str by blast
  have adds: "add_str (emit cs out) s = Some (emit t (emit cs out))" for cs
    using add_str_emit [of "emit cs out" s t buf k] emit_keeps_str [OF conf ap, of cs]
      emit_confined [OF conf, of cs] str ap by blast
  show ?thesis
  proof (cases "0 < sint ?n")
    case True
    have "sint (?n - ?l) = sint ?n - int (length t)"
      using sint_add_small [of ?n "- int (length t)"] sint_u32_bounds [of ?n] True len by simp
    then show ?thesis
      using True strl [of "[]"] strl [of t] strl [of "replicate (nat (sint ?n - int (length t))) (sp_pad props) @ t"]
        adds [of "replicate (nat (sint ?n - int (length t))) (sp_pad props)"]
      by (simp add: print_str_def pad_text_def add_pad_emit ucast_of_nat_u32 Let_def)
  next
    case False
    have "sint (?n + ?l) = sint ?n + int (length t)"
      using sint_add_small [of ?n "int (length t)"] sint_u32_bounds [of ?n] False len by simp
    then show ?thesis
      using False strl [of t] adds [of "[]"]
      by (simp add: print_str_def pad_text_def add_pad_emit ucast_of_nat_u32 Let_def)
  qed
qed

section \<open>Digits\<close>

function digits_of :: "nat \<Rightarrow> nat \<Rightarrow> u8 list" where
  "digits_of b n = (if n = 0 \<or> b < 2 then [] else digits_of b (n div b) @ [digits ! (n mod b)])"
  by auto
termination by (relation "measure snd") auto

declare digits_of.simps [simp del]

lemma digits_of_0 [simp]: "digits_of b 0 = []"
  by (simp add: digits_of.simps)

lemma digits_of_step: "0 < n \<Longrightarrow> 2 \<le> b \<Longrightarrow> digits_of b n = digits_of b (n div b) @ [digits ! (n mod b)]"
  by (subst digits_of.simps) simp

lemma digits_of_length: "n < b ^ d \<Longrightarrow> length (digits_of b n) \<le> d"
proof (induction d arbitrary: n)
  case 0
  then show ?case by simp
next
  case (Suc d)
  show ?case
  proof (cases "n = 0 \<or> b < 2")
    case True
    then show ?thesis by (subst digits_of.simps) auto
  next
    case False
    then have "n div b < b ^ d" using Suc.prems by (simp add: less_mult_imp_div_less mult.commute)
    then show ?thesis using Suc.IH [of "n div b"] False by (subst digits_of.simps) simp
  qed
qed

lemma digits_of_nonempty: "0 < n \<Longrightarrow> 2 \<le> b \<Longrightarrow> digits_of b n \<noteq> []"
  by (simp add: digits_of_step)

lemma digits_nth_nonzero: "i < 16 \<Longrightarrow> digits ! i \<noteq> 0"
proof -
  assume "i < 16"
  moreover have "\<forall>d\<in>set digits. d \<noteq> 0" by (simp add: digits_def)
  moreover have "length digits = 16" by (simp add: digits_def)
  ultimately show ?thesis by auto
qed

lemma digits_of_no_nul: "b \<le> 16 \<Longrightarrow> 0 \<notin> set (digits_of b n)"
proof (induction b n rule: digits_of.induct)
  case (1 b n)
  show ?case
  proof (cases "n = 0 \<or> b < 2")
    case True
    then show ?thesis by (subst digits_of.simps) auto
  next
    case False
    have "n mod b < b" using False by simp
    then have "digits ! (n mod b) \<noteq> 0"
      using 1(2) digits_nth_nonzero [of "n mod b"] by simp
    then show ?thesis using 1 False by (subst digits_of.simps) auto
  qed
qed

lemma digit_at_nat: "k < 16 \<Longrightarrow> digit_at (int k) = Some (digits ! k)"
  by (simp add: digit_at_def)

lemma unsigned_digits_writes:
  "2 \<le> unat base \<Longrightarrow> unat base \<le> 16 \<Longrightarrow>
   unsigned_digits m p n base =
     Some (write_bytes p (rev (digits_of (unat base) (unat n))) m,
           p + of_nat (length (digits_of (unat base) (unat n))))"
proof (induction "unat n" arbitrary: n m p rule: less_induct)
  case less
  show ?case
  proof (cases "n = 0")
    case True
    then show ?thesis by (subst unsigned_digits.simps) simp
  next
    case False
    then have pos: "0 < unat n" by (simp add: unat_gt_0)
    let ?d = "digits ! (unat n mod unat base)"
    have "unat n mod unat base < 16"
      using less.prems by (meson mod_less_divisor less_le_trans zero_less_numeral)
    moreover have "uint (n mod base) = int (unat (n mod base))" by simp
    then have "uint (n mod base) = int (unat n mod unat base)" by (simp only: unat_mod)
    ultimately have d: "digit_at (uint (n mod base)) = Some ?d"
      by (simp only: digit_at_nat)
    have "unat (n div base) < unat n"
      using less.prems pos by (simp add: unat_div)
    note IH = less.hyps [OF this less.prems, of "m(p := ?d)" "p + 1"]
    have "digits_of (unat base) (unat n) = digits_of (unat base) (unat (n div base)) @ [?d]"
      using digits_of_step [OF pos less.prems(1)] by (simp add: unat_div)
    then show ?thesis
      using False IH d by (subst unsigned_digits.simps) (simp add: add.assoc)
  qed
qed


lemma sint_nonneg_iff: "0 \<le> sint n \<longleftrightarrow> unat n < 2 ^ 63" for n :: u64
proof
  assume pos: "0 \<le> sint n"
  have less: "sint n < 2 ^ 63" using sint_lt [of n] by simp
  have "uint n = sint n"
    using pos less by (simp add: uint_sint take_bit_int_eq_self)
  then have "int (unat n) < int (2 ^ 63)" using less by simp
  then show "unat n < 2 ^ 63" by (simp only: of_nat_less_iff)
next
  assume "unat n < 2 ^ 63"
  then show "0 \<le> sint n" by (simp only: sint_unat of_nat_0_le_iff)
qed

lemma signed_division_nat:
  "int a smod int b = int (a mod b)" "int a sdiv int b = int (a div b)"
  by (cases "a = 0"; cases "b = 0"; simp add: signed_modulo_int_def signed_divide_int_def zmod_int zdiv_int)+

lemma int_digits_unsigned:
  "0 \<le> sint n \<Longrightarrow> 2 \<le> unat base \<Longrightarrow> unat base \<le> 16 \<Longrightarrow>
   int_digits m p n base = unsigned_digits m p n base"
proof (induction "unat n" arbitrary: n m p rule: less_induct)
  case less
  show ?case
  proof (cases "n = 0")
    case True
    then show ?thesis by (subst unsigned_digits.simps, subst int_digits.simps) simp
  next
    case False
    then have pos: "0 < unat n" by (simp add: unat_gt_0)
    have base: "sint base = int (unat base)"
      using less.prems(3) by (intro sint_unat) simp
    have small_n: "unat n < 2 ^ 63" using less.prems(1) by (simp only: sint_nonneg_iff)
    then have n: "sint n = int (unat n)" by (rule sint_unat)
    have "sint n smod sint base = int (unat (n mod base))"
      unfolding n base by (simp only: signed_division_nat unat_mod)
    then have digit: "sint n smod sint base = uint (n mod base)" by simp
    have "sint n sdiv sint base = int (unat (n div base))"
      unfolding n base by (simp only: signed_division_nat unat_div)
    then have quot: "word_of_int (sint n sdiv sint base) = n div base" by simp
    have small: "unat (n div base) < unat n"
      using less.prems pos by (simp add: unat_div)
    then have "0 \<le> sint (n div base)"
      using small_n unfolding sint_nonneg_iff by (rule less_trans)
    note IH = less.hyps [OF small this less.prems(2,3)]
    show ?thesis
      by (subst unsigned_digits.simps, subst int_digits.simps) (simp add: digit quot IH)
  qed
qed

section \<open>Turning the digits round\<close>

lemma offset_eq_iff:
  "i < 2 ^ 64 \<Longrightarrow> j < 2 ^ 64 \<Longrightarrow> a + of_nat i = a + (of_nat j :: u64) \<longleftrightarrow> i = j"
  using unat_of_nat_u64 [of i] unat_of_nat_u64 [of j] by (simp only: add_left_cancel) metis

lemma swap_ends_write:
  assumes "i < length bs div 2" "length bs \<le> 2 ^ 32"
  shows "swap_ends a (a + of_nat (length bs)) i (write_bytes a bs m)
    = write_bytes a (bs[i := bs ! (length bs - 1 - i), length bs - 1 - i := bs ! i]) m"
proof -
  let ?j = "length bs - 1 - i"
  have j: "?j < length bs" "i < length bs" "i < ?j" using assms by auto
  have addr: "a + of_nat (length bs) - 1 - of_nat i = a + of_nat ?j"
    using j by (simp add: of_nat_diff)
  have neq: "a + of_nat i \<noteq> a + of_nat ?j"
    using j assms(2) offset_eq_iff [of i ?j a] by simp
  have upd: "(write_bytes a cs m)(a + of_nat k := c) = write_bytes a (cs[k := c]) m"
    if "k < length cs" "length cs = length bs" for cs k c
  proof (rule write_bytes_eqI)
    fix x
    assume "\<not> within a (length (cs[k := c])) x"
    then show "((write_bytes a cs m)(a + of_nat k := c)) x = m x"
      using that within_offset [of k "length cs" a] by (auto simp: write_bytes_outside)
  next
    fix l
    assume l: "l < length (cs[k := c])"
    then have "a + of_nat l = a + of_nat k \<longleftrightarrow> l = k"
      using that assms(2) offset_eq_iff [of l k a] by simp
    then show "((write_bytes a cs m)(a + of_nat k := c)) (a + of_nat l) = cs[k := c] ! l"
      using l that assms(2) by (simp add: write_bytes_nth)
  qed (use that assms(2) in simp)
  show ?thesis
    using j assms(2) write_bytes_nth [of bs i a m] write_bytes_nth [of bs ?j a m]
    by (simp only: swap_ends_def Let_def addr upd length_list_update simp_thms) simp
qed

lemma swap_fold_nth:
  "k \<le> length bs div 2 \<Longrightarrow> j < length bs \<Longrightarrow>
   fold (\<lambda>i bs. bs[i := bs ! (length bs - 1 - i), length bs - 1 - i := bs ! i]) [0..<k] bs ! j
     = (if j < k \<or> length bs - k \<le> j then bs ! (length bs - 1 - j) else bs ! j)
   \<and> length (fold (\<lambda>i bs. bs[i := bs ! (length bs - 1 - i), length bs - 1 - i := bs ! i]) [0..<k] bs)
     = length bs"
proof (induction k arbitrary: j)
  case 0
  then show ?case by simp
next
  case (Suc k)
  let ?f = "\<lambda>i bs. bs[i := bs ! (length bs - 1 - i), length bs - 1 - i := bs ! i]"
  let ?b = "fold ?f [0..<k] bs"
  have IH: "?b ! l = (if l < k \<or> length bs - k \<le> l then bs ! (length bs - 1 - l) else bs ! l)"
    "length ?b = length bs" if "l < length bs" for l
    using Suc.IH [of l] Suc.prems(1) that by simp_all
  have "fold ?f [0..<Suc k] bs = ?b[k := ?b ! (length bs - 1 - k), length bs - 1 - k := ?b ! k]"
    using IH(2) [OF Suc.prems(2)] by (simp only: fold_upto_Suc)
  moreover have "?b ! k = bs ! k" "?b ! (length bs - 1 - k) = bs ! (length bs - 1 - k)"
    using IH(1) [of k] IH(1) [of "length bs - 1 - k"] Suc.prems by auto
  ultimately show ?case
    using IH [of j] Suc.prems by (auto simp: nth_list_update)
qed

lemma reverse_buf_write:
  assumes "length bs \<le> 2 ^ 32"
  shows "reverse_buf a (a + of_nat (length bs)) (write_bytes a bs m) = write_bytes a (rev bs) m"
proof -
  let ?f = "\<lambda>i bs. bs[i := bs ! (length bs - 1 - i), length bs - 1 - i := bs ! i]"
  have step: "fold (swap_ends a (a + of_nat (length bs))) [0..<k] (write_bytes a bs m)
      = write_bytes a (fold ?f [0..<k] bs) m \<and> length (fold ?f [0..<k] bs) = length bs"
    if "k \<le> length bs div 2" for k
    using that
  proof (induction k)
    case 0
    then show ?case by simp
  next
    case (Suc k)
    then show ?case
      using swap_ends_write [of k "fold ?f [0..<k] bs" a m] assms
      by (simp only: fold_upto_Suc) simp
  qed
  have "fold ?f [0..<length bs div 2] bs = rev bs"
  proof (rule nth_equalityI)
    show "length (fold ?f [0..<length bs div 2] bs) = length (rev bs)"
      using step [of "length bs div 2"] by simp
  next
    fix j
    assume "j < length (fold ?f [0..<length bs div 2] bs)"
    then have j: "j < length bs" using step [of "length bs div 2"] by simp
    then have "\<not> (j < length bs div 2 \<or> length bs - length bs div 2 \<le> j) \<Longrightarrow> j = length bs - 1 - j"
      by linarith
    then show "fold ?f [0..<length bs div 2] bs ! j = rev bs ! j"
      using swap_fold_nth [of "length bs div 2" bs j] j by (auto simp: rev_nth)
  qed
  moreover have "unat (of_nat (length bs) :: u64) = length bs"
    using assms by (simp add: unat_of_nat_u64)
  ultimately show ?thesis
    using step [of "length bs div 2"] by (simp add: reverse_buf_def)
qed


section \<open>Printing numbers\<close>

definition nat_text :: "nat \<Rightarrow> nat \<Rightarrow> u8 list" where
  "nat_text b n = (if n = 0 then [48] else digits_of b n)"

definition int_text :: "nat \<Rightarrow> int \<Rightarrow> u8 list" where
  "int_text b n = (if n < 0 then 45 # nat_text b (nat (- n)) else nat_text b (nat n))"

text \<open>The local array, from the digits in reverse order to the text sent to the stream.\<close>

lemma finish_buf:
  assumes "length t \<le> 24" "0 \<notin> set t" "confined buf k p" "apart fr 25 buf k"
  shows "\<exists>m'. print_str ((reverse_buf fr (fr + of_nat (length t)) (write_bytes fr (rev t) m))
        (fr + of_nat (length t) := 0), p) fr props = Some (emit (pad_text props t) (m', p)) \<and>
      (\<forall>x. within fr 25 x \<or> m' x = m x)"
proof -
  let ?m' = "write_bytes fr (t @ [0]) m"
  have "reverse_buf fr (fr + of_nat (length t)) (write_bytes fr (rev t) m) = write_bytes fr t m"
    using reverse_buf_write [of "rev t" fr m] assms(1) by simp
  then have eq: "(reverse_buf fr (fr + of_nat (length t)) (write_bytes fr (rev t) m))
      (fr + of_nat (length t) := 0) = ?m'"
    by (simp only: write_bytes_append write_bytes.simps)
  have "within fr 25 x \<or> ?m' x = m x" for x
    using write_bytes_outside [of fr "t @ [0]" x m] within_mono [of fr "length (t @ [0])" x 25] assms(1)
    by auto
  moreover have "c_str ?m' fr t"
    using c_str_write_bytes [of t fr m] assms(1,2) by simp
  then have "print_str (?m', p) fr props = Some (emit (pad_text props t) (?m', p))"
    using assms(1,3) apart_mono [OF assms(4), of "Suc (length t)" k]
    by (intro print_str_emit [of _ _ _ buf k]) simp_all
  ultimately show ?thesis unfolding eq by blast
qed

text \<open>The array after the digit loop and the special case of zero.\<close>

lemma digit_buf:
  assumes "length (nat_text b n) \<le> 24" "2 \<le> b"
  shows "(if fr + of_nat (length (digits_of b n)) = fr
      then ((write_bytes fr (rev (digits_of b n)) m)(fr + of_nat (length (digits_of b n)) := 48),
            fr + of_nat (length (digits_of b n)) + 1)
      else (write_bytes fr (rev (digits_of b n)) m, fr + of_nat (length (digits_of b n))))
    = (write_bytes fr (rev (nat_text b n)) m, fr + of_nat (length (nat_text b n)))"
proof (cases "n = 0")
  case True
  then show ?thesis by (simp add: nat_text_def)
next
  case False
  have "length (digits_of b n) < 2 ^ 64"
    using assms False by (simp add: nat_text_def)
  then have "fr + of_nat (length (digits_of b n)) = fr + of_nat 0 \<longleftrightarrow> length (digits_of b n) = 0"
    by (rule offset_eq_iff) simp
  then show ?thesis
    using digits_of_nonempty [of n b] assms False by (simp add: nat_text_def)
qed

lemma nat_text_no_nul: "b \<le> 16 \<Longrightarrow> 0 \<notin> set (nat_text b n)"
  using digits_of_no_nul [of b n] by (simp add: nat_text_def)

lemma unat_scast_base:
  assumes "2 \<le> sint base" "sint base \<le> 16"
  shows "unat (scast (base :: u32) :: u64) = nat (sint base)"
proof -
  have "take_bit 64 (sint base) = sint base"
    using assms by (intro take_bit_int_eq_self) simp_all
  then have "uint (scast base :: u64) = sint base"
    by (simp only: scast_eq unsigned_of_int) (use assms in simp)
  then show ?thesis by (simp only: unat_eq_nat_uint)
qed

lemma sint_minus_u64: "sint n \<noteq> - (2 ^ 63) \<Longrightarrow> sint (- n) = - sint n" for n :: u64
proof -
  assume min: "sint n \<noteq> - (2 ^ 63)"
  have "signed_take_bit 63 (- sint n) = - sint n"
    using sint_ge [of n] sint_lt [of n] min by (intro signed_take_bit_int_eq_self) simp_all
  moreover have "- n = word_of_int (- sint n)" by simp
  ultimately show ?thesis by (simp only: sint_sbintrunc') simp
qed

lemma print_unsigned_emit:
  assumes base: "2 \<le> sint base" "sint base \<le> 16"
    and len: "length (nat_text (nat (sint base)) (unat n)) \<le> 24"
    and conf: "confined buf k p" and ap: "apart fr 25 buf k"
  shows "\<exists>m'. print_unsigned fr (m, p) n base props
      = Some (emit (pad_text props (nat_text (nat (sint base)) (unat n))) (m', p)) \<and>
    (\<forall>x. within fr 25 x \<or> m' x = m x)"
proof -
  let ?b = "nat (sint base)"
  have b: "2 \<le> ?b" "?b \<le> 16" using base by linarith+
  have "unsigned_digits m fr n (scast base) = Some (write_bytes fr (rev (digits_of ?b (unat n))) m,
      fr + of_nat (length (digits_of ?b (unat n))))"
    using unsigned_digits_writes [of "scast base" m fr n] b by (simp only: unat_scast_base [OF base])
  then show ?thesis
    using finish_buf [OF len nat_text_no_nul [OF b(2)] conf ap, of m props]
    by (simp only: print_unsigned_def digit_buf [OF len b(1)]
        fst_conv snd_conv Option.bind.simps prod.case Let_def)
qed

lemma print_int_emit:
  assumes base: "2 \<le> sint base" "sint base \<le> 16" and min: "sint n \<noteq> - (2 ^ 63)"
    and len: "length (nat_text (nat (sint base)) (nat \<bar>sint n\<bar>)) \<le> 23"
    and conf: "confined buf k p" and ap: "apart fr 25 buf k"
  shows "\<exists>m'. print_int fr (m, p) n base props
      = Some (emit (pad_text props (int_text (nat (sint base)) (sint n))) (m', p)) \<and>
    (\<forall>x. within fr 25 x \<or> m' x = m x)"
proof -
  let ?b = "nat (sint base)" and ?n = "nat \<bar>sint n\<bar>"
  let ?a = "if sint n < 0 then - n else n"
  have b: "2 \<le> ?b" "?b \<le> 16" using base by linarith+
  have abs: "sint ?a = \<bar>sint n\<bar>" using sint_minus_u64 [OF min] by simp
  then have nonneg: "0 \<le> sint ?a" by simp
  then have "sint ?a = int (unat ?a)" using sint_nonneg_iff sint_unat by blast
  then have a: "unat ?a = ?n" using abs by linarith
  have run: "int_digits m fr ?a (scast base) = Some (write_bytes fr (rev (digits_of ?b ?n)) m,
      fr + of_nat (length (digits_of ?b ?n)))"
    using int_digits_unsigned [OF nonneg, of "scast base" m fr]
      unsigned_digits_writes [of "scast base" m fr ?a] b
    by (simp only: unat_scast_base [OF base] a)
  show ?thesis
  proof (cases "sint n < 0")
    case True
    then have "?n \<noteq> 0" by simp
    then have shape: "45 # nat_text ?b ?n = int_text ?b (sint n)" "nat_text ?b ?n = digits_of ?b ?n"
      using True by (simp_all add: int_text_def nat_text_def)
    have lt: "length (int_text ?b (sint n)) \<le> 24" unfolding shape(1) [symmetric] using len by simp
    have "fr + of_nat (Suc (length (digits_of ?b ?n))) = fr + of_nat 0 \<longleftrightarrow> Suc (length (digits_of ?b ?n)) = 0"
      using len shape(2) by (intro offset_eq_iff) simp_all
    then have ne: "fr + of_nat (length (digits_of ?b ?n)) + 1 \<noteq> fr" by (simp add: add.assoc add.commute)
    have m: "(write_bytes fr (rev (digits_of ?b ?n)) m)(fr + of_nat (length (digits_of ?b ?n)) := 45)
        = write_bytes fr (rev (int_text ?b (sint n))) m"
      "fr + of_nat (length (digits_of ?b ?n)) + 1 = fr + of_nat (length (int_text ?b (sint n)))"
      unfolding shape(1) [symmetric] shape(2) by (simp_all add: write_bytes_append)
    have "0 \<notin> set (int_text ?b (sint n))"
      unfolding shape(1) [symmetric] using nat_text_no_nul [OF b(2)] by simp
    from finish_buf [OF lt this conf ap, of m props] show ?thesis
      using True ne run
      by (simp only: print_int_def if_not_P [OF min] if_True if_False m
          fst_conv snd_conv Option.bind.simps prod.case Let_def)
  next
    case False
    then have shape: "nat_text ?b ?n = int_text ?b (sint n)" by (simp add: int_text_def)
    have lt: "length (nat_text ?b ?n) \<le> 24" using len by simp
    from finish_buf [OF lt nat_text_no_nul [OF b(2)] conf ap, of m props] show ?thesis
      using False run
      by (simp only: print_int_def if_not_P [OF min] if_True if_False digit_buf [OF lt b(1)] shape
          fst_conv snd_conv Option.bind.simps prod.case Let_def)
  qed
qed

end
