(* ===== verification/LibPrintfProofs.thy ===== *)
theory LibPrintfProofs
  imports LibPrintfNum
begin

text \<open>
  \<^verbatim>\<open>vsnprintf\<close> against its specification on texts.  \<open>fmt_text\<close> gives the text a format
  string and its arguments stand for, with no memory in sight; the refinement theorem says
  the code writes the first \<open>sz - 1\<close> bytes of it, a NUL, and nothing else, and returns
  its length and one more.
\<close>

section \<open>The specification\<close>

definition skip_num :: "u8 list \<Rightarrow> u8 list" where
  "skip_num s = dropWhile is_digit (case s of [] \<Rightarrow> [] | c # t \<Rightarrow> if c = 45 then t else s)"

type_synonym text_state = "u8 list \<times> u64 list \<times> fmt_phase"

text \<open>\<open>S\<close> maps the address of a string argument to the string.\<close>

definition text_directive :: "(u64 \<Rightarrow> u8 list option) \<Rightarrow> u8 \<Rightarrow> u8 list \<Rightarrow> u64 list \<Rightarrow> nat \<Rightarrow> strprops
    \<Rightarrow> (u8 list \<times> text_state) option" where
  "text_directive S f s va nlong props =
     (if f = 37 then Some ([37], s, va, Head)
      else if f = 99 then do { (a, va) \<leftarrow> va_arg va; Some ([ucast a], s, va, Head) }
      else if f = 48 then Some ([], skip_num s, va,
        Morefmt nlong (props\<lparr>sp_pad := 48, sp_npad := ucast (number_of_text s)\<rparr>))
      else if 49 \<le> f \<and> f \<le> 57 \<or> f = 45 then Some ([], skip_num (f # s), va,
        Morefmt nlong (props\<lparr>sp_npad := ucast (number_of_text (f # s))\<rparr>))
      else if f = 108 then Some ([], s, va, Morefmt (nlong + 1) props)
      else if f = 100 then do {
        (a, va) \<leftarrow> va_arg va;
        let n = sint (if nlong = 0 then scast (lo32 a) else a);
        if n = - (2 ^ 63) then None else Some (pad_text props (int_text 10 n), s, va, Head) }
      else if f = 120 then do {
        (a, va) \<leftarrow> va_arg va;
        let n = unat (if nlong = 0 then ucast (lo32 a) else a);
        Some (pad_text props (nat_text 16 n), s, va, Head) }
      else if f = 112 then do {
        (a, va) \<leftarrow> va_arg va;
        Some (pad_text props [48, 120] @ pad_text props (nat_text 16 (unat a)), s, va, Head) }
      else if f = 115 then do {
        (a, va) \<leftarrow> va_arg va;
        t \<leftarrow> S a;
        Some (pad_text props t, s, va, Head) }
      else Some ([f], s, va, Head))"

definition text_step :: "(u64 \<Rightarrow> u8 list option) \<Rightarrow> u8 \<Rightarrow> text_state \<Rightarrow> (u8 list \<times> text_state) option" where
  "text_step S f st = (case st of (s, va, phase) \<Rightarrow>
     (case phase of
        Head \<Rightarrow> if f \<noteq> 37 then Some ([f], s, va, Head)
                else Some ([], s, va, Morefmt 0 \<lparr>sp_pad = 32, sp_npad = 0\<rparr>)
      | Morefmt nlong props \<Rightarrow> text_directive S f s va nlong props))"

lemma skip_num_length: "length (skip_num s) \<le> length s"
  by (auto simp: skip_num_def split: list.splits intro: order_trans [OF length_dropWhile_le])

lemma skip_num_consumes: "is_digit f \<or> f = 45 \<Longrightarrow> skip_num (f # s) = dropWhile is_digit s"
  by (auto simp: skip_num_def)

lemma digit_range: "49 \<le> f \<Longrightarrow> f \<le> 57 \<Longrightarrow> is_digit f"
  by (simp add: is_digit_def word_le_nat_alt)

lemma text_step_shorter: "text_step S f (s, va, phase) = Some (t, s', va', phase') \<Longrightarrow> length s' \<le> length s"
  using skip_num_length [of s] length_dropWhile_le [of is_digit s]
  by (auto simp: text_step_def text_directive_def va_arg_def Let_def skip_num_consumes digit_range
      split: fmt_phase.splits if_splits list.splits Option.bind_splits)

function fmt_text :: "(u64 \<Rightarrow> u8 list option) \<Rightarrow> text_state \<Rightarrow> u8 list option" where
  "fmt_text S (s, va, phase) = (case s of
     [] \<Rightarrow> Some []
   | f # s \<Rightarrow> (case text_step S f (s, va, phase) of
        None \<Rightarrow> None
      | Some (t, st) \<Rightarrow> map_option ((@) t) (fmt_text S st)))"
  by pat_completeness auto
termination
proof (relation "measure (\<lambda>(S, s, va, phase). length s)")
qed (auto dest: text_step_shorter simp: less_Suc_eq_le)

declare fmt_text.simps [simp del]

lemma fmt_text_Nil [simp]: "fmt_text S ([], va, phase) = Some []"
  by (simp add: fmt_text.simps)

section \<open>Strings out of the reach of the writes\<close>

definition ro_str :: "(u64 \<Rightarrow> bool) \<Rightarrow> mem \<Rightarrow> u64 \<Rightarrow> u8 list \<Rightarrow> bool" where
  "ro_str W m a s \<longleftrightarrow> c_str m a s \<and> (\<forall>x. within a (Suc (length s)) x \<longrightarrow> \<not> W x)"

lemma ro_str_Cons: "ro_str W m a (c # s) \<Longrightarrow> m a = c \<and> c \<noteq> 0 \<and> ro_str W m (a + 1) s"
  by (auto simp: ro_str_def within_Suc)

lemma ro_str_cong: "(\<And>x. W x \<or> m' x = m x) \<Longrightarrow> ro_str W m a s = ro_str W m' a s"
proof -
  assume same: "\<And>x. W x \<or> m' x = m x"
  have "c_str m a s = c_str m' a s" if "\<forall>x. within a (Suc (length s)) x \<longrightarrow> \<not> W x"
    using that same by (intro c_str_cong) metis
  then show ?thesis by (auto simp: ro_str_def)
qed

lemma fmtnum_digits_ro:
  "ro_str W m a s \<Longrightarrow> \<exists>l. fmtnum_digits m a n = Some (n + l) \<and> ro_str W m (a + l) (dropWhile is_digit s)"
proof (induction s arbitrary: a n)
  case Nil
  then have "m a = 0" by (simp add: ro_str_def)
  then show ?case using Nil by (subst fmtnum_digits.simps) (auto intro: exI [of _ 0])
next
  case (Cons c s)
  note c = ro_str_Cons [OF Cons.prems]
  show ?case
  proof (cases "is_digit c")
    case True
    obtain l where "fmtnum_digits m (a + 1) (n + 1) = Some (n + 1 + l)"
      "ro_str W m (a + 1 + l) (dropWhile is_digit s)"
      using Cons.IH c by blast
    then show ?thesis using True c
      by (subst fmtnum_digits.simps) (auto simp: is_digit_def add.assoc intro!: exI [of _ "1 + l"])
  next
    case False
    then have "\<not> (48 \<le> m a \<and> m a \<le> 57)" using c by (simp add: is_digit_def)
    then show ?thesis using False Cons.prems
      by (subst fmtnum_digits.simps) (auto intro!: exI [of _ 0])
  qed
qed

lemma fmtnum_ro:
  assumes "ro_str W m a s"
  shows "\<exists>b. fmtnum m a = Some (ucast (number_of_text s), b) \<and> ro_str W m b (skip_num s)"
proof -
  have num: "atol m a = Some (number_of_text s)"
    using assms atol_c_str by (simp add: ro_str_def)
  show ?thesis
  proof (cases s)
    case Nil
    then have "m a = 0" using assms by (simp add: ro_str_def)
    then show ?thesis using num assms Nil fmtnum_digits_ro [of W m a "[]" 0]
      by (auto simp: fmtnum_def skip_num_def)
  next
    case (Cons c t)
    note c = ro_str_Cons [OF assms [unfolded Cons]]
    show ?thesis
    proof (cases "c = 45")
      case True
      then show ?thesis using num c Cons fmtnum_digits_ro [of W m "a + 1" t 1]
        by (auto simp: fmtnum_def skip_num_def add.assoc)
    next
      case False
      then show ?thesis using num c Cons assms fmtnum_digits_ro [of W m a s 0]
        by (auto simp: fmtnum_def skip_num_def)
    qed
  qed
qed


section \<open>The stream against the text sent so far\<close>

text \<open>
  \<open>reach buf k fr\<close> are the bytes the formatter may write: the buffer with its NUL and the
  local array.  \<open>written\<close> relates the state of a stream with capacity \<open>k\<close> to the memory
  \<open>m0\<close> it started in and the text sent to it.
\<close>

definition reach :: "u64 \<Rightarrow> nat \<Rightarrow> u64 \<Rightarrow> u64 \<Rightarrow> bool" where
  "reach buf k fr x \<longleftrightarrow> within buf (Suc k) x \<or> within fr 25 x"

definition written :: "u64 \<Rightarrow> nat \<Rightarrow> u64 \<Rightarrow> mem \<Rightarrow> u8 list \<Rightarrow> out \<Rightarrow> bool" where
  "written buf k fr m0 t out \<longleftrightarrow>
     ps_buffer (snd out) = buf + of_nat (min k (length t)) \<and>
     ps_remain (snd out) = of_nat (k - length t) \<and>
     ps_added (snd out) = of_nat (length t) \<and>
     (\<forall>i<min k (length t). fst out (buf + of_nat i) = t ! i) \<and>
     (\<forall>x. reach buf k fr x \<or> fst out x = m0 x)"

text \<open>The local array does not overlap the buffer, whose capacity is an \<^verbatim>\<open>int\<close>.\<close>

definition framed :: "u64 \<Rightarrow> nat \<Rightarrow> u64 \<Rightarrow> bool" where
  "framed buf k fr \<longleftrightarrow> k < 2 ^ 32 \<and> apart fr 25 buf (Suc k)"

lemma framed_apart: "framed buf k fr \<Longrightarrow> apart fr 25 buf k"
  using apart_mono [of fr 25 buf "Suc k" 25 k] by (simp add: framed_def)

lemma written_confined: "framed buf k fr \<Longrightarrow> written buf k fr m0 t out \<Longrightarrow> confined buf k (snd out)"
  by (auto simp: framed_def written_def confined_def min_def intro!: exI [of _ "min k (length t)"])

lemma written_addchar:
  assumes frame: "framed buf k fr" and "written buf k fr m0 t out"
  shows "written buf k fr m0 (t @ [c]) (addchar out c)"
proof (cases "length t < k")
  case True
  have small: "k < 2 ^ 32" using frame by (simp add: framed_def)
  have "(of_nat (k - length t) :: u32) \<noteq> 0" using True small of_nat_u32_0 [of "k - length t"] by simp
  moreover have "(of_nat (k - length t) :: u32) - 1 = of_nat (k - Suc (length t))"
    using True by simp
  moreover have "buf + of_nat i = buf + of_nat (length t) \<longleftrightarrow> i = length t" if "i \<le> length t" for i
    using offset_eq_iff [of i "length t" buf] that True small by simp
  moreover have "reach buf k fr (buf + of_nat (length t))"
    using True within_offset [of "length t" "Suc k" buf] by (simp add: reach_def)
  ultimately show ?thesis
    using assms True
    by (auto simp: written_def addchar_def Let_def nth_append less_Suc_eq algebra_simps)
next
  case False
  then have "ps_remain (snd out) = 0" using assms by (simp add: written_def)
  then show ?thesis
    using assms False by (auto simp: written_def addchar_def Let_def nth_append algebra_simps)
qed

lemma written_emit: "framed buf k fr \<Longrightarrow> written buf k fr m0 t out \<Longrightarrow> written buf k fr m0 (t @ cs) (emit cs out)"
proof (induction cs arbitrary: t out)
  case Nil
  then show ?case by simp
next
  case (Cons c cs)
  show ?case using Cons.IH [OF Cons.prems(1) written_addchar [OF Cons.prems, of c]] by simp
qed

lemma written_frame:
  assumes frame: "framed buf k fr" and "written buf k fr m0 t (m, p)" "\<forall>x. within fr 25 x \<or> m' x = m x"
  shows "written buf k fr m0 t (m', p)"
proof -
  have "m' (buf + of_nat i) = m (buf + of_nat i)" if "i < min k (length t)" for i
    using assms(3) frame within_offset [of i "Suc k" buf] that by (auto simp: framed_def apart_iff)
  moreover have "reach buf k fr x \<or> m' x = m x" for x
    using assms(3) by (auto simp: reach_def)
  ultimately show ?thesis using assms(2) unfolding written_def by fastforce
qed

lemma written_ro: "written buf k fr m0 t out \<Longrightarrow> ro_str (reach buf k fr) m0 a s = ro_str (reach buf k fr) (fst out) a s"
  by (rule ro_str_cong) (auto simp: written_def)

lemma print_str_written:
  assumes frame: "framed buf k fr" and w: "written buf k fr m0 t out" and s: "ro_str (reach buf k fr) m0 a s" "length s < 2 ^ 31"
  shows "\<exists>out'. print_str out a props = Some out' \<and> written buf k fr m0 (t @ pad_text props s) out'"
proof -
  have "c_str (fst out) a s" using s(1) written_ro [OF w] by (simp add: ro_str_def)
  moreover have "apart a (Suc (length s)) buf k"
    using s(1) by (auto simp: ro_str_def reach_def apart_iff dest: within_mono [of buf k _ "Suc k"])
  ultimately show ?thesis
    using print_str_emit [OF _ written_confined [OF frame w]] s(2) written_emit [OF frame w] by blast
qed

lemma print_unsigned_written:
  assumes frame: "framed buf k fr" and w: "written buf k fr m0 t out"
  shows "\<exists>out'. print_unsigned fr out n 16 props = Some out'
    \<and> written buf k fr m0 (t @ pad_text props (nat_text 16 (unat n))) out'"
proof -
  have "unat n < 16 ^ 16" using unat_less_u64 [of n] by simp
  then have "length (nat_text 16 (unat n)) \<le> 24"
    using digits_of_length [of "unat n" 16 16] by (simp add: nat_text_def)
  then obtain m' where "print_unsigned fr out n 16 props
      = Some (emit (pad_text props (nat_text 16 (unat n))) (m', snd out))"
    "\<forall>x. within fr 25 x \<or> m' x = fst out x"
    using print_unsigned_emit [of 16 n buf k "snd out" fr "fst out" props]
      written_confined [OF frame w] framed_apart [OF frame] by auto
  then show ?thesis
    using written_emit [OF frame] written_frame [OF frame, of m0 t "fst out" "snd out" m'] w by fastforce
qed

lemma print_int_written:
  assumes frame: "framed buf k fr" and w: "written buf k fr m0 t out" and min: "sint n \<noteq> - (2 ^ 63)"
  shows "\<exists>out'. print_int fr out n 10 props = Some out'
    \<and> written buf k fr m0 (t @ pad_text props (int_text 10 (sint n))) out'"
proof -
  have "\<bar>sint n\<bar> < 10 ^ 19" using sint_ge [of n] sint_lt [of n] by auto
  then have "nat \<bar>sint n\<bar> < 10 ^ 19" by (simp add: nat_less_iff)
  then have "length (nat_text 10 (nat \<bar>sint n\<bar>)) \<le> 23"
    using digits_of_length [of "nat \<bar>sint n\<bar>" 10 19] by (simp add: nat_text_def)
  then obtain m' where "print_int fr out n 10 props
      = Some (emit (pad_text props (int_text 10 (sint n))) (m', snd out))"
    "\<forall>x. within fr 25 x \<or> m' x = fst out x"
    using print_int_emit [of 10 n buf k "snd out" fr "fst out" props]
      written_confined [OF frame w] framed_apart [OF frame] min by auto
  then show ?thesis
    using written_emit [OF frame] written_frame [OF frame, of m0 t "fst out" "snd out" m'] w by fastforce
qed

section \<open>The loop follows the specification\<close>

text \<open>What the arguments must be: every string \<open>S\<close> knows, and the literal \<^verbatim>\<open>"0x"\<close>, is where
  it is said to be and out of the reach of the writes.\<close>

definition readable :: "(u64 \<Rightarrow> bool) \<Rightarrow> mem \<Rightarrow> u64 \<Rightarrow> (u64 \<Rightarrow> u8 list option) \<Rightarrow> bool" where
  "readable W m lit S \<longleftrightarrow> ro_str W m lit [48, 120] \<and>
     (\<forall>a s. S a = Some s \<longrightarrow> ro_str W m a s \<and> length s < 2 ^ 31)"

lemma directive_follows:
  assumes frame: "framed buf k fr" and r: "readable (reach buf k fr) m0 lit S"
    and w: "written buf k fr m0 t out" and fmt: "ro_str (reach buf k fr) m0 fmt (f # s)"
    and spec: "text_directive S f s va nlong props = Some (cs, s', va', phase')"
  shows "\<exists>out' fmt'. directive lit fr out fmt va nlong props = Some (out', fmt', va', phase') \<and>
    written buf k fr m0 (t @ cs) out' \<and> ro_str (reach buf k fr) m0 fmt' s'"
proof -
  let ?W = "reach buf k fr"
  have ro: "ro_str ?W (fst out) a u = ro_str ?W m0 a u" for a u
    using written_ro [OF w] by blast
  have here: "fst out fmt = f" "f \<noteq> 0" "ro_str ?W m0 (fmt + 1) s"
    using ro_str_Cons [of ?W "fst out" fmt f s] fmt ro by auto
  have num: "\<exists>b. fmtnum (fst out) a = Some (ucast (number_of_text u), b) \<and> ro_str ?W m0 b (skip_num u)"
    if "ro_str ?W m0 a u" for a u
    using fmtnum_ro [of ?W "fst out" a u] that ro by auto
  consider "f = 37" | "f = 99" | "f = 48" | "49 \<le> f \<and> f \<le> 57 \<or> f = 45" "f \<noteq> 37" "f \<noteq> 48" "f \<noteq> 99"
    | "f = 108" | "f = 100" | "f = 120" | "f = 112" | "f = 115"
    | "f \<noteq> 37" "f \<noteq> 99" "f \<noteq> 48" "\<not> (49 \<le> f \<and> f \<le> 57 \<or> f = 45)" "f \<noteq> 108" "f \<noteq> 100"
      "f \<noteq> 120" "f \<noteq> 112" "f \<noteq> 115"
    by fastforce
  then show ?thesis
  proof cases
    case 1
    then show ?thesis using spec here written_addchar [OF frame w, of 37]
      by (auto simp: directive_def text_directive_def Let_def simp del: split_paired_Ex)
  next
    case 2
    then obtain a where "va = a # va'" "cs = [ucast a]" "s' = s" "phase' = Head"
      using spec by (auto simp: text_directive_def va_arg_def simp del: split_paired_Ex split: list.splits)
    then show ?thesis using 2 here written_addchar [OF frame w, of "ucast a"]
      by (auto simp: directive_def va_arg_def Let_def simp del: split_paired_Ex)
  next
    case 3
    obtain b where "fmtnum (fst out) (fmt + 1) = Some (ucast (number_of_text s), b)"
      "ro_str ?W m0 b (skip_num s)"
      using num [OF here(3)] by blast
    moreover from this(1) have "fmtnum (fst out) (1 + fmt) = Some (ucast (number_of_text s), b)"
      by (simp only: add.commute)
    ultimately show ?thesis using 3 spec here w
      by (auto simp: directive_def text_directive_def Let_def simp del: split_paired_Ex)
  next
    case 4
    obtain b where "fmtnum (fst out) fmt = Some (ucast (number_of_text (f # s)), b)"
      "ro_str ?W m0 b (skip_num (f # s))"
      using num [OF fmt] by blast
    then show ?thesis using 4 spec here w
      by (auto simp: directive_def text_directive_def Let_def simp del: split_paired_Ex)
  next
    case 5
    then show ?thesis using spec here w
      by (auto simp: directive_def text_directive_def Let_def simp del: split_paired_Ex)
  next
    case 6
    let ?n = "\<lambda>a. if nlong = 0 then scast (lo32 a) else a :: u64"
    obtain a where a: "va = a # va'" "sint (?n a) \<noteq> - (2 ^ 63)" "s' = s" "phase' = Head"
      "cs = pad_text props (int_text 10 (sint (?n a)))"
      using 6 spec by (auto simp: text_directive_def va_arg_def Let_def simp del: split_paired_Ex split: list.splits if_splits)
    show ?thesis using print_int_written [OF frame w a(2), of props] 6 here a
      by (auto simp: directive_def va_arg_def Let_def simp del: split_paired_Ex)
  next
    case 7
    let ?n = "\<lambda>a. if nlong = 0 then ucast (lo32 a) else a :: u64"
    obtain a where a: "va = a # va'" "s' = s" "phase' = Head"
      "cs = pad_text props (nat_text 16 (unat (?n a)))"
      using 7 spec by (auto simp: text_directive_def va_arg_def Let_def simp del: split_paired_Ex split: list.splits)
    show ?thesis using print_unsigned_written [OF frame w, of "?n a" props] 7 here a
      by (auto simp: directive_def va_arg_def Let_def simp del: split_paired_Ex)
  next
    case 8
    obtain a where a: "va = a # va'" "s' = s" "phase' = Head"
      "cs = pad_text props [48, 120] @ pad_text props (nat_text 16 (unat a))"
      using 8 spec by (auto simp: text_directive_def va_arg_def simp del: split_paired_Ex split: list.splits)
    obtain o1 where o1: "print_str out lit props = Some o1"
      "written buf k fr m0 (t @ pad_text props [48, 120]) o1"
      using print_str_written [OF frame w, of lit "[48, 120]" props] r by (auto simp: readable_def simp del: split_paired_Ex)
    show ?thesis using print_unsigned_written [OF frame o1(2), of a props] o1(1) 8 here a
      by (auto simp: directive_def va_arg_def Let_def simp del: split_paired_Ex)
  next
    case 9
    then obtain a u where a: "va = a # va'" "S a = Some u" "s' = s" "phase' = Head" "cs = pad_text props u"
      using spec by (auto simp: text_directive_def va_arg_def split: list.splits Option.bind_splits simp del: split_paired_Ex)
    then show ?thesis using print_str_written [OF frame w, of a u props] r 9 here
      by (auto simp: readable_def directive_def va_arg_def Let_def simp del: split_paired_Ex)
  next
    case 10
    then show ?thesis using spec here written_addchar [OF frame w, of f]
      by (auto simp: directive_def text_directive_def Let_def simp del: split_paired_Ex)
  qed
qed

lemma fmt_step_follows:
  assumes frame: "framed buf k fr" and r: "readable (reach buf k fr) m0 lit S"
    and w: "written buf k fr m0 t out" and fmt: "ro_str (reach buf k fr) m0 fmt (f # s)"
    and spec: "text_step S f (s, va, phase) = Some (cs, s', va', phase')"
  shows "\<exists>out' fmt'. fmt_step lit fr (out, fmt, va, phase) = Some (out', fmt', va', phase') \<and>
    written buf k fr m0 (t @ cs) out' \<and> ro_str (reach buf k fr) m0 fmt' s'"
proof (cases phase)
  case Head
  have "fst out fmt = f" "ro_str (reach buf k fr) m0 (fmt + 1) s"
    using ro_str_Cons [of _ "fst out" fmt f s] ro_str_Cons [of _ m0 fmt f s] fmt written_ro [OF w] by auto
  then show ?thesis using Head spec w written_addchar [OF frame w, of f]
    by (auto simp: fmt_step_def text_step_def simp del: split_paired_Ex split: if_splits)
next
  case (Morefmt nlong props)
  then show ?thesis using directive_follows [OF frame r w fmt] spec
    by (simp add: fmt_step_def text_step_def)
qed

lemma vformat_end:
  assumes "fst out fmt = 0"
  shows "vformat lit fr (out, fmt, va, phase) = Some out"
proof -
  have stop: "vformat lit fr (out, fmt, va, Head) = Some out"
    using assms by (subst vformat.simps) (simp add: fmt_done_def)
  show ?thesis
  proof (cases phase)
    case Head
    then show ?thesis using stop by simp
  next
    case (Morefmt nlong props)
    then have "fmt_step lit fr (out, fmt, va, phase) = Some (out, fmt, va, Head)"
      using assms by (simp add: fmt_step_def directive_def)
    then show ?thesis using Morefmt stop by (subst vformat.simps) (simp add: fmt_done_def)
  qed
qed

lemma vformat_follows:
  assumes frame: "framed buf k fr" and r: "readable (reach buf k fr) m0 lit S"
  shows "fmt_text S (s, va, phase) = Some cs \<Longrightarrow> written buf k fr m0 t out \<Longrightarrow>
    ro_str (reach buf k fr) m0 fmt s \<Longrightarrow>
    \<exists>out'. vformat lit fr (out, fmt, va, phase) = Some out' \<and> written buf k fr m0 (t @ cs) out'"
proof (induction "length s" arbitrary: s va phase cs t out fmt rule: less_induct)
  case less
  note w = less.prems(2) and fmt = less.prems(3)
  have ro: "ro_str (reach buf k fr) (fst out) fmt s" using written_ro [OF w] fmt by blast
  show ?case
  proof (cases s)
    case Nil
    then have "fst out fmt = 0" using ro by (simp add: ro_str_def)
    then show ?thesis using vformat_end w Nil less.prems(1) by auto
  next
    case (Cons f s1)
    then obtain c1 s' va' phase' c2 where step: "text_step S f (s1, va, phase) = Some (c1, s', va', phase')"
      and rest: "fmt_text S (s', va', phase') = Some c2" and cs: "cs = c1 @ c2"
      using less.prems(1) by (subst (asm) fmt_text.simps) (auto split: option.splits)
    obtain out1 fmt1 where go: "fmt_step lit fr (out, fmt, va, phase) = Some (out1, fmt1, va', phase')"
      and w1: "written buf k fr m0 (t @ c1) out1" and fmt1: "ro_str (reach buf k fr) m0 fmt1 s'"
      using fmt_step_follows [OF frame r w fmt [unfolded Cons] step] by blast
    have "length s' < length s" using text_step_shorter [OF step] Cons by simp
    from less.hyps [OF this rest w1 fmt1] obtain out' where
      "vformat lit fr (out1, fmt1, va', phase') = Some out'" "written buf k fr m0 (t @ cs) out'"
      using cs by auto
    moreover have "\<not> fmt_done (out, fmt, va, phase)"
      using ro_str_Cons [of _ "fst out" fmt f s1] ro Cons by (auto simp: fmt_done_def simp del: split_paired_Ex)
    ultimately show ?thesis using go by (subst vformat.simps) simp
  qed
qed

section \<open>The calls\<close>

lemma vsnprintf_writes:
  assumes frame: "framed buf k fr" and k: "k = unat (sz - 1)"
    and r: "readable (reach buf k fr) m lit S" and fmt: "ro_str (reach buf k fr) m fmt s"
    and spec: "fmt_text S (s, va, Head) = Some t"
  shows "\<exists>m'. vsnprintf lit fr m buf sz fmt va = Some (m', of_nat (length t + 1)) \<and>
    bytes_at m' buf (Suc (min k (length t))) = take k t @ [0] \<and>
    (\<forall>x. within buf (Suc k) x \<or> within fr 25 x \<or> m' x = m x)"
proof -
  let ?p = "\<lparr>ps_buffer = buf, ps_remain = sz - 1, ps_added = 0\<rparr>"
  have "written buf k fr m [] (m, ?p)" by (simp add: written_def k)
  from vformat_follows [OF frame r spec this fmt] obtain m1 p1 where
    run: "vformat lit fr ((m, ?p), fmt, va, Head) = Some (m1, p1)"
    and w: "written buf k fr m t (m1, p1)" by auto
  let ?n = "min k (length t)"
  have at: "ps_buffer p1 = buf + of_nat ?n" using w by (simp add: written_def)
  let ?m' = "m1(ps_buffer p1 := 0)"
  have small: "k < 2 ^ 32" using frame by (simp add: framed_def)
  have "bytes_at ?m' buf ?n = take k t"
  proof (rule nth_equalityI)
    fix i assume "i < length (bytes_at ?m' buf ?n)"
    then have i: "i < ?n" by simp
    moreover have "i < 2 ^ 64" "?n < 2 ^ 64" using i small by simp_all
    ultimately have "buf + of_nat i \<noteq> buf + of_nat ?n"
      using offset_eq_iff [of i ?n buf] by (metis less_irrefl)
    then show "bytes_at ?m' buf ?n ! i = take k t ! i"
      using w i by (simp add: bytes_at_nth at written_def)
  qed simp
  then have "bytes_at ?m' buf (Suc ?n) = take k t @ [0]"
    by (simp only: bytes_at_snoc at fun_upd_same)
  moreover have "within buf (Suc k) x \<or> within fr 25 x \<or> ?m' x = m x" for x
    using w within_offset [of ?n "Suc k" buf] by (auto simp: written_def reach_def at)
  moreover have "vsnprintf lit fr m buf sz fmt va = Some (?m', of_nat (length t + 1))"
    using run w by (simp add: vsnprintf_def written_def)
  ultimately show ?thesis by blast
qed

lemma positive_int:
  fixes sz :: u32
  assumes "0 < sint sz"
  shows "unat (sz - 1) = unat sz - 1" "Suc (unat sz - 1) = unat sz" "sint sz = int (unat sz)"
    "apart fr 25 buf (unat sz) \<Longrightarrow> framed buf (unat sz - 1) fr"
proof -
  have "sz \<noteq> 0" using assms by auto
  then show sz: "unat (sz - 1) = unat sz - 1" "Suc (unat sz - 1) = unat sz"
    using unat_gt_0 [of sz] by (simp_all add: unat_minus_one)
  have "sint sz < 2 ^ 32" using sint_u32_bounds [of sz] by simp
  then have "uint sz = sint sz" using assms by (simp add: uint_sint take_bit_int_eq_self)
  then show "sint sz = int (unat sz)" by simp
  have "unat sz - 1 < 2 ^ 32" using unsigned_less [of sz, where ?'a = nat] by simp
  then show "apart fr 25 buf (unat sz) \<Longrightarrow> framed buf (unat sz - 1) fr"
    using sz by (simp add: framed_def)
qed

lemma puts_c_str: "c_str m a s \<Longrightarrow> puts m a u = Some (u @ s)"
proof (induction s arbitrary: a u)
  case Nil
  then show ?case by (subst puts.simps) simp
next
  case (Cons c s)
  then show ?case by (subst puts.simps) simp
qed

lemma c_str_bytes_at: "bytes_at m a (Suc (length s)) = s @ [0] \<Longrightarrow> 0 \<notin> set s \<Longrightarrow> c_str m a s"
  by (induction s arbitrary: a) (auto simp: bytes_at_Suc)

text \<open>C23: \<^verbatim>\<open>vsnprintf\<close> with a positive size implements its specification on texts: it
  returns, whatever directives the format has, the buffer then holds the first
  \<open>sz - 1\<close> bytes of the text followed by a NUL, the value returned is the length of the
  whole text and one for the NUL, and no byte changes but those of the buffer and of the
  local array its number routines use.\<close>

theorem vsnprintf_refines:
  assumes "0 < sint sz" "apart fr 25 buf (unat sz)"
    "readable (reach buf (unat sz - 1) fr) m lit S"
    "ro_str (reach buf (unat sz - 1) fr) m fmt s"
    "fmt_text S (s, va, Head) = Some t"
  shows "\<exists>m'. vsnprintf lit fr m buf sz fmt va = Some (m', of_nat (length t + 1)) \<and>
    bytes_at m' buf (Suc (min (unat sz - 1) (length t))) = take (unat sz - 1) t @ [0] \<and>
    (\<forall>x. within buf (unat sz) x \<or> within fr 25 x \<or> m' x = m x)"
  using vsnprintf_writes [OF positive_int(4) [OF assms(1,2)]
      positive_int(1) [OF assms(1), symmetric] assms(3-5)]
  by (simp only: positive_int(2) [OF assms(1)])

text \<open>C25: A size of 0 does not bound \<^verbatim>\<open>vsnprintf\<close> at all: the count of bytes left
  starts at -1, is never 0, and the whole text and its NUL are written to the buffer.\<close>

theorem vsnprintf_size_zero:
  assumes "apart fr 25 buf (2 ^ 32)"
    "readable (reach buf (2 ^ 32 - 1) fr) m lit S"
    "ro_str (reach buf (2 ^ 32 - 1) fr) m fmt s"
    "fmt_text S (s, va, Head) = Some t" "length t < 2 ^ 31"
  shows "\<exists>m'. vsnprintf lit fr m buf 0 fmt va = Some (m', of_nat (length t + 1)) \<and>
    bytes_at m' buf (length t + 1) = t @ [0]"
proof -
  have "framed buf (2 ^ 32 - 1) fr" using assms(1) by (simp add: framed_def)
  moreover have "2 ^ 32 - 1 = unat (0 - 1 :: u32)" by (simp add: unsigned_minus_1_eq_mask mask_eq_exp_minus_1)
  moreover note assms(2-4)
  ultimately obtain m' where "vsnprintf lit fr m buf 0 fmt va = Some (m', of_nat (length t + 1))"
    "bytes_at m' buf (Suc (min (2 ^ 32 - 1) (length t))) = take (2 ^ 32 - 1) t @ [0]"
    using vsnprintf_writes [of buf "2 ^ 32 - 1" fr 0] by blast
  moreover have "min (2 ^ 32 - 1) (length t) = length t" "take (2 ^ 32 - 1) t = t"
    using assms(5) by simp_all
  ultimately show ?thesis by auto
qed

text \<open>C38: \<^verbatim>\<open>printf\<close> sends the UART the first 1999 bytes of the text the format stands
  for, when that text has no NUL, and returns its length and one.\<close>

theorem printf_sends_text:
  assumes "apart fr 25 bf 2000"
    "readable (reach bf 1999 fr) m lit S" "ro_str (reach bf 1999 fr) m fmt s"
    "fmt_text S (s, va, Head) = Some t" "0 \<notin> set t"
  shows "\<exists>m'. printf lit fr bf m uart fmt va = Some (m', uart @ take 1999 t, of_nat (length t + 1))"
proof -
  have "framed bf 1999 fr" using assms(1) by (simp add: framed_def)
  moreover have "1999 = unat (2000 - 1 :: u32)" by simp
  moreover note assms(2-4)
  ultimately obtain m' where run: "vsnprintf lit fr m bf 2000 fmt va = Some (m', of_nat (length t + 1))"
    and bytes: "bytes_at m' bf (Suc (min 1999 (length t))) = take 1999 t @ [0]"
    using vsnprintf_writes [of bf 1999 fr 2000] by blast
  have "0 \<notin> set (take 1999 t)" using assms(5) set_take_subset [of 1999 t] by blast
  then have "c_str m' bf (take 1999 t)"
    using c_str_bytes_at [of m' bf "take 1999 t"] bytes by (simp add: min.commute)
  then show ?thesis using run by (simp add: printf_def puts_c_str)
qed

section \<open>Numbers read back\<close>

lemma decimal_snoc: "decimal acc (ds @ [d]) = decimal acc ds * 10 + (ucast d - 48)"
  by (simp add: decimal_def)

lemma digits_decimal: "k < 10 \<Longrightarrow> is_digit (digits ! k) \<and> ucast (digits ! k) - 48 = (of_nat k :: u64)"
proof -
  assume "k < 10"
  then have "k \<in> {0, 1, 2, 3, 4, 5, 6, 7, 8, 9}" by auto
  then show ?thesis by (elim insertE; simp add: digits_def is_digit_def)
qed

lemma decimal_digits_of: "decimal 0 (digits_of 10 n) = of_nat n \<and> (\<forall>d\<in>set (digits_of 10 n). is_digit d)"
proof (induction n rule: less_induct)
  case (less n)
  show ?case
  proof (cases "n = 0")
    case True
    then show ?thesis by (simp add: decimal_def)
  next
    case False
    have "(of_nat n :: u64) = of_nat (n div 10 * 10 + n mod 10)" by simp
    also have "\<dots> = of_nat (n div 10) * 10 + of_nat (n mod 10)"
      by (simp only: of_nat_add of_nat_mult of_nat_numeral)
    finally have n: "(of_nat n :: u64) = of_nat (n div 10) * 10 + of_nat (n mod 10)" .
    have "n div 10 < n" using False by simp
    note IH = less.IH [OF this]
    have step: "digits_of 10 n = digits_of 10 (n div 10) @ [digits ! (n mod 10)]"
      using digits_of_step [of n 10] False by simp
    have d: "is_digit (digits ! (n mod 10))" "ucast (digits ! (n mod 10)) - 48 = (of_nat (n mod 10) :: u64)"
      using digits_decimal [of "n mod 10"] by simp_all
    show ?thesis unfolding step decimal_snoc d(2) n using IH d(1) by auto
  qed
qed

lemma decimal_nat_text: "decimal 0 (nat_text 10 n) = of_nat n \<and> (\<forall>d\<in>set (nat_text 10 n). is_digit d)
    \<and> nat_text 10 n \<noteq> []"
  using decimal_digits_of [of n] digits_of_nonempty [of n 10]
  by (auto simp: nat_text_def decimal_def is_digit_def)

lemma number_of_int_text: "number_of_text (int_text 10 i) = word_of_int i"
proof -
  obtain d ds where t: "nat_text 10 (nat \<bar>i\<bar>) = d # ds"
    using decimal_nat_text [of "nat \<bar>i\<bar>"] by (cases "nat_text 10 (nat \<bar>i\<bar>)") auto
  have dec: "decimal 0 (d # ds) = of_nat (nat \<bar>i\<bar>)" and dig: "\<forall>x\<in>set (d # ds). is_digit x"
    using decimal_nat_text [of "nat \<bar>i\<bar>"] unfolding t by auto
  have d: "is_digit d" using dig by simp
  have ne: "d \<noteq> 32" "d \<noteq> 9" "d \<noteq> 45" "d \<noteq> 43"
    using d by (auto simp: is_digit_def)
  have all: "takeWhile is_digit (d # ds) = d # ds" using dig by (simp add: takeWhile_eq_all_conv)
  show ?thesis
  proof (cases "i < 0")
    case True
    then have "int_text 10 i = 45 # d # ds" using t by (simp add: int_text_def)
    moreover have "- (of_nat (nat \<bar>i\<bar>) :: u64) = word_of_int i"
      using True by (simp add: of_nat_nat)
    moreover have "number_of_text (45 # d # ds) = - decimal 0 (takeWhile is_digit (d # ds))"
      by (simp add: number_of_text_def del: takeWhile.simps)
    ultimately show ?thesis by (simp only: all dec)
  next
    case False
    then have "int_text 10 i = d # ds" "(of_nat (nat \<bar>i\<bar>) :: u64) = word_of_int i"
      using t by (simp_all add: int_text_def)
    moreover have "number_of_text (d # ds) = decimal 0 (takeWhile is_digit (d # ds))"
      using ne by (simp add: number_of_text_def del: takeWhile.simps)
    ultimately show ?thesis by (simp only: all dec)
  qed
qed

lemma int_text_no_nul: "0 \<notin> set (int_text 10 i)"
  using nat_text_no_nul [of 10] by (simp add: int_text_def)

lemma int_text_length:
  assumes "- (2 ^ 63) < i" "i < 2 ^ 63" shows "length (int_text 10 i) \<le> 20"
proof -
  have "nat \<bar>i\<bar> < 10 ^ 19" using assms by (simp add: nat_less_iff abs_less_iff)
  then show ?thesis
    using digits_of_length [of "nat \<bar>i\<bar>" 10 19] assms
    by (auto simp: int_text_def nat_text_def split: if_splits)
qed

lemma fmt_text_ld:
  "sint n \<noteq> - (2 ^ 63) \<Longrightarrow> fmt_text S ([37, 108, 100], [n], Head) = Some (int_text 10 (sint n))"
  by (simp add: fmt_text.simps text_step_def text_directive_def va_arg_def pad_text_def)

text \<open>C24: every \<^verbatim>\<open>long\<close> but the most negative survives the round trip of printing it
  with \<^verbatim>\<open>"%ld"\<close> into a buffer of at least 21 bytes and reading it back with \<^verbatim>\<open>atol\<close>.\<close>

theorem long_round_trip:
  assumes "21 \<le> sint sz" "apart fr 25 buf (unat sz)"
    "ro_str (reach buf (unat sz - 1) fr) m fmt [37, 108, 100]"
    "ro_str (reach buf (unat sz - 1) fr) m lit [48, 120]" "sint n \<noteq> - (2 ^ 63)"
  shows "\<exists>m' r. vsnprintf lit fr m buf sz fmt [n] = Some (m', r) \<and> atol m' buf = Some n"
proof -
  let ?t = "int_text 10 (sint n)"
  have "0 < sint sz" using assms(1) by simp
  note sz = positive_int [OF this]
  have big: "21 \<le> unat sz" using assms(1) sz(3) by linarith
  have "readable (reach buf (unat sz - 1) fr) m lit Map.empty"
    using assms(4) by (simp add: readable_def)
  then obtain m' where run: "vsnprintf lit fr m buf sz fmt [n] = Some (m', of_nat (length ?t + 1))"
    and bytes: "bytes_at m' buf (Suc (min (unat sz - 1) (length ?t))) = take (unat sz - 1) ?t @ [0]"
    using vsnprintf_writes [OF sz(4) [OF assms(2)] sz(1) [symmetric] _ assms(3) fmt_text_ld [OF assms(5)]] by blast
  have "- (2 ^ 63) < sint n" "sint n < 2 ^ 63"
    using sint_ge [of n] sint_lt [of n] assms(5) by simp_all
  then have "length ?t \<le> unat sz - 1" using int_text_length [of "sint n"] big by linarith
  then have "bytes_at m' buf (Suc (length ?t)) = ?t @ [0]" using bytes by (simp add: min_absorb2)
  then have "c_str m' buf ?t" by (rule c_str_bytes_at) (rule int_text_no_nul)
  then have "atol m' buf = Some (number_of_text ?t)" by (rule atol_c_str)
  then show ?thesis using run by (auto simp: number_of_int_text)
qed

end
