(* ===== verification/LibDemo.thy ===== *)
theory LibDemo
  imports LibPrintfProofs
begin

text \<open>
  The library at work on a small memory: the format \<^verbatim>\<open>"%5ld %s"\<close> at \<^verbatim>\<open>0x1000\<close>, the literal
  \<^verbatim>\<open>"0x"\<close> at \<^verbatim>\<open>0x2000\<close>, the strings \<^verbatim>\<open>"el1"\<close>, \<^verbatim>\<open>"el3"\<close> and the format \<^verbatim>\<open>"%ld"\<close> at
  \<^verbatim>\<open>0x3000\<close>, \<^verbatim>\<open>0x4000\<close> and \<^verbatim>\<open>0x5000\<close>.
\<close>

definition demo_text :: mem where
  "demo_text =
     write_bytes 0x1000 [37, 53, 108, 100, 32, 37, 115, 0]
       (write_bytes 0x2000 [48, 120, 0]
         (write_bytes 0x3000 [101, 108, 49, 0]
           (write_bytes 0x4000 [101, 108, 51, 0]
             (write_bytes 0x5000 [37, 108, 100, 0] (\<lambda>_. 0)))))"

lemma demo_strings:
  "c_str demo_text 0x1000 [37, 53, 108, 100, 32, 37, 115]" "c_str demo_text 0x2000 [48, 120]"
  "c_str demo_text 0x3000 [101, 108, 49]" "c_str demo_text 0x4000 [101, 108, 51]"
  "c_str demo_text 0x5000 [37, 108, 100]"
  by (simp_all add: demo_text_def)

lemma ro_strI:
  "c_str m a s \<Longrightarrow> apart a (Suc (length s)) buf (Suc k) \<Longrightarrow> apart a (Suc (length s)) fr 25 \<Longrightarrow>
   ro_str (reach buf k fr) m a s"
  by (auto simp: ro_str_def reach_def apart_iff)

lemma demo_ro:
  assumes "0x6000 \<le> unat buf" "unat buf + k < 2 ^ 64" "0x6000 \<le> unat fr" "unat fr + 25 \<le> 2 ^ 64"
  shows "ro_str (reach buf k fr) demo_text 0x1000 [37, 53, 108, 100, 32, 37, 115]"
    "ro_str (reach buf k fr) demo_text 0x5000 [37, 108, 100]"
    "ro_str (reach buf k fr) demo_text 0x2000 [48, 120]"
    "ro_str (reach buf k fr) demo_text 0x3000 [101, 108, 49]"
    "readable (reach buf k fr) demo_text 0x2000 [0x3000 \<mapsto> [101, 108, 49]]"
proof -
  have ro: "ro_str (reach buf k fr) demo_text a s"
    if "c_str demo_text a s" "unat a + Suc (length s) \<le> 0x6000" for a s
    using that assms by (intro ro_strI apart_below) simp_all
  show "ro_str (reach buf k fr) demo_text 0x1000 [37, 53, 108, 100, 32, 37, 115]"
    "ro_str (reach buf k fr) demo_text 0x5000 [37, 108, 100]"
    and lit: "ro_str (reach buf k fr) demo_text 0x2000 [48, 120]"
    and el1: "ro_str (reach buf k fr) demo_text 0x3000 [101, 108, 49]"
    by (rule ro, rule demo_strings, simp)+
  show "readable (reach buf k fr) demo_text 0x2000 [0x3000 \<mapsto> [101, 108, 49]]"
    using lit el1 by (simp add: readable_def)
qed

lemma demo_fmt_text:
  "fmt_text [0x3000 \<mapsto> [101, 108, 49]] ([37, 53, 108, 100, 32, 37, 115], [42, 0x3000], Head)
     = Some [32, 32, 32, 52, 50, 32, 101, 108, 49]"
proof -
  have "replicate 3 (32 :: u8) = [32, 32, 32]" by (simp add: numeral_eq_Suc)
  then show ?thesis
    by (simp add: fmt_text.simps text_step_def text_directive_def va_arg_def pad_text_def
        skip_num_def number_of_text_def decimal_def is_digit_def int_text_def nat_text_def
        digits_of.simps digits_def)
qed

theorem strcat_appends_witness:
  "\<exists>m'. strcat demo_text 0x4000 0x3000 = Some (m', 0x4000) \<and>
     c_str m' 0x4000 [101, 108, 51, 101, 108, 49]"
proof -
  have "apart 0x4000 (Suc (length [101, 108, 51 :: u8] + length [101, 108, 49 :: u8])) 0x3000
      (Suc (length [101, 108, 49 :: u8]))"
    by (intro apart_above) simp_all
  from strcat_appends [OF demo_strings(4) demo_strings(3) this] show ?thesis by auto
qed

theorem strcmp_orders_witness:
  "\<exists>d. strcmp demo_text 0x3000 0x4000 = Some d \<and> d < 0"
  using strcmp_orders [OF demo_strings(3) demo_strings(4)] by auto

theorem memmove_overlapping_witness:
  "\<exists>m'. memmove demo_text 0x3001 0x3000 3 = (m', 0x3001) \<and> bytes_at m' 0x3001 3 = [101, 108, 49]"
proof -
  have "unat (0x3001 :: u64) + unat (3 :: u64) \<le> 2 ^ 64" "unat (0x3000 :: u64) + unat (3 :: u64) \<le> 2 ^ 64"
    by simp_all
  from memmove_overlapping [OF this, of demo_text] show ?thesis
    by (auto simp: demo_text_def bytes_at_def upt_rec)
qed

theorem memcpy_memmove_witness:
  "memcpy demo_text 0x7000 0x3000 4 = memmove demo_text 0x7000 0x3000 4"
  by (rule memcpy_memmove_equiv) (simp_all add: apart_above)

lemma numerals_back:
  "Suc (Suc (Suc (Suc (Suc (Suc 0))))) = 6"
  "Suc (Suc (Suc (Suc (Suc (Suc (Suc (Suc (Suc (Suc 0))))))))) = 10"
  by simp_all

theorem vsnprintf_refines_witness:
  "\<exists>m'. vsnprintf 0x2000 0x9000 demo_text 0x8000 6 0x1000 [42, 0x3000] = Some (m', 10) \<and>
     bytes_at m' 0x8000 6 = [32, 32, 32, 52, 50, 0]"
proof -
  have "apart 0x9000 25 0x8000 (unat (6 :: u32))" by (intro apart_above) simp_all
  moreover have "0 < sint (6 :: u32)" by simp
  ultimately show ?thesis
    using vsnprintf_refines [where sz = 6 and fr = "0x9000" and buf = "0x8000", OF _ _
        demo_ro(5) demo_ro(1) demo_fmt_text] by (auto simp: numerals_back)
qed

theorem vsnprintf_size_zero_witness:
  "\<exists>m'. vsnprintf 0x2000 0x9000 demo_text 0x100000000 0 0x1000 [42, 0x3000] = Some (m', 10) \<and>
     bytes_at m' 0x100000000 10 = [32, 32, 32, 52, 50, 32, 101, 108, 49, 0]"
proof -
  have "apart 0x9000 25 0x100000000 (2 ^ 32)" by (intro apart_below) simp_all
  then show ?thesis
    using vsnprintf_size_zero [where fr = "0x9000" and buf = "0x100000000", OF _
        demo_ro(5) demo_ro(1) demo_fmt_text] by (auto simp: numerals_back)
qed

theorem printf_sends_text_witness:
  "\<exists>m'. printf 0x2000 0x9000 0xA000 demo_text [] 0x1000 [42, 0x3000]
     = Some (m', [32, 32, 32, 52, 50, 32, 101, 108, 49], 10)"
proof -
  have "apart 0x9000 25 0xA000 2000" by (intro apart_below) simp_all
  then show ?thesis
    using printf_sends_text [where fr = "0x9000" and bf = "0xA000" and uart = "[]", OF _
        demo_ro(5) demo_ro(1) demo_fmt_text] by simp
qed

theorem long_round_trip_witness:
  "\<exists>m' r. vsnprintf 0x2000 0x9000 demo_text 0x8000 64 0x5000 [- 5] = Some (m', r) \<and>
     atol m' 0x8000 = Some (- 5)"
proof -
  have "apart 0x9000 25 0x8000 (unat (64 :: u32))" by (intro apart_above) simp_all
  then show ?thesis
    using long_round_trip [where sz = 64 and fr = "0x9000" and buf = "0x8000" and n = "- 5", OF _ _
        demo_ro(2) demo_ro(3)] by simp
qed

end
