(* ===== verification/LibIo.thy ===== *)
theory LibIo
  imports LibString TzTest
begin

text \<open>
  The device accessors of \<^verbatim>\<open>libcflat/include/asm-generic/io.h\<close> and of the two
  \<^verbatim>\<open>libcflat/*/include/io.h\<close>.  A device is seen through the bytes of its registers.  The
  arch files give the raw accessors as inline assembly whose operands are registers of the
  machine: an operand of a narrower C type is the low part of its register, and the rest
  of the register (\<open>up\<close>) is whatever the compiler left there.  The operand modifier \<^verbatim>\<open>%x\<close>,
  and no modifier at all on AArch64, names the 64-bit register; so \<^verbatim>\<open>__raw_readl\<close>,
  \<^verbatim>\<open>__raw_writel\<close> and \<^verbatim>\<open>__bswap32\<close> of that build work on 64 bits.
\<close>

section \<open>Raw accessors\<close>

definition raw_readb :: "mem \<Rightarrow> u64 \<Rightarrow> u8" where
  "raw_readb m addr = m addr"

definition raw_readw :: "mem \<Rightarrow> u64 \<Rightarrow> u16" where
  "raw_readw m addr = load16 m addr"

definition raw_readl_arm :: "mem \<Rightarrow> u64 \<Rightarrow> u32" where
  "raw_readl_arm m addr = load32 m addr"

definition raw_readl_aarch64 :: "mem \<Rightarrow> u64 \<Rightarrow> u32" where
  "raw_readl_aarch64 m addr = lo32 (load64 m addr)"

abbreviation raw_readl :: "arch \<Rightarrow> mem \<Rightarrow> u64 \<Rightarrow> u32" where
  "raw_readl ar \<equiv> (case ar of AArch32 \<Rightarrow> raw_readl_arm | AArch64 \<Rightarrow> raw_readl_aarch64)"

definition raw_writeb :: "u8 \<Rightarrow> u64 \<Rightarrow> mem \<Rightarrow> mem" where
  "raw_writeb val addr m = m(addr := val)"

definition raw_writew :: "u16 \<Rightarrow> u64 \<Rightarrow> mem \<Rightarrow> mem" where
  "raw_writew val addr m = store16 addr val m"

definition raw_writel_arm :: "u32 \<Rightarrow> u64 \<Rightarrow> mem \<Rightarrow> mem" where
  "raw_writel_arm val addr m = store32 addr val m"

definition raw_writel_aarch64 :: "u32 \<Rightarrow> u32 \<Rightarrow> u64 \<Rightarrow> mem \<Rightarrow> mem" where
  "raw_writel_aarch64 up val addr m = store64 addr (set_hi32 up (ucast val)) m"

abbreviation raw_writel :: "arch \<Rightarrow> u32 \<Rightarrow> u32 \<Rightarrow> u64 \<Rightarrow> mem \<Rightarrow> mem" where
  "raw_writel ar up \<equiv> (case ar of AArch32 \<Rightarrow> raw_writel_arm | AArch64 \<Rightarrow> raw_writel_aarch64 up)"

text \<open>The 64-bit accessors assert that \<^verbatim>\<open>unsigned long\<close> has 8 bytes; a failed \<^verbatim>\<open>assert\<close> prints
  and ends the program (\<open>None\<close>).\<close>

definition sizeof_long :: "arch \<Rightarrow> nat" where
  "sizeof_long ar = (case ar of AArch32 \<Rightarrow> 4 | AArch64 \<Rightarrow> 8)"

definition raw_readq :: "arch \<Rightarrow> mem \<Rightarrow> u64 \<Rightarrow> u64 option" where
  "raw_readq ar m addr = (if sizeof_long ar = 8 then Some (load64 m addr) else None)"

definition raw_writeq :: "arch \<Rightarrow> u64 \<Rightarrow> u64 \<Rightarrow> mem \<Rightarrow> mem option" where
  "raw_writeq ar b addr m = (if sizeof_long ar = 8 then Some (store64 addr b m) else None)"

section \<open>Byte order\<close>

text \<open>The instructions: \<open>rev16\<close> turns the bytes of every halfword of a register round,
  \<open>rev\<close> those of the whole register.\<close>

definition rev32 :: "u32 \<Rightarrow> u32" where
  "rev32 w = push_bit 24 (w AND 0xFF) OR push_bit 8 (w AND 0xFF00) OR
     (drop_bit 8 w AND 0xFF00) OR drop_bit 24 w"

definition rev64 :: "u64 \<Rightarrow> u64" where
  "rev64 w = push_bit 32 (ucast (rev32 (lo32 w))) OR ucast (rev32 (hi32 w))"

definition rev16 :: "u32 \<Rightarrow> u32" where
  "rev16 w = (push_bit 8 w AND 0xFF00FF00) OR (drop_bit 8 w AND 0x00FF00FF)"

definition arch_bswap16 :: "u16 \<Rightarrow> u16 \<Rightarrow> u16" where
  "arch_bswap16 up val = ucast (rev16 (push_bit 16 (ucast up) OR ucast val))"

definition bswap32_arm :: "u32 \<Rightarrow> u32" where
  "bswap32_arm val = rev32 val"

definition bswap32_aarch64 :: "u32 \<Rightarrow> u32 \<Rightarrow> u32" where
  "bswap32_aarch64 up val = lo32 (rev64 (set_hi32 up (ucast val)))"

abbreviation arch_bswap32 :: "arch \<Rightarrow> u32 \<Rightarrow> u32 \<Rightarrow> u32" where
  "arch_bswap32 ar up \<equiv> (case ar of AArch32 \<Rightarrow> bswap32_arm | AArch64 \<Rightarrow> bswap32_aarch64 up)"

text \<open>The C versions of the generic header, used where the arch file defines none.\<close>

definition bswap16 :: "u16 \<Rightarrow> u16" where
  "bswap16 x = (drop_bit 8 x AND 0xff) OR push_bit 8 (x AND 0xff)"

definition bswap32 :: "u32 \<Rightarrow> u32" where
  "bswap32 x = drop_bit 24 (x AND 0xff000000) OR drop_bit 8 (x AND 0x00ff0000) OR
     push_bit 8 (x AND 0x0000ff00) OR push_bit 24 (x AND 0x000000ff)"

definition bswap64 :: "u64 \<Rightarrow> u64" where
  "bswap64 x =
     push_bit 56 (x AND 0x00000000000000ff) OR push_bit 40 (x AND 0x000000000000ff00) OR
     push_bit 24 (x AND 0x0000000000ff0000) OR push_bit 8 (x AND 0x00000000ff000000) OR
     drop_bit 8 (x AND 0x000000ff00000000) OR drop_bit 24 (x AND 0x0000ff0000000000) OR
     drop_bit 40 (x AND 0x00ff000000000000) OR drop_bit 56 (x AND 0xff00000000000000)"

definition cpu_is_be :: bool where
  "cpu_is_be = False"

definition le16_to_cpu :: "u16 \<Rightarrow> u16 \<Rightarrow> u16" where
  "le16_to_cpu up x = (if cpu_is_be then arch_bswap16 up x else x)"

definition le32_to_cpu :: "arch \<Rightarrow> u32 \<Rightarrow> u32 \<Rightarrow> u32" where
  "le32_to_cpu ar up x = (if cpu_is_be then arch_bswap32 ar up x else x)"

definition le64_to_cpu :: "u64 \<Rightarrow> u64" where
  "le64_to_cpu x = (if cpu_is_be then bswap64 x else x)"

definition be16_to_cpu :: "u16 \<Rightarrow> u16 \<Rightarrow> u16" where
  "be16_to_cpu up x = (if \<not> cpu_is_be then arch_bswap16 up x else x)"

definition be32_to_cpu :: "arch \<Rightarrow> u32 \<Rightarrow> u32 \<Rightarrow> u32" where
  "be32_to_cpu ar up x = (if \<not> cpu_is_be then arch_bswap32 ar up x else x)"

definition be64_to_cpu :: "u64 \<Rightarrow> u64" where
  "be64_to_cpu x = (if \<not> cpu_is_be then bswap64 x else x)"

section \<open>Accessors\<close>

definition readb :: "mem \<Rightarrow> u64 \<Rightarrow> u8" where
  "readb m addr = raw_readb m addr"

definition readw :: "u16 \<Rightarrow> mem \<Rightarrow> u64 \<Rightarrow> u16" where
  "readw up m addr = le16_to_cpu up (raw_readw m addr)"

definition readl :: "arch \<Rightarrow> u32 \<Rightarrow> mem \<Rightarrow> u64 \<Rightarrow> u32" where
  "readl ar up m addr = le32_to_cpu ar up (raw_readl ar m addr)"

definition readq :: "arch \<Rightarrow> mem \<Rightarrow> u64 \<Rightarrow> u64 option" where
  "readq ar m addr = map_option le64_to_cpu (raw_readq ar m addr)"

definition writeb :: "u8 \<Rightarrow> u64 \<Rightarrow> mem \<Rightarrow> mem" where
  "writeb b addr m = raw_writeb b addr m"

definition writew :: "u16 \<Rightarrow> u16 \<Rightarrow> u64 \<Rightarrow> mem \<Rightarrow> mem" where
  "writew up b addr m = raw_writew (le16_to_cpu up b) addr m"

definition writel :: "arch \<Rightarrow> u32 \<Rightarrow> u32 \<Rightarrow> u64 \<Rightarrow> mem \<Rightarrow> mem" where
  "writel ar up b addr m = raw_writel ar up (le32_to_cpu ar up b) addr m"

definition writeq :: "arch \<Rightarrow> u64 \<Rightarrow> u64 \<Rightarrow> mem \<Rightarrow> mem option" where
  "writeq ar b addr m = raw_writeq ar (le64_to_cpu b) addr m"

definition ioremap :: "arch \<Rightarrow> u64 \<Rightarrow> u64 option" where
  "ioremap ar phys_addr =
     (if sizeof_long ar = 8 \<or> drop_bit 32 phys_addr = 0
      then Some (case ar of AArch32 \<Rightarrow> ucast (lo32 phys_addr) | AArch64 \<Rightarrow> phys_addr) else None)"

section \<open>Laws\<close>

lemma byte_masks:
  "(0xff :: 'a :: len word) = mask 8" "(0xff00 :: 'a word) = push_bit 8 (mask 8)"
  "(0xff0000 :: 'a word) = push_bit 16 (mask 8)" "(0xff000000 :: 'a word) = push_bit 24 (mask 8)"
  "(0xff00000000 :: 'a word) = push_bit 32 (mask 8)" "(0xff0000000000 :: 'a word) = push_bit 40 (mask 8)"
  "(0xff000000000000 :: 'a word) = push_bit 48 (mask 8)" "(0xff00000000000000 :: 'a word) = push_bit 56 (mask 8)"
  by (simp_all add: mask_eq_exp_minus_1 push_bit_eq_mult)

text \<open>One byte moved up or down, as a condition on the bits.\<close>

lemma bit_moved:
  fixes x :: "'a :: len word"
  shows "bit (push_bit k (x AND mask 8)) n \<longleftrightarrow> k \<le> n \<and> n < k + 8 \<and> n < LENGTH('a) \<and> bit x (n - k)"
    "bit (push_bit k (x AND push_bit j (mask 8))) n \<longleftrightarrow>
       k + j \<le> n \<and> n < k + j + 8 \<and> n < LENGTH('a) \<and> bit x (n - k)"
    "bit (drop_bit k (x AND push_bit j (mask 8))) n \<longleftrightarrow> j \<le> n + k \<and> n + k < j + 8 \<and> bit x (n + k)"
    "bit (drop_bit k x AND push_bit j (mask 8)) n \<longleftrightarrow> j \<le> n \<and> n < j + 8 \<and> bit x (n + k)"
  by (auto simp: bit_simps add.commute dest: bit_imp_le_length)

lemmas bswap_bits = byte_masks bit_or_iff bit_moved disj_assoc

lemma bit_bswap64:
  "bit (bswap64 x) n \<longleftrightarrow> 56 \<le> n \<and> n < 64 \<and> bit x (n - 56) \<or> 48 \<le> n \<and> n < 56 \<and> bit x (n - 40) \<or>
     40 \<le> n \<and> n < 48 \<and> bit x (n - 24) \<or> 32 \<le> n \<and> n < 40 \<and> bit x (n - 8) \<or>
     24 \<le> n \<and> n < 32 \<and> bit x (n + 8) \<or> 16 \<le> n \<and> n < 24 \<and> bit x (n + 24) \<or>
     8 \<le> n \<and> n < 16 \<and> bit x (n + 40) \<or> n < 8 \<and> bit x (n + 56)"
  unfolding bswap64_def bswap_bits by (intro arg_cong2 [where f = "(\<or>)"]; auto)

lemma bit_bswap32:
  "bit (bswap32 x) n \<longleftrightarrow> n < 8 \<and> bit x (n + 24) \<or> 8 \<le> n \<and> n < 16 \<and> bit x (n + 8) \<or>
     16 \<le> n \<and> n < 24 \<and> bit x (n - 8) \<or> 24 \<le> n \<and> n < 32 \<and> bit x (n - 24)"
  unfolding bswap32_def bswap_bits by (intro arg_cong2 [where f = "(\<or>)"]; auto)


lemma bit_rev32:
  "bit (rev32 x) n \<longleftrightarrow> 24 \<le> n \<and> n < 32 \<and> bit x (n - 24) \<or> 16 \<le> n \<and> n < 24 \<and> bit x (n - 8) \<or>
     8 \<le> n \<and> n < 16 \<and> bit x (n + 8) \<or> n < 8 \<and> bit x (n + 24)"
proof -
  have "bit (drop_bit 24 x) n \<longleftrightarrow> n < 8 \<and> bit x (n + 24)" for x :: u32
    by (auto simp: bit_simps add.commute dest: bit_imp_le_length)
  then show ?thesis
    unfolding rev32_def bswap_bits by (intro arg_cong2 [where f = "(\<or>)"]; auto)
qed

lemma rev32_bswap32: "rev32 x = bswap32 x"
  by (rule bit_word_eqI) (simp only: bit_bswap32 bit_rev32, blast)

lemma byte_of_bit:
  fixes n :: nat
  assumes "n < 8 * b"
  obtains i k where "i < 8" "k < b" "n = i + 8 * k"
  using that [of "n mod 8" "n div 8"] assms by (simp add: less_mult_imp_div_less mult.commute)

lemma bswap32_twice: "bswap32 (bswap32 x) = x"
proof (rule bit_word_eqI)
  fix n
  assume "n < LENGTH(32)"
  then have "n < 8 * 4" by simp
  then obtain i k where "i < 8" "k < 4" "n = i + 8 * k" by (rule byte_of_bit)
  moreover from this have "k \<in> {0, 1, 2, 3}" by auto
  ultimately show "bit (bswap32 (bswap32 x)) n = bit x n"
    by (elim insertE) (simp_all add: bit_bswap32 add.commute)
qed

lemma bswap64_twice: "bswap64 (bswap64 x) = x"
proof (rule bit_word_eqI)
  fix n
  assume "n < LENGTH(64)"
  then have "n < 8 * 8" by simp
  then obtain i k where "i < 8" "k < 8" "n = i + 8 * k" by (rule byte_of_bit)
  moreover from this have "k \<in> {0, 1, 2, 3, 4, 5, 6, 7}" by auto
  ultimately show "bit (bswap64 (bswap64 x)) n = bit x n"
    by (elim insertE) (simp_all add: bit_bswap64 add.commute)
qed

lemma lo32_rev64: "lo32 (rev64 w) = rev32 (hi32 w)"
proof -
  have "rev64 w = set_hi32 (rev32 (lo32 w)) (ucast (rev32 (hi32 w)))"
    by (rule bit_word_eqI) (auto simp: rev64_def set_hi32_def bit_simps dest: bit_imp_le_length)
  then show ?thesis by (simp add: lo32_def [of "ucast _"])
qed

lemma lo32_ucast [simp]: "lo32 (ucast v) = v"
  by (simp add: lo32_def)

lemma loadn_8: "loadn 8 m a = loadn 4 m a OR push_bit 32 (loadn 4 m (a + 4))"
  by (simp add: eval_nat_numeral bit.conj_disj_distrib push_bit_or or.assoc add.assoc)

lemma loadn_bits: "bit (loadn n m a) k \<Longrightarrow> k < 8 * n"
proof (induction n arbitrary: a k)
  case 0
  then show ?case by simp
next
  case (Suc n)
  then consider "bit (m a) k" | "8 \<le> k" "bit (loadn n m (a + 1)) (k - 8)"
    by (auto simp: bit_simps)
  then show ?case
  proof cases
    case 1
    then show ?thesis using bit_imp_le_length [of "m a" k] by simp
  next
    case 2
    then show ?thesis using Suc.IH [OF 2(2)] by simp
  qed
qed

lemma load32_halves: "load32 m a = lo32 (load64 m a)" "load32 m (a + 4) = hi32 (load64 m a)"
proof -
  have small: "loadn 4 m b = ucast (load32 m b)" for b
    using loadn_bits [of 4 m b] by (intro bit_word_eqI) (auto simp: load32_def bit_simps)
  have "load64 m a = ucast (load32 m a) OR push_bit 32 (ucast (load32 m (a + 4)))"
    by (simp only: load64_def loadn_8 small)
  then have "load64 m a = set_hi32 (load32 m (a + 4)) (ucast (load32 m a))"
    by (intro bit_word_eqI) (auto simp: set_hi32_def bit_simps dest: bit_imp_le_length)
  then show "load32 m a = lo32 (load64 m a)" "load32 m (a + 4) = hi32 (load64 m a)" by simp_all
qed

lemma store32_outside: "\<not> within a 4 x \<Longrightarrow> store32 a v m x = m x"
  by (auto simp: store32_def within_iff intro: storen_other)

lemma store64_outside: "\<not> within a 8 x \<Longrightarrow> store64 a v m x = m x"
  by (auto simp: store64_def within_iff intro: storen_other)

lemmas le_conv = le16_to_cpu_def le32_to_cpu_def le64_to_cpu_def cpu_is_be_def

lemma readl_writel: "readl ar up' (writel ar up v a m) a = v"
  by (cases ar) (simp_all add: readl_def writel_def raw_readl_arm_def raw_readl_aarch64_def raw_writel_arm_def raw_writel_aarch64_def le_conv)

text \<open>C29: the 32-bit device store has the width of its name on AArch32 only.  A value
  written is read back on both architectures.  On AArch32 exactly the four bytes of the
  register may change.  On AArch64 exactly eight may: the next four bytes are overwritten by the
  unused half of the machine register that held the value, and no byte beyond them changes.\<close>

theorem writel_width:
  "readl ar up' (writel ar up v a m) a = v \<and>
   (within a 4 x \<or> writel AArch32 up v a m x = m x) \<and>
   (within a 8 x \<or> writel AArch64 up v a m x = m x) \<and>
   load32 (writel AArch64 up v a m) a = v \<and> load32 (writel AArch64 up v a m) (a + 4) = up"
  using readl_writel [of ar up' up v a m] store32_outside [of a x v m] store64_outside [of a x _ m]
    load32_halves [of "writel AArch64 up v a m" a]
  by (auto simp: writel_def raw_writel_arm_def raw_writel_aarch64_def le_conv)

text \<open>The byte-order conversions.  On AArch32 \<^verbatim>\<open>be32_to_cpu\<close> is the generic C byte
  swap, and applying it twice gives the value back, as \<^verbatim>\<open>be64_to_cpu\<close> does on both
  architectures; on AArch64 \<^verbatim>\<open>be32_to_cpu\<close> does not even depend on its argument.\<close>

theorem be_conversions:
  "be32_to_cpu AArch32 up x = bswap32 x \<and>
   be32_to_cpu AArch32 up' (be32_to_cpu AArch32 up x) = x \<and>
   be64_to_cpu (be64_to_cpu y) = y \<and>
   be32_to_cpu AArch64 up x = bswap32 up"
  by (simp add: be32_to_cpu_def be64_to_cpu_def cpu_is_be_def bswap32_arm_def bswap32_aarch64_def
      rev32_bswap32 bswap32_twice bswap64_twice lo32_rev64)

end
