(* ===== verification/PageTable32.thy ===== *)
theory PageTable32
  imports CMemory Pager
begin

text \<open>
  \<^verbatim>\<open>common/arm/mem_util.c\<close>: the page tables of the AArch32 build.  A first-level table of
  4096 descriptors, one per megabyte, points to second-level tables of 256 page
  descriptors.  \<open>uintptr_t\<close> is a 32-bit word.  As on AArch64 nothing bounds the recursion of
  \<open>mem_map_pa\<close>, nor the offset of the loop in \<open>mem_heap_allocate\<close>.
\<close>

section \<open>The operations\<close>

record mm32 =
  mem_pgtbl_base32 :: u32
  mem_next_pa32 :: u32
  mem_heap_pool32 :: u32
  mem_bytes32 :: mem

definition rd32 :: "mm32 \<Rightarrow> u32 \<Rightarrow> u32" where
  "rd32 s a = load32 (mem_bytes32 s) (ucast a)"

definition wr32 :: "u32 \<Rightarrow> u32 \<Rightarrow> mm32 \<Rightarrow> mm32" where
  "wr32 a v s = s\<lparr>mem_bytes32 := store32 (ucast a) v (mem_bytes32 s)\<rparr>"

definition PTE32_TABLE :: u32 where [c_const]: "PTE32_TABLE = 0x1"
definition PTE32_PAGE :: u32 where [c_const]: "PTE32_PAGE = 0x2"
definition PTE32_ACCESS :: u32 where [c_const]: "PTE32_ACCESS = push_bit 4 1"
definition PTE32_PRIV_RW :: u32 where [c_const]: "PTE32_PRIV_RW = push_bit 4 1 OR push_bit 5 0 OR push_bit 9 0"
definition PTE32_USER_RW :: u32 where [c_const]: "PTE32_USER_RW = push_bit 4 1 OR push_bit 5 1 OR push_bit 9 0"

definition mem_allocate_pa32 :: "mm32 \<Rightarrow> u32 \<times> mm32" where
  "mem_allocate_pa32 s = (mem_next_pa32 s, s\<lparr>mem_next_pa32 := mem_next_pa32 s + 0x1000\<rparr>)"

text \<open>The addresses of the two descriptors of a virtual address; the second takes the
  first-level descriptor.\<close>

definition l1_pte :: "u32 \<Rightarrow> u32 \<Rightarrow> u32" where
  "l1_pte pa vaddr = (let l1idx = drop_bit 20 vaddr AND 0xFFF in (pa AND 0xFFFFC000) OR push_bit 2 l1idx)"

definition l2_pte :: "u32 \<Rightarrow> u32 \<Rightarrow> u32" where
  "l2_pte d vaddr = (let l2idx = drop_bit 12 vaddr AND 0xFF in (d AND 0xFFFFFC00) OR push_bit 2 l2idx)"

definition set_page32 :: "u32 \<Rightarrow> u32 \<Rightarrow> u32 \<Rightarrow> u32 \<Rightarrow> mm32 \<Rightarrow> mm32" where
  "set_page32 pte vaddr paddr pgattr s =
     (let pte = l2_pte (rd32 s pte) vaddr;
          s = wr32 pte (paddr AND NOT 0xFFF) s
      in wr32 pte (rd32 s pte OR (PTE32_PAGE OR PTE32_ACCESS OR pgattr)) s)"

partial_function (option) mem_map_pa32 :: "u32 \<Rightarrow> u32 \<Rightarrow> u32 \<Rightarrow> u32 \<Rightarrow> mm32 \<Rightarrow> mm32 option" where
  "mem_map_pa32 vaddr paddr tblattr pgattr s =
     (let pte = l1_pte (mem_pgtbl_base32 s) vaddr in
      if rd32 s pte AND 0x3 = 0x0 then
        (let (pa, s1) = mem_allocate_pa32 s in
         Option.bind (mem_map_pa32 pa pa 0 PTE32_USER_RW s1)
           (\<lambda>s2. let s3 = wr32 pte pa s2;
                     s4 = wr32 pte (rd32 s3 pte OR (PTE32_TABLE OR tblattr)) s3
                 in Some (set_page32 pte vaddr paddr pgattr s4)))
      else Some (set_page32 pte vaddr paddr pgattr s))"

definition mem_map_va32 :: "u32 \<Rightarrow> u32 \<Rightarrow> u32 \<Rightarrow> mm32 \<Rightarrow> mm32 option" where
  "mem_map_va32 addr tblattr pgattr s =
     (let (pa, s1) = mem_allocate_pa32 s in mem_map_pa32 addr pa tblattr pgattr s1)"

definition mem_unmap_va32 :: "u32 \<Rightarrow> mm32 \<Rightarrow> int \<times> mm32" where
  "mem_unmap_va32 addr s =
     (let pte = l1_pte (mem_pgtbl_base32 s) addr in
      if rd32 s pte AND 0x3 = 0x0 then (- 1, s)
      else (0, wr32 (l2_pte (rd32 s pte) addr) 0 s))"

partial_function (option) heap_map_loop32 :: "u32 \<Rightarrow> u32 \<Rightarrow> mm32 \<Rightarrow> (u32 \<times> mm32) option" where
  "heap_map_loop32 off len s =
     (if off < len then
        Option.bind (mem_map_va32 (mem_heap_pool32 s + off) 0 PTE32_USER_RW s)
          (heap_map_loop32 (off + 0x1000) len)
      else Some (off, s))"

definition mem_heap_allocate32 :: "u32 \<Rightarrow> mm32 \<Rightarrow> (u32 \<times> mm32) option" where
  "mem_heap_allocate32 len s =
     (let addr = mem_heap_pool32 s in
      Option.bind (heap_map_loop32 0 len s)
        (\<lambda>(off, s1). Some (addr, s1\<lparr>mem_heap_pool32 := mem_heap_pool32 s1 + off\<rparr>)))"

definition mem_lookup_pa32 :: "u32 \<Rightarrow> mm32 \<Rightarrow> u32" where
  "mem_lookup_pa32 addr s =
     (let pte = l1_pte (mem_pgtbl_base32 s) addr in
      if rd32 s pte AND 0x3 = 0x0 then - 1
      else (rd32 s (l2_pte (rd32 s pte) addr) AND 0xFFFFF000) OR (addr AND 0xFFF))"

section \<open>Descriptors\<close>

text \<open>Two addresses with the same first-level descriptor, and on the same page.\<close>

definition same_mb :: "u32 \<Rightarrow> u32 \<Rightarrow> bool" where
  "same_mb v u \<longleftrightarrow> drop_bit 20 v = drop_bit 20 u"

definition same_page32 :: "u32 \<Rightarrow> u32 \<Rightarrow> bool" where
  "same_page32 v u \<longleftrightarrow> drop_bit 12 v = drop_bit 12 u"

lemma masks32:
  "(0xFFF :: u32) = mask 12" "(0xFF :: u32) = mask 8" "(0xFFFFF000 :: u32) = NOT (mask 12)"
  "(0xFFFFC000 :: u32) = NOT (mask 14)" "(0xFFFFFC00 :: u32) = NOT (mask 10)"
  by (simp_all add: mask_eq_exp_minus_1)

lemma bit_l1_pte: "bit (l1_pte pa v) k \<longleftrightarrow> k < 32 \<and> (if 14 \<le> k then bit pa k else 2 \<le> k \<and> bit v (k + 18))"
  unfolding l1_pte_def Let_def masks32
  by (cases "14 \<le> k") (auto simp: bit_simps not_le add.commute dest: bit_imp_le_length)

lemma bit_l2_pte: "bit (l2_pte d v) k \<longleftrightarrow> k < 32 \<and> (if 10 \<le> k then bit d k else 2 \<le> k \<and> bit v (k + 10))"
  unfolding l2_pte_def Let_def masks32
  by (cases "10 \<le> k") (auto simp: bit_simps not_le add.commute dest: bit_imp_le_length)


lemma drop_bit_eq_iff: "drop_bit n x = drop_bit n y \<longleftrightarrow> (\<forall>k\<ge>n. bit x k = bit y k)" for x y :: u32
proof
  assume e: "drop_bit n x = drop_bit n y"
  show "\<forall>k\<ge>n. bit x k = bit y k"
  proof (intro allI impI)
    fix k assume "n \<le> k"
    then show "bit x k = bit y k" using arg_cong [OF e, of "\<lambda>w. bit w (k - n)"] by (simp add: bit_drop_bit_eq)
  qed
next
  assume "\<forall>k\<ge>n. bit x k = bit y k"
  then show "drop_bit n x = drop_bit n y" by (intro bit_word_eqI) (simp add: bit_drop_bit_eq)
qed

lemma l1_pte_eq: "l1_pte b v = l1_pte b u \<longleftrightarrow> same_mb v u"
proof
  assume e: "l1_pte b v = l1_pte b u"
  have "bit v k = bit u k" if "20 \<le> k" for k
    using that arg_cong [OF e, of "\<lambda>w. bit w (k - 18)"] bit_imp_le_length [of v k] bit_imp_le_length [of u k]
    by (auto simp: bit_l1_pte split: if_splits)
  then show "same_mb v u" by (simp add: same_mb_def drop_bit_eq_iff)
next
  assume "same_mb v u"
  then show "l1_pte b v = l1_pte b u"
    by (intro bit_word_eqI) (auto simp: bit_l1_pte same_mb_def drop_bit_eq_iff)
qed

lemma l2_pte_eq:
  "l2_pte d v = l2_pte e u \<longleftrightarrow> drop_bit 10 d = drop_bit 10 e \<and> (\<forall>k. 12 \<le> k \<and> k < 20 \<longrightarrow> bit v k = bit u k)"
proof
  assume e: "l2_pte d v = l2_pte e u"
  have "bit d k = bit e k" if "10 \<le> k" for k
    using that arg_cong [OF e, of "\<lambda>w. bit w k"] bit_imp_le_length [of d k] bit_imp_le_length [of e k]
    by (auto simp: bit_l2_pte)
  moreover have "bit v k = bit u k" if "12 \<le> k" "k < 20" for k
  proof -
    have "\<not> 10 \<le> k - 10" "2 \<le> k - 10" using that by linarith+
    then show ?thesis using that arg_cong [OF e, of "\<lambda>w. bit w (k - 10)"] by (simp add: bit_l2_pte)
  qed
  ultimately show "drop_bit 10 d = drop_bit 10 e \<and> (\<forall>k. 12 \<le> k \<and> k < 20 \<longrightarrow> bit v k = bit u k)"
    by (simp add: drop_bit_eq_iff)
next
  assume "drop_bit 10 d = drop_bit 10 e \<and> (\<forall>k. 12 \<le> k \<and> k < 20 \<longrightarrow> bit v k = bit u k)"
  then show "l2_pte d v = l2_pte e u"
    by (intro bit_word_eqI) (auto simp: bit_l2_pte drop_bit_eq_iff)
qed

lemma same_page_mb: "same_page32 v u \<longleftrightarrow> same_mb v u \<and> (\<forall>k. 12 \<le> k \<and> k < 20 \<longrightarrow> bit v k = bit u k)"
proof -
  have "12 \<le> k \<longleftrightarrow> 20 \<le> k \<or> 12 \<le> k \<and> k < 20" for k :: nat by linarith
  then show ?thesis unfolding same_page32_def same_mb_def drop_bit_eq_iff by blast
qed

lemma l1_l2_pte: "drop_bit 14 d \<noteq> drop_bit 14 b \<Longrightarrow> l1_pte b v \<noteq> l2_pte d u"
proof
  assume ne: "drop_bit 14 d \<noteq> drop_bit 14 b" and e: "l1_pte b v = l2_pte d u"
  have "bit d k = bit b k" if "14 \<le> k" for k
    using that arg_cong [OF e, of "\<lambda>w. bit w k"] bit_imp_le_length [of d k] bit_imp_le_length [of b k]
    by (auto simp: bit_l1_pte bit_l2_pte)
  then show False using ne by (simp add: drop_bit_eq_iff)
qed

lemma pte_aligned: "aligned 2 (ucast (l1_pte b v))" "aligned 2 (ucast (l2_pte d v))"
  by (auto simp: aligned_iff_bits bit_simps bit_l1_pte bit_l2_pte)

lemma ucast_eq_u32: "(ucast a :: u64) = ucast b \<longleftrightarrow> a = b" for a b :: u32
  by (rule ucast_u64_inj)

text \<open>Descriptor reads after a write.\<close>

lemma wr32_frame [simp]:
  "mem_pgtbl_base32 (wr32 a v s) = mem_pgtbl_base32 s" "mem_next_pa32 (wr32 a v s) = mem_next_pa32 s"
  "mem_heap_pool32 (wr32 a v s) = mem_heap_pool32 s"
  by (simp_all add: wr32_def)

lemma rd32_wr32_same [simp]: "rd32 (wr32 a v s) a = v"
  by (simp add: rd32_def wr32_def)

lemma wr32_twice [simp]: "wr32 a v (wr32 a w s) = wr32 a v s"
  by (simp add: wr32_def store32_twice)

lemma rd32_wr32:
  "aligned 2 (ucast a) \<Longrightarrow> aligned 2 (ucast b) \<Longrightarrow> rd32 (wr32 a v s) b = (if b = a then v else rd32 s b)"
  using word.other [of "ucast a" "ucast b" v "mem_bytes32 s"]
  by (auto simp: rd32_def wr32_def ucast_eq_u32)

lemmas rd32_pte = rd32_wr32 [OF pte_aligned(1) pte_aligned(1)] rd32_wr32 [OF pte_aligned(1) pte_aligned(2)]
  rd32_wr32 [OF pte_aligned(2) pte_aligned(1)] rd32_wr32 [OF pte_aligned(2) pte_aligned(2)]

end
