(* ===== verification/ElfLoad.thy ===== *)
theory ElfLoad
  imports El1 PageTable32
begin

text \<open>
  The loader of the EL0 image, \<^verbatim>\<open>el1/aarch64/el1_loader.c\<close> and \<^verbatim>\<open>el1/arm/el1_loader.c\<close>.
  The two files are the same code over two address sizes, two ELF classes and two versions of
  \<^verbatim>\<open>mem_util.c\<close>, and differ in the value returned; the code is written here once over the
  paging operations \<open>vm\<close> it calls and instantiated at the end.  It works on virtual
  addresses: a load or store goes through the page tables as they are at that moment, and an
  access to a page without translation is a data abort, after which EL1 shuts the machine
  down (\<open>None\<close>).  A translation that was removed may survive in the TLB, which the code never
  invalidates; \<open>late\<close> is the load after the unmapping.

  The structures come from the system header \<^verbatim>\<open>elf.h\<close>.  Its field offsets, field widths
  and numbers are the argument \<open>elf_h\<close>.
\<close>

section \<open>Virtual memory\<close>

record ('v, 's) vm =
  vm_map_pa :: "'v \<Rightarrow> 'v \<Rightarrow> 's \<Rightarrow> 's option"
  vm_map_va :: "'v \<Rightarrow> 's \<Rightarrow> 's option"
  vm_unmap_va :: "'v \<Rightarrow> 's \<Rightarrow> int \<times> 's"
  vm_rd :: "'s \<Rightarrow> 'v \<Rightarrow> u8 option"
  vm_wr :: "'v \<Rightarrow> u8 \<Rightarrow> 's \<Rightarrow> 's option"

primrec rdn :: "('s \<Rightarrow> 'w::len word \<Rightarrow> u8 option) \<Rightarrow> nat \<Rightarrow> 's \<Rightarrow> 'w word \<Rightarrow> u64 option" where
  "rdn rd 0 s a = Some 0"
| "rdn rd (Suc n) s a =
     Option.bind (rd s a) (\<lambda>b. Option.bind (rdn rd n s (a + 1)) (\<lambda>r. Some (ucast b OR push_bit 8 r)))"

text \<open>\<^verbatim>\<open>memcpy\<close> and \<^verbatim>\<open>strcmp\<close> of the library on virtual addresses; the second argument of
  \<open>vstrcmp\<close> is a string literal of the program.\<close>

primrec vmemcpy :: "('w::len word, 's) vm \<Rightarrow> nat \<Rightarrow> 'w word \<Rightarrow> 'w word \<Rightarrow> 's \<Rightarrow> 's option" where
  "vmemcpy m 0 dest src s = Some s"
| "vmemcpy m (Suc n) dest src s =
     Option.bind (vm_rd m s src) (\<lambda>b. Option.bind (vm_wr m dest b s) (vmemcpy m n (dest + 1) (src + 1)))"

primrec vstrcmp :: "('w::len word, 's) vm \<Rightarrow> 'w word \<Rightarrow> u8 list \<Rightarrow> 's \<Rightarrow> int option" where
  "vstrcmp m a [] s = Option.bind (vm_rd m s a) (\<lambda>c. Some (uint c))"
| "vstrcmp m a (x # xs) s =
     Option.bind (vm_rd m s a) (\<lambda>c. if c = x then vstrcmp m (a + 1) xs s else Some (uint c - uint x))"

section \<open>ELF\<close>

record elf_h =
  eh_mag :: "(nat \<times> u8) list"
  eh_machine :: "nat \<times> nat"
  eh_shoff :: "nat \<times> nat"
  eh_shentsize :: "nat \<times> nat"
  eh_shnum :: "nat \<times> nat"
  eh_shstrndx :: "nat \<times> nat"
  eh_entry :: "nat \<times> nat"
  sh_name :: "nat \<times> nat"
  sh_addr :: "nat \<times> nat"
  sh_offset :: "nat \<times> nat"
  sh_size :: "nat \<times> nat"
  sizeof_shdr :: nat
  em_arm :: u64
  em_aarch64 :: u64

definition fetch :: "('w::len word, 's) vm \<Rightarrow> nat \<times> nat \<Rightarrow> 'w word \<Rightarrow> 's \<Rightarrow> u64 option" where
  "fetch m f b s = rdn (vm_rd m) (snd f) s (b + of_nat (fst f))"

section \<open>The loader\<close>

text \<open>The checks of the header; \<open>exit\<close> is \<^verbatim>\<open>SMC_EXIT()\<close>, after which the code goes on.\<close>

fun elf_magic :: "('w::len word, 's) vm \<Rightarrow> (nat \<times> u8) list \<Rightarrow> 'w word \<Rightarrow> 's \<Rightarrow> bool option" where
  "elf_magic m [] b s = Some True"
| "elf_magic m (x # xs) b s =
     Option.bind (vm_rd m s (b + of_nat (fst x))) (\<lambda>c. if c \<noteq> snd x then Some False else elf_magic m xs b s)"

definition elf_check ::
    "('w::len word, 's) vm \<Rightarrow> elf_h \<Rightarrow> ('s \<Rightarrow> 's option) \<Rightarrow> 'w word \<Rightarrow> 's \<Rightarrow> 's option" where
  "elf_check m L exit elfbase s =
     Option.bind (elf_magic m (eh_mag L) elfbase s)
       (\<lambda>ok. if \<not> ok then exit s
             else Option.bind (fetch m (eh_machine L) elfbase s)
               (\<lambda>mc. if mc \<noteq> em_arm L \<and> mc \<noteq> em_aarch64 L then exit s else Some s))"

text \<open>\<^verbatim>\<open>e_shentsize * e_shnum\<close> is a product of two promoted \<open>int\<close>s.\<close>

definition elf_len :: "('w::len word, 's) vm \<Rightarrow> elf_h \<Rightarrow> 'w word \<Rightarrow> 's \<Rightarrow> 'w word option" where
  "elf_len m L elfbase s =
     Option.bind (fetch m (eh_shoff L) elfbase s)
       (\<lambda>off. Option.bind (fetch m (eh_shentsize L) elfbase s)
       (\<lambda>z. Option.bind (fetch m (eh_shnum L) elfbase s)
       (\<lambda>n. Some (ucast off + scast (ucast z * ucast n :: u32)))))"

partial_function (option) map_image ::
    "('w::len word, 's) vm \<Rightarrow> 'w word \<Rightarrow> 'w word \<Rightarrow> 'w word \<Rightarrow> 's \<Rightarrow> 's option" where
  "map_image m elfbase len off s =
     (if off < len then
        Option.bind (vm_map_pa m (elfbase + off) (elfbase + off) s) (map_image m elfbase len (off + 0x1000))
      else Some s)"

partial_function (option) unmap_image ::
    "('w::len word, 's) vm \<Rightarrow> 'w word \<Rightarrow> 'w word \<Rightarrow> 'w word \<Rightarrow> 's \<Rightarrow> 's option" where
  "unmap_image m elfbase len off s =
     (if off < len then unmap_image m elfbase len (off + 0x1000) (snd (vm_unmap_va m (elfbase + off) s))
      else Some s)"

text \<open>One section: \<open>hdr\<close> is the address of its header, whose size is read in every round.\<close>

partial_function (option) load_pages ::
    "('w::len word, 's) vm \<Rightarrow> elf_h \<Rightarrow> 'w word \<Rightarrow> 'w word \<Rightarrow> 'w word \<Rightarrow> 'w word \<Rightarrow> 's \<Rightarrow> 's option" where
  "load_pages m L hdr sect base_va off s =
     Option.bind (fetch m (sh_size L) hdr s)
       (\<lambda>size. if off < ucast size then
          Option.bind (vm_map_va m (base_va + off) s)
            (\<lambda>s1. Option.bind (vmemcpy m 0x1000 (base_va + off) (sect + off) s1)
            (load_pages m L hdr sect base_va (off + 0x1000)))
        else Some s)"

definition dot_text :: "u8 list" where "dot_text = [0x2e, 0x74, 0x65, 0x78, 0x74]"
definition dot_data :: "u8 list" where "dot_data = [0x2e, 0x64, 0x61, 0x74, 0x61]"

definition load_section ::
    "('w::len word, 's) vm \<Rightarrow> elf_h \<Rightarrow> 'w word \<Rightarrow> 'w word \<Rightarrow> 'w word \<Rightarrow> 's \<Rightarrow> 's option" where
  "load_section m L elfbase strsec hdr s =
     Option.bind (fetch m (sh_name L) hdr s)
       (\<lambda>name. let secname = strsec + ucast name in
          Option.bind (vstrcmp m secname dot_text s)
            (\<lambda>c. Option.bind (if c = 0 then Some 0 else vstrcmp m secname dot_data s)
            (\<lambda>c. if c = 0 then
               Option.bind (fetch m (sh_offset L) hdr s)
                 (\<lambda>off. Option.bind (fetch m (sh_addr L) hdr s)
                 (\<lambda>addr. load_pages m L hdr (elfbase + ucast off) (ucast addr) 0 s))
             else Some s)))"

partial_function (option) load_sections ::
    "('w::len word, 's) vm \<Rightarrow> elf_h \<Rightarrow> 'w word \<Rightarrow> 'w word \<Rightarrow> 'w word \<Rightarrow> nat \<Rightarrow> 's \<Rightarrow> 's option" where
  "load_sections m L elfbase shdr strsec i s =
     Option.bind (fetch m (eh_shnum L) elfbase s)
       (\<lambda>n. if i < unat n then
          Option.bind (load_section m L elfbase strsec (shdr + of_nat (i * sizeof_shdr L)) s)
            (load_sections m L elfbase shdr strsec (Suc i))
        else Some s)"

definition load_image ::
    "('w::len word, 's) vm \<Rightarrow> elf_h \<Rightarrow> ('s \<Rightarrow> 's option) \<Rightarrow> 'w word \<Rightarrow> 's \<Rightarrow> 's option" where
  "load_image m L exit elfbase s =
     Option.bind (vm_map_pa m elfbase elfbase s)
       (\<lambda>s1. Option.bind (elf_check m L exit elfbase s1)
       (\<lambda>s2. Option.bind (elf_len m L elfbase s2)
       (\<lambda>len. Option.bind (map_image m elfbase len 0x1000 s2)
       (\<lambda>s3. Option.bind (fetch m (eh_shoff L) elfbase s3)
       (\<lambda>shoff. let shdr = elfbase + ucast shoff in
          Option.bind (fetch m (eh_shstrndx L) elfbase s3)
            (\<lambda>x. Option.bind (fetch m (sh_offset L) (shdr + of_nat (unat x * sizeof_shdr L)) s3)
            (\<lambda>stroff. Option.bind (load_sections m L elfbase shdr (elfbase + ucast stroff) 0 s3)
            (unmap_image m elfbase len 0))))))))"

definition load_el0 ::
    "('w::len word, 's) vm \<Rightarrow> elf_h \<Rightarrow> ('s \<Rightarrow> 's option) \<Rightarrow> ('s \<Rightarrow> 'w word \<Rightarrow> u8 option) \<Rightarrow>
     bool \<Rightarrow> 'w word \<Rightarrow> 's \<Rightarrow> (bool \<times> 'w word \<times> 's) option" where
  "load_el0 m L exit late ret elfbase s =
     Option.bind (load_image m L exit elfbase s)
       (\<lambda>s1. Option.bind (rdn late (snd (eh_entry L)) s1 (elfbase + of_nat (fst (eh_entry L))))
       (\<lambda>entry. Some (ret, ucast entry, s1)))"

section \<open>The AArch64 build\<close>

text \<open>An access through the tables of EL1; \<open>mem_lookup_pa\<close> walks them as the MMU does.\<close>

definition mmu :: "mm \<Rightarrow> u64 \<Rightarrow> u64 option" where
  "mmu s a = (let p = mem_lookup_pa a s in if p = - 1 then None else Some (p + (a AND 0xFFF)))"

definition aarch64_vm :: "(u64, 'a el1_scheme) vm" where
  "aarch64_vm =
     \<lparr>vm_map_pa = (\<lambda>v p s. map_option (\<lambda>m. s\<lparr>el1_mm := m\<rparr>) (mem_map_pa v p 0 PTE_USER_RW (el1_mm s))),
      vm_map_va = (\<lambda>v s. map_option (\<lambda>m. s\<lparr>el1_mm := m\<rparr>) (mem_map_va v 0 PTE_USER_RW (el1_mm s))),
      vm_unmap_va = (\<lambda>v s. (fst (mem_unmap_va v (el1_mm s)), s\<lparr>el1_mm := snd (mem_unmap_va v (el1_mm s))\<rparr>)),
      vm_rd = (\<lambda>s a. map_option (mem_bytes (el1_mm s)) (mmu (el1_mm s) a)),
      vm_wr = (\<lambda>a x s. map_option (\<lambda>p. s\<lparr>el1_mm := (el1_mm s)\<lparr>mem_bytes := (mem_bytes (el1_mm s))(p := x)\<rparr>\<rparr>)
                 (mmu (el1_mm s) a))\<rparr>"

definition el1_load_el0 ::
    "elf_h \<Rightarrow> 'a el1_scheme services \<Rightarrow> ('a el1_scheme \<Rightarrow> u64 \<Rightarrow> u8 option) \<Rightarrow> u64 \<Rightarrow> 'a el1_scheme \<Rightarrow>
     (bool \<times> u64 \<times> 'a el1_scheme) option" where
  "el1_load_el0 L hw late = load_el0 aarch64_vm L (\<lambda>s. map_option snd (smc hw SMC_OP_EXIT s)) late False"

section \<open>The AArch32 build\<close>

definition mmu32 :: "mm32 \<Rightarrow> u32 \<Rightarrow> u32 option" where
  "mmu32 s a =
     (let d = rd32 s (l1_pte (mem_pgtbl_base32 s) a) in
      if d AND 0x3 = 0 then None
      else (let e = rd32 s (l2_pte d a) in
        if e AND PTE32_PAGE = 0 then None else Some ((e AND 0xFFFFF000) OR (a AND 0xFFF))))"

definition arm_vm :: "(u32, mm32) vm" where
  "arm_vm =
     \<lparr>vm_map_pa = (\<lambda>v p. mem_map_pa32 v p 0 PTE32_USER_RW),
      vm_map_va = (\<lambda>v. mem_map_va32 v 0 PTE32_USER_RW),
      vm_unmap_va = mem_unmap_va32,
      vm_rd = (\<lambda>s a. map_option (\<lambda>p. mem_bytes32 s (ucast p)) (mmu32 s a)),
      vm_wr = (\<lambda>a x s. map_option (\<lambda>p. s\<lparr>mem_bytes32 := (mem_bytes32 s)(ucast p := x)\<rparr>) (mmu32 s a))\<rparr>"

definition el1_load_el0_arm ::
    "elf_h \<Rightarrow> (mm32 \<Rightarrow> mm32 option) \<Rightarrow> (mm32 \<Rightarrow> u32 \<Rightarrow> u8 option) \<Rightarrow> u32 \<Rightarrow> mm32 \<Rightarrow>
     (bool \<times> u32 \<times> mm32) option" where
  "el1_load_el0_arm L exit late = load_el0 arm_vm L exit late True"

section \<open>Start-up of EL1\<close>

text \<open>\<^verbatim>\<open>el1_init_el0\<close> of the two images: the exception return takes its address and mode from
  ELR_EL1 and SPSR_EL1; they are the result, with the state EL0 starts in.\<close>

definition el0_flash_base :: "u32 \<Rightarrow> u64" where
  "el0_flash_base secure = (if secure = SECURE then EL0_S_FLASH_BASE else EL0_NS_FLASH_BASE)"

definition el1_init_el0 ::
    "elf_h \<Rightarrow> 'a el1_scheme services \<Rightarrow> ('a el1_scheme \<Rightarrow> u64 \<Rightarrow> u8 option) \<Rightarrow> 'a el1_scheme \<Rightarrow>
     (u64 \<times> u32 \<times> 'a el1_scheme) option" where
  "el1_init_el0 L hw late s =
     Option.bind (el1_load_el0 L hw late (el0_flash_base (el1_secure s)) s)
       (\<lambda>(r, main, s1). Some (main, SPSR_EL0, s1\<lparr>el1_elr := main\<rparr>))"

text \<open>\<^verbatim>\<open>el1_start\<close>: on entry \<open>syscntl\<close> holds the physical address EL3 passed; the heap page that
  gives it a virtual address is mapped onto that page, and the interop buffer at the address
  the control block names. What the block contains is read after its mapping, so it is the
  argument \<open>blk\<close>.\<close>

definition el1_start ::
    "elf_h \<Rightarrow> 'a el1_scheme services \<Rightarrow> ('a el1_scheme \<Rightarrow> u64 \<Rightarrow> u8 option) \<Rightarrow> sys_control_t \<Rightarrow>
     u64 \<Rightarrow> u64 \<Rightarrow> 'a el1_scheme \<Rightarrow> (u64 \<times> u32 \<times> 'a el1_scheme) option" where
  "el1_start L hw late blk base sz s =
     (let pa = el1_sysc_va s in
      Option.bind (unmap_loop 0 ((sz + (PAGE_SIZE - 1)) AND NOT (PAGE_SIZE - 1)) base (el1_mm s))
        (\<lambda>m1. Option.bind (mem_heap_allocate PAGE_SIZE m1)
        (\<lambda>(sc, m2). Option.bind (mem_map_pa sc pa 0 PTE_USER_RW m2)
        (\<lambda>m3. Option.bind (mem_map_pa (buf_va blk) (buf_pa blk) 0 PTE_USER_RW m3)
        (\<lambda>m4. el1_init_el0 L hw late (s\<lparr>el1_mm := m4, el1_sysc_va := sc, el1_sysc := blk\<rparr>))))))"

end
