(* ===== verification/ElfMemory.thy ===== *)
theory ElfMemory
  imports ElfLoad
begin

text \<open>
  What the loader relies on of the memory it works in: \<open>elf_memory\<close> extends the paging
  interface by the bytes behind the translations.  A byte is \<open>data\<close> if no page table and no
  free page owns it; mapping and unmapping leave such bytes alone, and a store through a
  translation changes the one byte it is for.  The lemmas: the pages shown at their addresses
  stay shown through every step of the loader but those that replace them.
\<close>

abbreviation page_no :: "'w::len word \<Rightarrow> nat \<Rightarrow> 'w word" where
  "page_no a i \<equiv> a + push_bit 12 (of_nat i)"

text \<open>An address as a page and an offset.\<close>

lemma bit_of_nat_page: "bit (of_nat b :: 'w::len word) k \<Longrightarrow> b < 4096 \<Longrightarrow> k < 12"
proof -
  assume "bit (of_nat b :: 'w word) k" and b: "b < 4096"
  then have "bit b k" by (simp add: bit_of_nat_iff)
  moreover have "take_bit 12 b = b" using b by (intro take_bit_nat_eq_self) simp
  ultimately show ?thesis by (metis bit_take_bit_iff)
qed

lemma page_offset_or: "take_bit 12 v = 0 \<Longrightarrow> b < 4096 \<Longrightarrow> v + of_nat b = v OR of_nat b" for v :: "'w::len word"
proof -
  assume v: "take_bit 12 v = 0" and b: "b < 4096"
  have "\<not> bit v k" if "k < 12" for k
    using v that by (metis bit_0_eq bit_take_bit_iff bot_apply bot_bool_def)
  then have "v AND of_nat b = 0"
    using bit_of_nat_page [OF _ b, where 'w = 'w] by (intro bit_word_eqI) (auto simp: bit_and_iff)
  then show ?thesis by (simp add: disjunctive_add_eq_or)
qed

lemma page_offset:
  fixes v :: "'w::len word"
  assumes "take_bit 12 v = 0" "b < 4096"
  shows "drop_bit 12 (v + of_nat b) = drop_bit 12 v"
proof -
  have "\<not> bit (of_nat b :: 'w word) (k + 12)" for k
    using bit_of_nat_page [OF _ assms(2), of "k + 12", where 'w = 'w] by auto
  then show ?thesis
    unfolding page_offset_or [OF assms]
    by (intro bit_word_eqI) (simp add: bit_drop_bit_eq bit_or_iff add.commute)
qed

lemma page_offset_eq:
  fixes v :: "'w::len word"
  assumes "12 \<le> LENGTH('w)" "a < 4096" "b < 4096"
  shows "v + of_nat a = v + of_nat b \<longleftrightarrow> a = b"
proof -
  have "(4096 :: nat) \<le> 2 ^ LENGTH('w)" using assms(1) power_increasing [of 12 "LENGTH('w)" "2 :: nat"] by simp
  then have "unat (of_nat c :: 'w word) = c" if "c < 4096" for c
    using that by (simp add: unsigned_of_nat take_bit_nat_eq_self)
  then show ?thesis using assms(2,3) by (metis add_left_cancel)
qed

locale elf_memory =
  page_mapper inv room usable same_page "vm_map_pa m" "vm_map_va m" "vm_unmap_va m" lookup translation next_frame pool
  for inv :: "'s \<Rightarrow> bool"
    and room :: "nat \<Rightarrow> 's \<Rightarrow> bool"
    and usable :: "'s \<Rightarrow> 'w::len word \<Rightarrow> bool"
    and same_page :: "'w word \<Rightarrow> 'w word \<Rightarrow> bool"
    and m :: "('w word, 's) vm"
    and lookup :: "'w word \<Rightarrow> 's \<Rightarrow> 'w word"
    and translation :: "'w word \<Rightarrow> 'w word \<Rightarrow> 'w word"
    and next_frame :: "'s \<Rightarrow> 'w word"
    and pool :: "'s \<Rightarrow> 'w word" +
  fixes data :: "'s \<Rightarrow> 'w word \<Rightarrow> bool"
    and bytes :: "'s \<Rightarrow> 'w word \<Rightarrow> u8"
  assumes wide: "12 \<le> LENGTH('w)"
    and map_pa_data: "\<And>s s' n va pa a. inv s \<Longrightarrow> room (Suc n) s \<Longrightarrow> usable s va \<Longrightarrow>
      vm_map_pa m va pa s = Some s' \<Longrightarrow> data s a \<Longrightarrow> data s' a \<and> bytes s' a = bytes s a"
    and map_va_data: "\<And>s s' n va a. inv s \<Longrightarrow> room (Suc n) s \<Longrightarrow> usable s va \<Longrightarrow>
      vm_map_va m va s = Some s' \<Longrightarrow> data s a \<Longrightarrow> data s' a \<and> bytes s' a = bytes s a"
    and map_va_fresh: "\<And>s s' n va a. inv s \<Longrightarrow> room (Suc n) s \<Longrightarrow> usable s va \<Longrightarrow>
      vm_map_va m va s = Some s' \<Longrightarrow> drop_bit 12 a = drop_bit 12 (next_frame s) \<Longrightarrow> data s' a \<and> \<not> data s a"
    and fresh_frame: "\<And>s n va. inv s \<Longrightarrow> room (Suc n) s \<Longrightarrow> take_bit 12 va = 0 \<Longrightarrow>
      translation va (next_frame s) = next_frame s \<and> next_frame s \<noteq> - 1"
    and unmap_data: "\<And>s s' va a. inv s \<Longrightarrow> usable s va \<Longrightarrow> lookup va s \<noteq> - 1 \<Longrightarrow>
      vm_unmap_va m va s = (0, s') \<Longrightarrow> data s a \<Longrightarrow> data s' a \<and> bytes s' a = bytes s a"
    and frame_aligned: "\<And>s v. inv s \<Longrightarrow> take_bit 12 v = 0 \<Longrightarrow> lookup v s \<noteq> - 1 \<Longrightarrow> take_bit 12 (lookup v s) = 0"
    and rd: "\<And>s v b. inv s \<Longrightarrow> take_bit 12 v = 0 \<Longrightarrow> b < 4096 \<Longrightarrow>
      vm_rd m s (v + of_nat b) = (if lookup v s = - 1 then None else Some (bytes s (lookup v s + of_nat b)))"
    and wr: "\<And>s v b x. inv s \<Longrightarrow> take_bit 12 v = 0 \<Longrightarrow> b < 4096 \<Longrightarrow> lookup v s \<noteq> - 1 \<Longrightarrow>
      data s (lookup v s + of_nat b) \<Longrightarrow>
      \<exists>s'. vm_wr m (v + of_nat b) x s = Some s' \<and> inv s' \<and> (\<forall>n. room n s \<longrightarrow> room n s') \<and>
        usable s' = usable s \<and> (\<forall>u. lookup u s' = lookup u s) \<and> data s' = data s \<and>
        bytes s' = (bytes s)(lookup v s + of_nat b := x)"
begin

text \<open>Page \<open>v\<close> shows the bytes \<open>c\<close>.\<close>

definition holds :: "'s \<Rightarrow> 'w word \<Rightarrow> (nat \<Rightarrow> u8) \<Rightarrow> bool" where
  "holds s v c \<longleftrightarrow> take_bit 12 v = 0 \<and> usable s v \<and> lookup v s \<noteq> - 1 \<and>
     (\<forall>b<4096. data s (lookup v s + of_nat b) \<and> bytes s (lookup v s + of_nat b) = c b)"

definition displays :: "'s \<Rightarrow> ('w word \<times> (nat \<Rightarrow> u8)) set \<Rightarrow> bool" where
  "displays s K \<longleftrightarrow> inv s \<and> (\<forall>x\<in>K. holds s (fst x) (snd x))"

lemma holds_rd: "inv s \<Longrightarrow> holds s v c \<Longrightarrow> b < 4096 \<Longrightarrow> vm_rd m s (v + of_nat b) = Some (c b)"
  by (simp add: holds_def rd)

text \<open>A step that keeps translations and data keeps what a page shows.\<close>

lemma holds_step:
  assumes "holds s v c" "usable s' v" "lookup v s' = lookup v s"
    "\<And>a. data s a \<Longrightarrow> data s' a \<and> bytes s' a = bytes s a"
  shows "holds s' v c"
  using assms by (simp add: holds_def)

lemma displaysD: "displays s K \<Longrightarrow> inv s" "displays s K \<Longrightarrow> x \<in> K \<Longrightarrow> holds s (fst x) (snd x)"
  by (auto simp: displays_def)

lemma displaysI: "inv s \<Longrightarrow> (\<And>x. x \<in> K \<Longrightarrow> holds s (fst x) (snd x)) \<Longrightarrow> displays s K"
  by (simp add: displays_def)

lemma displays_insertI: "displays s K \<Longrightarrow> holds s v c \<Longrightarrow> displays s (insert (v, c) K)"
  by (simp add: displays_def)

lemma displays_step:
  assumes "displays s K" "inv s'"
    "\<And>x. x \<in> K \<Longrightarrow> usable s (fst x) \<Longrightarrow> usable s' (fst x) \<and> lookup (fst x) s' = lookup (fst x) s"
    "\<And>a. data s a \<Longrightarrow> data s' a \<and> bytes s' a = bytes s a"
  shows "displays s' K"
proof (rule displaysI [OF assms(2)])
  fix x assume x: "x \<in> K"
  have h: "holds s (fst x) (snd x)" by (rule displaysD(2) [OF assms(1) x])
  then have "usable s' (fst x) \<and> lookup (fst x) s' = lookup (fst x) s"
    by (intro assms(3) [OF x]) (simp add: holds_def)
  then show "holds s' (fst x) (snd x)" by (intro holds_step [OF h _ _ assms(4)]) simp_all
qed

text \<open>Mapping a page of the image at its own address.\<close>

lemma map_shown:
  assumes K: "displays s K" and r: "room (Suc n) s" and u: "usable s v" "take_bit 12 v = 0"
    and t: "translation v v = v" "v \<noteq> - 1" and c: "\<forall>b<4096. data s (v + of_nat b) \<and> bytes s (v + of_nat b) = c b"
    and far: "\<forall>x\<in>K. \<not> same_page v (fst x)"
  obtains s' where "vm_map_pa m v v s = Some s'" "displays s' (insert (v, c) K)" "room n s'"
    "\<And>w. usable s w \<Longrightarrow> usable s' w \<and> (\<not> same_page v w \<longrightarrow> lookup w s' = lookup w s)" "\<And>a. data s a \<Longrightarrow> data s' a \<and> bytes s' a = bytes s a"
proof -
  have inv: "inv s" by (rule displaysD(1) [OF K])
  obtain s' where s': "vm_map_pa m v v s = Some s'" "inv s'" "room n s'" "lookup v s' = v"
    "\<And>w. usable s w \<Longrightarrow> usable s' w \<and> (\<not> same_page v w \<longrightarrow> lookup w s' = lookup w s)"
    using map_pa [OF inv r u(1), of v] unfolding t(1) by blast
  have d: "data s' a \<and> bytes s' a = bytes s a" if "data s a" for a
    using map_pa_data [OF inv r u(1) s'(1) that] .
  have K': "displays s' K"
    using far s'(5) by (intro displays_step [OF K s'(2) _ d]) blast
  have "\<forall>b<4096. data s' (v + of_nat b) \<and> bytes s' (v + of_nat b) = c b" using c d by metis
  then have "holds s' v c" unfolding holds_def s'(4) using s'(5) [OF u(1)] u(2) t(2) by blast
  then show ?thesis
    using that [OF s'(1) displays_insertI [OF K'] s'(3)] s'(5) d by blast
qed

text \<open>A fresh page shows something, at a frame no page shown before has.\<close>

lemma fresh_shown:
  assumes K: "displays s K" and r: "room (Suc n) s" and u: "usable s v" "take_bit 12 v = 0"
    and far: "\<forall>x\<in>K. \<not> same_page v (fst x)"
  obtains s' c where "vm_map_va m v s = Some s'" "displays s' (insert (v, c) K)" "room n s'"
    "\<And>w. usable s w \<Longrightarrow> usable s' w \<and> (\<not> same_page v w \<longrightarrow> lookup w s' = lookup w s)"
    "\<forall>x\<in>K. drop_bit 12 (lookup (fst x) s') \<noteq> drop_bit 12 (lookup v s')"
proof -
  have inv: "inv s" by (rule displaysD(1) [OF K])
  note fr = fresh_frame [OF inv r u(2)]
  obtain s' where s': "vm_map_va m v s = Some s'" "inv s'" "room n s'" "lookup v s' = next_frame s"
    "\<And>w. usable s w \<Longrightarrow> usable s' w \<and> (\<not> same_page v w \<longrightarrow> lookup w s' = lookup w s)"
    using map_va [OF inv r u(1)] unfolding conjunct1 [OF fr] by blast
  note new = map_va_fresh [OF inv r u(1) s'(1)]
  have d: "data s' a \<and> bytes s' a = bytes s a" if "data s a" for a
    using map_va_data [OF inv r u(1) s'(1) that] .
  have al: "take_bit 12 (next_frame s) = 0" using frame_aligned [OF s'(2) u(2)] s'(4) fr by simp
  note page = page_offset [OF al]
  have old: "displays s' K"
    using far s'(5) by (intro displays_step [OF K s'(2) _ d]) blast
  have "drop_bit 12 (lookup (fst x) s') \<noteq> drop_bit 12 (lookup v s')" if "x \<in> K" for x
  proof
    assume e: "drop_bit 12 (lookup (fst x) s') = drop_bit 12 (lookup v s')"
    have h: "holds s (fst x) (snd x)" by (rule displaysD(2) [OF K that])
    then have "lookup (fst x) s' = lookup (fst x) s" using s'(5) far that unfolding holds_def by blast
    then have "\<not> data s (lookup (fst x) s)" using new [of "lookup (fst x) s"] e s'(4) by simp
    moreover have "data s (lookup (fst x) s + of_nat 0)" using h unfolding holds_def by (metis zero_less_numeral)
    ultimately show False by simp
  qed
  moreover have "data s' (next_frame s + of_nat b)" if "b < 4096" for b
    using new [OF page [OF that]] by simp
  then have "holds s' v (\<lambda>b. bytes s' (next_frame s + of_nat b))"
    unfolding holds_def s'(4) using s'(5) [OF u(1)] u(2) fr by blast
  ultimately show ?thesis using that [OF s'(1) displays_insertI [OF old] s'(3)] s'(5) by blast
qed

text \<open>Removing a page; the others stay.\<close>

lemma unmap_shown:
  assumes K: "displays s (insert (v, c) K)" and r: "room n s" and far: "\<forall>x\<in>K. \<not> same_page v (fst x)"
  obtains s' where "vm_unmap_va m v s = (0, s')" "displays s' K" "room n s'" "lookup v s' = - 1"
    "\<And>w. usable s w \<Longrightarrow> usable s' w \<and> (\<not> same_page v w \<longrightarrow> lookup w s' = lookup w s)"
proof -
  have inv: "inv s" and h: "usable s v" "lookup v s \<noteq> - 1" using K by (auto simp: displays_def holds_def)
  obtain s' where s': "vm_unmap_va m v s = (0, s')" "inv s'" "room n s'" "lookup v s' = - 1"
    "\<And>w. usable s w \<Longrightarrow> usable s' w \<and> (\<not> same_page v w \<longrightarrow> lookup w s' = lookup w s)"
    using unmap_va [OF inv r h] by blast
  have K': "displays s K" using K by (simp add: displays_def)
  have "displays s' K"
    using far s'(5) by (intro displays_step [OF K' s'(2) _ unmap_data [OF inv h s'(1)]]) blast
  then show ?thesis using that [of s'] s' by blast
qed

text \<open>Storing into a page whose frame no other page has.\<close>

lemma store_shown:
  assumes K: "displays s (insert (v, c) K)" and b: "b < 4096"
    and own: "\<forall>x\<in>K. drop_bit 12 (lookup (fst x) s) \<noteq> drop_bit 12 (lookup v s)"
  obtains s' where "vm_wr m (v + of_nat b) x s = Some s'" "displays s' (insert (v, c(b := x)) K)"
    "\<And>n. room n s \<Longrightarrow> room n s'" "usable s' = usable s" "\<And>w. lookup w s' = lookup w s"
proof -
  have inv: "inv s" and h: "holds s v c" using K by (auto simp: displays_def)
  then have v: "take_bit 12 v = 0" "lookup v s \<noteq> - 1" "data s (lookup v s + of_nat b)" using b by (auto simp: holds_def)
  obtain s' where s': "vm_wr m (v + of_nat b) x s = Some s'" "inv s'" "\<And>n. room n s \<Longrightarrow> room n s'"
    "usable s' = usable s" "\<And>w. lookup w s' = lookup w s" "data s' = data s"
    "bytes s' = (bytes s)(lookup v s + of_nat b := x)"
    using wr [OF inv v(1) b v(2,3), of x] by blast
  have page: "drop_bit 12 (lookup w s + of_nat j) = drop_bit 12 (lookup w s)"
    if "take_bit 12 w = 0" "lookup w s \<noteq> - 1" "j < 4096" for w j
    using page_offset [OF frame_aligned [OF inv that(1,2)] that(3)] .
  have "holds s' (fst y) (snd y)" if y: "y \<in> K" for y
  proof -
    have hy: "holds s (fst y) (snd y)" using K y by (simp add: displays_def)
    then have wy: "take_bit 12 (fst y) = 0" "lookup (fst y) s \<noteq> - 1" by (simp_all add: holds_def)
    have "lookup (fst y) s + of_nat j \<noteq> lookup v s + of_nat b" if "j < 4096" for j
      using page [OF wy that] page [OF v(1,2) b] own y by metis
    then show ?thesis using hy by (simp add: holds_def s'(4-7))
  qed
  moreover have "holds s' v (c(b := x))"
    using h page_offset_eq [OF wide _ b, of _ "lookup v s"] by (simp add: holds_def s'(4-7))
  ultimately show ?thesis using that [of s'] s'(1-5) by (simp add: displays_def)
qed

text \<open>The bytes from \<open>src\<close> on are among those shown.\<close>

definition covers :: "('w word \<times> (nat \<Rightarrow> u8)) set \<Rightarrow> 'w word \<Rightarrow> (nat \<Rightarrow> u8) \<Rightarrow> nat \<Rightarrow> bool" where
  "covers K src d n \<longleftrightarrow> (\<forall>b<n. \<exists>x\<in>K. \<exists>i<4096. src + of_nat b = fst x + of_nat i \<and> d b = snd x i)"

lemma covers_rd: "displays s K \<Longrightarrow> covers K src d n \<Longrightarrow> b < n \<Longrightarrow> vm_rd m s (src + of_nat b) = Some (d b)"
  unfolding covers_def using holds_rd displaysD by metis

lemma copy_from:
  assumes cov: "covers K src d 4096" and own: "\<forall>x\<in>K. drop_bit 12 (lookup (fst x) s) \<noteq> drop_bit 12 (lookup v s)"
  shows "n + k = 4096 \<Longrightarrow> \<forall>b<k. c b = d b \<Longrightarrow>
    \<forall>w. lookup w t = lookup w s \<Longrightarrow> displays t (insert (v, c) K) \<Longrightarrow>
    \<exists>s' c'. vmemcpy m n (v + of_nat k) (src + of_nat k) t = Some s' \<and> displays s' (insert (v, c') K) \<and>
      (\<forall>b<4096. c' b = d b) \<and> (\<forall>r. room r t \<longrightarrow> room r s') \<and> usable s' = usable t \<and> (\<forall>w. lookup w s' = lookup w t)"
proof (induction n arbitrary: k c t)
  case 0
  then show ?case by auto
next
  case (Suc n)
  have k: "k < 4096" using Suc.prems(1) by simp
  have K: "displays t K" using Suc.prems(4) by (simp add: displays_def)
  have own': "\<forall>x\<in>K. drop_bit 12 (lookup (fst x) t) \<noteq> drop_bit 12 (lookup v t)" using own Suc.prems(3) by simp
  obtain t1 where t1: "vm_wr m (v + of_nat k) (d k) t = Some t1" "displays t1 (insert (v, c(k := d k)) K)"
    "\<And>r. room r t \<Longrightarrow> room r t1" "usable t1 = usable t" "\<And>w. lookup w t1 = lookup w t"
    by (rule store_shown [OF Suc.prems(4) k own', of "d k"]) blast
  have "\<forall>b<Suc k. (c(k := d k)) b = d b" using Suc.prems(2) by (simp add: less_Suc_eq)
  moreover have "\<forall>w. lookup w t1 = lookup w s" using t1(5) Suc.prems(3) by simp
  ultimately obtain s' c' where s': "vmemcpy m n (v + of_nat (Suc k)) (src + of_nat (Suc k)) t1 = Some s'"
    "displays s' (insert (v, c') K)" "\<forall>b<4096. c' b = d b" "\<forall>r. room r t1 \<longrightarrow> room r s'" "usable s' = usable t1"
    "\<forall>w. lookup w s' = lookup w t1"
    using Suc.IH [OF _ _ _ t1(2), of "Suc k"] Suc.prems(1) by auto
  have "vmemcpy m (Suc n) (v + of_nat k) (src + of_nat k) t = Some s'"
    using covers_rd [OF K cov k] t1(1) s'(1) by (simp add: add.assoc add.commute [of 1])
  then show ?case using s' t1(3-5) by auto
qed

lemma load_page:
  assumes K: "displays s K" and r: "room (Suc n) s" and u: "usable s v" "take_bit 12 v = 0"
    and far: "\<forall>x\<in>K. \<not> same_page v (fst x)" and cov: "covers K src d 4096"
  obtains s1 s2 where "vm_map_va m v s = Some s1" "vmemcpy m 4096 v src s1 = Some s2"
    "displays s2 (insert (v, d) K)" "room n s2"
    "\<And>w. usable s w \<Longrightarrow> usable s2 w \<and> (\<not> same_page v w \<longrightarrow> lookup w s2 = lookup w s)"
proof -
  obtain s1 c where s1: "vm_map_va m v s = Some s1" "displays s1 (insert (v, c) K)" "room n s1"
    "\<And>w. usable s w \<Longrightarrow> usable s1 w \<and> (\<not> same_page v w \<longrightarrow> lookup w s1 = lookup w s)" "\<forall>x\<in>K. drop_bit 12 (lookup (fst x) s1) \<noteq> drop_bit 12 (lookup v s1)"
    by (rule fresh_shown [OF K r u far]) blast
  obtain s2 c' where s2: "vmemcpy m 4096 v src s1 = Some s2" "displays s2 (insert (v, c') K)"
    "\<forall>b<4096. c' b = d b" "\<forall>r. room r s1 \<longrightarrow> room r s2" "usable s2 = usable s1"
    "\<forall>w. lookup w s2 = lookup w s1"
    using copy_from [OF cov s1(5), of 4096 0 c s1] s1(2) by auto
  have "holds s2 v d" using displaysD(2) [OF s2(2), of "(v, c')"] s2(3) by (simp add: holds_def)
  moreover have "displays s2 K" using s2(2) by (simp add: displays_def)
  ultimately show ?thesis using that [OF s1(1) s2(1) displays_insertI] s1(3,4) s2(4-6) by auto
qed

end

end
