(* ===== verification/ElfLoadProofs.thy ===== *)
theory ElfLoadProofs
  imports ElfMemory
begin

text \<open>
  Loading a well-formed image.  The first part reads the fields of an image as functions of
  its bytes and says what a well-formed image is (\<open>elf_ok\<close>); the second, inside the interface
  \<open>elf_memory\<close>, follows the loader: every page of the image is shown at its own address, then
  every page of the loaded sections at the address the image names, then the image is gone.
\<close>

section \<open>Images\<close>

primrec imgn :: "nat \<Rightarrow> ('w::len word \<Rightarrow> u8) \<Rightarrow> 'w word \<Rightarrow> u64" where
  "imgn 0 img a = 0"
| "imgn (Suc n) img a = ucast (img a) OR push_bit 8 (imgn n img (a + 1))"

definition fld :: "nat \<times> nat \<Rightarrow> ('w::len word \<Rightarrow> u8) \<Rightarrow> 'w word \<Rightarrow> u64" where
  "fld f img b = imgn (snd f) img (b + of_nat (fst f))"

primrec str_at :: "('w::len word \<Rightarrow> u8) \<Rightarrow> 'w word \<Rightarrow> u8 list \<Rightarrow> bool" where
  "str_at img a [] \<longleftrightarrow> img a = 0"
| "str_at img a (x # xs) \<longleftrightarrow> img a = x \<and> str_at img (a + 1) xs"

definition img_len :: "elf_h \<Rightarrow> ('w::len word \<Rightarrow> u8) \<Rightarrow> 'w word \<Rightarrow> 'w word" where
  "img_len L img base = ucast (fld (eh_shoff L) img base) +
     scast (ucast (fld (eh_shentsize L) img base) * ucast (fld (eh_shnum L) img base) :: u32)"

definition elf_shnum :: "elf_h \<Rightarrow> ('w::len word \<Rightarrow> u8) \<Rightarrow> 'w word \<Rightarrow> nat" where
  "elf_shnum L img base = unat (fld (eh_shnum L) img base)"

definition elf_hdr :: "elf_h \<Rightarrow> ('w::len word \<Rightarrow> u8) \<Rightarrow> 'w word \<Rightarrow> nat \<Rightarrow> 'w word" where
  "elf_hdr L img base i = base + ucast (fld (eh_shoff L) img base) + of_nat (i * sizeof_shdr L)"

definition elf_strx :: "elf_h \<Rightarrow> ('w::len word \<Rightarrow> u8) \<Rightarrow> 'w word \<Rightarrow> nat" where
  "elf_strx L img base = unat (fld (eh_shstrndx L) img base)"

definition sec_src :: "elf_h \<Rightarrow> ('w::len word \<Rightarrow> u8) \<Rightarrow> 'w word \<Rightarrow> nat \<Rightarrow> 'w word" where
  "sec_src L img base i = base + ucast (fld (sh_offset L) img (elf_hdr L img base i))"

definition sec_name :: "elf_h \<Rightarrow> ('w::len word \<Rightarrow> u8) \<Rightarrow> 'w word \<Rightarrow> nat \<Rightarrow> 'w word" where
  "sec_name L img base i =
     sec_src L img base (elf_strx L img base) + ucast (fld (sh_name L) img (elf_hdr L img base i))"

definition sec_va :: "elf_h \<Rightarrow> ('w::len word \<Rightarrow> u8) \<Rightarrow> 'w word \<Rightarrow> nat \<Rightarrow> 'w word" where
  "sec_va L img base i = ucast (fld (sh_addr L) img (elf_hdr L img base i))"

definition sec_size :: "elf_h \<Rightarrow> ('w::len word \<Rightarrow> u8) \<Rightarrow> 'w word \<Rightarrow> nat \<Rightarrow> 'w word" where
  "sec_size L img base i = ucast (fld (sh_size L) img (elf_hdr L img base i))"

definition sec_pages :: "elf_h \<Rightarrow> ('w::len word \<Rightarrow> u8) \<Rightarrow> 'w word \<Rightarrow> nat \<Rightarrow> nat" where
  "sec_pages L img base i = (unat (sec_size L img base i) + 4095) div 4096"

definition loaded :: "elf_h \<Rightarrow> ('w::len word \<Rightarrow> u8) \<Rightarrow> 'w word \<Rightarrow> nat \<Rightarrow> bool" where
  "loaded L img base i \<longleftrightarrow>
     str_at img (sec_name L img base i) dot_text \<or> str_at img (sec_name L img base i) dot_data"

text \<open>\<open>w\<close> bytes from \<open>a\<close> lie in the \<open>n\<close> pages of the image.\<close>

definition in_img :: "'w::len word \<Rightarrow> nat \<Rightarrow> 'w word \<Rightarrow> nat \<Rightarrow> bool" where
  "in_img base n a w \<longleftrightarrow> unat (a - base) + w \<le> n * 4096"

definition elf_ok :: "elf_h \<Rightarrow> 'w::len word \<Rightarrow> nat \<Rightarrow> ('w word \<Rightarrow> u8) \<Rightarrow> bool" where
  "elf_ok L base n img \<longleftrightarrow>
     take_bit 12 base = 0 \<and> 0 < n \<and> n * 4096 < 2 ^ LENGTH('w) \<and>
     (\<forall>x\<in>set (eh_mag L). fst x < 4096 \<and> img (base + of_nat (fst x)) = snd x) \<and>
     (\<forall>f\<in>set [eh_machine L, eh_shoff L, eh_shentsize L, eh_shnum L, eh_shstrndx L, eh_entry L].
        fst f + snd f \<le> 4096) \<and>
     (fld (eh_machine L) img base = em_arm L \<or> fld (eh_machine L) img base = em_aarch64 L) \<and>
     n = (unat (img_len L img base) + 4095) div 4096 \<and>
     in_img base n (elf_hdr L img base (elf_strx L img base) + of_nat (fst (sh_offset L))) (snd (sh_offset L)) \<and>
     (\<forall>i<elf_shnum L img base.
        (\<forall>f\<in>set [sh_name L, sh_addr L, sh_offset L, sh_size L].
           in_img base n (elf_hdr L img base i + of_nat (fst f)) (snd f)) \<and>
        in_img base n (sec_name L img base i) 6 \<and>
        (loaded L img base i \<longrightarrow>
           take_bit 12 (sec_va L img base i) = 0 \<and> unat (sec_size L img base i) + 4095 < 2 ^ LENGTH('w) \<and>
           in_img base n (sec_src L img base i) (sec_pages L img base i * 4096)))"

lemma elf_okD:
  fixes base :: "'w::len word"
  assumes "elf_ok L base n img"
  shows "take_bit 12 base = 0" "0 < n" "n * 4096 < 2 ^ LENGTH('w)"
    "n = (unat (img_len L img base) + 4095) div 4096"
    "\<forall>x\<in>set (eh_mag L). fst x < 4096 \<and> img (base + of_nat (fst x)) = snd x"
    "f \<in> set [eh_machine L, eh_shoff L, eh_shentsize L, eh_shnum L, eh_shstrndx L, eh_entry L] \<Longrightarrow> fst f + snd f \<le> 4096"
    "fld (eh_machine L) img base = em_arm L \<or> fld (eh_machine L) img base = em_aarch64 L"
    "in_img base n (elf_hdr L img base (elf_strx L img base) + of_nat (fst (sh_offset L))) (snd (sh_offset L))"
  using assms unfolding elf_ok_def by blast+

lemma elf_ok_sec:
  fixes base :: "'w::len word"
  assumes "elf_ok L base n img" "i < elf_shnum L img base"
  shows "f \<in> set [sh_name L, sh_addr L, sh_offset L, sh_size L] \<Longrightarrow>
      in_img base n (elf_hdr L img base i + of_nat (fst f)) (snd f)"
    "in_img base n (sec_name L img base i) 6"
    "loaded L img base i \<Longrightarrow> take_bit 12 (sec_va L img base i) = 0"
    "loaded L img base i \<Longrightarrow> unat (sec_size L img base i) + 4095 < 2 ^ LENGTH('w)"
    "loaded L img base i \<Longrightarrow> in_img base n (sec_src L img base i) (sec_pages L img base i * 4096)"
  using assms unfolding elf_ok_def by blast+

text \<open>The pages of the image and those of the loaded sections, as address and contents.\<close>

definition img_page :: "('w::len word \<Rightarrow> u8) \<Rightarrow> 'w word \<Rightarrow> 'w word \<Rightarrow> nat \<Rightarrow> 'w word \<times> (nat \<Rightarrow> u8)" where
  "img_page img va src k = (page_no va k, \<lambda>b. img (page_no src k + of_nat b))"

definition sec_addrs :: "elf_h \<Rightarrow> ('w::len word \<Rightarrow> u8) \<Rightarrow> 'w word \<Rightarrow> nat \<Rightarrow> 'w word list" where
  "sec_addrs L img base i =
     (if loaded L img base i then map (page_no (sec_va L img base i)) [0..<sec_pages L img base i] else [])"

definition elf_addrs :: "elf_h \<Rightarrow> ('w::len word \<Rightarrow> u8) \<Rightarrow> 'w word \<Rightarrow> 'w word list" where
  "elf_addrs L img base = concat (map (sec_addrs L img base) [0..<elf_shnum L img base])"

text \<open>The pages of the image, then those of its sections; the sections as \<open>rd\<close> reads them.\<close>

definition elf_image_pages :: "elf_h \<Rightarrow> 'w::len word \<Rightarrow> nat \<Rightarrow> ('w word \<Rightarrow> u8) \<Rightarrow> 'w word list" where
  "elf_image_pages L base n img = map (page_no base) [0..<n] @ elf_addrs L img base"

definition sections_at :: "('w::len word \<Rightarrow> u8 option) \<Rightarrow> elf_h \<Rightarrow> 'w word \<Rightarrow> ('w word \<Rightarrow> u8) \<Rightarrow> bool" where
  "sections_at rd L base img \<longleftrightarrow>
     (\<forall>i<elf_shnum L img base. loaded L img base i \<longrightarrow>
        (\<forall>k < sec_pages L img base i. \<forall>b<4096.
           rd (page_no (sec_va L img base i) k + of_nat b) = Some (img (page_no (sec_src L img base i) k + of_nat b))))"

text \<open>The entry point as the load after the removal of the header page gives it; \<open>None\<close> is a data
  abort.\<close>

definition late_entry :: "elf_h \<Rightarrow> ('s \<Rightarrow> 'w::len word \<Rightarrow> u8 option) \<Rightarrow> 'w word \<Rightarrow> 's \<Rightarrow> 'w word option" where
  "late_entry L late base s = map_option ucast (rdn late (snd (eh_entry L)) s (base + of_nat (fst (eh_entry L))))"

text \<open>One of the answers it may have: the removed translation of the header page is still in the TLB.
  The architecture permits that and does not promise it.\<close>

definition header_cached :: "'w::len word \<Rightarrow> ('w word \<Rightarrow> u8) \<Rightarrow> ('s \<Rightarrow> 'w word \<Rightarrow> u8 option) \<Rightarrow> bool" where
  "header_cached base img late \<longleftrightarrow> (\<forall>s. \<forall>k<4096. late s (base + of_nat k) = Some (img (base + of_nat k)))"

lemma rdn_reads:
  "\<forall>k<w. rd s (a + of_nat k) = Some (img (a + of_nat k)) \<Longrightarrow> rdn rd w s a = Some (imgn w img a)"
proof (induction w arbitrary: a)
  case (Suc w)
  have "rd s (a + of_nat 0) = Some (img (a + of_nat 0))" using Suc.prems by blast
  moreover have "\<forall>k<w. rd s (a + 1 + of_nat k) = Some (img (a + 1 + of_nat k))"
  proof (intro allI impI)
    fix k assume "k < w"
    then have "rd s (a + of_nat (Suc k)) = Some (img (a + of_nat (Suc k)))" using Suc.prems by blast
    then show "rd s (a + 1 + of_nat k) = Some (img (a + 1 + of_nat k))" by (simp add: add.assoc)
  qed
  ultimately show ?case using Suc.IH by simp
qed simp

lemma entry_read:
  assumes "header_cached base img late" "fst f + snd f \<le> 4096"
  shows "rdn late (snd f) s (base + of_nat (fst f)) = Some (fld f img base)"
  unfolding fld_def
proof (rule rdn_reads, intro allI impI)
  fix k assume "k < snd f"
  then have "fst f + k < 4096" using assms(2) by simp
  then have "late s (base + of_nat (fst f + k)) = Some (img (base + of_nat (fst f + k)))"
    using assms(1) unfolding header_cached_def by blast
  then show "late s (base + of_nat (fst f) + of_nat k) = Some (img (base + of_nat (fst f) + of_nat k))"
    by (simp add: add.assoc)
qed

section \<open>Page arithmetic\<close>

lemma page_no_Suc: "page_no a (Suc k) = page_no a k + 0x1000" for a :: "'w::len word"
  by (simp add: push_bit_eq_mult algebra_simps)

lemma page_no_off: "push_bit 12 (of_nat k) + 0x1000 = (push_bit 12 (of_nat (Suc k)) :: 'w::len word)"
  by (simp add: push_bit_eq_mult algebra_simps)

lemma unat_page_off: "k * 4096 < 2 ^ LENGTH('w) \<Longrightarrow> unat (push_bit 12 (of_nat k) :: 'w::len word) = k * 4096"
proof -
  assume "k * 4096 < 2 ^ LENGTH('w)"
  moreover have "push_bit 12 (of_nat k :: 'w word) = of_nat (k * 4096)" by (simp add: push_bit_eq_mult)
  ultimately show ?thesis by (simp only: unsigned_of_nat take_bit_nat_eq_self of_nat_id)
qed

lemma atLeastLessThan_insert: "k < n \<Longrightarrow> {k..<n} = insert k {Suc k..<n}" for k :: nat
  by auto

text \<open>The loop condition of a loop over pages.\<close>

lemma page_loop:
  fixes len :: "'w::len word"
  assumes "n = (unat len + 4095) div 4096" "n * 4096 < 2 ^ LENGTH('w)" "k \<le> n"
  shows "push_bit 12 (of_nat k) < len \<longleftrightarrow> k < n"
proof -
  have "k * 4096 \<le> n * 4096" using assms(3) by simp
  then have "unat (push_bit 12 (of_nat k) :: 'w word) = k * 4096" using assms(2) by (intro unat_page_off) simp
  then show ?thesis using assms(1) unfolding word_less_nat_alt by linarith
qed

lemma in_img_offset:
  assumes "in_img base n a w" "n * 4096 < 2 ^ LENGTH('w)" "b < w"
  obtains j i where "j < n" "i < 4096" "a + of_nat b = page_no base j + (of_nat i :: 'w::len word)"
proof -
  define q where "q = unat (a - base) + b"
  have "q < n * 4096" using assms(1,3) by (simp add: q_def in_img_def)
  then have "q div 4096 < n" by (simp add: div_less_iff_less_mult)
  moreover have "a + of_nat b = base + of_nat q" by (simp add: q_def)
  moreover have "(of_nat q :: 'w word) = push_bit 12 (of_nat (q div 4096)) + of_nat (q mod 4096)"
  proof -
    have "(of_nat q :: 'w word) = of_nat (q div 4096 * 4096 + q mod 4096)" by simp
    then show ?thesis by (simp only: of_nat_add of_nat_mult push_bit_eq_mult) simp
  qed
  ultimately show ?thesis using that [of "q div 4096" "q mod 4096"] by (simp add: add.assoc)
qed

lemma page_no_aligned: "take_bit 12 a = 0 \<Longrightarrow> take_bit 12 (page_no a k) = 0" for a :: "'w::len word"
  by (simp add: take_bit_eq_0_iff push_bit_eq_mult)

lemma in_img_page:
  fixes base :: "'w::len word"
  assumes "in_img base n a (p * 4096)" "k < p" "n * 4096 < 2 ^ LENGTH('w)"
  shows "in_img base n (page_no a k) 4096"
proof -
  have p: "(k + 1) * 4096 \<le> p * 4096" using assms(2) by simp
  then have le: "unat (a - base) + k * 4096 + 4096 \<le> n * 4096" using assms(1) by (simp add: in_img_def)
  have off: "unat (push_bit 12 (of_nat k) :: 'w word) = k * 4096"
    by (rule unat_page_off) (use le assms(3) in linarith)
  have "unat (a - base) + unat (push_bit 12 (of_nat k) :: 'w word) < 2 ^ LENGTH('w)"
    using off le assms(3) by linarith
  then have "unat ((a - base) + push_bit 12 (of_nat k)) = unat (a - base) + k * 4096"
    using off unat_add_lem [THEN iffD1] by metis
  moreover have "page_no a k - base = (a - base) + push_bit 12 (of_nat k)" by simp
  ultimately have "unat (page_no a k - base) = unat (a - base) + k * 4096" by metis
  then show ?thesis using le by (simp add: in_img_def)
qed

lemma in_img_mono: "in_img base n a w \<Longrightarrow> w' \<le> w \<Longrightarrow> in_img base n a w'"
  by (simp add: in_img_def)

lemma distinct_pages_append:
  "distinct_pages same (xs @ ys) \<longleftrightarrow>
     distinct_pages same xs \<and> distinct_pages same ys \<and> (\<forall>x\<in>set xs. \<forall>y\<in>set ys. \<not> same x y)"
  by (induction xs) auto

lemma distinct_pages_upt:
  "distinct_pages same (map f [a..<b]) \<Longrightarrow> a \<le> i \<Longrightarrow> i < j \<Longrightarrow> j < b \<Longrightarrow> \<not> same (f i) (f j)"
proof (induction "b - a" arbitrary: a)
  case (Suc r)
  then have "[a..<b] = a # [Suc a..<b]" by (intro upt_conv_Cons) simp
  then have "\<forall>k\<in>{Suc a..<b}. \<not> same (f a) (f k)" "distinct_pages same (map f [Suc a..<b])" using Suc.prems(1) by auto
  then show ?case using Suc.hyps(1) [of "Suc a"] Suc.hyps(2) Suc.prems(2-4) by (cases "i = a") auto
qed simp

section \<open>Reading the image\<close>

context elf_memory
begin

definition img_pages :: "('w word \<Rightarrow> u8) \<Rightarrow> 'w word \<Rightarrow> nat \<Rightarrow> ('w word \<times> (nat \<Rightarrow> u8)) set" where
  "img_pages img base n = img_page img base base ` {..<n}"

lemma covers_Suc: "covers K a d (Suc n) \<Longrightarrow> covers K (a + 1) (\<lambda>b. d (Suc b)) n"
proof -
  assume c: "covers K a d (Suc n)"
  have "a + of_nat (Suc b) = a + 1 + of_nat b" for b by (simp add: add.assoc)
  then show ?thesis using c unfolding covers_def by (metis Suc_mono)
qed

lemma covers_mono: "covers K a d n \<Longrightarrow> k \<le> n \<Longrightarrow> covers K a d k"
  by (auto simp: covers_def)

lemma covers_img:
  assumes "in_img base n a w" "n * 4096 < 2 ^ LENGTH('w)" "img_pages img base n \<subseteq> K"
  shows "covers K a (\<lambda>b. img (a + of_nat b)) w"
  unfolding covers_def
proof (intro allI impI)
  fix b assume "b < w"
  then obtain j i where ji: "j < n" "i < 4096" "a + of_nat b = page_no base j + of_nat i"
    using in_img_offset [OF assms(1,2)] by blast
  then have "img_page img base base j \<in> K" using assms(3) by (auto simp: img_pages_def)
  then show "\<exists>x\<in>K. \<exists>i<4096. a + of_nat b = fst x + of_nat i \<and> img (a + of_nat b) = snd x i"
    using ji by (intro bexI [of _ "img_page img base base j"] exI [of _ i]) (simp_all add: img_page_def)
qed

lemma rdn_img:
  "displays s K \<Longrightarrow> covers K a (\<lambda>b. img (a + of_nat b)) w \<Longrightarrow> rdn (vm_rd m) w s a = Some (imgn w img a)"
proof (induction w arbitrary: a)
  case 0
  then show ?case by simp
next
  case (Suc w)
  have "vm_rd m s (a + of_nat 0) = Some (img (a + of_nat 0))"
    by (rule covers_rd [OF Suc.prems, of 0]) simp
  moreover have "covers K (a + 1) (\<lambda>b. img (a + 1 + of_nat b)) w"
    using covers_Suc [OF Suc.prems(2)] by (simp add: add.assoc)
  ultimately show ?case using Suc.IH [OF Suc.prems(1)] by simp
qed

lemma vstrcmp_img:
  "displays s K \<Longrightarrow> covers K a (\<lambda>b. img (a + of_nat b)) (Suc (length xs)) \<Longrightarrow>
   \<exists>c. vstrcmp m a xs s = Some c \<and> (c = 0 \<longleftrightarrow> str_at img a xs)"
proof (induction xs arbitrary: a)
  case Nil
  have "vm_rd m s (a + of_nat 0) = Some (img (a + of_nat 0))"
    by (rule covers_rd [OF Nil, of 0]) simp
  then show ?case by (simp add: word_uint_eq_iff)
next
  case (Cons x xs)
  have r: "vm_rd m s (a + of_nat 0) = Some (img (a + of_nat 0))"
    by (rule covers_rd [OF Cons.prems, of 0]) simp
  have "covers K (a + 1) (\<lambda>b. img (a + 1 + of_nat b)) (Suc (length xs))"
    using covers_Suc [OF Cons.prems(2) [unfolded length_Cons]] by (simp add: add.assoc)
  then show ?case using r Cons.IH [OF Cons.prems(1)] by (simp add: word_uint_eq_iff)
qed

text \<open>The image is shown in \<open>K\<close>.\<close>

definition img_shown :: "'s \<Rightarrow> ('w word \<times> (nat \<Rightarrow> u8)) set \<Rightarrow> ('w word \<Rightarrow> u8) \<Rightarrow> 'w word \<Rightarrow> nat \<Rightarrow> bool" where
  "img_shown s K img base n \<longleftrightarrow> displays s K \<and> img_pages img base n \<subseteq> K \<and> n * 4096 < 2 ^ LENGTH('w)"

lemma fetch_img:
  "img_shown s K img base n \<Longrightarrow> in_img base n (b + of_nat (fst f)) (snd f) \<Longrightarrow> fetch m f b s = Some (fld f img b)"
  unfolding img_shown_def fetch_def fld_def by (intro rdn_img [of s K] covers_img) auto

lemma in_header: fixes base :: "'w word" shows "0 < n \<Longrightarrow> fst f + snd f \<le> 4096 \<Longrightarrow> in_img base n (base + of_nat (fst f)) (snd f)"
proof -
  assume n: "0 < n" and f: "fst f + snd f \<le> 4096"
  have "unat (of_nat (fst f) :: 'w word) \<le> fst f" by (simp add: unsigned_of_nat take_bit_nat_less_eq_self)
  then have "unat (base + of_nat (fst f) - base) + snd f \<le> fst f + snd f" by simp
  also have "\<dots> \<le> n * 4096" using n f by (cases n) auto
  finally show ?thesis by (simp only: in_img_def)
qed

lemma elf_magic_img:
  "img_shown s K img base n \<Longrightarrow> 0 < n \<Longrightarrow> \<forall>x\<in>set xs. fst x < 4096 \<and> img (base + of_nat (fst x)) = snd x \<Longrightarrow>
   elf_magic m xs base s = Some True"
proof (induction xs)
  case (Cons x xs)
  have "in_img base n (base + of_nat (fst x)) 1"
    using in_header [of n "(fst x, 1)" base] Cons.prems(2,3) by simp
  then have "covers K (base + of_nat (fst x)) (\<lambda>b. img (base + of_nat (fst x) + of_nat b)) 1"
    using Cons.prems(1) by (intro covers_img) (auto simp: img_shown_def)
  then have "vm_rd m s (base + of_nat (fst x)) = Some (snd x)"
    using covers_rd [of s K "base + of_nat (fst x)" _ 1 0] Cons.prems(1,3) by (simp add: img_shown_def)
  then show ?case using Cons by simp
qed simp

section \<open>The loops\<close>

text \<open>What is shown, the translations \<open>F\<close> that are to stay as they are, and the pages still to
  come: distinct, usable and with room for them.\<close>

definition stay :: "'s \<Rightarrow> ('w word \<times> 'w word) set \<Rightarrow> bool" where
  "stay s F \<longleftrightarrow> (\<forall>x\<in>F. usable s (fst x) \<and> lookup (fst x) s = snd x)"

definition pending :: "'s \<Rightarrow> ('w word \<times> (nat \<Rightarrow> u8)) set \<Rightarrow> ('w word \<times> 'w word) set \<Rightarrow> 'w word list \<Rightarrow> bool" where
  "pending s K F vs \<longleftrightarrow> displays s K \<and> stay s F \<and> room (length vs) s \<and> distinct_pages same_page vs \<and>
     (\<forall>v\<in>set vs. take_bit 12 v = 0 \<and> usable s v \<and> (\<forall>x\<in>K. \<not> same_page v (fst x)) \<and> (\<forall>x\<in>F. \<not> same_page v (fst x)))"

lemma stay_step:
  "stay s F \<Longrightarrow> \<forall>x\<in>F. \<not> same_page v (fst x) \<Longrightarrow>
   (\<And>w. usable s w \<Longrightarrow> usable s' w \<and> (\<not> same_page v w \<longrightarrow> lookup w s' = lookup w s)) \<Longrightarrow> stay s' F"
  unfolding stay_def by metis

lemma pending_step:
  assumes p: "pending s K F (v # vs)" and s': "displays s' (insert (v, c) K)" "room (length vs) s'"
    and fr: "\<And>w. usable s w \<Longrightarrow> usable s' w \<and> (\<not> same_page v w \<longrightarrow> lookup w s' = lookup w s)"
  shows "pending s' (insert (v, c) K) F vs"
proof -
  have "stay s' F" using p by (intro stay_step [OF _ _ fr, of F]) (auto simp: pending_def)
  moreover have "\<forall>u\<in>set vs. \<not> same_page u v" using p same_sym unfolding pending_def by auto
  moreover have "\<forall>u\<in>set vs. usable s' u" using p fr unfolding pending_def by auto
  ultimately show ?thesis using p s' unfolding pending_def by auto
qed

lemma pending_map:
  assumes p: "pending s K F (v # vs)" and t: "translation v v = v" "v \<noteq> - 1"
    and c: "\<forall>b<4096. data s (v + of_nat b) \<and> bytes s (v + of_nat b) = c b"
  obtains s' where "vm_map_pa m v v s = Some s'" "pending s' (insert (v, c) K) F vs"
    "\<And>a. data s a \<Longrightarrow> data s' a \<and> bytes s' a = bytes s a"
proof -
  have pre: "displays s K" "room (Suc (length vs)) s" "usable s v" "take_bit 12 v = 0"
    "\<forall>x\<in>K. \<not> same_page v (fst x)"
    using p by (auto simp: pending_def)
  obtain s' where s': "vm_map_pa m v v s = Some s'" "displays s' (insert (v, c) K)" "room (length vs) s'"
    "\<And>w. usable s w \<Longrightarrow> usable s' w \<and> (\<not> same_page v w \<longrightarrow> lookup w s' = lookup w s)"
    "\<And>a. data s a \<Longrightarrow> data s' a \<and> bytes s' a = bytes s a"
    by (rule map_shown [OF pre(1-4) t c pre(5)]) blast
  show ?thesis using that [OF s'(1) pending_step [OF p s'(2-4)] s'(5)] by blast
qed

lemma pending_load:
  assumes p: "pending s K F (v # vs)" and cov: "covers K src d 4096"
  obtains s1 s2 where "vm_map_va m v s = Some s1" "vmemcpy m 4096 v src s1 = Some s2"
    "pending s2 (insert (v, d) K) F vs"
proof -
  have pre: "displays s K" "room (Suc (length vs)) s" "usable s v" "take_bit 12 v = 0"
    "\<forall>x\<in>K. \<not> same_page v (fst x)"
    using p by (auto simp: pending_def)
  obtain s1 s2 where s2: "vm_map_va m v s = Some s1" "vmemcpy m 4096 v src s1 = Some s2"
    "displays s2 (insert (v, d) K)" "room (length vs) s2"
    "\<And>w. usable s w \<Longrightarrow> usable s2 w \<and> (\<not> same_page v w \<longrightarrow> lookup w s2 = lookup w s)"
    by (rule load_page [OF pre cov]) blast
  show ?thesis using that [OF s2(1,2) pending_step [OF p s2(3-5)]] by blast
qed

lemma pending_shown:
  "pending s K F vs \<Longrightarrow> img_pages img base n \<subseteq> K \<Longrightarrow> n * 4096 < 2 ^ LENGTH('w) \<Longrightarrow> img_shown s K img base n"
  by (simp add: pending_def img_shown_def)

lemma map_image_shows:
  assumes n: "n = (unat len + 4095) div 4096" "n * 4096 < 2 ^ LENGTH('w)"
    and t: "\<forall>j<n. translation (page_no base j) (page_no base j) = page_no base j \<and> page_no base j \<noteq> - 1"
  shows "k \<le> n \<Longrightarrow> pending s K F (map (page_no base) [k..<n] @ vs) \<Longrightarrow>
    \<forall>j<n. \<forall>b<4096. data s (page_no base j + of_nat b) \<and> bytes s (page_no base j + of_nat b) = img (page_no base j + of_nat b) \<Longrightarrow>
    \<exists>s'. map_image m base len (push_bit 12 (of_nat k)) s = Some s' \<and>
      pending s' (img_page img base base ` {k..<n} \<union> K) F vs"
proof (induction "n - k" arbitrary: k s K)
  case 0
  then have "\<not> push_bit 12 (of_nat k) < len" using page_loop [OF n 0(2)] by simp
  then show ?case using 0 by (subst map_image.simps) simp
next
  case (Suc r)
  then have k: "k < n" and r: "r = n - Suc k" by simp_all
  have ks: "[k..<n] = k # [Suc k..<n]" using k by (rule upt_conv_Cons)
  have less: "push_bit 12 (of_nat k) < len" using page_loop [OF n Suc.prems(1)] k by simp
  have p: "pending s K F (page_no base k # (map (page_no base) [Suc k..<n] @ vs))" using Suc.prems(2) by (simp add: ks)
  obtain s1 where s1: "vm_map_pa m (page_no base k) (page_no base k) s = Some s1"
    "pending s1 (insert (page_no base k, \<lambda>b. img (page_no base k + of_nat b)) K) F (map (page_no base) [Suc k..<n] @ vs)"
    "\<And>a. data s a \<Longrightarrow> data s1 a \<and> bytes s1 a = bytes s a"
    by (rule pending_map [OF p, of "\<lambda>b. img (page_no base k + of_nat b)"]) (use t k Suc.prems(3) in blast)+
  have "\<forall>j<n. \<forall>b<4096. data s1 (page_no base j + of_nat b) \<and> bytes s1 (page_no base j + of_nat b) = img (page_no base j + of_nat b)"
    using Suc.prems(3) s1(3) by metis
  then obtain s' where s': "map_image m base len (push_bit 12 (of_nat (Suc k))) s1 = Some s'"
    "pending s' (img_page img base base ` {Suc k..<n} \<union> insert (page_no base k, \<lambda>b. img (page_no base k + of_nat b)) K) F vs"
    using Suc.hyps(1) [OF r _ s1(2)] k by auto
  have "img_page img base base ` {Suc k..<n} \<union> insert (page_no base k, \<lambda>b. img (page_no base k + of_nat b)) K =
      img_page img base base ` {k..<n} \<union> K"
    unfolding atLeastLessThan_insert [OF k] by (simp add: img_page_def [of img base base k])
  moreover have "map_image m base len (push_bit 12 (of_nat k)) s = Some s'"
    using s'(1) s1(1) by (subst map_image.simps) (simp only: less if_True page_no_off Option.bind.simps)
  ultimately show ?case using s'(2) by metis
qed

text \<open>One section, from page \<open>k\<close> on.\<close>

lemma load_pages_shows:
  fixes hdr :: "'w word"
  assumes size: "in_img base n (hdr + of_nat (fst (sh_size L))) (snd (sh_size L))"
    and p: "p = (unat (ucast (fld (sh_size L) img hdr) :: 'w word) + 4095) div 4096" "p * 4096 < 2 ^ LENGTH('w)"
    and src: "in_img base n src (p * 4096)" and n: "n * 4096 < 2 ^ LENGTH('w)"
  shows "k \<le> p \<Longrightarrow> pending s K F (map (page_no va) [k..<p] @ vs) \<Longrightarrow> img_pages img base n \<subseteq> K \<Longrightarrow>
    \<exists>s'. load_pages m L hdr src va (push_bit 12 (of_nat k)) s = Some s' \<and>
      pending s' (img_page img va src ` {k..<p} \<union> K) F vs"
proof (induction "p - k" arbitrary: k s K)
  case 0
  then have "\<not> push_bit 12 (of_nat k) < (ucast (fld (sh_size L) img hdr) :: 'w word)" using page_loop [OF p 0(2)] by simp
  moreover have "fetch m (sh_size L) hdr s = Some (fld (sh_size L) img hdr)"
    by (rule fetch_img [OF pending_shown [OF 0(3,4) n] size])
  ultimately show ?case using 0 by (subst load_pages.simps) simp
next
  case (Suc r)
  then have k: "k < p" and r: "r = p - Suc k" by simp_all
  have ks: "[k..<p] = k # [Suc k..<p]" using k by (rule upt_conv_Cons)
  have less: "push_bit 12 (of_nat k) < (ucast (fld (sh_size L) img hdr) :: 'w word)"
    using page_loop [OF p Suc.prems(1)] k by simp
  have f: "fetch m (sh_size L) hdr s = Some (fld (sh_size L) img hdr)"
    by (rule fetch_img [OF pending_shown [OF Suc.prems(2,3) n] size])
  have pd: "pending s K F (page_no va k # (map (page_no va) [Suc k..<p] @ vs))" using Suc.prems(2) by (simp add: ks)
  have "in_img base n (page_no src k) 4096" by (rule in_img_page [OF src k n])
  then have cov: "covers K (page_no src k) (\<lambda>b. img (page_no src k + of_nat b)) 4096"
    by (rule covers_img [OF _ n Suc.prems(3)])
  obtain s1 s2 where s2: "vm_map_va m (page_no va k) s = Some s1" "vmemcpy m 4096 (page_no va k) (page_no src k) s1 = Some s2"
    "pending s2 (insert (page_no va k, \<lambda>b. img (page_no src k + of_nat b)) K) F (map (page_no va) [Suc k..<p] @ vs)"
    by (rule pending_load [OF pd cov]) blast
  obtain s' where s': "load_pages m L hdr src va (push_bit 12 (of_nat (Suc k))) s2 = Some s'"
    "pending s' (img_page img va src ` {Suc k..<p} \<union> insert (page_no va k, \<lambda>b. img (page_no src k + of_nat b)) K) F vs"
    using Suc.hyps(1) [OF r _ s2(3)] Suc.prems(3) k by auto
  have "img_page img va src ` {Suc k..<p} \<union> insert (page_no va k, \<lambda>b. img (page_no src k + of_nat b)) K =
      img_page img va src ` {k..<p} \<union> K"
    unfolding atLeastLessThan_insert [OF k] by (simp add: img_page_def [of img va src k])
  moreover have "load_pages m L hdr src va (push_bit 12 (of_nat k)) s = Some s'"
    using s'(1) s2(1,2) by (subst load_pages.simps) (simp only: f less if_True page_no_off Option.bind.simps)
  ultimately show ?case using s'(2) by metis
qed

text \<open>All sections from \<open>i\<close> on.\<close>

definition sec_shown :: "elf_h \<Rightarrow> ('w word \<Rightarrow> u8) \<Rightarrow> 'w word \<Rightarrow> nat \<Rightarrow> ('w word \<times> (nat \<Rightarrow> u8)) set" where
  "sec_shown L img base i =
     (if loaded L img base i then img_page img (sec_va L img base i) (sec_src L img base i) ` {0..<sec_pages L img base i}
      else {})"

lemma load_section_shows:
  assumes ok: "elf_ok L base n img" and i: "i < elf_shnum L img base"
    and p: "pending s K F (sec_addrs L img base i @ vs)" and im: "img_pages img base n \<subseteq> K"
  shows "\<exists>s'. load_section m L base (sec_src L img base (elf_strx L img base)) (elf_hdr L img base i) s = Some s' \<and>
    pending s' (sec_shown L img base i \<union> K) F vs"
proof -
  note n = elf_okD(3) [OF ok]
  have sh: "img_shown s K img base n" by (rule pending_shown [OF p im n])
  have K: "displays s K" using p by (simp add: pending_def)
  have f: "fetch m f (elf_hdr L img base i) s = Some (fld f img (elf_hdr L img base i))"
    if "f \<in> set [sh_name L, sh_addr L, sh_offset L, sh_size L]" for f
    by (rule fetch_img [OF sh elf_ok_sec(1) [OF ok i that]])
  have cov: "covers K (sec_name L img base i) (\<lambda>b. img (sec_name L img base i + of_nat b)) 6"
    by (rule covers_img [OF elf_ok_sec(2) [OF ok i] n im])
  have len: "Suc (length dot_text) = 6" "Suc (length dot_data) = 6" by (simp_all add: dot_text_def dot_data_def)
  obtain c d where c: "vstrcmp m (sec_name L img base i) dot_text s = Some c"
      "c = 0 \<longleftrightarrow> str_at img (sec_name L img base i) dot_text"
    and d: "vstrcmp m (sec_name L img base i) dot_data s = Some d"
      "d = 0 \<longleftrightarrow> str_at img (sec_name L img base i) dot_data"
    using vstrcmp_img [OF K cov [folded len(1)]] vstrcmp_img [OF K cov [folded len(2)]] by blast
  show ?thesis
  proof (cases "loaded L img base i")
    case False
    then have "load_section m L base (sec_src L img base (elf_strx L img base)) (elf_hdr L img base i) s = Some s"
      using f c d by (simp add: load_section_def loaded_def sec_name_def [symmetric])
    then show ?thesis using p False by (simp add: sec_shown_def sec_addrs_def)
  next
    case True
    note src = elf_ok_sec(4,5) [OF ok i True] elf_ok_sec(1) [OF ok i, of "sh_size L", simplified]
    have "sec_pages L img base i * 4096 \<le> unat (sec_size L img base i) + 4095"
      unfolding sec_pages_def by (rule div_times_less_eq_dividend)
    then have p1: "sec_pages L img base i * 4096 < 2 ^ LENGTH('w)" using src(1) by linarith
    have "pending s K F (map (page_no (sec_va L img base i)) [0..<sec_pages L img base i] @ vs)"
      using p True by (simp add: sec_addrs_def)
    then obtain s' where s': "load_pages m L (elf_hdr L img base i) (sec_src L img base i) (sec_va L img base i)
        (push_bit 12 (of_nat 0)) s = Some s'"
      "pending s' (img_page img (sec_va L img base i) (sec_src L img base i) ` {0..<sec_pages L img base i} \<union> K) F vs"
      using load_pages_shows [OF src(3) _ p1 src(2) n, where k = 0 and s = s and K = K and F = F and va = "sec_va L img base i" and vs = vs] im
      by (auto simp: sec_pages_def sec_size_def)
    have "load_section m L base (sec_src L img base (elf_strx L img base)) (elf_hdr L img base i) s = Some s'"
      using f c d True s'(1)
      by (auto simp: load_section_def loaded_def sec_name_def [symmetric] sec_src_def [of L img base i] sec_va_def Let_def)
    then show ?thesis using s'(2) True by (simp add: sec_shown_def)
  qed
qed

lemma load_sections_shows:
  assumes ok: "elf_ok L base n img"
  shows "i \<le> elf_shnum L img base \<Longrightarrow>
    pending s K F (concat (map (sec_addrs L img base) [i..<elf_shnum L img base])) \<Longrightarrow> img_pages img base n \<subseteq> K \<Longrightarrow>
    \<exists>s'. load_sections m L base (base + ucast (fld (eh_shoff L) img base)) (sec_src L img base (elf_strx L img base)) i s = Some s' \<and>
      pending s' ((\<Union>j\<in>{i..<elf_shnum L img base}. sec_shown L img base j) \<union> K) F []"
proof (induction "elf_shnum L img base - i" arbitrary: i s K)
  case 0
  note n = elf_okD(3,2) [OF ok] elf_okD(6) [OF ok, of "eh_shnum L", simplified]
  have "fetch m (eh_shnum L) base s = Some (fld (eh_shnum L) img base)"
    by (rule fetch_img [OF pending_shown [OF 0(3,4) n(1)] in_header [OF n(2,3)]])
  moreover have "\<not> i < unat (fld (eh_shnum L) img base)" using 0 by (simp add: elf_shnum_def)
  ultimately show ?case using 0 by (subst load_sections.simps) simp
next
  case (Suc r)
  then have i: "i < elf_shnum L img base" and r: "r = elf_shnum L img base - Suc i" by simp_all
  note n = elf_okD(3,2) [OF ok] elf_okD(6) [OF ok, of "eh_shnum L", simplified]
  have f: "fetch m (eh_shnum L) base s = Some (fld (eh_shnum L) img base)"
    by (rule fetch_img [OF pending_shown [OF Suc.prems(2,3) n(1)] in_header [OF n(2,3)]])
  have less: "i < unat (fld (eh_shnum L) img base)" using i by (simp add: elf_shnum_def)
  have "[i..<elf_shnum L img base] = i # [Suc i..<elf_shnum L img base]" using i by (rule upt_conv_Cons)
  then have pd: "pending s K F (sec_addrs L img base i @ concat (map (sec_addrs L img base) [Suc i..<elf_shnum L img base]))"
    using Suc.prems(2) by simp
  obtain s1 where s1: "load_section m L base (sec_src L img base (elf_strx L img base)) (elf_hdr L img base i) s = Some s1"
    "pending s1 (sec_shown L img base i \<union> K) F (concat (map (sec_addrs L img base) [Suc i..<elf_shnum L img base]))"
    using load_section_shows [OF ok i pd Suc.prems(3)] by blast
  obtain s' where s': "load_sections m L base (base + ucast (fld (eh_shoff L) img base)) (sec_src L img base (elf_strx L img base)) (Suc i) s1 = Some s'"
    "pending s' ((\<Union>j\<in>{Suc i..<elf_shnum L img base}. sec_shown L img base j) \<union> (sec_shown L img base i \<union> K)) F []"
    using Suc.hyps(1) [OF r _ s1(2)] Suc.prems(3) i by auto
  have "(\<Union>j\<in>{Suc i..<elf_shnum L img base}. sec_shown L img base j) \<union> (sec_shown L img base i \<union> K) =
      (\<Union>j\<in>{i..<elf_shnum L img base}. sec_shown L img base j) \<union> K"
    unfolding atLeastLessThan_insert [OF i] by auto
  moreover have "load_sections m L base (base + ucast (fld (eh_shoff L) img base)) (sec_src L img base (elf_strx L img base)) i s = Some s'"
    using s'(1) s1(1) by (subst load_sections.simps) (simp only: f less if_True Option.bind.simps flip: elf_hdr_def)
  ultimately show ?case using s'(2) by metis
qed

text \<open>The image is removed page by page.\<close>

lemma unmap_image_removes:
  assumes n: "n = (unat len + 4095) div 4096" "n * 4096 < 2 ^ LENGTH('w)"
    and far: "\<forall>j<n. \<forall>x\<in>S. \<not> same_page (page_no base j) (fst x)"
      "\<forall>i<n. \<forall>j<n. i \<noteq> j \<longrightarrow> \<not> same_page (page_no base i) (page_no base j)"
    and farF: "\<forall>j<n. \<forall>x\<in>F. \<not> same_page (page_no base j) (fst x)"
  shows "k \<le> n \<Longrightarrow> displays s (img_page img base base ` {k..<n} \<union> S) \<Longrightarrow> room 0 s \<Longrightarrow> stay s F \<Longrightarrow>
    \<forall>j<k. usable s (page_no base j) \<and> lookup (page_no base j) s = - 1 \<Longrightarrow>
    \<exists>s'. unmap_image m base len (push_bit 12 (of_nat k)) s = Some s' \<and> displays s' S \<and> stay s' F \<and>
      (\<forall>j<n. lookup (page_no base j) s' = - 1)"
proof (induction "n - k" arbitrary: k s)
  case 0
  then have "\<not> push_bit 12 (of_nat k) < len" using page_loop [OF n 0(2)] by simp
  then show ?case using 0 by (subst unmap_image.simps) simp
next
  case (Suc r)
  then have k: "k < n" and r: "r = n - Suc k" by simp_all
  have less: "push_bit 12 (of_nat k) < len" using page_loop [OF n Suc.prems(1)] k by simp
  let ?K = "img_page img base base ` {Suc k..<n} \<union> S"
  have K: "displays s (insert (page_no base k, \<lambda>b. img (page_no base k + of_nat b)) ?K)"
    using Suc.prems(2) unfolding atLeastLessThan_insert [OF k] by (simp add: img_page_def [of img base base k])
  then have us: "usable s (page_no base k)" by (auto simp: displays_def holds_def)
  have "\<forall>x\<in>?K. \<not> same_page (page_no base k) (fst x)"
  proof (intro ballI)
    fix x assume "x \<in> ?K"
    then consider j where "Suc k \<le> j" "j < n" "x = img_page img base base j" | "x \<in> S" by auto
    then show "\<not> same_page (page_no base k) (fst x)"
    proof cases
      case 1
      then have "k \<noteq> j" by simp
      then show ?thesis using far(2) k 1 unfolding img_page_def by (metis fst_conv)
    next
      case 2
      then show ?thesis using far(1) k by blast
    qed
  qed
  then obtain s1 where s1: "vm_unmap_va m (page_no base k) s = (0, s1)" "displays s1 ?K" "room 0 s1"
    "lookup (page_no base k) s1 = - 1"
    "\<And>w. usable s w \<Longrightarrow> usable s1 w \<and> (\<not> same_page (page_no base k) w \<longrightarrow> lookup w s1 = lookup w s)"
    using unmap_shown [OF K Suc.prems(3)] by blast
  have "\<forall>j<Suc k. usable s1 (page_no base j) \<and> lookup (page_no base j) s1 = - 1"
  proof (intro allI impI)
    fix j assume "j < Suc k"
    then consider "j = k" | "j < k" by linarith
    then show "usable s1 (page_no base j) \<and> lookup (page_no base j) s1 = - 1"
    proof cases
      case 1
      then show ?thesis using s1(4,5) us by blast
    next
      case 2
      then have "\<not> same_page (page_no base k) (page_no base j)" using far(2) k by simp
      then show ?thesis using Suc.prems(5) 2 s1(5) by metis
    qed
  qed
  moreover have "stay s1 F" using farF k by (intro stay_step [OF Suc.prems(4) _ s1(5)]) blast
  ultimately obtain s' where s': "unmap_image m base len (push_bit 12 (of_nat (Suc k))) s1 = Some s'" "displays s' S"
    "stay s' F" "\<forall>j<n. lookup (page_no base j) s' = - 1"
    using Suc.hyps(1) [OF r _ s1(2,3)] k by auto
  have "unmap_image m base len (push_bit 12 (of_nat k)) s = Some s'"
    using s'(1) s1(1) by (subst unmap_image.simps) (simp only: less if_True page_no_off snd_conv)
  then show ?case using s'(2-4) by blast
qed

text \<open>The whole of the loader up to the removal of the image.\<close>

lemma pending_start:
  assumes "inv s" "room (length vs) s" "distinct_pages same_page vs" "\<forall>v\<in>set vs. take_bit 12 v = 0 \<and> usable s v"
    "stay s F" "\<forall>v\<in>set vs. \<forall>x\<in>F. \<not> same_page v (fst x)"
  shows "pending s {} F vs"
  using assms by (simp add: pending_def displays_def)

lemma elf_addrs_aligned: "elf_ok L base n img \<Longrightarrow> v \<in> set (elf_addrs L img base) \<Longrightarrow> take_bit 12 v = 0"
  using elf_ok_sec(3) page_no_aligned by (fastforce simp: elf_addrs_def sec_addrs_def split: if_splits)

lemma load_image_shows:
  assumes ok: "elf_ok L base n img" and inv: "inv s"
    and room: "room (n + length (elf_addrs L img base)) s"
    and dist: "distinct_pages same_page (map (page_no base) [0..<n] @ elf_addrs L img base)"
    and us: "\<forall>v\<in>set (map (page_no base) [0..<n] @ elf_addrs L img base). usable s v"
    and t: "\<forall>j<n. translation (page_no base j) (page_no base j) = page_no base j \<and> page_no base j \<noteq> - 1"
    and img: "\<forall>j<n. \<forall>b<4096. data s (page_no base j + of_nat b) \<and> bytes s (page_no base j + of_nat b) = img (page_no base j + of_nat b)"
    and F: "stay s F" "\<forall>v\<in>set (map (page_no base) [0..<n] @ elf_addrs L img base). \<forall>x\<in>F. \<not> same_page v (fst x)"
  shows "\<exists>s'. load_image m L exit base s = Some s' \<and> inv s' \<and> stay s' F \<and> (\<forall>j<n. lookup (page_no base j) s' = - 1) \<and>
    (\<forall>i<elf_shnum L img base. loaded L img base i \<longrightarrow> (\<forall>k < sec_pages L img base i. \<forall>b<4096.
       vm_rd m s' (page_no (sec_va L img base i) k + of_nat b) = Some (img (page_no (sec_src L img base i) k + of_nat b))))"
proof -
  note n = elf_okD(2,3,4) [OF ok] and al = elf_okD(1) [OF ok]
  let ?va = "elf_addrs L img base" and ?len = "img_len L img base" and ?pg = "\<lambda>j. img_page img base base j"
  have ns: "[0..<n] = 0 # [1..<n]" using n(1) by (simp add: upt_conv_Cons)
  have "pending s {} F (map (page_no base) [0..<n] @ ?va)"
    using inv room dist us page_no_aligned [OF al] elf_addrs_aligned [OF ok] by (intro pending_start [OF _ _ _ _ F]) auto
  then have p0: "pending s {} F (page_no base 0 # (map (page_no base) [1..<n] @ ?va))" by (simp add: ns)
  obtain s1 where s1: "vm_map_pa m (page_no base 0) (page_no base 0) s = Some s1"
    "pending s1 {(page_no base 0, \<lambda>b. img (page_no base 0 + of_nat b))} F (map (page_no base) [1..<n] @ ?va)"
    "\<And>a. data s a \<Longrightarrow> data s1 a \<and> bytes s1 a = bytes s a"
    by (rule pending_map [OF p0, of "\<lambda>b. img (page_no base 0 + of_nat b)"]) (use t n(1) img in blast)+
  have im1: "img_pages img base 1 \<subseteq> {?pg 0}" by (auto simp: img_pages_def)
  have p1: "pending s1 {?pg 0} F (map (page_no base) [1..<n] @ ?va)" using s1(2) by (simp add: img_page_def)
  have "(1 :: nat) * 4096 < 2 ^ LENGTH('w)" using n(1,2) by (cases n) auto
  then have sh1: "img_shown s1 {?pg 0} img base 1" by (rule pending_shown [OF p1 im1])
  have f1: "fetch m f base s1 = Some (fld f img base)"
    if "f \<in> set [eh_machine L, eh_shoff L, eh_shentsize L, eh_shnum L, eh_shstrndx L, eh_entry L]" for f
    by (rule fetch_img [OF sh1 in_header [OF _ elf_okD(6) [OF ok that]]]) simp
  have check: "elf_check m L exit base s1 = Some s1"
    using elf_magic_img [OF sh1 _ elf_okD(5) [OF ok]] f1 [of "eh_machine L"] elf_okD(7) [OF ok]
    by (auto simp: elf_check_def)
  have len: "elf_len m L base s1 = Some ?len" using f1 by (simp add: elf_len_def img_len_def)
  have img1: "\<forall>j<n. \<forall>b<4096. data s1 (page_no base j + of_nat b) \<and> bytes s1 (page_no base j + of_nat b) = img (page_no base j + of_nat b)"
    using img s1(3) by metis
  obtain s3 where s3: "map_image m base ?len (push_bit 12 (of_nat 1)) s1 = Some s3"
    "pending s3 (?pg ` {1..<n} \<union> {?pg 0}) F ?va"
    using map_image_shows [OF n(3,2) t _ p1 img1] n(1) by auto
  have all: "?pg ` {1..<n} \<union> {?pg 0} = img_pages img base n"
    unfolding img_pages_def lessThan_atLeast0 atLeastLessThan_insert [OF n(1)] by simp
  have p3: "pending s3 (img_pages img base n) F ?va" using s3(2) by (simp only: all)
  have sh3: "img_shown s3 (img_pages img base n) img base n" by (rule pending_shown [OF p3 subset_refl n(2)])
  have f3: "fetch m f base s3 = Some (fld f img base)"
    if "f \<in> set [eh_machine L, eh_shoff L, eh_shentsize L, eh_shnum L, eh_shstrndx L, eh_entry L]" for f
    by (rule fetch_img [OF sh3 in_header [OF n(1) elf_okD(6) [OF ok that]]])
  have str: "fetch m (sh_offset L) (elf_hdr L img base (elf_strx L img base)) s3 =
      Some (fld (sh_offset L) img (elf_hdr L img base (elf_strx L img base)))"
    by (rule fetch_img [OF sh3 elf_okD(8) [OF ok]])
  let ?S = "\<Union>j\<in>{0..<elf_shnum L img base}. sec_shown L img base j"
  obtain s4 where s4: "load_sections m L base (base + ucast (fld (eh_shoff L) img base))
      (sec_src L img base (elf_strx L img base)) 0 s3 = Some s4" "pending s4 (?S \<union> img_pages img base n) F []"
    using load_sections_shows [OF ok, of 0 s3 "img_pages img base n"] p3 by (auto simp: elf_addrs_def)
  have sec: "fst x \<in> set ?va" if "x \<in> ?S" for x
  proof -
    from that obtain i where i: "i < elf_shnum L img base" "x \<in> sec_shown L img base i" by auto
    then have "fst x \<in> set (sec_addrs L img base i)"
      by (auto simp: sec_shown_def sec_addrs_def img_page_def split: if_splits)
    then show ?thesis using i(1) unfolding elf_addrs_def by auto
  qed
  have far: "\<forall>j<n. \<forall>x\<in>?S. \<not> same_page (page_no base j) (fst x)"
    using dist sec unfolding distinct_pages_append by (simp del: UN_iff)
  have far2: "\<forall>i<n. \<forall>j<n. i \<noteq> j \<longrightarrow> \<not> same_page (page_no base i) (page_no base j)"
  proof (intro allI impI)
    fix i j assume ij: "i < n" "j < n" "i \<noteq> j"
    have d: "distinct_pages same_page (map (page_no base) [0..<n])" using dist unfolding distinct_pages_append by blast
    show "\<not> same_page (page_no base i) (page_no base j)"
      using distinct_pages_upt [OF d, of i j] distinct_pages_upt [OF d, of j i] ij same_sym
      by (cases "i < j") auto
  qed
  have farF: "\<forall>j<n. \<forall>x\<in>F. \<not> same_page (page_no base j) (fst x)" using F(2) by auto
  have d4: "displays s4 (?pg ` {0..<n} \<union> ?S)" "room 0 s4" "stay s4 F"
    using s4(2) by (simp_all add: pending_def img_pages_def lessThan_atLeast0 Un_commute)
  obtain s5 where s5: "unmap_image m base ?len (push_bit 12 (of_nat 0)) s4 = Some s5" "displays s5 ?S"
    "stay s5 F" "\<forall>j<n. lookup (page_no base j) s5 = - 1"
    using unmap_image_removes [OF n(3,2) far far2 farF _ d4] by auto
  have "load_image m L exit base s = Some s5"
  proof -
    have off: "push_bit 12 (of_nat 0) = (0 :: 'w word)" "push_bit 12 (of_nat 1) = (0x1000 :: 'w word)"
      "base + 0 = base" by (simp_all add: push_bit_eq_mult)
    have f: "fetch m (eh_shoff L) base s3 = Some (fld (eh_shoff L) img base)"
      "fetch m (eh_shstrndx L) base s3 = Some (fld (eh_shstrndx L) img base)" by (rule f3; simp)+
    show ?thesis
      unfolding load_image_def
      by (simp only: s1(1) [unfolded off] check len s3(1) [unfolded off] f str [unfolded elf_hdr_def elf_strx_def]
          s4(1) [unfolded sec_src_def elf_hdr_def elf_strx_def] s5(1) [unfolded off] Let_def Option.bind.simps)
  qed
  moreover have "vm_rd m s5 (page_no (sec_va L img base i) k + of_nat b) = Some (img (page_no (sec_src L img base i) k + of_nat b))"
    if "i < elf_shnum L img base" "loaded L img base i" "k < sec_pages L img base i" "b < 4096" for i k b
  proof -
    have "img_page img (sec_va L img base i) (sec_src L img base i) k \<in> ?S"
      using that by (auto simp: sec_shown_def intro!: bexI [of _ i])
    then have "holds s5 (page_no (sec_va L img base i) k) (\<lambda>b. img (page_no (sec_src L img base i) k + of_nat b))"
      using displaysD(2) [OF s5(2)] by (force simp: img_page_def)
    then show ?thesis by (rule holds_rd [OF displaysD(1) [OF s5(2)] _ that(4)])
  qed
  ultimately show ?thesis using displaysD(1) [OF s5(2)] s5(3,4) by blast
qed

section \<open>The loader\<close>

text \<open>A well-formed image whose pages and sections can be mapped: its bytes lie in memory no
  table and no free page owns, the pages are distinct and there is room for them.\<close>

definition ready :: "elf_h \<Rightarrow> 'w word \<Rightarrow> nat \<Rightarrow> ('w word \<Rightarrow> u8) \<Rightarrow> 's \<Rightarrow> bool" where
  "ready L base n img s \<longleftrightarrow>
     elf_ok L base n img \<and> inv s \<and> room (n + length (elf_addrs L img base)) s \<and>
     distinct_pages same_page (elf_image_pages L base n img) \<and> (\<forall>v\<in>set (elf_image_pages L base n img). usable s v) \<and>
     (\<forall>j<n. translation (page_no base j) (page_no base j) = page_no base j \<and> page_no base j \<noteq> - 1) \<and>
     (\<forall>j<n. \<forall>b<4096. data s (page_no base j + of_nat b) \<and> bytes s (page_no base j + of_nat b) = img (page_no base j + of_nat b))"

definition others_stay :: "'w word list \<Rightarrow> 's \<Rightarrow> 's \<Rightarrow> bool" where
  "others_stay vs s s' \<longleftrightarrow>
     (\<forall>w. usable s w \<and> (\<forall>v\<in>set vs. \<not> same_page v w) \<longrightarrow> usable s' w \<and> lookup w s' = lookup w s)"

lemma load_image_ready:
  assumes "ready L base n img s"
  shows "\<exists>s'. load_image m L exit base s = Some s' \<and> inv s' \<and> (\<forall>j<n. lookup (page_no base j) s' = - 1) \<and>
    sections_at (vm_rd m s') L base img \<and> others_stay (elf_image_pages L base n img) s s'"
proof -
  let ?F = "{(w, lookup w s) |w. usable s w \<and> (\<forall>v\<in>set (elf_image_pages L base n img). \<not> same_page v w)}"
  have F: "stay s ?F" "\<forall>v\<in>set (map (page_no base) [0..<n] @ elf_addrs L img base). \<forall>x\<in>?F. \<not> same_page v (fst x)"
    by (auto simp: stay_def elf_image_pages_def)
  have "others_stay (elf_image_pages L base n img) s s'" if "stay s' ?F" for s'
    using that unfolding stay_def others_stay_def by force
  then show ?thesis
    using load_image_shows [of L base n img s ?F exit, OF _ _ _ _ _ _ _ F] assms
    unfolding ready_def sections_at_def elf_image_pages_def by blast
qed

lemma load_el0_late:
  "load_image m L exit base s = Some s' \<Longrightarrow>
   load_el0 m L exit late ret base s = map_option (\<lambda>e. (ret, e, s')) (late_entry L late base s')"
  by (cases "rdn late (snd (eh_entry L)) s' (base + of_nat (fst (eh_entry L)))") (simp_all add: load_el0_def late_entry_def)

lemma load_el0_ready:
  assumes "ready L base n img s"
  shows "\<exists>s'. (\<forall>late ret. load_el0 m L exit late ret base s = map_option (\<lambda>e. (ret, e, s')) (late_entry L late base s')) \<and>
    inv s' \<and> (\<forall>j<n. lookup (page_no base j) s' = - 1) \<and> sections_at (vm_rd m s') L base img \<and>
    others_stay (elf_image_pages L base n img) s s'"
  using load_image_ready [OF assms, of exit] load_el0_late by metis

lemma cached_entry:
  assumes "ready L base n img s" "header_cached base img late"
  shows "late_entry L late base s' = Some (ucast (fld (eh_entry L) img base))"
proof -
  have "fst (eh_entry L) + snd (eh_entry L) \<le> 4096"
    using assms(1) elf_okD(6) [of L base n img "eh_entry L"] by (simp add: ready_def)
  then show ?thesis using entry_read [OF assms(2)] by (simp add: late_entry_def)
qed

text \<open>The entry point, read through the tables after the image has been unmapped.\<close>

lemma load_el0_gone:
  assumes "ready L base n img s" "0 < snd (eh_entry L)"
  shows "load_el0 m L exit (vm_rd m) ret base s = None"
proof -
  obtain s' where s': "load_image m L exit base s = Some s'" "inv s'" "\<forall>j<n. lookup (page_no base j) s' = - 1"
    using load_image_ready [OF assms(1)] by blast
  have ok: "take_bit 12 base = 0" "0 < n" "fst (eh_entry L) + snd (eh_entry L) \<le> 4096"
    using assms(1) elf_okD(1,2) [of L base n img] elf_okD(6) [of L base n img "eh_entry L"] by (simp_all add: ready_def)
  have "lookup base s' = - 1" using s'(3) ok(2) by force
  then have "vm_rd m s' (base + of_nat (fst (eh_entry L))) = None"
    using rd [OF s'(2) ok(1), of "fst (eh_entry L)"] ok(3) assms(2) by simp
  then have "rdn (vm_rd m) (snd (eh_entry L)) s' (base + of_nat (fst (eh_entry L))) = None"
    using assms(2) by (cases "snd (eh_entry L)") simp_all
  then show ?thesis using s'(1) by (simp add: load_el0_def)
qed

end

end
