(* ===== verification/PageTable32Proofs.thy ===== *)
theory PageTable32Proofs
  imports PageTable32
begin

text \<open>
  The contract of \<open>PageTable32\<close>.  \<open>tab32 s va\<close> is the second-level table the first level
  points to, \<open>xlat32 s va\<close> the translation the hardware makes of the tables, -1 where it
  faults.  The code's own \<open>mem_lookup_pa32\<close> agrees with it on mapped pages, and tells
  nothing about pages that are not.  Like the code, \<open>tab32\<close> takes every descriptor that is not 0 in bits
  1:0 for a table; the code writes no sections, where the hardware would go on differently.  \<open>pt32_wf\<close> and \<open>pt32_ident\<close> are the invariant, after
  the model of \<open>PageTableProofs\<close>.
\<close>

section \<open>Walks\<close>

definition tab32 :: "mm32 \<Rightarrow> u32 \<Rightarrow> u32 option" where
  "tab32 s va = (let d = rd32 s (l1_pte (mem_pgtbl_base32 s) va)
     in if d AND 0x3 = 0 then None else Some d)"

definition page_addr32 :: "u32 \<Rightarrow> u32 \<Rightarrow> u32" where
  "page_addr32 pa va = (pa AND 0xFFFFF000) OR (va AND 0xFFF)"

definition xlat32 :: "mm32 \<Rightarrow> u32 \<Rightarrow> u32" where
  "xlat32 s va = (case tab32 s va of None \<Rightarrow> - 1
     | Some d \<Rightarrow> (let e = rd32 s (l2_pte d va) in if e AND PTE32_PAGE = 0 then - 1 else page_addr32 e va))"

lemma lookup_mapped:
  "tab32 s va = Some d \<Longrightarrow> rd32 s (l2_pte d va) AND PTE32_PAGE \<noteq> 0 \<Longrightarrow> mem_lookup_pa32 va s = xlat32 s va"
  by (auto simp: mem_lookup_pa32_def xlat32_def tab32_def page_addr32_def Let_def split: if_splits)

definition in_pool32 :: "u32 \<Rightarrow> mm32 \<Rightarrow> u32 \<Rightarrow> bool" where
  "in_pool32 lim s p \<longleftrightarrow> p AND 0xFFF = 0 \<and> mem_next_pa32 s \<le> p \<and> p < lim"

text \<open>The pages the code reads descriptors from: the four of the first level and those that
  hold a second-level table.\<close>

definition is_table32 :: "mm32 \<Rightarrow> u32 \<Rightarrow> bool" where
  "is_table32 s t \<longleftrightarrow> t AND 0xFFF = 0 \<and>
     (drop_bit 14 t = drop_bit 14 (mem_pgtbl_base32 s) \<or>
      (\<exists>va d. tab32 s va = Some d \<and> drop_bit 12 t = drop_bit 12 d))"

definition pt32_wf :: "u32 \<Rightarrow> mm32 \<Rightarrow> bool" where
  "pt32_wf lim s \<longleftrightarrow> mem_next_pa32 s AND 0xFFF = 0 \<and>
     (\<forall>v u d e. tab32 s v = Some d \<longrightarrow> tab32 s u = Some e \<longrightarrow> drop_bit 10 d = drop_bit 10 e \<longrightarrow> same_mb v u) \<and>
     (\<forall>v d. tab32 s v = Some d \<longrightarrow> drop_bit 14 d \<noteq> drop_bit 14 (mem_pgtbl_base32 s)) \<and>
     (\<forall>p. in_pool32 lim s p \<longrightarrow> \<not> is_table32 s p \<and> tab32 s p \<noteq> None \<and> (\<forall>v. rd32 s (l2_pte p v) = 0))"

definition pt32_ident :: "mm32 \<Rightarrow> bool" where
  "pt32_ident s \<longleftrightarrow> (\<forall>t. is_table32 s t \<longrightarrow> xlat32 s t = t)"

definition usable32 :: "u32 \<Rightarrow> mm32 \<Rightarrow> u32 \<Rightarrow> bool" where
  "usable32 lim s v \<longleftrightarrow> (\<forall>t. is_table32 s t \<or> in_pool32 lim s t \<longrightarrow> \<not> same_page32 t v)"

definition room32 :: "u32 \<Rightarrow> nat \<Rightarrow> mm32 \<Rightarrow> bool" where
  "room32 lim n s \<longleftrightarrow> unat (mem_next_pa32 s) + n * 4096 \<le> unat lim"

lemma same_page_sym: "same_page32 v u \<Longrightarrow> same_page32 u v"
  by (simp add: same_page32_def)

lemma same_mb_tab: "same_mb v u \<Longrightarrow> tab32 s v = tab32 s u"
  using l1_pte_eq [of "mem_pgtbl_base32 s" v u] by (simp add: tab32_def)

lemma same_page_l2: "same_page32 v u \<Longrightarrow> l2_pte d v = l2_pte d u"
  by (simp add: l2_pte_eq same_page_mb)

lemma page_base:
  fixes t u :: u32
  assumes "t AND 0xFFF = 0" "u AND 0xFFF = 0" "same_page32 t u" shows "t = u"
proof (rule bit_word_eqI)
  fix n assume "n < LENGTH(32)"
  have "\<not> bit t n \<and> \<not> bit u n" if "n < 12"
    using assms(1,2) that unfolding masks32 by (auto simp: bit_eq_iff [of _ 0] bit_simps dest!: spec [of _ n])
  then show "bit t n = bit u n"
    using assms(3) by (cases "n < 12") (auto simp: same_page32_def drop_bit_eq_iff not_less)
qed

section \<open>Bytes outside the tables\<close>

lemma drop_mono: "drop_bit n x = drop_bit n y \<Longrightarrow> n \<le> m \<Longrightarrow> drop_bit m x = drop_bit m y" for x y :: u32
  by (auto simp: drop_bit_eq_iff)

lemma page_start: "(t AND NOT 0xFFF) AND 0xFFF = (0 :: u32)" "same_page32 (t AND NOT 0xFFF) t"
proof -
  show "(t AND NOT 0xFFF) AND 0xFFF = (0 :: u32)" by (simp add: and.assoc)
  show "same_page32 (t AND NOT 0xFFF) t"
    unfolding masks32 same_page32_def by (rule bit_word_eqI) (auto simp: bit_simps dest: bit_imp_le_length)
qed

lemma pte_byte:
  assumes "aligned 2 (ucast p)" "\<not> same_page32 p a" "i < 4"
  shows "(ucast a :: u64) \<noteq> ucast p + of_nat i"
proof
  assume e: "(ucast a :: u64) = ucast p + of_nat i"
  have i: "drop_bit 2 (of_nat i :: u64) = 0" using drop_bit_of_nat_small [of i 2] assms(3) by simp
  have d: "drop_bit 2 (ucast a :: u64) = drop_bit 2 (ucast p)"
    unfolding e aligned_add_or [OF assms(1) i] by (rule drop_bit_aligned_or [OF i])
  have "bit p k = bit a k" if k: "12 \<le> k" for k
  proof -
    obtain j where "k = 2 + j" using k le_Suc_ex [of 2 k] by auto
    then have "bit (ucast a :: u64) k = bit (ucast p :: u64) k"
      using arg_cong [OF d, of "\<lambda>w. bit w j"] by (simp add: bit_drop_bit_eq)
    then show ?thesis by (auto simp: bit_ucast_iff dest: bit_imp_le_length)
  qed
  then show False using assms(2) by (simp add: same_page32_def drop_bit_eq_iff)
qed

lemma wr32_bytes:
  "aligned 2 (ucast p) \<Longrightarrow> \<not> same_page32 p a \<Longrightarrow> mem_bytes32 (wr32 p v s) (ucast a) = mem_bytes32 s (ucast a)"
  using pte_byte [of p a] by (auto simp: wr32_def store32_def intro!: storen_other)

lemma usable_l1: "usable32 lim s a \<Longrightarrow> \<not> same_page32 (l1_pte (mem_pgtbl_base32 s) v) a"
proof -
  assume us: "usable32 lim s a"
  let ?p = "l1_pte (mem_pgtbl_base32 s) v"
  have "drop_bit 14 (?p AND NOT 0xFFF) = drop_bit 14 ?p"
    by (rule drop_mono [OF page_start(2) [unfolded same_page32_def]]) simp
  moreover have "drop_bit 14 ?p = drop_bit 14 (mem_pgtbl_base32 s)"
    by (auto simp: drop_bit_eq_iff bit_l1_pte dest: bit_imp_le_length)
  ultimately have "is_table32 s (?p AND NOT 0xFFF)" using page_start(1) by (simp add: is_table32_def)
  then have "\<not> same_page32 (?p AND NOT 0xFFF) a" using us by (simp add: usable32_def)
  then show ?thesis using page_start(2) [of ?p] by (simp add: same_page32_def)
qed

lemma page_l2: "same_page32 d (l2_pte d u)"
  by (auto simp: same_page32_def drop_bit_eq_iff bit_l2_pte dest: bit_imp_le_length)

lemma usable_l2: "usable32 lim s a \<Longrightarrow> tab32 s v = Some d \<Longrightarrow> \<not> same_page32 (l2_pte d u) a"
proof -
  assume us: "usable32 lim s a" and t: "tab32 s v = Some d"
  have "is_table32 s (d AND NOT 0xFFF)"
    using page_start [of d] t by (auto simp: is_table32_def same_page32_def)
  then have "\<not> same_page32 (d AND NOT 0xFFF) a" using us by (simp add: usable32_def)
  then show ?thesis using page_start(2) [of d] page_l2 [of d u] by (simp add: same_page32_def)
qed

lemmas l1_bytes = wr32_bytes [OF pte_aligned(1) usable_l1]
lemmas l2_bytes = wr32_bytes [OF pte_aligned(2) usable_l2]

section \<open>Writing a page descriptor\<close>

lemma leaf32:
  fixes e v x :: u32
  assumes wf: "pt32_wf lim s" and t: "tab32 s va = Some d"
  defines "s' \<equiv> wr32 (l2_pte d va) e s"
  shows "tab32 s' v = tab32 s v"
    and "\<not> same_page32 va v \<Longrightarrow> xlat32 s' v = xlat32 s v"
    and "same_page32 va v \<Longrightarrow> xlat32 s' v = (if e AND PTE32_PAGE = 0 then - 1 else page_addr32 e v)"
    and "pt32_wf lim s'" and "is_table32 s' x = is_table32 s x"
    and "in_pool32 lim s' x = in_pool32 lim s x"
proof -
  have l1: "l1_pte (mem_pgtbl_base32 s) v \<noteq> l2_pte d va" for v
    using wf t l1_l2_pte by (auto simp: pt32_wf_def)
  then show tab: "tab32 s' v = tab32 s v" for v
    by (simp add: tab32_def s'_def rd32_pte)
  have slot: "l2_pte f v = l2_pte d va \<longleftrightarrow> same_page32 va v" if "tab32 s v = Some f" for v f
  proof
    assume "l2_pte f v = l2_pte d va"
    then have e: "drop_bit 10 f = drop_bit 10 d" "\<forall>k. 12 \<le> k \<and> k < 20 \<longrightarrow> bit v k = bit va k"
      by (auto simp: l2_pte_eq)
    then have "same_mb va v" using wf t that unfolding pt32_wf_def by metis
    then show "same_page32 va v" using e(2) by (simp add: same_page_mb)
  next
    assume p: "same_page32 va v"
    then have "same_mb va v" by (simp add: same_page_mb)
    then have "f = d" using same_mb_tab [of va v s] t that by simp
    then show "l2_pte f v = l2_pte d va" using same_page_l2 [OF p, of d] by simp
  qed
  have rd: "rd32 s' (l2_pte f v) = (if same_page32 va v then e else rd32 s (l2_pte f v))"
    if "tab32 s v = Some f" for v f
    using slot [OF that] by (auto simp: s'_def rd32_pte)
  show "\<not> same_page32 va v \<Longrightarrow> xlat32 s' v = xlat32 s v"
    using rd by (simp add: xlat32_def tab split: option.splits)
  show "same_page32 va v \<Longrightarrow> xlat32 s' v = (if e AND PTE32_PAGE = 0 then - 1 else page_addr32 e v)"
  proof -
    assume p: "same_page32 va v"
    then have "tab32 s v = Some d" using same_mb_tab [of va v s] t by (simp add: same_page_mb)
    then show ?thesis using rd [of v d] p by (simp add: xlat32_def tab Let_def)
  qed
  show ist: "is_table32 s' x = is_table32 s x" for x
    by (simp add: is_table32_def tab) (simp add: s'_def)
  show pool: "in_pool32 lim s' x = in_pool32 lim s x" for x
    by (simp add: in_pool32_def s'_def)
  have zero: "rd32 s' (l2_pte p v) = 0" if "in_pool32 lim s p" for p v
  proof -
    have "drop_bit 12 p \<noteq> drop_bit 12 d"
      using wf t that by (auto simp: pt32_wf_def is_table32_def in_pool32_def)
    then have "l2_pte p v \<noteq> l2_pte d va" using drop_mono [of 10 p d 12] by (auto simp: l2_pte_eq)
    then show ?thesis using wf that by (auto simp: s'_def rd32_pte pt32_wf_def)
  qed
  show "pt32_wf lim s'"
    using wf zero unfolding pt32_wf_def tab ist pool by (simp add: s'_def)
qed


definition leaf_desc32 :: "u32 \<Rightarrow> u32 \<Rightarrow> u32" where
  "leaf_desc32 pa attr = (pa AND NOT 0xFFF) OR (PTE32_PAGE OR PTE32_ACCESS OR attr)"

lemma set_page32_leaf:
  "tab32 s va = Some d \<Longrightarrow> set_page32 (l1_pte (mem_pgtbl_base32 s) va) va pa attr s
     = wr32 (l2_pte d va) (leaf_desc32 pa attr) s"
  by (auto simp: set_page32_def tab32_def leaf_desc32_def Let_def split: if_splits)

lemma map_mapped:
  "tab32 s va = Some d \<Longrightarrow> mem_map_pa32 va pa ta attr s = Some (wr32 (l2_pte d va) (leaf_desc32 pa attr) s)"
  using set_page32_leaf [of s va d pa attr]
  by (subst mem_map_pa32.simps) (auto simp: tab32_def Let_def split: if_splits)

lemma leaf_desc32_page: "leaf_desc32 pa attr AND PTE32_PAGE \<noteq> 0"
proof -
  have "bit (leaf_desc32 pa attr AND PTE32_PAGE) 1"
    by (simp add: leaf_desc32_def PTE32_PAGE_def bit_simps)
  then show ?thesis by auto
qed

lemma page_addr32_leaf: "attr AND 0xFFFFF000 = 0 \<Longrightarrow> page_addr32 (leaf_desc32 pa attr) v = page_addr32 pa v"
  unfolding page_addr32_def leaf_desc32_def PTE32_PAGE_def PTE32_ACCESS_def
  by (simp add: bit.conj_disj_distrib2 and.assoc)

lemma page_addr32_self: "p AND 0xFFF = 0 \<Longrightarrow> page_addr32 p p = p"
proof -
  assume "p AND 0xFFF = 0"
  moreover have "(p AND 0xFFFFF000) OR (p AND 0xFFF) = p"
    unfolding masks32 by (rule bit_word_eqI) (auto simp: bit_simps)
  ultimately show ?thesis by (simp add: page_addr32_def)
qed

section \<open>A page taken from the pool\<close>

lemma alloc32:
  assumes wf: "pt32_wf lim s" and room: "room32 lim 1 s"
  defines "np \<equiv> mem_next_pa32 s"
  defines "s1 \<equiv> s\<lparr>mem_next_pa32 := np + 0x1000\<rparr>"
  shows "in_pool32 lim s np" "\<not> in_pool32 lim s1 np" "in_pool32 lim s1 p \<Longrightarrow> in_pool32 lim s p"
    "tab32 s1 = tab32 s" "xlat32 s1 = xlat32 s" "is_table32 s1 = is_table32 s" "rd32 s1 = rd32 s"
    "pt32_wf lim s1" "unat (mem_next_pa32 s1) = unat np + 4096"
proof -
  have lt: "unat np + 4096 < 2 ^ 32"
    using room unsigned_less [of lim, where ?'a = nat] by (simp add: room32_def np_def)
  show nx: "unat (mem_next_pa32 s1) = unat np + 4096"
    using lt by (simp add: s1_def unat_word_ariths)
  show rd: "rd32 s1 = rd32 s" by (rule ext) (simp add: rd32_def s1_def)
  have base: "mem_pgtbl_base32 s1 = mem_pgtbl_base32 s" by (simp add: s1_def)
  show tab: "tab32 s1 = tab32 s" by (rule ext) (simp only: tab32_def rd base)
  show "xlat32 s1 = xlat32 s" by (rule ext) (simp only: xlat32_def rd tab)
  show ist: "is_table32 s1 = is_table32 s" by (rule ext) (simp only: is_table32_def tab base)
  show "in_pool32 lim s np"
    using wf room by (simp add: in_pool32_def pt32_wf_def np_def room32_def word_less_nat_alt)
  show "\<not> in_pool32 lim s1 np" using nx by (simp add: in_pool32_def word_le_nat_alt)
  show pool: "in_pool32 lim s1 p \<Longrightarrow> in_pool32 lim s p" for p
    using nx by (simp add: in_pool32_def word_le_nat_alt np_def)
  have "take_bit 12 np = 0"
    using wf unfolding pt32_wf_def np_def masks32 by (simp add: take_bit_eq_mask)
  then have "2 ^ 12 dvd np + 0x1000" by (simp add: take_bit_eq_0_iff)
  moreover have "mem_next_pa32 s1 = np + 0x1000" by (simp add: s1_def)
  ultimately have "mem_next_pa32 s1 AND 0xFFF = 0"
    unfolding masks32 take_bit_eq_mask [symmetric] by (simp only: take_bit_eq_0_iff)
  then show "pt32_wf lim s1"
    using wf pool unfolding pt32_wf_def tab ist rd base by simp
qed

lemma pool_slot32:
  assumes "tab32 s va = Some d" "\<not> is_table32 s p" "p AND 0xFFF = 0"
  shows "l2_pte p v \<noteq> l2_pte d va"
proof -
  have "drop_bit 12 p \<noteq> drop_bit 12 d" using assms by (auto simp: is_table32_def)
  then show ?thesis using drop_mono [of 10 p d 12] by (auto simp: l2_pte_eq)
qed

section \<open>Linking a table\<close>

text \<open>What a mapping keeps: the invariant, the globals, the usable addresses and the bytes of
  pages that are no table and not free.\<close>

definition pt32_inv :: "u32 \<Rightarrow> mm32 \<Rightarrow> bool" where
  "pt32_inv lim s \<longleftrightarrow> pt32_wf lim s \<and> pt32_ident s \<and> mem_heap_pool32 s AND 0xFFF = 0"

definition keeps32 :: "u32 \<Rightarrow> mm32 \<Rightarrow> mm32 \<Rightarrow> bool" where
  "keeps32 lim s s' \<longleftrightarrow> pt32_inv lim s' \<and> mem_heap_pool32 s' = mem_heap_pool32 s \<and>
     (\<forall>v. usable32 lim s v \<longrightarrow> usable32 lim s' v \<and> mem_bytes32 s' (ucast v) = mem_bytes32 s (ucast v))"

lemma usable32_mono:
  "(\<And>t. is_table32 s' t \<or> in_pool32 lim s' t \<Longrightarrow> is_table32 s t \<or> in_pool32 lim s t) \<Longrightarrow>
   usable32 lim s v \<Longrightarrow> usable32 lim s' v"
  by (auto simp: usable32_def)

lemma leaf32_keeps:
  assumes inv: "pt32_inv lim s" and t: "tab32 s va = Some d" and us: "usable32 lim s va"
  shows "keeps32 lim s (wr32 (l2_pte d va) e s)"
proof -
  have wf: "pt32_wf lim s" and id: "pt32_ident s" and al: "mem_heap_pool32 s AND 0xFFF = 0"
    using inv by (auto simp: pt32_inv_def)
  note lf = leaf32 [OF wf t, where e = e]
  have "xlat32 (wr32 (l2_pte d va) e s) t = t" if "is_table32 s t" for t
  proof -
    have "\<not> same_page32 va t" using us that same_page_sym by (auto simp: usable32_def)
    then show ?thesis using lf(2) [of t] id that by (simp add: pt32_ident_def)
  qed
  then have "pt32_ident (wr32 (l2_pte d va) e s)" by (simp add: pt32_ident_def lf(5))
  then show ?thesis using lf(4) al l2_bytes [OF _ t, of lim]
    by (auto simp: keeps32_def pt32_inv_def usable32_def lf(5,6))
qed

lemma table_desc32:
  assumes "ta AND 0xFFFFFC00 = 0"
  shows "(np OR (PTE32_TABLE OR ta)) AND 3 \<noteq> 0"
    "drop_bit 10 (np OR (PTE32_TABLE OR ta)) = drop_bit 10 np"
proof -
  have "bit ((np OR (PTE32_TABLE OR ta)) AND 3) 0" by (simp add: PTE32_TABLE_def bit_simps)
  then show "(np OR (PTE32_TABLE OR ta)) AND 3 \<noteq> 0" by auto
  have "\<not> bit ta k" if "10 \<le> k" for k
  proof
    assume "bit ta k"
    then have "bit (ta AND NOT (mask 10)) k"
      using that bit_imp_le_length [of ta k] by (simp add: bit_simps)
    then show False using assms unfolding masks32 by simp
  qed
  then show "drop_bit 10 (np OR (PTE32_TABLE OR ta)) = drop_bit 10 np"
    unfolding drop_bit_eq_iff by (auto simp: PTE32_TABLE_def bit_or_iff bit_1_iff)
qed

lemma link32:
  assumes inv: "pt32_inv lim s" and room: "room32 lim 1 s" and none: "tab32 s va = None"
    and ta: "ta AND 0xFFFFFC00 = 0"
  obtains s4 d where
    "\<And>pa at. mem_map_pa32 va pa ta at s = Some (wr32 (l2_pte d va) (leaf_desc32 pa at) s4)"
    "tab32 s4 va = Some d" "keeps32 lim s s4" "\<And>v. usable32 lim s v \<Longrightarrow> xlat32 s4 v = xlat32 s v"
    "unat (mem_next_pa32 s4) = unat (mem_next_pa32 s) + 4096"
proof -
  have wf: "pt32_wf lim s" and id: "pt32_ident s" and al: "mem_heap_pool32 s AND 0xFFF = 0"
    using inv by (auto simp: pt32_inv_def)
  define np where "np = mem_next_pa32 s"
  define s1 where "s1 = s\<lparr>mem_next_pa32 := np + 0x1000\<rparr>"
  note ap = alloc32 [OF wf room, folded np_def, folded s1_def]
  have np: "\<not> is_table32 s np" "tab32 s np \<noteq> None" "\<And>v. rd32 s (l2_pte np v) = 0" "np AND 0xFFF = 0"
    using ap(1) wf by (auto simp: pt32_wf_def in_pool32_def)
  then obtain f where f: "tab32 s1 np = Some f" using ap(4) by auto
  define s2 where "s2 = wr32 (l2_pte f np) (leaf_desc32 np PTE32_USER_RW) s1"
  have map2: "mem_map_pa32 np np 0 PTE32_USER_RW s1 = Some s2"
    using map_mapped [OF f] by (simp add: s2_def)
  note lf = leaf32 [OF ap(8) f, where e = "leaf_desc32 np PTE32_USER_RW", folded s2_def]
  define pte where "pte = l1_pte (mem_pgtbl_base32 s) va"
  define d where "d = np OR (PTE32_TABLE OR ta)"
  define s4 where "s4 = wr32 pte d s2"
  have base: "mem_pgtbl_base32 s2 = mem_pgtbl_base32 s" "mem_pgtbl_base32 s4 = mem_pgtbl_base32 s"
    by (simp_all add: s2_def s1_def s4_def)
  have tab2: "tab32 s2 v = tab32 s v" for v using lf(1) ap(4) by simp
  have ist2: "is_table32 s2 x = is_table32 s x" for x using lf(5) ap(6) by simp
  have dv: "d AND 3 \<noteq> 0" and d10: "drop_bit 10 d = drop_bit 10 np"
    using table_desc32 [OF ta, of np] by (simp_all add: d_def)
  have d14: "drop_bit 14 d \<noteq> drop_bit 14 (mem_pgtbl_base32 s)"
    using np(1,4) drop_mono [OF d10, of 14] by (auto simp: is_table32_def)
  have tab4: "tab32 s4 v = (if same_mb va v then Some d else tab32 s v)" for v
    using dv l1_pte_eq [of "mem_pgtbl_base32 s" v va] tab2 [of v]
    by (auto simp: tab32_def base s4_def pte_def rd32_pte same_mb_def)
  have rd4: "rd32 s4 (l2_pte g v) = rd32 s2 (l2_pte g v)" if "drop_bit 14 g \<noteq> drop_bit 14 (mem_pgtbl_base32 s)" for g v
    using l1_l2_pte [OF that, of va v] by (simp add: s4_def pte_def rd32_pte)
  have zero2: "rd32 s2 (l2_pte np v) = 0" for v
    using pool_slot32 [of s1 np f np v] f np ap(6,7) by (simp add: s2_def rd32_pte)
  have l2d: "l2_pte d v = l2_pte np v" for v using d10 by (simp add: l2_pte_eq)
  have none_mb: "tab32 s v = None" if "same_mb va v" for v
    using none same_mb_tab [OF that] by simp
  have x4: "xlat32 s4 v = xlat32 s2 v" for v
  proof (cases "same_mb va v")
    case True
    then show ?thesis using rd4 [OF d14, of v] zero2 [of v] none_mb [OF True]
      by (simp add: xlat32_def tab4 tab2 l2d)
  next
    case False
    have "rd32 s4 (l2_pte g v) = rd32 s2 (l2_pte g v)" if "tab32 s v = Some g" for g
      using wf that by (intro rd4) (auto simp: pt32_wf_def)
    then show ?thesis using False by (simp add: xlat32_def tab4 tab2 split: option.splits)
  qed
  have x2np: "xlat32 s2 np = np"
    using lf(3) [of np] leaf_desc32_page page_addr32_leaf [of PTE32_USER_RW np np] page_addr32_self [OF np(4)]
    by (simp add: same_page32_def PTE32_USER_RW_def)
  have x2: "xlat32 s2 v = xlat32 s v" if "\<not> same_page32 np v" for v
    using lf(2) [OF that] ap(5) by simp
  have ist4: "is_table32 s4 x \<longleftrightarrow> is_table32 s x \<or> x = np" for x
  proof
    assume "is_table32 s4 x"
    then consider "is_table32 s x" | "x AND 0xFFF = 0" "drop_bit 12 x = drop_bit 12 d"
      by (auto simp: is_table32_def base tab4 split: if_splits)
    then show "is_table32 s x \<or> x = np"
      using page_base [of x np] np(4) drop_mono [OF d10, of 12] by cases (auto simp: same_page32_def)
  next
    assume "is_table32 s x \<or> x = np"
    moreover have "is_table32 s4 np"
    proof -
      have "tab32 s4 va = Some d" by (simp add: tab4 same_mb_def)
      then show ?thesis using np(4) drop_mono [OF d10, of 12] unfolding is_table32_def
        by (intro conjI disjI2 exI [of _ va] exI [of _ d]) simp_all
    qed
    moreover have "is_table32 s x \<Longrightarrow> is_table32 s4 x"
      using none_mb by (fastforce simp: is_table32_def base tab4)
    ultimately show "is_table32 s4 x" by blast
  qed
  have pool: "\<not> is_table32 s4 p \<and> tab32 s4 p \<noteq> None \<and> (\<forall>v. rd32 s4 (l2_pte p v) = 0)"
    if p4: "in_pool32 lim s4 p" for p
  proof -
    have p2: "in_pool32 lim s2 p" using p4 by (simp add: s4_def in_pool32_def)
    then have p: "in_pool32 lim s p" "p \<noteq> np" using lf(6) ap(2,3) by auto
    then have t: "\<not> is_table32 s p" "tab32 s p \<noteq> None" "p AND 0xFFF = 0"
      using wf by (auto simp: pt32_wf_def in_pool32_def)
    then have "drop_bit 14 p \<noteq> drop_bit 14 (mem_pgtbl_base32 s)" by (auto simp: is_table32_def)
    then show ?thesis using rd4 lf(4) p2 t p(2) ist4 by (auto simp: pt32_wf_def tab4)
  qed
  have wf4: "pt32_wf lim s4"
    unfolding pt32_wf_def
  proof (intro conjI allI impI)
    show "mem_next_pa32 s4 AND 0xFFF = 0" using lf(4) by (simp add: pt32_wf_def s4_def)
    fix v u g e
    assume h: "tab32 s4 v = Some g" "tab32 s4 u = Some e" "drop_bit 10 g = drop_bit 10 e"
    have far: "drop_bit 10 g' \<noteq> drop_bit 10 d" if "tab32 s w = Some g'" for w g'
    proof
      assume "drop_bit 10 g' = drop_bit 10 d"
      then have "drop_bit 12 np = drop_bit 12 g'"
        using drop_mono [of 10 g' d 12] drop_mono [OF d10, of 12] by simp
      then show False using np(1,4) that unfolding is_table32_def by blast
    qed
    show "same_mb v u"
      using h far wf unfolding tab4 pt32_wf_def same_mb_def by (metis option.inject)
  next
    fix v g
    assume "tab32 s4 v = Some g"
    then show "drop_bit 14 g \<noteq> drop_bit 14 (mem_pgtbl_base32 s4)"
      using wf d14 by (auto simp: tab4 base pt32_wf_def split: if_splits)
  qed (use pool in blast)+
  have id4: "pt32_ident s4"
    unfolding pt32_ident_def x4 ist4
    using x2np x2 id page_base [of np] np(1,4) by (metis is_table32_def pt32_ident_def)
  have pool4: "in_pool32 lim s4 x \<Longrightarrow> in_pool32 lim s x" for x
    using lf(6) ap(3) by (simp add: s4_def in_pool32_def)
  have bytes4: "mem_bytes32 s4 (ucast v) = mem_bytes32 s (ucast v)" if "usable32 lim s v" for v
  proof -
    have "\<not> same_page32 pte v" "\<not> same_page32 (l2_pte f np) v"
      using usable_l1 [OF that] usable_l2 [OF that] f ap(4) by (simp_all add: pte_def)
    then show ?thesis
      using wr32_bytes [OF pte_aligned(1), of "mem_pgtbl_base32 s" va v d s2, folded pte_def]
        wr32_bytes [OF pte_aligned(2), of f np v _ s1]
      by (simp add: s4_def s2_def s1_def)
  qed
  have "keeps32 lim s s4"
    using wf4 id4 al ist4 pool4 ap(1) bytes4 unfolding keeps32_def pt32_inv_def
    by (auto intro: usable32_mono simp: s4_def s2_def s1_def)
  moreover have "xlat32 s4 v = xlat32 s v" if "usable32 lim s v" for v
    using that ap(1) x4 x2 by (auto simp: usable32_def)
  moreover have "tab32 s4 va = Some d" by (simp add: tab4 same_mb_def)
  moreover have "unat (mem_next_pa32 s4) = unat (mem_next_pa32 s) + 4096"
    using ap(9) by (simp add: s4_def s2_def np_def)
  moreover have "mem_map_pa32 va pa ta at s = Some (wr32 (l2_pte d va) (leaf_desc32 pa at) s4)" for pa at
  proof -
    have "rd32 s pte AND 3 = 0" using none by (auto simp: tab32_def pte_def Let_def split: if_splits)
    then have "mem_map_pa32 va pa ta at s = Some (set_page32 pte va pa at s4)"
      using map2 by (subst mem_map_pa32.simps)
        (simp add: mem_allocate_pa32_def pte_def [symmetric] np_def [symmetric] s1_def [symmetric] s4_def d_def)
    then show ?thesis
      using set_page32_leaf [of s4 va d pa at] by (simp add: base pte_def tab4 same_mb_def)
  qed
  ultimately show ?thesis using that by blast
qed


section \<open>The operations\<close>

lemma room32_le: "room32 lim (m + n) s \<Longrightarrow> unat (mem_next_pa32 s') \<le> unat (mem_next_pa32 s) + m * 4096 \<Longrightarrow> room32 lim n s'"
  by (simp add: room32_def algebra_simps)

lemma keeps32_trans: "keeps32 lim s s1 \<Longrightarrow> keeps32 lim s1 s2 \<Longrightarrow> keeps32 lim s s2"
  by (auto simp: keeps32_def)

lemma mem_map_pa32_maps:
  assumes inv: "pt32_inv lim s" and room: "room32 lim 1 s" and us: "usable32 lim s va"
    and ta: "ta AND 0xFFFFFC00 = 0" and at: "at AND 0xFFFFF000 = 0"
  shows "\<exists>s'. mem_map_pa32 va pa ta at s = Some s' \<and> keeps32 lim s s' \<and>
     xlat32 s' va = page_addr32 pa va \<and> mem_lookup_pa32 va s' = page_addr32 pa va \<and>
     (\<forall>v. usable32 lim s v \<longrightarrow> \<not> same_page32 va v \<longrightarrow> xlat32 s' v = xlat32 s v) \<and>
     unat (mem_next_pa32 s) \<le> unat (mem_next_pa32 s') \<and>
     unat (mem_next_pa32 s') \<le> unat (mem_next_pa32 s) + 4096"
proof -
  obtain s4 d where s4: "mem_map_pa32 va pa ta at s = Some (wr32 (l2_pte d va) (leaf_desc32 pa at) s4)"
    "tab32 s4 va = Some d" "keeps32 lim s s4" "\<And>v. usable32 lim s v \<Longrightarrow> xlat32 s4 v = xlat32 s v"
    "unat (mem_next_pa32 s) \<le> unat (mem_next_pa32 s4)"
    "unat (mem_next_pa32 s4) \<le> unat (mem_next_pa32 s) + 4096"
  proof (cases "tab32 s va")
    case None
    then show ?thesis using link32 [OF inv room None ta] that by (metis le_add1 le_refl)
  next
    case (Some d)
    then show ?thesis using map_mapped [OF Some] that [of d s] inv by (simp add: keeps32_def)
  qed
  define s' where "s' = wr32 (l2_pte d va) (leaf_desc32 pa at) s4"
  have inv4: "pt32_inv lim s4" and us4: "usable32 lim s4 va" using s4(3) us by (auto simp: keeps32_def)
  note lf = leaf32 [of lim s4 va d, OF _ s4(2), where e = "leaf_desc32 pa at", folded s'_def]
  have wf4: "pt32_wf lim s4" using inv4 by (simp add: pt32_inv_def)
  have k: "keeps32 lim s s'"
    using keeps32_trans [OF s4(3) leaf32_keeps [OF inv4 s4(2) us4]] by (simp add: s'_def)
  have x: "xlat32 s' va = page_addr32 pa va"
    using lf(3) [OF wf4, of va] leaf_desc32_page page_addr32_leaf [OF at] by (simp add: same_page32_def)
  have "tab32 s' va = Some d" using lf(1) [OF wf4] s4(2) by simp
  then have "mem_lookup_pa32 va s' = xlat32 s' va"
  proof (rule lookup_mapped)
    show "rd32 s' (l2_pte d va) AND PTE32_PAGE \<noteq> 0"
      unfolding s'_def rd32_wr32_same by (rule leaf_desc32_page)
  qed
  moreover have "xlat32 s' v = xlat32 s v" if "usable32 lim s v" "\<not> same_page32 va v" for v
    using lf(2) [OF wf4 that(2)] s4(4) [OF that(1)] by simp
  moreover have "mem_next_pa32 s' = mem_next_pa32 s4" by (simp add: s'_def)
  ultimately show ?thesis using k x s4(1,5,6) by (auto simp: s'_def)
qed

lemma mem_map_va32_maps:
  assumes inv: "pt32_inv lim s" and room: "room32 lim 2 s" and us: "usable32 lim s va"
    and ta: "ta AND 0xFFFFFC00 = 0" and at: "at AND 0xFFFFF000 = 0"
  shows "\<exists>s'. mem_map_va32 va ta at s = Some s' \<and> keeps32 lim s s' \<and>
     xlat32 s' va = page_addr32 (mem_next_pa32 s) va \<and>
     (\<forall>v. usable32 lim s v \<longrightarrow> \<not> same_page32 va v \<longrightarrow> xlat32 s' v = xlat32 s v) \<and>
     mem_next_pa32 s < mem_next_pa32 s' \<and>
     unat (mem_next_pa32 s') \<le> unat (mem_next_pa32 s) + 2 * 4096"
proof -
  define s1 where "s1 = s\<lparr>mem_next_pa32 := mem_next_pa32 s + 0x1000\<rparr>"
  have wf: "pt32_wf lim s" and r1: "room32 lim 1 s" using inv room by (auto simp: pt32_inv_def room32_def)
  note ap = alloc32 [OF wf r1, folded s1_def]
  have id1: "pt32_ident s1" using inv by (simp add: pt32_inv_def pt32_ident_def ap(5,6))
  have hp: "mem_heap_pool32 s1 = mem_heap_pool32 s" by (simp add: s1_def)
  have us1: "usable32 lim s1 v" if "usable32 lim s v" for v
    using usable32_mono [OF _ that, of s1] ap(3,6) by metis
  have k1: "keeps32 lim s s1"
    using ap(8) id1 inv us1 by (simp add: keeps32_def pt32_inv_def hp) (simp add: s1_def)
  have r2: "room32 lim 1 s1" using room ap(9) by (simp add: room32_def)
  obtain s' where s': "mem_map_pa32 va (mem_next_pa32 s) ta at s1 = Some s'" "keeps32 lim s1 s'"
    "xlat32 s' va = page_addr32 (mem_next_pa32 s) va"
    "\<forall>v. usable32 lim s1 v \<longrightarrow> \<not> same_page32 va v \<longrightarrow> xlat32 s' v = xlat32 s1 v"
    "unat (mem_next_pa32 s1) \<le> unat (mem_next_pa32 s')"
    "unat (mem_next_pa32 s') \<le> unat (mem_next_pa32 s1) + 4096"
    using mem_map_pa32_maps [OF _ r2 us1 [OF us] ta at, of "mem_next_pa32 s"] k1
    by (auto simp: keeps32_def)
  then show ?thesis
    using keeps32_trans [OF k1 s'(2)] us1 ap(5,9)
    by (auto simp: mem_map_va32_def mem_allocate_pa32_def s1_def [symmetric] word_less_nat_alt)
qed

lemma mem_unmap_va32_unmaps:
  assumes inv: "pt32_inv lim s" and us: "usable32 lim s va" and mapped: "xlat32 s va \<noteq> - 1"
  shows "\<exists>s'. mem_unmap_va32 va s = (0, s') \<and> keeps32 lim s s' \<and> xlat32 s' va = - 1 \<and>
     mem_next_pa32 s' = mem_next_pa32 s \<and>
     (\<forall>v. \<not> same_page32 va v \<longrightarrow> xlat32 s' v = xlat32 s v)"
proof -
  obtain d where d: "tab32 s va = Some d" using mapped by (auto simp: xlat32_def split: option.splits)
  have wf: "pt32_wf lim s" using inv by (simp add: pt32_inv_def)
  have run: "mem_unmap_va32 va s = (0, wr32 (l2_pte d va) 0 s)"
    using d by (auto simp: mem_unmap_va32_def tab32_def Let_def split: if_splits)
  show ?thesis
    unfolding run using leaf32 [OF wf d, where e = 0] leaf32_keeps [OF inv d us, of 0]
    by (auto simp: same_page32_def)
qed

end
