(* ===== verification/PageTable32Ops.thy ===== *)
theory PageTable32Ops
  imports PageTable32Proofs
begin

text \<open>
  The paging interface on the AArch32 code, and what \<^verbatim>\<open>mem_map_pa\<close>, \<^verbatim>\<open>mem_unmap_va\<close>,
  \<^verbatim>\<open>mem_lookup_pa\<close> and \<^verbatim>\<open>mem_heap_allocate\<close> of \<^verbatim>\<open>common/arm/mem_util.c\<close> promise.  The
  code provides \<open>page_mapper\<close> and \<open>heap_loop\<close> for the translation the hardware makes;
  it does not provide \<open>strict_unmapper\<close>.
\<close>

definition page_attr32 :: "bool \<Rightarrow> u32" where
  "page_attr32 priv = (if priv then PTE32_PRIV_RW else PTE32_USER_RW)"

lemma page_attr32_addr: "page_attr32 priv AND 0xFFFFF000 = 0"
  by (simp add: page_attr32_def PTE32_PRIV_RW_def PTE32_USER_RW_def)

lemma pager32_map:
  assumes "pt32_inv lim s" "room32 lim (2 * Suc n) s" "usable32 lim s va"
  shows "\<exists>s'. mem_map_pa32 va pa 0 (page_attr32 priv) s = Some s' \<and> pt32_inv lim s' \<and>
     room32 lim (2 * n) s' \<and> xlat32 s' va = page_addr32 pa va \<and> mem_heap_pool32 s' = mem_heap_pool32 s \<and>
     (\<forall>v. usable32 lim s v \<longrightarrow> usable32 lim s' v \<and> (\<not> same_page32 va v \<longrightarrow> xlat32 s' v = xlat32 s v))"
proof -
  have left: "room32 lim 1 s" "room32 lim (1 + 2 * n) s" using assms(2) by (auto simp: room32_def)
  show ?thesis
    using mem_map_pa32_maps [OF assms(1) left(1) assms(3) _ page_attr32_addr, of 0 pa priv]
      room32_le [OF left(2)]
    by (fastforce simp: keeps32_def)
qed

lemma pager32_map_va:
  assumes "pt32_inv lim s" "room32 lim (2 * Suc n) s" "usable32 lim s va"
  shows "\<exists>s'. mem_map_va32 va 0 (page_attr32 priv) s = Some s' \<and> pt32_inv lim s' \<and>
     room32 lim (2 * n) s' \<and> xlat32 s' va = page_addr32 (mem_next_pa32 s) va \<and>
     mem_next_pa32 s < mem_next_pa32 s' \<and> mem_heap_pool32 s' = mem_heap_pool32 s \<and>
     (\<forall>v. usable32 lim s v \<longrightarrow> usable32 lim s' v \<and> (\<not> same_page32 va v \<longrightarrow> xlat32 s' v = xlat32 s v))"
proof -
  have left: "room32 lim 2 s" "room32 lim (2 + 2 * n) s" using assms(2) by (auto simp: room32_def)
  show ?thesis
    using mem_map_va32_maps [OF assms(1) left(1) assms(3) _ page_attr32_addr, of 0 priv]
      room32_le [OF left(2)]
    by (fastforce simp: keeps32_def)
qed

lemma pager32_unmap:
  assumes "pt32_inv lim s" "room32 lim (2 * n) s" "usable32 lim s va" "xlat32 s va \<noteq> - 1"
  shows "\<exists>s'. mem_unmap_va32 va s = (0, s') \<and> pt32_inv lim s' \<and> room32 lim (2 * n) s' \<and>
     xlat32 s' va = - 1 \<and> mem_heap_pool32 s' = mem_heap_pool32 s \<and>
     (\<forall>v. usable32 lim s v \<longrightarrow> usable32 lim s' v \<and> (\<not> same_page32 va v \<longrightarrow> xlat32 s' v = xlat32 s v))"
  using mem_unmap_va32_unmaps [OF assms(1,3,4)] assms(2) by (fastforce simp: keeps32_def room32_def)

lemma frame32: "p AND 0xFFF = 0 \<Longrightarrow> v AND 0xFFF = 0 \<Longrightarrow> page_addr32 p v = p"
  using page_addr32_self [of p] by (simp add: page_addr32_def)

lemma page_sum32: "p AND 0xFFF = 0 \<Longrightarrow> (p + push_bit 12 w) AND 0xFFF = 0" for p w :: u32
  unfolding masks32 by (simp add: take_bit_eq_mask [symmetric] take_bit_eq_0_iff push_bit_eq_mult)

interpretation arm: page_mapper "pt32_inv lim" "\<lambda>n. room32 lim (2 * n)" "usable32 lim" same_page32
    "\<lambda>va pa. mem_map_pa32 va pa 0 (page_attr32 priv)" "\<lambda>va. mem_map_va32 va 0 (page_attr32 priv)"
    mem_unmap_va32 "\<lambda>va s. xlat32 s va" "\<lambda>va pa. page_addr32 pa va" mem_next_pa32 mem_heap_pool32
  for lim priv
proof (unfold_locales, goal_cases)
  case (1 v u)
  then show ?case by (rule same_page_sym)
next
  case (2 s n va pa)
  then show ?case by (rule pager32_map)
next
  case (3 s n va)
  then show ?case by (rule pager32_map_va)
next
  case (4 s n va)
  then show ?case by (rule pager32_unmap)
qed

interpretation arm_heap: heap_loop "pt32_inv lim" "\<lambda>n. room32 lim (2 * n)" "usable32 lim" same_page32
    "\<lambda>va pa. mem_map_pa32 va pa 0 (page_attr32 False)" "\<lambda>va. mem_map_va32 va 0 (page_attr32 False)"
    mem_unmap_va32 "\<lambda>va s. xlat32 s va" "\<lambda>va pa. page_addr32 pa va" mem_next_pa32 mem_heap_pool32
    heap_map_loop32
  for lim
proof (unfold_locales, goal_cases)
  case (1 off len s)
  then show ?case by (subst heap_map_loop32.simps) (simp add: page_attr32_def)
next
  case (2 s n w)
  then show ?case by (intro frame32 page_sum32) (auto simp: pt32_inv_def pt32_wf_def)
qed

section \<open>Properties\<close>

lemma heap_pool_update32:
  fixes s h
  defines "s' \<equiv> s\<lparr>mem_heap_pool32 := h\<rparr>"
  shows "xlat32 s' v = xlat32 s v"
    and "h AND 0xFFF = 0 \<Longrightarrow> pt32_inv lim s \<Longrightarrow> pt32_inv lim s'"
proof -
  have g: "mem_pgtbl_base32 s' = mem_pgtbl_base32 s" "mem_next_pa32 s' = mem_next_pa32 s"
    "mem_heap_pool32 s' = h"
    by (simp_all add: s'_def)
  have rd: "rd32 s' = rd32 s" by (rule ext) (simp add: rd32_def s'_def)
  have tab: "tab32 s' = tab32 s" by (rule ext) (simp only: tab32_def rd g)
  have xl: "xlat32 s' = xlat32 s" by (rule ext) (simp only: xlat32_def rd tab)
  then show "xlat32 s' v = xlat32 s v" by simp
  have ist: "is_table32 s' = is_table32 s" by (rule ext) (simp only: is_table32_def tab g)
  have "in_pool32 lim s' = in_pool32 lim s" by (rule ext) (simp only: in_pool32_def g)
  then show "h AND 0xFFF = 0 \<Longrightarrow> pt32_inv lim s \<Longrightarrow> pt32_inv lim s'"
    unfolding pt32_inv_def pt32_wf_def pt32_ident_def xl ist tab rd g by simp
qed

lemma unat_of_nat_u32: "n < 2 ^ 32 \<Longrightarrow> unat (of_nat n :: u32) = n"
  by (simp add: unsigned_of_nat take_bit_nat_eq_self)

lemma unat_pages32: "i * 4096 < 2 ^ 32 \<Longrightarrow> unat (push_bit 12 (of_nat i) :: u32) = i * 4096"
  using unat_of_nat_u32 [of "i * 4096"] by (simp add: push_bit_eq_mult)

text \<open>Distinct pages of a block below the end of the address space.\<close>

lemma pages_distinct32:
  assumes "a AND 0xFFF = 0" "unat a + n * 4096 \<le> 2 ^ 32" "i < n" "j < i"
  shows "\<not> same_page32 (a + push_bit 12 (of_nat i)) (a + push_bit 12 (of_nat j))"
proof
  assume p: "same_page32 (a + push_bit 12 (of_nat i)) (a + push_bit 12 (of_nat j))"
  then have e: "a + push_bit 12 (of_nat i) = a + push_bit 12 (of_nat j)"
    using page_base page_sum32 [OF assms(1)] by blast
  have u: "unat (push_bit 12 (of_nat k) :: u32) = k * 4096" if "k < n" for k
    using assms(2) that by (intro unat_pages32) simp
  show False using e u [of i] u [of j] assms(3,4) by simp
qed

text \<open>C27: on AArch32 a call of \<^verbatim>\<open>mem_map_pa\<close> on a page that holds no table returns, at most
  one page of the pool is taken, the page then translates to the physical page of the
  argument, the code's own lookup agrees, every other usable page translates as before and
  the invariant of the tables holds again.\<close>

theorem mem_map_pa32_correct:
  assumes "pt32_inv lim s" "room32 lim 1 s" "usable32 lim s va"
    "tblattr AND 0xFFFFFC00 = 0" "pgattr AND 0xFFFFF000 = 0"
  shows "\<exists>s'. mem_map_pa32 va pa tblattr pgattr s = Some s' \<and> pt32_inv lim s' \<and>
     xlat32 s' va = page_addr32 pa va \<and> mem_lookup_pa32 va s' = page_addr32 pa va \<and>
     (\<forall>v. usable32 lim s v \<longrightarrow> usable32 lim s' v \<and> (\<not> same_page32 va v \<longrightarrow> xlat32 s' v = xlat32 s v)) \<and>
     unat (mem_next_pa32 s') \<le> unat (mem_next_pa32 s) + 4096"
  using mem_map_pa32_maps [OF assms, of pa] by (fastforce simp: keeps32_def)

text \<open>C28: on AArch32 the page that \<^verbatim>\<open>mem_unmap_va\<close> has removed no longer translates, but
  \<^verbatim>\<open>mem_lookup_pa\<close> does not report that: it answers with the offset in physical page 0, and
  a second \<^verbatim>\<open>mem_unmap_va\<close> succeeds again.\<close>

theorem mem_unmap_va32_unnoticed:
  assumes "pt32_inv lim s" "usable32 lim s va" "xlat32 s va \<noteq> - 1"
  shows "\<exists>s'. mem_unmap_va32 va s = (0, s') \<and> pt32_inv lim s' \<and> xlat32 s' va = - 1 \<and>
     mem_lookup_pa32 va s' = va AND 0xFFF \<and> fst (mem_unmap_va32 va s') = 0"
proof -
  obtain d where d: "tab32 s va = Some d"
    using assms(3) by (auto simp: xlat32_def split: option.splits)
  have run: "mem_unmap_va32 va s = (0, wr32 (l2_pte d va) 0 s)"
    using d by (auto simp: mem_unmap_va32_def tab32_def Let_def split: if_splits)
  have wf: "pt32_wf lim s" using assms(1) by (simp add: pt32_inv_def)
  have d': "tab32 (wr32 (l2_pte d va) 0 s) va = Some d" using leaf32(1) [OF wf d] d by simp
  have "mem_lookup_pa32 va (wr32 (l2_pte d va) 0 s) = va AND 0xFFF"
    using d' by (auto simp: mem_lookup_pa32_def tab32_def Let_def split: if_splits)
  moreover have "fst (mem_unmap_va32 va (wr32 (l2_pte d va) 0 s)) = 0"
    using d' by (auto simp: mem_unmap_va32_def tab32_def Let_def split: if_splits)
  ultimately show ?thesis
    using mem_unmap_va32_unmaps [OF assms] run by (auto simp: keeps32_def)
qed

text \<open>C37: on AArch32 \<^verbatim>\<open>mem_heap_allocate\<close> returns the old pool address, advances the pool
  by the length rounded up to pages and backs every page of the block by a physical page of
  its own from the free ones.\<close>

theorem mem_heap_allocate32_backs:
  assumes inv: "pt32_inv lim s" and n: "n = (unat len + 4095) div 4096"
    and top: "unat (mem_heap_pool32 s) + n * 4096 < 2 ^ 32"
    and us: "\<forall>i<n. usable32 lim s (mem_heap_pool32 s + push_bit 12 (of_nat i))"
    and room: "room32 lim (2 * n) s"
  shows "\<exists>s'. mem_heap_allocate32 len s = Some (mem_heap_pool32 s, s') \<and> pt32_inv lim s' \<and>
     mem_heap_pool32 s' = mem_heap_pool32 s + push_bit 12 (of_nat n) \<and>
     (\<forall>i<n. mem_next_pa32 s \<le> xlat32 s' (mem_heap_pool32 s + push_bit 12 (of_nat i)) \<and>
        xlat32 s' (mem_heap_pool32 s + push_bit 12 (of_nat i)) < mem_next_pa32 s' \<and>
        (\<forall>j<i. xlat32 s' (mem_heap_pool32 s + push_bit 12 (of_nat j)) <
               xlat32 s' (mem_heap_pool32 s + push_bit 12 (of_nat i))))"
proof -
  have al: "mem_heap_pool32 s AND 0xFFF = 0" using inv by (simp add: pt32_inv_def)
  have u: "unat (push_bit 12 (of_nat i) :: u32) = i * 4096" if "i \<le> n" for i
    using top that by (intro unat_pages32) simp
  have less: "push_bit 12 (of_nat i) < len" if "i < n" for i
    using u [of i] that n by (simp add: word_less_nat_alt)
  have last: "len \<le> push_bit 12 (of_nat (0 + n))"
    using u [of n] n by (simp add: word_le_nat_alt)
  obtain s' where "heap_map_loop32 (push_bit 12 (of_nat 0)) len s = Some (push_bit 12 (of_nat (0 + n)), s')"
    "pt32_inv lim s'" "mem_heap_pool32 s' = mem_heap_pool32 s"
    "\<forall>i\<in>{0..<0 + n}. mem_next_pa32 s \<le> xlat32 s' (mem_heap_pool32 s + push_bit 12 (of_nat i)) \<and>
       xlat32 s' (mem_heap_pool32 s + push_bit 12 (of_nat i)) < mem_next_pa32 s' \<and>
       (\<forall>j\<in>{0..<i}. xlat32 s' (mem_heap_pool32 s + push_bit 12 (of_nat j)) <
          xlat32 s' (mem_heap_pool32 s + push_bit 12 (of_nat i)))"
    using arm_heap.loop_maps [OF inv room, of 0 len] us less last
      pages_distinct32 [OF al less_imp_le [OF top]] by auto
  then show ?thesis
    using page_sum32 [OF al, of "of_nat n"]
    by (simp add: mem_heap_allocate32_def heap_pool_update32)
qed

end
