(* ===== verification/ElfLoad32.thy ===== *)
theory ElfLoad32
  imports ElfLoadProofs PageTable32Ops
begin

text \<open>
  The loader on the AArch32 page tables: \<open>elf_memory\<close> on \<open>mm32\<close>, and what
  \<^verbatim>\<open>el1_load_el0\<close> of \<^verbatim>\<open>el1/arm/el1_loader.c\<close> does with a well-formed image.  Tables are
  mapped at their own addresses, so a byte no table and no free page owns is at an address
  that is \<open>usable32\<close>.
\<close>

section \<open>Accesses\<close>

lemma page_and: "take_bit 12 v = 0 \<longleftrightarrow> v AND 0xFFF = 0" for v :: u32
  unfolding masks32 by (simp add: take_bit_eq_mask)

lemma mmu32_walk:
  "mmu32 s a = (case tab32 s a of None \<Rightarrow> None
     | Some d \<Rightarrow> (let e = rd32 s (l2_pte d a) in if e AND PTE32_PAGE = 0 then None else Some (page_addr32 e a)))"
  by (simp add: mmu32_def tab32_def page_addr32_def Let_def)

lemma page_addr32_start: "v AND 0xFFF = 0 \<Longrightarrow> page_addr32 e v = e AND 0xFFFFF000"
  by (simp add: page_addr32_def)

lemma page_start_neq: "p AND 0xFFF = 0 \<Longrightarrow> p \<noteq> - 1" for p :: u32
  by auto

lemma page_frame32: "(e AND 0xFFFFF000) AND 0xFFF = (0 :: u32)"
  by (simp add: and.assoc)

lemma xlat32_start:
  "v AND 0xFFF = 0 \<Longrightarrow> xlat32 s v = (case mmu32 s v of None \<Rightarrow> - 1 | Some p \<Rightarrow> p)"
  "v AND 0xFFF = 0 \<Longrightarrow> mmu32 s v = Some p \<Longrightarrow> p AND 0xFFF = 0"
  by (auto simp: xlat32_def mmu32_walk Let_def page_addr32_start page_frame32 split: option.splits if_splits)

lemma page_offset32: "v AND 0xFFF = 0 \<Longrightarrow> b < 4096 \<Longrightarrow> same_page32 v (v + of_nat b)"
  using page_offset [of v b] by (simp add: same_page32_def page_and)

lemma page_addr32_offset:
  "v AND 0xFFF = 0 \<Longrightarrow> b < 4096 \<Longrightarrow> page_addr32 e (v + of_nat b) = page_addr32 e v + of_nat b"
proof -
  assume v: "v AND 0xFFF = 0" and b: "b < 4096"
  have lo: "of_nat b AND (0xFFF :: u32) = of_nat b"
    unfolding masks32 using bit_of_nat_page [OF _ b, where 'w = 32] by (intro bit_word_eqI) (auto simp: bit_simps)
  have "(v + of_nat b) AND 0xFFF = of_nat b"
    using v lo page_offset_or [of v b] b by (simp add: page_and bit.conj_disj_distrib2)
  then have "page_addr32 e (v + of_nat b) = (e AND 0xFFFFF000) OR of_nat b" by (simp add: page_addr32_def)
  also have "\<dots> = (e AND 0xFFFFF000) + of_nat b"
    using page_offset_or [OF _ b, of "e AND 0xFFFFF000"] page_frame32 by (simp add: page_and)
  finally show ?thesis by (simp add: page_addr32_start [OF v])
qed

lemma mmu32_offset:
  "v AND 0xFFF = 0 \<Longrightarrow> b < 4096 \<Longrightarrow> mmu32 s (v + of_nat b) = map_option (\<lambda>p. p + of_nat b) (mmu32 s v)"
proof -
  assume v: "v AND 0xFFF = 0" "b < 4096"
  note p = page_offset32 [OF v]
  have "tab32 s (v + of_nat b) = tab32 s v" using p same_mb_tab [of v "v + of_nat b" s] by (simp add: same_page_mb)
  then show ?thesis
    using same_page_l2 [OF p] page_addr32_offset [OF v] by (simp add: mmu32_walk Let_def split: option.splits)
qed

lemma mmu32_page:
  "v AND 0xFFF = 0 \<Longrightarrow> b < 4096 \<Longrightarrow>
   mmu32 s (v + of_nat b) = (if xlat32 s v = - 1 then None else Some (xlat32 s v + of_nat b))"
  using mmu32_offset [of v b s] xlat32_start [of v s] page_start_neq by (cases "mmu32 s v") auto

section \<open>Stores\<close>

lemma pte_byte_page:
  assumes "aligned 2 (ucast p)" "i < 4"
  shows "(ucast p + of_nat i :: u64) = ucast (p OR of_nat i)" "same_page32 p (p OR of_nat i)"
proof -
  have i: "drop_bit 2 (of_nat i :: u64) = 0" using drop_bit_of_nat_small [of i 2] assms(2) by simp
  have "(ucast (of_nat i :: u32) :: u64) = of_nat i"
    using assms(2) by (simp add: word_unat_eq_iff unsigned_ucast_eq unsigned_of_nat take_bit_nat_eq_self)
  moreover have "(ucast p + of_nat i :: u64) = ucast p OR of_nat i" by (rule aligned_add_or [OF assms(1) i])
  ultimately show "(ucast p + of_nat i :: u64) = ucast (p OR of_nat i)" by (simp add: unsigned_or_eq)
  have "\<not> bit (of_nat i :: u32) k" if "12 \<le> k" for k
    using bit_of_nat_page [of i k, where 'w = 32] that assms(2) by auto
  then show "same_page32 p (p OR of_nat i)" unfolding same_page32_def drop_bit_eq_iff by (simp add: bit_or_iff)
qed

text \<open>Memory that differs in bytes only that no table and no free page owns.\<close>

lemma bytes_frame32:
  fixes s g
  assumes inv: "pt32_inv lim s" and g: "\<And>a. \<not> usable32 lim s a \<Longrightarrow> g (ucast a) = mem_bytes32 s (ucast a)"
  defines "s' \<equiv> s\<lparr>mem_bytes32 := g\<rparr>"
  shows "pt32_inv lim s'" "xlat32 s' = xlat32 s" "usable32 lim s' = usable32 lim s"
    "room32 lim n s' = room32 lim n s"
proof -
  have gl: "mem_pgtbl_base32 s' = mem_pgtbl_base32 s" "mem_next_pa32 s' = mem_next_pa32 s"
    "mem_heap_pool32 s' = mem_heap_pool32 s" by (simp_all add: s'_def)
  have rd: "rd32 s' p = rd32 s p" if p: "aligned 2 (ucast p)" "\<And>a. same_page32 p a \<Longrightarrow> \<not> usable32 lim s a" for p
    unfolding rd32_def load32_def s'_def
    using pte_byte_page [OF p(1)] g p(2) by (intro arg_cong [of _ _ ucast] loadn_cong) simp
  have rd1: "rd32 s' (l1_pte (mem_pgtbl_base32 s) v) = rd32 s (l1_pte (mem_pgtbl_base32 s) v)" for v
    by (rule rd [OF pte_aligned(1)]) (use usable_l1 in blast)
  have tab: "tab32 s' = tab32 s" by (rule ext) (simp only: tab32_def rd1 gl)
  have rd2: "rd32 s' (l2_pte d v) = rd32 s (l2_pte d v)" if "tab32 s u = Some d" for d u v
    by (rule rd [OF pte_aligned(2)]) (use usable_l2 that in blast)
  show xl: "xlat32 s' = xlat32 s" by (rule ext) (auto simp: xlat32_def tab rd2 split: option.splits)
  have ist: "is_table32 s' = is_table32 s" by (rule ext) (simp only: is_table32_def tab gl)
  have pool: "in_pool32 lim s' = in_pool32 lim s" by (rule ext) (simp only: in_pool32_def gl)
  have rd3: "rd32 s' (l2_pte p v) = rd32 s (l2_pte p v)" if "in_pool32 lim s p" for p v
  proof (rule rd [OF pte_aligned(2)])
    fix a assume "same_page32 (l2_pte p v) a"
    then have "same_page32 p a" using page_l2 [of p v] by (simp add: same_page32_def)
    then show "\<not> usable32 lim s a" using that by (auto simp: usable32_def)
  qed
  show "pt32_inv lim s'"
    using inv rd3 unfolding pt32_inv_def pt32_wf_def pt32_ident_def xl ist tab gl pool by auto
  show "usable32 lim s' = usable32 lim s" by (rule ext) (simp only: usable32_def ist pool)
  show "room32 lim n s' = room32 lim n s" by (simp only: room32_def gl)
qed

lemma put_byte32_frame:
  fixes s a x
  assumes "pt32_inv lim s" "usable32 lim s a"
  defines "s' \<equiv> s\<lparr>mem_bytes32 := (mem_bytes32 s)(ucast a := x)\<rparr>"
  shows "pt32_inv lim s'" "xlat32 s' = xlat32 s" "usable32 lim s' = usable32 lim s"
    "room32 lim n s' = room32 lim n s"
  unfolding s'_def by (rule bytes_frame32 [OF assms(1)]; use assms(2) in \<open>auto simp: ucast_eq_u32\<close>)+

section \<open>The interface\<close>

lemma map_va32_fresh:
  assumes inv: "pt32_inv lim s" and room: "room32 lim (2 * Suc n) s" and us: "usable32 lim s va"
    and run: "mem_map_va32 va 0 PTE32_USER_RW s = Some s'" and a: "drop_bit 12 a = drop_bit 12 (mem_next_pa32 s)"
  shows "usable32 lim s' a \<and> \<not> usable32 lim s a"
proof -
  let ?np = "mem_next_pa32 s"
  define s1 where "s1 = s\<lparr>mem_next_pa32 := ?np + 0x1000\<rparr>"
  have wf: "pt32_wf lim s" and r: "room32 lim 1 s" "room32 lim 2 s" using inv room by (auto simp: pt32_inv_def room32_def)
  note ap = alloc32 [OF wf r(1), folded s1_def]
  have np: "\<not> is_table32 s ?np" "?np AND 0xFFF = 0" using ap(1) wf by (auto simp: pt32_wf_def in_pool32_def)
  have pg: "same_page32 ?np a" using a by (simp add: same_page32_def)
  have "\<not> same_page32 t a" if "is_table32 s1 t \<or> in_pool32 lim s1 t" for t
  proof
    assume "same_page32 t a"
    then have "same_page32 t ?np" using pg by (simp add: same_page32_def)
    moreover have "t AND 0xFFF = 0" using that by (auto simp: is_table32_def in_pool32_def)
    ultimately have "t = ?np" using page_base np(2) by blast
    then show False using that ap(2,6) np(1) by simp
  qed
  then have u1: "usable32 lim s1 a" by (simp add: usable32_def)
  have "pt32_inv lim s1" using inv ap(5,6,8) by (simp add: pt32_inv_def pt32_ident_def) (simp add: s1_def)
  moreover have "room32 lim 1 s1" using r(2) ap(9) by (simp add: room32_def)
  moreover have "usable32 lim s1 va" using usable32_mono [OF _ us, of s1] ap(3,6) by metis
  moreover have "mem_map_pa32 va ?np 0 PTE32_USER_RW s1 = Some s'"
    using run by (simp add: mem_map_va32_def mem_allocate_pa32_def s1_def)
  ultimately have "keeps32 lim s1 s'"
    using mem_map_pa32_maps [of lim s1 va 0 PTE32_USER_RW ?np] by (auto simp: PTE32_USER_RW_def)
  then have "usable32 lim s' a" using u1 by (simp add: keeps32_def)
  moreover have "\<not> usable32 lim s a" using ap(1) pg by (auto simp: usable32_def)
  ultimately show ?thesis by blast
qed

lemma user_attr32: "page_attr32 False = PTE32_USER_RW" "PTE32_USER_RW AND 0xFFFFF000 = 0"
  by (simp_all add: page_attr32_def PTE32_USER_RW_def)

interpretation arm_mem: elf_memory "pt32_inv lim" "\<lambda>n. room32 lim (2 * n)" "usable32 lim" same_page32
    arm_vm "\<lambda>va s. xlat32 s va" "\<lambda>va pa. page_addr32 pa va" mem_next_pa32 mem_heap_pool32
    "usable32 lim" "\<lambda>s a. mem_bytes32 s (ucast a)"
  for lim
proof (unfold_locales, goal_cases)
  case (1 v u)
  then show ?case by (rule same_page_sym)
next
  case (2 s n va pa)
  then show ?case using pager32_map [of lim s n va pa False] by (simp add: arm_vm_def user_attr32)
next
  case (3 s n va)
  then show ?case using pager32_map_va [of lim s n va False] by (simp add: arm_vm_def user_attr32)
next
  case (4 s n va)
  then show ?case using pager32_unmap [of lim s n va] by (simp add: arm_vm_def)
next
  case 5
  show ?case by simp
next
  case (6 s s' n va pa a)
  then have "room32 lim 1 s" by (simp add: room32_def)
  then show ?case
    using 6 mem_map_pa32_maps [of lim s va 0 PTE32_USER_RW pa] by (auto simp: arm_vm_def user_attr32 keeps32_def)
next
  case (7 s s' n va a)
  then have "room32 lim 2 s" by (simp add: room32_def)
  then show ?case
    using 7 mem_map_va32_maps [of lim s va 0 PTE32_USER_RW] by (auto simp: arm_vm_def user_attr32 keeps32_def)
next
  case (8 s s' n va a)
  then show ?case using map_va32_fresh [of lim s n va s' a] by (simp add: arm_vm_def)
next
  case (9 s n va)
  then have "mem_next_pa32 s AND 0xFFF = 0" by (simp add: pt32_inv_def pt32_wf_def)
  then show ?case using 9(3) frame32 page_start_neq by (simp add: page_and)
next
  case (10 s s' va a)
  then show ?case using mem_unmap_va32_unmaps [of lim s va] by (auto simp: arm_vm_def keeps32_def)
next
  case (11 s v)
  then show ?case using xlat32_start [of v s] by (cases "mmu32 s v") (auto simp: page_and)
next
  case (12 s v b)
  then show ?case by (simp add: arm_vm_def mmu32_page page_and)
next
  case (13 s v b x)
  then show ?case
    using put_byte32_frame [where lim = lim and s = s and a = "xlat32 s v + of_nat b" and x = x]
    by (simp add: arm_vm_def mmu32_page page_and ucast_eq_u32 fun_eq_iff)
qed

section \<open>Properties\<close>

definition loadable32 :: "u32 \<Rightarrow> elf_h \<Rightarrow> u32 \<Rightarrow> nat \<Rightarrow> (u32 \<Rightarrow> u8) \<Rightarrow> mm32 \<Rightarrow> bool" where
  "loadable32 lim L base n img s \<longleftrightarrow>
     elf_ok L base n img \<and> pt32_inv lim s \<and> room32 lim (2 * (n + length (elf_addrs L img base))) s \<and>
     distinct_pages same_page32 (elf_image_pages L base n img) \<and>
     (\<forall>v\<in>set (elf_image_pages L base n img). usable32 lim s v) \<and>
     (\<forall>j<n. \<forall>b<4096. mem_bytes32 s (ucast (page_no base j + of_nat b)) = img (page_no base j + of_nat b))"

definition unmapped32 :: "u32 \<Rightarrow> nat \<Rightarrow> mm32 \<Rightarrow> bool" where
  "unmapped32 base n s \<longleftrightarrow> (\<forall>j<n. xlat32 s (page_no base j) = - 1)"

definition others_kept32 :: "u32 \<Rightarrow> u32 list \<Rightarrow> mm32 \<Rightarrow> mm32 \<Rightarrow> bool" where
  "others_kept32 lim vs s s' \<longleftrightarrow>
     (\<forall>w. usable32 lim s w \<and> (\<forall>v\<in>set vs. \<not> same_page32 v w) \<longrightarrow>
        usable32 lim s' w \<and> xlat32 s' w = xlat32 s w)"

lemma loadable32_ready: "loadable32 lim L base n img s \<Longrightarrow> arm_mem.ready lim L base n img s"
proof -
  assume l: "loadable32 lim L base n img s"
  then have al: "take_bit 12 base = 0" using elf_okD(1) by (auto simp: loadable32_def)
  have pg: "page_no base j AND 0xFFF = 0" for j using page_no_aligned [OF al] by (simp add: page_and)
  have "usable32 lim s (page_no base j + of_nat b)" if "j < n" "b < 4096" for j b
  proof -
    have "usable32 lim s (page_no base j)" using l that(1) by (auto simp: loadable32_def elf_image_pages_def)
    then show ?thesis using page_offset32 [OF pg that(2)] by (auto simp: usable32_def same_page32_def)
  qed
  then show ?thesis
    using l pg page_start_neq [OF pg] page_addr32_self [OF pg] unfolding loadable32_def arm_mem.ready_def by blast
qed

text \<open>C18: on AArch32 the work of \<^verbatim>\<open>el1_load_el0\<close> on a well-formed image ends in one state, whatever
  becomes of its last step: there every byte of every page of the sections .text and .data is at
  the address the image names, no page of the image translates any more, the tables keep their
  invariant and every other page translates as before. The function returns exactly when the late
  load of the entry point from the unmapped header page is answered, with \<^verbatim>\<open>true\<close> and what it
  answered: the entry point of the image if the removed translation is still in the TLB (which the
  architecture does not promise); through the tables as they are then the load is a data abort.\<close>

theorem el1_load_el0_arm_loads:
  assumes "loadable32 lim L base n img s" "0 < snd (eh_entry L)"
  shows "(\<exists>s'. (\<forall>late. el1_load_el0_arm L exit late base s = map_option (\<lambda>e. (True, e, s')) (late_entry L late base s')) \<and>
      (\<forall>late. header_cached base img late \<longrightarrow> late_entry L late base s' = Some (ucast (fld (eh_entry L) img base))) \<and>
      pt32_inv lim s' \<and> sections_at (vm_rd arm_vm s') L base img \<and> unmapped32 base n s' \<and>
      others_kept32 lim (elf_image_pages L base n img) s s') \<and>
    el1_load_el0_arm L exit (vm_rd arm_vm) base s = None"
proof
  note r = loadable32_ready [OF assms(1)]
  obtain s' where s': "\<forall>late ret. load_el0 arm_vm L exit late ret base s = map_option (\<lambda>e. (ret, e, s')) (late_entry L late base s')"
    "pt32_inv lim s'" "\<forall>j<n. xlat32 s' (page_no base j) = - 1" "sections_at (vm_rd arm_vm s') L base img"
    "arm_mem.others_stay lim (elf_image_pages L base n img) s s'"
    using arm_mem.load_el0_ready [OF r, of exit] by (elim exE conjE) rule
  have k: "others_kept32 lim (elf_image_pages L base n img) s s'"
    using s'(5) unfolding others_kept32_def arm_mem.others_stay_def .
  show "\<exists>s'. (\<forall>late. el1_load_el0_arm L exit late base s = map_option (\<lambda>e. (True, e, s')) (late_entry L late base s')) \<and>
      (\<forall>late. header_cached base img late \<longrightarrow> late_entry L late base s' = Some (ucast (fld (eh_entry L) img base))) \<and>
      pt32_inv lim s' \<and> sections_at (vm_rd arm_vm s') L base img \<and> unmapped32 base n s' \<and>
      others_kept32 lim (elf_image_pages L base n img) s s'"
    unfolding el1_load_el0_arm_def unmapped32_def
    by (rule exI [of _ s'], intro conjI allI impI arm_mem.cached_entry [OF r] s'(2,4) s'(3) [rule_format] k) (rule s'(1) [rule_format])
  show "el1_load_el0_arm L exit (vm_rd arm_vm) base s = None"
    unfolding el1_load_el0_arm_def by (rule arm_mem.load_el0_gone [OF r assms(2)])
qed

end
