(* ===== verification/PageTableData.thy ===== *)
theory PageTableData
  imports PageTableOps
begin

text \<open>
  The bytes behind the translations of the AArch64 page tables: mapping and unmapping leave
  every byte alone that no table and no free page owns, a page fresh from \<open>mem_map_va\<close> is
  such memory, and a store to such a byte changes no translation.
\<close>

lemma data_byte_cong:
  "(\<And>t. is_table s' t = is_table s t) \<Longrightarrow> (\<And>t. in_pool lim s' t = in_pool lim s t) \<Longrightarrow>
   data_byte lim s' = data_byte lim s"
  by (rule ext) (simp add: data_byte_def)

lemma leaf_data:
  assumes wf: "pt_wf lim s" and u: "walk s va 3 = Some u" and a: "data_byte lim s a"
  shows "data_byte lim (wr64 (slot u va 3) d s) a" "mem_bytes (wr64 (slot u va 3) d s) a = mem_bytes s a"
proof -
  show "data_byte lim (wr64 (slot u va 3) d s) a"
    using a data_byte_cong [of "wr64 (slot u va 3) d s" s lim] leaf_wf(2) [OF wf u] by simp
  have t: "is_table s u" using u by (auto intro: is_tableI)
  then have "drop_bit 12 a \<noteq> drop_bit 12 u" using a by (simp add: data_byte_def)
  then show "mem_bytes (wr64 (slot u va 3) d s) a = mem_bytes s a"
    using wr64_slot_other [OF page_frame_aligned [OF is_table_frame [OF wf t]]] by simp
qed

lemma mem_map_pa_data:
  assumes inv: "pt_inv lim s" and room: "pages_left lim 3 s" and ta: "ta AND DESC_ADDR = 0"
    and run: "mem_map_pa va pa ta pg s = Some s'" and a: "data_byte lim s a"
  shows "data_byte lim s' a \<and> mem_bytes s' a = mem_bytes s a"
proof -
  have wf: "pt_wf lim s" "pt_ident s" using inv by (auto simp: pt_inv_def)
  obtain s1 u where s1: "map_levels 0 va pa ta pg (mem_pgtbl_base s) s = Some (wr64 (slot u va 3) (leaf_desc pa pg) s1)"
    "grows lim s s1" "walk s1 va 3 = Some u"
    using map_levels_grows [of 0 lim s va "mem_pgtbl_base s" ta pa pg] wf room ta by (auto simp: pages_left_def)
  have wf1: "pt_wf lim s1" using s1(2) by (simp add: grows_def)
  have "data_byte lim s1 a" by (rule grows_data [OF s1(2) a])
  moreover have "mem_bytes s1 a = mem_bytes s a" using s1(2) a by (simp add: grows_def)
  ultimately show ?thesis
    using leaf_data [OF wf1 s1(3)] run s1(1) by (auto simp: mem_map_pa_def)
qed

lemma aligned_same_page: "aligned 12 p \<Longrightarrow> aligned 12 q \<Longrightarrow> drop_bit 12 p = drop_bit 12 q \<Longrightarrow> p = q"
  by (metis aligned_eq_drop_bit)

lemma alloc_data:
  assumes wf: "pt_wf lim s" and lt: "mem_next_pa s < lim"
  defines "s1 \<equiv> s\<lparr>mem_next_pa := mem_next_pa s + PAGE_SIZE\<rparr>"
  shows "data_byte lim s a \<Longrightarrow> data_byte lim s1 a"
    and "drop_bit 12 a = drop_bit 12 (mem_next_pa s) \<Longrightarrow> data_byte lim s1 a \<and> \<not> data_byte lim s a"
proof -
  note ap = alloc_pool [OF wf lt, folded s1_def]
  show "data_byte lim s1 a" if "data_byte lim s a"
    unfolding data_byte_def
  proof (intro allI impI)
    fix t assume "is_table s1 t \<or> in_pool lim s1 t"
    then have "is_table s t \<or> in_pool lim s t" using ap(3) [of t] ap(5) [of t] by blast
    then show "drop_bit 12 a \<noteq> drop_bit 12 t" using that unfolding data_byte_def by blast
  qed
  assume p: "drop_bit 12 a = drop_bit 12 (mem_next_pa s)"
  have "\<forall>q. in_pool lim s q \<longrightarrow> \<not> is_table s q" using wf by (simp add: pt_wf_def)
  then have np: "\<not> is_table s (mem_next_pa s)" "aligned 12 (mem_next_pa s)"
    using ap(1) by (blast, simp add: in_pool_def)
  have "drop_bit 12 a \<noteq> drop_bit 12 t" if t: "is_table s1 t \<or> in_pool lim s1 t" for t
  proof
    assume "drop_bit 12 a = drop_bit 12 t"
    moreover have "aligned 12 t"
      using t is_table_frame [OF ap(6), of t] page_frame_aligned [of t] unfolding in_pool_def by blast
    ultimately have "mem_next_pa s = t" using p by (intro aligned_same_page [OF np(2)]) simp_all
    then show False using t ap(3) [of t] ap(5) [of t] np(1) by blast
  qed
  then have "data_byte lim s1 a" unfolding data_byte_def by blast
  moreover have "\<not> data_byte lim s a" unfolding data_byte_def p using ap(1) by blast
  ultimately show "data_byte lim s1 a \<and> \<not> data_byte lim s a" by blast
qed

lemma mem_map_va_data:
  assumes inv: "pt_inv lim s" and room: "pages_left lim 4 s" and ta: "ta AND DESC_ADDR = 0"
    and run: "mem_map_va va ta pg s = Some s'"
  shows "data_byte lim s a \<Longrightarrow> data_byte lim s' a \<and> mem_bytes s' a = mem_bytes s a"
    and "drop_bit 12 a = drop_bit 12 (mem_next_pa s) \<Longrightarrow> data_byte lim s' a \<and> \<not> data_byte lim s a"
proof -
  define s1 where "s1 = s\<lparr>mem_next_pa := mem_next_pa s + PAGE_SIZE\<rparr>"
  have wf: "pt_wf lim s" "pt_ident s" using inv by (auto simp: pt_inv_def)
  have "pages_left lim (Suc 3) s" using room by simp
  then have lt: "mem_next_pa s < lim" by (rule pages_left_less)
  note ap = alloc_pool [OF wf(1) lt, folded s1_def] and al = alloc_data [OF wf(1) lt, folded s1_def]
  have inv1: "pt_inv lim s1" using ap(6,7) wf by (simp add: pt_inv_def)
  have "lim \<le> 2 ^ 36" using wf(1) by (simp add: pt_wf_def)
  then have "unat (mem_next_pa s) < 2 ^ 36" using lt by (simp add: word_less_nat_alt word_le_nat_alt)
  then have "unat (mem_next_pa s1) = unat (mem_next_pa s) + 4096"
    by (simp add: s1_def PAGE_SIZE_def unat_add_small)
  then have room1: "pages_left lim 3 s1" using room by (simp add: pages_left_def)
  have run1: "mem_map_pa va (mem_next_pa s) ta pg s1 = Some s'"
    using run by (simp add: mem_map_va_def mem_allocate_pa_def s1_def)
  note data = mem_map_pa_data [OF inv1 room1 ta run1]
  have "mem_bytes s1 = mem_bytes s" by (simp add: s1_def)
  then show "data_byte lim s a \<Longrightarrow> data_byte lim s' a \<and> mem_bytes s' a = mem_bytes s a"
    using data al(1) by metis
  show "drop_bit 12 a = drop_bit 12 (mem_next_pa s) \<Longrightarrow> data_byte lim s' a \<and> \<not> data_byte lim s a"
    using data al(2) by blast
qed

text \<open>The page that \<open>mem_map_va\<close> maps is as the pool had it: zero.\<close>

lemma mem_map_va_fresh:
  assumes inv: "pt_inv lim s" and room: "pages_left lim 4 s" and ta: "ta AND DESC_ADDR = 0"
    and run: "mem_map_va va ta pg s = Some s'"
  shows "load64 (mem_bytes s') (mem_next_pa s) = 0"
proof -
  define s1 where "s1 = s\<lparr>mem_next_pa := mem_next_pa s + PAGE_SIZE\<rparr>"
  have wf: "pt_wf lim s" "pt_ident s" using inv by (auto simp: pt_inv_def)
  have "pages_left lim (Suc 3) s" using room by simp
  then have lt: "mem_next_pa s < lim" by (rule pages_left_less)
  note ap = alloc_pool [OF wf(1) lt, folded s1_def] and al = alloc_data [OF wf(1) lt, folded s1_def]
  have inv1: "pt_inv lim s1" using ap(6,7) wf by (simp add: pt_inv_def)
  have "lim \<le> 2 ^ 36" using wf(1) by (simp add: pt_wf_def)
  then have "unat (mem_next_pa s) < 2 ^ 36" using lt by (simp add: word_less_nat_alt word_le_nat_alt)
  then have "unat (mem_next_pa s1) = unat (mem_next_pa s) + 4096"
    by (simp add: s1_def PAGE_SIZE_def unat_add_small)
  then have room1: "pages_left lim 3 s1" using room by (simp add: pages_left_def)
  have run1: "mem_map_pa va (mem_next_pa s) ta pg s1 = Some s'"
    using run by (simp add: mem_map_va_def mem_allocate_pa_def s1_def)
  have np: "aligned 12 (mem_next_pa s)" using ap(1) by (simp add: in_pool_def)
  have same: "mem_bytes s' b = mem_bytes s b" if "drop_bit 12 b = drop_bit 12 (mem_next_pa s)" for b
    using mem_map_pa_data [OF inv1 room1 ta run1, of b] al(2) [OF that] by (simp add: s1_def)
  have "rd64 s' (slot (mem_next_pa s) 0 0) = rd64 s (slot (mem_next_pa s) 0 0)"
    by (rule rd64_slot_cong [OF np]) (rule same)
  also have "\<dots> = 0" using wf(1) ap(1) by (simp add: pt_wf_def zero_page_def)
  finally show ?thesis by (simp add: slot_def pt_off_def pt_index_def rd64_def)
qed

lemma mem_unmap_va_data:
  assumes inv: "pt_inv lim s" and run: "mem_unmap_va va s = (0, s')" and a: "data_byte lim s a"
  shows "data_byte lim s' a \<and> mem_bytes s' a = mem_bytes s a"
proof -
  have wf: "pt_wf lim s" using inv by (simp add: pt_inv_def)
  obtain q where q: "walk s va 4 = Some q"
    using run by (cases "walk s va 4") (auto simp: mem_unmap_va_walk simp del: tbl.simps)
  then obtain u where u: "walk s va 3 = Some u" using tbl_less_some [OF q, of 3] by auto
  have "s' = wr64 (slot u va 3) 0 s" using run by (simp add: mem_unmap_va_walk q u del: tbl.simps)
  then show ?thesis using leaf_data [OF wf u a] by simp
qed

section \<open>Stores\<close>

text \<open>Memory that differs in such bytes only.\<close>

lemma bytes_frame:
  fixes s g
  assumes inv: "pt_inv lim s" and g: "\<And>a. \<not> data_byte lim s a \<Longrightarrow> g a = mem_bytes s a"
  defines "s' \<equiv> s\<lparr>mem_bytes := g\<rparr>"
  shows "j \<le> 4 \<Longrightarrow> walk s' va j = walk s va j" "is_table s' t = is_table s t"
    "in_pool lim s' t = in_pool lim s t" "pt_inv lim s'"
    "usable lim s' = usable lim s" "mem_lookup_pa va s' = mem_lookup_pa va s"
    "data_byte lim s' = data_byte lim s" "pages_left lim n s' = pages_left lim n s"
proof -
  let ?s = s'
  have wf: "pt_wf lim s" "pt_ident s" using inv by (auto simp: pt_inv_def)
  have globals: "mem_pgtbl_base ?s = mem_pgtbl_base s" "mem_next_pa ?s = mem_next_pa s" by (simp_all add: s'_def)
  have rd: "rd64 ?s (slot t v i) = rd64 s (slot t v i)" if "is_table s t \<or> in_pool lim s t" for t v i
  proof (rule rd64_slot_cong)
    show "aligned 12 t" using that is_table_frame [OF wf(1)] page_frame_aligned by (auto simp: in_pool_def)
    show "mem_bytes ?s b = mem_bytes s b" if "drop_bit 12 b = drop_bit 12 t" for b
      using g [of b] that \<open>is_table s t \<or> in_pool lim s t\<close> unfolding data_byte_def s'_def by auto
  qed
  show wk: "walk ?s va j = walk s va j" if "j \<le> 4" for va j
    using that
  proof (induction j)
    case (Suc j)
    then have IH: "walk ?s va j = walk s va j" by simp
    show ?case
    proof (cases "walk s va j")
      case (Some t)
      then have "is_table s t" using Suc.prems by (auto intro: is_tableI)
      then show ?thesis using rd [of t va j] IH Some by (simp add: rd64_def)
    qed (use IH in simp)
  qed (simp add: globals)
  show tab: "is_table ?s t = is_table s t" for t unfolding is_table_def using wk by fastforce
  show pool: "in_pool lim ?s t = in_pool lim s t" for t by (simp add: in_pool_def globals)
  have tree: "tree_tables (mem_bytes ?s) (mem_pgtbl_base ?s)"
    unfolding tree_tables_def
  proof (intro allI impI)
    fix v v' i j t
    assume h: "i \<le> 3" "j \<le> 3" "walk ?s v i = Some t" "walk ?s v' j = Some t"
    then have "walk s v i = Some t" "walk s v' j = Some t" using wk [of i v] wk [of j v'] by simp_all
    then show "i = j \<and> same_path i v v'" using wf(1) h(1,2) unfolding pt_wf_def tree_tables_def by blast
  qed
  have "zero_page ?s p = zero_page s p" if "in_pool lim s p" for p using rd that by (simp add: zero_page_def)
  then have "pt_wf lim ?s"
    using wf(1) tree unfolding pt_wf_def tab pool by (simp add: wk globals(2) wk [unfolded globals] globals del: tbl.simps)
  moreover have "pt_ident ?s" using wf(2) unfolding pt_ident_def tab by (simp add: wk del: tbl.simps)
  ultimately show "pt_inv lim ?s" by (simp add: pt_inv_def)
  show "usable lim ?s = usable lim s" by (rule ext) (simp add: usable_def reserved_def tab pool)
  show "mem_lookup_pa va ?s = mem_lookup_pa va s" by (simp add: mem_lookup_pa_walk wk del: tbl.simps)
  show "data_byte lim ?s = data_byte lim s" by (rule data_byte_cong) (rule tab, rule pool)
  show "pages_left lim n ?s = pages_left lim n s" by (simp add: pages_left_def globals)
qed

definition put_byte :: "u64 \<Rightarrow> u8 \<Rightarrow> mm \<Rightarrow> mm" where
  "put_byte a x s = s\<lparr>mem_bytes := (mem_bytes s)(a := x)\<rparr>"

lemma put_byte_frame:
  assumes "pt_inv lim s" "data_byte lim s a"
  shows "pt_inv lim (put_byte a x s)" "usable lim (put_byte a x s) = usable lim s"
    "mem_lookup_pa va (put_byte a x s) = mem_lookup_pa va s"
    "data_byte lim (put_byte a x s) = data_byte lim s" "pages_left lim n (put_byte a x s) = pages_left lim n s"
  unfolding put_byte_def by (rule bytes_frame [OF assms(1)]; use assms(2) in auto)+

end
