(* ===== verification/ElfLoadOps.thy ===== *)
theory ElfLoadOps
  imports ElfLoadProofs PageTableData
begin

text \<open>
  The loader on the AArch64 page tables: \<open>elf_memory\<close> on the EL1 state, and what
  \<^verbatim>\<open>el1_load_el0\<close> of \<^verbatim>\<open>el1/aarch64/el1_loader.c\<close> does with a well-formed image.
\<close>

section \<open>Accesses\<close>

lemma page_no_path: "take_bit 12 v = 0 \<Longrightarrow> b < 4096 \<Longrightarrow> same_path 4 v (v + of_nat b)"
  unfolding same_path_bits
proof (intro allI impI)
  fix k :: nat assume v: "take_bit 12 v = 0" "b < 4096" and k: "12 \<le> k \<and> k < 48"
  have "bit (drop_bit 12 (v + of_nat b)) (k - 12) = bit (drop_bit 12 v) (k - 12)" using page_offset [OF v] by simp
  then show "bit v k = bit (v + of_nat b) k" using k by (simp add: bit_drop_bit_eq)
qed

lemma page_low: "take_bit 12 v = 0 \<Longrightarrow> b < 4096 \<Longrightarrow> (v + of_nat b) AND 0xFFF = of_nat b" for v :: u64
proof -
  assume v: "take_bit 12 v = 0" and b: "b < 4096"
  have "(v + of_nat b) AND 0xFFF = take_bit 12 (v OR of_nat b)"
    unfolding page_offset_or [OF v b] by (simp add: take_bit_eq_mask mask_eq_exp_minus_1)
  also have "\<dots> = take_bit 12 (of_nat b)" using v by simp
  also have "\<dots> = of_nat b"
    by (rule bit_word_eqI) (use bit_of_nat_page [OF _ b, where 'w = 64] in \<open>auto simp: bit_take_bit_iff\<close>)
  finally show ?thesis .
qed

lemma mmu_page:
  "take_bit 12 v = 0 \<Longrightarrow> b < 4096 \<Longrightarrow>
   mmu s (v + of_nat b) = (if mem_lookup_pa v s = - 1 then None else Some (mem_lookup_pa v s + of_nat b))"
  using same_path_lookup [OF page_no_path, of v b s] by (simp add: mmu_def page_low)

lemma lookup_aligned: "pt_inv lim s \<Longrightarrow> mem_lookup_pa v s \<noteq> - 1 \<Longrightarrow> take_bit 12 (mem_lookup_pa v s) = 0"
  using walk_frame [of lim s v 4] page_frame_aligned
  by (auto simp: mem_lookup_pa_walk pt_inv_def aligned_def simp del: tbl.simps split: option.splits)

lemma user_attr: "page_attr False = PTE_USER_RW"
  by (simp add: page_attr_def)

text \<open>The state \<open>r\<close> the loader starts in: but for the memory all of it stays.\<close>

interpretation el1_mem: elf_memory "\<lambda>s. pt_inv lim (el1_mm s) \<and> s\<lparr>el1_mm := el1_mm r\<rparr> = r" "\<lambda>n s. pages_left lim (4 * n) (el1_mm s)"
    "\<lambda>s. usable lim (el1_mm s)" "same_path 4" aarch64_vm "\<lambda>v s. mem_lookup_pa v (el1_mm s)"
    "\<lambda>va pa. pa AND DESC_ADDR" "\<lambda>s. mem_next_pa (el1_mm s)" "\<lambda>s. mem_heap_pool (el1_mm s)"
    "\<lambda>s. data_byte lim (el1_mm s)" "\<lambda>s. mem_bytes (el1_mm s)"
  for lim r
proof (unfold_locales, goal_cases)
  case (1 v u)
  then show ?case by (rule same_path_sym)
next
  case (2 s n va pa)
  then show ?case
    using aarch64.map_pa [of lim "el1_mm s" n va pa False] by (auto simp: aarch64_vm_def user_attr)
next
  case (3 s n va)
  then show ?case
    using aarch64.map_va [of lim "el1_mm s" n va False] by (auto simp: aarch64_vm_def user_attr)
next
  case (4 s n va)
  then show ?case
    using aarch64.unmap_va [of lim "el1_mm s" n va] by (auto simp: aarch64_vm_def)
next
  case 5
  show ?case by simp
next
  case (6 s s' n va pa a)
  then have "pages_left lim 3 (el1_mm s)" by (simp add: pages_left_def)
  then show ?case using 6 mem_map_pa_data [of lim "el1_mm s" 0 va pa PTE_USER_RW _ a] by (auto simp: aarch64_vm_def)
next
  case (7 s s' n va a)
  then have "pages_left lim 4 (el1_mm s)" by (simp add: pages_left_def)
  then show ?case using 7 mem_map_va_data(1) [of lim "el1_mm s" 0 va PTE_USER_RW _ a] by (auto simp: aarch64_vm_def)
next
  case (8 s s' n va a)
  then have "pages_left lim 4 (el1_mm s)" by (simp add: pages_left_def)
  then show ?case using 8 mem_map_va_data(2) [of lim "el1_mm s" 0 va PTE_USER_RW _ a] by (auto simp: aarch64_vm_def)
next
  case (9 s n va)
  then have "mem_next_pa (el1_mm s) AND DESC_ADDR = mem_next_pa (el1_mm s)"
    by (intro next_pa_frame [of lim _ "3 + 4 * n"]) simp_all
  then show ?case using page_frame_neq_minus1 by (simp add: page_frame_def)
next
  case (10 s s' va a)
  then show ?case using mem_unmap_va_data [of lim "el1_mm s" va _ a]
    by (cases "mem_unmap_va va (el1_mm s)") (auto simp: aarch64_vm_def)
next
  case (11 s v)
  then show ?case using lookup_aligned by blast
next
  case (12 s v b)
  then show ?case by (simp add: aarch64_vm_def mmu_page)
next
  case (13 s v b x)
  then show ?case
    using put_byte_frame [where lim = lim and s = "el1_mm s" and a = "mem_lookup_pa v (el1_mm s) + of_nat b" and x = x]
    by (simp add: aarch64_vm_def mmu_page put_byte_def)
qed

section \<open>Properties\<close>

text \<open>A well-formed image at \<open>base\<close> whose pages and sections can be mapped: its bytes lie in
  memory no table and no free page owns, the pages are distinct and the pool is large enough.\<close>

definition loadable :: "u64 \<Rightarrow> elf_h \<Rightarrow> u64 \<Rightarrow> nat \<Rightarrow> (u64 \<Rightarrow> u8) \<Rightarrow> mm \<Rightarrow> bool" where
  "loadable lim L base n img m \<longleftrightarrow>
     elf_ok L base n img \<and> pt_inv lim m \<and> pages_left lim (4 * (n + length (elf_addrs L img base))) m \<and>
     distinct_pages (same_path 4) (elf_image_pages L base n img) \<and>
     (\<forall>v\<in>set (elf_image_pages L base n img). usable lim m v) \<and>
     (\<forall>j<n. page_frame (page_no base j)) \<and>
     (\<forall>j<n. \<forall>b<4096. data_byte lim m (page_no base j + of_nat b) \<and>
        mem_bytes m (page_no base j + of_nat b) = img (page_no base j + of_nat b))"

text \<open>The image itself is gone; all other pages translate as before.\<close>

definition unmapped :: "u64 \<Rightarrow> nat \<Rightarrow> mm \<Rightarrow> bool" where
  "unmapped base n m \<longleftrightarrow> (\<forall>j<n. mem_lookup_pa (page_no base j) m = - 1)"

definition others_kept :: "u64 \<Rightarrow> u64 list \<Rightarrow> mm \<Rightarrow> mm \<Rightarrow> bool" where
  "others_kept lim vs m m' \<longleftrightarrow>
     (\<forall>w. usable lim m w \<and> (\<forall>v\<in>set vs. \<not> same_path 4 v w) \<longrightarrow>
        usable lim m' w \<and> mem_lookup_pa w m' = mem_lookup_pa w m)"

lemma loadable_ready: "loadable lim L base n img (el1_mm s) \<Longrightarrow> el1_mem.ready lim s L base n img s"
  unfolding loadable_def el1_mem.ready_def using page_frame_neq_minus1 by (simp add: page_frame_def)

lemma only_mm: "s'\<lparr>el1_mm := el1_mm s\<rparr> = s \<Longrightarrow> s' = s\<lparr>el1_mm := el1_mm s'\<rparr>"
  by (drule arg_cong [where f = "\<lambda>t. t\<lparr>el1_mm := el1_mm s'\<rparr>"]) simp

lemma others_keptI: "el1_mem.others_stay lim vs s s' \<Longrightarrow> others_kept lim vs (el1_mm s) (el1_mm s')"
  by (simp add: el1_mem.others_stay_def others_kept_def)

lemma load_el0_aarch64:
  assumes "loadable lim L base n img (el1_mm s)"
  shows "\<exists>s'. (\<forall>late. el1_load_el0 L hw late base s = map_option (\<lambda>e. (False, e, s')) (late_entry L late base s')) \<and>
    s' = s\<lparr>el1_mm := el1_mm s'\<rparr> \<and>
    pt_inv lim (el1_mm s') \<and> sections_at (vm_rd aarch64_vm s') L base img \<and> unmapped base n (el1_mm s') \<and>
    others_kept lim (elf_image_pages L base n img) (el1_mm s) (el1_mm s')"
proof -
  obtain s' where s': "\<forall>late ret. load_el0 aarch64_vm L (\<lambda>s. map_option snd (smc hw SMC_OP_EXIT s)) late ret base s =
      map_option (\<lambda>e. (ret, e, s')) (late_entry L late base s')"
    "pt_inv lim (el1_mm s')" "s'\<lparr>el1_mm := el1_mm s\<rparr> = s" "\<forall>j<n. mem_lookup_pa (page_no base j) (el1_mm s') = - 1"
    "sections_at (vm_rd aarch64_vm s') L base img" "el1_mem.others_stay lim (elf_image_pages L base n img) s s'"
    using el1_mem.load_el0_ready [OF loadable_ready [OF assms], of "\<lambda>s. map_option snd (smc hw SMC_OP_EXIT s)"] by (elim exE conjE) rule
  show ?thesis
  proof (intro exI [of _ s'] conjI allI)
    show "el1_load_el0 L hw late base s = map_option (\<lambda>e. (False, e, s')) (late_entry L late base s')" for late
      unfolding el1_load_el0_def by (rule s'(1) [rule_format])
  qed (use s'(2-6) in \<open>simp_all add: unmapped_def others_keptI only_mm\<close>)
qed

lemma cached_entry_aarch64:
  "loadable lim L base n img (el1_mm s) \<Longrightarrow> header_cached base img late \<Longrightarrow>
   late_entry L late base s' = Some (fld (eh_entry L) img base)"
  using el1_mem.cached_entry [OF loadable_ready, of lim L base n img s late s'] by simp

text \<open>C16: on AArch64 the work of \<^verbatim>\<open>el1_load_el0\<close> on a well-formed image ends in one state, whatever
  becomes of its last step: there every byte of every page of the sections .text and .data is at
  the address the image names, no page of the image translates any more, the tables keep their
  invariant, every other page translates as before, and nothing but memory has changed. The last
  step is the load of the entry point from the header page, which has been unmapped by then: the
  function returns exactly when that load (\<open>late\<close>) is answered, with \<^verbatim>\<open>false\<close> and what it
  answered, which is the entry point of the image if the removed translation is still in the TLB
  (as the architecture permits and does not promise; without it the load is a data abort).\<close>

theorem el1_load_el0_loads:
  assumes "loadable lim L base n img (el1_mm s)"
  shows "\<exists>s'. (\<forall>late. el1_load_el0 L hw late base s = map_option (\<lambda>e. (False, e, s')) (late_entry L late base s')) \<and>
    (\<forall>late. header_cached base img late \<longrightarrow> late_entry L late base s' = Some (fld (eh_entry L) img base)) \<and>
    s' = s\<lparr>el1_mm := el1_mm s'\<rparr> \<and>
    pt_inv lim (el1_mm s') \<and> sections_at (vm_rd aarch64_vm s') L base img \<and> unmapped base n (el1_mm s') \<and>
    others_kept lim (elf_image_pages L base n img) (el1_mm s) (el1_mm s')"
proof -
  obtain s' where s': "\<forall>late. el1_load_el0 L hw late base s = map_option (\<lambda>e. (False, e, s')) (late_entry L late base s')"
    "s' = s\<lparr>el1_mm := el1_mm s'\<rparr>" "pt_inv lim (el1_mm s')" "sections_at (vm_rd aarch64_vm s') L base img"
    "unmapped base n (el1_mm s')" "others_kept lim (elf_image_pages L base n img) (el1_mm s) (el1_mm s')"
    using load_el0_aarch64 [OF assms, of hw] by (elim exE conjE) rule
  show ?thesis
    by (rule exI [of _ s'], intro conjI allI impI cached_entry_aarch64 [OF assms] s'(2-6)) (rule s'(1) [rule_format])
qed

text \<open>C17: \<^verbatim>\<open>el1_load_el0\<close> reads the entry point from the header after it has unmapped it: through
  the page tables as they are then, the load is a data abort and the loader does not return.\<close>

theorem el1_load_el0_faults:
  assumes "loadable lim L base n img (el1_mm s)" "0 < snd (eh_entry L)"
  shows "el1_load_el0 L hw (vm_rd aarch64_vm) base s = None"
  unfolding el1_load_el0_def by (rule el1_mem.load_el0_gone [OF loadable_ready [OF assms(1)] assms(2)])

end
