(* ===== verification/El1Start.thy ===== *)
theory El1Start
  imports El3Start ElfLoadOps
begin

text \<open>
  Start-up of an EL1 image, from the removal of the init section to the return to EL0: every
  step leaves the bytes of the EL0 image alone, which lie in memory no table and no free page
  owns, so the loader finds the image as the flash holds it.
\<close>

section \<open>Bytes through the start-up\<close>

definition data_kept :: "u64 \<Rightarrow> mm \<Rightarrow> mm \<Rightarrow> bool" where
  "data_kept lim s s' \<longleftrightarrow> (\<forall>a. data_byte lim s a \<longrightarrow> data_byte lim s' a \<and> mem_bytes s' a = mem_bytes s a)"

lemma data_kept_trans: "data_kept lim s s1 \<Longrightarrow> data_kept lim s1 s2 \<Longrightarrow> data_kept lim s s2"
  by (simp add: data_kept_def)

lemma unmap_any_data:
  assumes "pt_inv lim s" "usable lim s va"
  shows "data_kept lim s (snd (mem_unmap_va va s))"
proof (cases "mem_lookup_pa va s = - 1")
  case True
  then have "mem_unmap_va va s = (- 1, s)" using assms(1) by (intro lookup_minus1_unmap [of va s lim]) (auto simp: pt_inv_def)
  then show ?thesis by (simp add: data_kept_def)
next
  case False
  then obtain s' where "mem_unmap_va va s = (0, s')" using mem_unmap_va_unmaps [OF assms] by blast
  then show ?thesis using mem_unmap_va_data [OF assms(1)] by (simp add: data_kept_def)
qed

lemma unmap_loop_data:
  assumes "unat lim' = unat len + n * 4096" "pt_inv lim s" "\<forall>i<n. usable lim s (nth_page addr i)"
    "unmap_loop len lim' addr s = Some s'"
  shows "data_kept lim s s'"
  using assms
proof (induction n arbitrary: len addr s)
  case 0
  then have "\<not> len < lim'" by (simp add: word_less_nat_alt)
  then have "s' = s" using 0(4) by (subst (asm) unmap_loop.simps) simp
  then show ?case by (simp add: data_kept_def)
next
  case (Suc n)
  let ?s1 = "snd (mem_unmap_va addr s)"
  have less: "len < lim'" using Suc.prems(1) by (simp add: word_less_nat_alt)
  have u0: "usable lim s addr" using Suc.prems(3) by force
  note um = mem_unmap_va_any [OF Suc.prems(2) u0]
  have bound: "unat lim' < 2 ^ 64" by (rule unat_less_u64)
  then have "unat (len + PAGE_SIZE) = unat len + 4096"
    using Suc.prems(1) by (subst unat_add_small) (simp_all add: PAGE_SIZE_def)
  then have l: "unat lim' = unat (len + PAGE_SIZE) + n * 4096" using Suc.prems(1) by simp
  have pages: "\<forall>i<n. usable lim ?s1 (nth_page (addr + PAGE_SIZE) i)"
    using Suc.prems(3) um(5) nth_page_Suc [of addr] by (metis Suc_less_eq)
  have "unmap_loop (len + PAGE_SIZE) lim' (addr + PAGE_SIZE) ?s1 = Some s'"
    using Suc.prems(4) less by (subst (asm) unmap_loop.simps) simp
  then have "data_kept lim ?s1 s'" by (rule Suc.IH [OF l um(1) pages])
  then show ?case using data_kept_trans [OF unmap_any_data [OF Suc.prems(2) u0]] by blast
qed

lemma heap_pool_data: "data_kept lim s (s\<lparr>mem_heap_pool := h\<rparr>)"
  unfolding data_kept_def
  by (subst data_byte_cong [of "s\<lparr>mem_heap_pool := h\<rparr>" s lim]) (simp_all add: is_table_def in_pool_def)

lemma heap_one_page_data:
  assumes "pt_inv lim s" "pages_left lim 4 s" "mem_heap_allocate PAGE_SIZE s = Some (p, s')"
  shows "data_kept lim s s'"
proof -
  have "heap_map_loop 0x1000 0x1000 t = Some (0x1000, t)" for t by (subst heap_map_loop.simps) simp
  then have "heap_map_loop 0 PAGE_SIZE s =
      Option.bind (mem_map_va (mem_heap_pool s) 0 PTE_USER_RW s) (\<lambda>t. Some (PAGE_SIZE, t))"
    by (subst heap_map_loop.simps) (simp add: PAGE_SIZE_def cong: Option.bind_cong)
  then obtain s1 where s1: "mem_map_va (mem_heap_pool s) 0 PTE_USER_RW s = Some s1"
    "s' = s1\<lparr>mem_heap_pool := mem_heap_pool s1 + PAGE_SIZE\<rparr>"
    using assms(3) by (auto simp: mem_heap_allocate_def split: Option.bind_splits)
  have "data_kept lim s s1"
    using mem_map_va_data(1) [OF assms(1,2) _ s1(1)] by (simp add: data_kept_def)
  then show ?thesis using data_kept_trans heap_pool_data s1(2) by blast
qed

lemma map_pa_data_kept:
  "pt_inv lim s \<Longrightarrow> pages_left lim 3 s \<Longrightarrow> mem_map_pa va pa 0 pg s = Some s' \<Longrightarrow> data_kept lim s s'"
  using mem_map_pa_data [of lim s 0 va pa pg s'] by (simp add: data_kept_def)

lemma loadable_kept:
  assumes "loadable lim L base n img s" "pt_inv lim s'" "\<And>v. usable lim s v \<Longrightarrow> usable lim s' v" "data_kept lim s s'"
    "pages_left lim (4 * (n + length (elf_addrs L img base))) s'"
  shows "loadable lim L base n img s'"
  using assms unfolding loadable_def data_kept_def by metis

section \<open>The start-up\<close>

text \<open>The four steps before the loader, in terms of the tables.\<close>

lemma start_maps:
  assumes inv: "pt_inv lim m0" and room: "pages_left lim (10 + r) m0"
    and k: "k = (unat sz + 4095) div 4096" "unat sz + 4095 < 2 ^ 64"
    and us: "h = mem_heap_pool m0" "usable lim m0 h" "usable lim m0 bv" "\<forall>i<k. usable lim m0 (nth_page base i)"
    and apart: "\<not> same_path 4 bv h"
      "\<forall>i<k. \<not> same_path 4 h (nth_page base i) \<and> \<not> same_path 4 bv (nth_page base i)"
  obtains m1 m2 m3 m4 where
    "unmap_loop 0 ((sz + (PAGE_SIZE - 1)) AND NOT (PAGE_SIZE - 1)) base m0 = Some m1"
    "mem_heap_allocate PAGE_SIZE m1 = Some (h, m2)" "mem_map_pa h pa 0 PTE_USER_RW m2 = Some m3"
    "mem_map_pa bv bp 0 PTE_USER_RW m3 = Some m4" "pt_inv lim m4" "\<And>v. usable lim m0 v \<Longrightarrow> usable lim m4 v"
    "data_kept lim m0 m4" "pages_left lim r m4" "mem_lookup_pa h m4 = pa AND DESC_ADDR"
    "mem_lookup_pa bv m4 = bp AND DESC_ADDR" "\<And>i. i < k \<Longrightarrow> mem_lookup_pa (nth_page base i) m4 = - 1"
proof -
  let ?lim = "(sz + (PAGE_SIZE - 1)) AND NOT (PAGE_SIZE - 1)"
  have l: "unat ?lim = unat (0 :: u64) + k * 4096" using round_up_page [OF k(2)] k(1) by simp
  obtain m1 where m1: "unmap_loop 0 ?lim base m0 = Some m1" "pt_inv lim m1" "mem_next_pa m1 = mem_next_pa m0"
    "mem_heap_pool m1 = h" "\<And>v. usable lim m1 v = usable lim m0 v" "\<And>i. i < k \<Longrightarrow> mem_lookup_pa (nth_page base i) m1 = - 1"
    using unmap_loop_ok [OF l inv us(4)] us(1) by auto
  have left1: "pages_left lim 4 m1" using room m1(3) by (simp add: pages_left_def)
  obtain m2 where m2: "mem_heap_allocate PAGE_SIZE m1 = Some (h, m2)" "pt_inv lim m2"
    "unat (mem_next_pa m2) \<le> unat (mem_next_pa m1) + 4 * 4096" "\<And>v. usable lim m1 v \<Longrightarrow> usable lim m2 v"
    "\<And>v. usable lim m1 v \<Longrightarrow> \<not> same_path 4 h v \<Longrightarrow> mem_lookup_pa v m2 = mem_lookup_pa v m1"
    using heap_one_page [OF m1(2) left1] m1(4,5) us(2) by auto
  have left2: "pages_left lim 3 m2" using room m1(3) m2(3) by (simp add: pages_left_def)
  have u2: "usable lim m2 v" if "usable lim m0 v" for v using that m1(5) m2(4) by simp
  obtain m3 where m3: "mem_map_pa h pa 0 PTE_USER_RW m2 = Some m3" "maps_page lim h pa 3 m2 m3"
    using mem_map_pa_maps [OF m2(2) left2 u2 [OF us(2)], of 0 PTE_USER_RW pa] by auto
  note three = m3(2) [unfolded maps_page_def]
  have left3: "pages_left lim 3 m3" using room m1(3) m2(3) three by (simp add: pages_left_def)
  have u3: "usable lim m3 v" if "usable lim m0 v" for v using u2 [OF that] three by simp
  have inv3: "pt_inv lim m3" using three by simp
  obtain m4 where m4: "mem_map_pa bv bp 0 PTE_USER_RW m3 = Some m4" "maps_page lim bv bp 3 m3 m4"
    using mem_map_pa_maps [OF inv3 left3 u3 [OF us(3)], of 0 PTE_USER_RW bp] by auto
  note four = m4(2) [unfolded maps_page_def]
  have "data_kept lim m0 m4"
    using unmap_loop_data [OF l inv us(4) m1(1)] heap_one_page_data [OF m1(2) left1 m2(1)]
      map_pa_data_kept [OF m2(2) left2 m3(1)] map_pa_data_kept [OF inv3 left3 m4(1)] data_kept_trans by blast
  moreover have "pages_left lim r m4" using room m1(3) m2(3) three four by (simp add: pages_left_def)
  moreover have "mem_lookup_pa h m4 = pa AND DESC_ADDR" using u3 [OF us(2)] apart(1) four three by simp
  moreover have "mem_lookup_pa (nth_page base i) m4 = - 1" if i: "i < k" for i
  proof -
    have u: "usable lim m0 (nth_page base i)" using us(4) i by blast
    have "mem_lookup_pa (nth_page base i) m4 = mem_lookup_pa (nth_page base i) m3" using four u3 [OF u] apart(2) i by blast
    also have "\<dots> = mem_lookup_pa (nth_page base i) m2" using three u2 [OF u] apart(2) i by blast
    also have "\<dots> = - 1" using m2(5) [of "nth_page base i"] m1(5,6) u apart(2) i by simp
    finally show ?thesis .
  qed
  ultimately show ?thesis using that [OF m1(1) m2(1) m3(1) m4(1)] u3 four by blast
qed

text \<open>Starting an EL1 image, secure or not, with a well-formed address space and a
  well-formed EL0 image in its flash gets as far as the late load of the entry point, and if that
  is answered the exception return enters EL0 there: then no page of the init section translates, the heap page of the
  control block is the physical page EL3 passed, the interop buffer is where the control
  block says, and the sections of the EL0 image are at their addresses.\<close>

lemma el1_start_enters_el0:
  assumes img: "f = el0_flash_base (el1_secure s)" "loadable lim L f n img (el1_mm s)"
    and room: "pages_left lim (10 + 4 * (n + length (elf_addrs L img f))) (el1_mm s)"
    and k: "k = (unat sz + 4095) div 4096" "unat sz + 4095 < 2 ^ 64"
    and us: "h = mem_heap_pool (el1_mm s)" "usable lim (el1_mm s) h" "usable lim (el1_mm s) (buf_va blk)"
      "\<forall>i<k. usable lim (el1_mm s) (nth_page base i)"
    and apart: "\<not> same_path 4 (buf_va blk) h"
      "\<forall>i<k. \<not> same_path 4 h (nth_page base i) \<and> \<not> same_path 4 (buf_va blk) (nth_page base i)"
      "\<forall>v\<in>set (elf_image_pages L f n img). \<not> same_path 4 v h \<and> \<not> same_path 4 v (buf_va blk) \<and>
         (\<forall>i<k. \<not> same_path 4 v (nth_page base i))"
  shows "\<exists>s'. (\<forall>late. el1_start L hw late blk base sz s =
      map_option (\<lambda>e. (e, SPSR_EL0, s'\<lparr>el1_elr := e\<rparr>)) (late_entry L late f s')) \<and>
    (\<forall>late. header_cached f img late \<longrightarrow> late_entry L late f s' = Some (fld (eh_entry L) img f)) \<and>
    pt_inv lim (el1_mm s') \<and> el1_sysc_va s' = h \<and> el1_sysc s' = blk \<and>
    mem_lookup_pa h (el1_mm s') = el1_sysc_va s AND DESC_ADDR \<and>
    mem_lookup_pa (buf_va blk) (el1_mm s') = buf_pa blk AND DESC_ADDR \<and>
    (\<forall>i<k. mem_lookup_pa (nth_page base i) (el1_mm s') = - 1) \<and>
    sections_at (vm_rd aarch64_vm s') L f img"
proof -
  have inv: "pt_inv lim (el1_mm s)" using img(2) by (simp add: loadable_def)
  obtain m1 m2 m3 m4 where
    run: "unmap_loop 0 ((sz + (PAGE_SIZE - 1)) AND NOT (PAGE_SIZE - 1)) base (el1_mm s) = Some m1"
      "mem_heap_allocate PAGE_SIZE m1 = Some (h, m2)" "mem_map_pa h (el1_sysc_va s) 0 PTE_USER_RW m2 = Some m3"
      "mem_map_pa (buf_va blk) (buf_pa blk) 0 PTE_USER_RW m3 = Some m4"
    and m4: "pt_inv lim m4" "\<And>v. usable lim (el1_mm s) v \<Longrightarrow> usable lim m4 v" "data_kept lim (el1_mm s) m4"
      "pages_left lim (4 * (n + length (elf_addrs L img f))) m4" "mem_lookup_pa h m4 = el1_sysc_va s AND DESC_ADDR"
      "mem_lookup_pa (buf_va blk) m4 = buf_pa blk AND DESC_ADDR" "\<And>i. i < k \<Longrightarrow> mem_lookup_pa (nth_page base i) m4 = - 1"
    by (rule start_maps [OF inv room k us apart(1,2)]) blast
  have ld: "loadable lim L f n img m4" by (rule loadable_kept [OF img(2) m4(1-4)])
  let ?s4 = "s\<lparr>el1_mm := m4, el1_sysc_va := h, el1_sysc := blk\<rparr>"
  obtain s5 where s5: "\<And>late. el1_load_el0 L hw late f ?s4 = map_option (\<lambda>e. (False, e, s5)) (late_entry L late f s5)"
    "pt_inv lim (el1_mm s5)" "sections_at (vm_rd aarch64_vm s5) L f img"
    "others_kept lim (elf_image_pages L f n img) m4 (el1_mm s5)" "s5 = ?s4\<lparr>el1_mm := el1_mm s5\<rparr>"
    using load_el0_aarch64 [of lim L f n img ?s4 hw] ld by auto
  note five = s5(4) [unfolded others_kept_def, rule_format]
  have "mem_lookup_pa h (el1_mm s5) = el1_sysc_va s AND DESC_ADDR"
    "mem_lookup_pa (buf_va blk) (el1_mm s5) = buf_pa blk AND DESC_ADDR"
    using five [of h] five [of "buf_va blk"] m4(2,5,6) us(2,3) apart(3) by simp_all
  moreover have "mem_lookup_pa (nth_page base i) (el1_mm s5) = - 1" if "i < k" for i
    using five [of "nth_page base i"] m4(2,7) us(4) apart(3) that by simp
  moreover have "el1_start L hw late blk base sz s =
      map_option (\<lambda>e. (e, SPSR_EL0, s5\<lparr>el1_elr := e\<rparr>)) (late_entry L late f s5)" for late
    using run s5(1) img(1)
    by (cases "late_entry L late f s5") (simp_all add: el1_start_def el1_init_el0_def Let_def)
  moreover have "late_entry L late f s5 = Some (fld (eh_entry L) img f)" if "header_cached f img late" for late
    using cached_entry_aarch64 [of lim L f n img ?s4 late s5] ld that by simp
  moreover have "el1_sysc_va s5 = h" "el1_sysc s5 = blk" by (subst s5(5), simp)+
  ultimately show ?thesis using s5(2,3) by auto
qed

end
