(* ===== verification/PageTable32Demo.thy ===== *)
theory PageTable32Demo
  imports PageTable32Ops
begin

text \<open>
  A concrete AArch32 address space: the first-level table at address 0, one second-level
  table at 0x4000 for the first megabyte, the five pages they fill identity mapped, free pages
  from 0x5000 up to 0x10000 and the heap at 0x40000000.
\<close>

definition demo32 :: mm32 where
  "demo32 =
     wr32 (l1_pte 0 0) 0x4001
      (fold (\<lambda>t. wr32 (l2_pte 0x4000 t) (t OR 0x32)) [0, 0x1000, 0x2000, 0x3000, 0x4000]
        \<lparr>mem_pgtbl_base32 = 0, mem_next_pa32 = 0x5000, mem_heap_pool32 = 0x40000000,
         mem_bytes32 = (\<lambda>_. 0)\<rparr>)"

lemma demo32_globals:
  "mem_pgtbl_base32 demo32 = 0" "mem_next_pa32 demo32 = 0x5000" "mem_heap_pool32 demo32 = 0x40000000"
  by (simp_all add: demo32_def)

lemma page_index_eq:
  "(\<forall>k. 12 \<le> k \<and> k < 20 \<longrightarrow> bit v k = bit u k) \<longleftrightarrow> drop_bit 12 v AND 0xFF = drop_bit 12 u AND 0xFF"
  for v u :: u32
proof
  assume e: "\<forall>k. 12 \<le> k \<and> k < 20 \<longrightarrow> bit v k = bit u k"
  show "drop_bit 12 v AND 0xFF = drop_bit 12 u AND 0xFF"
    unfolding masks32 by (rule bit_word_eqI) (use e in \<open>auto simp: bit_simps\<close>)
next
  assume e: "drop_bit 12 v AND 0xFF = drop_bit 12 u AND 0xFF"
  show "\<forall>k. 12 \<le> k \<and> k < 20 \<longrightarrow> bit v k = bit u k"
  proof (intro allI impI)
    fix k :: nat assume k: "12 \<le> k \<and> k < 20"
    have "bit (drop_bit 12 v AND mask 8) (k - 12) = bit (drop_bit 12 u AND mask 8) (k - 12)"
      using e unfolding masks32 by simp
    then show "bit v k = bit u k" using k by (auto simp: bit_simps)
  qed
qed

lemmas l2_index_eq = l2_pte_eq [unfolded page_index_eq]

lemma rd32_zero:
  "rd32 \<lparr>mem_pgtbl_base32 = b, mem_next_pa32 = n, mem_heap_pool32 = h, mem_bytes32 = (\<lambda>_. 0)\<rparr> a = 0"
  by (simp add: rd32_def load32_def loadn_zero)

lemma demo32_l1: "rd32 demo32 (l1_pte 0 v) = (if drop_bit 20 v = 0 then 0x4001 else 0)"
proof -
  have ne: "l1_pte 0 w \<noteq> l2_pte 0x4000 u" for w u by (rule l1_l2_pte) simp
  show ?thesis
    unfolding demo32_def
    by (auto simp: rd32_pte l1_pte_eq ne same_mb_def rd32_zero)
qed

lemma demo32_l2:
  assumes "drop_bit 14 d \<noteq> 0"
  shows "rd32 demo32 (l2_pte d v) =
    (if drop_bit 10 d = 0x10 \<and> drop_bit 12 v AND 0xFF < 5 then push_bit 12 (drop_bit 12 v AND 0xFF) OR 0x32 else 0)"
proof -
  have ne: "l2_pte d v \<noteq> l1_pte 0 w" for w by (rule not_sym, rule l1_l2_pte) (use assms in simp)
  have lt: "x < 5 \<longleftrightarrow> x = 0 \<or> x = 1 \<or> x = 2 \<or> x = 3 \<or> x = 4" for x :: u32
    unfolding word_less_nat_alt word_unat_eq_iff by (simp) linarith
  define x where "x = drop_bit 12 v AND 0xFF"
  have "rd32 demo32 (l2_pte d v) =
    (if drop_bit 10 d = 0x10 then
       if x = 4 then 0x4032 else if x = 3 then 0x3032 else if x = 2 then 0x2032
       else if x = 1 then 0x1032 else if x = 0 then 0x32 else 0
     else 0)"
    unfolding demo32_def by (simp add: rd32_pte l2_index_eq ne rd32_zero flip: x_def)
  also have "\<dots> = (if drop_bit 10 d = 0x10 \<and> x < 5 then push_bit 12 x OR 0x32 else 0)"
    by (cases "x < 5") (auto simp: lt)
  finally show ?thesis by (simp only: x_def)
qed

lemma unat_drop: "unat (drop_bit n v) = unat v div 2 ^ n" for v :: u32
  by (metis drop_bit_eq_div unat_drop_bit_eq)

lemma drop_bit_less: "drop_bit 12 v < 5 \<longleftrightarrow> unat v < 0x5000" "drop_bit 20 v = 0 \<longleftrightarrow> unat v < 0x100000"
  "drop_bit 14 v = 0 \<longleftrightarrow> unat v < 0x4000" for v :: u32
  unfolding word_less_nat_alt word_unat_eq_iff unat_drop by (simp_all add: div_less_iff_less_mult div_eq_0_iff)

lemma demo32_tab: "tab32 demo32 v = (if unat v < 0x100000 then Some 0x4001 else None)"
  by (simp add: tab32_def demo32_globals demo32_l1 drop_bit_less)

lemma low_index32: "drop_bit 20 v = 0 \<Longrightarrow> drop_bit 12 v AND 0xFF = drop_bit 12 v" for v :: u32
proof -
  assume "drop_bit 20 v = 0"
  then have "drop_bit 20 v = drop_bit 20 0" by simp
  then have top: "\<not> bit v k" if "20 \<le> k" for k using that unfolding drop_bit_eq_iff by simp
  show ?thesis
    unfolding masks32
  proof (rule bit_word_eqI)
    fix n assume "n < LENGTH(32)"
    show "bit (drop_bit 12 v AND mask 8) n = bit (drop_bit 12 v) n"
      using top [of "12 + n"] by (cases "n < 8") (simp_all add: bit_simps)
  qed
qed

lemma demo32_desc:
  "unat v < 0x5000 \<Longrightarrow> rd32 demo32 (l2_pte 0x4001 v) = push_bit 12 (drop_bit 12 v) OR 0x32"
  "unat v < 0x100000 \<Longrightarrow> \<not> unat v < 0x5000 \<Longrightarrow> rd32 demo32 (l2_pte 0x4001 v) = 0"
  using low_index32 [of v] drop_bit_less [of v] by (simp_all add: demo32_l2)

lemma demo32_addr: "page_addr32 (push_bit 12 (drop_bit 12 v) OR 0x32) v = v"
proof -
  have m: "(0x32 :: u32) AND 0xFFFFF000 = 0" by simp
  have "push_bit 12 (drop_bit 12 v) AND 0xFFFFF000 OR v AND 0xFFF = v"
    unfolding masks32 by (rule bit_word_eqI) (auto simp: bit_simps)
  then show ?thesis using m by (simp add: page_addr32_def bit.conj_disj_distrib2)
qed

lemma demo32_xlat: "xlat32 demo32 v = (if unat v < 0x5000 then v else - 1)"
proof -
  have "(push_bit 12 (drop_bit 12 v) OR 0x32) AND PTE32_PAGE \<noteq> 0"
  proof -
    have "bit ((push_bit 12 (drop_bit 12 v) OR 0x32) AND PTE32_PAGE) 1"
      by (simp add: PTE32_PAGE_def bit_simps)
    then show ?thesis by auto
  qed
  then show ?thesis
    by (simp add: xlat32_def demo32_tab demo32_desc demo32_addr Let_def)
qed

lemma demo32_table: "is_table32 demo32 t \<longleftrightarrow> t AND 0xFFF = 0 \<and> unat t < 0x5000"
proof -
  have "drop_bit 12 t = 4 \<longleftrightarrow> unat t div 0x1000 = 4"
    unfolding word_unat_eq_iff unat_drop by simp
  moreover have "\<exists>va :: u32. unat va < 0x100000" by (rule exI [of _ 0]) simp
  ultimately show ?thesis
    unfolding is_table32_def demo32_tab demo32_globals by (auto simp: drop_bit_less)
qed

lemma demo32_pool: "in_pool32 0x10000 demo32 p \<longleftrightarrow> p AND 0xFFF = 0 \<and> 0x5000 \<le> unat p \<and> unat p < 0x10000"
  by (simp add: in_pool32_def demo32_globals word_le_nat_alt word_less_nat_alt)

lemma demo32_inv: "pt32_inv 0x10000 demo32"
proof -
  have "rd32 demo32 (l2_pte p v) = 0" if "0x5000 \<le> unat p" for p v
  proof -
    have "drop_bit 10 p \<noteq> 0x10" using that unfolding word_unat_eq_iff unat_drop by simp
    then show ?thesis using demo32_l2 [of p v] that by (simp add: drop_bit_less)
  qed
  moreover have "same_mb v u" if "unat v < 0x100000" "unat u < 0x100000" for v u
    using that drop_bit_less(2) [of v] drop_bit_less(2) [of u] by (simp add: same_mb_def)
  ultimately show ?thesis
    by (auto simp: pt32_inv_def pt32_wf_def pt32_ident_def demo32_tab demo32_table demo32_pool
      demo32_xlat demo32_globals split: if_splits)
qed

lemma demo32_usable: "0x10000 \<le> unat v \<Longrightarrow> usable32 0x10000 demo32 v"
proof -
  assume v: "0x10000 \<le> unat v"
  have "drop_bit 12 t \<noteq> drop_bit 12 v" if "unat t < 0x10000" for t
    using v that div_le_mono [OF v, of 4096] by (auto simp: word_unat_eq_iff unat_drop div_less_iff_less_mult)
  then show ?thesis by (auto simp: usable32_def demo32_table demo32_pool same_page32_def)
qed

lemma demo32_room: "n \<le> 11 \<Longrightarrow> room32 0x10000 n demo32"
  by (simp add: room32_def demo32_globals)

lemma mem_map_pa32_correct_witness:
  "\<exists>s'. mem_map_pa32 0x200000 0x9000 0 PTE32_USER_RW demo32 = Some s' \<and> pt32_inv 0x10000 s' \<and>
     xlat32 s' 0x200000 = 0x9000 \<and> mem_lookup_pa32 0x200000 s' = 0x9000"
  using mem_map_pa32_correct [OF demo32_inv demo32_room demo32_usable,
      where va = "0x200000" and tblattr = 0 and pgattr = PTE32_USER_RW and pa = "0x9000"]
  by (auto simp: PTE32_USER_RW_def page_addr32_def)

lemma mem_unmap_va32_unnoticed_witness:
  "\<exists>s s'. mem_map_pa32 0x200000 0x9000 0 PTE32_USER_RW demo32 = Some s \<and>
     mem_unmap_va32 0x200000 s = (0, s') \<and> xlat32 s' 0x200000 = - 1 \<and> mem_lookup_pa32 0x200000 s' = 0"
proof -
  obtain s where s: "mem_map_pa32 0x200000 0x9000 0 PTE32_USER_RW demo32 = Some s" "keeps32 0x10000 demo32 s"
    "xlat32 s 0x200000 = page_addr32 0x9000 0x200000"
    using mem_map_pa32_maps [OF demo32_inv demo32_room demo32_usable,
      where va = "0x200000" and ta = 0 and at = PTE32_USER_RW and pa = "0x9000"]
    by (auto simp: PTE32_USER_RW_def)
  then have "pt32_inv 0x10000 s" "usable32 0x10000 s 0x200000"
    using demo32_usable [of "0x200000"] by (auto simp: keeps32_def)
  then show ?thesis
    using mem_unmap_va32_unnoticed [where lim = "0x10000" and s = s and va = "0x200000"] s by (auto simp: page_addr32_def)
qed

lemma mem_heap_allocate32_backs_witness:
  "\<exists>s'. mem_heap_allocate32 0x1800 demo32 = Some (0x40000000, s') \<and> pt32_inv 0x10000 s' \<and>
     mem_heap_pool32 s' = 0x40002000 \<and> 0x5000 \<le> xlat32 s' 0x40000000 \<and>
     xlat32 s' 0x40000000 < xlat32 s' 0x40001000"
proof -
  have us: "\<forall>i<2. usable32 0x10000 demo32 (mem_heap_pool32 demo32 + push_bit 12 (of_nat i))"
    by (auto simp: less_2_cases_iff demo32_globals intro!: demo32_usable)
  show ?thesis
    using mem_heap_allocate32_backs [OF demo32_inv _ _ us demo32_room, of "0x1800"]
    by (auto simp: demo32_globals less_2_cases_iff)
qed

end
