(* ===== verification/ElfDemo.thy ===== *)
theory ElfDemo
  imports ElfLoad32 El1Start El3Demo PageTable32Demo
begin

text \<open>
  Two EL0 images of two pages, one of each ELF class, and the closed instances of the loader
  properties: a header, a section \<^verbatim>\<open>.text\<close> of one page with two instructions, linked at
  0x80010000, the section names, and two section headers at 0x1100.
\<close>

section \<open>The images\<close>

definition elf64 :: elf_h where
  "elf64 = \<lparr>eh_mag = [(0, 0x7f), (1, 0x45), (2, 0x4c), (3, 0x46)], eh_machine = (18, 2), eh_shoff = (40, 8),
     eh_shentsize = (58, 2), eh_shnum = (60, 2), eh_shstrndx = (62, 2), eh_entry = (24, 8), sh_name = (0, 4),
     sh_addr = (16, 8), sh_offset = (24, 8), sh_size = (32, 8), sizeof_shdr = 64, em_arm = 40, em_aarch64 = 183\<rparr>"

definition elf32 :: elf_h where
  "elf32 = \<lparr>eh_mag = [(0, 0x7f), (1, 0x45), (2, 0x4c), (3, 0x46)], eh_machine = (18, 2), eh_shoff = (32, 4),
     eh_shentsize = (46, 2), eh_shnum = (48, 2), eh_shstrndx = (50, 2), eh_entry = (24, 4), sh_name = (0, 4),
     sh_addr = (12, 4), sh_offset = (16, 4), sh_size = (20, 4), sizeof_shdr = 40, em_arm = 40, em_aarch64 = 183\<rparr>"

definition image64 :: "(nat \<times> u8) list" where
  "image64 =
    [(0x0, 0x7f), (0x1, 0x45), (0x2, 0x4c), (0x3, 0x46), (0x12, 0xb7), (0x1a, 0x1),
     (0x1b, 0x80), (0x29, 0x11), (0x3a, 0x40), (0x3c, 0x2), (0x3e, 0x1), (0x1000, 0x1f),
     (0x1001, 0x20), (0x1002, 0x3), (0x1003, 0xd5), (0x1004, 0xc0), (0x1005, 0x3),
     (0x1006, 0x5f), (0x1007, 0xd6), (0x1011, 0x2e), (0x1012, 0x74), (0x1013, 0x65),
     (0x1014, 0x78), (0x1015, 0x74), (0x1100, 0x1), (0x1112, 0x1), (0x1113, 0x80),
     (0x1119, 0x10), (0x1120, 0x8), (0x1158, 0x10), (0x1159, 0x10), (0x1160, 0x7)]"

definition image32 :: "(nat \<times> u8) list" where
  "image32 =
    [(0x0, 0x7f), (0x1, 0x45), (0x2, 0x4c), (0x3, 0x46), (0x12, 0x28), (0x1a, 0x1),
     (0x1b, 0x80), (0x21, 0x11), (0x2e, 0x28), (0x30, 0x2), (0x32, 0x1), (0x1001, 0xf0),
     (0x1002, 0x20), (0x1003, 0xe3), (0x1004, 0x1e), (0x1005, 0xff), (0x1006, 0x2f),
     (0x1007, 0xe1), (0x1011, 0x2e), (0x1012, 0x74), (0x1013, 0x65), (0x1014, 0x78),
     (0x1015, 0x74), (0x1100, 0x1), (0x110e, 0x1), (0x110f, 0x80), (0x1111, 0x10),
     (0x1114, 0x8), (0x1138, 0x10), (0x1139, 0x10), (0x113c, 0x7)]"

definition byte_at :: "(nat \<times> u8) list \<Rightarrow> nat \<Rightarrow> u8" where
  "byte_at bs k = (case map_of bs k of None \<Rightarrow> 0 | Some x \<Rightarrow> x)"

definition image_at :: "(nat \<times> u8) list \<Rightarrow> 'w::len word \<Rightarrow> 'w word \<Rightarrow> u8" where
  "image_at bs base a = byte_at bs (unat (a - base))"

text \<open>Reading an image, by offsets.\<close>

primrec val_at :: "(nat \<times> u8) list \<Rightarrow> nat \<Rightarrow> nat \<Rightarrow> u64" where
  "val_at bs 0 k = 0"
| "val_at bs (Suc n) k = ucast (byte_at bs k) OR push_bit 8 (val_at bs n (Suc k))"

primrec str_in :: "(nat \<times> u8) list \<Rightarrow> nat \<Rightarrow> u8 list \<Rightarrow> bool" where
  "str_in bs k [] \<longleftrightarrow> byte_at bs k = 0"
| "str_in bs k (x # xs) \<longleftrightarrow> byte_at bs k = x \<and> str_in bs (Suc k) xs"

lemma image_at_offset: "k < 2 ^ LENGTH('w) \<Longrightarrow> image_at bs base (base + of_nat k) = byte_at bs k" for base :: "'w::len word"
  by (simp add: image_at_def unsigned_of_nat take_bit_nat_eq_self)

lemma imgn_image: "k + n \<le> 2 ^ LENGTH('w) \<Longrightarrow> imgn n (image_at bs base) (base + of_nat k) = val_at bs n k" for base :: "'w::len word"
proof (induction n arbitrary: k)
  case (Suc n)
  have e: "base + of_nat k + 1 = base + of_nat (Suc k)" by (simp add: add.assoc)
  show ?case
    unfolding imgn.simps val_at.simps e using Suc.IH [of "Suc k"] Suc.prems image_at_offset [of k bs base] by simp
qed simp

lemma fld_image:
  "k + fst f + snd f \<le> 2 ^ LENGTH('w) \<Longrightarrow> fld f (image_at bs base) (base + of_nat k) = val_at bs (snd f) (k + fst f)"
  for base :: "'w::len word"
  using imgn_image [of "k + fst f" "snd f" bs base] by (simp add: fld_def add.assoc)

lemma str_at_image:
  "k + length xs < 2 ^ LENGTH('w) \<Longrightarrow> str_at (image_at bs base) (base + of_nat k) xs \<longleftrightarrow> str_in bs k xs"
  for base :: "'w::len word"
proof (induction xs arbitrary: k)
  case Nil
  then show ?case by (simp add: image_at_offset)
next
  case (Cons x xs)
  have e: "base + of_nat k + 1 = base + of_nat (Suc k)" by (simp add: add.assoc)
  show ?case
    unfolding str_at.simps str_in.simps e using Cons.IH [of "Suc k"] Cons.prems image_at_offset [of k bs base] by simp
qed

lemma in_img_offset_iff: "k < 2 ^ LENGTH('w) \<Longrightarrow> in_img base n (base + of_nat k) w \<longleftrightarrow> k + w \<le> n * 4096"
  for base :: "'w::len word"
  by (simp add: in_img_def unsigned_of_nat take_bit_nat_eq_self)


lemma byte_at_simps [simp]:
  "byte_at [] k = 0" "byte_at ((i, x) # bs) k = (if k = i then x else byte_at bs k)"
  by (simp_all add: byte_at_def)

lemma val_at_numeral [simp]:
  "val_at bs (numeral n) k = ucast (byte_at bs k) OR push_bit 8 (val_at bs (pred_numeral n) (Suc k))"
  by (simp add: numeral_eq_Suc)

lemma elf64_sel [simp]:
  "eh_machine elf64 = (18, 2)" "eh_shoff elf64 = (40, 8)" "eh_shentsize elf64 = (58, 2)" "eh_shnum elf64 = (60, 2)"
  "eh_shstrndx elf64 = (62, 2)" "eh_entry elf64 = (24, 8)" "sh_name elf64 = (0, 4)" "sh_addr elf64 = (16, 8)"
  "sh_offset elf64 = (24, 8)" "sh_size elf64 = (32, 8)" "sizeof_shdr elf64 = 64" "em_arm elf64 = 40" "em_aarch64 elf64 = 183"
  by (simp_all add: elf64_def)

lemma elf32_sel [simp]:
  "eh_machine elf32 = (18, 2)" "eh_shoff elf32 = (32, 4)" "eh_shentsize elf32 = (46, 2)" "eh_shnum elf32 = (48, 2)"
  "eh_shstrndx elf32 = (50, 2)" "eh_entry elf32 = (24, 4)" "sh_name elf32 = (0, 4)" "sh_addr elf32 = (12, 4)"
  "sh_offset elf32 = (16, 4)" "sh_size elf32 = (20, 4)" "sizeof_shdr elf32 = 40" "em_arm elf32 = 40" "em_aarch64 elf32 = 183"
  by (simp_all add: elf32_def)

lemma val64:
  "val_at image64 2 18 = 183" "val_at image64 8 40 = 0x1100" "val_at image64 2 58 = 64" "val_at image64 2 60 = 2"
  "val_at image64 2 62 = 1" "val_at image64 8 24 = 0x80010000"
  "val_at image64 4 0x1100 = 1" "val_at image64 8 0x1110 = 0x80010000" "val_at image64 8 0x1118 = 0x1000" "val_at image64 8 0x1120 = 8"
  "val_at image64 4 0x1140 = 0" "val_at image64 8 0x1150 = 0" "val_at image64 8 0x1158 = 0x1010" "val_at image64 8 0x1160 = 7"
  unfolding image64_def by simp_all

lemma names64: "str_in image64 0x1011 dot_text" "\<not> str_in image64 0x1010 dot_text" "\<not> str_in image64 0x1010 dot_data"
  unfolding image64_def dot_text_def dot_data_def by simp_all

lemma fields64:
  fixes base :: u64
  shows "fld (18, 2) (image_at image64 base) base = 183" "fld (40, 8) (image_at image64 base) base = 0x1100"
    "fld (58, 2) (image_at image64 base) base = 64" "fld (60, 2) (image_at image64 base) base = 2"
    "fld (62, 2) (image_at image64 base) base = 1" "fld (24, 8) (image_at image64 base) base = 0x80010000"
  using fld_image [of 0 _ image64 base] by (simp_all add: val64 del: val_at_numeral)

lemma fields64_sec:
  fixes base :: u64
  shows "fld (0, 4) (image_at image64 base) (base + 0x1100) = 1"
    "fld (16, 8) (image_at image64 base) (base + 0x1100) = 0x80010000"
    "fld (24, 8) (image_at image64 base) (base + 0x1100) = 0x1000"
    "fld (32, 8) (image_at image64 base) (base + 0x1100) = 8"
    "fld (0, 4) (image_at image64 base) (base + 0x1140) = 0"
    "fld (24, 8) (image_at image64 base) (base + 0x1140) = 0x1010"
  using fld_image [of "0x1100" _ image64 base] fld_image [of "0x1140" _ image64 base]
  by (simp_all add: val64 del: val_at_numeral)

lemma image64_parts:
  fixes base :: u64
  defines "img \<equiv> image_at image64 base"
  shows "img_len elf64 img base = 0x1180" "elf_shnum elf64 img base = 2" "elf_strx elf64 img base = 1"
    "elf_hdr elf64 img base 0 = base + 0x1100" "elf_hdr elf64 img base (Suc 0) = base + 0x1140"
    "sec_src elf64 img base 0 = base + 0x1000" "sec_src elf64 img base (Suc 0) = base + 0x1010"
    "sec_name elf64 img base 0 = base + 0x1011" "sec_name elf64 img base (Suc 0) = base + 0x1010"
    "sec_va elf64 img base 0 = 0x80010000" "sec_size elf64 img base 0 = 8" "sec_pages elf64 img base 0 = 1"
    "fld (eh_entry elf64) img base = 0x80010000"
  by (simp_all add: img_len_def elf_shnum_def elf_strx_def elf_hdr_def sec_src_def sec_name_def sec_va_def
      sec_size_def sec_pages_def img_def fields64 fields64_sec fields64_sec [of base, unfolded add.commute [of base]])

lemma image64_loaded:
  fixes base :: u64
  shows "loaded elf64 (image_at image64 base) base 0" "\<not> loaded elf64 (image_at image64 base) base (Suc 0)"
  using str_at_image [of "0x1011" dot_text image64 base] str_at_image [of "0x1010" dot_text image64 base]
    str_at_image [of "0x1010" dot_data image64 base]
  by (simp_all add: loaded_def image64_parts names64) (simp_all add: dot_text_def dot_data_def)

lemma image64_ok:
  fixes base :: u64
  assumes "take_bit 12 base = 0"
  shows "elf_ok elf64 base 2 (image_at image64 base)"
proof -
  have "\<forall>x\<in>set (eh_mag elf64). fst x < 4096 \<and> byte_at image64 (fst x) = snd x"
    by (simp add: elf64_def image64_def)
  then have mag: "\<forall>x\<in>set (eh_mag elf64). fst x < 4096 \<and> image_at image64 base (base + of_nat (fst x)) = snd x"
    using image_at_offset [of _ image64 base] by (fastforce intro: less_trans)
  have "(0x80010000 :: u64) = push_bit 12 0x80010" by simp
  then have al: "take_bit 12 (0x80010000 :: u64) = 0" by (simp only: take_bit_push_bit) simp
  have secs: "(\<forall>i<2. P i) \<longleftrightarrow> P 0 \<and> P (Suc 0)" for P :: "nat \<Rightarrow> bool"
    by (auto simp: less_2_cases_iff)
  show ?thesis
    using assms mag image64_loaded [of base] al unfolding elf_ok_def image64_parts secs
    by (simp add: image64_parts fields64 in_img_def)
qed

section \<open>An AArch64 memory with the image\<close>

text \<open>The address space of \<open>PageTableDemo\<close> with fewer free pages and the image where the flash has
  that of secure EL0.\<close>

lemma pt_inv_less: "pt_inv lim s \<Longrightarrow> lim' \<le> lim \<Longrightarrow> pt_inv lim' s"
  unfolding pt_inv_def pt_wf_def in_pool_def by (meson order_trans order_less_le_trans)

definition flash_mm :: mm where
  "flash_mm = demo_mm\<lparr>mem_bytes := (\<lambda>a. if drop_bit 12 a = 0x50 \<or> drop_bit 12 a = 0x51
     then image_at image64 0x50000 a else mem_bytes demo_mm a)\<rparr>"

lemma same_path_drop:
  assumes "same_path 4 t v" "t < 2 ^ 48" "v < 2 ^ 48"
  shows "drop_bit 12 t = drop_bit 12 v"
proof (rule bit_word_eqI)
  fix k assume "k < LENGTH(64)"
  have top: "\<not> bit w j" if "w < 2 ^ 48" "48 \<le> j" for w :: u64 and j
  proof -
    have "take_bit 48 w = w" using that(1) by (simp add: take_bit_eq_self_iff_drop_bit_eq_0 drop_bit_eq_div div_word_less)
    then show ?thesis using that(2) by (metis bit_take_bit_iff not_le)
  qed
  show "bit (drop_bit 12 t) k = bit (drop_bit 12 v) k"
    using assms(1) top [OF assms(2)] top [OF assms(3)] unfolding same_path_bits bit_drop_bit_eq
    by (cases "12 + k < 48") (auto simp: not_less)
qed

lemma flash_reserved: "is_table demo_mm t \<or> in_pool 0x50000 demo_mm t \<Longrightarrow> unat t < 0x50000"
  by (auto simp: demo_table in_pool_def word_less_nat_alt)

lemma unat_drop12: "unat (drop_bit 12 (a :: u64)) = unat a div 4096"
  by (simp add: drop_bit_eq_div unat_div)

lemma flash_usable: "0x50000 \<le> unat v \<Longrightarrow> unat v < 2 ^ 48 \<Longrightarrow> usable 0x50000 demo_mm v"
  unfolding usable_def reserved_def
proof clarify
  fix t assume v: "0x50000 \<le> unat v" "unat v < 2 ^ 48" and t: "is_table demo_mm t \<or> in_pool 0x50000 demo_mm t"
    and p: "same_path 4 t v"
  have "unat t < 0x50000" by (rule flash_reserved [OF t])
  then have "drop_bit 12 t = drop_bit 12 v" using v by (intro same_path_drop [OF p]) (simp_all add: word_less_nat_alt)
  then have "unat t div 4096 = unat v div 4096" by (metis unat_drop12)
  then show False using v(1) \<open>unat t < 0x50000\<close> div_le_mono [OF v(1), of 4096] by (simp add: div_less_iff_less_mult)
qed

lemma flash_data: "0x50 \<le> unat (drop_bit 12 a) \<Longrightarrow> data_byte 0x50000 demo_mm a"
  unfolding data_byte_def
proof (intro allI impI)
  fix t assume a: "0x50 \<le> unat (drop_bit 12 a)" and "is_table demo_mm t \<or> in_pool 0x50000 demo_mm t"
  then have "unat (drop_bit 12 t) < 0x50" using flash_reserved by (simp add: unat_drop12 div_less_iff_less_mult)
  then show "drop_bit 12 a \<noteq> drop_bit 12 t" using a by auto
qed

lemma flash_frame:
  "pt_inv 0x50000 flash_mm" "usable 0x50000 flash_mm = usable 0x50000 demo_mm"
  "data_byte 0x50000 flash_mm = data_byte 0x50000 demo_mm" "pages_left 0x50000 k flash_mm = pages_left 0x50000 k demo_mm"
proof -
  have inv: "pt_inv 0x50000 demo_mm" by (rule pt_inv_less [OF demo_inv]) simp
  have same: "(if drop_bit 12 a = 0x50 \<or> drop_bit 12 a = 0x51 then image_at image64 0x50000 a else mem_bytes demo_mm a) =
      mem_bytes demo_mm a" if "\<not> data_byte 0x50000 demo_mm a" for a
    using that flash_data [of a] by auto
  note f = bytes_frame [OF inv same, folded flash_mm_def]
  show "pt_inv 0x50000 flash_mm" "usable 0x50000 flash_mm = usable 0x50000 demo_mm"
    "data_byte 0x50000 flash_mm = data_byte 0x50000 demo_mm" "pages_left 0x50000 k flash_mm = pages_left 0x50000 k demo_mm"
    using f(4,5,7,8) by blast+
qed

lemma image64_pages: "elf_image_pages elf64 base 2 (image_at image64 base) = [base, base + 0x1000, 0x80010000]"
  for base :: u64
proof -
  have two: "[0..<2] = [0, Suc 0]" by (simp add: numeral_2_eq_2)
  have "sec_addrs elf64 (image_at image64 base) base 0 = [0x80010000]"
    "sec_addrs elf64 (image_at image64 base) base (Suc 0) = []"
    using image64_loaded [of base] by (simp_all add: sec_addrs_def image64_parts)
  then have "elf_addrs elf64 (image_at image64 base) base = [0x80010000]"
    unfolding elf_addrs_def image64_parts two by simp
  then show ?thesis unfolding elf_image_pages_def two by simp
qed

lemma flash_loadable: "loadable 0x50000 elf64 0x50000 2 (image_at image64 0x50000) flash_mm"
proof -
  let ?img = "image_at image64 (0x50000 :: u64)"
  have "(0x50000 :: u64) = push_bit 12 0x50" by simp
  then have "take_bit 12 (0x50000 :: u64) = 0" by (simp only: take_bit_push_bit) simp
  then have ok: "elf_ok elf64 (0x50000 :: u64) 2 ?img" by (rule image64_ok)
  have apart: "\<not> same_path 4 0x50000 0x51000" "\<not> same_path 4 0x50000 0x80010000" "\<not> same_path 4 0x51000 0x80010000"
    by (auto dest!: same_path_drop)
  have us: "usable 0x50000 flash_mm v" if "v \<in> {0x50000, 0x51000, 0x80010000}" for v
    using that by (auto simp: flash_frame intro!: flash_usable)
  have len: "length (elf_addrs elf64 ?img (0x50000 :: u64)) = 1"
    using arg_cong [OF image64_pages [of "0x50000"], of length] unfolding elf_image_pages_def by simp
  have bytes: "data_byte 0x50000 flash_mm (page_no 0x50000 j + of_nat b) \<and>
      mem_bytes flash_mm (page_no 0x50000 j + of_nat b) = ?img (page_no 0x50000 j + of_nat b)"
    if "j < 2" "b < 4096" for j b
  proof -
    have "take_bit 12 (page_no 0x50000 j :: u64) = 0" by (rule page_no_aligned) fact
    then have d: "drop_bit 12 (page_no 0x50000 j + of_nat b) = drop_bit 12 (page_no 0x50000 j :: u64)"
      by (rule page_offset [OF _ that(2)])
    have "drop_bit 12 (page_no 0x50000 j + of_nat b) = (0x50 :: u64) \<or> drop_bit 12 (page_no 0x50000 j + of_nat b) = (0x51 :: u64)"
      unfolding d using that(1) by (auto simp: less_2_cases_iff)
    then show ?thesis using flash_data by (auto simp: flash_frame) (auto simp: flash_mm_def)
  qed
  have room: "pages_left 0x50000 (4 * (2 + 1)) flash_mm" unfolding flash_frame by (simp add: pages_left_def demo_mm_def)
  show ?thesis
    unfolding loadable_def image64_pages len
    using ok us apart bytes room flash_frame(1) by (auto simp: page_frame_def DESC_ADDR_def less_2_cases_iff)
qed

section \<open>Witnesses on AArch64\<close>

definition demo_el1 :: el1 where
  "demo_el1 = \<lparr>ibuf = zero_desc, el1_secure = SECURE, el1_mm = flash_mm, el1_sysc = demo_syscntl, el1_sysc_va = 0x90000000,
     el1_tcnt = \<lparr>tc_fail_count = 0, tc_test_count = 0\<rparr>, el1_elr = 0, el1_ran = []\<rparr>"

definition demo_tlb :: "el1 \<Rightarrow> u64 \<Rightarrow> u8 option" where
  "demo_tlb s a = Some (image_at image64 0x50000 a)"

definition load_hw :: "el1 services" where
  "load_hw = \<lparr>smc = (\<lambda>op s. None), mrs = (\<lambda>k s. Some (0, s)), msr = (\<lambda>k v s. Some s), call = (\<lambda>f x s. Some s)\<rparr>"

lemma demo_tlb_cached: "header_cached 0x50000 (image_at image64 0x50000) demo_tlb"
  by (simp add: header_cached_def demo_tlb_def)

lemma el1_load_el0_loads_witness:
  "\<exists>s'. el1_load_el0 elf64 load_hw demo_tlb 0x50000 demo_el1 = Some (False, 0x80010000, s') \<and>
     mem_lookup_pa 0x50000 (el1_mm s') = - 1 \<and>
     vm_rd aarch64_vm s' 0x80010000 = Some 0x1f \<and> vm_rd aarch64_vm s' 0x80010003 = Some 0xd5"
proof -
  have "loadable 0x50000 elf64 0x50000 2 (image_at image64 0x50000) (el1_mm demo_el1)"
    using flash_loadable by (simp add: demo_el1_def)
  then obtain s' where s': "el1_load_el0 elf64 load_hw demo_tlb 0x50000 demo_el1 = Some (False, 0x80010000, s')"
    "sections_at (vm_rd aarch64_vm s') elf64 0x50000 (image_at image64 0x50000)" "unmapped 0x50000 2 (el1_mm s')"
    using el1_load_el0_loads [of "0x50000" elf64 "0x50000" 2 "image_at image64 0x50000" demo_el1 load_hw] demo_tlb_cached
    by (auto simp: fields64)
  have "vm_rd aarch64_vm s' (0x80010000 + of_nat b) = Some (image_at image64 (0x50000 :: u64) (0x51000 + of_nat b))" if "b < 4096" for b
    using s'(2) [unfolded sections_at_def, rule_format, of 0 0 b] image64_loaded(1) [of "0x50000"] that
    by (simp add: image64_parts)
  from this [of 0] this [of 3] have "vm_rd aarch64_vm s' 0x80010000 = Some 0x1f" "vm_rd aarch64_vm s' 0x80010003 = Some 0xd5"
    by (simp_all add: image_at_def image64_def)
  moreover have "mem_lookup_pa 0x50000 (el1_mm s') = - 1" using s'(3) by (force simp: unmapped_def)
  ultimately show ?thesis using s'(1) by blast
qed

lemma el1_load_el0_faults_witness:
  "0 < snd (eh_entry elf64) \<and> el1_load_el0 elf64 load_hw (vm_rd aarch64_vm) 0x50000 demo_el1 = None"
  using el1_load_el0_faults [of "0x50000" elf64 "0x50000" 2 "image_at image64 0x50000" demo_el1 load_hw] flash_loadable
  by (simp add: demo_el1_def)

section \<open>The AArch32 image and its memory\<close>

lemma val32:
  "val_at image32 2 18 = 40" "val_at image32 4 32 = 0x1100" "val_at image32 2 46 = 40" "val_at image32 2 48 = 2"
  "val_at image32 2 50 = 1" "val_at image32 4 24 = 0x80010000"
  "val_at image32 4 0x1100 = 1" "val_at image32 4 0x110c = 0x80010000" "val_at image32 4 0x1110 = 0x1000" "val_at image32 4 0x1114 = 8"
  "val_at image32 4 0x1128 = 0" "val_at image32 4 0x1138 = 0x1010"
  unfolding image32_def by simp_all

lemma names32: "str_in image32 0x1011 dot_text" "\<not> str_in image32 0x1010 dot_text" "\<not> str_in image32 0x1010 dot_data"
  unfolding image32_def dot_text_def dot_data_def by simp_all

lemma fields32:
  fixes base :: u32
  shows "fld (18, 2) (image_at image32 base) base = 40" "fld (32, 4) (image_at image32 base) base = 0x1100"
    "fld (46, 2) (image_at image32 base) base = 40" "fld (48, 2) (image_at image32 base) base = 2"
    "fld (50, 2) (image_at image32 base) base = 1" "fld (24, 4) (image_at image32 base) base = 0x80010000"
  using fld_image [of 0 _ image32 base] by (simp_all add: val32 del: val_at_numeral)

lemma fields32_sec:
  fixes base :: u32
  shows "fld (0, 4) (image_at image32 base) (base + 0x1100) = 1"
    "fld (12, 4) (image_at image32 base) (base + 0x1100) = 0x80010000"
    "fld (16, 4) (image_at image32 base) (base + 0x1100) = 0x1000"
    "fld (20, 4) (image_at image32 base) (base + 0x1100) = 8"
    "fld (0, 4) (image_at image32 base) (base + 0x1128) = 0"
    "fld (16, 4) (image_at image32 base) (base + 0x1128) = 0x1010"
  using fld_image [of "0x1100" _ image32 base] fld_image [of "0x1128" _ image32 base]
  by (simp_all add: val32 del: val_at_numeral)

lemma image32_parts:
  fixes base :: u32
  defines "img \<equiv> image_at image32 base"
  shows "img_len elf32 img base = 0x1150" "elf_shnum elf32 img base = 2" "elf_strx elf32 img base = 1"
    "elf_hdr elf32 img base 0 = base + 0x1100" "elf_hdr elf32 img base (Suc 0) = base + 0x1128"
    "sec_src elf32 img base 0 = base + 0x1000" "sec_src elf32 img base (Suc 0) = base + 0x1010"
    "sec_name elf32 img base 0 = base + 0x1011" "sec_name elf32 img base (Suc 0) = base + 0x1010"
    "sec_va elf32 img base 0 = 0x80010000" "sec_size elf32 img base 0 = 8" "sec_pages elf32 img base 0 = 1"
    "fld (eh_entry elf32) img base = 0x80010000"
  by (simp_all add: img_len_def elf_shnum_def elf_strx_def elf_hdr_def sec_src_def sec_name_def sec_va_def
      sec_size_def sec_pages_def img_def fields32 fields32_sec fields32_sec [of base, unfolded add.commute [of base]])

lemma image32_loaded:
  fixes base :: u32
  shows "loaded elf32 (image_at image32 base) base 0" "\<not> loaded elf32 (image_at image32 base) base (Suc 0)"
  using str_at_image [of "0x1011" dot_text image32 base] str_at_image [of "0x1010" dot_text image32 base]
    str_at_image [of "0x1010" dot_data image32 base]
  by (simp_all add: loaded_def image32_parts names32) (simp_all add: dot_text_def dot_data_def)

lemma image32_ok:
  fixes base :: u32
  assumes "take_bit 12 base = 0"
  shows "elf_ok elf32 base 2 (image_at image32 base)"
proof -
  have "\<forall>x\<in>set (eh_mag elf32). fst x < 4096 \<and> byte_at image32 (fst x) = snd x"
    by (simp add: elf32_def image32_def)
  then have mag: "\<forall>x\<in>set (eh_mag elf32). fst x < 4096 \<and> image_at image32 base (base + of_nat (fst x)) = snd x"
    using image_at_offset [of _ image32 base] by (fastforce intro: less_trans)
  have "(0x80010000 :: u32) = push_bit 12 0x80010" by simp
  then have al: "take_bit 12 (0x80010000 :: u32) = 0" by (simp only: take_bit_push_bit) simp
  have secs: "(\<forall>i<2. P i) \<longleftrightarrow> P 0 \<and> P (Suc 0)" for P :: "nat \<Rightarrow> bool"
    by (auto simp: less_2_cases_iff)
  show ?thesis
    using assms mag image32_loaded [of base] al unfolding elf_ok_def image32_parts secs
    by (simp add: image32_parts fields32 in_img_def)
qed

lemma image32_pages: "elf_image_pages elf32 base 2 (image_at image32 base) = [base, base + 0x1000, 0x80010000]"
  for base :: u32
proof -
  have two: "[0..<2] = [0, Suc 0]" by (simp add: numeral_2_eq_2)
  have "sec_addrs elf32 (image_at image32 base) base 0 = [0x80010000]"
    "sec_addrs elf32 (image_at image32 base) base (Suc 0) = []"
    using image32_loaded [of base] by (simp_all add: sec_addrs_def image32_parts)
  then have "elf_addrs elf32 (image_at image32 base) base = [0x80010000]"
    unfolding elf_addrs_def image32_parts two by simp
  then show ?thesis unfolding elf_image_pages_def two by simp
qed

definition flash32 :: mm32 where
  "flash32 = demo32\<lparr>mem_bytes32 := (\<lambda>a. if drop_bit 12 a = 0x50 \<or> drop_bit 12 a = 0x51
     then image_at image32 (0x50000 :: u32) (ucast a) else mem_bytes32 demo32 a)\<rparr>"

lemma drop_ucast: "drop_bit 12 (ucast a :: u64) = ucast (drop_bit 12 a)" for a :: u32
  by (rule bit_word_eqI) (auto simp: bit_drop_bit_eq bit_ucast_iff dest: bit_imp_le_length)

lemma drop_ucast_page: "drop_bit 12 (ucast a :: u64) = 0x50 \<longleftrightarrow> drop_bit 12 a = 0x50"
  "drop_bit 12 (ucast a :: u64) = 0x51 \<longleftrightarrow> drop_bit 12 a = 0x51" for a :: u32
  using ucast_eq_u32 [of "drop_bit 12 a" "0x50"] ucast_eq_u32 [of "drop_bit 12 a" "0x51"] by (simp_all add: drop_ucast)

lemma page_0x50: "drop_bit 12 a = 0x50 \<or> drop_bit 12 a = 0x51 \<Longrightarrow> 0x10000 \<le> unat a" for a :: u32
proof -
  assume "drop_bit 12 a = 0x50 \<or> drop_bit 12 a = 0x51"
  then have "unat (drop_bit 12 a) = 0x50 \<or> unat (drop_bit 12 a) = 0x51" by auto
  then have "unat a div 4096 \<ge> 0x50" unfolding unat_drop by auto
  then show ?thesis by simp
qed

lemma flash32_frame:
  "pt32_inv 0x10000 flash32" "usable32 0x10000 flash32 = usable32 0x10000 demo32"
  "room32 0x10000 k flash32 = room32 0x10000 k demo32"
proof -
  let ?g = "\<lambda>a. if drop_bit 12 a = 0x50 \<or> drop_bit 12 a = 0x51 then image_at image32 (0x50000 :: u32) (ucast a) else mem_bytes32 demo32 a"
  have same: "?g (ucast a) = mem_bytes32 demo32 (ucast a)" if "\<not> usable32 0x10000 demo32 a" for a
    using that demo32_usable [of a] page_0x50 [of a] by (auto simp: drop_ucast_page)
  note f = bytes_frame32 [where g = ?g, OF demo32_inv same, folded flash32_def]
  show "pt32_inv 0x10000 flash32" "usable32 0x10000 flash32 = usable32 0x10000 demo32"
    "room32 0x10000 k flash32 = room32 0x10000 k demo32"
    using f(1,3,4) by blast+
qed

lemma flash32_loadable: "loadable32 0x10000 elf32 0x50000 2 (image_at image32 0x50000) flash32"
proof -
  let ?img = "image_at image32 (0x50000 :: u32)"
  have "(0x50000 :: u32) = push_bit 12 0x50" by simp
  then have "take_bit 12 (0x50000 :: u32) = 0" by (simp only: take_bit_push_bit) simp
  then have ok: "elf_ok elf32 (0x50000 :: u32) 2 ?img" by (rule image32_ok)
  have apart: "distinct_pages same_page32 [0x50000, 0x50000 + 0x1000, 0x80010000]" by (simp add: same_page32_def)
  have us: "usable32 0x10000 flash32 v" if "v \<in> {0x50000, 0x51000, 0x80010000}" for v
    using that by (auto simp: flash32_frame intro!: demo32_usable)
  have len: "length (elf_addrs elf32 ?img (0x50000 :: u32)) = 1"
    using arg_cong [OF image32_pages [of "0x50000"], of length] unfolding elf_image_pages_def by simp
  have bytes: "mem_bytes32 flash32 (ucast (page_no 0x50000 j + of_nat b :: u32)) = ?img (page_no 0x50000 j + of_nat b)"
    if "j < 2" "b < 4096" for j b
  proof -
    have "take_bit 12 (page_no 0x50000 j :: u32) = 0" by (rule page_no_aligned) fact
    then have d: "drop_bit 12 (page_no 0x50000 j + of_nat b) = drop_bit 12 (page_no 0x50000 j :: u32)"
      by (rule page_offset [OF _ that(2)])
    have "drop_bit 12 (page_no 0x50000 j + of_nat b) = (0x50 :: u32) \<or> drop_bit 12 (page_no 0x50000 j + of_nat b) = (0x51 :: u32)"
      unfolding d using that(1) by (auto simp: less_2_cases_iff)
    then have "drop_bit 12 (ucast (page_no 0x50000 j + of_nat b :: u32) :: u64) = 0x50 \<or>
        drop_bit 12 (ucast (page_no 0x50000 j + of_nat b :: u32) :: u64) = 0x51"
      unfolding drop_ucast_page .
    then show ?thesis by (simp add: flash32_def)
  qed
  have room: "room32 0x10000 (2 * (2 + 1)) flash32" unfolding flash32_frame by (rule demo32_room) simp
  show ?thesis
    unfolding loadable32_def image32_pages len using ok us apart bytes room flash32_frame(1) by auto
qed

lemma el1_load_el0_arm_loads_witness:
  "\<exists>s'. el1_load_el0_arm elf32 Some (\<lambda>s a. Some (image_at image32 0x50000 a)) 0x50000 flash32 = Some (True, 0x80010000, s') \<and>
     xlat32 s' 0x50000 = - 1 \<and> vm_rd arm_vm s' 0x80010003 = Some 0xe3"
proof -
  have "header_cached (0x50000 :: u32) (image_at image32 0x50000) (\<lambda>s a. Some (image_at image32 0x50000 a))"
    by (simp add: header_cached_def)
  then obtain s' where s': "el1_load_el0_arm elf32 Some (\<lambda>s a. Some (image_at image32 0x50000 a)) 0x50000 flash32 = Some (True, 0x80010000, s')"
    "sections_at (vm_rd arm_vm s') elf32 0x50000 (image_at image32 0x50000)" "unmapped32 0x50000 2 s'"
    using el1_load_el0_arm_loads [OF flash32_loadable, of Some] by (auto simp: fields32)
  have "vm_rd arm_vm s' (0x80010000 + of_nat 3) = Some (image_at image32 (0x50000 :: u32) (0x51000 + of_nat 3))"
    using s'(2) [unfolded sections_at_def, rule_format, of 0 0 3] image32_loaded(1) [of "0x50000"]
    by (simp add: image32_parts)
  then have "vm_rd arm_vm s' 0x80010003 = Some 0xe3" by (simp add: image_at_def image32_def)
  moreover have "xlat32 s' 0x50000 = - 1" using s'(3) by (force simp: unmapped32_def)
  ultimately show ?thesis using s'(1) by blast
qed

end
