(* ===== verification/Monitor32.thy ===== *)
theory Monitor32
  imports CMemory Layout
begin

text \<open>
  The AArch32 monitor: the state buffer of \<^verbatim>\<open>el3/arm/el3_monitor.h\<close>, the entry points of
  \<^verbatim>\<open>el3/arm/el3_monitor_asm.S\<close> and the vectors of \<^verbatim>\<open>el3/arm/el3_exception.S\<close> and
  \<^verbatim>\<open>el1/arm/el1_exception.S\<close>, instruction by instruction.  \<open>k_r\<close> is r0 to r12; the stack
  pointer, the link register and the SPSR are banked by processor mode.  The two buffers are
  records, so the model assumes that no stack slot lies in one; what the instructions of the
  macros leave in r0, the buffer's address, is overwritten before it is used.
\<close>

section \<open>Registers and modes\<close>

definition MODE_USR :: u32 where [c_const]: "MODE_USR = 0x10"
definition MODE_IRQ :: u32 where [c_const]: "MODE_IRQ = 0x12"
definition MODE_SVC :: u32 where [c_const]: "MODE_SVC = 0x13"
definition MODE_MON :: u32 where [c_const]: "MODE_MON = 0x16"
definition MODE_ABT :: u32 where [c_const]: "MODE_ABT = 0x17"
definition MODE_UND :: u32 where [c_const]: "MODE_UND = 0x1B"
definition MODE_SYS :: u32 where [c_const]: "MODE_SYS = 0x1F"
definition SCR32_NS :: u32 where [c_const]: "SCR32_NS = push_bit 0 1"

record cpu32 =
  k_cpsr :: u32
  k_pc :: u32
  k_r :: "nat \<Rightarrow> u32"
  k_sp :: "u32 \<Rightarrow> u32"
  k_lr :: "u32 \<Rightarrow> u32"
  k_spsr :: "u32 \<Rightarrow> u32"
  k_scr :: u32
  k_mem :: mem

definition mode32 :: "cpu32 \<Rightarrow> u32" where
  "mode32 c = k_cpsr c AND 0x1F"

text \<open>User and System mode share a bank.\<close>

definition bank32 :: "cpu32 \<Rightarrow> u32" where
  "bank32 c = (if mode32 c = MODE_USR then MODE_SYS else mode32 c)"

definition reg32 :: "nat \<Rightarrow> cpu32 \<Rightarrow> u32" where
  "reg32 n c = (if n = 13 then k_sp c (bank32 c) else if n = 14 then k_lr c (bank32 c) else k_r c n)"

definition set_reg32 :: "nat \<Rightarrow> u32 \<Rightarrow> cpu32 \<Rightarrow> cpu32" where
  "set_reg32 n v c =
     (if n = 13 then c\<lparr>k_sp := (k_sp c)(bank32 c := v)\<rparr>
      else if n = 14 then c\<lparr>k_lr := (k_lr c)(bank32 c := v)\<rparr>
      else c\<lparr>k_r := (k_r c)(n := v)\<rparr>)"

definition with_mode :: "u32 \<Rightarrow> u32 \<Rightarrow> u32" where
  "with_mode x m = (x AND NOT 0x1F) OR m"

definition cps :: "u32 \<Rightarrow> cpu32 \<Rightarrow> cpu32" where
  "cps m c = c\<lparr>k_cpsr := with_mode (k_cpsr c) m\<rparr>"

text \<open>\<open>stm\<close> and \<open>ldm\<close> from address \<open>a\<close> upwards, \<open>push\<close> and \<open>pop\<close>.\<close>

definition ld32 :: "u32 \<Rightarrow> cpu32 \<Rightarrow> u32" where
  "ld32 a c = load32 (k_mem c) (ucast a)"

definition st32 :: "u32 \<Rightarrow> u32 \<Rightarrow> cpu32 \<Rightarrow> cpu32" where
  "st32 a v c = c\<lparr>k_mem := store32 (ucast a) v (k_mem c)\<rparr>"

fun stm :: "u32 \<Rightarrow> nat list \<Rightarrow> cpu32 \<Rightarrow> cpu32" where
  "stm a [] c = c"
| "stm a (n # ns) c = stm (a + 4) ns (st32 a (reg32 n c) c)"

fun ldm :: "u32 \<Rightarrow> nat list \<Rightarrow> cpu32 \<Rightarrow> cpu32" where
  "ldm a [] c = c"
| "ldm a (n # ns) c = ldm (a + 4) ns (set_reg32 n (ld32 a c) c)"

definition push32 :: "nat list \<Rightarrow> cpu32 \<Rightarrow> cpu32" where
  "push32 ns c = (let sp = reg32 13 c - of_nat (4 * length ns) in stm sp ns (set_reg32 13 sp c))"

definition pop32 :: "nat list \<Rightarrow> cpu32 \<Rightarrow> cpu32" where
  "pop32 ns c = (let sp = reg32 13 c in ldm sp ns (set_reg32 13 (sp + of_nat (4 * length ns)) c))"

text \<open>\<open>srsdb sp!, #m\<close> stores LR and SPSR of the current mode on the stack of mode \<open>m\<close>; \<open>rfefd sp\<close>
  loads PC and CPSR from the stack and leaves the stack pointer, \<open>rfefd sp!\<close> moves it.\<close>

definition srs :: "u32 \<Rightarrow> cpu32 \<Rightarrow> cpu32" where
  "srs m c = (let sp = k_sp c m - 8
     in st32 (sp + 4) (k_spsr c (bank32 c)) (st32 sp (reg32 14 c) (c\<lparr>k_sp := (k_sp c)(m := sp)\<rparr>)))"

definition rfe :: "cpu32 \<Rightarrow> cpu32" where
  "rfe c = (let sp = reg32 13 c in c\<lparr>k_pc := ld32 sp c, k_cpsr := ld32 (sp + 4) c\<rparr>)"

definition rfe_up :: "cpu32 \<Rightarrow> cpu32" where
  "rfe_up c = (let sp = reg32 13 c in (set_reg32 13 (sp + 8) c)\<lparr>k_pc := ld32 sp c, k_cpsr := ld32 (sp + 4) c\<rparr>)"

text \<open>\<open>cmp rn, #0\<close>: N is the sign, Z whether the register is 0, C is set and V clear.\<close>

definition cmp_zero :: "nat \<Rightarrow> cpu32 \<Rightarrow> cpu32" where
  "cmp_zero n c = c\<lparr>k_cpsr := (k_cpsr c AND 0x0FFFFFFF) OR (reg32 n c AND 0x80000000) OR
     (if reg32 n c = 0 then 0x60000000 else 0x20000000)\<rparr>"

section \<open>Saving and restoring\<close>

record state_buf32 =
  q_sp_el0 :: u32
  q_elr_el0 :: u32
  q_spsr_irq :: u32
  q_sp_irq :: u32
  q_elr_irq :: u32
  q_spsr_el1 :: u32
  q_sp_el1 :: u32
  q_elr_el1 :: u32
  q_spsr_abt :: u32
  q_sp_abt :: u32
  q_elr_abt :: u32
  q_spsr_und :: u32
  q_sp_und :: u32
  q_elr_und :: u32
  q_spsr_el3 :: u32
  q_elr_el3 :: u32
  q_reg :: "nat \<Rightarrow> u32"

text \<open>\<open>mrs r3, spsr\<close> and \<open>msr spsr, r3\<close> in the mode the processor is in.\<close>

definition mrs_spsr :: "cpu32 \<Rightarrow> cpu32" where
  "mrs_spsr c = set_reg32 3 (k_spsr c (bank32 c)) c"

definition msr_spsr :: "cpu32 \<Rightarrow> cpu32" where
  "msr_spsr c = c\<lparr>k_spsr := (k_spsr c)(bank32 c := reg32 3 c)\<rparr>"

definition monitor_save_state32 :: "cpu32 \<Rightarrow> state_buf32 \<Rightarrow> cpu32 \<times> state_buf32" where
  "monitor_save_state32 c b =
     (let c1 = cps MODE_SYS (push32 [14] c);
          b1 = b\<lparr>q_sp_el0 := reg32 13 c1, q_elr_el0 := reg32 14 c1\<rparr>;
          c2 = mrs_spsr (cps MODE_IRQ c1);
          b2 = b1\<lparr>q_spsr_irq := reg32 3 c2, q_sp_irq := reg32 13 c2, q_elr_irq := reg32 14 c2\<rparr>;
          c3 = mrs_spsr (cps MODE_SVC c2);
          b3 = b2\<lparr>q_spsr_el1 := reg32 3 c3, q_sp_el1 := reg32 13 c3, q_elr_el1 := reg32 14 c3\<rparr>;
          c4 = mrs_spsr (cps MODE_ABT c3);
          b4 = b3\<lparr>q_spsr_abt := reg32 3 c4, q_sp_abt := reg32 13 c4, q_elr_abt := reg32 14 c4\<rparr>;
          c5 = mrs_spsr (cps MODE_UND c4);
          b5 = b4\<lparr>q_spsr_und := reg32 3 c5, q_sp_und := reg32 13 c5, q_elr_und := reg32 14 c5\<rparr>;
          c6 = cps MODE_MON c5;
          b6 = b5\<lparr>q_spsr_el3 := reg32 1 c6, q_elr_el3 := reg32 2 c6,
                 q_reg := (\<lambda>i. if i < 9 then reg32 (4 + i) c6 else q_reg b5 i)\<rparr>;
          c7 = pop32 [14] c6
      in (c7\<lparr>k_pc := reg32 14 c7\<rparr>, b6))"

definition load_bank :: "u32 \<Rightarrow> u32 \<Rightarrow> u32 \<Rightarrow> u32 \<Rightarrow> cpu32 \<Rightarrow> cpu32" where
  "load_bank m spsr sp lr c = msr_spsr (set_reg32 14 lr (set_reg32 13 sp (set_reg32 3 spsr (cps m c))))"

text \<open>The return address goes through r3, and the exception return of the other world is left on
  the stack.\<close>

definition monitor_restore_state32 :: "state_buf32 \<Rightarrow> cpu32 \<Rightarrow> cpu32" where
  "monitor_restore_state32 b c =
     (let c1 = cps MODE_SYS (push32 [14] c);
          c2 = set_reg32 14 (q_elr_el0 b) (set_reg32 13 (q_sp_el0 b) c1);
          c3 = load_bank MODE_IRQ (q_spsr_irq b) (q_sp_irq b) (q_elr_irq b) c2;
          c4 = load_bank MODE_SVC (q_spsr_el1 b) (q_sp_el1 b) (q_elr_el1 b) c3;
          c5 = load_bank MODE_ABT (q_spsr_abt b) (q_sp_abt b) (q_elr_abt b) c4;
          c6 = load_bank MODE_UND (q_spsr_und b) (q_sp_und b) (q_elr_und b) c5;
          c7 = set_reg32 2 (q_elr_el3 b) (set_reg32 1 (q_spsr_el3 b) (cps MODE_MON c6));
          c8 = c7\<lparr>k_r := (\<lambda>n. if 4 \<le> n \<and> n \<le> 12 then q_reg b (n - 4) else k_r c7 n)\<rparr>;
          c9 = pop32 [3] c8;
          c10 = push32 [0, 1] (set_reg32 0 (reg32 2 c9) c9)
      in c10\<lparr>k_pc := reg32 3 c10\<rparr>)"

section \<open>monitor_switch\<close>

record monitor32 =
  cpu32_of :: cpu32
  sec_state32 :: state_buf32
  nsec_state32 :: state_buf32

text \<open>\<open>bl\<close> leaves the address after it in the link register; a routine that ends with a jump
  elsewhere does not come back (\<open>None\<close>).\<close>

definition returns32 :: "u32 \<Rightarrow> cpu32 \<Rightarrow> cpu32 option" where
  "returns32 l c = (if k_pc c = l then Some c else None)"

definition save_into :: "u32 \<Rightarrow> state_buf32 \<Rightarrow> cpu32 \<Rightarrow> (cpu32 \<times> state_buf32) option" where
  "save_into l b c = (let (c1, b1) = monitor_save_state32 (set_reg32 14 l c) b
     in map_option (\<lambda>c2. (c2, b1)) (returns32 l c1))"

definition restore_from :: "u32 \<Rightarrow> state_buf32 \<Rightarrow> cpu32 \<Rightarrow> cpu32 option" where
  "restore_from l b c = returns32 l (monitor_restore_state32 b (set_reg32 14 l c))"

definition switch_to_sec :: "u32 \<Rightarrow> u32 \<Rightarrow> 'a monitor32_scheme \<Rightarrow> 'a monitor32_scheme option" where
  "switch_to_sec l1 l2 m =
     (let c = cpu32_of m;
          c1 = set_reg32 3 (k_scr c AND NOT SCR32_NS) c
      in Option.bind (save_into l1 (nsec_state32 m) (c1\<lparr>k_scr := reg32 3 c1\<rparr>))
           (\<lambda>(c2, b). Option.bind (restore_from l2 (sec_state32 m) c2)
           (\<lambda>c3. Some (m\<lparr>cpu32_of := c3, nsec_state32 := b\<rparr>))))"

definition switch_to_nsec :: "u32 \<Rightarrow> u32 \<Rightarrow> 'a monitor32_scheme \<Rightarrow> 'a monitor32_scheme option" where
  "switch_to_nsec l1 l2 m =
     Option.bind (save_into l1 (sec_state32 m) (cpu32_of m))
       (\<lambda>(c2, b). Option.bind (restore_from l2 (nsec_state32 m) c2)
       (\<lambda>c3. let c4 = set_reg32 3 (k_scr c3 OR SCR32_NS) c3
             in Some (m\<lparr>cpu32_of := c4\<lparr>k_scr := reg32 3 c4\<rparr>, sec_state32 := b\<rparr>)))"

definition monitor_switch32 :: "u32 \<Rightarrow> u32 \<Rightarrow> 'a monitor32_scheme \<Rightarrow> 'a monitor32_scheme option" where
  "monitor_switch32 l1 l2 m =
     (let c1 = push32 [0, 1] (pop32 [2, 3] (cpu32_of m));
          c2 = set_reg32 1 (reg32 3 c1) c1;
          c3 = cmp_zero 3 (set_reg32 3 (k_scr c2 AND 1) c2);
          m1 = m\<lparr>cpu32_of := c3\<rparr>
      in Option.bind (if reg32 3 c3 = 0 then switch_to_nsec l1 l2 m1 else switch_to_sec l1 l2 m1)
           (\<lambda>m2. Some (m2\<lparr>cpu32_of := rfe (push32 [2, 3] (pop32 [0, 1] (pop32 [2, 3] (cpu32_of m2))))\<rparr>)))"

section \<open>Vectors\<close>

text \<open>The SMC vector; \<open>handle\<close> is \<^verbatim>\<open>el3_handle_smc\<close> with its four arguments in r0 to r3, its
  result in r0.  The third argument is 0 and the fourth the word four words above the frame.\<close>

definition el3_smc_vect32 ::
    "('a monitor32_scheme \<Rightarrow> 'a monitor32_scheme option) \<Rightarrow> u32 \<Rightarrow> u32 \<Rightarrow> 'a monitor32_scheme \<Rightarrow> 'a monitor32_scheme option"
where
  "el3_smc_vect32 handle l1 l2 m =
     (let c1 = set_reg32 2 0 (srs MODE_MON (cpu32_of m));
          c2 = set_reg32 3 (ld32 (reg32 13 c1 + 16) c1) c1
      in Option.bind (handle (m\<lparr>cpu32_of := c2\<rparr>))
           (\<lambda>m1. let m2 = m1\<lparr>cpu32_of := cmp_zero 0 (cpu32_of m1)\<rparr>
                 in if reg32 0 (cpu32_of m2) = 0 then Some (m2\<lparr>cpu32_of := rfe_up (cpu32_of m2)\<rparr>)
                    else monitor_switch32 l1 l2 m2))"

text \<open>An abort or undefined-instruction vector of EL1 or EL3: \<open>m\<close> is the mode it runs in, \<open>ec\<close> the
  class it reports, \<open>isr\<close> and \<open>far\<close> the syndrome registers it reads.\<close>

definition excp_vect32 ::
    "u32 \<Rightarrow> u32 \<Rightarrow> u32 \<Rightarrow> u32 \<Rightarrow> (cpu32 \<Rightarrow> cpu32 option) \<Rightarrow> cpu32 \<Rightarrow> cpu32 option" where
  "excp_vect32 m ec isr far handle c =
     (let c1 = push32 [0, 1, 2, 3] (srs m c);
          c2 = set_reg32 2 far (set_reg32 1 isr (set_reg32 0 ec c1));
          c3 = set_reg32 3 (ld32 (reg32 13 c2 + 16) c2) c2
      in Option.bind (handle c3) (\<lambda>c4. Some (rfe_up (pop32 [0, 1, 2, 3] c4))))"

text \<open>The SVC vector of EL1 saves three registers only.\<close>

definition el1_svc_vect32 :: "(cpu32 \<Rightarrow> cpu32 option) \<Rightarrow> cpu32 \<Rightarrow> cpu32 option" where
  "el1_svc_vect32 handle c =
     (let c1 = set_reg32 2 0 (push32 [1, 2, 3] (srs MODE_SVC c));
          c2 = set_reg32 3 (ld32 (reg32 13 c1 + 16) c1) c1
      in Option.bind (handle c2) (\<lambda>c3. Some (rfe_up (pop32 [1, 2, 3] c3))))"

text \<open>The two tables, by the offset the exception is taken to; an unused entry branches to itself.
  The fault status and address registers are those of the processor.\<close>

record fault_regs32 =
  ifsr32 :: u32
  ifar32 :: u32
  dfsr32 :: u32
  dfar32 :: u32

definition el1_vectors32 ::
    "fault_regs32 \<Rightarrow> (cpu32 \<Rightarrow> cpu32 option) \<Rightarrow> (cpu32 \<Rightarrow> cpu32 option) \<Rightarrow> u32 \<Rightarrow> cpu32 \<Rightarrow> cpu32 option" where
  "el1_vectors32 f handle_svc handle_exception offset c =
     (if offset = 4 then excp_vect32 MODE_UND (ucast EC_UNKNOWN) (dfsr32 f) (dfar32 f) handle_exception c
      else if offset = 8 then el1_svc_vect32 handle_svc c
      else if offset = 12 then excp_vect32 MODE_ABT (ucast EC_IABORT) (ifsr32 f) (ifar32 f) handle_exception c
      else if offset = 16 then excp_vect32 MODE_ABT (ucast EC_DABORT) (dfsr32 f) (dfar32 f) handle_exception c
      else None)"

definition el3_vectors32 ::
    "fault_regs32 \<Rightarrow> ('a monitor32_scheme \<Rightarrow> 'a monitor32_scheme option) \<Rightarrow> (cpu32 \<Rightarrow> cpu32 option) \<Rightarrow>
     u32 \<Rightarrow> u32 \<Rightarrow> u32 \<Rightarrow> 'a monitor32_scheme \<Rightarrow> 'a monitor32_scheme option" where
  "el3_vectors32 f handle_smc handle_exception l1 l2 offset m =
     (let excp = (\<lambda>ec isr far. map_option (\<lambda>c. m\<lparr>cpu32_of := c\<rparr>) (excp_vect32 MODE_MON ec isr far handle_exception (cpu32_of m)))
      in if offset = 8 then el3_smc_vect32 handle_smc l1 l2 m
         else if offset = 12 then excp (ucast EC_IABORT) (ifsr32 f) (ifar32 f)
         else if offset = 16 then excp (ucast EC_DABORT) (dfsr32 f) (dfar32 f)
         else None)"

text \<open>\<^verbatim>\<open>common/arm/builtins.S\<close>: setting the exception return does nothing on AArch32, and
  \<^verbatim>\<open>__exception_return\<close> returns through the stack.\<close>

definition set_exception_return32 :: "u32 \<Rightarrow> cpu32 \<Rightarrow> cpu32" where
  "set_exception_return32 elr c = c"

definition exception_return32 :: "u32 \<Rightarrow> u32 \<Rightarrow> cpu32 \<Rightarrow> cpu32" where
  "exception_return32 elr spsr c = rfe_up (push32 [0, 1] (set_reg32 1 spsr (set_reg32 0 elr c)))"

end
