(* ===== verification/Monitor32Proofs.thy ===== *)
theory Monitor32Proofs
  imports Monitor32
begin

text \<open>
  What a world switch does on AArch32: which registers change hands, which pass through, what
  is left on the monitor's stack, and what the vectors keep of the program they interrupt.
\<close>

section \<open>Modes\<close>

definition legal_mode :: "u32 \<Rightarrow> bool" where
  "legal_mode m \<longleftrightarrow> m AND 0x1F = m"

lemma mode_mask: "(0x1F :: u32) = mask 5"
  by (simp add: mask_eq_exp_minus_1)

lemma with_mode_simps:
  "legal_mode m \<Longrightarrow> with_mode x m AND 0x1F = m"
  "legal_mode m \<Longrightarrow> with_mode (with_mode x m) n = with_mode x n"
  "with_mode x (x AND 0x1F) = x"
proof -
  have top: "k < 5" if "legal_mode m" "bit m k" for k
  proof -
    have "bit (m AND 0x1F) k" using that by (simp add: legal_mode_def)
    then show ?thesis unfolding mode_mask by (simp add: bit_simps)
  qed
  show "legal_mode m \<Longrightarrow> with_mode x m AND 0x1F = m"
    unfolding with_mode_def mode_mask by (rule bit_word_eqI) (use top in \<open>fastforce simp: bit_simps not_less\<close>)
  show "legal_mode m \<Longrightarrow> with_mode (with_mode x m) n = with_mode x n"
    unfolding with_mode_def mode_mask by (rule bit_word_eqI) (use top in \<open>fastforce simp: bit_simps not_less\<close>)
  show "with_mode x (x AND 0x1F) = x"
    unfolding with_mode_def mode_mask by (rule bit_word_eqI) (auto simp: bit_simps)
qed

lemma legal_modes [simp]:
  "legal_mode MODE_SYS" "legal_mode MODE_IRQ" "legal_mode MODE_SVC" "legal_mode MODE_ABT" "legal_mode MODE_UND"
  "legal_mode MODE_MON"
  by (simp_all add: legal_mode_def MODE_SYS_def MODE_IRQ_def MODE_SVC_def MODE_ABT_def MODE_UND_def MODE_MON_def)

lemma modes_distinct: "distinct [MODE_SYS, MODE_IRQ, MODE_SVC, MODE_ABT, MODE_UND, MODE_MON, MODE_USR]"
  by (simp add: MODE_SYS_def MODE_IRQ_def MODE_SVC_def MODE_ABT_def MODE_UND_def MODE_MON_def MODE_USR_def)

lemma modes_ne:
  "MODE_SYS \<noteq> MODE_IRQ" "MODE_SYS \<noteq> MODE_SVC" "MODE_SYS \<noteq> MODE_ABT" "MODE_SYS \<noteq> MODE_UND" "MODE_SYS \<noteq> MODE_MON"
  "MODE_SYS \<noteq> MODE_USR" "MODE_IRQ \<noteq> MODE_SVC" "MODE_IRQ \<noteq> MODE_ABT" "MODE_IRQ \<noteq> MODE_UND" "MODE_IRQ \<noteq> MODE_MON"
  "MODE_IRQ \<noteq> MODE_USR" "MODE_SVC \<noteq> MODE_ABT" "MODE_SVC \<noteq> MODE_UND" "MODE_SVC \<noteq> MODE_MON" "MODE_SVC \<noteq> MODE_USR"
  "MODE_ABT \<noteq> MODE_UND" "MODE_ABT \<noteq> MODE_MON" "MODE_ABT \<noteq> MODE_USR" "MODE_UND \<noteq> MODE_MON" "MODE_UND \<noteq> MODE_USR"
  "MODE_MON \<noteq> MODE_USR"
  using modes_distinct by simp_all

lemmas modes_apart [simp] = modes_ne modes_ne [symmetric]

section \<open>Observations\<close>

lemma obs_cps [simp]:
  "k_cpsr (cps m c) = with_mode (k_cpsr c) m" "k_pc (cps m c) = k_pc c" "k_r (cps m c) = k_r c"
  "k_sp (cps m c) = k_sp c" "k_lr (cps m c) = k_lr c" "k_spsr (cps m c) = k_spsr c" "k_scr (cps m c) = k_scr c"
  "k_mem (cps m c) = k_mem c"
  by (simp_all add: cps_def)

lemma obs_set_reg [simp]:
  "k_cpsr (set_reg32 n v c) = k_cpsr c" "k_pc (set_reg32 n v c) = k_pc c"
  "k_r (set_reg32 n v c) = (if n = 13 \<or> n = 14 then k_r c else (k_r c)(n := v))"
  "k_sp (set_reg32 n v c) = (if n = 13 then (k_sp c)(bank32 c := v) else k_sp c)"
  "k_lr (set_reg32 n v c) = (if n = 14 then (k_lr c)(bank32 c := v) else k_lr c)"
  "k_spsr (set_reg32 n v c) = k_spsr c" "k_scr (set_reg32 n v c) = k_scr c" "k_mem (set_reg32 n v c) = k_mem c"
  by (simp_all add: set_reg32_def)

lemma obs_st [simp]:
  "k_cpsr (st32 a v c) = k_cpsr c" "k_pc (st32 a v c) = k_pc c" "k_r (st32 a v c) = k_r c" "k_sp (st32 a v c) = k_sp c"
  "k_lr (st32 a v c) = k_lr c" "k_spsr (st32 a v c) = k_spsr c" "k_scr (st32 a v c) = k_scr c"
  by (simp_all add: st32_def)

lemma mem_st32: "k_mem (st32 a v c) = store32 (ucast a) v (k_mem c)"
  by (simp add: st32_def)

lemma obs_bank [simp]:
  "bank32 (set_reg32 n v c) = bank32 c" "bank32 (st32 a v c) = bank32 c"
  "legal_mode m \<Longrightarrow> m \<noteq> MODE_USR \<Longrightarrow> bank32 (cps m c) = m"
  by (simp_all add: bank32_def mode32_def with_mode_simps)

lemma obs_bank_upd [simp]:
  "bank32 (c\<lparr>k_pc := a\<rparr>) = bank32 c" "bank32 (c\<lparr>k_r := r\<rparr>) = bank32 c" "bank32 (c\<lparr>k_sp := q\<rparr>) = bank32 c"
  "bank32 (c\<lparr>k_lr := q\<rparr>) = bank32 c" "bank32 (c\<lparr>k_spsr := q\<rparr>) = bank32 c" "bank32 (c\<lparr>k_scr := a\<rparr>) = bank32 c"
  "bank32 (c\<lparr>k_mem := mm\<rparr>) = bank32 c"
  by (simp_all add: bank32_def mode32_def)

lemma ld32_upd [simp]:
  "ld32 a (cps m c) = ld32 a c" "ld32 a (set_reg32 n v c) = ld32 a c" "ld32 a (c\<lparr>k_pc := p\<rparr>) = ld32 a c"
  "ld32 a (c\<lparr>k_r := r\<rparr>) = ld32 a c" "ld32 a (c\<lparr>k_sp := q\<rparr>) = ld32 a c" "ld32 a (c\<lparr>k_lr := q\<rparr>) = ld32 a c"
  "ld32 a (c\<lparr>k_spsr := q\<rparr>) = ld32 a c" "ld32 a (c\<lparr>k_scr := p\<rparr>) = ld32 a c" "ld32 a (c\<lparr>k_cpsr := p\<rparr>) = ld32 a c"
  "ld32 a (st32 a v c) = v"
  by (simp_all add: ld32_def st32_def)

text \<open>Word-aligned slots.\<close>

definition word4 :: "u32 \<Rightarrow> bool" where
  "word4 a \<longleftrightarrow> 4 dvd a"

lemma word4_aligned: "word4 a \<Longrightarrow> aligned 2 (ucast a)"
proof -
  assume "word4 a"
  then have t: "take_bit 2 a = 0" unfolding word4_def by (simp add: take_bit_eq_0_iff)
  have "\<not> bit a k" if "k < 2" for k
    using arg_cong [OF t, of "\<lambda>w. bit w k"] that by (simp add: bit_take_bit_iff)
  then show ?thesis by (auto simp: aligned_iff_bits bit_ucast_iff)
qed

lemma word4_add [simp]:
  "word4 a \<Longrightarrow> word4 (a - 4)" "word4 a \<Longrightarrow> word4 (a - 8)" "word4 a \<Longrightarrow> word4 (a + 4)" "word4 a \<Longrightarrow> word4 (a + 8)"
  "word4 a \<Longrightarrow> word4 (a - 12)" "word4 a \<Longrightarrow> word4 (a - 16)" "word4 a \<Longrightarrow> word4 (a - 20)" "word4 a \<Longrightarrow> word4 (a - 24)"
proof -
  have k: "4 dvd (4 :: u32)" "4 dvd (8 :: u32)" "4 dvd (12 :: u32)" "4 dvd (16 :: u32)" "4 dvd (20 :: u32)" "4 dvd (24 :: u32)"
    by (auto simp: dvd_def intro: exI [of _ 1] exI [of _ 2] exI [of _ 3] exI [of _ 4] exI [of _ 5] exI [of _ 6])
  show "word4 a \<Longrightarrow> word4 (a - 4)" "word4 a \<Longrightarrow> word4 (a - 8)" "word4 a \<Longrightarrow> word4 (a + 4)" "word4 a \<Longrightarrow> word4 (a + 8)"
    "word4 a \<Longrightarrow> word4 (a - 12)" "word4 a \<Longrightarrow> word4 (a - 16)" "word4 a \<Longrightarrow> word4 (a - 20)" "word4 a \<Longrightarrow> word4 (a - 24)"
    unfolding word4_def by (simp_all add: k dvd_add dvd_diff)
qed

lemma ld32_st32: "word4 a \<Longrightarrow> word4 b \<Longrightarrow> ld32 b (st32 a v c) = (if b = a then v else ld32 b c)"
  using load32_store32_other [OF word4_aligned word4_aligned, of a b v "k_mem c"] ucast_u64_inj [of a b]
  by (auto simp: ld32_def st32_def)

text \<open>A comparison touches the flags only.\<close>

lemma cmp_zero_obs [simp]:
  "k_pc (cmp_zero n c) = k_pc c" "k_r (cmp_zero n c) = k_r c" "k_sp (cmp_zero n c) = k_sp c" "k_lr (cmp_zero n c) = k_lr c"
  "k_spsr (cmp_zero n c) = k_spsr c" "k_scr (cmp_zero n c) = k_scr c" "k_mem (cmp_zero n c) = k_mem c"
  "ld32 a (cmp_zero n c) = ld32 a c"
  by (simp_all add: cmp_zero_def)

lemma bank32_cmp_zero [simp]: "bank32 (cmp_zero n c) = bank32 c"
proof -
  have "bit (k_cpsr (cmp_zero n c)) k = bit (k_cpsr c) k" if "k < 5" for k
  proof -
    have "k = 0 \<or> k = 1 \<or> k = 2 \<or> k = 3 \<or> k = 4" using that by linarith
    then show ?thesis by (auto simp: cmp_zero_def bit_simps)
  qed
  then have "k_cpsr (cmp_zero n c) AND 0x1F = k_cpsr c AND 0x1F"
    unfolding mode_mask by (intro bit_word_eqI) (auto simp: bit_simps)
  then show ?thesis by (simp add: bank32_def mode32_def)
qed

lemma reg32_cmp_zero [simp]: "reg32 k (cmp_zero n c) = reg32 k c"
  by (simp add: reg32_def)

section \<open>Saving\<close>

text \<open>The buffer of the registers as they stand, with \<open>spsr\<close> and \<open>elr\<close> for the exception return.\<close>

definition save_banks :: "u32 \<Rightarrow> u32 \<Rightarrow> cpu32 \<Rightarrow> state_buf32 \<Rightarrow> state_buf32" where
  "save_banks spsr elr c b = b\<lparr>
     q_sp_el0 := k_sp c MODE_SYS, q_elr_el0 := k_lr c MODE_SYS,
     q_spsr_irq := k_spsr c MODE_IRQ, q_sp_irq := k_sp c MODE_IRQ, q_elr_irq := k_lr c MODE_IRQ,
     q_spsr_el1 := k_spsr c MODE_SVC, q_sp_el1 := k_sp c MODE_SVC, q_elr_el1 := k_lr c MODE_SVC,
     q_spsr_abt := k_spsr c MODE_ABT, q_sp_abt := k_sp c MODE_ABT, q_elr_abt := k_lr c MODE_ABT,
     q_spsr_und := k_spsr c MODE_UND, q_sp_und := k_sp c MODE_UND, q_elr_und := k_lr c MODE_UND,
     q_spsr_el3 := spsr, q_elr_el3 := elr,
     q_reg := (\<lambda>i. if i < 9 then k_r c (4 + i) else q_reg b i)\<rparr>"

lemma save_banks_cong:
  assumes "\<And>m. m \<noteq> MODE_MON \<Longrightarrow> k_sp c' m = k_sp c m" "\<And>m. m \<noteq> MODE_MON \<Longrightarrow> k_lr c' m = k_lr c m"
    "k_spsr c' = k_spsr c" "\<And>n. 4 \<le> n \<Longrightarrow> k_r c' n = k_r c n"
  shows "save_banks spsr elr c' b = save_banks spsr elr c b"
  using assms by (intro state_buf32.equality) (simp_all add: save_banks_def fun_eq_iff)

lemma mon_cpsr: "bank32 c = MODE_MON \<Longrightarrow> with_mode (k_cpsr c) MODE_MON = k_cpsr c"
  using with_mode_simps(3) [of "k_cpsr c"] modes_ne by (auto simp: bank32_def mode32_def split: if_splits)

lemma save32:
  assumes "bank32 c = MODE_MON"
  shows "monitor_save_state32 c b =
    (let sp = k_sp c MODE_MON - 4; lr = k_lr c MODE_MON
     in ((st32 sp lr c)\<lparr>k_r := (k_r c)(3 := k_spsr c MODE_UND), k_pc := lr\<rparr>,
         save_banks (k_r c 1) (k_r c 2) c b))"
  unfolding Let_def
proof (rule prod_eqI, goal_cases)
  case 1
  show ?case
    by (rule cpu32.equality)
      (simp_all add: monitor_save_state32_def push32_def pop32_def mrs_spsr_def reg32_def Let_def assms
        with_mode_simps mon_cpsr fun_eq_iff mem_st32)
next
  case 2
  show ?case
    by (rule state_buf32.equality)
      (simp_all add: monitor_save_state32_def push32_def pop32_def mrs_spsr_def reg32_def Let_def assms save_banks_def
        with_mode_simps mon_cpsr fun_eq_iff)
qed

section \<open>Restoring\<close>

definition load_banks :: "state_buf32 \<Rightarrow> cpu32 \<Rightarrow> cpu32" where
  "load_banks b c = c\<lparr>
     k_sp := (k_sp c)(MODE_SYS := q_sp_el0 b, MODE_IRQ := q_sp_irq b, MODE_SVC := q_sp_el1 b, MODE_ABT := q_sp_abt b,
                      MODE_UND := q_sp_und b),
     k_lr := (k_lr c)(MODE_SYS := q_elr_el0 b, MODE_IRQ := q_elr_irq b, MODE_SVC := q_elr_el1 b, MODE_ABT := q_elr_abt b,
                      MODE_UND := q_elr_und b),
     k_spsr := (k_spsr c)(MODE_IRQ := q_spsr_irq b, MODE_SVC := q_spsr_el1 b, MODE_ABT := q_spsr_abt b,
                      MODE_UND := q_spsr_und b),
     k_r := (\<lambda>n. if 4 \<le> n \<and> n \<le> 12 then q_reg b (n - 4) else k_r c n)\<rparr>"

lemma restore32:
  assumes "bank32 c = MODE_MON" "word4 (k_sp c MODE_MON)"
  shows "monitor_restore_state32 b c =
    (let sp = k_sp c MODE_MON; lr = k_lr c MODE_MON; c1 = load_banks b c
     in (st32 (sp - 4) (q_spsr_el3 b) (st32 (sp - 8) (q_elr_el3 b) (st32 (sp - 4) lr c1)))
          \<lparr>k_r := (k_r c1)(0 := q_elr_el3 b, 1 := q_spsr_el3 b, 2 := q_elr_el3 b, 3 := lr),
           k_sp := (k_sp c1)(MODE_MON := sp - 8), k_pc := lr\<rparr>)"
  unfolding Let_def
  by (rule cpu32.equality)
    (simp_all add: monitor_restore_state32_def load_bank_def load_banks_def msr_spsr_def push32_def pop32_def reg32_def Let_def assms
      with_mode_simps mon_cpsr fun_eq_iff mem_st32)

section \<open>The switch\<close>

lemma save_into32:
  assumes "bank32 c = MODE_MON"
  shows "save_into l b c =
    Some ((st32 (k_sp c MODE_MON - 4) l c)\<lparr>k_lr := (k_lr c)(MODE_MON := l), k_r := (k_r c)(3 := k_spsr c MODE_UND), k_pc := l\<rparr>,
      save_banks (k_r c 1) (k_r c 2) c b)"
proof -
  have "bank32 (set_reg32 14 l c) = MODE_MON" using assms by simp
  note sv = save32 [OF this, of b]
  have "save_banks (k_r c 1) (k_r c 2) (set_reg32 14 l c) b = save_banks (k_r c 1) (k_r c 2) c b"
    by (rule save_banks_cong) (simp_all add: assms)
  then show ?thesis
    using assms sv by (simp add: save_into_def returns32_def Let_def) (simp add: set_reg32_def st32_def)
qed

lemma restore_from32:
  assumes "bank32 c = MODE_MON" "word4 (k_sp c MODE_MON)"
  shows "\<exists>c'. restore_from l b c = Some c' \<and> k_cpsr c' = k_cpsr c \<and> k_scr c' = k_scr c \<and>
     k_sp c' = (k_sp (load_banks b c))(MODE_MON := k_sp c MODE_MON - 8) \<and>
     k_lr c' = (k_lr (load_banks b c))(MODE_MON := l) \<and> k_spsr c' = k_spsr (load_banks b c) \<and>
     (\<forall>n. 4 \<le> n \<longrightarrow> k_r c' n = k_r (load_banks b c) n) \<and>
     ld32 (k_sp c MODE_MON - 8) c' = q_elr_el3 b \<and> ld32 (k_sp c MODE_MON - 4) c' = q_spsr_el3 b \<and>
     ld32 (k_sp c MODE_MON) c' = ld32 (k_sp c MODE_MON) c \<and> ld32 (k_sp c MODE_MON + 4) c' = ld32 (k_sp c MODE_MON + 4) c"
proof -
  let ?c = "set_reg32 14 l c"
  have m: "bank32 ?c = MODE_MON" "word4 (k_sp ?c MODE_MON)" using assms by simp_all
  have ld: "ld32 a (load_banks b ?c) = ld32 a c" for a by (simp add: load_banks_def)
  show ?thesis
    unfolding restore_from_def returns32_def restore32 [OF m] Let_def
    using assms by (simp add: ld32_st32 ld) (simp add: load_banks_def fun_eq_iff)
qed

definition current_buf32 :: "'a monitor32_scheme \<Rightarrow> state_buf32" where
  "current_buf32 m = (if k_scr (cpu32_of m) AND 1 = 0 then sec_state32 m else nsec_state32 m)"

definition other_buf32 :: "'a monitor32_scheme \<Rightarrow> state_buf32" where
  "other_buf32 m = (if k_scr (cpu32_of m) AND 1 = 0 then nsec_state32 m else sec_state32 m)"

lemma and_1_bit: "x AND 1 = 0 \<longleftrightarrow> \<not> bit x 0" for x :: u32
  by (simp add: and_one_eq mod_2_eq_odd bit_0)

lemma xor_1_bit: "(x XOR 1) AND 1 = 0 \<longleftrightarrow> x AND 1 \<noteq> 0" for x :: u32
  unfolding and_1_bit by (simp add: bit_xor_iff)

lemma scr_flip:
  "x AND 1 = 0 \<Longrightarrow> x OR SCR32_NS = x XOR 1" "x AND 1 \<noteq> 0 \<Longrightarrow> x AND NOT SCR32_NS = x XOR 1" for x :: u32
proof -
  have one: "bit (1 :: u32) k \<longleftrightarrow> k = 0" for k by (simp add: bit_1_iff)
  note and_1_bit [of x]
  moreover have "x OR 1 = x XOR 1" if "\<not> bit x 0"
  proof (rule bit_word_eqI)
    fix k show "bit (x OR 1) k = bit (x XOR 1) k" using that by (cases "k = 0") (simp_all add: bit_or_iff bit_xor_iff one)
  qed
  moreover have "x AND NOT 1 = x XOR 1" if "bit x 0"
  proof (rule bit_word_eqI)
    fix k assume "k < LENGTH(32)"
    then show "bit (x AND NOT 1) k = bit (x XOR 1) k"
      using that by (cases "k = 0") (simp_all add: bit_and_iff bit_not_iff bit_xor_iff one)
  qed
  moreover have "SCR32_NS = 1" by (simp add: SCR32_NS_def)
  ultimately show "x AND 1 = 0 \<Longrightarrow> x OR SCR32_NS = x XOR 1" "x AND 1 \<noteq> 0 \<Longrightarrow> x AND NOT SCR32_NS = x XOR 1"
    by metis+
qed

text \<open>Up to the two routines: the frame is in r2 and r3, r1 holds the SPSR, and r0 and r1 are on
  the stack in its place.\<close>

definition switch_entry :: "cpu32 \<Rightarrow> cpu32" where
  "switch_entry c =
     (let c1 = push32 [0, 1] (pop32 [2, 3] c); c2 = set_reg32 1 (reg32 3 c1) c1
      in cmp_zero 3 (set_reg32 3 (k_scr c2 AND 1) c2))"

lemma switch_entry_obs:
  fixes c
  assumes "bank32 c = MODE_MON" "word4 (k_sp c MODE_MON)"
  defines "E \<equiv> k_sp c MODE_MON" and "c' \<equiv> switch_entry c"
  shows "bank32 c' = MODE_MON" "k_sp c' = k_sp c" "k_lr c' = k_lr c" "k_spsr c' = k_spsr c" "k_scr c' = k_scr c"
    "4 \<le> n \<Longrightarrow> k_r c' n = k_r c n" "k_r c' 1 = ld32 (E + 4) c" "k_r c' 2 = ld32 E c"
    "k_r c' 3 = k_scr c AND 1" "ld32 E c' = k_r c 0" "ld32 (E + 4) c' = k_r c 1"
  using assms(1,2)
  by (simp_all add: c'_def E_def switch_entry_def push32_def pop32_def reg32_def Let_def ld32_st32 fun_eq_iff)

definition switch_exit :: "cpu32 \<Rightarrow> cpu32" where
  "switch_exit c = rfe (push32 [2, 3] (pop32 [0, 1] (pop32 [2, 3] c)))"

lemma switch_exit_obs:
  fixes c
  assumes "bank32 c = MODE_MON" "word4 E" "k_sp c MODE_MON = E - 8"
  defines "c' \<equiv> switch_exit c"
  shows "k_sp c' = (k_sp c)(MODE_MON := E)" "k_lr c' = k_lr c" "k_spsr c' = k_spsr c" "k_scr c' = k_scr c"
    "k_pc c' = ld32 (E - 8) c" "k_cpsr c' = ld32 (E - 4) c" "4 \<le> n \<Longrightarrow> k_r c' n = k_r c n"
    "k_r c' 0 = ld32 E c" "k_r c' 1 = ld32 (E + 4) c" "k_r c' 2 = ld32 (E - 8) c" "k_r c' 3 = ld32 (E - 4) c"
proof -
  have e: "E - 8 + 4 = E - 4" "E - 8 + 8 = E" "E + 8 - 8 = E" by simp_all
  show "k_sp c' = (k_sp c)(MODE_MON := E)" "k_lr c' = k_lr c" "k_spsr c' = k_spsr c" "k_scr c' = k_scr c"
    "k_pc c' = ld32 (E - 8) c" "k_cpsr c' = ld32 (E - 4) c" "4 \<le> n \<Longrightarrow> k_r c' n = k_r c n"
    "k_r c' 0 = ld32 E c" "k_r c' 1 = ld32 (E + 4) c" "k_r c' 2 = ld32 (E - 8) c" "k_r c' 3 = ld32 (E - 4) c"
    using assms(1-3) e
    by (simp_all add: c'_def switch_exit_def rfe_def push32_def pop32_def reg32_def Let_def ld32_st32 fun_eq_iff)
qed

text \<open>One switch: the world that leaves is \<open>c\<close>, with its exception return on the stack.\<close>

definition switched32 :: "u32 \<Rightarrow> state_buf32 \<Rightarrow> cpu32 \<Rightarrow> cpu32 \<Rightarrow> bool" where
  "switched32 l b c c' \<longleftrightarrow>
     k_pc c' = q_elr_el3 b \<and> k_cpsr c' = q_spsr_el3 b \<and> k_sp c' = k_sp (load_banks b c) \<and>
     k_lr c' = (k_lr (load_banks b c))(MODE_MON := l) \<and> k_spsr c' = k_spsr (load_banks b c) \<and>
     (\<forall>n. 4 \<le> n \<longrightarrow> k_r c' n = k_r (load_banks b c) n) \<and> k_r c' 0 = k_r c 0 \<and> k_r c' 1 = k_r c 1 \<and>
     k_r c' 2 = q_elr_el3 b \<and> k_r c' 3 = q_spsr_el3 b \<and> k_scr c' = k_scr c XOR 1"

lemma load_banks_cong:
  assumes "\<And>m. m \<noteq> MODE_MON \<Longrightarrow> k_lr c' m = k_lr c m" "k_sp c' = k_sp c" "k_spsr c' = k_spsr c"
    "\<And>n. 4 \<le> n \<Longrightarrow> k_r c' n = k_r c n"
  shows "k_sp (load_banks b c') = k_sp (load_banks b c)" "k_spsr (load_banks b c') = k_spsr (load_banks b c)"
    "(k_lr (load_banks b c'))(MODE_MON := l) = (k_lr (load_banks b c))(MODE_MON := l)"
    "4 \<le> n \<Longrightarrow> k_r (load_banks b c') n = k_r (load_banks b c) n"
  using assms by (simp_all add: load_banks_def fun_eq_iff)

lemma save_restore32:
  fixes c
  assumes m: "bank32 c = MODE_MON" and al: "word4 (k_sp c MODE_MON)"
  defines "E \<equiv> k_sp c MODE_MON"
  obtains c2 c3 where "save_into l1 b c = Some (c2, save_banks (k_r c 1) (k_r c 2) c b)" "restore_from l2 ob c2 = Some c3"
    "bank32 c3 = MODE_MON" "k_scr c3 = k_scr c" "k_sp c3 = (k_sp (load_banks ob c))(MODE_MON := E - 8)"
    "k_lr c3 = (k_lr (load_banks ob c))(MODE_MON := l2)" "k_spsr c3 = k_spsr (load_banks ob c)"
    "\<And>n. 4 \<le> n \<Longrightarrow> k_r c3 n = k_r (load_banks ob c) n" "ld32 (E - 8) c3 = q_elr_el3 ob" "ld32 (E - 4) c3 = q_spsr_el3 ob"
    "ld32 E c3 = ld32 E c" "ld32 (E + 4) c3 = ld32 (E + 4) c"
proof -
  define c2 where "c2 = (st32 (E - 4) l1 c)\<lparr>k_lr := (k_lr c)(MODE_MON := l1), k_r := (k_r c)(3 := k_spsr c MODE_UND), k_pc := l1\<rparr>"
  have sv: "save_into l1 b c = Some (c2, save_banks (k_r c 1) (k_r c 2) c b)"
    using save_into32 [OF m] by (simp add: c2_def E_def)
  have c2: "bank32 c2 = MODE_MON" "k_sp c2 = k_sp c" "k_cpsr c2 = k_cpsr c" "k_scr c2 = k_scr c" "ld32 E c2 = ld32 E c"
    "ld32 (E + 4) c2 = ld32 (E + 4) c"
    using m al by (simp_all add: c2_def E_def ld32_st32)
  obtain c3 where c3: "restore_from l2 ob c2 = Some c3" "k_cpsr c3 = k_cpsr c2" "k_scr c3 = k_scr c2"
    "k_sp c3 = (k_sp (load_banks ob c2))(MODE_MON := E - 8)" "k_lr c3 = (k_lr (load_banks ob c2))(MODE_MON := l2)"
    "k_spsr c3 = k_spsr (load_banks ob c2)" "\<forall>n. 4 \<le> n \<longrightarrow> k_r c3 n = k_r (load_banks ob c2) n"
    "ld32 (E - 8) c3 = q_elr_el3 ob" "ld32 (E - 4) c3 = q_spsr_el3 ob" "ld32 E c3 = ld32 E c2" "ld32 (E + 4) c3 = ld32 (E + 4) c2"
    using restore_from32 [OF c2(1), of l2 ob] al c2(2) by (auto simp: E_def)
  have "k_lr c2 n = k_lr c n" if "n \<noteq> MODE_MON" for n using that by (simp add: c2_def)
  moreover have "k_spsr c2 = k_spsr c" "\<And>n. 4 \<le> n \<Longrightarrow> k_r c2 n = k_r c n" by (simp_all add: c2_def)
  ultimately have lb: "k_sp (load_banks ob c2) = k_sp (load_banks ob c)" "k_spsr (load_banks ob c2) = k_spsr (load_banks ob c)"
    "(k_lr (load_banks ob c2))(MODE_MON := l2) = (k_lr (load_banks ob c))(MODE_MON := l2)"
    "\<And>n. 4 \<le> n \<Longrightarrow> k_r (load_banks ob c2) n = k_r (load_banks ob c) n"
    using load_banks_cong [where c' = c2 and c = c and b = ob] c2(2) by blast+
  have "bank32 c3 = bank32 c" by (simp add: bank32_def mode32_def c3(2) c2(3))
  then have "bank32 c3 = MODE_MON" using m by simp
  then show ?thesis using that [OF sv c3(1)] c3 c2 lb by metis
qed

text \<open>The state before the save and that before the exit, relative to the world \<open>c\<close> that leaves.\<close>

definition leaving :: "cpu32 \<Rightarrow> cpu32 \<Rightarrow> bool" where
  "leaving c e \<longleftrightarrow> bank32 e = MODE_MON \<and> k_sp e = k_sp c \<and> k_lr e = k_lr c \<and> k_spsr e = k_spsr c \<and>
     (\<forall>n. 4 \<le> n \<longrightarrow> k_r e n = k_r c n) \<and> k_r e 1 = ld32 (k_sp c MODE_MON + 4) c \<and> k_r e 2 = ld32 (k_sp c MODE_MON) c \<and>
     ld32 (k_sp c MODE_MON) e = k_r c 0 \<and> ld32 (k_sp c MODE_MON + 4) e = k_r c 1"

definition arriving :: "u32 \<Rightarrow> state_buf32 \<Rightarrow> cpu32 \<Rightarrow> cpu32 \<Rightarrow> bool" where
  "arriving l b c e \<longleftrightarrow> bank32 e = MODE_MON \<and>
     k_sp e = (k_sp (load_banks b c))(MODE_MON := k_sp c MODE_MON - 8) \<and> k_lr e = (k_lr (load_banks b c))(MODE_MON := l) \<and>
     k_spsr e = k_spsr (load_banks b c) \<and> (\<forall>n. 4 \<le> n \<longrightarrow> k_r e n = k_r (load_banks b c) n) \<and>
     ld32 (k_sp c MODE_MON - 8) e = q_elr_el3 b \<and> ld32 (k_sp c MODE_MON - 4) e = q_spsr_el3 b \<and>
     ld32 (k_sp c MODE_MON) e = k_r c 0 \<and> ld32 (k_sp c MODE_MON + 4) e = k_r c 1"

lemma leaving_arriving:
  assumes al: "word4 (k_sp c MODE_MON)" and e: "leaving c e"
  obtains c2 c3 where
    "save_into l1 b e = Some (c2, save_banks (ld32 (k_sp c MODE_MON + 4) c) (ld32 (k_sp c MODE_MON) c) c b)"
    "restore_from l2 ob c2 = Some c3" "k_scr c3 = k_scr e" "arriving l2 ob c c3"
proof -
  have en: "bank32 e = MODE_MON" "k_sp e = k_sp c" "k_lr e = k_lr c" "k_spsr e = k_spsr c" "\<And>n. 4 \<le> n \<Longrightarrow> k_r e n = k_r c n"
    "k_r e 1 = ld32 (k_sp c MODE_MON + 4) c" "k_r e 2 = ld32 (k_sp c MODE_MON) c"
    "ld32 (k_sp c MODE_MON) e = k_r c 0" "ld32 (k_sp c MODE_MON + 4) e = k_r c 1"
    using e by (simp_all add: leaving_def)
  have al': "word4 (k_sp e MODE_MON)" using al en(2) by simp
  have lb: "k_sp (load_banks ob e) = k_sp (load_banks ob c)" "k_spsr (load_banks ob e) = k_spsr (load_banks ob c)"
    "k_lr (load_banks ob e) = k_lr (load_banks ob c)" "\<And>n. 4 \<le> n \<Longrightarrow> k_r (load_banks ob e) n = k_r (load_banks ob c) n"
    using en(2-5) by (simp_all add: load_banks_def)
  have sb: "save_banks x y e b = save_banks x y c b" for x y
    using en(2-5) by (intro save_banks_cong) simp_all
  show ?thesis
    using save_restore32 [OF en(1) al', where b = b and ob = ob and ?l1.0 = l1 and ?l2.0 = l2,
        unfolded en(2,6-9) lb(1-3) sb] lb(4) that
    unfolding arriving_def by metis
qed

lemma arriving_exit:
  assumes al: "word4 (k_sp c MODE_MON)" and e: "arriving l b c e" "k_scr e = k_scr c XOR 1"
  shows "switched32 l b c (switch_exit e)"
proof -
  have ar: "bank32 e = MODE_MON" "k_sp e MODE_MON = k_sp c MODE_MON - 8"
    "k_sp e = (k_sp (load_banks b c))(MODE_MON := k_sp c MODE_MON - 8)"
    using e(1) by (simp_all add: arriving_def)
  have "k_sp (load_banks b c) MODE_MON = k_sp c MODE_MON" by (simp add: load_banks_def)
  then have "(k_sp e)(MODE_MON := k_sp c MODE_MON) = k_sp (load_banks b c)" unfolding ar(3) by (simp add: fun_eq_iff)
  then show ?thesis
    using e switch_exit_obs [OF ar(1) al ar(2)] by (simp add: switched32_def arriving_def)
qed

lemma arriving_scr: "arriving l b c (set_reg32 3 v (e\<lparr>k_scr := x\<rparr>)) = arriving l b c e" "arriving l b c (e\<lparr>k_scr := x\<rparr>) = arriving l b c e"
  by (simp_all add: arriving_def)

lemma leaving_entry:
  assumes "bank32 c = MODE_MON" "word4 (k_sp c MODE_MON)"
  shows "leaving c (switch_entry c)" "leaving c ((set_reg32 3 v (switch_entry c))\<lparr>k_scr := x\<rparr>)"
  using switch_entry_obs [OF assms] by (simp_all add: leaving_def)

lemma monitor_switch32_split:
  "monitor_switch32 l1 l2 m =
     (let c = switch_entry (cpu32_of m); m1 = m\<lparr>cpu32_of := c\<rparr>
      in Option.bind (if reg32 3 c = 0 then switch_to_nsec l1 l2 m1 else switch_to_sec l1 l2 m1)
           (\<lambda>m2. Some (m2\<lparr>cpu32_of := switch_exit (cpu32_of m2)\<rparr>)))"
  by (simp only: monitor_switch32_def switch_entry_def switch_exit_def Let_def)

lemma monitor_switch32_result:
  assumes "bank32 (cpu32_of m) = MODE_MON" "word4 (k_sp (cpu32_of m) MODE_MON)"
  shows "\<exists>m'. monitor_switch32 l1 l2 m = Some m' \<and> switched32 l2 (other_buf32 m) (cpu32_of m) (cpu32_of m') \<and>
     other_buf32 m' = save_banks (ld32 (k_sp (cpu32_of m) MODE_MON + 4) (cpu32_of m)) (ld32 (k_sp (cpu32_of m) MODE_MON) (cpu32_of m))
       (cpu32_of m) (current_buf32 m) \<and>
     current_buf32 m' = other_buf32 m"
proof -
  let ?c = "cpu32_of m" and ?e = "switch_entry (cpu32_of m)"
  let ?b = "other_buf32 m" and ?s = "current_buf32 m"
  let ?sb = "save_banks (ld32 (k_sp ?c MODE_MON + 4) ?c) (ld32 (k_sp ?c MODE_MON) ?c) ?c ?s"
  note lv = leaving_entry [OF assms] and en = switch_entry_obs(5,9) [OF assms]
  show ?thesis
  proof (cases "k_scr ?c AND 1 = 0")
    case True
    obtain c2 c3 where c3: "save_into l1 ?s ?e = Some (c2, ?sb)" "restore_from l2 ?b c2 = Some c3" "k_scr c3 = k_scr ?e"
      "arriving l2 ?b ?c c3"
      by (rule leaving_arriving [OF assms(2) lv(1)])
    define c5 where "c5 = (set_reg32 3 (k_scr c3 OR SCR32_NS) c3)\<lparr>k_scr := k_scr ?c XOR 1\<rparr>"
    have "monitor_switch32 l1 l2 m = Some (m\<lparr>cpu32_of := switch_exit c5, sec_state32 := ?sb\<rparr>)"
      using c3(1-3) True scr_flip(1) [OF True] en
      by (simp add: monitor_switch32_split switch_to_nsec_def Let_def current_buf32_def other_buf32_def c5_def reg32_def)
    moreover have "switched32 l2 ?b ?c (switch_exit c5)"
      using c3(4) by (intro arriving_exit [OF assms(2)]) (simp_all add: c5_def arriving_def)
    moreover from this have "k_scr (switch_exit c5) AND 1 \<noteq> 0" using True xor_1_bit by (simp add: switched32_def)
    ultimately show ?thesis using True by (auto simp: other_buf32_def current_buf32_def)
  next
    case False
    let ?e = "(set_reg32 3 (k_scr ?c AND NOT SCR32_NS) (switch_entry ?c))\<lparr>k_scr := k_scr ?c XOR 1\<rparr>"
    obtain c2 c3 where c3: "save_into l1 ?s ?e = Some (c2, ?sb)" "restore_from l2 ?b c2 = Some c3" "k_scr c3 = k_scr ?e"
      "arriving l2 ?b ?c c3"
      by (rule leaving_arriving [OF assms(2) lv(2)])
    have "monitor_switch32 l1 l2 m = Some (m\<lparr>cpu32_of := switch_exit c3, nsec_state32 := ?sb\<rparr>)"
      using c3(1-3) False scr_flip(2) [OF False] en
      by (simp add: monitor_switch32_split switch_to_sec_def Let_def current_buf32_def other_buf32_def reg32_def)
    moreover have "switched32 l2 ?b ?c (switch_exit c3)"
      using c3(3,4) by (intro arriving_exit [OF assms(2)]) simp_all
    moreover from this have "k_scr (switch_exit c3) AND 1 = 0" using False xor_1_bit by (simp add: switched32_def)
    ultimately show ?thesis using False by (auto simp: other_buf32_def current_buf32_def)
  qed
qed

end
