(* ===== verification/El3Arm.thy ===== *)
theory El3Arm
  imports Monitor32Proofs PageTable32Ops TzTest
begin

text \<open>
  The SMC handler of the AArch32 EL3 image: \<^verbatim>\<open>el3/el3.c\<close> as that build compiles it, with
  descriptors of five 32-bit words.  \<open>el3_arm\<close> extends the monitor's state with the C program's:
  the page tables, the descriptor the second argument points to, the security state the program
  believes in and its test counters.  SCTLR is banked by SCR.NS, which Monitor mode does not hide.

  A call that C leaves undefined, or whose effect on the processor the model does not follow, is
  \<open>None\<close>: a test number past the table, a mapping that does not return, an SVC executed in Monitor
  mode, and a write of the CPSR that changes more than flags and interrupt masks.
\<close>

section \<open>State\<close>

record op_desc32 =
  d0 :: u32
  d1 :: u32
  d2 :: u32
  d3 :: u32
  d4 :: u32

record el3_arm = monitor32 +
  a_secure_state :: u32
  a_mm :: mm32
  a_desc :: op_desc32
  a_tcnt :: test_control_t
  a_cpacr :: u32
  a_sctlr :: "bool \<Rightarrow> u32"
  a_cfgctrl :: u32
  a_wfi :: nat

definition scr_ns :: "'a monitor32_scheme \<Rightarrow> u32" where
  "scr_ns s = k_scr (cpu32_of s) AND SCR32_NS"

definition upd_cpu32 :: "(cpu32 \<Rightarrow> cpu32) \<Rightarrow> 'a monitor32_scheme \<Rightarrow> 'a monitor32_scheme" where
  "upd_cpu32 f s = s\<lparr>cpu32_of := f (cpu32_of s)\<rparr>"

section \<open>The operations\<close>

definition el3_shutdown32 :: "el3_arm \<Rightarrow> el3_arm" where
  "el3_shutdown32 s = s\<lparr>a_cfgctrl := SYS_SHUTDOWN, a_wfi := a_wfi s + 1\<rparr>"

text \<open>\<open>op_map_mem_t\<close> is the type, the length and the two addresses.\<close>

definition el3_map_mem32 :: "el3_arm \<Rightarrow> (u32 \<times> el3_arm) option" where
  "el3_map_mem32 s =
     (let d = a_desc s in
      Option.bind
        (if d0 d AND OP_MAP_EL3 = OP_MAP_EL3
         then map_option (\<lambda>mm. s\<lparr>a_mm := mm\<rparr>) (mem_map_pa32 (d2 d) (d3 d) 0 PTE32_PRIV_RW (a_mm s))
         else Some s)
        (\<lambda>s1. if d0 d AND OP_MAP_SEC_EL1 = OP_MAP_SEC_EL1
              then Some (SVC_OP_MAP, s1\<lparr>a_desc := d\<lparr>d0 := d0 d AND NOT OP_MAP_EL3\<rparr>\<rparr>)
              else Some (0, s1)))"

text \<open>\<open>psr\<close> is what a read of the CPSR returns.\<close>

definition el3_check_smc32 :: "u32 \<Rightarrow> test_control_t \<Rightarrow> test_control_t" where
  "el3_check_smc32 psr c =
     count_check (0x100 = 0x100 AND psr) (count_check (0x80 = 0x80 AND psr)
       (count_check (0x40 = 0x40 AND psr) (count_check (MODE_MON = psr AND MODE_MON) c)))"

definition el3_run_test32 :: "u32 \<Rightarrow> u32 \<Rightarrow> u32 \<Rightarrow> u32 \<Rightarrow> u32 \<Rightarrow> el3_arm \<Rightarrow> el3_arm option" where
  "el3_run_test32 psr fid el state arg s =
     (case run_test (el3_test_func AArch32) EL3 (a_secure_state s) zero_desc fid el state arg of
        Run f x \<Rightarrow> Some (s\<lparr>a_tcnt := el3_check_smc32 psr (a_tcnt s)\<rparr>)
      | Null_slot \<Rightarrow> Some s
      | Bad_index \<Rightarrow> None
      | Forward d \<Rightarrow> None)"

text \<open>\<open>op_test_t\<close> is the original value, the current one and two counters; \<open>lsr\<close> by a register
  uses its low byte.\<close>

definition test_step32 :: "op_desc32 \<Rightarrow> op_desc32" where
  "test_step32 d =
     (let e = (if d1 d \<noteq> drop_bit (unat (d2 d) mod 256) (d0 d) then d\<lparr>d3 := d3 d + 1\<rparr> else d)
      in e\<lparr>d1 := drop_bit 1 (d1 e), d2 := d2 e + 1\<rparr>)"

text \<open>\<open>op_data_t\<close> is the key, the value and the level.\<close>

definition key32 :: "el3_arm \<Rightarrow> u64" where
  "key32 s = ucast (d0 (a_desc s))"

definition el3_get_reg32 :: "u32 \<Rightarrow> el3_arm \<Rightarrow> el3_arm" where
  "el3_get_reg32 psr s =
     (if d2 (a_desc s) = 3 then
        (if key32 s = KEY_CPSR then s\<lparr>a_desc := (a_desc s)\<lparr>d1 := psr\<rparr>\<rparr>
         else if key32 s = KEY_CPACR then s\<lparr>a_desc := (a_desc s)\<lparr>d1 := a_cpacr s\<rparr>\<rparr>
         else if key32 s = KEY_SCR then s\<lparr>a_desc := (a_desc s)\<lparr>d1 := k_scr (cpu32_of s)\<rparr>\<rparr>
         else if key32 s = KEY_SCTLR then s\<lparr>a_desc := (a_desc s)\<lparr>d1 := a_sctlr s (scr_ns s \<noteq> 0)\<rparr>\<rparr>
         else s)
      else s)"

text \<open>What a write of the CPSR may change: the flags and the masks A, I and F.\<close>

definition psr_flags :: u32 where "psr_flags = 0xF80F0000"

definition psr_masks :: u32 where "psr_masks = 0x1C0"

definition write_cpsr32 :: "u32 \<Rightarrow> cpu32 \<Rightarrow> cpu32 option" where
  "write_cpsr32 v c =
     (if v AND NOT (psr_flags OR psr_masks) = k_cpsr c AND NOT (psr_flags OR psr_masks)
      then Some (c\<lparr>k_cpsr := v\<rparr>) else None)"

definition el3_set_reg32 :: "el3_arm \<Rightarrow> el3_arm option" where
  "el3_set_reg32 s =
     (let v = d1 (a_desc s) in
      if d2 (a_desc s) = 3 then
        (if key32 s = KEY_CPSR then map_option (\<lambda>c. s\<lparr>cpu32_of := c\<rparr>) (write_cpsr32 v (cpu32_of s))
         else if key32 s = KEY_CPACR then Some (s\<lparr>a_cpacr := v\<rparr>)
         else if key32 s = KEY_SCR then Some (upd_cpu32 (\<lambda>c. c\<lparr>k_scr := v\<rparr>) s)
         else if key32 s = KEY_SCTLR then Some (s\<lparr>a_sctlr := (a_sctlr s)(scr_ns s \<noteq> 0 := v)\<rparr>)
         else Some s)
      else Some s)"

text \<open>\<open>op_dispatch_t\<close> is the function number, its argument, the security state and the level.
  \<open>SMC_OP_TEST\<close> falls through into \<open>SMC_OP_GET_REG\<close>.\<close>

definition el3_smc_switch32 :: "u32 \<Rightarrow> u32 \<Rightarrow> el3_arm \<Rightarrow> (u32 \<times> el3_arm) option" where
  "el3_smc_switch32 psr op s =
     (let d = a_desc s in
      if op = SMC_OP_YIELD then Some (SVC_OP_YIELD, s)
      else if op = SMC_OP_MAP then el3_map_mem32 s
      else if op = SMC_OP_NOOP then Some (0, s)
      else if op = SMC_OP_EXIT then Some (0, el3_shutdown32 s)
      else if op = SMC_OP_DISPATCH then
        (if d3 d = EL3 \<and> d2 d = scr_ns s then map_option (\<lambda>s1. (0, s1)) (el3_run_test32 psr (d0 d) (d3 d) (d2 d) (d1 d) s)
         else Some (SVC_OP_DISPATCH, s))
      else if op = SMC_OP_TEST then Some (SVC_OP_TEST, el3_get_reg32 psr (s\<lparr>a_desc := test_step32 d\<rparr>))
      else if op = SMC_OP_GET_REG then Some (0, el3_get_reg32 psr s)
      else if op = SMC_OP_SET_REG then map_option (\<lambda>s1. (0, s1)) (el3_set_reg32 s)
      else Some (0, el3_shutdown32 s))"

definition el3_handle_smc32 :: "u32 \<Rightarrow> u32 \<Rightarrow> u32 \<Rightarrow> el3_arm \<Rightarrow> (u32 \<times> el3_arm) option" where
  "el3_handle_smc32 psr op elr s =
     map_option (\<lambda>(ret, s1).
       (ret, upd_cpu32 (set_exception_return32 elr) (if ret \<noteq> 0 then s1\<lparr>a_secure_state := a_secure_state s1 XOR 1\<rparr> else s1)))
       (el3_smc_switch32 psr op s)"

section \<open>What the handler does\<close>

text \<open>The SMCs whose result is not 0.\<close>

definition smc32_switches :: "el3_arm \<Rightarrow> bool" where
  "smc32_switches s \<longleftrightarrow>
     (let op = k_r (cpu32_of s) 0; d = a_desc s in
      op = SMC_OP_YIELD \<or> op = SMC_OP_TEST \<or>
      op = SMC_OP_MAP \<and> d0 d AND OP_MAP_SEC_EL1 = OP_MAP_SEC_EL1 \<or>
      op = SMC_OP_DISPATCH \<and> \<not> (d3 d = EL3 \<and> d2 d = scr_ns s))"

text \<open>The SMCs that the image is made for, with \<open>s\<close> the state of the call: a page mapped at EL3 is one that
  the tables have room for, and not a page of the monitor's stack frame; a test sent to EL3 is in its table and for the state it is in;
  a new CPSR differs in flags and masks only; and the SCTLR of the Secure bank, under which the
  monitor itself runs, is left alone.\<close>

definition smc_served :: "u32 \<Rightarrow> el3_arm \<Rightarrow> bool" where
  "smc_served lim s \<longleftrightarrow>
     (let op = k_r (cpu32_of s) 0; d = a_desc s; sp = k_sp (cpu32_of s) MODE_MON in
      (op = SMC_OP_MAP \<longrightarrow> d0 d AND OP_MAP_EL3 = OP_MAP_EL3 \<longrightarrow>
         pt32_inv lim (a_mm s) \<and> room32 lim 1 (a_mm s) \<and> usable32 lim (a_mm s) (d2 d) \<and>
         \<not> same_page32 (d2 d) sp \<and> \<not> same_page32 (d2 d) (sp + 4)) \<and>
      (op = SMC_OP_DISPATCH \<longrightarrow> d3 d = EL3 \<longrightarrow> d2 d = scr_ns s \<longrightarrow> d2 d = a_secure_state s \<and> unat (d0 d) < 2) \<and>
      (op = SMC_OP_SET_REG \<longrightarrow> d2 d = 3 \<longrightarrow>
         (key32 s = KEY_CPSR \<longrightarrow> write_cpsr32 (d1 d) (cpu32_of s) \<noteq> None) \<and> (key32 s = KEY_SCTLR \<longrightarrow> scr_ns s \<noteq> 0)))"

text \<open>SCR after the handler.\<close>

definition smc_scr :: "el3_arm \<Rightarrow> u32" where
  "smc_scr s =
     (if k_r (cpu32_of s) 0 = SMC_OP_SET_REG \<and> d2 (a_desc s) = 3 \<and> key32 s = KEY_SCR then d1 (a_desc s) else k_scr (cpu32_of s))"

lemma smc32_switches_scr: "smc32_switches s \<Longrightarrow> smc_scr s = k_scr (cpu32_of s)"
  by (auto simp: smc32_switches_def smc_scr_def Let_def c_const)

lemma el3_get_reg32_keeps [simp]:
  "cpu32_of (el3_get_reg32 psr s) = cpu32_of s" "sec_state32 (el3_get_reg32 psr s) = sec_state32 s"
  "nsec_state32 (el3_get_reg32 psr s) = nsec_state32 s" "a_secure_state (el3_get_reg32 psr s) = a_secure_state s"
  by (simp_all add: el3_get_reg32_def)

text \<open>Of the processor the handler itself writes the CPSR and SCR only.\<close>

definition smc_effect :: "el3_arm \<Rightarrow> u32 \<Rightarrow> el3_arm \<Rightarrow> bool" where
  "smc_effect s ret s1 \<longleftrightarrow> (ret \<noteq> 0 \<longleftrightarrow> smc32_switches s) \<and>
     (\<exists>p. cpu32_of s1 = (cpu32_of s)\<lparr>k_cpsr := p, k_scr := smc_scr s\<rparr> \<and>
          p AND NOT (psr_flags OR psr_masks) = k_cpsr (cpu32_of s) AND NOT (psr_flags OR psr_masks)) \<and>
     sec_state32 s1 = sec_state32 s \<and> nsec_state32 s1 = nsec_state32 s \<and> a_secure_state s1 = a_secure_state s"

lemma smc_effectI:
  assumes "ret \<noteq> 0 \<longleftrightarrow> smc32_switches s" "cpu32_of s1 = cpu32_of s" "smc_scr s = k_scr (cpu32_of s)"
    "sec_state32 s1 = sec_state32 s" "nsec_state32 s1 = nsec_state32 s" "a_secure_state s1 = a_secure_state s"
  shows "smc_effect s ret s1"
  unfolding smc_effect_def
  by (intro conjI exI [of _ "k_cpsr (cpu32_of s)"]) (use assms in simp_all)

lemma el3_smc_switch32_served:
  assumes "smc_served lim s"
  shows "\<exists>ret s1. el3_smc_switch32 psr (k_r (cpu32_of s) 0) s = Some (ret, s1) \<and> smc_effect s ret s1"
proof -
  let ?d = "a_desc s" and ?op = "k_r (cpu32_of s) 0"
  note ops = SMC_OP_YIELD_def SMC_OP_MAP_def SMC_OP_NOOP_def SMC_OP_EXIT_def SMC_OP_DISPATCH_def SMC_OP_TEST_def
    SMC_OP_GET_REG_def SMC_OP_SET_REG_def
  consider (plain) "?op \<noteq> SMC_OP_MAP" "?op \<noteq> SMC_OP_DISPATCH" "?op \<noteq> SMC_OP_SET_REG"
    | (mp) "?op = SMC_OP_MAP" | (disp) "?op = SMC_OP_DISPATCH" | (set_reg) "?op = SMC_OP_SET_REG"
    by blast
  then show ?thesis
  proof cases
    case plain
    then have "smc_scr s = k_scr (cpu32_of s)" by (simp add: smc_scr_def)
    moreover have "SVC_OP_YIELD \<noteq> 0" "SVC_OP_TEST \<noteq> 0" by (simp_all add: SVC_OP_YIELD_def SVC_OP_TEST_def)
    ultimately show ?thesis
      using plain by (auto simp: el3_smc_switch32_def Let_def el3_shutdown32_def smc32_switches_def ops intro!: smc_effectI)
  next
    case mp
    then have sc: "smc_scr s = k_scr (cpu32_of s)" by (simp add: smc_scr_def ops)
    have sw: "smc32_switches s \<longleftrightarrow> d0 ?d AND OP_MAP_SEC_EL1 = OP_MAP_SEC_EL1"
      using mp by (simp add: smc32_switches_def Let_def ops)
    have ne: "SVC_OP_MAP \<noteq> 0" by (simp add: SVC_OP_MAP_def)
    obtain mm where mm: "d0 ?d AND OP_MAP_EL3 = OP_MAP_EL3 \<Longrightarrow> mem_map_pa32 (d2 ?d) (d3 ?d) 0 PTE32_PRIV_RW (a_mm s) = Some mm"
    proof (cases "d0 ?d AND OP_MAP_EL3 = OP_MAP_EL3")
      case True
      then have "pt32_inv lim (a_mm s)" "room32 lim 1 (a_mm s)" "usable32 lim (a_mm s) (d2 ?d)"
        using assms mp by (simp_all add: smc_served_def Let_def)
      from mem_map_pa32_maps [OF this, of 0 PTE32_PRIV_RW "d3 ?d"] show ?thesis
        using that by (auto simp: PTE32_PRIV_RW_def)
    qed (use that in blast)
    show ?thesis
      using mp mm sw ne
      by (auto simp: el3_smc_switch32_def Let_def ops el3_map_mem32_def sc intro!: smc_effectI)
  next
    case disp
    then have sc: "smc_scr s = k_scr (cpu32_of s)" by (simp add: smc_scr_def ops)
    have sw: "smc32_switches s \<longleftrightarrow> \<not> (d3 ?d = EL3 \<and> d2 ?d = scr_ns s)" using disp by (simp add: smc32_switches_def Let_def ops)
    show ?thesis
    proof (cases "d3 ?d = EL3 \<and> d2 ?d = scr_ns s")
      case True
      then have ok: "scr_ns s = a_secure_state s" "unat (d0 ?d) < 2" using assms disp by (simp_all add: smc_served_def Let_def)
      then have "unat (d0 ?d) = 0 \<or> unat (d0 ?d) = 1" by linarith
      then have "\<exists>c. el3_run_test32 psr (d0 ?d) (d3 ?d) (d2 ?d) (d1 ?d) s = Some (s\<lparr>a_tcnt := c\<rparr>)"
        using True ok by (auto simp: el3_run_test32_def run_test_def el3_test_func_def intro: exI [of _ "a_tcnt s"])
      then show ?thesis
        using disp True sw sc by (auto simp: el3_smc_switch32_def Let_def ops intro!: smc_effectI)
    next
      case False
      have "SVC_OP_DISPATCH \<noteq> 0" by (simp add: SVC_OP_DISPATCH_def)
      then show ?thesis using disp False sw sc by (auto simp: el3_smc_switch32_def Let_def ops intro!: smc_effectI)
    qed
  next
    case set_reg
    have sw: "\<not> smc32_switches s" using set_reg by (simp add: smc32_switches_def Let_def ops)
    have "\<exists>s1. el3_set_reg32 s = Some s1 \<and> smc_effect s 0 s1"
    proof (cases "d2 ?d = 3")
      case True
      have "write_cpsr32 (d1 ?d) (cpu32_of s) \<noteq> None" if "key32 s = KEY_CPSR"
        using assms set_reg True that by (simp add: smc_served_def Let_def)
      then show ?thesis
        using True set_reg sw
        by (auto simp: el3_set_reg32_def Let_def smc_effect_def smc_scr_def upd_cpu32_def write_cpsr32_def
            KEY_CPSR_def KEY_SCR_def KEY_CPACR_def KEY_SCTLR_def split: if_splits intro: exI [of _ "k_cpsr (cpu32_of s)"])
    next
      case False
      then have "smc_scr s = k_scr (cpu32_of s)" by (simp add: smc_scr_def)
      then show ?thesis using False sw by (auto simp: el3_set_reg32_def intro!: smc_effectI)
    qed
    then show ?thesis using set_reg by (auto simp: el3_smc_switch32_def Let_def ops)
  qed
qed

lemma el3_handle_smc32_served:
  assumes "smc_served lim s"
  obtains ret s1 where "el3_handle_smc32 psr (k_r (cpu32_of s) 0) elr s = Some (ret, s1)" "ret \<noteq> 0 \<longleftrightarrow> smc32_switches s"
    "\<exists>p. cpu32_of s1 = (cpu32_of s)\<lparr>k_cpsr := p, k_scr := smc_scr s\<rparr> \<and>
       p AND NOT (psr_flags OR psr_masks) = k_cpsr (cpu32_of s) AND NOT (psr_flags OR psr_masks)"
    "sec_state32 s1 = sec_state32 s" "nsec_state32 s1 = nsec_state32 s"
    "a_secure_state s1 = (if smc32_switches s then a_secure_state s XOR 1 else a_secure_state s)"
proof -
  obtain ret s1 where s1: "el3_smc_switch32 psr (k_r (cpu32_of s) 0) s = Some (ret, s1)" "smc_effect s ret s1"
    using el3_smc_switch32_served [OF assms] by blast
  then show ?thesis
    by (intro that [of ret "upd_cpu32 (set_exception_return32 elr) (if ret \<noteq> 0 then s1\<lparr>a_secure_state := a_secure_state s1 XOR 1\<rparr> else s1)"])
      (auto simp: el3_handle_smc32_def smc_effect_def upd_cpu32_def set_exception_return32_def)
qed

end
