(* ===== verification/Monitor32Ops.thy ===== *)
theory Monitor32Ops
  imports El3Arm
begin

text \<open>
  The AArch32 vectors as their callers see them: an SMC either returns or hands the processor to
  the other world, two switches bring a world back where it was, each switch leaves eight bytes
  on the monitor's stack, and an abort vector is invisible to what it interrupts.
\<close>

section \<open>What a buffer holds\<close>

definition banks32 :: "u32 list" where
  "banks32 = [MODE_SYS, MODE_IRQ, MODE_SVC, MODE_ABT, MODE_UND]"

definition saved_bank :: "u32 \<Rightarrow> state_buf32 \<Rightarrow> u32 \<times> u32" where
  "saved_bank m b =
     (if m = MODE_SYS then (q_sp_el0 b, q_elr_el0 b) else if m = MODE_IRQ then (q_sp_irq b, q_elr_irq b)
      else if m = MODE_SVC then (q_sp_el1 b, q_elr_el1 b) else if m = MODE_ABT then (q_sp_abt b, q_elr_abt b)
      else (q_sp_und b, q_elr_und b))"

definition saved_spsr :: "u32 \<Rightarrow> state_buf32 \<Rightarrow> u32" where
  "saved_spsr m b =
     (if m = MODE_IRQ then q_spsr_irq b else if m = MODE_SVC then q_spsr_el1 b
      else if m = MODE_ABT then q_spsr_abt b else q_spsr_und b)"

text \<open>The banked registers of a world, and r4 to r11.\<close>

definition same_banks :: "state_buf32 \<Rightarrow> cpu32 \<Rightarrow> bool" where
  "same_banks b c \<longleftrightarrow> (\<forall>m \<in> set banks32. saved_bank m b = (k_sp c m, k_lr c m)) \<and>
     (\<forall>m \<in> set (tl banks32). saved_spsr m b = k_spsr c m) \<and> (\<forall>i<8. q_reg b i = k_r c (4 + i))"

text \<open>\<open>c\<close> has just taken an SMC: the monitor's bank has where it returns to.\<close>

definition holds32 :: "state_buf32 \<Rightarrow> cpu32 \<Rightarrow> bool" where
  "holds32 b c \<longleftrightarrow> same_banks b c \<and> q_elr_el3 b = k_lr c MODE_MON \<and> q_spsr_el3 b = k_spsr c MODE_MON"

text \<open>\<open>c\<close> runs what \<open>b\<close> holds.\<close>

definition runs32 :: "state_buf32 \<Rightarrow> cpu32 \<Rightarrow> bool" where
  "runs32 b c \<longleftrightarrow> same_banks b c \<and> q_elr_el3 b = k_pc c \<and> q_spsr_el3 b = k_cpsr c"

text \<open>\<open>c'\<close> goes on after the SMC that \<open>c\<close> has taken.\<close>

definition resumed32 :: "cpu32 \<Rightarrow> cpu32 \<Rightarrow> bool" where
  "resumed32 c c' \<longleftrightarrow> k_pc c' = k_lr c MODE_MON \<and> k_cpsr c' = k_spsr c MODE_MON \<and>
     (\<forall>m \<in> set banks32. k_sp c' m = k_sp c m \<and> k_lr c' m = k_lr c m) \<and>
     (\<forall>m \<in> set (tl banks32). k_spsr c' m = k_spsr c m) \<and> (\<forall>n. 4 \<le> n \<and> n \<le> 11 \<longrightarrow> k_r c' n = k_r c n)"

lemma holds_runs_resumed:
  assumes "holds32 b c" "runs32 b c'"
  shows "resumed32 c c'"
proof -
  have "k_r c' n = k_r c n" if "4 \<le> n" "n \<le> 11" for n
  proof -
    have "n - 4 < 8" "4 + (n - 4) = n" using that by linarith+
    then show ?thesis using assms unfolding holds32_def runs32_def same_banks_def by metis
  qed
  then show ?thesis using assms by (fastforce simp: holds32_def runs32_def same_banks_def resumed32_def)
qed

lemma same_banks_save:
  assumes "\<And>m. m \<noteq> MODE_MON \<Longrightarrow> k_sp c m = k_sp c0 m" "\<And>m. m \<noteq> MODE_MON \<Longrightarrow> k_lr c m = k_lr c0 m" "k_spsr c = k_spsr c0"
    "\<And>r. 4 \<le> r \<Longrightarrow> r \<le> 11 \<Longrightarrow> k_r c r = k_r c0 r"
  shows "same_banks (save_banks x y c b) c0"
  using assms by (simp add: same_banks_def banks32_def saved_bank_def saved_spsr_def save_banks_def)

lemma same_banks_load:
  assumes "k_sp c' = k_sp (load_banks b c)" "k_lr c' = (k_lr (load_banks b c))(MODE_MON := l)"
    "k_spsr c' = k_spsr (load_banks b c)" "\<And>n. 4 \<le> n \<Longrightarrow> k_r c' n = k_r (load_banks b c) n"
  shows "same_banks b c'"
  using assms by (simp add: same_banks_def banks32_def saved_bank_def saved_spsr_def load_banks_def)

section \<open>Compiled code\<close>

text \<open>What compiled code promises (AAPCS): r4 to r11, the stack pointer and the \<open>n\<close> words above it
  are as they were; r0 to r3, r12, the flags and the link register of the mode it runs in need not
  be.  The handlers here touch no other bank.\<close>

definition aapcs32 :: "nat \<Rightarrow> cpu32 \<Rightarrow> cpu32 \<Rightarrow> bool" where
  "aapcs32 n c c' \<longleftrightarrow> k_cpsr c' AND NOT psr_flags = k_cpsr c AND NOT psr_flags \<and> k_sp c' = k_sp c \<and> k_spsr c' = k_spsr c \<and>
     (\<forall>m. m \<noteq> bank32 c \<longrightarrow> k_lr c' m = k_lr c m) \<and> (\<forall>r. 4 \<le> r \<and> r \<le> 11 \<longrightarrow> k_r c' r = k_r c r) \<and>
     (\<forall>k<n. ld32 (reg32 13 c + of_nat (4 * k)) c' = ld32 (reg32 13 c + of_nat (4 * k)) c)"

lemma same_mode:
  assumes "k_cpsr c' AND NOT x = k_cpsr c AND NOT x" "x AND 0x1F = 0"
  shows "bank32 c' = bank32 c"
proof -
  have "y AND 0x1F = (y AND NOT x) AND 0x1F" for y
  proof (rule bit_word_eqI)
    fix k
    have "\<not> (bit x k \<and> bit (0x1F :: u32) k)" using arg_cong [OF assms(2), of "\<lambda>w. bit w k"] by (simp add: bit_and_iff)
    then show "bit (y AND 0x1F) k = bit ((y AND NOT x) AND 0x1F) k"
      by (auto simp: bit_and_iff bit_not_iff dest: bit_imp_le_length)
  qed
  then have "k_cpsr c' AND 0x1F = k_cpsr c AND 0x1F" using assms(1) by metis
  then show ?thesis by (simp add: bank32_def mode32_def)
qed

lemma psr_no_mode: "psr_flags AND 0x1F = 0" "(psr_flags OR psr_masks) AND 0x1F = 0"
  by (simp_all add: psr_flags_def psr_masks_def)

lemma aapcs32D:
  assumes "aapcs32 n c c'"
  shows "k_sp c' = k_sp c" "k_spsr c' = k_spsr c" "bank32 c' = bank32 c"
    "m \<noteq> bank32 c \<Longrightarrow> k_lr c' m = k_lr c m" "4 \<le> r \<Longrightarrow> r \<le> 11 \<Longrightarrow> k_r c' r = k_r c r"
    "0 < n \<Longrightarrow> ld32 (reg32 13 c) c' = ld32 (reg32 13 c) c"
    "1 < n \<Longrightarrow> ld32 (reg32 13 c + 4) c' = ld32 (reg32 13 c + 4) c"
    "k < n \<Longrightarrow> ld32 (reg32 13 c + of_nat (4 * k)) c' = ld32 (reg32 13 c + of_nat (4 * k)) c"
proof -
  have all: "\<forall>k<n. ld32 (reg32 13 c + of_nat (4 * k)) c' = ld32 (reg32 13 c + of_nat (4 * k)) c"
    using assms unfolding aapcs32_def by blast
  show "k < n \<Longrightarrow> ld32 (reg32 13 c + of_nat (4 * k)) c' = ld32 (reg32 13 c + of_nat (4 * k)) c" using all by blast
  show "0 < n \<Longrightarrow> ld32 (reg32 13 c) c' = ld32 (reg32 13 c) c" using spec [OF all, of 0] by simp
  show "1 < n \<Longrightarrow> ld32 (reg32 13 c + 4) c' = ld32 (reg32 13 c + 4) c" using spec [OF all, of 1] by simp
  show "bank32 c' = bank32 c"
    by (rule same_mode [OF _ psr_no_mode(1)]) (use assms in \<open>simp add: aapcs32_def\<close>)
qed (use assms in \<open>simp_all add: aapcs32_def\<close>)

text \<open>\<open>handle\<close> is \<^verbatim>\<open>el3_handle_smc\<close> as compiled: where the C function, run on the state of the
  call, ends with \<open>ret\<close> and \<open>s1\<close>, so does \<open>handle\<close>, up to the registers and flags that a callee may
  spoil.  The CPSR the code reads has the mode and the masks of the caller's; its flags are not fixed.\<close>

definition reads_cpsr :: "cpu32 \<Rightarrow> u32 \<Rightarrow> bool" where
  "reads_cpsr c psr \<longleftrightarrow> psr AND 0x1DF = k_cpsr c AND 0x1DF"

definition compiled_smc :: "u32 \<Rightarrow> (el3_arm \<Rightarrow> el3_arm option) \<Rightarrow> bool" where
  "compiled_smc lim handle \<longleftrightarrow> (\<forall>s. smc_served lim s \<longrightarrow> (\<exists>psr. reads_cpsr (cpu32_of s) psr \<and>
     (\<forall>ret s1. el3_handle_smc32 psr (k_r (cpu32_of s) 0) (k_r (cpu32_of s) 3) s = Some (ret, s1) \<longrightarrow>
        (\<exists>c'. handle s = Some (s1\<lparr>cpu32_of := c'\<rparr>) \<and> k_r c' 0 = ret \<and> k_scr c' = k_scr (cpu32_of s1) \<and>
              aapcs32 2 (cpu32_of s1) c'))))"

section \<open>One SMC\<close>

text \<open>The state the vector calls the handler in: its frame is on the stack.\<close>

definition smc_call :: "'a monitor32_scheme \<Rightarrow> 'a monitor32_scheme" where
  "smc_call m =
     (let c1 = set_reg32 2 0 (srs MODE_MON (cpu32_of m))
      in m\<lparr>cpu32_of := set_reg32 3 (ld32 (reg32 13 c1 + 16) c1) c1\<rparr>)"

lemma el3_smc_vect32_call:
  "el3_smc_vect32 handle l1 l2 m = Option.bind (handle (smc_call m))
     (\<lambda>m1. if k_r (cpu32_of m1) 0 = 0 then Some (m1\<lparr>cpu32_of := rfe_up (cmp_zero 0 (cpu32_of m1))\<rparr>)
           else monitor_switch32 l1 l2 (m1\<lparr>cpu32_of := cmp_zero 0 (cpu32_of m1)\<rparr>))"
  unfolding el3_smc_vect32_def smc_call_def Let_def by (simp add: reg32_def cong: if_cong)

lemma smc_call_obs:
  assumes "bank32 (cpu32_of m) = MODE_MON" "word4 (k_sp (cpu32_of m) MODE_MON)"
  defines "S \<equiv> k_sp (cpu32_of m) MODE_MON" and "c \<equiv> cpu32_of (smc_call m)"
  shows "bank32 c = MODE_MON" "k_sp c = (k_sp (cpu32_of m))(MODE_MON := S - 8)" "k_spsr c = k_spsr (cpu32_of m)"
    "k_scr c = k_scr (cpu32_of m)" "k_lr c = k_lr (cpu32_of m)" "4 \<le> r \<Longrightarrow> k_r c r = k_r (cpu32_of m) r"
    "ld32 (S - 8) c = k_lr (cpu32_of m) MODE_MON" "ld32 (S - 4) c = k_spsr (cpu32_of m) MODE_MON" "reg32 13 c = S - 8"
    "k_r c 0 = k_r (cpu32_of m) 0" "k_cpsr c = k_cpsr (cpu32_of m)" "monitor32.more (smc_call m) = monitor32.more m"
    "sec_state32 (smc_call m) = sec_state32 m" "nsec_state32 (smc_call m) = nsec_state32 m"
  using assms(1,2) by (simp_all add: S_def c_def smc_call_def srs_def Let_def reg32_def ld32_st32)

lemma smc_call_program [simp]:
  "a_desc (smc_call m) = a_desc m" "a_secure_state (smc_call m) = a_secure_state m" "a_mm (smc_call m) = a_mm m"
  "k_r (cpu32_of (smc_call m)) 0 = k_r (cpu32_of m) 0" "k_scr (cpu32_of (smc_call m)) = k_scr (cpu32_of m)"
  by (simp_all add: smc_call_def srs_def Let_def)

lemma smc_call_same [simp]: "smc32_switches (smc_call m) = smc32_switches m" "smc_scr (smc_call m) = smc_scr m"
  by (simp_all add: smc32_switches_def smc_scr_def scr_ns_def key32_def)

definition smc_returned :: "el3_arm \<Rightarrow> el3_arm \<Rightarrow> bool" where
  "smc_returned m m' \<longleftrightarrow> resumed32 (cpu32_of m) (cpu32_of m') \<and> k_scr (cpu32_of m') = smc_scr m \<and>
     k_sp (cpu32_of m') = k_sp (cpu32_of m) \<and> sec_state32 m' = sec_state32 m \<and> nsec_state32 m' = nsec_state32 m \<and>
     a_secure_state m' = a_secure_state m"

definition smc_switched :: "el3_arm \<Rightarrow> el3_arm \<Rightarrow> bool" where
  "smc_switched m m' \<longleftrightarrow> holds32 (other_buf32 m') (cpu32_of m) \<and> runs32 (other_buf32 m) (cpu32_of m') \<and>
     current_buf32 m' = other_buf32 m \<and> k_scr (cpu32_of m') = k_scr (cpu32_of m) XOR 1 \<and>
     k_sp (cpu32_of m') MODE_MON = k_sp (cpu32_of m) MODE_MON - 8 \<and> a_secure_state m' = a_secure_state m XOR 1"

text \<open>The vector up to the comparison of the handler's result.\<close>

lemma smc_vect_calls:
  assumes "bank32 (cpu32_of m) = MODE_MON" "word4 (k_sp (cpu32_of m) MODE_MON)" "compiled_smc lim handle"
    "smc_served lim (smc_call m)"
  defines "S \<equiv> k_sp (cpu32_of m) MODE_MON" and "elr \<equiv> k_r (cpu32_of (smc_call m)) 3"
  obtains psr ret s1 m1 where
    "reads_cpsr (cpu32_of m) psr" "el3_handle_smc32 psr (k_r (cpu32_of m) 0) elr (smc_call m) = Some (ret, s1)"
    "el3_smc_vect32 handle l1 l2 m =
       (if smc32_switches m then monitor_switch32 l1 l2 m1 else Some (m1\<lparr>cpu32_of := rfe_up (cpu32_of m1)\<rparr>))"
    "k_r (cpu32_of m1) 0 = ret" "ret \<noteq> 0 \<longleftrightarrow> smc32_switches m" "monitor32.more m1 = monitor32.more s1"
    "a_secure_state m1 = (if smc32_switches m then a_secure_state m XOR 1 else a_secure_state m)"
    "bank32 (cpu32_of m1) = MODE_MON" "k_sp (cpu32_of m1) = (k_sp (cpu32_of m))(MODE_MON := S - 8)"
    "k_spsr (cpu32_of m1) = k_spsr (cpu32_of m)" "k_scr (cpu32_of m1) = smc_scr m"
    "\<forall>b. b \<noteq> MODE_MON \<longrightarrow> k_lr (cpu32_of m1) b = k_lr (cpu32_of m) b"
    "\<forall>r. 4 \<le> r \<and> r \<le> 11 \<longrightarrow> k_r (cpu32_of m1) r = k_r (cpu32_of m) r"
    "ld32 (S - 8) (cpu32_of m1) = k_lr (cpu32_of m) MODE_MON" "ld32 (S - 4) (cpu32_of m1) = k_spsr (cpu32_of m) MODE_MON"
    "sec_state32 m1 = sec_state32 m" "nsec_state32 m1 = nsec_state32 m"
proof -
  let ?s = "smc_call m"
  note c2 = smc_call_obs [OF assms(1,2), folded S_def]
  obtain psr where psr: "reads_cpsr (cpu32_of ?s) psr"
    and h: "\<And>ret s1. el3_handle_smc32 psr (k_r (cpu32_of ?s) 0) elr ?s = Some (ret, s1) \<Longrightarrow>
        (\<exists>c'. handle ?s = Some (s1\<lparr>cpu32_of := c'\<rparr>) \<and> k_r c' 0 = ret \<and> k_scr c' = k_scr (cpu32_of s1) \<and>
              aapcs32 2 (cpu32_of s1) c')"
    using assms(3,4) unfolding compiled_smc_def elr_def by blast
  obtain ret s1 p where run: "el3_handle_smc32 psr (k_r (cpu32_of ?s) 0) elr ?s = Some (ret, s1)" "ret \<noteq> 0 \<longleftrightarrow> smc32_switches ?s"
    and p: "cpu32_of s1 = (cpu32_of ?s)\<lparr>k_cpsr := p, k_scr := smc_scr ?s\<rparr>"
      "p AND NOT (psr_flags OR psr_masks) = k_cpsr (cpu32_of ?s) AND NOT (psr_flags OR psr_masks)"
    and s1: "sec_state32 s1 = sec_state32 ?s" "nsec_state32 s1 = nsec_state32 ?s"
      "a_secure_state s1 = (if smc32_switches ?s then a_secure_state ?s XOR 1 else a_secure_state ?s)"
    using el3_handle_smc32_served [OF assms(4)] by metis
  obtain c' where c': "handle ?s = Some (s1\<lparr>cpu32_of := c'\<rparr>)" "k_r c' 0 = ret" "k_scr c' = k_scr (cpu32_of s1)"
    "aapcs32 2 (cpu32_of s1) c'"
    using h [OF run(1)] by blast
  note a = aapcs32D [OF c'(4)]
  have b1: "bank32 (cpu32_of s1) = MODE_MON"
    using same_mode [of "cpu32_of s1" _ "cpu32_of ?s", OF _ psr_no_mode(2)] p c2(1) by simp
  then have r13: "reg32 13 (cpu32_of s1) = S - 8" using c2(2) by (simp add: reg32_def p(1))
  have o1: "k_sp (cpu32_of s1) = k_sp (cpu32_of ?s)" "k_spsr (cpu32_of s1) = k_spsr (cpu32_of ?s)"
    "k_lr (cpu32_of s1) = k_lr (cpu32_of ?s)" "k_r (cpu32_of s1) = k_r (cpu32_of ?s)" "k_scr (cpu32_of s1) = smc_scr m"
    "ld32 x (cpu32_of s1) = ld32 x (cpu32_of ?s)" for x
    by (simp_all add: p(1) ld32_def)
  define m1 where "m1 = s1\<lparr>cpu32_of := cmp_zero 0 c'\<rparr>"
  have w: "ld32 (S - 8) c' = k_lr (cpu32_of m) MODE_MON" "ld32 (S - 4) c' = k_spsr (cpu32_of m) MODE_MON"
    using a(6,7) r13 o1(6) c2(7,8) by simp_all
  show ?thesis
  proof (rule that [of psr ret s1 m1])
    show "reads_cpsr (cpu32_of m) psr" using psr c2(11) by (simp add: reads_cpsr_def)
    show "el3_handle_smc32 psr (k_r (cpu32_of m) 0) elr ?s = Some (ret, s1)" using run(1) by simp
    show "el3_smc_vect32 handle l1 l2 m =
       (if smc32_switches m then monitor_switch32 l1 l2 m1 else Some (m1\<lparr>cpu32_of := rfe_up (cpu32_of m1)\<rparr>))"
      using run(2) c'(1,2) by (auto simp: el3_smc_vect32_call m1_def)
    show "ret \<noteq> 0 \<longleftrightarrow> smc32_switches m" using run(2) by simp
    show "\<forall>b. b \<noteq> MODE_MON \<longrightarrow> k_lr (cpu32_of m1) b = k_lr (cpu32_of m) b"
      using a(4) b1 o1(3) c2(5) by (simp add: m1_def)
  qed (use a b1 o1 c2 w c'(2,3) s1 in \<open>simp_all add: m1_def\<close>)
qed

lemma monitor_switch32_more: "monitor_switch32 l1 l2 m = Some m' \<Longrightarrow> monitor32.more m' = monitor32.more m"
  by (auto simp: monitor_switch32_def switch_to_sec_def switch_to_nsec_def Let_def bind_eq_Some_conv split: if_splits)

lemma a_secure_state_more: "monitor32.more m' = monitor32.more m \<Longrightarrow> a_secure_state m' = a_secure_state m"
  by (cases m, cases m') simp

lemma smc_vect_outcome:
  assumes "bank32 (cpu32_of m) = MODE_MON" "word4 (k_sp (cpu32_of m) MODE_MON)" "compiled_smc lim handle"
    "smc_served lim (smc_call m)"
  obtains psr ret s1 m' where
    "reads_cpsr (cpu32_of m) psr"
    "el3_handle_smc32 psr (k_r (cpu32_of m) 0) (k_r (cpu32_of (smc_call m)) 3) (smc_call m) = Some (ret, s1)"
    "el3_smc_vect32 handle l1 l2 m = Some m'" "k_r (cpu32_of m') 0 = ret" "monitor32.more m' = monitor32.more s1"
    "if smc32_switches m then smc_switched m m' else smc_returned m m'"
proof -
  let ?S = "k_sp (cpu32_of m) MODE_MON"
  obtain psr ret s1 m1 where
    psr: "reads_cpsr (cpu32_of m) psr" and
    run: "el3_handle_smc32 psr (k_r (cpu32_of m) 0) (k_r (cpu32_of (smc_call m)) 3) (smc_call m) = Some (ret, s1)" and
    vect: "el3_smc_vect32 handle l1 l2 m =
       (if smc32_switches m then monitor_switch32 l1 l2 m1 else Some (m1\<lparr>cpu32_of := rfe_up (cpu32_of m1)\<rparr>))" and
    ret: "k_r (cpu32_of m1) 0 = ret" "ret \<noteq> 0 \<longleftrightarrow> smc32_switches m" "monitor32.more m1 = monitor32.more s1"
    "a_secure_state m1 = (if smc32_switches m then a_secure_state m XOR 1 else a_secure_state m)" and
    m1: "bank32 (cpu32_of m1) = MODE_MON" "k_sp (cpu32_of m1) = (k_sp (cpu32_of m))(MODE_MON := ?S - 8)"
    "k_spsr (cpu32_of m1) = k_spsr (cpu32_of m)" "k_scr (cpu32_of m1) = smc_scr m"
    "\<forall>b. b \<noteq> MODE_MON \<longrightarrow> k_lr (cpu32_of m1) b = k_lr (cpu32_of m) b"
    "\<forall>r. 4 \<le> r \<and> r \<le> 11 \<longrightarrow> k_r (cpu32_of m1) r = k_r (cpu32_of m) r"
    "ld32 (?S - 8) (cpu32_of m1) = k_lr (cpu32_of m) MODE_MON" "ld32 (?S - 4) (cpu32_of m1) = k_spsr (cpu32_of m) MODE_MON"
    "sec_state32 m1 = sec_state32 m" "nsec_state32 m1 = nsec_state32 m"
    by (rule smc_vect_calls [where ?l1.0 = l1 and ?l2.0 = l2, OF assms])
  show ?thesis
  proof (cases "smc32_switches m")
    case False
    let ?c = "rfe_up (cpu32_of m1)" and ?m = "m1\<lparr>cpu32_of := rfe_up (cpu32_of m1)\<rparr>"
    have "k_r ?c 0 = ret" using ret(1) by (simp add: rfe_up_def Let_def)
    moreover have "smc_returned m ?m"
      using m1 ret(4) False
      by (simp add: smc_returned_def resumed32_def banks32_def rfe_up_def Let_def reg32_def fun_eq_iff)
    ultimately show ?thesis using False vect ret(3) by (intro that [OF psr run, of ?m]) simp_all
  next
    case True
    have scr: "k_scr (cpu32_of m1) = k_scr (cpu32_of m)" using m1(4) smc32_switches_scr [OF True] by simp
    have bufs: "other_buf32 m1 = other_buf32 m" "current_buf32 m1 = current_buf32 m"
      using m1 scr by (simp_all add: other_buf32_def current_buf32_def)
    have sp: "k_sp (cpu32_of m1) MODE_MON = ?S - 8" using m1(2) by simp
    have al: "word4 (k_sp (cpu32_of m1) MODE_MON)" using assms(2) sp by simp
    obtain m' where m': "monitor_switch32 l1 l2 m1 = Some m'" "switched32 l2 (other_buf32 m) (cpu32_of m1) (cpu32_of m')"
      "other_buf32 m' = save_banks (ld32 (k_sp (cpu32_of m1) MODE_MON + 4) (cpu32_of m1))
          (ld32 (k_sp (cpu32_of m1) MODE_MON) (cpu32_of m1)) (cpu32_of m1) (current_buf32 m)"
      "current_buf32 m' = other_buf32 m"
      using monitor_switch32_result [OF m1(1) al, of l1 l2] bufs by auto
    have more: "monitor32.more m' = monitor32.more m1" using monitor_switch32_more [OF m'(1)] .
    have "same_banks (other_buf32 m') (cpu32_of m)"
      unfolding m'(3) by (rule same_banks_save) (use m1 in simp_all)
    moreover have "?S - 8 + 4 = ?S - 4" by simp
    ultimately have "holds32 (other_buf32 m') (cpu32_of m)"
      unfolding holds32_def by (simp only: m'(3) sp) (simp add: save_banks_def m1(7,8))
    moreover have "same_banks (other_buf32 m) (cpu32_of m')"
      using m'(2) by (intro same_banks_load [where c = "cpu32_of m1" and l = l2]) (simp_all add: switched32_def)
    moreover have "k_sp (cpu32_of m') MODE_MON = ?S - 8" using m'(2) sp by (simp add: switched32_def load_banks_def)
    moreover have "a_secure_state m' = a_secure_state m XOR 1" using a_secure_state_more [OF more] ret(4) True by simp
    ultimately have "smc_switched m m'" using m'(2,4) scr by (simp add: smc_switched_def runs32_def switched32_def)
    moreover have "k_r (cpu32_of m') 0 = ret" using m'(2) ret(1) by (simp add: switched32_def)
    ultimately show ?thesis using True vect m'(1) more ret(3) by (intro that [OF psr run, of m']) simp_all
  qed
qed

text \<open>C30: on AArch32 every SMC the image is made for comes back from the vector, with
  \<^verbatim>\<open>el3_handle_smc\<close> the C function (a parameter only in what compiled code leaves in the flags and the scratch
  registers).  \<open>smc_served\<close> says which SMCs: the pages, test numbers and register values
  the handler can take without undefined behaviour or losing the monitor's stack and mode.
  The result is in r0 and the C program's state is what the function leaves.  The SMCs
  that return 0 go back to the caller with its banked registers, r4 to r11, both buffers and
  the monitor's stack as they were, and SCR as it was unless the SMC sets SCR.  After the others
  (\<open>smc32_switches\<close>) the caller's banked registers, return address and CPSR are in
  the buffer of its own world, the processor runs what the other world's buffer holds, the NS bit of
  SCR and no other is flipped, as is the program's security state, and the monitor's stack pointer is
  8 lower than it was.\<close>

theorem smc32_returns_or_switches:
  assumes "bank32 (cpu32_of m) = MODE_MON" "word4 (k_sp (cpu32_of m) MODE_MON)" "compiled_smc lim handle"
    and "smc_served lim (smc_call m)"
  shows "\<exists>psr ret s1 m'. reads_cpsr (cpu32_of m) psr \<and>
     el3_handle_smc32 psr (k_r (cpu32_of m) 0) (k_r (cpu32_of (smc_call m)) 3) (smc_call m) = Some (ret, s1) \<and>
     el3_smc_vect32 handle l1 l2 m = Some m' \<and> k_r (cpu32_of m') 0 = ret \<and> monitor32.more m' = monitor32.more s1 \<and>
     (if smc32_switches m then smc_switched m m' else smc_returned m m')"
  using smc_vect_outcome [OF assms, of l1 l2] by metis

section \<open>There and back\<close>

lemma smc_vect_switches:
  assumes "bank32 (cpu32_of m) = MODE_MON" "word4 (k_sp (cpu32_of m) MODE_MON)" "compiled_smc lim handle"
    "smc_served lim (smc_call m)" "smc32_switches m"
  obtains m' where "el3_smc_vect32 handle l1 l2 m = Some m'" "smc_switched m m'"
  using smc_vect_outcome [OF assms(1-4), of l1 l2] assms(5) by (metis (full_types))

lemma scr_ns_bit: "scr_ns m = k_scr (cpu32_of m) AND 1"
  by (simp add: scr_ns_def SCR32_NS_def)

lemma and_1_cases32: "x AND 1 = 0 \<or> x AND 1 = 1" for x :: u32
  by (simp add: and_one_eq mod_2_eq_odd)

lemma ns_twice:
  assumes "x AND 1 = (y XOR 1) AND 1"
  shows "(x XOR 1) AND 1 = y AND (1 :: u32)"
  using assms and_1_cases32 [of x] and_1_cases32 [of y] and_1_cases32 [of "x XOR 1"] and_1_cases32 [of "y XOR 1"]
    xor_1_bit [of x] xor_1_bit [of y] by auto

text \<open>C31: two switches on AArch32 bring a world back after its own SMC.  A served SMC of world \<open>m\<close> that
  switches gives \<open>m1\<close>; let \<open>w\<close> be any state in which the other world takes a served SMC that switches, with
  the buffers, the NS bit of SCR and the monitor's stack pointer of \<open>m1\<close> and everything else (its registers
  and stacks, the rest of SCR, the memory, the C program's state) arbitrary.  Then the first world goes
  on with the banked stack pointers, link registers and SPSRs, the CPSR and the r4 to r11 it
  had, in its own security state; of SCR only the NS bit is brought back, the other bits are those of \<open>w\<close>, and
  the stack pointer of the monitor is 16 lower.\<close>

theorem smc32_round_trip:
  assumes "compiled_smc lim handle"
    and "bank32 (cpu32_of m) = MODE_MON" "word4 (k_sp (cpu32_of m) MODE_MON)"
    and "smc_served lim (smc_call m)" "smc32_switches m"
  shows "\<exists>m1. el3_smc_vect32 handle l1 l2 m = Some m1 \<and>
     (\<forall>w. bank32 (cpu32_of w) = MODE_MON \<and> k_sp (cpu32_of w) MODE_MON = k_sp (cpu32_of m1) MODE_MON \<and>
          scr_ns w = scr_ns m1 \<and> sec_state32 w = sec_state32 m1 \<and> nsec_state32 w = nsec_state32 m1 \<and>
          smc_served lim (smc_call w) \<and> smc32_switches w \<longrightarrow>
        (\<exists>m2. el3_smc_vect32 handle l1 l2 w = Some m2 \<and> resumed32 (cpu32_of m) (cpu32_of m2) \<and>
           scr_ns m2 = scr_ns m \<and> k_scr (cpu32_of m2) = k_scr (cpu32_of w) XOR 1 \<and>
           k_sp (cpu32_of m2) MODE_MON = k_sp (cpu32_of m) MODE_MON - 16))"
proof -
  obtain m1 where m1: "el3_smc_vect32 handle l1 l2 m = Some m1" and s1: "smc_switched m m1"
    using smc_vect_switches [OF assms(2,3,1,4,5), of l1 l2] .
  have "\<exists>m2. el3_smc_vect32 handle l1 l2 w = Some m2 \<and> resumed32 (cpu32_of m) (cpu32_of m2) \<and>
           scr_ns m2 = scr_ns m \<and> k_scr (cpu32_of m2) = k_scr (cpu32_of w) XOR 1 \<and>
           k_sp (cpu32_of m2) MODE_MON = k_sp (cpu32_of m) MODE_MON - 16"
    if w: "bank32 (cpu32_of w) = MODE_MON" "k_sp (cpu32_of w) MODE_MON = k_sp (cpu32_of m1) MODE_MON"
      "scr_ns w = scr_ns m1" "sec_state32 w = sec_state32 m1" "nsec_state32 w = nsec_state32 m1"
      "smc_served lim (smc_call w)" "smc32_switches w" for w
  proof -
    have sp: "k_sp (cpu32_of w) MODE_MON = k_sp (cpu32_of m) MODE_MON - 8" using w(2) s1 by (simp add: smc_switched_def)
    then have "word4 (k_sp (cpu32_of w) MODE_MON)" using assms(3) by simp
    then obtain m2 where m2: "el3_smc_vect32 handle l1 l2 w = Some m2" and s2: "smc_switched w m2"
      using smc_vect_switches [OF w(1) _ assms(1) w(6,7), of l1 l2] by blast
    have "other_buf32 w = other_buf32 m1" using w(3-5) by (simp add: other_buf32_def scr_ns_bit)
    moreover have "k_scr (cpu32_of w) AND 1 = (k_scr (cpu32_of m) XOR 1) AND 1"
      using w(3) s1 by (simp add: scr_ns_bit smc_switched_def)
    note ns_twice [OF this]
    ultimately show ?thesis
      using m2 s1 s2 sp holds_runs_resumed by (auto simp: smc_switched_def scr_ns_bit)
  qed
  then show ?thesis using m1 by blast
qed

section \<open>The monitor's stack\<close>

text \<open>SMCs one after another and how many of them switched: between two of them the worlds do anything
  that leaves the monitor's stack pointer alone.\<close>

inductive smc_rounds :: "u32 \<Rightarrow> (el3_arm \<Rightarrow> el3_arm option) \<Rightarrow> u32 \<Rightarrow> u32 \<Rightarrow> el3_arm \<Rightarrow> nat \<Rightarrow> el3_arm \<Rightarrow> bool"
  for lim handle l1 l2 m
where
  none: "smc_rounds lim handle l1 l2 m 0 m"
| smc: "smc_rounds lim handle l1 l2 m n m1 \<Longrightarrow> bank32 (cpu32_of w) = MODE_MON \<Longrightarrow>
     k_sp (cpu32_of w) MODE_MON = k_sp (cpu32_of m1) MODE_MON \<Longrightarrow> smc_served lim (smc_call w) \<Longrightarrow>
     el3_smc_vect32 handle l1 l2 w = Some m2 \<Longrightarrow>
     smc_rounds lim handle l1 l2 m (if smc32_switches w then Suc n else n) m2"

lemma smc_vect_sp:
  assumes "bank32 (cpu32_of w) = MODE_MON" "word4 (k_sp (cpu32_of w) MODE_MON)" "compiled_smc lim handle"
    "smc_served lim (smc_call w)"
  shows "\<exists>m2. el3_smc_vect32 handle l1 l2 w = Some m2 \<and>
     k_sp (cpu32_of m2) MODE_MON = k_sp (cpu32_of w) MODE_MON - (if smc32_switches w then 8 else 0)"
proof -
  obtain m2 where "el3_smc_vect32 handle l1 l2 w = Some m2" "if smc32_switches w then smc_switched w m2 else smc_returned w m2"
    using smc_vect_outcome [OF assms, of l1 l2] by metis
  then show ?thesis by (auto simp: smc_switched_def smc_returned_def split: if_splits)
qed

lemma word4_down: "word4 a \<Longrightarrow> word4 (a - 8 * of_nat n)"
proof -
  assume "word4 a"
  moreover have "(4 :: u32) dvd 8 * of_nat n" by (rule dvdI [of _ _ "2 * of_nat n"]) simp
  ultimately show ?thesis unfolding word4_def by (rule dvd_diff)
qed

text \<open>C32: the monitor of AArch32 loses stack: after any sequence of served SMCs its stack pointer is
  eight bytes lower for every one that switched worlds, and the next SMC is taken all the same,
  so nothing stops the stack from running out of its area.\<close>

theorem smc32_stack_falls:
  assumes "compiled_smc lim handle" "word4 (k_sp (cpu32_of m) MODE_MON)" "smc_rounds lim handle l1 l2 m n m'"
  shows "k_sp (cpu32_of m') MODE_MON = k_sp (cpu32_of m) MODE_MON - 8 * of_nat n \<and>
     (\<forall>w. bank32 (cpu32_of w) = MODE_MON \<and> k_sp (cpu32_of w) MODE_MON = k_sp (cpu32_of m') MODE_MON \<and>
          smc_served lim (smc_call w) \<longrightarrow> el3_smc_vect32 handle l1 l2 w \<noteq> None)"
proof -
  have sp: "k_sp (cpu32_of m') MODE_MON = k_sp (cpu32_of m) MODE_MON - 8 * of_nat n"
    using assms(3)
  proof (induction rule: smc_rounds.induct)
    case (smc n m1 w m2)
    have "word4 (k_sp (cpu32_of w) MODE_MON)" using smc(3,6) word4_down [OF assms(2)] smc.IH by simp
    then have "k_sp (cpu32_of m2) MODE_MON = k_sp (cpu32_of w) MODE_MON - (if smc32_switches w then 8 else 0)"
      using smc_vect_sp [OF smc(2) _ assms(1) smc(4), of l1 l2] smc(5) by auto
    then show ?case using smc.IH smc(3) by (auto simp: algebra_simps)
  qed simp
  then have "word4 (k_sp (cpu32_of m') MODE_MON)" using word4_down [OF assms(2)] by simp
  then show ?thesis using sp smc_vect_sp [OF _ _ assms(1), of _ l1 l2] by fastforce
qed

section \<open>Abort and system-call vectors\<close>

text \<open>What the handler of a vector is called with.\<close>

definition args32 :: "u32 list \<Rightarrow> cpu32 \<Rightarrow> bool" where
  "args32 vs c \<longleftrightarrow> (\<forall>i<length vs. k_r c i = vs ! i)"

definition keeps_frame :: "nat \<Rightarrow> u32 list \<Rightarrow> (cpu32 \<Rightarrow> cpu32 option) \<Rightarrow> bool" where
  "keeps_frame n vs handle \<longleftrightarrow> (\<forall>c. args32 vs c \<longrightarrow> (\<exists>c'. handle c = Some c' \<and> aapcs32 n c c'))"

lemma args32_4: "args32 [a, b, x, y] c \<longleftrightarrow> k_r c 0 = a \<and> k_r c 1 = b \<and> k_r c 2 = x \<and> k_r c 3 = y"
  by (simp add: args32_def numeral_nat less_Suc_eq all_conj_distrib)

lemma frame_words:
  assumes "aapcs32 n c c'"
  shows "2 < n \<Longrightarrow> ld32 (reg32 13 c + 8) c' = ld32 (reg32 13 c + 8) c"
    "3 < n \<Longrightarrow> ld32 (reg32 13 c + 12) c' = ld32 (reg32 13 c + 12) c"
    "4 < n \<Longrightarrow> ld32 (reg32 13 c + 16) c' = ld32 (reg32 13 c + 16) c"
    "5 < n \<Longrightarrow> ld32 (reg32 13 c + 20) c' = ld32 (reg32 13 c + 20) c"
  using aapcs32D(8) [OF assms, of 2] aapcs32D(8) [OF assms, of 3] aapcs32D(8) [OF assms, of 4] aapcs32D(8) [OF assms, of 5]
  by simp_all

lemma offsets32:
  fixes S :: u32
  shows "S - 8 - 12 = S - 20" "S - 8 - 16 = S - 24" "S - 24 + 4 = S - 20" "S - 20 + 4 = S - 16" "S - 16 + 4 = S - 12"
    "S - 12 + 4 = S - 8" "S - 8 + 4 = S - 4" "S - 24 + 8 = S - 16" "S - 24 + 12 = S - 12" "S - 24 + 16 = S - 8"
    "S - 24 + 20 = S - 4" "S - 20 + 8 = S - 12" "S - 20 + 12 = S - 8" "S - 20 + 16 = S - 4" "S - 8 + 8 = S"
  by simp_all

lemma apart32:
  fixes S :: u32
  assumes "a \<noteq> b"
  shows "(S - a = S - b) = False"
  using assms by simp

lemma srs_obs:
  assumes "bank32 c = md" "k_sp c md = S"
  shows "srs md c = st32 (S - 4) (k_spsr c md) (st32 (S - 8) (k_lr c md) (c\<lparr>k_sp := (k_sp c)(md := S - 8)\<rparr>))"
  using assms by (simp add: srs_def Let_def reg32_def offsets32)

lemma push4_obs:
  assumes "bank32 c = md" "k_sp c md = S - 8"
  shows "push32 [0, 1, 2, 3] c = st32 (S - 12) (k_r c 3) (st32 (S - 16) (k_r c 2) (st32 (S - 20) (k_r c 1)
    (st32 (S - 24) (k_r c 0) (c\<lparr>k_sp := (k_sp c)(md := S - 24)\<rparr>))))"
  using assms by (simp add: push32_def Let_def reg32_def offsets32) (simp add: set_reg32_def)

lemma push3_obs:
  assumes "bank32 c = md" "k_sp c md = S - 8"
  shows "push32 [1, 2, 3] c = st32 (S - 12) (k_r c 3) (st32 (S - 16) (k_r c 2) (st32 (S - 20) (k_r c 1)
    (c\<lparr>k_sp := (k_sp c)(md := S - 20)\<rparr>)))"
  using assms by (simp add: push32_def Let_def reg32_def offsets32) (simp add: set_reg32_def)

lemma pop4_obs:
  assumes "bank32 c = md" "k_sp c md = S"
  defines "c' \<equiv> rfe_up (pop32 [0, 1, 2, 3] c)"
  shows "k_pc c' = ld32 (S + 16) c" "k_cpsr c' = ld32 (S + 20) c" "k_sp c' = (k_sp c)(md := S + 24)" "k_lr c' = k_lr c"
    "k_spsr c' = k_spsr c" "4 \<le> n \<Longrightarrow> k_r c' n = k_r c n" "k_r c' 0 = ld32 S c" "k_r c' 1 = ld32 (S + 4) c"
    "k_r c' 2 = ld32 (S + 8) c" "k_r c' 3 = ld32 (S + 12) c"
  using assms by (simp_all add: rfe_up_def pop32_def reg32_def Let_def add.commute)

lemma nat_0_11: "n \<le> 11 \<Longrightarrow> n = 0 \<or> n = 1 \<or> n = 2 \<or> n = 3 \<or> (4 \<le> n \<and> n \<le> 11)" for n :: nat
  by linarith

text \<open>C33: the AArch32 abort and undefined-instruction vectors of EL1 and EL3 are invisible to what
  they interrupt.  In mode \<open>md\<close>, the handler is called with the class, the syndrome, the fault
  address and the return address; when it comes back, the processor goes on at the return
  address with the CPSR, the stack pointers and the registers r0 to r11 it had, whatever the
  handler asked for.\<close>

theorem excp_vect32_transparent:
  assumes "bank32 c = md" "word4 (k_sp c md)"
    and "keeps_frame 6 [ec, isr, far, k_lr c md] handle"
  shows "\<exists>c'. excp_vect32 md ec isr far handle c = Some c' \<and> k_pc c' = k_lr c md \<and> k_cpsr c' = k_spsr c md \<and>
     k_sp c' = k_sp c \<and> k_spsr c' = k_spsr c \<and> (\<forall>n\<le>11. k_r c' n = k_r c n) \<and> (\<forall>m. m \<noteq> md \<longrightarrow> k_lr c' m = k_lr c m)"
proof -
  define S where "S = k_sp c md"
  define c1 where "c1 = push32 [0, 1, 2, 3] (srs md c)"
  define c2 where "c2 = set_reg32 2 far (set_reg32 1 isr (set_reg32 0 ec c1))"
  define c3 where "c3 = set_reg32 3 (ld32 (reg32 13 c2 + 16) c2) c2"
  have al: "word4 S" "bank32 c = md" "k_sp c md = S" using assms(1,2) by (simp_all add: S_def)
  note s1 = srs_obs [OF al(2,3)]
  have s2: "bank32 (srs md c) = md" "k_sp (srs md c) md = S - 8" using al by (simp_all add: s1)
  have c1: "c1 = st32 (S - 12) (k_r c 3) (st32 (S - 16) (k_r c 2) (st32 (S - 20) (k_r c 1) (st32 (S - 24) (k_r c 0)
    ((srs md c)\<lparr>k_sp := (k_sp c)(md := S - 24)\<rparr>))))"
    unfolding c1_def push4_obs [OF s2] by (simp add: s1)
  have c1_obs: "bank32 c1 = md" "k_sp c1 = (k_sp c)(md := S - 24)" "k_lr c1 = k_lr c" "k_spsr c1 = k_spsr c" "k_cpsr c1 = k_cpsr c"
    "k_r c1 = k_r c"
    unfolding c1 s1 using al(2) by (simp_all)
  have frame: "ld32 (S - 24) c1 = k_r c 0" "ld32 (S - 20) c1 = k_r c 1" "ld32 (S - 16) c1 = k_r c 2" "ld32 (S - 12) c1 = k_r c 3"
    "ld32 (S - 8) c1 = k_lr c md" "ld32 (S - 4) c1 = k_spsr c md"
    unfolding c1 s1 using al(1) by (simp_all add: ld32_st32)
  have sp: "reg32 13 c1 = S - 24" "reg32 13 c2 = S - 24" "S - 24 + 16 = S - 8"
    using c1_obs by (simp_all add: reg32_def c2_def)
  have c3: "bank32 c3 = md" "k_sp c3 = (k_sp c)(md := S - 24)" "k_lr c3 = k_lr c" "k_spsr c3 = k_spsr c" "reg32 13 c3 = S - 24"
    "\<And>n. 4 \<le> n \<Longrightarrow> k_r c3 n = k_r c n"
    using c1_obs sp by (simp_all add: c3_def c2_def reg32_def)
  have fr: "ld32 (S - 24) c3 = k_r c 0" "ld32 (S - 20) c3 = k_r c 1" "ld32 (S - 16) c3 = k_r c 2" "ld32 (S - 12) c3 = k_r c 3"
    "ld32 (S - 8) c3 = k_lr c md" "ld32 (S - 4) c3 = k_spsr c md"
    unfolding c3_def c2_def by (simp_all only: ld32_upd frame)
  have "ld32 (reg32 13 c2 + 16) c2 = k_lr c md" unfolding sp unfolding c2_def by (simp only: ld32_upd frame)
  then have "args32 [ec, isr, far, k_lr c md] c3" by (simp add: args32_4 c3_def c2_def)
  then obtain c4 where c4: "handle c3 = Some c4" "aapcs32 6 c3 c4" using assms(3) unfolding keeps_frame_def by blast
  note a = aapcs32D [OF c4(2)] frame_words [OF c4(2)]
  have fr4: "ld32 (S - 24) c4 = k_r c 0" "ld32 (S - 20) c4 = k_r c 1" "ld32 (S - 16) c4 = k_r c 2" "ld32 (S - 12) c4 = k_r c 3"
    "ld32 (S - 8) c4 = k_lr c md" "ld32 (S - 4) c4 = k_spsr c md"
    using a(6,7,9-12) c3(5) fr by (simp_all add: offsets32)
  have b4: "bank32 c4 = md" "k_sp c4 md = S - 24" using a(1,3) c3(1,2) by simp_all
  define c5 where "c5 = rfe_up (pop32 [0, 1, 2, 3] c4)"
  note pop = pop4_obs [OF b4, unfolded offsets32 fr4, folded c5_def]
  have "excp_vect32 md ec isr far handle c = Some c5"
    using c4(1) by (simp add: excp_vect32_def Let_def c3_def [unfolded c2_def c1_def] c5_def)
  moreover have "k_sp c5 = k_sp c" using pop(3) a(1) c3(2) by (simp add: fun_eq_iff S_def)
  moreover have "k_r c5 n = k_r c n" if "n \<le> 11" for n
    using nat_0_11 [OF that] pop(6-10) a(5) c3(6) by auto
  moreover have "k_lr c5 m = k_lr c m" if "m \<noteq> md" for m using that a(4) c3(1,3) pop(4) by simp
  moreover have "k_spsr c5 = k_spsr c" using pop(5) a(2) c3(4) by simp
  ultimately show ?thesis using pop(1,2) by blast
qed

text \<open>The system-call vector of EL1 pushes three registers but skips four words: its handler is
  given the saved CPSR where the other vectors give the return address.\<close>

lemma pop3_obs:
  assumes "bank32 c = md" "k_sp c md = S"
  defines "c' \<equiv> rfe_up (pop32 [1, 2, 3] c)"
  shows "k_pc c' = ld32 (S + 12) c" "k_cpsr c' = ld32 (S + 16) c" "k_sp c' = (k_sp c)(md := S + 20)" "k_lr c' = k_lr c"
    "k_spsr c' = k_spsr c" "4 \<le> n \<Longrightarrow> k_r c' n = k_r c n" "k_r c' 0 = k_r c 0" "k_r c' 1 = ld32 S c"
    "k_r c' 2 = ld32 (S + 4) c" "k_r c' 3 = ld32 (S + 8) c"
  using assms by (simp_all add: rfe_up_def pop32_def reg32_def Let_def add.commute)

lemma el1_svc_vect32_passes_spsr:
  assumes "bank32 c = MODE_SVC" "word4 (k_sp c MODE_SVC)"
    and "keeps_frame 5 [k_r c 0, k_r c 1, 0, k_spsr c MODE_SVC] handle"
  shows "\<exists>c'. el1_svc_vect32 handle c = Some c' \<and> k_pc c' = k_lr c MODE_SVC \<and> k_cpsr c' = k_spsr c MODE_SVC \<and>
     k_sp c' = k_sp c \<and> (\<forall>n\<le>11. n \<noteq> 0 \<longrightarrow> k_r c' n = k_r c n)"
proof -
  define S where "S = k_sp c MODE_SVC"
  define c1 where "c1 = push32 [1, 2, 3] (srs MODE_SVC c)"
  define c2 where "c2 = set_reg32 2 0 c1"
  define c3 where "c3 = set_reg32 3 (ld32 (reg32 13 c2 + 16) c2) c2"
  have al: "word4 S" "bank32 c = MODE_SVC" "k_sp c MODE_SVC = S" using assms(1,2) by (simp_all add: S_def)
  note s1 = srs_obs [OF al(2,3)]
  have s2: "bank32 (srs MODE_SVC c) = MODE_SVC" "k_sp (srs MODE_SVC c) MODE_SVC = S - 8" using al by (simp_all add: s1)
  have c1: "c1 = st32 (S - 12) (k_r c 3) (st32 (S - 16) (k_r c 2) (st32 (S - 20) (k_r c 1)
    ((srs MODE_SVC c)\<lparr>k_sp := (k_sp c)(MODE_SVC := S - 20)\<rparr>)))"
    unfolding c1_def push3_obs [OF s2] by (simp add: s1)
  have c1_obs: "bank32 c1 = MODE_SVC" "k_sp c1 = (k_sp c)(MODE_SVC := S - 20)" "k_spsr c1 = k_spsr c" "k_r c1 = k_r c"
    unfolding c1 s1 using al(2) by (simp_all)
  have frame: "ld32 (S - 20) c1 = k_r c 1" "ld32 (S - 16) c1 = k_r c 2" "ld32 (S - 12) c1 = k_r c 3"
    "ld32 (S - 8) c1 = k_lr c MODE_SVC" "ld32 (S - 4) c1 = k_spsr c MODE_SVC"
    unfolding c1 s1 using al(1) by (simp_all add: ld32_st32)
  have sp: "reg32 13 c2 = S - 20" using c1_obs by (simp add: reg32_def c2_def)
  have c3: "bank32 c3 = MODE_SVC" "k_sp c3 = (k_sp c)(MODE_SVC := S - 20)" "k_spsr c3 = k_spsr c" "reg32 13 c3 = S - 20"
    "\<And>n. 4 \<le> n \<Longrightarrow> k_r c3 n = k_r c n"
    using c1_obs sp by (simp_all add: c3_def c2_def reg32_def)
  have fr: "ld32 (S - 20) c3 = k_r c 1" "ld32 (S - 16) c3 = k_r c 2" "ld32 (S - 12) c3 = k_r c 3"
    "ld32 (S - 8) c3 = k_lr c MODE_SVC" "ld32 (S - 4) c3 = k_spsr c MODE_SVC"
    unfolding c3_def c2_def by (simp_all only: ld32_upd frame)
  have "ld32 (reg32 13 c2 + 16) c2 = k_spsr c MODE_SVC" unfolding sp offsets32 unfolding c2_def by (simp only: ld32_upd frame)
  then have "args32 [k_r c 0, k_r c 1, 0, k_spsr c MODE_SVC] c3" by (simp add: args32_4 c3_def c2_def c1_obs)
  then obtain c4 where c4: "handle c3 = Some c4" "aapcs32 5 c3 c4" using assms(3) unfolding keeps_frame_def by blast
  note a = aapcs32D [OF c4(2)] frame_words [OF c4(2)]
  have fr4: "ld32 (S - 20) c4 = k_r c 1" "ld32 (S - 16) c4 = k_r c 2" "ld32 (S - 12) c4 = k_r c 3"
    "ld32 (S - 8) c4 = k_lr c MODE_SVC" "ld32 (S - 4) c4 = k_spsr c MODE_SVC"
    using a(6,7,9-11) c3(4) fr by (simp_all add: offsets32)
  have b4: "bank32 c4 = MODE_SVC" "k_sp c4 MODE_SVC = S - 20" using a(1,3) c3(1,2) by simp_all
  define c5 where "c5 = rfe_up (pop32 [1, 2, 3] c4)"
  note pop = pop3_obs [OF b4, unfolded offsets32 fr4, folded c5_def]
  have "el1_svc_vect32 handle c = Some c5"
    using c4(1) by (simp add: el1_svc_vect32_def Let_def c3_def [unfolded c2_def c1_def] c5_def)
  moreover have "k_sp c5 = k_sp c" using pop(3) a(1) c3(2) by (simp add: fun_eq_iff S_def)
  moreover have "k_r c5 n = k_r c n" if "n \<le> 11" "n \<noteq> 0" for n
    using nat_0_11 [OF that(1)] that(2) pop(6,8-10) a(5) c3(5) by auto
  ultimately show ?thesis using pop(1,2) by blast
qed

section \<open>Entering a lower level\<close>

lemma exception_return32_enters:
  assumes "word4 (reg32 13 c)"
  shows "k_pc (exception_return32 elr spsr c) = elr" "k_cpsr (exception_return32 elr spsr c) = spsr"
    "k_sp (exception_return32 elr spsr c) = k_sp c" "k_lr (exception_return32 elr spsr c) = k_lr c"
  using assms
  by (simp_all add: exception_return32_def rfe_up_def push32_def Let_def reg32_def ld32_st32 fun_eq_iff)

text \<open>The entries of the tables: what an abort or an undefined instruction at EL1 runs through.\<close>

lemma el1_vectors32_excp:
  "el1_vectors32 f hs he 4 = excp_vect32 MODE_UND (ucast EC_UNKNOWN) (dfsr32 f) (dfar32 f) he"
  "el1_vectors32 f hs he 12 = excp_vect32 MODE_ABT (ucast EC_IABORT) (ifsr32 f) (ifar32 f) he"
  "el1_vectors32 f hs he 16 = excp_vect32 MODE_ABT (ucast EC_DABORT) (dfsr32 f) (dfar32 f) he"
  by (simp_all add: el1_vectors32_def fun_eq_iff)

end
