(* ===== verification/Monitor32Demo.thy ===== *)
theory Monitor32Demo
  imports Monitor32Ops
begin

text \<open>
  The theorems on the AArch32 monitor at work: a processor in Monitor mode, the SMC handler compiled in
  one way, and worlds that run straight on to their next SMC.
\<close>

definition demo_cpu32 :: cpu32 where
  "demo_cpu32 = \<lparr>k_cpsr = 0x1D6, k_pc = 0x14, k_r = (\<lambda>n. of_nat n), k_sp = (\<lambda>m. 0x8000 - 0x100 * m),
     k_lr = (\<lambda>m. 0x4000 + 4 * m), k_spsr = (\<lambda>m. 0x110), k_scr = 1, k_mem = (\<lambda>a. 0)\<rparr>"

definition demo_buf32 :: state_buf32 where
  "demo_buf32 = \<lparr>q_sp_el0 = 0, q_elr_el0 = 0, q_spsr_irq = 0, q_sp_irq = 0, q_elr_irq = 0, q_spsr_el1 = 0, q_sp_el1 = 0x2000,
     q_elr_el1 = 0, q_spsr_abt = 0, q_sp_abt = 0, q_elr_abt = 0, q_spsr_und = 0, q_sp_und = 0, q_elr_und = 0,
     q_spsr_el3 = 0x13, q_elr_el3 = 0x1000, q_reg = (\<lambda>i. 0)\<rparr>"

definition demo_arm :: "u32 \<Rightarrow> el3_arm" where
  "demo_arm op = \<lparr>cpu32_of = demo_cpu32\<lparr>k_r := (k_r demo_cpu32)(0 := op)\<rparr>, sec_state32 = demo_buf32, nsec_state32 = demo_buf32,
     a_secure_state = 1,
     a_mm = \<lparr>mem_pgtbl_base32 = 0, mem_next_pa32 = 0, mem_heap_pool32 = 0, mem_bytes32 = (\<lambda>a. 0)\<rparr>,
     a_desc = \<lparr>d0 = 4, d1 = 0x31, d2 = 3, d3 = 0, d4 = 0\<rparr>, a_tcnt = \<lparr>tc_fail_count = 0, tc_test_count = 0\<rparr>,
     a_cpacr = 0, a_sctlr = (\<lambda>ns. 0), a_cfgctrl = 0, a_wfi = 0\<rparr>"

text \<open>Code that leaves \<open>v\<close> in r0 and spoils r1 to r3; the handler compiled that way.\<close>

definition answer_with :: "u32 \<Rightarrow> cpu32 \<Rightarrow> cpu32" where
  "answer_with v c = set_reg32 3 7 (set_reg32 2 7 (set_reg32 1 7 (set_reg32 0 v c)))"

definition demo_handler :: "el3_arm \<Rightarrow> el3_arm option" where
  "demo_handler s = map_option (\<lambda>(ret, s1). upd_cpu32 (answer_with ret) s1)
     (el3_handle_smc32 (k_cpsr (cpu32_of s)) (k_r (cpu32_of s) 0) (k_r (cpu32_of s) 3) s)"

lemma aapcs32_answer: "aapcs32 n c (answer_with v c)"
  by (simp add: aapcs32_def answer_with_def)

lemma compiled_demo_handler: "compiled_smc lim demo_handler"
proof -
  have "\<exists>c'. demo_handler s = Some (s1\<lparr>cpu32_of := c'\<rparr>) \<and> k_r c' 0 = ret \<and> k_scr c' = k_scr (cpu32_of s1) \<and> aapcs32 2 (cpu32_of s1) c'"
    if "el3_handle_smc32 (k_cpsr (cpu32_of s)) (k_r (cpu32_of s) 0) (k_r (cpu32_of s) 3) s = Some (ret, s1)" for s s1 ret
    by (intro exI [of _ "answer_with ret (cpu32_of s1)"] conjI aapcs32_answer)
      (use that in \<open>simp_all add: demo_handler_def upd_cpu32_def\<close>, simp_all add: answer_with_def)
  then show ?thesis unfolding compiled_smc_def reads_cpsr_def by blast
qed

lemma demo_mon:
  "bank32 (cpu32_of (demo_arm op)) = MODE_MON" "word4 (k_sp (cpu32_of (demo_arm op)) m)"
proof -
  show "bank32 (cpu32_of (demo_arm op)) = MODE_MON"
    by (simp add: demo_arm_def demo_cpu32_def bank32_def mode32_def MODE_MON_def MODE_USR_def)
  have "0x8000 - 0x100 * m = 4 * (0x2000 - 0x40 * m)" by (simp add: algebra_simps)
  then have "4 dvd (0x8000 - 0x100 * m)" by (metis dvd_triv_left)
  then show "word4 (k_sp (cpu32_of (demo_arm op)) m)" by (simp add: demo_arm_def demo_cpu32_def word4_def)
qed

lemma yield_served:
  assumes "k_r (cpu32_of m) 0 = 1"
  shows "smc_served lim (smc_call m)" "smc32_switches m"
  using assms by (simp_all add: smc_served_def smc32_switches_def Let_def c_const)

lemma demo_yield: "k_r (cpu32_of (demo_arm 1)) 0 = 1"
  by (simp add: demo_arm_def)

lemma demo_scr_served:
  "smc_served lim (smc_call (demo_arm 5))" "\<not> smc32_switches (demo_arm 5)" "smc_scr (demo_arm 5) = 0x31"
proof -
  have op: "k_r (cpu32_of (demo_arm 5)) 0 = 5" "a_desc (demo_arm 5) = \<lparr>d0 = 4, d1 = 0x31, d2 = 3, d3 = 0, d4 = 0\<rparr>"
    by (simp_all add: demo_arm_def)
  show "smc_served lim (smc_call (demo_arm 5))" "\<not> smc32_switches (demo_arm 5)" "smc_scr (demo_arm 5) = 0x31"
    using op by (simp_all add: smc_served_def smc32_switches_def smc_scr_def key32_def Let_def c_const)
qed

text \<open>A yield that switches, and a write of SCR that does not.\<close>

lemma smc32_returns_or_switches_witness:
  "(\<exists>m'. el3_smc_vect32 demo_handler 0x40 0x44 (demo_arm 1) = Some m' \<and> smc_switched (demo_arm 1) m') \<and>
   (\<exists>m'. el3_smc_vect32 demo_handler 0x40 0x44 (demo_arm 5) = Some m' \<and> smc_returned (demo_arm 5) m' \<and>
      k_scr (cpu32_of m') = 0x31)"
  using smc32_returns_or_switches [OF demo_mon compiled_demo_handler yield_served(1) [OF demo_yield], of "0x40" "0x44"]
    smc32_returns_or_switches [OF demo_mon compiled_demo_handler demo_scr_served(1), of "0x40" "0x44"]
    yield_served(2) [OF demo_yield] demo_scr_served(2,3)
  by (auto simp: smc_returned_def)

text \<open>The world in between yields straight away: the processor is back in Monitor mode.\<close>

definition yields_again :: "el3_arm \<Rightarrow> el3_arm" where
  "yields_again m = upd_cpu32 (\<lambda>c. set_reg32 0 1 (cps MODE_MON c)) m"

lemma yields_again_obs:
  "bank32 (cpu32_of (yields_again m)) = MODE_MON" "k_sp (cpu32_of (yields_again m)) MODE_MON = k_sp (cpu32_of m) MODE_MON"
  "scr_ns (yields_again m) = scr_ns m" "sec_state32 (yields_again m) = sec_state32 m"
  "nsec_state32 (yields_again m) = nsec_state32 m" "k_r (cpu32_of (yields_again m)) 0 = 1"
  by (simp_all add: yields_again_def upd_cpu32_def scr_ns_def)

lemma smc32_round_trip_witness:
  "\<exists>m1 m2. el3_smc_vect32 demo_handler 0x40 0x44 (demo_arm 1) = Some m1 \<and>
     el3_smc_vect32 demo_handler 0x40 0x44 (yields_again m1) = Some m2 \<and>
     resumed32 (cpu32_of (demo_arm 1)) (cpu32_of m2) \<and> scr_ns m2 = scr_ns (demo_arm 1) \<and>
     k_sp (cpu32_of m2) MODE_MON = k_sp (cpu32_of (demo_arm 1)) MODE_MON - 16"
proof -
  obtain m1 where m1: "el3_smc_vect32 demo_handler 0x40 0x44 (demo_arm 1) = Some m1"
    "bank32 (cpu32_of w) = MODE_MON \<and> k_sp (cpu32_of w) MODE_MON = k_sp (cpu32_of m1) MODE_MON \<and>
       scr_ns w = scr_ns m1 \<and> sec_state32 w = sec_state32 m1 \<and> nsec_state32 w = nsec_state32 m1 \<and>
       smc_served 0 (smc_call w) \<and> smc32_switches w \<Longrightarrow>
     \<exists>m2. el3_smc_vect32 demo_handler 0x40 0x44 w = Some m2 \<and> resumed32 (cpu32_of (demo_arm 1)) (cpu32_of m2) \<and>
        scr_ns m2 = scr_ns (demo_arm 1) \<and> k_scr (cpu32_of m2) = k_scr (cpu32_of w) XOR 1 \<and>
        k_sp (cpu32_of m2) MODE_MON = k_sp (cpu32_of (demo_arm 1)) MODE_MON - 16" for w
    using smc32_round_trip [OF compiled_demo_handler demo_mon yield_served [OF demo_yield], where lim = 0 and ?l1.0 = "0x40" and ?l2.0 = "0x44"] by blast
  show ?thesis
    using m1(1) m1(2) [of "yields_again m1"] yields_again_obs [of m1] yield_served [OF yields_again_obs(6) [of m1]] by blast
qed

lemma one_more_round:
  assumes "smc_rounds lim demo_handler l1 l2 m n m1" "word4 (k_sp (cpu32_of m1) MODE_MON)"
  shows "\<exists>m2. smc_rounds lim demo_handler l1 l2 m (Suc n) m2 \<and> word4 (k_sp (cpu32_of m2) MODE_MON)"
proof -
  note w = yields_again_obs [of m1] and sv = yield_served [OF yields_again_obs(6) [of m1]]
  obtain m2 where m2: "el3_smc_vect32 demo_handler l1 l2 (yields_again m1) = Some m2"
    "k_sp (cpu32_of m2) MODE_MON = k_sp (cpu32_of m1) MODE_MON - 8"
    using smc_vect_sp [OF w(1) _ compiled_demo_handler sv(1), where ?l1.0 = l1 and ?l2.0 = l2] assms(2) w(2) sv(2) by auto
  then show ?thesis
    using smc_rounds.smc [OF assms(1) w(1,2) sv(1) m2(1)] sv(2) assms(2) by (intro exI [of _ m2]) simp
qed

lemma smc32_stack_falls_witness:
  "\<exists>m'. smc_rounds 0 demo_handler 0x40 0x44 (demo_arm 1) 2 m' \<and>
     k_sp (cpu32_of m') MODE_MON = k_sp (cpu32_of (demo_arm 1)) MODE_MON - 16"
proof -
  obtain m1 where m1: "smc_rounds 0 demo_handler 0x40 0x44 (demo_arm 1) (Suc 0) m1" "word4 (k_sp (cpu32_of m1) MODE_MON)"
    using one_more_round [OF smc_rounds.none demo_mon(2)] by blast
  obtain m' where m': "smc_rounds 0 demo_handler 0x40 0x44 (demo_arm 1) (Suc (Suc 0)) m'"
    using one_more_round [OF m1] by blast
  then have "k_sp (cpu32_of m') MODE_MON = k_sp (cpu32_of (demo_arm 1)) MODE_MON - 8 * of_nat (Suc (Suc 0))"
    using smc32_stack_falls [OF compiled_demo_handler demo_mon(2) m'] by blast
  then show ?thesis using m' by (intro exI [of _ m']) (simp add: numeral_2_eq_2)
qed

lemma excp_vect32_transparent_witness:
  "\<exists>c'. excp_vect32 MODE_ABT 0x25 5 0xDEAD (\<lambda>c. Some (answer_with 1 c)) (cps MODE_ABT demo_cpu32) = Some c' \<and>
     k_pc c' = k_lr (cps MODE_ABT demo_cpu32) MODE_ABT \<and> k_cpsr c' = k_spsr (cps MODE_ABT demo_cpu32) MODE_ABT \<and>
     k_sp c' = k_sp (cps MODE_ABT demo_cpu32) \<and> k_spsr c' = k_spsr (cps MODE_ABT demo_cpu32) \<and>
     (\<forall>n\<le>11. k_r c' n = k_r (cps MODE_ABT demo_cpu32) n) \<and>
     (\<forall>m. m \<noteq> MODE_ABT \<longrightarrow> k_lr c' m = k_lr (cps MODE_ABT demo_cpu32) m)"
  by (rule excp_vect32_transparent)
    (use demo_mon(2) [of 0 MODE_ABT] in \<open>simp_all add: demo_arm_def keeps_frame_def aapcs32_answer\<close>)

end
