(* ===== verification/El1Vectors.thy ===== *)
theory El1Vectors
  imports MonitorProofs
begin

text \<open>
  The vectors of the AArch64 EL1 images, \<^verbatim>\<open>el1/aarch64/el1_exception.S\<close>, instruction by
  instruction over the processor of \<open>Monitor\<close>. An exception to EL1 selects SP_EL1. The
  two C handlers are arguments, functions on the processor that find their arguments in x0 to x3
  and leave a result in x0; \<open>None\<close> is a handler that does not come back. The result is the
  processor at the \<open>eret\<close>, which goes on at ELR_EL1 with SPSR_EL1.
\<close>

section \<open>The code\<close>

definition push1 :: "nat \<Rightarrow> cpu \<Rightarrow> cpu" where
  "push1 n c = (let sp = r_sp_el1 c - 8 in c\<lparr>r_sp_el1 := sp, stack_mem := store64 sp (gpr c n) (stack_mem c)\<rparr>)"

definition pop1 :: "nat \<Rightarrow> cpu \<Rightarrow> cpu" where
  "pop1 n c = (let sp = r_sp_el1 c in (set_reg n (load64 (stack_mem c) sp) c)\<lparr>r_sp_el1 := sp + 8\<rparr>)"

definition push2 :: "nat \<Rightarrow> nat \<Rightarrow> cpu \<Rightarrow> cpu" where
  "push2 a b c = (let sp = r_sp_el1 c - 16
     in c\<lparr>r_sp_el1 := sp, stack_mem := store64 (sp + 8) (gpr c b) (store64 sp (gpr c a) (stack_mem c))\<rparr>)"

text \<open>\<open>ldp a, b, [sp]\<close>, and with the pointer moved behind the pair.\<close>

definition load2 :: "nat \<Rightarrow> nat \<Rightarrow> cpu \<Rightarrow> cpu" where
  "load2 a b c = (let sp = r_sp_el1 c in set_reg b (load64 (stack_mem c) (sp + 8)) (set_reg a (load64 (stack_mem c) sp) c))"

definition pop2 :: "nat \<Rightarrow> nat \<Rightarrow> cpu \<Rightarrow> cpu" where
  "pop2 a b c = (load2 a b c)\<lparr>r_sp_el1 := r_sp_el1 c + 16\<rparr>"

text \<open>The syndrome in x0 is split into its class and the rest.\<close>

definition split_esr :: "cpu \<Rightarrow> cpu" where
  "split_esr c =
     (let c1 = set_reg 0 (r_esr_el1 c) c; c2 = set_reg 1 0xFFFFFF c1; c3 = set_reg 1 (gpr c2 1 AND gpr c2 0) c2
      in set_reg 0 (drop_bit 26 (gpr c3 0)) c3)"

definition el1_sync_exception_current :: "(cpu \<Rightarrow> cpu option) \<Rightarrow> cpu \<Rightarrow> cpu option" where
  "el1_sync_exception_current handle_exception c =
     (let c1 = split_esr (push2 0 1 (push2 2 3 (push1 30 c)));
          c2 = set_reg 3 (r_elr_el1 c1) (set_reg 2 (r_far_el1 c1) c1)
      in Option.bind (handle_exception c2) (\<lambda>c3. Some (pop1 30 (pop2 2 3 (pop2 0 1 c3)))))"

definition lower64_enter :: "cpu \<Rightarrow> cpu" where
  "lower64_enter c =
     (let c1 = push2 2 3 (push1 30 c);
          c2 = push2 0 1 (push1 2 (set_reg 2 (r_spsr_el1 c1) c1))
      in split_esr (set_reg 3 (r_elr_el1 c2) (set_reg 2 (r_far_el1 c2) c2)))"

definition lower64_leave :: "cpu \<Rightarrow> cpu" where
  "lower64_leave c =
     (let c1 = pop1 2 (pop2 2 1 c)
      in pop1 30 (pop2 2 3 (c1\<lparr>r_spsr_el1 := gpr c1 2\<rparr>)))"

definition el1_sync_exception_lower64 :: "(cpu \<Rightarrow> cpu option) \<Rightarrow> (cpu \<Rightarrow> cpu option) \<Rightarrow> cpu \<Rightarrow> cpu option" where
  "el1_sync_exception_lower64 handle_exception handle_svc c =
     (let c1 = lower64_enter c
      in Option.bind
           (if gpr c1 0 = EC_SVC64 \<or> gpr c1 0 = EC_SVC32 then handle_svc (load2 0 1 c1) else handle_exception c1)
           (\<lambda>c2. Some (lower64_leave c2)))"

text \<open>The table by offset. An exception that has no code of its own in it branches to itself; the
  entries in front of the two synchronous ones are padding.\<close>

definition el1_vectors :: "(cpu \<Rightarrow> cpu option) \<Rightarrow> (cpu \<Rightarrow> cpu option) \<Rightarrow> u64 \<Rightarrow> cpu \<Rightarrow> cpu option" where
  "el1_vectors handle_exception handle_svc offset c =
     (if offset = 0x200 then el1_sync_exception_current handle_exception c
      else if offset = 0x400 then el1_sync_exception_lower64 handle_exception handle_svc c
      else None)"

section \<open>The contract of a handler\<close>

text \<open>What compiled code promises (AAPCS64): x19 to x29, the stack pointer and the \<open>n\<close> words from
  it upwards are as they were. The other registers, ELR and SPSR among them, need not be.\<close>

definition aapcs64 :: "nat \<Rightarrow> cpu \<Rightarrow> cpu \<Rightarrow> bool" where
  "aapcs64 n c c' \<longleftrightarrow> r_sp_el1 c' = r_sp_el1 c \<and> (\<forall>r. 19 \<le> r \<and> r \<le> 29 \<longrightarrow> gpr c' r = gpr c r) \<and>
     (\<forall>k<n. load64 (stack_mem c') (r_sp_el1 c + of_nat (8 * k)) = load64 (stack_mem c) (r_sp_el1 c + of_nat (8 * k)))"

definition args64 :: "u64 list \<Rightarrow> cpu \<Rightarrow> bool" where
  "args64 vs c \<longleftrightarrow> (\<forall>i<length vs. gpr c i = vs ! i)"

definition comes_back :: "nat \<Rightarrow> u64 list \<Rightarrow> (cpu \<Rightarrow> cpu option) \<Rightarrow> bool" where
  "comes_back n vs handle \<longleftrightarrow> (\<forall>c. args64 vs c \<longrightarrow> (\<exists>c'. handle c = Some c' \<and> aapcs64 n c c'))"

lemma args64_4: "args64 [a, b, x, y] c \<longleftrightarrow> gpr c 0 = a \<and> gpr c 1 = b \<and> gpr c 2 = x \<and> gpr c 3 = y"
  by (simp add: args64_def numeral_nat less_Suc_eq all_conj_distrib)

lemma aapcs64D:
  assumes "aapcs64 n c c'"
  shows "r_sp_el1 c' = r_sp_el1 c" "19 \<le> r \<Longrightarrow> r \<le> 29 \<Longrightarrow> gpr c' r = gpr c r"
    "k < n \<Longrightarrow> load64 (stack_mem c') (r_sp_el1 c + of_nat (8 * k)) = load64 (stack_mem c) (r_sp_el1 c + of_nat (8 * k))"
  using assms unfolding aapcs64_def by blast+

section \<open>What the vectors keep\<close>

text \<open>The frame of the lower-level vector, from the stack pointer upwards.\<close>

definition frame64 :: "u64 list \<Rightarrow> cpu \<Rightarrow> bool" where
  "frame64 vs c \<longleftrightarrow> (\<forall>k<length vs. load64 (stack_mem c) (r_sp_el1 c + of_nat (8 * k)) = vs ! k)"

lemma frame64_6: "frame64 [a, b, x, y, u, v] c \<longleftrightarrow>
    (let sp = r_sp_el1 c; ld = load64 (stack_mem c)
     in ld sp = a \<and> ld (sp + 8) = b \<and> ld (sp + 16) = x \<and> ld (sp + 24) = y \<and> ld (sp + 32) = u \<and> ld (sp + 40) = v)"
  by (simp add: frame64_def numeral_nat less_Suc_eq all_conj_distrib Let_def)

lemma frame64_5: "frame64 [a, b, x, y, u] c \<longleftrightarrow>
    (let sp = r_sp_el1 c; ld = load64 (stack_mem c)
     in ld sp = a \<and> ld (sp + 8) = b \<and> ld (sp + 16) = x \<and> ld (sp + 24) = y \<and> ld (sp + 32) = u)"
  by (simp add: frame64_def numeral_nat less_Suc_eq all_conj_distrib Let_def)

lemma frame64_handler: "frame64 vs c \<Longrightarrow> aapcs64 (length vs) c c' \<Longrightarrow> frame64 vs c'"
  by (simp add: frame64_def aapcs64_def)

lemma slots64:
  fixes S :: u64
  shows "S - 8 - 16 = S - 24" "S - 24 + 8 = S - 16" "S - 24 - 8 = S - 32" "S - 32 - 16 = S - 48" "S - 48 + 8 = S - 40"
    "S - 48 + 16 = S - 32" "S - 48 + 24 = S - 24" "S - 48 + 32 = S - 16" "S - 48 + 40 = S - 8" "S - 32 + 8 = S - 24"
    "S - 24 + 16 = S - 8" "S - 8 + 8 = S" "S - 24 - 16 = S - 40" "S - 40 + 8 = S - 32" "S - 40 + 16 = S - 24"
    "S - 40 + 24 = S - 16" "S - 40 + 32 = S - 8"
  by simp_all

lemma aligned_slots64:
  assumes "aligned 3 (S :: u64)"
  shows "aligned 3 (S - 8)" "aligned 3 (S - 16)" "aligned 3 (S - 24)" "aligned 3 (S - 32)" "aligned 3 (S - 40)" "aligned 3 (S - 48)"
proof -
  have al: "aligned 3 (S - 8 * k)" for k using assms by (simp add: aligned_iff_dvd)
  show "aligned 3 (S - 8)" "aligned 3 (S - 16)" "aligned 3 (S - 24)" "aligned 3 (S - 32)" "aligned 3 (S - 40)" "aligned 3 (S - 48)"
    using al [of 1] al [of 2] al [of 3] al [of 4] al [of 5] al [of 6] by simp_all
qed

lemma slots64_apart: "i \<noteq> j \<Longrightarrow> S - i \<noteq> S - (j :: u64)"
  by simp

lemma lower64_enter_obs:
  fixes c
  assumes "aligned 3 (r_sp_el1 c)"
  defines "c' \<equiv> lower64_enter c"
  shows "r_sp_el1 c' = r_sp_el1 c - 48" "r_elr_el1 c' = r_elr_el1 c" "r_far_el1 c' = r_far_el1 c" "r_esr_el1 c' = r_esr_el1 c"
    "4 \<le> n \<Longrightarrow> gpr c' n = gpr c n"
    "args64 [drop_bit 26 (r_esr_el1 c), 0xFFFFFF AND r_esr_el1 c, r_far_el1 c, r_elr_el1 c] c'"
    "frame64 [gpr c 0, gpr c 1, r_spsr_el1 c, gpr c 2, gpr c 3, gpr c 30] c'"
proof -
  let ?S = "r_sp_el1 c"
  note df = c'_def lower64_enter_def split_esr_def push1_def push2_def set_reg_def Let_def slots64
  show sp: "r_sp_el1 c' = r_sp_el1 c - 48" by (simp add: df)
  show "r_elr_el1 c' = r_elr_el1 c" "r_far_el1 c' = r_far_el1 c" "r_esr_el1 c' = r_esr_el1 c" by (simp_all add: df)
  show "4 \<le> n \<Longrightarrow> gpr c' n = gpr c n" by (simp add: df)
  show "args64 [drop_bit 26 (r_esr_el1 c), 0xFFFFFF AND r_esr_el1 c, r_far_el1 c, r_elr_el1 c] c'" by (simp add: df args64_4)
  have "stack_mem c' = store64 (?S - 40) (gpr c 1) (store64 (?S - 48) (gpr c 0) (store64 (?S - 32) (r_spsr_el1 c)
      (store64 (?S - 16) (gpr c 3) (store64 (?S - 24) (gpr c 2) (store64 (?S - 8) (gpr c 30) (stack_mem c))))))"
    by (simp add: df)
  then show "frame64 [gpr c 0, gpr c 1, r_spsr_el1 c, gpr c 2, gpr c 3, gpr c 30] c'"
    by (simp add: frame64_6 sp Let_def slots64 load64_store64_other aligned_slots64 [OF assms(1)] slots64_apart)
qed

lemma lower64_leave_obs:
  fixes c
  assumes "frame64 [a, b, spsr, x, y, lr] c"
  defines "c' \<equiv> lower64_leave c"
  shows "r_sp_el1 c' = r_sp_el1 c + 48" "r_spsr_el1 c' = spsr" "r_elr_el1 c' = r_elr_el1 c"
    "gpr c' = (gpr c)(1 := b, 2 := x, 3 := y, 30 := lr)"
proof -
  have fr: "load64 (stack_mem c) (r_sp_el1 c + 8) = b" "load64 (stack_mem c) (r_sp_el1 c + 16) = spsr"
    "load64 (stack_mem c) (r_sp_el1 c + 24) = x" "load64 (stack_mem c) (r_sp_el1 c + 32) = y" "load64 (stack_mem c) (r_sp_el1 c + 40) = lr"
    using assms(1) by (simp_all add: frame64_6 Let_def)
  have ad: "S + 24 + 8 = S + 32" "S + 24 + 16 = S + 40" "S + 16 + 8 = S + 24" "S + 40 + 8 = S + 48" for S :: u64 by simp_all
  note df = c'_def lower64_leave_def pop1_def pop2_def load2_def set_reg_def Let_def
  show "r_sp_el1 c' = r_sp_el1 c + 48" "r_elr_el1 c' = r_elr_el1 c" by (simp_all add: df add.commute)
  show "r_spsr_el1 c' = spsr" using fr(2) by (simp add: df add.commute)
  show "gpr c' = (gpr c)(1 := b, 2 := x, 3 := y, 30 := lr)" using fr by (simp add: df fun_eq_iff add.assoc)
qed

lemma lower64_steps:
  assumes "aligned 3 (r_sp_el1 c)"
    and "comes_back 6 [drop_bit 26 (r_esr_el1 c), 0xFFFFFF AND r_esr_el1 c, r_far_el1 c, r_elr_el1 c] handle_exception"
    and "comes_back 6 [gpr c 0, gpr c 1, r_far_el1 c, r_elr_el1 c] handle_svc"
  obtains e h where
    "(if drop_bit 26 (r_esr_el1 c) \<in> {EC_SVC64, EC_SVC32} then handle_svc e else handle_exception e) = Some h"
    "args64 (if drop_bit 26 (r_esr_el1 c) \<in> {EC_SVC64, EC_SVC32} then [gpr c 0, gpr c 1, r_far_el1 c, r_elr_el1 c]
       else [drop_bit 26 (r_esr_el1 c), 0xFFFFFF AND r_esr_el1 c, r_far_el1 c, r_elr_el1 c]) e"
    "el1_sync_exception_lower64 handle_exception handle_svc c = Some (lower64_leave h)"
    "frame64 [gpr c 0, gpr c 1, r_spsr_el1 c, gpr c 2, gpr c 3, gpr c 30] h" "r_sp_el1 h = r_sp_el1 c - 48"
    "\<forall>n. 19 \<le> n \<and> n \<le> 29 \<longrightarrow> gpr h n = gpr c n"
proof -
  let ?f = "[gpr c 0, gpr c 1, r_spsr_el1 c, gpr c 2, gpr c 3, gpr c 30]"
  define c1 where "c1 = lower64_enter c"
  define svc where "svc \<longleftrightarrow> drop_bit 26 (r_esr_el1 c) \<in> {EC_SVC64, EC_SVC32}"
  define e where "e = (if svc then load2 0 1 c1 else c1)"
  note en = lower64_enter_obs [OF assms(1), folded c1_def]
  have fr: "load64 (stack_mem c1) (r_sp_el1 c1) = gpr c 0" "load64 (stack_mem c1) (r_sp_el1 c1 + 8) = gpr c 1"
    using en(7) by (simp_all add: frame64_6 Let_def)
  have ec: "gpr c1 0 = drop_bit 26 (r_esr_el1 c)" using en(6) by (simp add: args64_4)
  have l2: "r_sp_el1 (load2 0 1 c1) = r_sp_el1 c1" "stack_mem (load2 0 1 c1) = stack_mem c1"
    "gpr (load2 0 1 c1) = (gpr c1)(0 := gpr c 0, 1 := gpr c 1)"
    using fr by (simp_all add: load2_def set_reg_def Let_def)
  have args: "args64 (if svc then [gpr c 0, gpr c 1, r_far_el1 c, r_elr_el1 c]
       else [drop_bit 26 (r_esr_el1 c), 0xFFFFFF AND r_esr_el1 c, r_far_el1 c, r_elr_el1 c]) e"
    using en(6) by (simp add: e_def l2 args64_4 del: One_nat_def)
  have e: "r_sp_el1 e = r_sp_el1 c - 48" "frame64 ?f e" "\<forall>n. 19 \<le> n \<and> n \<le> 29 \<longrightarrow> gpr e n = gpr c n"
    using en(1,5,7) by (simp_all add: e_def l2 frame64_def del: One_nat_def)
  obtain h where h: "(if svc then handle_svc e else handle_exception e) = Some h" "aapcs64 6 e h"
  proof (cases svc)
    case True
    then show ?thesis using assms(3) args that unfolding comes_back_def by simp blast
  next
    case False
    then show ?thesis using assms(2) args that unfolding comes_back_def by simp blast
  qed
  have "frame64 ?f h" using frame64_handler [OF e(2), of h] h(2) by (simp add: numeral_nat)
  moreover have "el1_sync_exception_lower64 handle_exception handle_svc c = Some (lower64_leave h)"
    using h(1) ec by (auto simp: el1_sync_exception_lower64_def Let_def c1_def [symmetric] e_def svc_def simp del: One_nat_def split: if_splits)
  moreover have "r_sp_el1 h = r_sp_el1 c - 48" using aapcs64D(1) [OF h(2)] e(1) by simp
  moreover have "\<forall>n. 19 \<le> n \<and> n \<le> 29 \<longrightarrow> gpr h n = gpr c n" using aapcs64D(2) [OF h(2)] e(3) by simp
  ultimately show ?thesis using h(1) args by (intro that [of e h]) (simp_all only: svc_def)
qed

text \<open>C34: the vector of EL1 for exceptions of EL0 calls \<open>el1_handle_svc\<close> with the caller's x0 and
  x1 exactly for a system call and \<open>el1_handle_exception\<close> with class and syndrome otherwise, both with
  the fault address and the return address. Whatever the handler does
  to SPSR_EL1, EL0 goes on with its own, at the address the handler set, on the same EL1 stack
  pointer, with x1 to x3 and x19 to x30 as they were. x0 is what the handler left there, after any
  exception: the one that is no system call does not give the interrupted code its x0 back.\<close>

theorem el1_sync_lower64_keeps:
  assumes "aligned 3 (r_sp_el1 c)"
    and "comes_back 6 [drop_bit 26 (r_esr_el1 c), 0xFFFFFF AND r_esr_el1 c, r_far_el1 c, r_elr_el1 c] handle_exception"
    and "comes_back 6 [gpr c 0, gpr c 1, r_far_el1 c, r_elr_el1 c] handle_svc"
  shows "\<exists>e h c'.
    (if drop_bit 26 (r_esr_el1 c) \<in> {EC_SVC64, EC_SVC32}
     then args64 [gpr c 0, gpr c 1, r_far_el1 c, r_elr_el1 c] e \<and> handle_svc e = Some h
     else args64 [drop_bit 26 (r_esr_el1 c), 0xFFFFFF AND r_esr_el1 c, r_far_el1 c, r_elr_el1 c] e \<and> handle_exception e = Some h) \<and>
    el1_sync_exception_lower64 handle_exception handle_svc c = Some c' \<and>
    r_spsr_el1 c' = r_spsr_el1 c \<and> r_elr_el1 c' = r_elr_el1 h \<and> r_sp_el1 c' = r_sp_el1 c \<and>
    (\<forall>n \<in> {1, 2, 3} \<union> {19..30}. gpr c' n = gpr c n) \<and> gpr c' 0 = gpr h 0"
proof -
  obtain e h where h:
    "(if drop_bit 26 (r_esr_el1 c) \<in> {EC_SVC64, EC_SVC32} then handle_svc e else handle_exception e) = Some h"
    "args64 (if drop_bit 26 (r_esr_el1 c) \<in> {EC_SVC64, EC_SVC32} then [gpr c 0, gpr c 1, r_far_el1 c, r_elr_el1 c]
       else [drop_bit 26 (r_esr_el1 c), 0xFFFFFF AND r_esr_el1 c, r_far_el1 c, r_elr_el1 c]) e"
    "el1_sync_exception_lower64 handle_exception handle_svc c = Some (lower64_leave h)"
    "frame64 [gpr c 0, gpr c 1, r_spsr_el1 c, gpr c 2, gpr c 3, gpr c 30] h" "r_sp_el1 h = r_sp_el1 c - 48"
    "\<forall>n. 19 \<le> n \<and> n \<le> 29 \<longrightarrow> gpr h n = gpr c n"
    by (rule lower64_steps [OF assms])
  note lv = lower64_leave_obs [OF h(4)]
  have "gpr (lower64_leave h) n = gpr c n" if "n \<in> {1, 2, 3} \<union> {19..30}" for n
  proof (cases "n \<in> {19..29}")
    case False
    then have "n \<in> {1, 2, 3, 30}" using that by auto
    then show ?thesis using lv(4) by auto
  qed (use lv(4) h(6) in auto)
  moreover have "r_sp_el1 (lower64_leave h) = r_sp_el1 c" using lv(1) h(5) by simp
  moreover have "gpr (lower64_leave h) 0 = gpr h 0" using lv(4) by simp
  ultimately show ?thesis
    using h(1-3) lv(2,3) by (cases "drop_bit 26 (r_esr_el1 c) \<in> {EC_SVC64, EC_SVC32}") (simp only: if_True if_False; blast)+
qed

text \<open>The vector for exceptions of EL1 itself gives x0 back.\<close>

lemma el1_sync_current_keeps:
  assumes "aligned 3 (r_sp_el1 c)"
    and "comes_back 5 [drop_bit 26 (r_esr_el1 c), 0xFFFFFF AND r_esr_el1 c, r_far_el1 c, r_elr_el1 c] handle_exception"
  shows "\<exists>c'. el1_sync_exception_current handle_exception c = Some c' \<and> r_sp_el1 c' = r_sp_el1 c \<and>
    (\<forall>n \<in> {0, 1, 2, 3} \<union> {19..30}. gpr c' n = gpr c n)"
proof -
  let ?S = "r_sp_el1 c" and ?f = "[gpr c 0, gpr c 1, gpr c 2, gpr c 3, gpr c 30]"
  define c1 where "c1 = split_esr (push2 0 1 (push2 2 3 (push1 30 c)))"
  define e where "e = set_reg 3 (r_elr_el1 c1) (set_reg 2 (r_far_el1 c1) c1)"
  note df = e_def c1_def split_esr_def push1_def push2_def set_reg_def Let_def slots64
  have sp: "r_sp_el1 e = ?S - 40" by (simp add: df)
  have hi: "\<forall>n. 19 \<le> n \<and> n \<le> 29 \<longrightarrow> gpr e n = gpr c n" by (simp add: df)
  have args: "args64 [drop_bit 26 (r_esr_el1 c), 0xFFFFFF AND r_esr_el1 c, r_far_el1 c, r_elr_el1 c] e" by (simp add: df args64_4)
  have "stack_mem e = store64 (?S - 32) (gpr c 1) (store64 (?S - 40) (gpr c 0) (store64 (?S - 16) (gpr c 3)
      (store64 (?S - 24) (gpr c 2) (store64 (?S - 8) (gpr c 30) (stack_mem c)))))"
    by (simp add: df)
  then have "frame64 ?f e"
    by (simp add: frame64_5 sp Let_def slots64 load64_store64_other aligned_slots64 [OF assms(1)] slots64_apart)
  moreover obtain h where h: "handle_exception e = Some h" "aapcs64 5 e h" using assms(2) args unfolding comes_back_def by blast
  ultimately have "frame64 ?f h" using frame64_handler [of ?f e h] by (simp add: numeral_nat)
  then have fr: "load64 (stack_mem h) (?S - 40) = gpr c 0" "load64 (stack_mem h) (?S - 32) = gpr c 1"
    "load64 (stack_mem h) (?S - 24) = gpr c 2" "load64 (stack_mem h) (?S - 16) = gpr c 3" "load64 (stack_mem h) (?S - 8) = gpr c 30"
    using aapcs64D(1) [OF h(2)] by (simp_all add: frame64_5 Let_def sp slots64)
  define c' where "c' = pop1 30 (pop2 2 3 (pop2 0 1 h))"
  have "r_sp_el1 h = ?S - 40" using aapcs64D(1) [OF h(2)] sp by simp
  then have c': "r_sp_el1 c' = ?S" "gpr c' = (gpr h)(0 := gpr c 0, 1 := gpr c 1, 2 := gpr c 2, 3 := gpr c 3, 30 := gpr c 30)"
    using fr by (simp_all add: c'_def pop1_def pop2_def load2_def set_reg_def Let_def slots64)
  have hn: "gpr h n = gpr c n" if "n \<in> {19..29}" for n using aapcs64D(2) [OF h(2), of n] hi that by simp
  have "gpr c' n = gpr c n" if "n \<in> {0, 1, 2, 3} \<union> {19..30}" for n
  proof (cases "n \<in> {19..29}")
    case False
    then have "n \<in> {0, 1, 2, 3, 30}" using that by auto
    then show ?thesis using c'(2) by auto
  qed (use c'(2) hn in auto)
  then show ?thesis
    using h(1) c'(1) c'_def
    unfolding el1_sync_exception_current_def Let_def c1_def [symmetric] e_def [symmetric] by simp
qed

section \<open>A trapped instruction and a system call\<close>

definition spoil_x0 :: "u64 \<Rightarrow> cpu \<Rightarrow> cpu option" where
  "spoil_x0 v c = Some (set_reg 0 v (c\<lparr>r_elr_el1 := r_elr_el1 c + 4, r_spsr_el1 := 0\<rparr>))"

lemma comes_back_spoil: "comes_back n vs (spoil_x0 v)"
  by (simp add: comes_back_def spoil_x0_def aapcs64_def set_reg_def)

definition demo_wfi :: cpu where
  "demo_wfi = demo_cpu\<lparr>r_sp_el1 := 0x8000, r_esr_el1 := push_bit 26 EC_WFI_WFE\<rparr>"

theorem el1_sync_lower64_keeps_witness:
  "\<exists>e h c'.
    (if drop_bit 26 (r_esr_el1 demo_wfi) \<in> {EC_SVC64, EC_SVC32}
     then args64 [gpr demo_wfi 0, gpr demo_wfi 1, r_far_el1 demo_wfi, r_elr_el1 demo_wfi] e \<and> spoil_x0 1 e = Some h
     else args64 [drop_bit 26 (r_esr_el1 demo_wfi), 0xFFFFFF AND r_esr_el1 demo_wfi, r_far_el1 demo_wfi, r_elr_el1 demo_wfi] e \<and>
       spoil_x0 7 e = Some h) \<and>
    el1_sync_exception_lower64 (spoil_x0 7) (spoil_x0 1) demo_wfi = Some c' \<and>
    r_spsr_el1 c' = r_spsr_el1 demo_wfi \<and> r_elr_el1 c' = r_elr_el1 h \<and> r_sp_el1 c' = r_sp_el1 demo_wfi \<and>
    (\<forall>n \<in> {1, 2, 3} \<union> {19..30}. gpr c' n = gpr demo_wfi n) \<and> gpr c' 0 = gpr h 0"
proof (rule el1_sync_lower64_keeps)
  show "aligned 3 (r_sp_el1 demo_wfi)" by (simp add: demo_wfi_def aligned_def)
qed (rule comes_back_spoil)+

end
