(* ===== verification/El0Main.thy ===== *)
theory El0Main
  imports MachineRun SystemMap El3Start ElfLoadOps LibIo
begin

text \<open>
  The two programs of EL0: \<open>main\<close> of \<^verbatim>\<open>el0/nonsecure/el0_nsec.c\<close>, which allocates the block of
  counters, shares it, runs the tests and ends the program, and \<open>main\<close> of
  \<^verbatim>\<open>el0/secure/el0_sec.c\<close>, which enters the service loop. \<open>store\<close> writes the member
  \<open>test_cntl\<close> of the control block a pointer points to; \<open>junk\<close>, \<open>ja\<close> and \<open>jm\<close> are what the
  stack holds where \<open>main\<close>, \<open>alloc_mem\<close> and \<open>map_va\<close> have their descriptors.
\<close>

section \<open>The programs\<close>

definition el0_nsec_setup ::
    "'s el0_services \<Rightarrow> (u64 \<Rightarrow> u64 \<Rightarrow> 's \<Rightarrow> 's option) \<Rightarrow> op_desc \<Rightarrow> op_desc \<Rightarrow> op_desc \<Rightarrow> 's \<Rightarrow> (u64 \<times> 's) option" where
  "el0_nsec_setup hw store ja jm junk s =
     Option.bind (svc hw SVC_OP_GET_SYSCNTL junk s)
       (\<lambda>(r, d, s1). let sysc = data_data d in
        Option.bind (el0_alloc_mem hw ja 0 0x1000 s1)
       (\<lambda>(p, s2). Option.bind (store sysc p s2)
       (\<lambda>s3. Option.bind (el0_map_va hw jm p 0x1000 OP_MAP_ALL s3)
       (\<lambda>s4. Some (sysc, s4)))))"

definition el0_nsec_main ::
    "arch \<Rightarrow> 's el0_services \<Rightarrow> (u64 \<Rightarrow> u64 \<Rightarrow> 's \<Rightarrow> 's option) \<Rightarrow> op_desc \<Rightarrow> op_desc \<Rightarrow> op_desc \<Rightarrow> 's \<Rightarrow> (u32 \<times> 's) option" where
  "el0_nsec_main a hw store ja jm junk s =
     Option.bind (el0_nsec_setup hw store ja jm junk s)
       (\<lambda>(sysc, s1). Option.bind
            (if sysc = 0 then Option.bind (svc hw SVC_OP_EXIT junk s1) (\<lambda>(r, d, s2). Some s2) else Some s1)
       (\<lambda>s2. Option.bind (tztest_start a hw junk s2)
       (\<lambda>(ok, s3). Option.bind (svc hw SVC_OP_EXIT zero_desc s3)
       (\<lambda>(r, d, s4). Some (0, s4)))))"

text \<open>The descriptor of \<open>main\<close> and that of the loop are different variables.\<close>

definition el0_sec_main :: "arch \<Rightarrow> 's el0_services \<Rightarrow> op_desc \<Rightarrow> op_desc \<Rightarrow> 's \<Rightarrow> (u32 \<times> 's) option" where
  "el0_sec_main a hw jl junk s =
     Option.bind (svc hw SVC_OP_GET_SYSCNTL junk s)
       (\<lambda>(r, d, s1). Option.bind
            (if data_data d = 0 then Option.bind (svc hw SVC_OP_EXIT zero_desc s1) (\<lambda>(r, d, s2). Some s2) else Some s1)
       (\<lambda>s2. Option.bind (el0_sec_loop a hw junk SVC_OP_YIELD jl s2)
       (\<lambda>s3. Some (0, s3))))"

section \<open>On the machine\<close>

text \<open>The store goes through the control block's mapping. From then on the counters are the two
  \<^verbatim>\<open>int\<close>s at the address it stores, read through the tables of EL1 (\<open>None\<close> where they have no
  mapping for it).\<close>

definition read_int :: "mm \<Rightarrow> u64 \<Rightarrow> u32 option" where
  "read_int m a = map_option (load32 (mem_bytes m)) (mmu m a)"

definition test_cntl_at :: "mm \<Rightarrow> u64 \<Rightarrow> test_control_t option" where
  "test_cntl_at m p =
     Option.bind (read_int m p) (\<lambda>f. Option.bind (read_int m (p + 4)) (\<lambda>t.
       Some \<lparr>tc_fail_count = f, tc_test_count = t\<rparr>))"

definition store_test_cntl :: "u64 \<Rightarrow> u64 \<Rightarrow> sys \<Rightarrow> sys option" where
  "store_test_cntl sysc p s =
     (if sysc = el1_sysc_va s then
        Option.bind (test_cntl_at (el1_mm s) p)
          (\<lambda>c. Some (s\<lparr>el1_sysc := (el1_sysc s)\<lparr>test_cntl := p\<rparr>, el1_tcnt := c\<rparr>))
      else None)"

definition blank_cnt :: test_control_t where
  "blank_cnt = \<lparr>tc_fail_count = 0, tc_test_count = 0\<rparr>"

text \<open>What the tests need, but for the counters: whatever these hold before \<open>main\<close> starts.\<close>

definition before_tests :: "test_view \<Rightarrow> bool" where
  "before_tests v \<longleftrightarrow> all_passed 0 (v\<lparr>tv_cnt := blank_cnt\<rparr>)"

text \<open>Non-secure EL1 has room for the block at the page its heap has got to, and the page can be
  shared.\<close>

definition can_share :: "u64 \<Rightarrow> u64 \<Rightarrow> u64 \<Rightarrow> sys \<Rightarrow> bool" where
  "can_share lim lim2 lim3 s \<longleftrightarrow> (let h = mem_heap_pool (el1_mm s) in
     pt_inv lim (el1_mm s) \<and> pages_left lim 4 (el1_mm s) \<and> usable lim (el1_mm s) h \<and> take_bit 12 h = 0 \<and>
     map_ready lim2 h (el3_mm (m_el3 s)) \<and> map_ready lim3 h (b1_mm (m_other s)))"

lemma next_page_frame:
  assumes "pt_inv lim s" "pages_left lim 4 s"
  shows "mem_next_pa s AND DESC_ADDR = mem_next_pa s"
proof -
  have wf: "pt_wf lim s" using assms(1) by (simp add: pt_inv_def)
  have "mem_next_pa s < lim" using pages_left_less [of lim 3 s] assms(2) by (simp add: eval_nat_numeral)
  from alloc_pool [OF wf this] have "in_pool lim s (mem_next_pa s)" by blast
  from in_pool_frame [OF wf this] show ?thesis by (simp add: page_frame_def)
qed

lemma ns_svc_get_syscntl:
  "ns_svc a hw junk SVC_OP_GET_SYSCNTL d s = Some (0, set_data_data (el1_sysc_va s) d, s)"
  by (simp add: ns_svc_def el1_handle_svc_def el1_svc_switch_def c_const)

lemma ns_svc_alloc:
  assumes "mem_heap_allocate (alloc_len d) (el1_mm s) = Some (h, m)"
  shows "ns_svc a hw junk SVC_OP_ALLOC d s = Some (0, set_alloc_addr h d, s\<lparr>el1_mm := m\<rparr>)"
  using assms by (simp add: ns_svc_def el1_handle_svc_def el1_svc_switch_def el1_alloc_mem_def c_const)


lemma tst_alloc: "tst (s\<lparr>el1_mm := m, el1_sysc := (el1_sysc s)\<lparr>test_cntl := h\<rparr>, el1_tcnt := c\<rparr>) = (tst s)\<lparr>tv_cnt := c\<rparr>"
  by (simp add: tst_def view_of_def del: tst_fold)

text \<open>The counters' page is a fresh one, so they are 0.\<close>

lemma heap_page_blank:
  assumes inv: "pt_inv lim s" and room: "pages_left lim 4 s" and run: "mem_heap_allocate PAGE_SIZE s = Some (h, s')"
    and h: "take_bit 12 h = 0" "mem_lookup_pa h s' = mem_next_pa s"
  shows "test_cntl_at s' h = Some blank_cnt"
proof -
  have "heap_map_loop 0x1000 0x1000 t = Some (0x1000, t)" for t by (subst heap_map_loop.simps) simp
  then have "heap_map_loop 0 PAGE_SIZE s =
      Option.bind (mem_map_va (mem_heap_pool s) 0 PTE_USER_RW s) (\<lambda>t. Some (PAGE_SIZE, t))"
    by (subst heap_map_loop.simps) (simp add: PAGE_SIZE_def cong: Option.bind_cong)
  then obtain s1 where s1: "mem_map_va (mem_heap_pool s) 0 PTE_USER_RW s = Some s1"
    "s' = s1\<lparr>mem_heap_pool := mem_heap_pool s1 + PAGE_SIZE\<rparr>"
    using run by (auto simp: mem_heap_allocate_def split: Option.bind_splits)
  have z: "load64 (mem_bytes s') (mem_next_pa s) = 0"
    using mem_map_va_fresh [OF inv room _ s1(1)] s1(2) by simp
  have "pages_left lim (Suc 3) s" using room by simp
  then have "mem_next_pa s < lim" by (rule pages_left_less)
  then have "mem_next_pa s \<noteq> - 1" using word_n1_ge [of lim] by (metis leD)
  then have "mmu s' h = Some (mem_next_pa s)" "mmu s' (h + 4) = Some (mem_next_pa s + 4)"
    using mmu_page [OF h(1), of 0 s'] mmu_page [OF h(1), of 4 s'] h(2) by simp_all
  then show ?thesis
    using z load32_halves [of "mem_bytes s'" "mem_next_pa s"]
    by (simp add: test_cntl_at_def read_int_def blank_cnt_def lo32_def hi32_def)
qed

text \<open>The set-up: the counters get a page, and every level translates its address alike.\<close>

lemma setup_runs:
  assumes s: "ns_running before_tests s" "can_share lim lim2 lim3 s" and pa: "map_pa jm \<noteq> 0"
  defines "h \<equiv> mem_heap_pool (el1_mm s)"
  shows "\<exists>s'. el0_nsec_setup (ns_el0 a hw junk) store_test_cntl ja jm junk s = Some (el1_sysc_va s, s') \<and>
     ns_running (all_passed 0) s' \<and> ran_at s' = ran_at s \<and> mem_lookup_pa h (el1_mm s') = mem_next_pa (el1_mm s) \<and>
     mem_lookup_pa h (el3_mm (m_el3 s')) = mem_next_pa (el1_mm s) \<and>
     mem_lookup_pa h (b1_mm (m_other s')) = mem_next_pa (el1_mm s)"
proof -
  let ?d = "map_va_desc jm h 0x1000 OP_MAP_ALL"
  have sh: "pt_inv lim (el1_mm s)" "pages_left lim 4 (el1_mm s)" "usable lim (el1_mm s) h"
    "map_ready lim2 h (el3_mm (m_el3 s))" "map_ready lim3 h (b1_mm (m_other s))" "take_bit 12 h = 0"
    using s(2) by (simp_all add: can_share_def h_def Let_def)
  obtain m where m: "mem_heap_allocate PAGE_SIZE (el1_mm s) = Some (h, m)" "mem_lookup_pa h m = mem_next_pa (el1_mm s)"
    using heap_one_page [OF sh(1,2)] sh(3) by (auto simp: h_def)
  define s1 where "s1 = s\<lparr>el1_mm := m, el1_sysc := (el1_sysc s)\<lparr>test_cntl := h\<rparr>, el1_tcnt := blank_cnt\<rparr>"
  have blank: "test_cntl_at m h = Some blank_cnt" by (rule heap_page_blank [OF sh(1,2) m(1) sh(6) m(2)])
  have run1: "ns_running (all_passed 0) s1"
    using s(1) by (simp add: ns_running_def s1_def tst_alloc before_tests_def)
  have d: "map_type ?d AND OP_MAP_ALL = OP_MAP_ALL" "map_va ?d = h" "map_pa ?d \<noteq> 0"
    using pa by (simp_all add: map_va_desc_def layout)
  have p: "mem_next_pa (el1_mm s) = (if map_pa ?d \<noteq> 0 then mem_lookup_pa (map_va ?d) (el1_mm s1) else 0)"
    using d m(2) by (simp add: s1_def)
  have rdy: "map_ready lim2 (map_va ?d) (el3_mm (m_el3 s1))" "map_ready lim3 (map_va ?d) (b1_mm (m_other s1))"
    using sh(4,5) d(2) by (simp_all add: s1_def)
  obtain d' s2 where s2: "ns_svc a hw junk SVC_OP_MAP ?d s1 = Some (0, d', s2)" "ns_running (all_passed 0) s2" "ran_at s2 = ran_at s1"
    "mem_lookup_pa h (el3_mm (m_el3 s2)) = mem_next_pa (el1_mm s) AND DESC_ADDR"
    "mem_lookup_pa h (b1_mm (m_other s2)) = mem_next_pa (el1_mm s) AND DESC_ADDR" "el1_mm s2 = el1_mm s1"
    using ns_svc_map [OF run1 d(1) p rdy, of a hw junk] d(2) by auto
  have "ran_at s1 = ran_at s" by (rule ran_at_eqI) (simp_all add: s1_def)
  moreover have "alloc_len (alloc_mem_desc ja 0 0x1000) = PAGE_SIZE" by (simp add: alloc_mem_desc_def layout PAGE_SIZE_def)
  then have "el0_alloc_mem (ns_el0 a hw junk) ja 0 0x1000 s = Some (h, s\<lparr>el1_mm := m\<rparr>)"
    using m(1) by (simp add: el0_alloc_mem_def ns_el0_def ns_svc_alloc layout)
  then have "el0_nsec_setup (ns_el0 a hw junk) store_test_cntl ja jm junk s = Some (el1_sysc_va s, s2)"
    using s2(1) by (simp add: el0_nsec_setup_def ns_el0_def ns_svc_get_syscntl layout store_test_cntl_def blank el0_map_va_def s1_def)
  ultimately show ?thesis using s2 m(2) next_page_frame [OF sh(1,2)] by (simp add: s1_def)
qed

text \<open>The end: EL3 writes the shutdown command.\<close>

lemma ns_svc_exit:
  assumes "ns_running J s"
  shows "\<exists>d' s'. ns_svc a hw junk SVC_OP_EXIT d s = Some (0, d', s') \<and> cfgctrl (m_el3 s') = cint SYS_SHUTDOWN \<and>
     ran_at s' = ran_at s \<and> el1_tcnt s' = el1_tcnt s"
proof -
  have inv: "el3_inv (m_el3 s)" using assms by (simp add: ns_running_def)
  have "el3_smc_switch a (ucast SMC_OP_EXIT) (ibuf s) (smc_entry SMC_OP_EXIT s) =
      Some (0, ibuf s, el3_shutdown (smc_entry SMC_OP_EXIT s))"
    by (simp add: el3_smc_switch_def c_const)
  then obtain e where e: "enter_el3 a SMC_OP_EXIT s = Some (0, False, after (ibuf s) e s)"
    "el3_ran e = el3_ran (el3_shutdown (smc_entry SMC_OP_EXIT s))" "cfgctrl e = cfgctrl (el3_shutdown (smc_entry SMC_OP_EXIT s))"
    using enter_stay [OF _ same_world_shutdown inv] by blast
  have "ns_svc a hw junk SVC_OP_EXIT d s = Some (0, d, (after (ibuf s) e s)\<lparr>el1_elr := el1_elr s\<rparr>)"
    using e(1) by (simp add: ns_svc_def el1_handle_svc_def el1_svc_switch_def ns_smc_def)
  moreover have "ran_at ((after (ibuf s) e s)\<lparr>el1_elr := el1_elr s\<rparr>) = ran_at s"
    using e(2) by (intro ran_at_eqI) (simp_all add: el3_shutdown_def)
  ultimately show ?thesis using e(3) by (simp add: el3_shutdown_def) (simp add: after_def)
qed

text \<open>C1: the program of non-secure EL0 does what the project is for. On a processor with the
  documented routing and with room in the tables, \<open>main\<close> allocates a page for the counters
  (which reads as 0 there, whatever they were before), every level translates it to the same
  physical page before the tests
  start, the inter-level test and every case of the table run in order at their place, 81
  checks are counted and none fails, the machine is told to shut down, and \<open>main\<close> returns 0.
  This assumes that the stack slot of the member \<open>pa\<close> in \<open>map_va\<close>'s descriptor, which the code
  never initialises, is not 0 (\<open>map_pa jm\<close>): with 0 there EL3 and secure EL1 map the page at
  physical page 0 instead and the counters are not shared.\<close>

theorem el0_nsec_main_powers_off:
  assumes "arm_routes p" "ns_running before_tests s" "can_share lim lim2 lim3 s" "map_pa jm \<noteq> 0" "el1_sysc_va s \<noteq> 0"
  shows "\<exists>s1 s'. let hw = ns_el0 AArch64 (test_machine p junk) junk; h = mem_heap_pool (el1_mm s) in
     el0_nsec_setup hw store_test_cntl ja jm junk s = Some (el1_sysc_va s, s1) \<and>
     mem_lookup_pa h (el3_mm (m_el3 s1)) = mem_lookup_pa h (el1_mm s1) \<and>
     mem_lookup_pa h (b1_mm (m_other s1)) = mem_lookup_pa h (el1_mm s1) \<and>
     el0_nsec_main AArch64 hw store_test_cntl ja jm junk s = Some (0, s') \<and>
     (\<forall>q. ran_at s' q = ran_at s q @ planned AArch64 (tztest_loop (tztest AArch64)) q) \<and>
     tc_fail_count (el1_tcnt s') = 0 \<and> tc_test_count (el1_tcnt s') = 81 \<and> cfgctrl (m_el3 s') = cint SYS_SHUTDOWN"
proof -
  let ?hw = "test_machine p junk"
  obtain s1 where s1: "el0_nsec_setup (ns_el0 AArch64 ?hw junk) store_test_cntl ja jm junk s = Some (el1_sysc_va s, s1)"
    "ns_running (all_passed 0) s1" "ran_at s1 = ran_at s"
    "mem_lookup_pa (mem_heap_pool (el1_mm s)) (el1_mm s1) = mem_next_pa (el1_mm s)"
    "mem_lookup_pa (mem_heap_pool (el1_mm s)) (el3_mm (m_el3 s1)) = mem_next_pa (el1_mm s)"
    "mem_lookup_pa (mem_heap_pool (el1_mm s)) (b1_mm (m_other s1)) = mem_next_pa (el1_mm s)"
    using setup_runs [OF assms(2-4)] by blast
  obtain s2 where s2: "tztest_start AArch64 (ns_el0 AArch64 ?hw junk) junk s1 = Some (True, s2)"
    "ns_running (all_passed 81) s2" "\<forall>q. ran_at s2 q = ran_at s1 q @ planned AArch64 (tztest_loop (tztest AArch64)) q"
    using ns_tztest_start [OF s1(2) counting_all_passed table_bodies [OF assms(1)], of junk junk] by (auto simp: table_checks)
  obtain d' s' where s': "ns_svc AArch64 ?hw junk SVC_OP_EXIT zero_desc s2 = Some (0, d', s')"
    "cfgctrl (m_el3 s') = cint SYS_SHUTDOWN" "ran_at s' = ran_at s2" "el1_tcnt s' = el1_tcnt s2"
    using ns_svc_exit [OF s2(2)] by blast
  have "all_passed 81 (tst s2)" using s2(2) by (simp add: ns_running_def)
  then have "tc_fail_count (el1_tcnt s') = 0" "tc_test_count (el1_tcnt s') = 81"
    using s'(4) running_cpacr(5) [of s2] by (simp_all add: all_passed_def)
  moreover have "el0_nsec_main AArch64 (ns_el0 AArch64 ?hw junk) store_test_cntl ja jm junk s = Some (0, s')"
    using s1(1) s2(1) s'(1) assms(5) by (simp add: el0_nsec_main_def ns_el0_def)
  ultimately show ?thesis using s1 s2(3) s' by (auto simp: Let_def intro!: exI [of _ s1] exI [of _ s'])
qed

section \<open>The secure program\<close>

text \<open>\<open>main\<close> of the secure world on the machine, until the other world runs: the control block is
  fetched, and the loop starts with a yield.\<close>

definition sec_boot :: "arch \<Rightarrow> sys services \<Rightarrow> op_desc \<Rightarrow> op_desc \<Rightarrow> sys \<Rightarrow> (u32 \<times> sys) option" where
  "sec_boot a hw jl junk s =
     Option.bind (sec_svc a hw SVC_OP_GET_SYSCNTL junk s)
       (\<lambda>res. case res of
           Switched ret s1 \<Rightarrow> Some (ret, s1)
         | Returned r d s1 \<Rightarrow>
             if data_data d = 0 then None else sec_run a hw junk SVC_OP_YIELD (s1\<lparr>m_desc := jl\<rparr>))"

text \<open>It parks: the non-secure world runs, in the state its tests need.\<close>

lemma sec_boot_parks:
  assumes "sec_running J s" "el1_sysc_va s \<noteq> 0"
  shows "\<exists>s'. sec_boot a hw jl junk s = Some (SVC_OP_YIELD, s') \<and> ns_running J s' \<and> ran_at s' = ran_at s \<and>
     el1_mm s' = b1_mm (m_other s) \<and> b1_mm (m_other s') = el1_mm s \<and> el3_mm (m_el3 s') = el3_mm (m_el3 s)"
proof -
  have "el1_request SVC_OP_GET_SYSCNTL junk s = None" by (simp add: el1_request_def c_const)
  then have svc: "sec_svc a hw SVC_OP_GET_SYSCNTL junk s = Some (Returned 0 (set_data_data (el1_sysc_va s) junk) s)"
    by (simp add: sec_svc_def el1_handle_svc_def el1_svc_switch_def c_const)
  have r: "sec_running J (s\<lparr>m_desc := jl\<rparr>)" using assms(1) by (simp add: sec_running_def)
  have sw: "sec_switch a hw junk SVC_OP_YIELD (s\<lparr>m_desc := jl\<rparr>) = Some (Returned SVC_OP_YIELD jl (s\<lparr>m_desc := jl\<rparr>))"
    by (simp add: sec_switch_def sec_forward_def el0_sec_switch_def returned_def c_const)
  obtain s' where s': "sec_svc a hw SVC_OP_YIELD jl (s\<lparr>m_desc := jl\<rparr>) = Some (Switched SVC_OP_YIELD s')" "ns_running J s'"
    "ran_at s' = ran_at s" "el1_mm s' = b1_mm (m_other s)" "b1_mm (m_other s') = el1_mm s" "el3_mm (m_el3 s') = el3_mm (m_el3 s)"
    using sec_park [OF r, of a hw jl] ran_at_desc by auto
  have "sec_run a hw junk SVC_OP_YIELD (s\<lparr>m_desc := jl\<rparr>) = Some (SVC_OP_YIELD, s')"
    using sw s'(1) by (subst sec_run.simps) simp
  then show ?thesis using svc s' assms(2) by (simp add: sec_boot_def layout)
qed

end
