(* ===== verification/El0MainDemo.thy ===== *)
theory El0MainDemo
  imports El0Main MachineDemo
begin

text \<open>A machine on which the program of non-secure EL0 runs from \<open>main\<close> to the shutdown.\<close>

definition demo_boot :: sys where
  "demo_boot = demo_run\<lparr>el1_mm := demo_mm, el1_sysc_va := 0x70000000, el1_tcnt := \<lparr>tc_fail_count = 7, tc_test_count = 9\<rparr>\<rparr>"

lemma demo_boot_mm:
  "el1_mm demo_boot = demo_mm" "el3_mm (m_el3 demo_boot) = demo_mm" "b1_mm (m_other demo_boot) = demo_mm"
  by (simp_all add: demo_boot_def demo_run_def demo_sys_def demo_el3_def upd_cpu_def)

lemma demo_boot_running: "ns_running before_tests demo_boot"
proof -
  have "tst demo_boot = (tst demo_run)\<lparr>tv_cnt := el1_tcnt demo_boot\<rparr>"
    by (simp add: tst_def view_of_def demo_boot_def del: tst_fold)
  moreover have "blank_cnt = tv_cnt (tst demo_run)"
    by (simp add: running_cpacr(5) blank_cnt_def demo_run_def demo_sys_def)
  ultimately have "before_tests (tst demo_boot)"
    using demo_run_running by (simp add: before_tests_def ns_running_def all_passed_def)
  then show ?thesis using demo_run_running by (simp add: ns_running_def) (simp add: demo_boot_def)
qed

lemma demo_boot_share: "can_share 0x80000 0x80000 0x80000 demo_boot"
proof -
  have h: "mem_heap_pool demo_mm = 0x40000000" by (simp add: demo_mm_def)
  have "usable 0x80000 demo_mm 0x40000000" by (rule demo_usable) (simp add: pt_index_def)
  moreover have "take_bit 12 (0x40000000 :: u64) = 0" by (simp add: take_bit_eq_mask mask_eq_exp_minus_1)
  ultimately show ?thesis
    using demo_inv demo_pages by (simp add: can_share_def demo_boot_mm h map_ready_def Let_def)
qed

lemma el0_nsec_main_powers_off_witness:
  "\<exists>s1 s'. let hw = ns_el0 AArch64 (test_machine demo_processor zero_desc) zero_desc; h = mem_heap_pool (el1_mm demo_boot) in
     el0_nsec_setup hw store_test_cntl zero_desc (set_map_pa 0x1000 zero_desc) zero_desc demo_boot
       = Some (el1_sysc_va demo_boot, s1) \<and>
     mem_lookup_pa h (el3_mm (m_el3 s1)) = mem_lookup_pa h (el1_mm s1) \<and>
     mem_lookup_pa h (b1_mm (m_other s1)) = mem_lookup_pa h (el1_mm s1) \<and>
     el0_nsec_main AArch64 hw store_test_cntl zero_desc (set_map_pa 0x1000 zero_desc) zero_desc demo_boot = Some (0, s') \<and>
     (\<forall>q. ran_at s' q = ran_at demo_boot q @ planned AArch64 (tztest_loop (tztest AArch64)) q) \<and>
     tc_fail_count (el1_tcnt s') = 0 \<and> tc_test_count (el1_tcnt s') = 81 \<and> cfgctrl (m_el3 s') = cint SYS_SHUTDOWN"
  by (rule el0_nsec_main_powers_off [OF demo_routes demo_boot_running demo_boot_share])
    (simp_all add: layout demo_boot_def)

end
