(* ===== verification/Boot.thy ===== *)
theory Boot
  imports El1Start LibString
begin

text \<open>
  The boot code of the AArch64 images before the MMU is on: the routines of
  \<^verbatim>\<open>common/aarch64/init_util.S\<close> that build the tables, and the sequences of mappings of
  \<^verbatim>\<open>el3/aarch64/el3_init.S\<close> and \<^verbatim>\<open>el1/aarch64/el1_init.S\<close>. The state is the one of
  \<open>PageTable\<close>: \<open>mem_pgtbl_base\<close> is \<^verbatim>\<open>PT_BASE\<close>, and \<open>mem_next_pa\<close> the pool pointer that the boot
  code keeps at the top of its temporary stack and hands to the C code in the end. The loops
  run down a length in steps of a page and end at 0 only: \<open>None\<close> is a length that never gets there.
\<close>

section \<open>The routines\<close>

definition allocate_pa :: "mm \<Rightarrow> u64 \<times> mm" where
  "allocate_pa s = (mem_next_pa s, s\<lparr>mem_next_pa := mem_next_pa s + 0x1000\<rparr>)"

text \<open>The address of the descriptor: x14 is the shift, x12 the table or the descriptor that
  points to it.\<close>

definition boot_pte :: "u64 \<Rightarrow> nat \<Rightarrow> u64 \<Rightarrow> u64" where
  "boot_pte va x14 x12 = push_bit 3 (drop_bit x14 va AND 0x1FF) OR (x12 AND NOT 0xFFF)"

fun map_loop :: "nat \<Rightarrow> nat \<Rightarrow> u64 \<Rightarrow> u64 \<Rightarrow> u64 \<Rightarrow> u64 \<Rightarrow> mm \<Rightarrow> mm" where
  "map_loop 0 x14 va pgprop pa x12 s = s"
| "map_loop (Suc x13) x14 va pgprop pa x12 s =
     (let x10 = boot_pte va x14 x12 in
      if x13 = 0 then wr64 x10 (pgprop OR pa) s
      else let d = rd64 s x10 in
        if d AND 1 = 0 then
          (let (np, s1) = allocate_pa s; x = np OR PTE_TABLE in map_loop x13 (x14 - 9) va pgprop pa x (wr64 x10 x s1))
        else map_loop x13 (x14 - 9) va pgprop pa d s)"

definition map_va_to_pa :: "u64 \<Rightarrow> u64 \<Rightarrow> u64 \<Rightarrow> mm \<Rightarrow> mm" where
  "map_va_to_pa va pgprop pa s = map_loop 4 39 va pgprop pa (mem_pgtbl_base s) s"

fun boot_unmap_loop :: "nat \<Rightarrow> nat \<Rightarrow> u64 \<Rightarrow> u64 \<Rightarrow> mm \<Rightarrow> mm" where
  "boot_unmap_loop 0 x14 va x12 s = s"
| "boot_unmap_loop (Suc x13) x14 va x12 s =
     (let x10 = boot_pte va x14 x12 in
      if x13 = 0 then wr64 x10 0 s
      else let d = rd64 s x10 in if d AND 1 = 0 then s else boot_unmap_loop x13 (x14 - 9) va d s)"

definition boot_unmap_va :: "u64 \<Rightarrow> mm \<Rightarrow> mm" where
  "boot_unmap_va va s = boot_unmap_loop 4 39 va (mem_pgtbl_base s) s"

definition boot_map_va :: "u64 \<Rightarrow> u64 \<Rightarrow> mm \<Rightarrow> mm" where
  "boot_map_va va pgprop s = (let (pa, s1) = allocate_pa s in map_va_to_pa va pgprop pa s1)"

definition boot_map_pa :: "u64 \<Rightarrow> u64 \<Rightarrow> mm \<Rightarrow> mm" where
  "boot_map_pa pa pgprop s = map_va_to_pa pa pgprop pa s"

partial_function (option) map_pa_loop :: "u64 \<Rightarrow> u64 \<Rightarrow> u64 \<Rightarrow> mm \<Rightarrow> mm option" where
  "map_pa_loop pa pgprop x2 s =
     (if x2 = 0 then Some s else map_pa_loop (pa + 0x1000) pgprop (x2 - 0x1000) (boot_map_pa pa pgprop s))"

definition map_pa_range :: "u64 \<Rightarrow> u64 \<Rightarrow> u64 \<Rightarrow> mm \<Rightarrow> mm option" where
  "map_pa_range pa pgprop len s = map_pa_loop pa pgprop ((len + 0xFFF) AND NOT 0xFFF) s"

partial_function (option) map_va_loop :: "u64 \<Rightarrow> u64 \<Rightarrow> u64 \<Rightarrow> mm \<Rightarrow> mm option" where
  "map_va_loop va pgprop x2 s =
     (if x2 = 0 then Some s else map_va_loop (va + 0x1000) pgprop (x2 - 0x1000) (boot_map_va va pgprop s))"

definition map_va_range :: "u64 \<Rightarrow> u64 \<Rightarrow> u64 \<Rightarrow> mm \<Rightarrow> mm option" where
  "map_va_range va pgprop len s = map_va_loop va pgprop ((len + 0xFFF) AND NOT 0xFFF) s"

partial_function (option) unmap_va_loop :: "u64 \<Rightarrow> u64 \<Rightarrow> mm \<Rightarrow> mm option" where
  "unmap_va_loop va x1 s =
     (if x1 = 0 then Some s else unmap_va_loop (va + 0x1000) (x1 - 0x1000) (boot_unmap_va va s))"

definition unmap_va_range :: "u64 \<Rightarrow> u64 \<Rightarrow> mm \<Rightarrow> mm option" where
  "unmap_va_range va len s = unmap_va_loop va ((len + 0xFFF) AND NOT 0xFFF) s"

section \<open>The sequences\<close>

text \<open>The symbols of the linker script of an image.\<close>

record 'a image_syms =
  INIT_BASE :: 'a
  INIT_SIZE :: 'a
  FLASH_TEXT :: 'a
  TEXT_BASE :: 'a
  TEXT_SIZE :: 'a
  FLASH_DATA :: 'a
  DATA_BASE :: 'a
  DATA_SIZE :: 'a

text \<open>The linker scripts \<^verbatim>\<open>el3.lds.S\<close>, \<^verbatim>\<open>el1_sec.lds.S\<close> and \<^verbatim>\<open>el1_nsec.lds.S\<close>: \<open>flash\<close> is where the
  image starts in flash, \<open>va\<close> its base address, and the sizes are those of \<^verbatim>\<open>.init\<close>, \<^verbatim>\<open>.text\<close>
  and \<^verbatim>\<open>.data\<close>. The load address of \<^verbatim>\<open>.data\<close> is as far behind the one of \<^verbatim>\<open>.text\<close> as its address is.\<close>

definition align4k :: "u64 \<Rightarrow> u64" where
  "align4k x = (x + 0xFFF) AND NOT 0xFFF"

definition image_lds :: "u64 \<Rightarrow> u64 \<Rightarrow> u64 \<Rightarrow> u64 \<Rightarrow> u64 \<Rightarrow> u64 image_syms" where
  "image_lds flash va i t d =
     (let ft = align4k (flash + i); db = align4k (va + t)
      in \<lparr>INIT_BASE = flash, INIT_SIZE = i, FLASH_TEXT = ft, TEXT_BASE = va, TEXT_SIZE = t,
          FLASH_DATA = ft + (db - va), DATA_BASE = db, DATA_SIZE = d\<rparr>)"

definition el3_init_maps :: "u64 image_syms \<Rightarrow> mm \<Rightarrow> mm option" where
  "el3_init_maps y s =
     (let ro = PTE_PAGE OR PTE_ACCESS OR PTE_PRIV_RO; rw = PTE_PAGE OR PTE_ACCESS OR PTE_PRIV_RW;
          s0 = s\<lparr>mem_pgtbl_base := EL3_PGTBL_BASE, mem_next_pa := EL3_PGTBL_BASE + PAGE_SIZE\<rparr>
      in Option.bind (map_pa_range (INIT_BASE y) ro (INIT_SIZE y) s0)
           (\<lambda>s1. Option.bind (map_pa_range (FLASH_TEXT y) ro (TEXT_SIZE y) s1)
           (\<lambda>s2. Option.bind (map_pa_range (FLASH_DATA y) ro (DATA_SIZE y) s2)
           (\<lambda>s3. Option.bind (map_va_range (TEXT_BASE y) rw (TEXT_SIZE y) s3)
           (\<lambda>s4. Option.bind (map_va_range (DATA_BASE y) rw (DATA_SIZE y) s4)
           (\<lambda>s5. Option.bind (map_pa_range EL3_PGTBL_BASE rw EL3_PGTBL_SIZE (boot_map_va (EL3_STACK_BASE - PAGE_SIZE) rw s5))
           (\<lambda>s6. Some (boot_map_pa SYSREG_BASE rw (boot_map_pa UART0_BASE rw s6)))))))))"

text \<open>The names \<^verbatim>\<open>el1/secure/aarch64/el1.h\<close> and \<^verbatim>\<open>el1/nonsecure/aarch64/el1.h\<close> give to the constants
  of their image.\<close>

definition EL1_PGTBL_BASE :: "u32 \<Rightarrow> u64" where
  "EL1_PGTBL_BASE secure = (if secure = SECURE then EL1_S_PGTBL_BASE else EL1_NS_PGTBL_BASE)"

definition EL1_PGTBL_SIZE :: "u32 \<Rightarrow> u64" where
  "EL1_PGTBL_SIZE secure = (if secure = SECURE then EL1_S_PGTBL_SIZE else EL1_NS_PGTBL_SIZE)"

definition EL1_STACK_BASE :: "u32 \<Rightarrow> u64" where
  "EL1_STACK_BASE secure = (if secure = SECURE then EL1_S_STACK_BASE else EL1_NS_STACK_BASE)"

definition EL0_STACK_BASE :: "u32 \<Rightarrow> u64" where
  "EL0_STACK_BASE secure = (if secure = SECURE then EL0_S_STACK_BASE else EL0_NS_STACK_BASE)"

definition EL1_BASE_VA :: "u32 \<Rightarrow> u64" where
  "EL1_BASE_VA secure = (if secure = SECURE then EL1_S_BASE_VA else EL1_NS_BASE_VA)"

definition EL1_FLASH_BASE :: "u32 \<Rightarrow> u64" where
  "EL1_FLASH_BASE secure = (if secure = SECURE then EL1_S_FLASH_BASE else EL1_NS_FLASH_BASE)"

definition el1_init_maps :: "u32 \<Rightarrow> u64 image_syms \<Rightarrow> mm \<Rightarrow> mm option" where
  "el1_init_maps w y s =
     (let ro = PTE_PAGE OR PTE_ACCESS OR PTE_USER_RO; urw = PTE_PAGE OR PTE_ACCESS OR PTE_USER_RW;
          rw = PTE_PAGE OR PTE_ACCESS OR PTE_PRIV_RW;
          s0 = s\<lparr>mem_pgtbl_base := EL1_PGTBL_BASE w, mem_next_pa := EL1_PGTBL_BASE w + PAGE_SIZE\<rparr>
      in Option.bind (map_pa_range (INIT_BASE y) ro (INIT_SIZE y) s0)
           (\<lambda>s1. Option.bind (map_pa_range (FLASH_TEXT y) ro (TEXT_SIZE y) s1)
           (\<lambda>s2. Option.bind (map_pa_range (FLASH_DATA y) urw (DATA_SIZE y) s2)
           (\<lambda>s3. Option.bind (map_va_range (TEXT_BASE y) rw (TEXT_SIZE y) s3)
           (\<lambda>s4. Option.bind (map_va_range (DATA_BASE y) rw (DATA_SIZE y) s4)
           (\<lambda>s5. Option.bind (map_pa_range (EL1_PGTBL_BASE w) rw (EL1_PGTBL_SIZE w)
                      (boot_map_va (EL0_STACK_BASE w - PAGE_SIZE) urw (boot_map_va (EL1_STACK_BASE w - PAGE_SIZE) rw s5)))
           (\<lambda>s6. Some (boot_map_pa UART0_BASE urw s6))))))))"

section \<open>Copies\<close>

text \<open>The MMU is on. The routine \<^verbatim>\<open>memcpy\<close> of the boot code moves eight bytes at a time until the
  count, as a signed number, is not positive; the sections start on page boundaries, so no access
  crosses a page. \<open>None\<close> is an access that is not mapped.\<close>

function boot_memcpy :: "u64 \<Rightarrow> u64 \<Rightarrow> u64 \<Rightarrow> mm \<Rightarrow> mm option" where
  "boot_memcpy x0 x1 x2 s =
     (if sint x2 \<le> 0 then Some s
      else Option.bind (mmu s x1) (\<lambda>p. Option.bind (mmu s x0) (\<lambda>q.
        boot_memcpy (x0 + 8) (x1 + 8) (x2 - 8) (wr64 q (rd64 s p) s))))"
  by pat_completeness auto

lemma sint_minus_8: "0 < sint (x :: u64) \<Longrightarrow> sint (x - 8) = sint x - 8"
proof -
  assume p: "0 < sint x"
  have "sint x < 2 ^ 63" "sint (8 :: u64) = 8" using sint_lt [of x] by simp_all
  then show ?thesis using p by (simp add: sint_word_ariths signed_take_bit_int_eq_self)
qed

termination boot_memcpy
  by (relation "measure (\<lambda>(x0, x1, x2, s). nat (sint x2 + 8))") (use sint_minus_8 in auto)

declare boot_memcpy.simps [simp del]

definition el3_copy :: "u64 image_syms \<Rightarrow> mm \<Rightarrow> mm option" where
  "el3_copy y s =
     Option.bind (boot_memcpy (TEXT_BASE y) (FLASH_TEXT y) (TEXT_SIZE y) s)
       (boot_memcpy (DATA_BASE y) (FLASH_DATA y) (DATA_SIZE y))"

text \<open>EL1 unmaps each section in flash once it is copied.\<close>

definition el1_copy :: "u64 image_syms \<Rightarrow> mm \<Rightarrow> mm option" where
  "el1_copy y s =
     Option.bind (boot_memcpy (TEXT_BASE y) (FLASH_TEXT y) (TEXT_SIZE y) s)
       (\<lambda>s1. Option.bind (unmap_va_range (FLASH_TEXT y) (TEXT_SIZE y) s1)
       (\<lambda>s2. Option.bind (boot_memcpy (DATA_BASE y) (FLASH_DATA y) (DATA_SIZE y) s2)
       (unmap_va_range (FLASH_DATA y) (DATA_SIZE y))))"

end
