(* ===== verification/BootProofs.thy ===== *)
theory BootProofs
  imports Boot LibIo
begin

text \<open>
  The tables the boot code builds. \<open>boot_wf lim s\<close> is what holds before the pool of table pages
  is itself mapped: the tables form a tree, lie between the base and the pool pointer, and the
  rest of the pool is zero, as RAM is after reset. \<open>pt_wf 0\<close> is \<open>pt_wf\<close> with an empty pool.
\<close>

section \<open>The invariant of the boot code\<close>

definition clean_tables :: "mm \<Rightarrow> bool" where
  "clean_tables s \<longleftrightarrow> (\<forall>va i t. i < 3 \<longrightarrow> walk s va i = Some t \<longrightarrow> rd64 s (slot t va i) AND 1 \<noteq> 0 \<longrightarrow>
     rd64 s (slot t va i) AND NOT 0xFFF = rd64 s (slot t va i) AND DESC_ADDR)"

definition boot_wf :: "u64 \<Rightarrow> mm \<Rightarrow> bool" where
  "boot_wf lim s \<longleftrightarrow> pt_wf 0 s \<and> lim \<le> 2 ^ 36 \<and> mem_next_pa s \<le> lim \<and> clean_tables s \<and>
     (\<forall>p. in_pool lim s p \<longrightarrow> zero_page s p) \<and>
     (\<forall>t. is_table s t \<longrightarrow> mem_pgtbl_base s \<le> t \<and> t < mem_next_pa s)"

text \<open>A byte that is not in the memory of the tables.\<close>

definition outside :: "u64 \<Rightarrow> mm \<Rightarrow> u64 \<Rightarrow> bool" where
  "outside lim s a \<longleftrightarrow> (\<forall>p. aligned 12 p \<longrightarrow> mem_pgtbl_base s \<le> p \<longrightarrow> p < lim \<longrightarrow> drop_bit 12 a \<noteq> drop_bit 12 p)"

lemma outside_cong: "mem_pgtbl_base s' = mem_pgtbl_base s \<Longrightarrow> outside lim s' a = outside lim s a"
  by (simp add: outside_def)

definition boot_grows :: "u64 \<Rightarrow> nat \<Rightarrow> mm \<Rightarrow> mm \<Rightarrow> bool" where
  "boot_grows lim k s s' \<longleftrightarrow> boot_wf lim s' \<and> mem_pgtbl_base s' = mem_pgtbl_base s \<and> mem_heap_pool s' = mem_heap_pool s \<and>
     mem_next_pa s \<le> mem_next_pa s' \<and> unat (mem_next_pa s') \<le> unat (mem_next_pa s) + k * 4096 \<and>
     (\<forall>v j y. j \<le> 3 \<longrightarrow> walk s v j = Some y \<longrightarrow> walk s' v j = Some y) \<and>
     (\<forall>t. is_table s' t \<longrightarrow> is_table s t \<or> mem_next_pa s \<le> t) \<and> (\<forall>a. outside lim s a \<longrightarrow> mem_bytes s' a = mem_bytes s a)"

lemma boot_grows_refl: "boot_wf lim s \<Longrightarrow> boot_grows lim 0 s s"
  by (simp add: boot_grows_def)

lemma boot_growsD:
  assumes "boot_grows lim k s s'"
  shows "boot_wf lim s'" "mem_pgtbl_base s' = mem_pgtbl_base s" "mem_heap_pool s' = mem_heap_pool s"
    "mem_next_pa s \<le> mem_next_pa s'" "unat (mem_next_pa s') \<le> unat (mem_next_pa s) + k * 4096"
    "j \<le> 3 \<Longrightarrow> walk s v j = Some y \<Longrightarrow> walk s' v j = Some y"
    "is_table s' t \<Longrightarrow> is_table s t \<or> mem_next_pa s \<le> t" "outside lim s a \<Longrightarrow> mem_bytes s' a = mem_bytes s a"
  using assms unfolding boot_grows_def by blast+

lemma boot_grows_trans:
  assumes "boot_grows lim k s s'" "boot_grows lim l s' s''"
  shows "boot_grows lim (k + l) s s''"
proof -
  note 1 = boot_growsD [OF assms(1)] and 2 = boot_growsD [OF assms(2)]
  have o: "outside lim s' = outside lim s" using outside_cong [OF 1(2)] by blast
  show ?thesis
    unfolding boot_grows_def
  proof (intro conjI allI impI)
    show "mem_next_pa s \<le> mem_next_pa s''" using 1(4) 2(4) by simp
    show "unat (mem_next_pa s'') \<le> unat (mem_next_pa s) + (k + l) * 4096" using 1(5) 2(5) by (simp add: algebra_simps)
    show "is_table s t \<or> mem_next_pa s \<le> t" if "is_table s'' t" for t
      using 2(7) [OF that] 1(4) 1(7) [of t] by (meson order_trans)
    show "mem_bytes s'' a = mem_bytes s a" if "outside lim s a" for a using 1(8) [OF that] 2(8) that by (simp add: o)
    show "walk s'' v j = Some y" if "j \<le> 3" "walk s v j = Some y" for v j y
      by (rule 2(6) [OF that(1) 1(6) [OF that]])
  qed (simp_all add: 1 2)
qed

lemma boot_grows_mono: "boot_grows lim k s s' \<Longrightarrow> k \<le> l \<Longrightarrow> boot_grows lim l s s'"
  unfolding boot_grows_def using mult_le_mono1 [of k l 4096] by auto

lemma boot_grows_zero: "boot_grows lim k s s' \<Longrightarrow> mem_next_pa s' = mem_next_pa s \<Longrightarrow> boot_grows lim 0 s s'"
  unfolding boot_grows_def by (elim conjE; intro conjI; (assumption | simp))

lemma pt_wf0: "pt_wf 0 s \<longleftrightarrow> page_frame (mem_pgtbl_base s) \<and> aligned 12 (mem_next_pa s) \<and>
    tree_tables (mem_bytes s) (mem_pgtbl_base s)"
  by (auto simp: pt_wf_def in_pool_def)

lemma frame_below: "aligned 12 p \<Longrightarrow> p < lim \<Longrightarrow> lim \<le> 2 ^ 36 \<Longrightarrow> page_frame p"
  using lt_2p36_bits [of p] by (auto simp: page_frame_bits aligned_iff_bits not_less [symmetric] intro: less_le_trans)

lemma not_FFF: "(p :: u64) AND NOT 0xFFF = p AND NOT (mask 12)"
  by (simp add: mask_eq_exp_minus_1)

lemma frame_not_FFF: "page_frame p \<Longrightarrow> p AND NOT 0xFFF = p"
  unfolding not_FFF by (rule bit_word_eqI) (auto simp: bit_simps page_frame_bits)

lemma boot_pte_slot: "x12 AND NOT 0xFFF = t \<Longrightarrow> boot_pte va (39 - 9 * i) x12 = slot t va i"
  by (simp add: boot_pte_def slot_def pt_off_def pt_index_def or.commute mult.commute)

section \<open>One table\<close>

text \<open>The pool pointer moves by a page; nothing else changes.\<close>

lemma alloc_boot:
  assumes "boot_wf lim s" "unat (mem_next_pa s) + 4096 \<le> unat lim"
  defines "np \<equiv> mem_next_pa s" and "s1 \<equiv> s\<lparr>mem_next_pa := mem_next_pa s + 0x1000\<rparr>"
  shows "pt_wf 0 s1" "page_frame np" "zero_page s1 np" "\<not> is_table s1 np" "in_pool lim s np"
    "unat (mem_next_pa s1) = unat (mem_next_pa s) + 4096" "boot_wf lim s1"
    "in_pool lim s1 p \<Longrightarrow> in_pool lim s p \<and> p \<noteq> np"
proof -
  have wf: "aligned 12 np" "lim \<le> 2 ^ 36" using assms(1) by (auto simp: boot_wf_def pt_wf0 np_def)
  have "np < lim" using assms(2) by (simp add: word_less_nat_alt np_def)
  then show p: "in_pool lim s np" using wf by (simp add: in_pool_def np_def)
  show "page_frame np" using frame_below [OF wf(1) \<open>np < lim\<close> wf(2)] .
  have "unat lim < 2 ^ 64" by (rule unat_less_u64)
  then show u: "unat (mem_next_pa s1) = unat (mem_next_pa s) + 4096"
    using assms(2) by (simp add: s1_def unat_add_small)
  then have lt: "np < mem_next_pa s1" by (simp add: word_less_nat_alt np_def)
  have wk: "walk s1 v j = walk s v j" for v j by (simp add: s1_def)
  have rd: "rd64 s1 a = rd64 s a" for a by (simp add: rd64_def s1_def)
  have tb: "is_table s1 t = is_table s t" for t by (simp add: is_table_def wk)
  have z: "zero_page s1 q = zero_page s q" for q by (simp add: zero_page_def rd)
  show "zero_page s1 np" using assms(1) p z by (simp add: boot_wf_def)
  have bound: "is_table s t \<Longrightarrow> mem_pgtbl_base s \<le> t \<and> t < np" for t using assms(1) by (simp add: boot_wf_def np_def)
  show "\<not> is_table s1 np" using bound [of np] by (auto simp: tb)
  show pool: "in_pool lim s1 p \<Longrightarrow> in_pool lim s p \<and> p \<noteq> np" for p
    using lt by (auto simp: in_pool_def np_def)
  have "aligned 12 (mem_next_pa s1)"
    using aligned_add [OF wf(1), of "0x1000"] by (simp add: s1_def np_def) (simp add: aligned_def)
  then show wf1: "pt_wf 0 s1" using assms(1) by (simp add: boot_wf_def pt_wf0 s1_def)
  have "clean_tables s1" using assms(1) unfolding clean_tables_def boot_wf_def wk rd by blast
  moreover have "mem_next_pa s1 \<le> lim" using u assms(2) by (simp add: word_le_nat_alt)
  moreover have "\<forall>t. is_table s t \<longrightarrow> mem_pgtbl_base s1 \<le> t \<and> t < mem_next_pa s1"
    using bound lt by (fastforce simp: s1_def)
  ultimately show "boot_wf lim s1"
    using wf1 wf(2) pool assms(1) z by (auto simp: boot_wf_def tb)
qed

lemma table_byte:
  assumes "boot_wf lim s" "is_table s t" "outside lim s a"
  shows "drop_bit 12 a \<noteq> drop_bit 12 t"
proof -
  have "pt_wf 0 s" "mem_pgtbl_base s \<le> t" "t < lim"
    using assms(1,2) by (auto simp: boot_wf_def intro: less_le_trans)
  then show ?thesis
    using is_table_frame [OF _ assms(2)] page_frame_aligned assms(3) by (auto simp: outside_def)
qed

lemma boot_link:
  assumes wf: "boot_wf lim s" and t: "walk s va i = Some t" "i < 3" "walk s va (Suc i) = None"
    and room: "unat (mem_next_pa s) + 4096 \<le> unat lim"
  defines "np \<equiv> mem_next_pa s"
  defines "s2 \<equiv> wr64 (slot t va i) (np OR PTE_TABLE) (s\<lparr>mem_next_pa := np + 0x1000\<rparr>)"
  shows "boot_grows lim 1 s s2" "walk s2 va (Suc i) = Some np" "walk s2 v 4 = walk s v 4" "(np OR PTE_TABLE) AND NOT 0xFFF = np"
proof -
  let ?s1 = "s\<lparr>mem_next_pa := np + 0x1000\<rparr>" and ?d = "np OR PTE_TABLE"
  note ab = alloc_boot [OF wf room, folded np_def]
  have wk: "walk ?s1 v j = walk s v j" for v j by simp
  have t1: "walk ?s1 va i = Some t" "walk ?s1 va (Suc i) = None" using t by simp_all
  have d: "?d AND 1 \<noteq> 0" "?d AND DESC_ADDR = np" using link_desc [OF ab(2), of 0] by simp_all
  note lw = link_walk [OF ab(1) t1(1) t(2) t1(2) ab(2-4) d, folded s2_def]
  note lt = link_table [OF ab(1) t1(1) t(2) t1(2) ab(2-4) d, folded s2_def]
  have tt: "is_table ?s1 t" using t1(1) t(2) by (auto intro: is_tableI)
  show addr: "?d AND NOT 0xFFF = np"
  proof -
    have "PTE_TABLE AND NOT 0xFFF = 0" by (simp add: PTE_TABLE_def)
    then show ?thesis using frame_not_FFF [OF ab(2)] by (simp add: bit.conj_disj_distrib2)
  qed
  show "walk s2 va (Suc i) = Some np" using lw [of "Suc i" va] t(2) by simp
  show "walk s2 v 4 = walk s v 4" using lt(2) [of v] wk by simp
  have "pt_wf 0 s2" using link_wf [OF ab(1) t1(1) t(2) t1(2) ab(2-4) d] by (simp add: s2_def in_pool_def)
  moreover have next2: "mem_next_pa s2 = mem_next_pa ?s1" "mem_pgtbl_base s2 = mem_pgtbl_base s" "mem_heap_pool s2 = mem_heap_pool s"
    by (simp_all add: s2_def)
  moreover have "clean_tables s2"
    unfolding clean_tables_def
  proof (intro allI impI)
    fix v j q assume h: "j < 3" "walk s2 v j = Some q" "rd64 s2 (slot q v j) AND 1 \<noteq> 0"
    have al: "aligned 12 t" using is_table_frame [OF ab(1) tt] page_frame_aligned by blast
    show "rd64 s2 (slot q v j) AND NOT 0xFFF = rd64 s2 (slot q v j) AND DESC_ADDR"
    proof (cases "q = np")
      case True
      have "np \<noteq> t" using ab(4) tt by blast
      then have "zero_page s2 np" using zero_page_wr64 [OF ab(1) tt ab(2)] ab(3) by (simp add: s2_def)
      then show ?thesis using True h(3) by (simp add: zero_page_def)
    next
      case False
      then have old: "walk s v j = Some q" using lw [of j v] h(1,2) wk by (auto split: if_splits)
      then have "aligned 12 q"
        using is_tableI [of ?s1 v j q] h(1) wk is_table_frame [OF ab(1)] page_frame_aligned by simp
      show ?thesis
      proof (cases "slot q v j = slot t va i")
        case True
        then show ?thesis using addr d(2) by (simp add: s2_def)
      next
        case F: False
        then have "rd64 s2 (slot q v j) = rd64 s (slot q v j)"
          using rd64_wr64_other [OF slot_aligned [OF al] slot_aligned [OF \<open>aligned 12 q\<close>], of va i v j ?d ?s1]
          by (simp add: s2_def) (simp add: rd64_def)
        then show ?thesis using wf h old unfolding boot_wf_def clean_tables_def by metis
      qed
    qed
  qed
  moreover have "zero_page s2 p" if "in_pool lim s2 p" for p
  proof -
    have p: "in_pool lim ?s1 p" using that by (simp add: s2_def)
    then have "zero_page ?s1 p" "page_frame p"
      using ab(7) frame_below [of p lim] by (auto simp: boot_wf_def in_pool_def)
    moreover have "p \<noteq> t" using ab(7) tt p by (auto simp: boot_wf_def in_pool_def)
    ultimately show ?thesis using zero_page_wr64 [OF ab(1) tt] by (simp add: s2_def)
  qed
  moreover have "mem_pgtbl_base s2 \<le> x \<and> x < mem_next_pa s2" if "is_table s2 x" for x
  proof -
    have b: "is_table ?s1 x \<Longrightarrow> mem_pgtbl_base s \<le> x \<and> x < mem_next_pa ?s1" for x using ab(7) by (simp add: boot_wf_def)
    have "np < mem_next_pa ?s1" using ab(6) by (simp add: word_less_nat_alt np_def)
    moreover have "mem_pgtbl_base s \<le> np"
      using wf t(1,2) is_tableI [of s va i t] unfolding boot_wf_def np_def by (meson le_less_trans less_imp_le)
    ultimately show ?thesis using lt(1) [of x] that b next2 by auto
  qed
  moreover have "walk s2 v j = Some y" if "j \<le> 3" "walk s v j = Some y" for v j y
  proof -
    have "\<not> (same_path (Suc i) va v \<and> i < j)"
    proof
      assume "same_path (Suc i) va v \<and> i < j"
      then have "walk s v (Suc i) = None" using t(3) tbl_path by metis
      then show False using walk_None_mono [of s v "Suc i" j] that \<open>_ \<and> i < j\<close> by simp
    qed
    then show ?thesis using lw [of j v] that wk by (simp only: if_False)
  qed
  moreover have "is_table s x \<or> np \<le> x" if "is_table s2 x" for x
    using lt(1) [of x] that by (auto simp: is_table_def wk)
  moreover have "mem_bytes s2 a = mem_bytes s a" if "outside lim s a" for a
    using table_byte [OF wf _ that, of t] t(1,2) is_tableI [of s va i t]
      wr64_slot_other [OF page_frame_aligned [OF is_table_frame [OF ab(1) tt]]] by (simp add: s2_def)
  ultimately show "boot_grows lim 1 s s2"
    using ab(6,7) unfolding boot_grows_def by (auto simp: boot_wf_def np_def word_le_nat_alt)
qed

section \<open>One page\<close>

lemma boot_leaf:
  fixes d
  assumes wf: "boot_wf lim s" and u: "walk s va 3 = Some u"
  defines "s' \<equiv> wr64 (slot u va 3) d s"
  shows "boot_grows lim 0 s s'" "j \<le> 3 \<Longrightarrow> walk s' v j = walk s v j" "\<not> same_path 4 va v \<Longrightarrow> walk s' v 4 = walk s v 4"
    "d AND 1 \<noteq> 0 \<Longrightarrow> walk s' va 4 = Some (d AND DESC_ADDR)" "mem_next_pa s' = mem_next_pa s"
    "data_byte 0 s a \<Longrightarrow> mem_bytes s' a = mem_bytes s a"
proof -
  have wf0: "pt_wf 0 s" using wf by (simp add: boot_wf_def)
  note lw = leaf_walk [OF wf0 u, where d = d, folded s'_def] and lf = leaf_wf [OF wf0 u, of d, folded s'_def]
  show keep: "j \<le> 3 \<Longrightarrow> walk s' v j = walk s v j" for j v by (rule lw(1))
  show "\<not> same_path 4 va v \<Longrightarrow> walk s' v 4 = walk s v 4" by (rule lw(2))
  show "d AND 1 \<noteq> 0 \<Longrightarrow> walk s' va 4 = Some (d AND DESC_ADDR)" using lw(3) [of va] by simp
  have uu: "is_table s u" using u by (auto intro: is_tableI)
  have next': "mem_next_pa s' = mem_next_pa s" "mem_pgtbl_base s' = mem_pgtbl_base s" "mem_heap_pool s' = mem_heap_pool s"
    by (simp_all add: s'_def)
  show "mem_next_pa s' = mem_next_pa s" by (rule next'(1))
  have "clean_tables s'"
    unfolding clean_tables_def
  proof (intro allI impI)
    fix v i t assume h: "i < 3" "walk s' v i = Some t" "rd64 s' (slot t v i) AND 1 \<noteq> 0"
    then have t: "walk s v i = Some t" using keep [of i v] by simp
    have "t \<noteq> u"
    proof
      assume "t = u"
      then have "i = 3" using wf0 t u h(1) unfolding pt_wf0 tree_tables_def by (metis less_imp_le order_refl)
      then show False using h(1) by simp
    qed
    moreover have "page_frame t" using is_table_frame [OF wf0 is_tableI [OF t]] h(1) by simp
    ultimately have "rd64 s' (slot t v i) = rd64 s (slot t v i)" using pool_slot_other [OF wf0 uu] by (simp add: s'_def)
    then show "rd64 s' (slot t v i) AND NOT 0xFFF = rd64 s' (slot t v i) AND DESC_ADDR"
      using wf h t unfolding boot_wf_def clean_tables_def by metis
  qed
  moreover have "zero_page s' p" if "in_pool lim s' p" for p
  proof -
    have p: "in_pool lim s p" using that by (simp add: s'_def)
    then have "zero_page s p" "page_frame p"
      using wf frame_below [of p lim] by (auto simp: boot_wf_def in_pool_def)
    moreover have "p \<noteq> u" using wf uu p by (auto simp: boot_wf_def in_pool_def)
    ultimately show ?thesis using zero_page_wr64 [OF wf0 uu] by (simp add: s'_def)
  qed
  moreover have "mem_bytes s' a = mem_bytes s a" if "outside lim s a" for a
    using table_byte [OF wf uu that] wr64_slot_other [OF page_frame_aligned [OF is_table_frame [OF wf0 uu]]] by (simp add: s'_def)
  ultimately show "boot_grows lim 0 s s'"
    using wf lf keep next' by (auto simp: boot_grows_def boot_wf_def)
  show "data_byte 0 s a \<Longrightarrow> mem_bytes s' a = mem_bytes s a" using leaf_data(2) [OF wf0 u] by (simp add: s'_def)
qed

lemma map_loop_grows:
  assumes "i \<le> 3" "boot_wf lim s" "walk s va i = Some t" "x12 AND NOT 0xFFF = t"
    and "walk s va 3 = None \<Longrightarrow> unat (mem_next_pa s) + (3 - i) * 4096 \<le> unat lim"
  shows "\<exists>s1 u. map_loop (Suc (3 - i)) (39 - 9 * i) va pgprop pa x12 s = wr64 (slot u va 3) (pgprop OR pa) s1 \<and>
     boot_grows lim (3 - i) s s1 \<and> walk s1 va 3 = Some u \<and> (\<forall>v. walk s1 v 4 = walk s v 4) \<and>
     (walk s va 3 \<noteq> None \<longrightarrow> mem_next_pa s1 = mem_next_pa s)"
  using assms
proof (induction "3 - i" arbitrary: i t x12 s)
  case 0
  then have i: "i = 3" by simp
  then have "map_loop (Suc (3 - i)) (39 - 9 * i) va pgprop pa x12 s = wr64 (slot t va 3) (pgprop OR pa) s"
    using boot_pte_slot [OF 0(5), of va 3] by simp
  then show ?case using 0 i boot_grows_refl by (intro exI [of _ s] exI [of _ t]) (simp del: tbl.simps map_loop.simps)
next
  case (Suc n)
  then have i: "i < 3" and n: "n = 3 - Suc i" "3 - i = Suc n" by auto
  let ?x = "39 - 9 * i"
  have x: "?x - 9 = 39 - 9 * Suc i" by simp
  have pte: "boot_pte va ?x x12 = slot t va i" by (rule boot_pte_slot [OF Suc.prems(4)])
  show ?case
  proof (cases "walk s va (Suc i)")
    case (Some t')
    then have v: "rd64 s (slot t va i) AND 1 \<noteq> 0" "t' = rd64 s (slot t va i) AND DESC_ADDR"
      using Suc.prems(3) by (auto simp: Let_def rd64_def split: if_splits)
    have c: "rd64 s (slot t va i) AND NOT 0xFFF = t'"
      using Suc.prems(2,3) i v unfolding boot_wf_def clean_tables_def by blast
    have step: "map_loop (Suc (3 - i)) ?x va pgprop pa x12 s =
        map_loop (Suc (3 - Suc i)) (39 - 9 * Suc i) va pgprop pa (rd64 s (slot t va i)) s"
      using v(1) n pte by (simp add: Let_def x)
    have room: "walk s va 3 = None \<Longrightarrow> unat (mem_next_pa s) + (3 - Suc i) * 4096 \<le> unat lim" using Suc.prems(5) n by simp
    obtain s1 u where "map_loop (Suc (3 - Suc i)) (39 - 9 * Suc i) va pgprop pa (rd64 s (slot t va i)) s = wr64 (slot u va 3) (pgprop OR pa) s1"
      "boot_grows lim (3 - Suc i) s s1" "walk s1 va 3 = Some u" "\<forall>v. walk s1 v 4 = walk s v 4"
      "walk s va 3 \<noteq> None \<longrightarrow> mem_next_pa s1 = mem_next_pa s"
      using Suc.hyps(1) [OF n(1) _ Suc.prems(2) Some c room] i by auto
    then show ?thesis
      using step boot_grows_mono [of lim "3 - Suc i" s s1 "3 - i"] by (intro exI [of _ s1] exI [of _ u]) simp
  next
    case None
    then have n3: "walk s va 3 = None" using walk_None_mono [of s va "Suc i" 3] i by simp
    have inv: "rd64 s (slot t va i) AND 1 = 0"
      using Suc.prems(3) None by (auto simp: Let_def rd64_def split: if_splits)
    have room: "unat (mem_next_pa s) + 4096 \<le> unat lim" "unat (mem_next_pa s) + (3 - i) * 4096 \<le> unat lim"
      using Suc.prems(5) [OF n3] n by simp_all
    define np where "np = mem_next_pa s"
    define s2 where "s2 = wr64 (slot t va i) (np OR PTE_TABLE) (s\<lparr>mem_next_pa := np + 0x1000\<rparr>)"
    note bl = boot_link [OF Suc.prems(2,3) i None room(1), folded np_def, folded s2_def]
    have step: "map_loop (Suc (3 - i)) ?x va pgprop pa x12 s =
        map_loop (Suc (3 - Suc i)) (39 - 9 * Suc i) va pgprop pa (np OR PTE_TABLE) s2"
      using inv n pte by (simp add: Let_def x allocate_pa_def s2_def np_def)
    have wf2: "boot_wf lim s2" using bl(1) by (simp add: boot_grows_def)
    have nx: "unat (mem_next_pa s2) = unat (mem_next_pa s) + 4096"
      using alloc_boot(6) [OF Suc.prems(2) room(1)] by (simp add: s2_def np_def)
    have "unat (mem_next_pa s2) + (3 - Suc i) * 4096 \<le> unat lim" using nx room(2) n by simp
    then obtain s1 u where r: "map_loop (Suc (3 - Suc i)) (39 - 9 * Suc i) va pgprop pa (np OR PTE_TABLE) s2 = wr64 (slot u va 3) (pgprop OR pa) s1"
      "boot_grows lim (3 - Suc i) s2 s1" "walk s1 va 3 = Some u" "\<forall>v. walk s1 v 4 = walk s2 v 4"
      using Suc.hyps(1) [OF n(1) _ wf2 bl(2,4)] i by auto
    have "boot_grows lim (3 - i) s s1" using boot_grows_trans [OF bl(1) r(2)] n by simp
    then show ?thesis using step r bl(3) n3 by (intro exI [of _ s1] exI [of _ u]) simp
  qed
qed

text \<open>One mapping, and what it costs: nothing if the last table is there.\<close>

lemma map_va_to_pa_maps:
  fixes va pgprop pa
  assumes wf: "boot_wf lim s" and room: "walk s va 3 = None \<Longrightarrow> unat (mem_next_pa s) + 3 * 4096 \<le> unat lim"
  defines "s' \<equiv> map_va_to_pa va pgprop pa s" and "k \<equiv> if walk s va 3 = None then 3 else 0"
  shows "boot_grows lim k s s'" "walk s' va 3 \<noteq> None" "\<not> same_path 4 va v \<Longrightarrow> walk s' v 4 = walk s v 4"
    "(pgprop OR pa) AND 1 \<noteq> 0 \<Longrightarrow> walk s' va 4 = Some ((pgprop OR pa) AND DESC_ADDR)"
proof -
  have b: "mem_pgtbl_base s AND NOT 0xFFF = mem_pgtbl_base s"
    using wf by (intro frame_not_FFF) (simp add: boot_wf_def pt_wf0)
  have four: "Suc (3 - 0) = 4" "39 - 9 * 0 = (39 :: nat)" "3 - 0 = (3 :: nat)" by simp_all
  obtain s1 u where s1: "s' = wr64 (slot u va 3) (pgprop OR pa) s1" "boot_grows lim 3 s s1" "walk s1 va 3 = Some u"
    "\<forall>v. walk s1 v 4 = walk s v 4" "walk s va 3 \<noteq> None \<longrightarrow> mem_next_pa s1 = mem_next_pa s"
    using map_loop_grows [of 0 lim s va "mem_pgtbl_base s" "mem_pgtbl_base s" pgprop pa, unfolded four] wf room b
    unfolding s'_def map_va_to_pa_def by (auto simp del: map_loop.simps)
  have wf1: "boot_wf lim s1" using s1(2) by (simp add: boot_grows_def)
  note lf = boot_leaf [OF wf1 s1(3), where d = "pgprop OR pa", folded s1(1)]
  have "boot_grows lim k s s1"
    using s1(2,5) boot_grows_zero [OF s1(2)] by (simp add: k_def del: tbl.simps)
  then show "boot_grows lim k s s'" using boot_grows_trans [OF _ lf(1)] by fastforce
  show "walk s' va 3 \<noteq> None" using lf(2) [of 3 va] s1(3) by simp
  show "\<not> same_path 4 va v \<Longrightarrow> walk s' v 4 = walk s v 4" using lf(3) [of v] s1(4) by simp
  show "(pgprop OR pa) AND 1 \<noteq> 0 \<Longrightarrow> walk s' va 4 = Some ((pgprop OR pa) AND DESC_ADDR)" by (rule lf(4))
qed

definition desc_attr :: "u64 \<Rightarrow> bool" where
  "desc_attr g \<longleftrightarrow> g AND 1 \<noteq> 0 \<and> g AND DESC_ADDR = 0"

lemma desc_attr_or: "desc_attr g \<Longrightarrow> (g OR p) AND 1 \<noteq> 0" "desc_attr g \<Longrightarrow> (g OR p) AND DESC_ADDR = p AND DESC_ADDR"
proof -
  have odd: "x AND 1 \<noteq> 0 \<longleftrightarrow> bit x 0" for x :: u64 by (simp add: and_one_eq mod_2_eq_odd bit_0)
  show "desc_attr g \<Longrightarrow> (g OR p) AND 1 \<noteq> 0" unfolding desc_attr_def odd bit_or_iff by blast
  show "desc_attr g \<Longrightarrow> (g OR p) AND DESC_ADDR = p AND DESC_ADDR" by (simp add: desc_attr_def bit.conj_disj_distrib2)
qed

lemma boot_map_pa_maps:
  assumes "boot_wf lim s" "walk s a 3 = None \<Longrightarrow> unat (mem_next_pa s) + 3 * 4096 \<le> unat lim" "desc_attr g"
  shows "boot_grows lim (if walk s a 3 = None then 3 else 0) s (boot_map_pa a g s)" "walk (boot_map_pa a g s) a 3 \<noteq> None"
    "\<not> same_path 4 a v \<Longrightarrow> walk (boot_map_pa a g s) v 4 = walk s v 4" "walk (boot_map_pa a g s) a 4 = Some (a AND DESC_ADDR)"
  using map_va_to_pa_maps [OF assms(1,2), where pgprop = g and pa = a] desc_attr_or [OF assms(3), of a]
  by (simp_all add: boot_map_pa_def del: tbl.simps)

lemma boot_map_va_maps:
  fixes a g
  assumes wf: "boot_wf lim s" and room: "unat (mem_next_pa s) + (if walk s a 3 = None then 4 else 1) * 4096 \<le> unat lim" and g: "desc_attr g"
  defines "s' \<equiv> boot_map_va a g s"
  shows "boot_grows lim (if walk s a 3 = None then 4 else 1) s s'" "walk s' a 3 \<noteq> None"
    "\<not> same_path 4 a v \<Longrightarrow> walk s' v 4 = walk s v 4" "walk s' a 4 = Some (mem_next_pa s)" "mem_next_pa s < mem_next_pa s'"
    "\<not> is_table s' (mem_next_pa s)"
proof -
  define s1 where "s1 = s\<lparr>mem_next_pa := mem_next_pa s + 0x1000\<rparr>"
  have r1: "unat (mem_next_pa s) + 4096 \<le> unat lim" using room by (simp split: if_splits)
  note ab = alloc_boot [OF wf r1, folded s1_def]
  have wk: "walk s1 v j = walk s v j" for v j by (simp add: s1_def)
  have g1: "boot_grows lim 1 s s1"
    using ab(6,7) wk by (auto simp: boot_grows_def is_table_def s1_def word_le_nat_alt simp del: tbl.simps)
  have e: "s' = map_va_to_pa a g (mem_next_pa s) s1"
    by (simp add: s'_def boot_map_va_def allocate_pa_def s1_def)
  have "walk s1 a 3 = None \<Longrightarrow> unat (mem_next_pa s1) + 3 * 4096 \<le> unat lim" using room ab(6) wk by simp
  note mp = map_va_to_pa_maps [where va = a, OF ab(7) this, where pgprop = g and pa = "mem_next_pa s", folded e, unfolded wk]
  show "boot_grows lim (if walk s a 3 = None then 4 else 1) s s'"
    using boot_grows_trans [OF g1 mp(1)] by (cases "walk s a 3 = None") (simp_all del: tbl.simps not_None_eq)
  have "mem_next_pa s < mem_next_pa s1" using ab(6) by (simp add: word_less_nat_alt)
  then show "\<not> is_table s' (mem_next_pa s)" using mp(1) ab(4) unfolding boot_grows_def by auto
  show "walk s' a 3 \<noteq> None" by (rule mp(2))
  show "mem_next_pa s < mem_next_pa s'" using mp(1) ab(6) by (auto simp: boot_grows_def word_le_nat_alt word_less_nat_alt)
  show "\<not> same_path 4 a v \<Longrightarrow> walk s' v 4 = walk s v 4" by (rule mp(3))
  show "walk s' a 4 = Some (mem_next_pa s)"
    using mp(4) desc_attr_or [OF g, of "mem_next_pa s"] ab(2) by (simp add: page_frame_def)
qed

section \<open>Ranges\<close>

text \<open>The loops run over pages.\<close>

fun pages :: "(u64 \<Rightarrow> mm \<Rightarrow> mm) \<Rightarrow> u64 \<Rightarrow> nat \<Rightarrow> mm \<Rightarrow> mm" where
  "pages f a 0 s = s"
| "pages f a (Suc n) s = pages f (a + 0x1000) n (f a s)"

lemma page_count: "n < 2 ^ 52 \<Longrightarrow> unat (push_bit 12 (of_nat n) :: u64) = n * 4096"
proof -
  assume "n < 2 ^ 52"
  then have "n * 4096 < 2 ^ 64" by simp
  then have "unat (of_nat (n * 4096) :: u64) = n * 4096" by (rule unat_of_nat_u64)
  moreover have "push_bit 12 (of_nat n) = (of_nat (n * 4096) :: u64)" by (simp add: push_bit_eq_mult)
  ultimately show ?thesis by (simp only:)
qed

lemma page_count_0: "n < 2 ^ 52 \<Longrightarrow> (push_bit 12 (of_nat n) :: u64) = 0 \<longleftrightarrow> n = 0"
  using page_count [of n] by (auto simp: unat_eq_0 [symmetric])

lemma page_count_Suc: "(push_bit 12 (of_nat (Suc n)) :: u64) - 0x1000 = push_bit 12 (of_nat n)"
  by (simp add: push_bit_eq_mult algebra_simps)

lemma map_pa_loop_pages: "n < 2 ^ 52 \<Longrightarrow> map_pa_loop a g (push_bit 12 (of_nat n)) s = Some (pages (\<lambda>a. boot_map_pa a g) a n s)"
proof (induction n arbitrary: a s)
  case 0
  then show ?case by (subst map_pa_loop.simps) simp
next
  case (Suc n)
  then show ?case
    using page_count_0 [of "Suc n"] page_count_Suc [of n] by (subst map_pa_loop.simps) simp
qed

lemma map_va_loop_pages: "n < 2 ^ 52 \<Longrightarrow> map_va_loop a g (push_bit 12 (of_nat n)) s = Some (pages (\<lambda>a. boot_map_va a g) a n s)"
proof (induction n arbitrary: a s)
  case 0
  then show ?case by (subst map_va_loop.simps) simp
next
  case (Suc n)
  then show ?case
    using page_count_0 [of "Suc n"] page_count_Suc [of n] by (subst map_va_loop.simps) simp
qed

lemma unmap_va_loop_pages: "n < 2 ^ 52 \<Longrightarrow> unmap_va_loop a (push_bit 12 (of_nat n)) s = Some (pages boot_unmap_va a n s)"
proof (induction n arbitrary: a s)
  case 0
  then show ?case by (subst unmap_va_loop.simps) simp
next
  case (Suc n)
  then show ?case
    using page_count_0 [of "Suc n"] page_count_Suc [of n] by (subst unmap_va_loop.simps) simp
qed

definition page_num :: "u64 \<Rightarrow> nat" where
  "page_num len = (unat len + 4095) div 4096"

lemma round_up_pages:
  assumes "unat len + 4095 < 2 ^ 64"
  shows "(len + 0xFFF) AND NOT 0xFFF = push_bit 12 (of_nat (page_num len))" "page_num len < 2 ^ 52"
proof -
  show n: "page_num len < 2 ^ 52" using assms by (simp add: page_num_def)
  show "(len + 0xFFF) AND NOT 0xFFF = push_bit 12 (of_nat (page_num len))"
    using round_up_page [OF assms] page_count [OF n] by (simp add: word_unat_eq_iff PAGE_SIZE_def page_num_def)
qed

lemma map_ranges:
  assumes "unat len + 4095 < 2 ^ 64"
  shows "map_pa_range a g len s = Some (pages (\<lambda>a. boot_map_pa a g) a (page_num len) s)"
    "map_va_range a g len s = Some (pages (\<lambda>a. boot_map_va a g) a (page_num len) s)"
    "unmap_va_range a len s = Some (pages boot_unmap_va a (page_num len) s)"
  using round_up_pages [OF assms] map_pa_loop_pages map_va_loop_pages unmap_va_loop_pages
  by (simp_all add: map_pa_range_def map_va_range_def unmap_va_range_def)


section \<open>Page numbers\<close>

text \<open>The part of an address that the walk looks at, as a number.\<close>

definition vpn :: "u64 \<Rightarrow> nat" where
  "vpn a = unat a div 4096 mod 2 ^ 36"

lemma same_path_take_bit: "j \<le> 4 \<Longrightarrow> same_path j a b \<longleftrightarrow> take_bit (9 * j) (drop_bit (48 - 9 * j) a) = take_bit (9 * j) (drop_bit (48 - 9 * j) b)"
proof
  assume j: "j \<le> 4" and p: "same_path j a b"
  show "take_bit (9 * j) (drop_bit (48 - 9 * j) a) = take_bit (9 * j) (drop_bit (48 - 9 * j) b)"
  proof (rule bit_word_eqI)
    fix n assume "n < LENGTH(64)"
    define k where "k = j - 1 - n div 9"
    have "bit a (48 - 9 * j + n) = bit b (48 - 9 * j + n)" if n: "n < 9 * j"
    proof -
      have q: "n div 9 < j" using n by (simp add: less_mult_imp_div_less mult.commute)
      then have k: "k < j" and "9 * k + 9 * (n div 9) + 9 = 9 * j" by (simp_all add: k_def)
      then have e: "48 - 9 * j + n = 39 - k * 9 + n mod 9" using j div_mult_mod_eq [of n 9] by linarith
      have "pt_index a k = pt_index b k" using p k by (simp add: same_path_def)
      then have "bit (pt_index a k) (n mod 9) = bit (pt_index b k) (n mod 9)" by simp
      then show ?thesis unfolding bit_pt_index e by simp
    qed
    then show "bit (take_bit (9 * j) (drop_bit (48 - 9 * j) a)) n = bit (take_bit (9 * j) (drop_bit (48 - 9 * j) b)) n"
      by (auto simp: bit_take_bit_iff bit_drop_bit_eq)
  qed
next
  assume j: "j \<le> 4" and e: "take_bit (9 * j) (drop_bit (48 - 9 * j) a) = take_bit (9 * j) (drop_bit (48 - 9 * j) b)"
  show "same_path j a b"
    unfolding same_path_def
  proof (intro allI impI)
    fix k assume k: "k < j"
    show "pt_index a k = pt_index b k"
    proof (rule bit_word_eqI)
      fix r assume "r < LENGTH(64)"
      have "bit a (39 - k * 9 + r) = bit b (39 - k * 9 + r)" if "r < 9"
      proof -
        define n where "n = 9 * (j - 1 - k) + r"
        have n: "n < 9 * j" "48 - 9 * j + n = 39 - k * 9 + r" using k j that by (auto simp: n_def)
        have "bit (take_bit (9 * j) (drop_bit (48 - 9 * j) a)) n = bit (take_bit (9 * j) (drop_bit (48 - 9 * j) b)) n" using e by simp
        then show ?thesis using n by (simp add: bit_take_bit_iff bit_drop_bit_eq)
      qed
      then show "bit (pt_index a k) r = bit (pt_index b k) r" by (auto simp: bit_pt_index)
    qed
  qed
qed

lemma unat_field: "unat (take_bit m (drop_bit l (a :: u64))) = unat a div 2 ^ l mod 2 ^ m"
proof -
  have "unat (take_bit m (drop_bit l a)) = take_bit m (drop_bit l (take_bit 64 (unat a)))"
    by (simp only: unsigned_take_bit_eq unsigned_drop_bit_eq) simp
  moreover have "take_bit 64 (unat a) = unat a" using unat_less_u64 [of a] by (simp add: take_bit_nat_eq_self)
  ultimately show ?thesis by (simp only: take_bit_eq_mod drop_bit_eq_div)
qed

lemma vpn_path4: "same_path 4 a b \<longleftrightarrow> vpn a = vpn b"
  using unat_field [of 36 12] by (simp add: same_path_take_bit vpn_def word_unat_eq_iff)

lemma vpn_path3: "same_path 3 a b \<longleftrightarrow> vpn a div 512 = vpn b div 512"
proof -
  have "vpn v div 512 = unat v div 2 ^ 21 mod 2 ^ 27" for v
  proof -
    have "vpn v div 512 = drop_bit 9 (take_bit 36 (drop_bit 12 (unat v)))" by (simp add: vpn_def take_bit_eq_mod drop_bit_eq_div)
    also have "\<dots> = take_bit 27 (drop_bit 21 (unat v))" by (simp add: drop_bit_take_bit)
    finally show ?thesis by (simp add: take_bit_eq_mod drop_bit_eq_div)
  qed
  then show ?thesis using unat_field [of 27 21] by (simp add: same_path_take_bit word_unat_eq_iff)
qed

definition low_page :: "u64 \<Rightarrow> bool" where
  "low_page a \<longleftrightarrow> aligned 12 a \<and> unat a < 2 ^ 48"

lemma low_vpn: "unat a < 2 ^ 48 \<Longrightarrow> vpn a = unat a div 4096"
  by (simp add: vpn_def)

lemma low_page_next:
  assumes "low_page a" "vpn a + n < 2 ^ 36"
  shows "vpn (nth_page a n) = vpn a + n" "low_page (nth_page a n)" "unat (nth_page a n) = unat a + n * 4096"
proof -
  have a: "unat a < 2 ^ 48" "aligned 12 a" using assms(1) by (auto simp: low_page_def)
  have v: "vpn a = unat a div 4096" using low_vpn a by simp
  have "unat a mod 4096 = unat (take_bit 12 (drop_bit 0 a))" unfolding unat_field by simp
  then have "4096 dvd unat a" using a(2) by (simp add: aligned_def mod_eq_0_iff_dvd)
  then have u: "unat a = vpn a * 4096" using v by simp
  have n: "n < 2 ^ 52" using assms(2) by simp
  show s: "unat (nth_page a n) = unat a + n * 4096"
    using assms(2) u page_count [OF n] by (subst unat_add_small) simp_all
  have "unat (nth_page a n) = (vpn a + n) * 4096" using s u by (simp add: algebra_simps)
  moreover from this have l: "unat (nth_page a n) < 2 ^ 48" using assms(2) by simp
  ultimately show "vpn (nth_page a n) = vpn a + n" using low_vpn [OF l] by simp
  have "aligned 12 (nth_page a n)" using a(2) by (intro aligned_add) (simp_all add: aligned_def take_bit_push_bit)
  then show "low_page (nth_page a n)" using l by (simp add: low_page_def)
qed


section \<open>Copies\<close>

lemma storen_loadn: "n \<le> 8 \<Longrightarrow> storen n a (loadn n m b) m' = write_bytes a (bytes_at m b n) m'"
proof (induction n arbitrary: a b)
  case 0
  then show ?case by simp
next
  case (Suc n)
  have "drop_bit 8 (loadn (Suc n) m b) = loadn n m (b + 1)"
  proof (rule bit_word_eqI)
    fix k assume "k < LENGTH(64)"
    have "bit (loadn n m (b + 1)) k \<Longrightarrow> k < 56" using loadn_bits [of n m "b + 1" k] Suc.prems by simp
    then show "bit (drop_bit 8 (loadn (Suc n) m b)) k = bit (loadn n m (b + 1)) k"
      by (auto simp: bit_simps dest: bit_imp_le_length)
  qed
  moreover have "(ucast (loadn (Suc n) m b) :: u8) = m b"
    by (rule bit_word_eqI) (auto simp: bit_simps)
  moreover have "\<not> within (a + 1) n a" using Suc.prems by (simp add: within_def unsigned_minus_1_eq_mask mask_eq_exp_minus_1)
  ultimately show ?case using Suc.IH [of "a + 1" "b + 1"] Suc.prems write_bytes_commute [of "a + 1" "bytes_at m (b + 1) n" a]
    by (simp add: bytes_at_Suc del: loadn.simps)
qed

lemma bytes_at_add: "bytes_at m a (i + j) = bytes_at m a i @ bytes_at m (a + of_nat i) j"
  by (induction i arbitrary: a) (simp_all add: bytes_at_Suc algebra_simps)

lemma within_split: "within a (i + j) x \<longleftrightarrow> within a i x \<or> within (a + of_nat i) j x"
proof -
  have "(\<exists>k<i + j. P k) \<longleftrightarrow> (\<exists>k<i. P k) \<or> (\<exists>k<j. P (i + k))" for P :: "nat \<Rightarrow> bool"
  proof
    assume "\<exists>k<i + j. P k"
    then obtain k where k: "k < i + j" "P k" by blast
    show "(\<exists>k<i. P k) \<or> (\<exists>k<j. P (i + k))"
    proof (cases "k < i")
      case False
      then have "k - i < j" "i + (k - i) = k" using k(1) by linarith+
      then show ?thesis using k(2) by metis
    qed (use k in blast)
  next
    assume "(\<exists>k<i. P k) \<or> (\<exists>k<j. P (i + k))"
    then show "\<exists>k<i + j. P k" by (meson add_less_cancel_left trans_less_add1)
  qed
  then show ?thesis by (simp add: within_iff add.assoc)
qed

end
