(* ===== verification/BootMaps.thy ===== *)
theory BootMaps
  imports BootProofs
begin

text \<open>
  Ranges of pages, and the whole boot sequence. A range that lies in the two megabytes of one
  last-level table costs at most three tables.
\<close>

section \<open>Ranges\<close>

definition boot_step :: "u64 \<Rightarrow> nat \<Rightarrow> nat set \<Rightarrow> mm \<Rightarrow> mm \<Rightarrow> bool" where
  "boot_step lim k K s s' \<longleftrightarrow> boot_grows lim k s s' \<and> (\<forall>v. vpn v \<notin> K \<longrightarrow> walk s' v 4 = walk s v 4)"

lemma boot_step_refl: "boot_wf lim s \<Longrightarrow> boot_step lim 0 K s s"
  by (simp add: boot_step_def boot_grows_refl)

lemma boot_step_trans:
  "boot_step lim k K s s' \<Longrightarrow> boot_step lim l L s' s'' \<Longrightarrow> k + l \<le> m \<Longrightarrow> K \<union> L \<subseteq> M \<Longrightarrow> boot_step lim m M s s''"
  unfolding boot_step_def using boot_grows_trans boot_grows_mono by (metis Un_iff subsetD)

lemma boot_step_facts:
  assumes "boot_step lim k K s s'"
  shows "boot_wf lim s'" "mem_next_pa s \<le> mem_next_pa s'" "unat (mem_next_pa s') \<le> unat (mem_next_pa s) + k * 4096"
    "mem_pgtbl_base s' = mem_pgtbl_base s" "mem_heap_pool s' = mem_heap_pool s"
    "vpn v \<notin> K \<Longrightarrow> walk s' v 4 = walk s v 4" "walk s v 3 \<noteq> None \<Longrightarrow> walk s' v 3 \<noteq> None"
    "is_table s' t \<Longrightarrow> is_table s t \<or> mem_next_pa s \<le> t" "outside lim s a \<Longrightarrow> mem_bytes s' a = mem_bytes s a"
proof -
  have g: "boot_grows lim k s s'" using assms by (simp add: boot_step_def)
  show "is_table s' t \<Longrightarrow> is_table s t \<or> mem_next_pa s \<le> t" "outside lim s a \<Longrightarrow> mem_bytes s' a = mem_bytes s a"
    using boot_growsD(7,8) [OF g] by blast+
  show "walk s v 3 \<noteq> None \<Longrightarrow> walk s' v 3 \<noteq> None"
    using assms unfolding boot_step_def boot_grows_def by (metis order_refl option.exhaust option.distinct(1))
  show "vpn v \<notin> K \<Longrightarrow> walk s' v 4 = walk s v 4" using assms unfolding boot_step_def by blast
qed (use assms in \<open>simp_all add: boot_step_def boot_grows_def\<close>)

definition in_region :: "u64 \<Rightarrow> nat \<Rightarrow> bool" where
  "in_region a n \<longleftrightarrow> low_page a \<and> vpn a mod 512 + n \<le> 512"

lemma region_page:
  assumes "in_region a n" "i < n"
  shows "vpn (nth_page a i) = vpn a + i" "low_page (nth_page a i)" "same_path 3 a (nth_page a i)"
    "unat (nth_page a i) = unat a + i * 4096"
proof -
  have "vpn a < 2 ^ 36" by (simp add: vpn_def)
  then have "vpn a div 512 * 512 + 512 \<le> 2 ^ 36" by (simp add: less_mult_imp_div_less Suc_leI)
  moreover have d: "vpn a + i = vpn a div 512 * 512 + (vpn a mod 512 + i)" by (simp flip: add.assoc)
  moreover have r: "vpn a mod 512 + i < 512" using assms by (simp add: in_region_def)
  ultimately have l: "vpn a + i < 2 ^ 36" by linarith
  have low: "low_page a" using assms(1) by (simp add: in_region_def)
  show v: "vpn (nth_page a i) = vpn a + i" "low_page (nth_page a i)" "unat (nth_page a i) = unat a + i * 4096"
    using low_page_next [OF low l] by simp_all
  have "(vpn a + i) div 512 = vpn a div 512" using d r by - (rule div_nat_eqI, linarith, unfold mult_Suc_right, linarith)
  then show "same_path 3 a (nth_page a i)" by (simp add: vpn_path3 v(1))
qed

lemma region_tail: "in_region a (Suc (Suc n)) \<Longrightarrow> in_region (a + 0x1000) (Suc n)"
proof -
  assume r: "in_region a (Suc (Suc n))"
  have e: "nth_page a 1 = a + 0x1000" by (simp add: push_bit_eq_mult)
  have "vpn (a + 0x1000) = vpn a + 1" "low_page (a + 0x1000)" using region_page [OF r, of 1] unfolding e by simp_all
  moreover have "(vpn a + 1) mod 512 = vpn a mod 512 + 1" using r by (simp add: in_region_def mod_Suc)
  ultimately show ?thesis using r by (simp add: in_region_def)
qed

abbreviation tables_for :: "mm \<Rightarrow> u64 \<Rightarrow> nat" where
  "tables_for s a \<equiv> (if walk s a 3 = None then 3 else 0)"

lemma boot_map_pa_step:
  assumes "boot_wf lim s" "unat (mem_next_pa s) + tables_for s a * 4096 \<le> unat lim" "desc_attr g"
  shows "boot_step lim (tables_for s a) {vpn a} s (boot_map_pa a g s)" "walk (boot_map_pa a g s) a 3 \<noteq> None"
    "walk (boot_map_pa a g s) a 4 = Some (a AND DESC_ADDR)"
proof -
  have r: "walk s a 3 = None \<Longrightarrow> unat (mem_next_pa s) + 3 * 4096 \<le> unat lim" using assms(2) by simp
  note m = boot_map_pa_maps [where a = a, OF assms(1) r assms(3)]
  show "boot_step lim (tables_for s a) {vpn a} s (boot_map_pa a g s)"
    using m(1,3) unfolding boot_step_def vpn_path4 by (metis singleton_iff)
  show "walk (boot_map_pa a g s) a 3 \<noteq> None" "walk (boot_map_pa a g s) a 4 = Some (a AND DESC_ADDR)" by (rule m(2), assumption) (rule m(4))
qed

lemma pages_pa:
  assumes "boot_wf lim s" "desc_attr g" "in_region a (Suc n)" "unat (mem_next_pa s) + tables_for s a * 4096 \<le> unat lim"
  defines "s' \<equiv> pages (\<lambda>a. boot_map_pa a g) a (Suc n) s"
  shows "boot_step lim (tables_for s a) {vpn a..vpn a + n} s s' \<and>
    (\<forall>i\<le>n. walk s' (nth_page a i) 4 = Some (nth_page a i AND DESC_ADDR))"
  using assms(1,3,4) unfolding s'_def
proof (induction n arbitrary: a s)
  case 0
  then show ?case using boot_map_pa_step [OF 0(1,3) assms(2)] by simp
next
  case (Suc n)
  let ?s1 = "boot_map_pa a g s" and ?b = "a + 0x1000"
  note st = boot_map_pa_step [OF Suc.prems(1,3) assms(2)]
  have e: "nth_page a 1 = ?b" by (simp add: push_bit_eq_mult)
  note rg = region_page [OF Suc.prems(2), of 1, unfolded e]
  have "walk ?s1 ?b 3 = walk ?s1 a 3" using tbl_path [OF rg(3)] by simp
  then have t: "tables_for ?s1 ?b = 0" using st(2) by simp
  have "unat (mem_next_pa ?s1) \<le> unat lim" using boot_step_facts(3) [OF st(1)] Suc.prems(3) by linarith
  then have room: "unat (mem_next_pa ?s1) + tables_for ?s1 ?b * 4096 \<le> unat lim" using t by simp
  note ih = Suc.IH [OF boot_step_facts(1) [OF st(1)] region_tail [OF Suc.prems(2)] room, unfolded t]
  let ?s' = "pages (\<lambda>a. boot_map_pa a g) ?b (Suc n) ?s1"
  have v: "vpn ?b = vpn a + 1" using rg(1) by simp
  have "boot_step lim (tables_for s a) {vpn a..vpn a + Suc n} s ?s'"
    by (rule boot_step_trans [OF st(1) conjunct1 [OF ih]]) (auto simp: v)
  moreover have "walk ?s' (nth_page a i) 4 = Some (nth_page a i AND DESC_ADDR)" if "i \<le> Suc n" for i
  proof (cases i)
    case 0
    have "walk ?s' a 4 = walk ?s1 a 4" by (rule boot_step_facts(6) [OF conjunct1 [OF ih]]) (simp add: v)
    then show ?thesis using st(3) 0 by simp
  next
    case (Suc j)
    then show ?thesis using ih that unfolding Suc nth_page_Suc PAGE_SIZE_def by simp
  qed
  ultimately show ?case by simp
qed


lemma boot_map_va_step:
  assumes "boot_wf lim s" "unat (mem_next_pa s) + Suc (tables_for s a) * 4096 \<le> unat lim" "desc_attr g"
  shows "boot_step lim (Suc (tables_for s a)) {vpn a} s (boot_map_va a g s)" "walk (boot_map_va a g s) a 3 \<noteq> None"
    "walk (boot_map_va a g s) a 4 = Some (mem_next_pa s)" "mem_next_pa s < mem_next_pa (boot_map_va a g s)"
    "\<not> is_table (boot_map_va a g s) (mem_next_pa s)"
proof -
  have e: "Suc (tables_for s a) = (if walk s a 3 = None then 4 else 1)" by simp
  note m = boot_map_va_maps [where a = a, OF assms(1) assms(2) [unfolded e] assms(3)]
  show "boot_step lim (Suc (tables_for s a)) {vpn a} s (boot_map_va a g s)"
    using m(1,3) unfolding boot_step_def vpn_path4 e by (metis singleton_iff)
  show "walk (boot_map_va a g s) a 3 \<noteq> None" "walk (boot_map_va a g s) a 4 = Some (mem_next_pa s)" by (rule m(2)) (rule m(4))
  show "mem_next_pa s < mem_next_pa (boot_map_va a g s)" by (rule m(5))
  show "\<not> is_table (boot_map_va a g s) (mem_next_pa s)" by (rule m(6))
qed

text \<open>The pages of a range in RAM get physical pages of their own, in order.\<close>

definition own_pages :: "u64 \<Rightarrow> u64 \<Rightarrow> mm \<Rightarrow> u64 \<Rightarrow> nat \<Rightarrow> (nat \<Rightarrow> u64) \<Rightarrow> bool" where
  "own_pages lo hi s a n q \<longleftrightarrow> (\<forall>i<n. walk s (nth_page a i) 4 = Some (q i) \<and> lo \<le> q i \<and> q i < hi \<and> \<not> is_table s (q i)) \<and>
     (\<forall>i j. i < j \<longrightarrow> j < n \<longrightarrow> q i < q j)"

lemma pages_va:
  assumes "boot_wf lim s" "desc_attr g" "in_region a (Suc n)" "unat (mem_next_pa s) + (Suc n + tables_for s a) * 4096 \<le> unat lim"
  defines "s' \<equiv> pages (\<lambda>a. boot_map_va a g) a (Suc n) s"
  shows "boot_step lim (Suc n + tables_for s a) {vpn a..vpn a + n} s s' \<and> (\<exists>q. own_pages (mem_next_pa s) (mem_next_pa s') s' a (Suc n) q)"
  using assms(1,3,4) unfolding s'_def
proof (induction n arbitrary: a s)
  case 0
  have "unat (mem_next_pa s) + Suc (tables_for s a) * 4096 \<le> unat lim" using 0(3) by simp
  from boot_map_va_step [OF 0(1) this assms(2)] show ?case
    by (intro conjI exI [of _ "\<lambda>_. mem_next_pa s"]) (simp_all add: own_pages_def)
next
  case (Suc n)
  let ?s1 = "boot_map_va a g s" and ?b = "a + 0x1000"
  have "unat (mem_next_pa s) + Suc (tables_for s a) * 4096 \<le> unat lim" using Suc.prems(3) by simp
  note st = boot_map_va_step [OF Suc.prems(1) this assms(2)]
  have e: "nth_page a 1 = ?b" by (simp add: push_bit_eq_mult)
  note rg = region_page [OF Suc.prems(2), of 1, unfolded e]
  have "walk ?s1 ?b 3 = walk ?s1 a 3" using tbl_path [OF rg(3)] by simp
  then have t: "tables_for ?s1 ?b = 0" using st(2) by simp
  have "unat (mem_next_pa ?s1) + Suc n * 4096 \<le> unat lim" using boot_step_facts(3) [OF st(1)] Suc.prems(3) by simp
  then have room: "unat (mem_next_pa ?s1) + (Suc n + tables_for ?s1 ?b) * 4096 \<le> unat lim" using t by simp
  let ?s' = "pages (\<lambda>a. boot_map_va a g) ?b (Suc n) ?s1"
  obtain q where ih: "boot_step lim (Suc n + 0) {vpn ?b..vpn ?b + n} ?s1 ?s'" "own_pages (mem_next_pa ?s1) (mem_next_pa ?s') ?s' ?b (Suc n) q"
    using Suc.IH [OF boot_step_facts(1) [OF st(1)] region_tail [OF Suc.prems(2)] room, unfolded t] by blast
  have v: "vpn ?b = vpn a + 1" using rg(1) by simp
  have "boot_step lim (Suc (Suc n) + tables_for s a) {vpn a..vpn a + Suc n} s ?s'"
    by (rule boot_step_trans [OF st(1) ih(1)]) (auto simp: v)
  moreover have "own_pages (mem_next_pa s) (mem_next_pa ?s') ?s' a (Suc (Suc n)) (case_nat (mem_next_pa s) q)"
    unfolding own_pages_def
  proof (intro conjI allI impI)
    have w: "walk ?s' a 4 = Some (mem_next_pa s)" using boot_step_facts(6) [OF ih(1), of a] st(3) by (simp add: v)
    have up: "mem_next_pa s < mem_next_pa ?s1" "mem_next_pa ?s1 \<le> mem_next_pa ?s'" using st(4) boot_step_facts(2) [OF ih(1)] by auto
    have nt: "\<not> is_table ?s' (mem_next_pa s)" using boot_step_facts(8) [OF ih(1)] st(4,5) by fastforce
    have o: "walk ?s' (nth_page a (Suc i)) 4 = Some (q i)" "mem_next_pa ?s1 \<le> q i" "q i < mem_next_pa ?s'" "\<not> is_table ?s' (q i)" if "i < Suc n" for i
      using ih(2) that unfolding own_pages_def nth_page_Suc PAGE_SIZE_def by blast+
    fix i assume "i < Suc (Suc n)"
    then show "walk ?s' (nth_page a i) 4 = Some (case_nat (mem_next_pa s) q i)"
      using w o(1) by (cases i) (simp_all del: of_nat_Suc)
    show "mem_next_pa s \<le> case_nat (mem_next_pa s) q i" "case_nat (mem_next_pa s) q i < mem_next_pa ?s'"
      using up o(2,3) [of "i - 1"] \<open>i < Suc (Suc n)\<close> by (auto split: nat.split)
    show "\<not> is_table ?s' (case_nat (mem_next_pa s) q i)" using nt o(4) [of "i - 1"] \<open>i < Suc (Suc n)\<close> by (auto split: nat.split)
  next
    fix i j assume ij: "i < j" "j < Suc (Suc n)"
    then obtain l where l: "j = Suc l" "l < Suc n" by (cases j) auto
    show "case_nat (mem_next_pa s) q i < case_nat (mem_next_pa s) q j"
    proof (cases i)
      case 0
      have "mem_next_pa ?s1 \<le> q l" using ih(2) l(2) by (simp add: own_pages_def)
      then show ?thesis using st(4) 0 l(1) by simp
    next
      case (Suc k)
      then show ?thesis using ih(2) ij l by (simp add: own_pages_def)
    qed
  qed
  ultimately show ?case by auto
qed


text \<open>The two routines for ranges, an empty range included.\<close>

lemma range_pa:
  assumes "boot_wf lim s" "desc_attr g" "in_region a (page_num len)" "unat (mem_next_pa s) + 3 * 4096 \<le> unat lim"
    "unat len + 4095 < 2 ^ 64"
  shows "\<exists>s'. map_pa_range a g len s = Some s' \<and> boot_step lim 3 {vpn a..<vpn a + page_num len} s s' \<and>
     (\<forall>i<page_num len. walk s' (nth_page a i) 4 = Some (nth_page a i AND DESC_ADDR))"
proof (cases "page_num len")
  case 0
  then show ?thesis
    using map_ranges(1) [OF assms(5)] boot_step_trans [OF boot_step_refl [OF assms(1)] boot_step_refl [OF assms(1)]] by simp
next
  case (Suc n)
  have room: "unat (mem_next_pa s) + tables_for s a * 4096 \<le> unat lim" using assms(4) by simp
  note st = pages_pa [OF assms(1,2) assms(3) [unfolded Suc] room]
  have "boot_step lim 3 {vpn a..<vpn a + Suc n} s (pages (\<lambda>a. boot_map_pa a g) a (Suc n) s)"
    by (rule boot_step_trans [OF boot_step_refl [OF assms(1)] conjunct1 [OF st]]) auto
  then show ?thesis using st map_ranges(1) [OF assms(5)] unfolding Suc less_Suc_eq_le by blast
qed

lemma range_va:
  assumes "boot_wf lim s" "desc_attr g" "in_region a (page_num len)" "unat (mem_next_pa s) + (3 + page_num len) * 4096 \<le> unat lim"
    "unat len + 4095 < 2 ^ 64"
  shows "\<exists>s' q. map_va_range a g len s = Some s' \<and> boot_step lim (3 + page_num len) {vpn a..<vpn a + page_num len} s s' \<and>
     own_pages (mem_next_pa s) (mem_next_pa s') s' a (page_num len) q"
proof (cases "page_num len")
  case 0
  then show ?thesis
    using map_ranges(2) [OF assms(5)] boot_step_trans [OF boot_step_refl [OF assms(1)] boot_step_refl [OF assms(1)]]
    by (simp add: own_pages_def)
next
  case (Suc n)
  have room: "unat (mem_next_pa s) + (Suc n + tables_for s a) * 4096 \<le> unat lim" using assms(4) Suc by simp
  let ?s' = "pages (\<lambda>a. boot_map_va a g) a (Suc n) s"
  obtain q where st: "boot_step lim (Suc n + tables_for s a) {vpn a..vpn a + n} s ?s'"
    "own_pages (mem_next_pa s) (mem_next_pa ?s') ?s' a (Suc n) q"
    using pages_va [OF assms(1,2) assms(3) [unfolded Suc] room] by blast
  have "boot_step lim (3 + Suc n) {vpn a..<vpn a + Suc n} s ?s'"
    by (rule boot_step_trans [OF boot_step_refl [OF assms(1)] st(1)]) auto
  then show ?thesis using st(2) map_ranges(2) [OF assms(5)] unfolding Suc by blast
qed

lemma one_pa:
  assumes "boot_wf lim s" "desc_attr g" "unat (mem_next_pa s) + 3 * 4096 \<le> unat lim"
  shows "boot_step lim 3 {vpn a} s (boot_map_pa a g s)" "walk (boot_map_pa a g s) a 4 = Some (a AND DESC_ADDR)"
proof -
  have room: "unat (mem_next_pa s) + tables_for s a * 4096 \<le> unat lim" using assms(3) by simp
  note st = boot_map_pa_step [OF assms(1) room assms(2)]
  show "boot_step lim 3 {vpn a} s (boot_map_pa a g s)"
    by (rule boot_step_trans [OF boot_step_refl [OF assms(1)] st(1)]) auto
  show "walk (boot_map_pa a g s) a 4 = Some (a AND DESC_ADDR)" by (rule st(3))
qed

lemma one_va:
  assumes "boot_wf lim s" "desc_attr g" "unat (mem_next_pa s) + 4 * 4096 \<le> unat lim"
  shows "boot_step lim 4 {vpn a} s (boot_map_va a g s)" "walk (boot_map_va a g s) a 4 = Some (mem_next_pa s)"
    "mem_next_pa s < mem_next_pa (boot_map_va a g s)"
proof -
  have room: "unat (mem_next_pa s) + Suc (tables_for s a) * 4096 \<le> unat lim" using assms(3) by simp
  note st = boot_map_va_step [OF assms(1) room assms(2)]
  show "boot_step lim 4 {vpn a} s (boot_map_va a g s)"
    by (rule boot_step_trans [OF boot_step_refl [OF assms(1)] st(1)]) auto
  show "walk (boot_map_va a g s) a 4 = Some (mem_next_pa s)" "mem_next_pa s < mem_next_pa (boot_map_va a g s)"
    by (rule st(3)) (rule st(4))
qed

section \<open>From reset to the invariant\<close>

text \<open>The empty tables, with the pool as RAM is after reset.\<close>

lemma boot_start:
  assumes b: "page_frame b" and lim: "lim \<le> 2 ^ 36" "unat b + 4096 \<le> unat lim" and z: "\<forall>p. aligned 12 p \<and> b \<le> p \<and> p < lim \<longrightarrow> zero_page s p"
  defines "s0 \<equiv> s\<lparr>mem_pgtbl_base := b, mem_next_pa := b + PAGE_SIZE\<rparr>"
  shows "boot_wf lim s0" "unat (mem_next_pa s0) = unat b + 4096" "walk s0 v 4 = None"
proof -
  have al: "aligned 12 b" using b by (rule page_frame_aligned)
  have u: "unat (b + PAGE_SIZE) = unat b + 4096"
    using lim(2) unat_less_u64 [of lim] by (simp add: PAGE_SIZE_def unat_add_small)
  then show n: "unat (mem_next_pa s0) = unat b + 4096" by (simp add: s0_def)
  have rd: "rd64 s0 a = rd64 s a" for a by (simp add: s0_def rd64_def)
  have lt: "b < lim" "b \<le> b + PAGE_SIZE" using lim(2) u by (auto simp: word_less_nat_alt word_le_nat_alt)
  have zb: "rd64 s0 (slot b v i) = 0" for v i using z al lt(1) rd by (simp add: zero_page_def)
  have w1: "walk s0 v (Suc 0) = None" for v using zb [of v 0] by (simp add: s0_def rd64_def)
  have w: "walk s0 v i = (if i = 0 then Some b else None)" for v i
    using walk_None_mono [OF w1 [of v], where j = i] by (cases i) (simp_all add: s0_def)
  show "walk s0 v 4 = None" using w by simp
  have t: "is_table s0 t \<longleftrightarrow> t = b" for t using w by (auto simp: is_table_def)
  have "tree_tables (mem_bytes s0) (mem_pgtbl_base s0)" using w by (auto simp: tree_tables_def same_path_def split: if_splits)
  moreover have "aligned 12 (b + PAGE_SIZE)" using al by (intro aligned_add) (simp_all add: aligned_def PAGE_SIZE_def)
  ultimately have "pt_wf 0 s0" using b by (simp add: pt_wf0 s0_def)
  moreover have "clean_tables s0"
    unfolding clean_tables_def using zb w by (auto split: if_splits)
  moreover have "zero_page s0 p" if "in_pool lim s0 p" for p
  proof -
    have "aligned 12 p" "b \<le> p" "p < lim" using that lt(2) by (auto simp: in_pool_def s0_def)
    then show ?thesis using z rd by (simp add: zero_page_def)
  qed
  moreover have "mem_next_pa s0 \<le> lim" using n lim(2) by (simp add: word_le_nat_alt)
  moreover have "b < mem_next_pa s0" "mem_pgtbl_base s0 = b" using n by (simp_all add: word_less_nat_alt s0_def)
  ultimately show "boot_wf lim s0" using lim(1) t by (simp add: boot_wf_def)
qed

text \<open>Once every page of the pool is mapped at its own address, the invariant of the C code holds.\<close>

lemma boot_done:
  assumes wf: "boot_wf lim s" and id: "\<forall>p. aligned 12 p \<longrightarrow> mem_pgtbl_base s \<le> p \<longrightarrow> p < lim \<longrightarrow> walk s p 4 = Some p"
  shows "pt_inv lim s" "\<forall>p. aligned 12 p \<longrightarrow> mem_pgtbl_base s \<le> p \<longrightarrow> p < lim \<longrightarrow> vpn p \<noteq> vpn v \<Longrightarrow> usable lim s v"
proof -
  have wf0: "pt_wf 0 s" using wf by (simp add: boot_wf_def)
  have tb: "aligned 12 t \<and> mem_pgtbl_base s \<le> t \<and> t < mem_next_pa s \<and> t < lim" if "is_table s t" for t
    using is_table_frame [OF wf0 that] wf that page_frame_aligned by (auto simp: boot_wf_def intro: less_le_trans)
  have "is_table s (mem_pgtbl_base s)" by (rule is_tableI [of s v 0]) simp_all
  then have pl: "aligned 12 p \<and> mem_pgtbl_base s \<le> p \<and> p < lim" if "in_pool lim s p" for p
    using tb [of "mem_pgtbl_base s"] that by (auto simp: in_pool_def)
  have "zero_page s p \<and> \<not> is_table s p \<and> walk s p 3 \<noteq> None" if p: "in_pool lim s p" for p
  proof (intro conjI)
    show "zero_page s p" using wf p by (simp add: boot_wf_def)
    show "\<not> is_table s p" using tb [of p] p by (auto simp: in_pool_def)
    show "walk s p 3 \<noteq> None" using id pl [OF p] walk_None_mono [of s p 3 4] by auto
  qed
  then have "pt_wf lim s" using wf wf0 by (auto simp: boot_wf_def pt_wf0 pt_wf_def)
  moreover have "pt_ident s" using tb id by (auto simp: pt_ident_def simp del: tbl.simps)
  ultimately show "pt_inv lim s" by (simp add: pt_inv_def)
  show "usable lim s v" if "\<forall>p. aligned 12 p \<longrightarrow> mem_pgtbl_base s \<le> p \<longrightarrow> p < lim \<longrightarrow> vpn p \<noteq> vpn v"
    using that tb pl unfolding usable_def reserved_def vpn_path4 by blast
qed

end
