(* ===== verification/BootImage.thy ===== *)
theory BootImage
  imports BootMaps
begin

text \<open>
  An image in flash: where its linker script puts it, and the part of the boot mappings that EL3
  and EL1 share: the sections shown in flash, pages for text and data, and the pool of tables.
\<close>

section \<open>The image\<close>

lemma nth_page_add: "nth_page (nth_page a i) j = nth_page a (i + j)"
  by (simp add: push_bit_eq_mult algebra_simps)

lemma nth_page_0: "nth_page a 0 = a"
  by simp

lemma page_num_small: "page_num len \<le> 512 \<Longrightarrow> unat len + 4095 < 2 ^ 64"
proof -
  assume "page_num len \<le> 512"
  then have "unat len + 4095 < 513 * 4096" by (simp add: page_num_def)
  then show ?thesis by simp
qed

lemma align4k_page:
  assumes "low_page a" "vpn a + page_num len < 2 ^ 36"
  shows "align4k (a + len) = nth_page a (page_num len)"
proof -
  have a: "unat a < 2 ^ 48" using assms(1) by (simp add: low_page_def)
  note n0 = low_page_next [OF assms(1), of 0] and nn = low_page_next [OF assms]
  have "unat a div 4096 + page_num len < 2 ^ 36" using assms(2) low_vpn [OF a] by simp
  then have l: "page_num len < 2 ^ 36" by linarith
  then have "(unat len + 4095) div 4096 < 2 ^ 36" by (simp add: page_num_def)
  then have b: "unat len + 4095 < 2 ^ 48" by (simp add: div_less_iff_less_mult)
  have u: "unat (a + len) = unat a + unat len" using a b by (intro unat_add_small) simp
  have b2: "unat (a + len) + 4095 < 2 ^ 64" using a b u by simp
  have "4096 dvd unat a"
  proof -
    have "unat a mod 4096 = unat (take_bit 12 (drop_bit 0 a))" unfolding unat_field by simp
    then show ?thesis using assms(1) by (simp add: low_page_def aligned_def mod_eq_0_iff_dvd)
  qed
  then obtain k where k: "unat a = 4096 * k" by (rule dvdE)
  have "page_num (a + len) = k + page_num len" by (simp add: page_num_def u k add.assoc)
  moreover have "unat (align4k (a + len)) = page_num (a + len) * 4096"
    unfolding align4k_def round_up_pages(1) [OF b2] by (rule page_count [OF round_up_pages(2) [OF b2]])
  ultimately have "unat (align4k (a + len)) = unat (nth_page a (page_num len))"
    unfolding nn(3) k by (simp add: algebra_simps)
  then show ?thesis by (simp only: word_unat_eq_iff)
qed

lemma region_sub:
  assumes "in_region a (i + m)" "vpn a + (i + m) < 2 ^ 36"
  shows "in_region (nth_page a i) m" "vpn (nth_page a i) = vpn a + i"
proof -
  have l: "low_page a" "vpn a + i < 2 ^ 36" using assms by (auto simp: in_region_def)
  note n = low_page_next [OF l]
  show "vpn (nth_page a i) = vpn a + i" by (rule n(1))
  have "(vpn a + i) mod 512 + m \<le> 512"
  proof (cases "m = 0")
    case False
    have "(vpn a + i) mod 512 = (vpn a mod 512 + i) mod 512" by presburger
    also have "\<dots> = vpn a mod 512 + i" using assms(1) False by (simp add: in_region_def)
    finally show ?thesis using assms(1) by (simp add: in_region_def)
  qed (simp add: less_imp_le)
  then show "in_region (nth_page a i) m" using n by (simp add: in_region_def)
qed

lemma own_pagesD:
  "own_pages lo hi s a n q \<Longrightarrow> i < n \<Longrightarrow> walk s (nth_page a i) 4 = Some (q i) \<and> lo \<le> q i \<and> q i < hi \<and> \<not> is_table s (q i)"
  "own_pages lo hi s a n q \<Longrightarrow> i < j \<Longrightarrow> j < n \<Longrightarrow> q i < q j"
  by (simp_all add: own_pages_def del: tbl.simps)

lemma own_pages_append:
  assumes "own_pages lo mid s a n q" "own_pages mid hi s (nth_page a n) m r" "lo \<le> mid" "mid \<le> hi"
  shows "own_pages lo hi s a (n + m) (\<lambda>i. if i < n then q i else r (i - n))"
proof -
  let ?q = "\<lambda>i. if i < n then q i else r (i - n)"
  have l: "walk s (nth_page a i) 4 = Some (q i)" "lo \<le> q i" "q i < mid" "\<not> is_table s (q i)" if "i < n" for i
    using own_pagesD(1) [OF assms(1) that] by blast+
  have h: "walk s (nth_page a i) 4 = Some (r (i - n))" "mid \<le> r (i - n)" "r (i - n) < hi" "\<not> is_table s (r (i - n))" if "n \<le> i" "i < n + m" for i
  proof -
    have "i - n < m" "n + (i - n) = i" using that by linarith+
    then show "walk s (nth_page a i) 4 = Some (r (i - n))" "mid \<le> r (i - n)" "r (i - n) < hi" "\<not> is_table s (r (i - n))"
      using own_pagesD(1) [OF assms(2), of "i - n"] unfolding nth_page_add by (simp_all del: tbl.simps)
  qed
  have "walk s (nth_page a i) 4 = Some (?q i) \<and> lo \<le> ?q i \<and> ?q i < hi \<and> \<not> is_table s (?q i)" if "i < n + m" for i
  proof (cases "i < n")
    case True
    show ?thesis using l [OF True] less_le_trans [OF l(3) [OF True] assms(4)] True by simp
  next
    case False
    then have "n \<le> i" by simp
    show ?thesis using h [OF \<open>n \<le> i\<close> that] order_trans [OF assms(3) h(2) [OF \<open>n \<le> i\<close> that]] False by simp
  qed
  moreover have "?q i < ?q j" if ij: "i < j" "j < n + m" for i j
  proof -
    consider "j < n" | "i < n" "n \<le> j" | "n \<le> i" by linarith
    then show ?thesis
    proof cases
      case 1
      then show ?thesis using own_pagesD(2) [OF assms(1) ij(1)] ij by simp
    next
      case 2
      then show ?thesis using less_le_trans [OF l(3) h(2)] ij by simp
    next
      case 3
      then have "i - n < j - n" "j - n < m" using ij by linarith+
      then show ?thesis using own_pagesD(2) [OF assms(2)] 3 ij by simp
    qed
  qed
  ultimately show ?thesis unfolding own_pages_def by blast
qed

lemma own_pages_step:
  assumes "own_pages lo hi s a n q" "boot_step lim k K s s'" "in_region a n" "K \<inter> {vpn a..<vpn a + n} = {}" "hi \<le> mem_next_pa s"
  shows "own_pages lo hi s' a n q"
proof -
  have "walk s' (nth_page a i) 4 = walk s (nth_page a i) 4" if "i < n" for i
    using region_page(1) [OF assms(3) that] assms(4) that by (intro boot_step_facts(6) [OF assms(2)]) auto
  moreover have "\<not> is_table s' (q i)" if "i < n" for i
    using own_pagesD(1) [OF assms(1) that] boot_step_facts(8) [OF assms(2), of "q i"] assms(5) by auto
  ultimately show ?thesis using assms(1) by (simp add: own_pages_def del: tbl.simps)
qed


text \<open>What both boot sequences start with: the code in flash shown at its own addresses, and
  pages for text and data.\<close>

definition image_pages :: "u64 \<Rightarrow> u64 \<Rightarrow> u64 \<Rightarrow> nat" where
  "image_pages i t d = page_num i + (page_num t + page_num d)"

lemma image_lds_pages:
  fixes F V i t d :: u64
  defines "y \<equiv> image_lds F V i t d"
  assumes "low_page F" "low_page V" "vpn F + image_pages i t d < 2 ^ 36" "vpn V + (page_num t + page_num d) < 2 ^ 36"
  shows "INIT_BASE y = F" "INIT_SIZE y = i" "FLASH_TEXT y = nth_page F (page_num i)" "TEXT_BASE y = V" "TEXT_SIZE y = t"
    "FLASH_DATA y = nth_page F (page_num i + page_num t)" "DATA_BASE y = nth_page V (page_num t)" "DATA_SIZE y = d"
  using align4k_page [OF assms(2), of i] align4k_page [OF assms(3), of t] assms(4,5) nth_page_add [of F "page_num i" "page_num t"]
  by (simp_all add: y_def image_lds_def Let_def image_pages_def)

lemma boot_image:
  fixes F V :: u64 and i t d :: u64
  defines "y \<equiv> image_lds F V i t d" and "n \<equiv> image_pages i t d" and "m \<equiv> page_num t + page_num d"
  assumes wf: "boot_wf lim s" and g: "desc_attr g1" "desc_attr g2" "desc_attr g3" "desc_attr g4" "desc_attr g5"
    and F: "in_region F n" "vpn F + n < 2 ^ 36" and V: "in_region V m" "vpn V + m < 2 ^ 36"
    and apart: "{vpn F..<vpn F + n} \<inter> {vpn V..<vpn V + m} = {}"
    and room: "unat (mem_next_pa s) + (15 + m) * 4096 \<le> unat lim"
  shows "\<exists>s' q. (\<forall>f. Option.bind (map_pa_range (INIT_BASE y) g1 (INIT_SIZE y) s)
           (\<lambda>s1. Option.bind (map_pa_range (FLASH_TEXT y) g2 (TEXT_SIZE y) s1)
           (\<lambda>s2. Option.bind (map_pa_range (FLASH_DATA y) g3 (DATA_SIZE y) s2)
           (\<lambda>s3. Option.bind (map_va_range (TEXT_BASE y) g4 (TEXT_SIZE y) s3)
           (\<lambda>s4. Option.bind (map_va_range (DATA_BASE y) g5 (DATA_SIZE y) s4) f)))) = f s') \<and>
     boot_step lim (15 + m) ({vpn F..<vpn F + n} \<union> {vpn V..<vpn V + m}) s s' \<and>
     (\<forall>k<n. walk s' (nth_page F k) 4 = Some (nth_page F k AND DESC_ADDR)) \<and>
     own_pages (mem_next_pa s) (mem_next_pa s') s' V m q"
proof -
  let ?ni = "page_num i" and ?nt = "page_num t" and ?nd = "page_num d"
  let ?Ft = "nth_page F ?ni" and ?Fd = "nth_page F (?ni + ?nt)" and ?Vd = "nth_page V ?nt"
  have n: "n = ?ni + (?nt + ?nd)" "n = (?ni + ?nt) + ?nd" by (simp_all add: n_def image_pages_def)
  have le: "n \<le> 512" using F(1) by (simp add: in_region_def)
  have sz: "unat i + 4095 < 2 ^ 64" "unat t + 4095 < 2 ^ 64" "unat d + 4095 < 2 ^ 64"
    using le n(1) page_num_small [of i] page_num_small [of t] page_num_small [of d] by linarith+
  have low: "low_page F" "low_page V" using F(1) V(1) by (simp_all add: in_region_def)
  have rF: "in_region F ?ni" using F(1) n by (simp add: in_region_def)
  have rV: "in_region V ?nt" using V(1) by (simp add: in_region_def m_def)
  have rFt: "in_region ?Ft ?nt" "vpn ?Ft = vpn F + ?ni"
    using region_sub [of F ?ni "?nt + ?nd"] F n by (simp_all add: in_region_def)
  have rFd: "in_region ?Fd ?nd" "vpn ?Fd = vpn F + (?ni + ?nt)"
    using region_sub [OF F(1) [unfolded n(2)] F(2) [unfolded n(2)]] by blast+
  have rVd: "in_region ?Vd ?nd" "vpn ?Vd = vpn V + ?nt" using region_sub [of V ?nt ?nd] V by (simp_all add: m_def)
  note y = image_lds_pages [OF low F(2) [unfolded n_def] V(2) [unfolded m_def], folded y_def]
  obtain s1 where s1: "map_pa_range F g1 i s = Some s1" "boot_step lim 3 {vpn F..<vpn F + ?ni} s s1"
    "\<forall>k<?ni. walk s1 (nth_page F k) 4 = Some (nth_page F k AND DESC_ADDR)"
    using range_pa [OF wf g(1) rF _ sz(1)] room by auto
  have r1: "unat (mem_next_pa s1) + (12 + m) * 4096 \<le> unat lim" using boot_step_facts(3) [OF s1(2)] room by simp
  obtain s2 where s2: "map_pa_range ?Ft g2 t s1 = Some s2" "boot_step lim 3 {vpn ?Ft..<vpn ?Ft + ?nt} s1 s2"
    "\<forall>k<?nt. walk s2 (nth_page ?Ft k) 4 = Some (nth_page ?Ft k AND DESC_ADDR)"
    using range_pa [OF boot_step_facts(1) [OF s1(2)] g(2) rFt(1) _ sz(2)] r1 by auto
  have r2: "unat (mem_next_pa s2) + (9 + m) * 4096 \<le> unat lim" using boot_step_facts(3) [OF s2(2)] r1 by simp
  obtain s3 where s3: "map_pa_range ?Fd g3 d s2 = Some s3" "boot_step lim 3 {vpn ?Fd..<vpn ?Fd + ?nd} s2 s3"
    "\<forall>k<?nd. walk s3 (nth_page ?Fd k) 4 = Some (nth_page ?Fd k AND DESC_ADDR)"
    using range_pa [OF boot_step_facts(1) [OF s2(2)] g(3) rFd(1) _ sz(3)] r2 by auto
  have r3: "unat (mem_next_pa s3) + (6 + m) * 4096 \<le> unat lim" using boot_step_facts(3) [OF s3(2)] r2 by simp
  obtain s4 q where s4: "map_va_range V g4 t s3 = Some s4" "boot_step lim (3 + ?nt) {vpn V..<vpn V + ?nt} s3 s4"
    "own_pages (mem_next_pa s3) (mem_next_pa s4) s4 V ?nt q"
    using range_va [OF boot_step_facts(1) [OF s3(2)] g(4) rV _ sz(2)] r3 by (auto simp: m_def)
  have r4: "unat (mem_next_pa s4) + (3 + ?nd) * 4096 \<le> unat lim" using boot_step_facts(3) [OF s4(2)] r3 by (simp add: m_def)
  obtain s5 r where s5: "map_va_range ?Vd g5 d s4 = Some s5" "boot_step lim (3 + ?nd) {vpn ?Vd..<vpn ?Vd + ?nd} s4 s5"
    "own_pages (mem_next_pa s4) (mem_next_pa s5) s5 ?Vd ?nd r"
    using range_va [OF boot_step_facts(1) [OF s4(2)] g(5) rVd(1) r4 sz(3)] by blast
  have v: "vpn (nth_page F k) = vpn F + k" if "k < n" for k using region_page(1) [OF F(1) that] .
  have vF: "vpn F + k \<noteq> vpn V + j" if "k < n" "j < m" for k j
  proof
    assume "vpn F + k = vpn V + j"
    then have "vpn F + k \<in> {vpn F..<vpn F + n} \<inter> {vpn V..<vpn V + m}" using that by auto
    then show False using apart by blast
  qed
  have st25: "boot_step lim (3 + m + 3) {vpn V..<vpn V + m} s3 s5"
    by (rule boot_step_trans [OF s4(2) s5(2)]) (auto simp: m_def rVd(2))
  have keep3: "walk s5 (nth_page F k) 4 = walk s3 (nth_page F k) 4" if "k < n" for k
    using boot_step_facts(6) [OF st25] vF [OF that] v [OF that] by (metis atLeastLessThan_iff le_add_diff_inverse nat_add_left_cancel_less)
  have "walk s3 (nth_page F k) 4 = Some (nth_page F k AND DESC_ADDR)" if k: "k < n" for k
  proof -
    consider "k < ?ni" | "?ni \<le> k" "k < ?ni + ?nt" | "?ni + ?nt \<le> k" by linarith
    then show ?thesis
    proof cases
      case 1
      have "walk s3 (nth_page F k) 4 = walk s2 (nth_page F k) 4"
        using 1 v [OF k] rFd(2) by (intro boot_step_facts(6) [OF s3(2)]) auto
      also have "\<dots> = walk s1 (nth_page F k) 4"
        using 1 v [OF k] rFt(2) by (intro boot_step_facts(6) [OF s2(2)]) auto
      finally show ?thesis using s1(3) 1 by (simp del: tbl.simps)
    next
      case 2
      have e: "nth_page ?Ft (k - ?ni) = nth_page F k" "k - ?ni < ?nt" using 2 nth_page_add [of F ?ni "k - ?ni"] by simp_all
      have "walk s3 (nth_page F k) 4 = walk s2 (nth_page F k) 4"
        using 2 v [OF k] rFd(2) by (intro boot_step_facts(6) [OF s3(2)]) auto
      then show ?thesis using s2(3) e by (metis (no_types))
    next
      case 3
      have e: "nth_page ?Fd (k - (?ni + ?nt)) = nth_page F k" "k - (?ni + ?nt) < ?nd"
        using 3 k n nth_page_add [of F "?ni + ?nt" "k - (?ni + ?nt)"] by simp_all
      then show ?thesis using s3(3) by (metis (no_types))
    qed
  qed
  then have shown: "\<forall>k<n. walk s5 (nth_page F k) 4 = Some (nth_page F k AND DESC_ADDR)" using keep3 by (simp del: tbl.simps)
  have st13: "boot_step lim 9 {vpn F..<vpn F + n} s s3"
    by (rule boot_step_trans [OF boot_step_trans [OF s1(2) s2(2) order_refl subset_refl] s3(2)]) (unfold rFt(2) rFd(2) n(1), auto)
  have step: "boot_step lim (15 + m) ({vpn F..<vpn F + n} \<union> {vpn V..<vpn V + m}) s s5"
    by (rule boot_step_trans [OF st13 st25]) auto
  have "own_pages (mem_next_pa s3) (mem_next_pa s4) s5 V ?nt q"
    by (rule own_pages_step [OF s4(3) s5(2) rV _ order_refl]) (auto simp: rVd(2))
  then have "own_pages (mem_next_pa s3) (mem_next_pa s5) s5 V m (\<lambda>i. if i < ?nt then q i else r (i - ?nt))"
    unfolding m_def by (rule own_pages_append [OF _ s5(3) boot_step_facts(2) [OF s4(2)] boot_step_facts(2) [OF s5(2)]])
  then have own: "own_pages (mem_next_pa s) (mem_next_pa s5) s5 V m (\<lambda>i. if i < ?nt then q i else r (i - ?nt))"
    using boot_step_facts(2) [OF st13] unfolding own_pages_def by (meson order_trans)
  have "\<forall>f. Option.bind (map_pa_range (INIT_BASE y) g1 (INIT_SIZE y) s)
           (\<lambda>s1. Option.bind (map_pa_range (FLASH_TEXT y) g2 (TEXT_SIZE y) s1)
           (\<lambda>s2. Option.bind (map_pa_range (FLASH_DATA y) g3 (DATA_SIZE y) s2)
           (\<lambda>s3. Option.bind (map_va_range (TEXT_BASE y) g4 (TEXT_SIZE y) s3)
           (\<lambda>s4. Option.bind (map_va_range (DATA_BASE y) g5 (DATA_SIZE y) s4) f)))) = f s5"
    by (simp add: y s1(1) s2(1) s3(1) s4(1) s5(1) del: of_nat_add)
  then show ?thesis using step shown own by blast
qed


section \<open>The pool and the rest\<close>

text \<open>A translation through a step elsewhere.\<close>

lemma step_walk: "boot_step lim k K s s' \<Longrightarrow> vpn v \<notin> K \<Longrightarrow> walk s v 4 = Some p \<Longrightarrow> walk s' v 4 = Some p"
  using boot_step_facts(6) by metis

lemma step_none: "boot_step lim k K s s' \<Longrightarrow> vpn v \<notin> K \<Longrightarrow> walk s v 4 = None \<Longrightarrow> walk s' v 4 = None"
  using boot_step_facts(6) by metis

lemma walk_none_lookup: "walk s v 4 = None \<Longrightarrow> mem_lookup_pa v s = - 1"
  by (simp add: mem_lookup_pa_walk del: tbl.simps)

lemma walk_lookup: "walk s v 4 = Some p \<Longrightarrow> mem_lookup_pa v s = p"
  by (simp add: mem_lookup_pa_walk del: tbl.simps)

text \<open>The 64 pages of the pool, by number.\<close>

lemma pool_page:
  assumes "in_region b 64" "page_frame b" "unat b + 0x40000 = unat lim" "aligned 12 p" "b \<le> p" "p < lim"
  shows "\<exists>i<64. p = nth_page b i \<and> vpn p = vpn b + i"
proof -
  have div: "4096 dvd unat x" if "aligned 12 x" for x
  proof -
    have "unat x mod 4096 = unat (take_bit 12 (drop_bit 0 x))" unfolding unat_field by simp
    then show ?thesis using that by (simp add: aligned_def mod_eq_0_iff_dvd)
  qed
  have le: "unat b \<le> unat p" "unat p < unat lim" using assms(5,6) by (simp_all add: word_le_nat_alt word_less_nat_alt)
  have "4096 dvd unat p - unat b" using div [OF assms(4)] div [OF page_frame_aligned [OF assms(2)]] by simp
  then obtain i where i: "unat p - unat b = 4096 * i" by (rule dvdE)
  then have i64: "i < 64" using le assms(3) by linarith
  note rp = region_page [OF assms(1) i64]
  have "unat (nth_page b i) = unat p" using rp(4) i le by simp
  then have "nth_page b i = p" by (simp only: word_unat_eq_iff)
  then show ?thesis using rp(1) i64 by blast
qed

lemma boot_pool:
  assumes wf: "boot_wf lim s" "unat (mem_next_pa s) + 3 * 4096 \<le> unat lim" and g: "desc_attr g"
    and b: "in_region b 64" "page_frame b" "unat b + 0x40000 = unat lim"
  shows "\<exists>s'. map_pa_range b g 0x40000 s = Some s' \<and> boot_step lim 3 {vpn b..<vpn b + 64} s s' \<and>
     (\<forall>p. aligned 12 p \<longrightarrow> b \<le> p \<longrightarrow> p < lim \<longrightarrow> walk s' p 4 = Some p)"
proof -
  have n: "page_num 0x40000 = 64" by (simp add: page_num_def)
  obtain s' where s': "map_pa_range b g 0x40000 s = Some s'" "boot_step lim 3 {vpn b..<vpn b + 64} s s'"
    "\<forall>i<64. walk s' (nth_page b i) 4 = Some (nth_page b i AND DESC_ADDR)"
    using range_pa [OF wf(1) g, of b "0x40000"] b(1) wf(2) unfolding n by auto
  have "walk s' p 4 = Some p" if p: "aligned 12 p" "b \<le> p" "p < lim" for p
  proof -
    have "page_frame p" using frame_below [OF p(1,3)] wf(1) by (simp add: boot_wf_def)
    then show ?thesis using s'(3) pool_page [OF b p] by (metis page_frame_def)
  qed
  then show ?thesis using s'(1,2) by blast
qed

text \<open>What the mappings of an image have in common: the pool at its own addresses, and pages for
  text and data, in order, up to \<open>hi\<close>, where the page of the stack is.\<close>

definition booted :: "u64 \<Rightarrow> u64 \<Rightarrow> u64 \<Rightarrow> nat \<Rightarrow> u64 \<Rightarrow> (nat \<Rightarrow> u64) \<Rightarrow> mm \<Rightarrow> bool" where
  "booted b lim V m hi q s \<longleftrightarrow> boot_wf lim s \<and> mem_pgtbl_base s = b \<and> own_pages (b + PAGE_SIZE) hi s V m q \<and> hi \<le> mem_next_pa s \<and>
     (\<forall>p. aligned 12 p \<longrightarrow> b \<le> p \<longrightarrow> p < lim \<longrightarrow> walk s p 4 = Some p)"

lemma bootedD:
  assumes "booted b lim V m hi q s" "in_region b 64" "page_frame b" "unat b + 0x40000 = unat lim"
  shows "pt_inv lim s" "vpn v \<notin> {vpn b..<vpn b + 64} \<Longrightarrow> usable lim s v"
    "k < m \<Longrightarrow> mem_lookup_pa (nth_page V k) s = q k \<and> b < q k \<and> q k < hi \<and> (\<forall>j<k. q j < q k)"
proof -
  have wf: "boot_wf lim s" "mem_pgtbl_base s = b" "own_pages (b + PAGE_SIZE) hi s V m q"
    "\<forall>p. aligned 12 p \<longrightarrow> mem_pgtbl_base s \<le> p \<longrightarrow> p < lim \<longrightarrow> walk s p 4 = Some p"
    using assms(1) unfolding booted_def by blast+
  note fin = boot_done [OF wf(1,4)]
  show "pt_inv lim s" by (rule fin(1))
  have "\<forall>p. aligned 12 p \<longrightarrow> b \<le> p \<longrightarrow> p < lim \<longrightarrow> vpn p \<in> {vpn b..<vpn b + 64}"
    using pool_page [OF assms(2-4)] by fastforce
  then show "vpn v \<notin> {vpn b..<vpn b + 64} \<Longrightarrow> usable lim s v" using fin(2) [of v] unfolding wf(2) by metis
  have up: "b < b + PAGE_SIZE"
    using assms(4) unat_less_u64 [of lim] by (simp add: word_less_nat_alt PAGE_SIZE_def unat_add_small)
  show "mem_lookup_pa (nth_page V k) s = q k \<and> b < q k \<and> q k < hi \<and> (\<forall>j<k. q j < q k)" if "k < m"
    using own_pagesD(1) [OF wf(3) that] own_pagesD(2) [OF wf(3)] up that walk_lookup by (meson less_le_trans)
qed

lemma booted_step:
  assumes "booted b lim V m hi q s" "boot_step lim k K s s'" "in_region V m" "in_region b 64" "page_frame b" "unat b + 0x40000 = unat lim"
    and K: "K \<inter> {vpn V..<vpn V + m} = {}" "K \<inter> {vpn b..<vpn b + 64} = {}"
  shows "booted b lim V m hi q s'"
proof -
  have wf: "mem_pgtbl_base s = b" "own_pages (b + PAGE_SIZE) hi s V m q" "hi \<le> mem_next_pa s"
    "\<forall>p. aligned 12 p \<longrightarrow> b \<le> p \<longrightarrow> p < lim \<longrightarrow> walk s p 4 = Some p"
    using assms(1) unfolding booted_def by blast+
  note st = boot_step_facts [OF assms(2)]
  have "walk s' p 4 = Some p" if p: "aligned 12 p" "b \<le> p" "p < lim" for p
  proof -
    have "vpn p \<notin> K" using pool_page [OF assms(4-6) p] K(2) by fastforce
    then show ?thesis using wf(4) p st(6) by metis
  qed
  then show ?thesis
    using own_pages_step [OF wf(2) assms(2,3) K(1) wf(3)] wf(1,3) st(1,2,4) unfolding booted_def by (metis order_trans)
qed

lemma page_attrs:
  "desc_attr (PTE_PAGE OR PTE_ACCESS OR PTE_PRIV_RO)" "desc_attr (PTE_PAGE OR PTE_ACCESS OR PTE_PRIV_RW)"
  "desc_attr (PTE_PAGE OR PTE_ACCESS OR PTE_USER_RO)" "desc_attr (PTE_PAGE OR PTE_ACCESS OR PTE_USER_RW)"
  by (simp_all add: desc_attr_def c_const DESC_ADDR_def)


end
