(* ===== verification/BootCopy.thy ===== *)
theory BootCopy
  imports BootImage
begin

text \<open>
  The copy of text and data out of flash, with the MMU on: the pages it writes belong to no table,
  so the translations stay, and the section reads as flash did.
\<close>

section \<open>Stores to other pages than tables\<close>

lemma not_data_other:
  assumes "\<not> data_byte lim s a" "pt_wf lim s" "aligned 12 q" "\<not> is_table s q" "q < mem_next_pa s"
  shows "drop_bit 12 a \<noteq> drop_bit 12 q"
proof -
  obtain t where t: "is_table s t \<or> in_pool lim s t" "aligned 12 t" "drop_bit 12 a = drop_bit 12 t"
    using assms(1,2) is_table_frame page_frame_aligned unfolding data_byte_def in_pool_def by blast
  then have "t \<noteq> q" using assms(4,5) by (auto simp: in_pool_def)
  then show ?thesis using aligned_same_page [OF t(2) assms(3)] t(3) by auto
qed

lemma boot_bytes_frame:
  fixes s g
  assumes wf: "boot_wf lim s" "pt_inv lim s" and g: "\<And>a. \<not> data_byte lim s a \<or> outside lim s a \<Longrightarrow> g a = mem_bytes s a"
  defines "s' \<equiv> s\<lparr>mem_bytes := g\<rparr>"
  shows "boot_step lim 0 {} s s'" "pt_inv lim s'"
proof -
  note f = bytes_frame [OF wf(2), of g, OF g [OF disjI1], folded s'_def]
  have wf0: "pt_wf lim s" "pt_wf 0 s" using wf by (auto simp: pt_inv_def boot_wf_def)
  have same: "mem_pgtbl_base s' = mem_pgtbl_base s" "mem_next_pa s' = mem_next_pa s" "mem_heap_pool s' = mem_heap_pool s"
    by (simp_all add: s'_def)
  have p: "pt_wf lim s'" using f(4) by (simp add: pt_inv_def)
  then have p0: "pt_wf 0 s'" unfolding pt_wf0 by (simp add: pt_wf_def)
  have rd: "rd64 s' (slot t v i) = rd64 s (slot t v i)" if "is_table s t" for t v i
  proof (rule rd64_slot_cong)
    show "aligned 12 t" using is_table_frame [OF wf0(1) that] page_frame_aligned by simp
    show "mem_bytes s' a = mem_bytes s a" if "drop_bit 12 a = drop_bit 12 t" for a
      using g [of a] \<open>is_table s t\<close> that by (auto simp: data_byte_def s'_def)
  qed
  have "clean_tables s'"
    unfolding clean_tables_def
  proof (intro allI impI)
    fix v i t assume h: "i < 3" "walk s' v i = Some t" "rd64 s' (slot t v i) AND 1 \<noteq> 0"
    then have w: "walk s v i = Some t" using f(1) [of i v] by simp
    then have e: "rd64 s' (slot t v i) = rd64 s (slot t v i)" using h(1) rd is_tableI [of s v i t] by simp
    then show "rd64 s' (slot t v i) AND NOT 0xFFF = rd64 s' (slot t v i) AND DESC_ADDR"
      using wf(1) w h(1,3) unfolding boot_wf_def clean_tables_def e by blast
  qed
  then have "boot_wf lim s'"
    using p p0 wf(1) unfolding boot_wf_def by (auto simp: pt_wf_def f(2) same)
  then show "boot_step lim 0 {} s s'"
    using f(1,2) g unfolding boot_step_def boot_grows_def by (simp add: same s'_def del: tbl.simps)
  show "pt_inv lim s'" by (rule f(4))
qed

section \<open>The loop\<close>

definition copied :: "mem \<Rightarrow> nat \<Rightarrow> (nat \<Rightarrow> u64) \<Rightarrow> (nat \<Rightarrow> u64) \<Rightarrow> nat \<Rightarrow> mem \<Rightarrow> bool" where
  "copied m n q p len g \<longleftrightarrow>
     (\<forall>a. (\<forall>k<n. drop_bit 12 a \<noteq> drop_bit 12 (q k)) \<longrightarrow> g a = m a) \<and>
     (\<forall>k<n. \<forall>b<4096. k * 4096 + b < len \<longrightarrow> g (q k + of_nat b) = m (p k + of_nat b))"

text \<open>Eight bytes more.\<close>

lemma copied_8:
  assumes c: "copied m n q p (8 * i) g" and k: "k < n" "8 * i = k * 4096 + o8" "o8 + 8 \<le> 4096"
    and al: "\<forall>k<n. aligned 12 (q k) \<and> aligned 12 (p k)" and inj: "\<forall>i<n. \<forall>k<n. drop_bit 12 (q i) = drop_bit 12 (q k) \<longrightarrow> i = k"
    and sep: "\<forall>i<n. \<forall>k<n. drop_bit 12 (p i) \<noteq> drop_bit 12 (q k)"
  shows "copied m n q p (8 * Suc i) (write_bytes (q k + of_nat o8) (bytes_at g (p k + of_nat o8) 8) g)"
proof -
  let ?q = "q k + of_nat o8" and ?p = "p k + of_nat o8"
  let ?g = "write_bytes ?q (bytes_at g ?p 8) g"
  have page: "drop_bit 12 (q j + of_nat b) = drop_bit 12 (q j)" "drop_bit 12 (p j + of_nat b) = drop_bit 12 (p j)"
    if "j < n" "b < 4096" for j b
    using page_offset al that by (auto simp: aligned_def)
  have off: "?q + of_nat j = q k + of_nat (o8 + j)" "?p + of_nat j = p k + of_nat (o8 + j)" for j
    by (simp_all add: add.assoc)
  have keep: "g a = m a" if "\<forall>k<n. drop_bit 12 a \<noteq> drop_bit 12 (q k)" for a
    using c that unfolding copied_def by blast
  have outs: "?g a = g a" if "\<not> within ?q 8 a" for a using that by (simp add: write_bytes_outside)
  show ?thesis
    unfolding copied_def
  proof (intro conjI allI impI)
    fix a assume a: "\<forall>k<n. drop_bit 12 a \<noteq> drop_bit 12 (q k)"
    have "\<not> within ?q 8 a"
    proof
      assume "within ?q 8 a"
      then obtain j where "j < 8" "a = q k + of_nat (o8 + j)" unfolding within_iff off by blast
      then have "drop_bit 12 a = drop_bit 12 (q k)" using page(1) [OF k(1), of "o8 + j"] k(3) by simp
      then show False using a k(1) by blast
    qed
    then show "?g a = m a" using outs keep [OF a] by simp
  next
    fix j b assume jb: "j < n" "b < 4096" "j * 4096 + b < 8 * Suc i"
    show "?g (q j + of_nat b) = m (p j + of_nat b)"
    proof (cases "within ?q 8 (q j + of_nat b)")
      case True
      then obtain x where x: "x < 8" "q j + of_nat b = q k + of_nat (o8 + x)" unfolding within_iff off by blast
      have lt: "o8 + x < 4096" using x(1) k(3) by simp
      have "drop_bit 12 (q j) = drop_bit 12 (q k)" using page(1) [OF jb(1,2)] page(1) [OF k(1) lt] x(2) by simp
      then have e: "j = k" using inj jb(1) k(1) by blast
      then have b: "b = o8 + x" using x(2) page_offset_eq [of b "o8 + x" "q k"] jb(2) lt by simp
      have "?g (?q + of_nat x) = bytes_at g ?p 8 ! x" using x(1) by (intro write_bytes_nth) simp_all
      also have "\<dots> = g (p k + of_nat (o8 + x))" using x(1) by (simp only: bytes_at_nth off)
      also have "\<dots> = m (p k + of_nat (o8 + x))"
        by (rule keep) (use page(2) [OF k(1) lt] sep k(1) in simp)
      finally show ?thesis unfolding off e b .
    next
      case False
      have "j * 4096 + b < 8 * i"
      proof (rule ccontr)
        assume "\<not> j * 4096 + b < 8 * i"
        then have ge: "k * 4096 + o8 \<le> j * 4096 + b" "j * 4096 + b < k * 4096 + o8 + 8" using jb(3) k(2) by simp_all
        then have "j = k" using jb(2) k(3) by linarith
        then have "b - o8 < 8" "b = o8 + (b - o8)" using ge by linarith+
        then have "within ?q 8 (q j + of_nat b)" unfolding within_iff off \<open>j = k\<close> by metis
        then show False using False by blast
      qed
      then show ?thesis using c jb outs [OF False] unfolding copied_def by simp
    qed
  qed
qed

text \<open>The memory as the processor sees it.\<close>

definition va_byte :: "mm \<Rightarrow> u64 \<Rightarrow> u8 option" where
  "va_byte s a = map_option (mem_bytes s) (mmu s a)"

lemma mmu_walk:
  assumes "pt_wf lim s" "walk s v 4 = Some p" "aligned 12 v" "b < 4096"
  shows "mmu s (v + of_nat b) = Some (p + of_nat b)"
proof -
  have "p \<noteq> - 1" using walk_frame [OF assms(1,2)] by (rule page_frame_neq_minus1)
  then show ?thesis using mmu_page [of v b s] assms(2-4) walk_lookup [OF assms(2)] by (simp add: aligned_def)
qed

lemma va_byte_walk:
  "pt_wf lim s \<Longrightarrow> walk s v 4 = Some p \<Longrightarrow> aligned 12 v \<Longrightarrow> b < 4096 \<Longrightarrow> va_byte s (v + of_nat b) = Some (mem_bytes s (p + of_nat b))"
  using mmu_walk by (simp add: va_byte_def del: tbl.simps)

lemma nth_page_off: "nth_page a k + of_nat o8 = a + of_nat (k * 4096 + o8)"
  by (simp add: push_bit_eq_mult algebra_simps)

lemma nth_page_low: "aligned 12 a \<Longrightarrow> aligned 12 (nth_page a k)"
  using page_no_aligned [of a k] by (simp add: aligned_def)

text \<open>The loop at iteration \<open>i\<close>: the code may be anywhere in the section, the tables do not change.\<close>

lemma boot_memcpy_loop:
  fixes s
  defines "m \<equiv> mem_bytes s"
  assumes inv: "pt_inv lim s" and al: "aligned 12 x0" "aligned 12 x1"
    and src: "\<forall>k<n. walk s (nth_page x1 k) 4 = Some (p k)"
    and dst: "\<forall>k<n. walk s (nth_page x0 k) 4 = Some (q k) \<and> \<not> is_table s (q k) \<and> q k < mem_next_pa s"
    and inj: "\<forall>i<n. \<forall>k<n. q i = q k \<longrightarrow> i = k" and sep: "\<forall>i<n. \<forall>k<n. p i \<noteq> q k"
    and len: "8 * N \<le> n * 4096" "sint x2 \<le> 8 * int N" "0 < N \<Longrightarrow> 8 * (int N - 1) < sint x2"
  shows "i \<le> N \<Longrightarrow> sint x = sint x2 - 8 * int i \<Longrightarrow> copied m n q p (8 * i) g \<Longrightarrow>
    \<exists>g'. boot_memcpy (x0 + of_nat (8 * i)) (x1 + of_nat (8 * i)) x (s\<lparr>mem_bytes := g\<rparr>) = Some (s\<lparr>mem_bytes := g'\<rparr>) \<and>
      copied m n q p (8 * N) g'"
proof (induction "N - i" arbitrary: i x g)
  case 0
  then have "i = N" by simp
  then have "sint x \<le> 0" using 0(3) len(2) by simp
  then show ?case using 0(4) \<open>i = N\<close> by (subst boot_memcpy.simps) auto
next
  case (Suc d)
  have wf: "pt_wf lim s" using inv by (simp add: pt_inv_def)
  have fr: "page_frame (q k)" "page_frame (p k)" if "k < n" for k using src dst walk_frame [OF wf] that by blast+
  have drops: "drop_bit 12 x = drop_bit 12 y \<longleftrightarrow> x = y" if "aligned 12 x" "aligned 12 y" for x y
    using aligned_same_page that by blast
  have ald: "\<forall>k<n. aligned 12 (q k) \<and> aligned 12 (p k)" using fr page_frame_aligned by blast
  have inj': "\<forall>i<n. \<forall>k<n. drop_bit 12 (q i) = drop_bit 12 (q k) \<longrightarrow> i = k" using inj drops ald by simp
  have sep': "\<forall>i<n. \<forall>k<n. drop_bit 12 (p i) \<noteq> drop_bit 12 (q k)" using sep drops ald by simp
  have lt: "i < N" using Suc.hyps(2) by simp
  define k o8 where "k = i div 512" and "o8 = 8 * (i mod 512)"
  have ko: "8 * i = k * 4096 + o8" "o8 + 8 \<le> 4096"
    using div_mult_mod_eq [of i 512] mod_less_divisor [of 512 i] unfolding k_def o8_def by linarith+
  have k: "k < n" using ko lt len(1) by (simp add: k_def less_mult_imp_div_less)
  let ?s = "s\<lparr>mem_bytes := g\<rparr>" and ?q = "q k + of_nat o8" and ?p = "p k + of_nat o8"
  have same: "g a = mem_bytes s a" if na: "\<not> data_byte lim s a" for a
    using not_data_other [OF na wf] ald dst Suc.prems(3) unfolding copied_def m_def by blast
  have look: "mmu ?s a = mmu s a" for a using bytes_frame(6) [OF inv same, of a] by (simp add: mmu_def)
  have at: "mmu ?s (x1 + of_nat (8 * i)) = Some ?p" "mmu ?s (x0 + of_nat (8 * i)) = Some ?q"
    unfolding look ko(1) nth_page_off [symmetric]
    using mmu_walk [OF wf _ nth_page_low] al src dst k ko(2) by simp_all
  let ?g = "write_bytes ?q (bytes_at g ?p 8) g"
  have wr: "wr64 ?q (rd64 ?s ?p) ?s = s\<lparr>mem_bytes := ?g\<rparr>"
    using storen_loadn [of 8 ?q g ?p g] by (simp add: wr64_def rd64_def store64_def load64_def)
  have pos: "0 < sint x" using Suc.prems(2) len(3) lt by simp
  have nx: "a + of_nat (8 * i) + 8 = a + of_nat (8 * Suc i)" for a :: u64 by simp
  have step: "boot_memcpy (x0 + of_nat (8 * i)) (x1 + of_nat (8 * i)) x ?s =
      boot_memcpy (x0 + of_nat (8 * Suc i)) (x1 + of_nat (8 * Suc i)) (x - 8) (s\<lparr>mem_bytes := ?g\<rparr>)"
    unfolding boot_memcpy.simps [of "x0 + of_nat (8 * i)"] at Option.bind_lunit wr nx using pos by simp
  have "sint (x - 8) = sint x2 - 8 * int (Suc i)" using sint_minus_8 [OF pos] Suc.prems(2) by simp
  then show ?case
    unfolding step
    using Suc.hyps(1) [of "Suc i" "x - 8" ?g] Suc.hyps(2) lt copied_8 [OF Suc.prems(3) k ko ald inj' sep'] by simp
qed

section \<open>One section\<close>

lemma eighths:
  fixes k r u n :: nat
  assumes "k * 8 + r = u + 7" "r < 8"
  shows "int u \<le> 8 * int k" "8 * (int k - 1) < int u" "u \<le> n * 4096 \<Longrightarrow> 8 * k \<le> n * 4096"
proof -
  have "k \<le> n * 512" if "u \<le> n * 4096" using assms that by linarith
  then show "u \<le> n * 4096 \<Longrightarrow> 8 * k \<le> n * 4096" by simp
qed (use assms in presburger)+

lemma boot_section:
  assumes wf: "boot_wf lim s" "pt_inv lim s" and own: "own_pages lo hi s V n q" "hi \<le> mem_next_pa s" "mem_pgtbl_base s \<le> lo"
    and al: "aligned 12 V" "aligned 12 F" and len: "n = page_num len" "n \<le> 512"
    and src: "\<forall>k<n. walk s (nth_page F k) 4 = Some (nth_page F k) \<and> outside lim s (nth_page F k)"
  shows "\<exists>g. boot_memcpy V F len s = Some (s\<lparr>mem_bytes := g\<rparr>) \<and> boot_step lim 0 {} s (s\<lparr>mem_bytes := g\<rparr>) \<and>
     pt_inv lim (s\<lparr>mem_bytes := g\<rparr>) \<and> copied (mem_bytes s) n q (nth_page F) (8 * ((unat len + 7) div 8)) g"
proof -
  let ?N = "(unat len + 7) div 8"
  have pw: "pt_wf lim s" using wf(2) by (simp add: pt_inv_def)
  have q: "walk s (nth_page V k) 4 = Some (q k)" "\<not> is_table s (q k)" "q k < mem_next_pa s" "aligned 12 (q k)"
    "mem_pgtbl_base s \<le> q k" "q k < lim" if "k < n" for k
  proof -
    note o = own_pagesD(1) [OF own(1) that]
    show "walk s (nth_page V k) 4 = Some (q k)" "\<not> is_table s (q k)" using o by blast+
    then show "aligned 12 (q k)" using walk_frame [OF pw] page_frame_aligned by blast
    show "q k < mem_next_pa s" "mem_pgtbl_base s \<le> q k" using o own(2,3) by (meson less_le_trans order_trans)+
    moreover have "mem_next_pa s \<le> lim" using wf(1) by (simp add: boot_wf_def)
    ultimately show "q k < lim" by simp
  qed
  have far: "drop_bit 12 a \<noteq> drop_bit 12 (q k)" if "outside lim s a" "k < n" for a k
    using that q by (simp add: outside_def)
  have dst: "\<forall>k<n. walk s (nth_page V k) 4 = Some (q k) \<and> \<not> is_table s (q k) \<and> q k < mem_next_pa s" using q by blast
  have inj: "\<forall>i<n. \<forall>k<n. q i = q k \<longrightarrow> i = k"
  proof (intro allI impI)
    fix i k assume h: "i < n" "k < n" "q i = q k"
    show "i = k"
    proof (rule ccontr)
      assume "i \<noteq> k"
      then consider "i < k" | "k < i" by linarith
      then show False using own_pagesD(2) [OF own(1), of i k] own_pagesD(2) [OF own(1), of k i] h by cases simp_all
    qed
  qed
  have sep: "\<forall>i<n. \<forall>k<n. nth_page F i \<noteq> q k"
  proof (intro allI impI notI)
    fix i k assume "i < n" "k < n" and e: "nth_page F i = q k"
    have "outside lim s (nth_page F i)" using src \<open>i < n\<close> by blast
    from far [OF this \<open>k < n\<close>, unfolded e] show False by blast
  qed
  have src': "\<forall>k<n. walk s (nth_page F k) 4 = Some (nth_page F k)" using src by (simp del: tbl.simps)
  have le: "unat len \<le> n * 4096"
    using div_mult_mod_eq [of "unat len + 4095" 4096] mod_less_divisor [of 4096 "unat len + 4095"]
    unfolding len(1) page_num_def by linarith
  define K r where "K = ?N" and "r = (unat len + 7) mod 8"
  have K: "K * 8 + r = unat len + 7" "r < 8" unfolding K_def r_def by simp_all
  note e = eighths [OF K]
  have N: "8 * K \<le> n * 4096" by (rule e(3) [OF le])
  have "unat len < 2 ^ 63" using le len(2) by simp
  then have s: "sint len = int (unat len)" by (rule sint_unat)
  have N2: "sint len \<le> 8 * int K" "0 < K \<Longrightarrow> 8 * (int K - 1) < sint len"
    unfolding s by (rule e(1), rule e(2))
  have "copied (mem_bytes s) n q (nth_page F) (8 * 0) (mem_bytes s)" by (simp add: copied_def)
  then obtain g where g: "boot_memcpy V F len s = Some (s\<lparr>mem_bytes := g\<rparr>)" "copied (mem_bytes s) n q (nth_page F) (8 * K) g"
    using boot_memcpy_loop [OF wf(2) al src' dst inj sep N N2, of 0 len "mem_bytes s"] by (auto simp del: tbl.simps)
  have same: "g a = mem_bytes s a" if "\<not> data_byte lim s a \<or> outside lim s a" for a
  proof -
    have "\<forall>k<n. drop_bit 12 a \<noteq> drop_bit 12 (q k)" using that not_data_other [OF _ pw] q far by blast
    then show ?thesis using g(2) by (simp add: copied_def)
  qed
  show ?thesis using g boot_bytes_frame [OF wf same] unfolding K_def by blast
qed

text \<open>Pages that hold the bytes of a section, and the section as the processor sees it.\<close>

definition filled :: "mem \<Rightarrow> u64 \<Rightarrow> nat \<Rightarrow> (nat \<Rightarrow> u64) \<Rightarrow> u64 \<Rightarrow> mm \<Rightarrow> bool" where
  "filled m F n q len s \<longleftrightarrow>
     (\<forall>k<n. \<forall>b<4096. k * 4096 + b < unat len \<longrightarrow> mem_bytes s (q k + of_nat b) = m (nth_page F k + of_nat b))"

definition section_at :: "mm \<Rightarrow> u64 \<Rightarrow> mem \<Rightarrow> u64 \<Rightarrow> u64 \<Rightarrow> bool" where
  "section_at s V m F len \<longleftrightarrow> (\<forall>j<unat len. va_byte s (V + of_nat j) = Some (m (F + of_nat j)))"

lemma filled_cong:
  "filled m F n q len s \<Longrightarrow> \<forall>k<n. \<forall>b<4096. mem_bytes s' (q k + of_nat b) = mem_bytes s (q k + of_nat b) \<Longrightarrow> filled m F n q len s'"
  by (simp add: filled_def)

lemma filled_source:
  "filled m F n q len s \<Longrightarrow> \<forall>k<n. \<forall>b<4096. m (nth_page F k + of_nat b) = m' (nth_page F k + of_nat b) \<Longrightarrow> filled m' F n q len s"
  by (simp add: filled_def)

lemma copied_filled:
  assumes "copied m n q (nth_page F) (8 * ((unat len + 7) div 8)) g"
  shows "filled m F n q len (s\<lparr>mem_bytes := g\<rparr>)"
proof -
  have "unat len \<le> 8 * ((unat len + 7) div 8)" by presburger
  then show ?thesis using assms unfolding copied_def filled_def by simp
qed

lemma filled_section:
  assumes "filled m F n q len s" "own_pages lo hi s V n q" "pt_wf lim s" "aligned 12 V" "n = page_num len"
  shows "section_at s V m F len"
  unfolding section_at_def
proof (intro allI impI)
  fix j assume j: "j < unat len"
  define k b where "k = j div 4096" and "b = j mod 4096"
  have e: "k * 4096 + b = j" "b < 4096" by (simp_all add: k_def b_def)
  have "j div 4096 + 1 = (j + 4096) div 4096" by simp
  also have "\<dots> \<le> (unat len + 4095) div 4096" using j by (intro div_le_mono) simp
  finally have k: "k < n" by (simp add: k_def assms(5) page_num_def)
  have "walk s (nth_page V k) 4 = Some (q k)" using own_pagesD(1) [OF assms(2) k] by blast
  then have "va_byte s (nth_page V k + of_nat b) = Some (mem_bytes s (q k + of_nat b))"
    by (rule va_byte_walk [OF assms(3) _ nth_page_low [OF assms(4)] e(2)])
  also have "mem_bytes s (q k + of_nat b) = m (nth_page F k + of_nat b)"
    using assms(1) k e j unfolding filled_def by blast
  finally show "va_byte s (V + of_nat j) = Some (m (F + of_nat j))" unfolding nth_page_off e(1) .
qed

lemma own_pages_split:
  assumes "own_pages lo hi s V (n + k) q"
  shows "own_pages lo hi s V n q" "own_pages lo hi s (nth_page V n) k (\<lambda>i. q (n + i))"
proof -
  show "own_pages lo hi s V n q" using assms unfolding own_pages_def by (meson less_le_trans le_add1)
  show "own_pages lo hi s (nth_page V n) k (\<lambda>i. q (n + i))"
    using own_pagesD [OF assms, of "n + i" for i] own_pagesD(2) [OF assms]
    unfolding own_pages_def nth_page_add by (meson nat_add_left_cancel_less)
qed

lemma outside_below: "v < mem_pgtbl_base s \<Longrightarrow> outside lim s v"
  unfolding outside_def
proof (intro allI impI notI)
  fix p assume p: "v < mem_pgtbl_base s" "aligned 12 p" "mem_pgtbl_base s \<le> p" "drop_bit 12 v = drop_bit 12 p"
  have "unat v div 4096 * 4096 \<le> unat v" by simp
  moreover have d: "unat (drop_bit 12 x) = unat x div 4096" for x :: u64 by (simp add: drop_bit_eq_div unat_div)
  have "unat v div 4096 = unat p div 4096" unfolding d [symmetric] p(4) ..
  moreover have "unat p div 4096 * 4096 = unat p"
    using p(2) unat_field [of 12 0 p] by (simp add: aligned_def mod_0_imp_dvd)
  ultimately show False using p(1,3) by (simp add: word_less_nat_alt word_le_nat_alt)
qed

text \<open>Such a byte belongs to no table and no free page.\<close>

lemma outside_data: "boot_wf lim s \<Longrightarrow> outside lim s a \<Longrightarrow> data_byte lim s a"
proof -
  assume wf: "boot_wf lim s" and o: "outside lim s a"
  have "is_table s (mem_pgtbl_base s)" by (rule is_tableI [of s v 0]) simp_all
  then have "mem_pgtbl_base s < mem_next_pa s" using wf by (simp add: boot_wf_def)
  then show ?thesis using table_byte [OF wf _ o] o by (auto simp: data_byte_def in_pool_def outside_def)
qed

lemma outside_page: "outside lim s v \<Longrightarrow> aligned 12 v \<Longrightarrow> b < 4096 \<Longrightarrow> outside lim s (v + of_nat b)"
  using page_offset [of v b] by (simp add: outside_def aligned_def)

section \<open>Text, then data\<close>

lemma text_section:
  assumes wf: "boot_wf lim s" "pt_inv lim s" and own: "own_pages lo hi s V (nt + nd) q" "hi \<le> mem_next_pa s" "mem_pgtbl_base s \<le> lo"
    and al: "aligned 12 V" "aligned 12 F" and len: "nt = page_num t" "nt \<le> 512"
    and src: "\<forall>k<nt. walk s (nth_page F k) 4 = Some (nth_page F k) \<and> outside lim s (nth_page F k)"
    and m: "\<forall>a. outside lim s a \<longrightarrow> mem_bytes s a = m a"
  shows "\<exists>s'. boot_memcpy V F t s = Some s' \<and> boot_step lim 0 {} s s' \<and> pt_inv lim s' \<and> filled m F nt q t s'"
proof -
  obtain g where g: "boot_memcpy V F t s = Some (s\<lparr>mem_bytes := g\<rparr>)" "boot_step lim 0 {} s (s\<lparr>mem_bytes := g\<rparr>)"
    "pt_inv lim (s\<lparr>mem_bytes := g\<rparr>)" "copied (mem_bytes s) nt q (nth_page F) (8 * ((unat t + 7) div 8)) g"
    using boot_section [OF wf own_pages_split(1) [OF own(1)] own(2,3) al len src] by blast
  have "filled m F nt q t (s\<lparr>mem_bytes := g\<rparr>)"
    by (rule filled_source [OF copied_filled [OF g(4)]]) (use src m outside_page nth_page_low [OF al(2)] in blast)
  then show ?thesis using g(1-3) by blast
qed

lemma data_section:
  assumes wf: "boot_wf lim s" "pt_inv lim s" and own: "own_pages lo hi s V (nt + nd) q" "hi \<le> mem_next_pa s" "mem_pgtbl_base s \<le> lo"
    and al: "aligned 12 V" "aligned 12 F" and len: "nd = page_num d" "nd \<le> 512"
    and src: "\<forall>k<nd. walk s (nth_page F k) 4 = Some (nth_page F k) \<and> outside lim s (nth_page F k)"
    and code: "filled m Ft nt q t s" and m: "\<forall>a. outside lim s a \<longrightarrow> mem_bytes s a = m a"
  shows "\<exists>s'. boot_memcpy (nth_page V nt) F d s = Some s' \<and> boot_step lim 0 {} s s' \<and> pt_inv lim s' \<and>
     filled m Ft nt q t s' \<and> filled m F nd (\<lambda>i. q (nt + i)) d s'"
proof -
  obtain g where g: "boot_memcpy (nth_page V nt) F d s = Some (s\<lparr>mem_bytes := g\<rparr>)" "boot_step lim 0 {} s (s\<lparr>mem_bytes := g\<rparr>)"
    "pt_inv lim (s\<lparr>mem_bytes := g\<rparr>)" "copied (mem_bytes s) nd (\<lambda>i. q (nt + i)) (nth_page F) (8 * ((unat d + 7) div 8)) g"
    using boot_section [OF wf own_pages_split(2) [OF own(1)] own(2,3) nth_page_low [OF al(1)] al(2) len src] by blast
  have "filled (mem_bytes s) F nd (\<lambda>i. q (nt + i)) d (s\<lparr>mem_bytes := g\<rparr>)" by (rule copied_filled [OF g(4)])
  then have data: "filled m F nd (\<lambda>i. q (nt + i)) d (s\<lparr>mem_bytes := g\<rparr>)"
    by (rule filled_source) (use src m outside_page nth_page_low [OF al(2)] in blast)
  have pw: "pt_wf lim s" using wf(2) by (simp add: pt_inv_def)
  have aq: "aligned 12 (q k)" if "k < nt + nd" for k
    using own_pagesD(1) [OF own(1) that] walk_frame [OF pw] page_frame_aligned by blast
  have "g (q k + of_nat b) = mem_bytes s (q k + of_nat b)" if k: "k < nt" "b < 4096" for k b
  proof -
    have "drop_bit 12 (q k + of_nat b) \<noteq> drop_bit 12 (q (nt + i))" if "i < nd" for i
    proof -
      have "q k < q (nt + i)" using own_pagesD(2) [OF own(1), of k "nt + i"] k(1) that by simp
      then have "q k \<noteq> q (nt + i)" by simp
      moreover have a: "aligned 12 (q k)" "aligned 12 (q (nt + i))" using aq k(1) that by simp_all
      ultimately have "drop_bit 12 (q k) \<noteq> drop_bit 12 (q (nt + i))" using aligned_same_page [OF a] by blast
      then show ?thesis using page_offset [of "q k" b] a(1) k(2) by (simp add: aligned_def)
    qed
    then show ?thesis using g(4) unfolding copied_def by blast
  qed
  then have "filled m Ft nt q t (s\<lparr>mem_bytes := g\<rparr>)" by (intro filled_cong [OF code]) simp
  then show ?thesis using g(1-3) data by blast
qed

text \<open>The copies of EL3: both sections are where the linker put them.\<close>

lemma el3_copy_ok:
  fixes F V i t d :: u64
  defines "y \<equiv> image_lds F V i t d" and "n \<equiv> image_pages i t d" and "m \<equiv> page_num t + page_num d"
  assumes wf: "boot_wf lim s" "pt_inv lim s" and own: "own_pages lo hi s V m q" "hi \<le> mem_next_pa s" "mem_pgtbl_base s \<le> lo"
    and F: "low_page F" "vpn F + n < 2 ^ 36" and V: "in_region V m" "vpn V + m < 2 ^ 36"
    and flash: "\<forall>k<n. walk s (nth_page F k) 4 = Some (nth_page F k) \<and> outside lim s (nth_page F k)"
    and c: "\<forall>a. outside lim s a \<longrightarrow> mem_bytes s a = c a"
  shows "\<exists>s'. el3_copy y s = Some s' \<and> boot_step lim 0 {} s s' \<and> pt_inv lim s' \<and>
     section_at s' (TEXT_BASE y) c (FLASH_TEXT y) t \<and> section_at s' (DATA_BASE y) c (FLASH_DATA y) d"
proof -
  let ?ni = "page_num i" and ?nt = "page_num t" and ?nd = "page_num d"
  let ?Ft = "nth_page F ?ni" and ?Fd = "nth_page F (?ni + ?nt)"
  have low: "low_page V" "m \<le> 512" using V(1) by (auto simp: in_region_def)
  have al: "aligned 12 V" "aligned 12 ?Ft" "aligned 12 ?Fd" using low F nth_page_low by (simp_all add: low_page_def del: of_nat_add)
  note y = image_lds_pages [OF F(1) low(1) F(2) [unfolded n_def] V(2) [unfolded m_def], folded y_def]
  have le: "?nt \<le> 512" "?nd \<le> 512" using low(2) by (simp_all add: m_def)
  have src: "\<forall>k<?nt. walk s (nth_page ?Ft k) 4 = Some (nth_page ?Ft k) \<and> outside lim s (nth_page ?Ft k)"
    "\<forall>k<?nd. walk s (nth_page ?Fd k) 4 = Some (nth_page ?Fd k) \<and> outside lim s (nth_page ?Fd k)"
    unfolding nth_page_add using flash by (auto simp: n_def image_pages_def simp del: tbl.simps of_nat_add)
  note own1 = own(1) [unfolded m_def]
  obtain s1 where s1: "boot_memcpy V ?Ft t s = Some s1" "boot_step lim 0 {} s s1" "pt_inv lim s1" "filled c ?Ft ?nt q t s1"
    using text_section [OF wf own1 own(2,3) al(1,2) refl le(1) src(1) c] by blast
  note b1 = boot_step_facts [OF s1(2)]
  have o: "outside lim s1 = outside lim s" using outside_cong [OF b1(4)] by blast
  have own2: "own_pages lo hi s1 V (?nt + ?nd) q" "hi \<le> mem_next_pa s1" "mem_pgtbl_base s1 \<le> lo"
    using own_pages_step [OF own(1) s1(2) V(1) _ own(2)] own(2,3) b1(2,4) by (simp_all add: m_def)
  have "\<forall>k<?nd. walk s1 (nth_page ?Fd k) 4 = Some (nth_page ?Fd k) \<and> outside lim s1 (nth_page ?Fd k)"
    using src(2) b1(6) by (simp add: o del: tbl.simps)
  moreover have "\<forall>a. outside lim s1 a \<longrightarrow> mem_bytes s1 a = c a" using b1(9) c by (simp add: o)
  ultimately obtain s2 where s2: "boot_memcpy (nth_page V ?nt) ?Fd d s1 = Some s2" "boot_step lim 0 {} s1 s2" "pt_inv lim s2"
    "filled c ?Ft ?nt q t s2" "filled c ?Fd ?nd (\<lambda>i. q (?nt + i)) d s2"
    using data_section [OF b1(1) s1(3) own2 al(1,3) refl le(2) _ s1(4)] by blast
  have st: "boot_step lim 0 {} s s2" by (rule boot_step_trans [OF s1(2) s2(2)]) simp_all
  have own3: "own_pages lo hi s2 V (?nt + ?nd) q" using own_pages_step [OF own(1) st V(1) _ own(2)] by (simp add: m_def)
  have pw: "pt_wf lim s2" using s2(3) by (simp add: pt_inv_def)
  note at = filled_section [OF s2(4) own_pages_split(1) [OF own3] pw al(1) refl]
    filled_section [OF s2(5) own_pages_split(2) [OF own3] pw nth_page_low [OF al(1)] refl]
  show ?thesis using s1(1) s2(1,3) st at unfolding el3_copy_def y by auto
qed

end
