(* ===== verification/BootRun.thy ===== *)
theory BootRun
  imports BootCopy
begin

text \<open>
  The boot sequence of EL3, from RAM as it is after reset to the invariant of the page-table code,
  and the start of EL3 behind it.
\<close>

section \<open>The mappings\<close>

lemma el3_maps_ok:
  assumes reset: "\<forall>p. aligned 12 p \<and> EL3_PGTBL_BASE \<le> p \<and> p < EL3_PGTBL_BASE + EL3_PGTBL_SIZE \<longrightarrow> zero_page s p"
    and fits: "image_pages i t d \<le> 16" and m: "m = page_num t + page_num d"
  shows "\<exists>s' hi q. el3_init_maps (image_lds 0 0xF000000000 i t d) s = Some s' \<and>
     booted 0x40040000 0x40080000 0xF000000000 m hi q s' \<and> hi < 0x40080000 \<and> walk s' 0xFEFFFFF000 4 = Some hi \<and>
     walk s' 0x9000000 4 = Some 0x9000000 \<and> walk s' 0x1c010000 4 = Some 0x1c010000 \<and>
     (\<forall>k<image_pages i t d. walk s' (nth_page 0 k) 4 = Some (nth_page 0 k)) \<and> pages_left 0x40080000 (35 - m) s' \<and>
     mem_heap_pool s' = mem_heap_pool s \<and> (\<forall>a. outside 0x40080000 s' a \<longrightarrow> mem_bytes s' a = mem_bytes s a)"
proof -
  let ?B = "0x40040000 :: u64" and ?L = "0x40080000 :: u64" and ?n = "image_pages i t d"
  let ?rw = "PTE_PAGE OR PTE_ACCESS OR PTE_PRIV_RW"
  have c: "EL3_PGTBL_BASE = ?B" "EL3_PGTBL_SIZE = 0x40000" "EL3_STACK_BASE - PAGE_SIZE = 0xFEFFFFF000"
    "UART0_BASE = 0x9000000" "SYSREG_BASE = 0x1c010000" by (simp_all add: c_const)
  have vp: "vpn ?B = 0x40040" "vpn 0 = 0" "vpn 0xF000000000 = 0xF000000" "vpn 0xFEFFFFF000 = 0xFEFFFFF" "vpn 0x9000000 = 0x9000"
    "vpn 0x1c010000 = 0x1c010" by (simp_all add: vpn_def)
  have fb: "page_frame ?B" "page_frame 0x9000000" "page_frame 0x1c010000" by (simp_all add: page_frame_def DESC_ADDR_def)
  define s0 where "s0 = s\<lparr>mem_pgtbl_base := ?B, mem_next_pa := ?B + PAGE_SIZE\<rparr>"
  have z: "\<forall>p. aligned 12 p \<and> ?B \<le> p \<and> p < ?L \<longrightarrow> zero_page s p" using reset by (simp add: c)
  note b0 = boot_start [OF fb(1) _ _ z, folded s0_def, simplified]
  have mn: "m \<le> ?n" "m \<le> 16" using m fits by (simp_all add: image_pages_def)
  let ?y = "image_lds 0 0xF000000000 i t d" and ?ro = "PTE_PAGE OR PTE_ACCESS OR PTE_PRIV_RO"
  have reg: "in_region 0 ?n" "in_region 0xF000000000 m" "in_region ?B 64"
    using fits mn by (simp_all add: in_region_def vp low_page_def aligned_def take_bit_eq_mask mask_eq_exp_minus_1)
  obtain s5 q where s5: "\<forall>f :: mm \<Rightarrow> mm option. Option.bind (map_pa_range (INIT_BASE ?y) ?ro (INIT_SIZE ?y) s0)
           (\<lambda>s1. Option.bind (map_pa_range (FLASH_TEXT ?y) ?ro (TEXT_SIZE ?y) s1)
           (\<lambda>s2. Option.bind (map_pa_range (FLASH_DATA ?y) ?ro (DATA_SIZE ?y) s2)
           (\<lambda>s3. Option.bind (map_va_range (TEXT_BASE ?y) ?rw (TEXT_SIZE ?y) s3)
           (\<lambda>s4. Option.bind (map_va_range (DATA_BASE ?y) ?rw (DATA_SIZE ?y) s4) f)))) = f s5"
    "boot_step ?L (15 + m) ({vpn 0..<vpn 0 + ?n} \<union> {vpn 0xF000000000..<vpn 0xF000000000 + m}) s0 s5"
    "\<forall>k<?n. walk s5 (nth_page 0 k) 4 = Some (nth_page 0 k AND DESC_ADDR)"
    "own_pages (mem_next_pa s0) (mem_next_pa s5) s5 0xF000000000 m q"
    using boot_image [OF b0(1) page_attrs(1,1,1,2,2), of 0 i t d "0xF000000000"] reg fits mn b0(2)
    unfolding vp m [symmetric] by auto
  let ?st = "0xFEFFFFF000 :: u64"
  define s6 where "s6 = boot_map_va ?st ?rw s5"
  have r5: "unat (mem_next_pa s5) + 20 * 4096 \<le> unat ?L" using boot_step_facts(3) [OF s5(2)] b0(2) mn(2) by simp
  have "unat (mem_next_pa s5) + 4 * 4096 \<le> unat ?L" using r5 by simp
  note v6 = one_va [OF boot_step_facts(1) [OF s5(2)] page_attrs(2) this, of ?st, folded s6_def]
  have r6: "unat (mem_next_pa s6) + 3 * 4096 \<le> unat ?L" using boot_step_facts(3) [OF v6(1)] r5 by simp
  have b6: "unat ?B + 0x40000 = unat ?L" by simp
  obtain s7 where s7: "map_pa_range ?B ?rw 0x40000 s6 = Some s7" "boot_step ?L 3 {vpn ?B..<vpn ?B + 64} s6 s7"
    "\<forall>p. aligned 12 p \<longrightarrow> ?B \<le> p \<longrightarrow> p < ?L \<longrightarrow> walk s7 p 4 = Some p"
    using boot_pool [OF boot_step_facts(1) [OF v6(1)] r6 page_attrs(2) reg(3) fb(1) b6] by blast
  define s8 where "s8 = boot_map_pa 0x9000000 ?rw s7"
  define s9 where "s9 = boot_map_pa 0x1c010000 ?rw s8"
  have r7: "unat (mem_next_pa s7) + 3 * 4096 \<le> unat ?L"
    using boot_step_facts(3) [OF v6(1)] boot_step_facts(3) [OF s7(2)] r5 by simp
  note v8 = one_pa [OF boot_step_facts(1) [OF s7(2)] page_attrs(2) r7, of "0x9000000", folded s8_def]
  have r8: "unat (mem_next_pa s8) + 3 * 4096 \<le> unat ?L"
    using boot_step_facts(3) [OF v6(1)] boot_step_facts(3) [OF s7(2)] boot_step_facts(3) [OF v8(1)] r5 by simp
  note v9 = one_pa [OF boot_step_facts(1) [OF v8(1)] page_attrs(2) r8, of "0x1c010000", folded s9_def]
  have run: "el3_init_maps ?y s = Some s9"
    unfolding el3_init_maps_def Let_def c s0_def [symmetric]
    by (rule trans [OF spec [OF s5(1)]]) (simp add: s7(1) s8_def s9_def flip: s6_def)
  have devs: "boot_step ?L 6 {0x9000, 0x1c010} s7 s9" by (rule boot_step_trans [OF v8(1) v9(1)]) (auto simp: vp)
  have late: "boot_step ?L 9 ({0x40040..<0x40080} \<union> {0x9000, 0x1c010}) s6 s9"
    by (rule boot_step_trans [OF s7(2) devs]) (auto simp: vp)
  have after: "boot_step ?L 13 ({0x40040..<0x40080} \<union> {0xFEFFFFF, 0x9000, 0x1c010}) s5 s9"
    by (rule boot_step_trans [OF v6(1) late]) (auto simp: vp)
  have whole: "boot_step ?L (28 + m) UNIV s0 s9" by (rule boot_step_trans [OF s5(2) after]) simp_all
  have pool: "walk s9 p 4 = Some p" if p: "aligned 12 p" "?B \<le> p" "p < ?L" for p
    by (rule step_walk [OF devs]) (use pool_page [OF reg(3) fb(1) b6 p] s7(3) p in \<open>auto simp: vp simp del: tbl.simps\<close>)
  have "own_pages (mem_next_pa s0) (mem_next_pa s5) s9 0xF000000000 m q"
    by (rule own_pages_step [OF s5(4) after reg(2) _ order_refl]) (use mn in \<open>auto simp: vp\<close>)
  then have booted: "booted ?B ?L 0xF000000000 m (mem_next_pa s5) q s9"
    unfolding booted_def using boot_step_facts(1,4) [OF whole] boot_step_facts(2) [OF after] pool by (simp add: s0_def del: tbl.simps)
  have stack: "walk s9 ?st 4 = Some (mem_next_pa s5)" by (rule step_walk [OF late _ v6(2)]) (simp add: vp)
  have uart: "walk s9 0x9000000 4 = Some 0x9000000"
    by (rule step_walk [OF v9(1)]) (use v8(2) fb(2) in \<open>simp_all add: vp page_frame_def del: tbl.simps\<close>)
  have sysreg: "walk s9 0x1c010000 4 = Some 0x1c010000" using v9(2) fb(3) by (simp add: page_frame_def del: tbl.simps)
  have flash: "walk s9 (nth_page 0 k) 4 = Some (nth_page 0 k)" if k: "k < ?n" for k
  proof -
    note rp = region_page [OF reg(1) k, unfolded vp, simplified]
    have "nth_page 0 k < 2 ^ 36" using rp(4) k fits by (simp add: word_less_nat_alt)
    then have "nth_page 0 k AND DESC_ADDR = nth_page 0 k"
      using frame_below [of "nth_page 0 k" "2 ^ 36"] rp(2) by (simp add: low_page_def page_frame_def)
    then show ?thesis using s5(3) k fits by (intro step_walk [OF after]) (simp_all add: rp(1) del: tbl.simps)
  qed
  have "pages_left ?L (35 - m) s9" using boot_step_facts(3) [OF whole] b0(2) mn(2) by (simp add: pages_left_def)
  moreover have "outside ?L s9 a \<Longrightarrow> mem_bytes s9 a = mem_bytes s a" for a
    using boot_step_facts(9) [OF whole, of a] outside_cong [OF boot_step_facts(4) [OF whole]] by (simp add: s0_def)
  moreover have "mem_next_pa s5 < ?L" using r5 by (simp add: word_less_nat_alt)
  ultimately show ?thesis
    using run booted stack uart sysreg flash boot_step_facts(5) [OF whole] by (intro exI [of _ s9]) (auto simp: s0_def simp del: tbl.simps)
qed

text \<open>Mappings and copies.\<close>

theorem el3_boot_ok:
  assumes reset: "\<forall>p. aligned 12 p \<and> EL3_PGTBL_BASE \<le> p \<and> p < EL3_PGTBL_BASE + EL3_PGTBL_SIZE \<longrightarrow> zero_page s p"
    and fits: "image_pages i t d \<le> 16" and m: "m = page_num t + page_num d" and y: "y = image_lds EL3_FLASH_BASE EL3_BASE_VA i t d"
  shows "\<exists>s1 s'. el3_init_maps y s = Some s1 \<and> el3_copy y s1 = Some s' \<and>
     section_at s' (TEXT_BASE y) (mem_bytes s) (FLASH_TEXT y) t \<and> section_at s' (DATA_BASE y) (mem_bytes s) (FLASH_DATA y) d \<and>
     pt_inv (EL3_PGTBL_BASE + EL3_PGTBL_SIZE) s' \<and> pages_left (EL3_PGTBL_BASE + EL3_PGTBL_SIZE) (35 - m) s' \<and>
     mem_heap_pool s' = mem_heap_pool s \<and>
     (\<forall>k<image_pages i t d. mem_lookup_pa (nth_page EL3_FLASH_BASE k) s' = nth_page EL3_FLASH_BASE k) \<and>
     (\<forall>k<m. EL3_PGTBL_BASE < mem_lookup_pa (nth_page EL3_BASE_VA k) s' \<and>
        mem_lookup_pa (nth_page EL3_BASE_VA k) s' < mem_lookup_pa (EL3_STACK_BASE - PAGE_SIZE) s' \<and>
        (\<forall>j<k. mem_lookup_pa (nth_page EL3_BASE_VA j) s' < mem_lookup_pa (nth_page EL3_BASE_VA k) s')) \<and>
     mem_lookup_pa (EL3_STACK_BASE - PAGE_SIZE) s' < EL3_PGTBL_BASE + EL3_PGTBL_SIZE \<and>
     mem_lookup_pa UART0_BASE s' = UART0_BASE \<and> mem_lookup_pa SYSREG_BASE s' = SYSREG_BASE \<and>
     (\<forall>v. vpn v \<notin> {0x40040..<0x40080} \<longrightarrow> usable (EL3_PGTBL_BASE + EL3_PGTBL_SIZE) s' v)"
proof -
  let ?B = "0x40040000 :: u64" and ?L = "0x40080000 :: u64" and ?V = "0xF000000000 :: u64"
  have c: "EL3_PGTBL_BASE = ?B" "EL3_PGTBL_BASE + EL3_PGTBL_SIZE = ?L" "EL3_FLASH_BASE = 0" "EL3_BASE_VA = ?V"
    "EL3_STACK_BASE - PAGE_SIZE = 0xFEFFFFF000" "UART0_BASE = 0x9000000" "SYSREG_BASE = 0x1c010000"
    by (simp_all add: c_const)
  have vp: "vpn ?B = 0x40040" "vpn 0 = 0" "vpn ?V = 0xF000000" by (simp_all add: vpn_def)
  have mn: "m \<le> 16" using m fits by (simp add: image_pages_def)
  have low: "low_page 0" by (simp add: low_page_def aligned_def)
  have reg: "in_region ?V m" "in_region ?B 64" "page_frame ?B" "unat ?B + 0x40000 = unat ?L"
    using mn by (simp_all add: in_region_def vp low_page_def aligned_def take_bit_eq_mask mask_eq_exp_minus_1 page_frame_def DESC_ADDR_def)
  have v36: "vpn 0 + image_pages i t d < 2 ^ 36" "vpn ?V + m < 2 ^ 36" using fits mn by (simp_all add: vp)
  obtain s1 hi q where s1: "el3_init_maps y s = Some s1" "booted ?B ?L ?V m hi q s1" "hi < ?L"
    "walk s1 0xFEFFFFF000 4 = Some hi" "walk s1 0x9000000 4 = Some 0x9000000" "walk s1 0x1c010000 4 = Some 0x1c010000"
    "\<forall>k<image_pages i t d. walk s1 (nth_page 0 k) 4 = Some (nth_page 0 k)" "pages_left ?L (35 - m) s1"
    "mem_heap_pool s1 = mem_heap_pool s" "\<forall>a. outside ?L s1 a \<longrightarrow> mem_bytes s1 a = mem_bytes s a"
    using el3_maps_ok [OF reset fits m] unfolding y c(3,4) by blast
  note inv = bootedD(1) [OF s1(2) reg(2-4)]
  have b: "boot_wf ?L s1" "mem_pgtbl_base s1 = ?B" "own_pages (?B + PAGE_SIZE) hi s1 ?V m q" "hi \<le> mem_next_pa s1"
    using s1(2) unfolding booted_def by blast+
  have flash: "walk s1 (nth_page 0 k) 4 = Some (nth_page 0 k) \<and> outside ?L s1 (nth_page 0 k)" if k: "k < image_pages i t d" for k
  proof
    have r: "in_region 0 16" using low by (simp add: in_region_def vp)
    have "nth_page 0 k < mem_pgtbl_base s1" using region_page(4) [OF r, of k] k fits by (simp add: word_less_nat_alt b(2))
    then show "outside ?L s1 (nth_page 0 k)" by (rule outside_below)
  qed (use s1(7) k in blast)
  obtain s' where s': "el3_copy y s1 = Some s'" "boot_step ?L 0 {} s1 s'"
    "section_at s' (TEXT_BASE y) (mem_bytes s) (FLASH_TEXT y) t" "section_at s' (DATA_BASE y) (mem_bytes s) (FLASH_DATA y) d"
    using el3_copy_ok [OF b(1) inv b(3) [unfolded m] b(4) _ low v36(1) reg(1) [unfolded m] v36(2) [unfolded m], of "mem_bytes s"]
      flash s1(10) unfolding y c(3,4) b(2) by (auto simp: PAGE_SIZE_def)
  note st = boot_step_facts [OF s'(2)]
  have same: "walk s' v 4 = walk s1 v 4" for v using st(6) by blast
  note bd = bootedD [OF booted_step [OF s1(2) s'(2) reg] reg(2-4), simplified]
  have "pages_left ?L (35 - m) s'" using s1(8) st(3) by (simp add: pages_left_def)
  moreover have "mem_lookup_pa 0xFEFFFFF000 s' = hi" "mem_lookup_pa 0x9000000 s' = 0x9000000" "mem_lookup_pa 0x1c010000 s' = 0x1c010000"
    using s1(4-6) by (intro walk_lookup, simp only: same)+
  moreover have "\<forall>k<image_pages i t d. mem_lookup_pa (nth_page 0 k) s' = nth_page 0 k"
    using s1(7) walk_lookup [of s'] unfolding same by blast
  ultimately show ?thesis
    unfolding c(2) unfolding c using s1(1,3,9) s' bd st(5)
    by - (rule exI [of _ s1], rule exI [of _ s'], auto simp: vp)
qed

section \<open>From reset to EL1\<close>

text \<open>C4: From RAM as it is after reset, and an image that fits its slot of flash, the mappings and
  copies of el3_init.S are carried out and el3_start returns. When it starts, text and data read
  at their link addresses as flash did before; when it returns, the invariant of the C code's page
  tables and that of the SMC handlers hold, the init section is mapped no more, and EL3 enters secure EL1.
\<close>

theorem el3_reset_to_el1:
  assumes reset: "\<forall>p. aligned 12 p \<and> EL3_PGTBL_BASE \<le> p \<and> p < EL3_PGTBL_BASE + EL3_PGTBL_SIZE \<longrightarrow> zero_page (el3_mm s) p"
    and fits: "image_pages i t d \<le> 16" and heap: "mem_heap_pool (el3_mm s) = EL3_VA_HEAP_BASE"
    and cpu: "el3_mode (cpu_of s)" "ucast (secure_state s) = r_scr_el3 (cpu_of s) AND 1"
    and y: "y = image_lds EL3_FLASH_BASE EL3_BASE_VA i t d"
  shows "\<exists>m1 m s'. el3_init_maps y (el3_mm s) = Some m1 \<and> el3_copy y m1 = Some m \<and>
     section_at m (TEXT_BASE y) (mem_bytes (el3_mm s)) (FLASH_TEXT y) t \<and>
     section_at m (DATA_BASE y) (mem_bytes (el3_mm s)) (FLASH_DATA y) d \<and>
     el3_start EL3_FLASH_BASE i (s\<lparr>el3_mm := m\<rparr>) = Some s' \<and> el3_inv s' \<and>
     pt_inv (EL3_PGTBL_BASE + EL3_PGTBL_SIZE) (el3_mm s') \<and>
     (\<forall>k<page_num i. mem_lookup_pa (nth_page EL3_FLASH_BASE k) (el3_mm s') = - 1) \<and>
     r_elr_el3 (cpu_of s') = EL1_S_FLASH_BASE \<and> gpr (cpu_of s') 4 = mem_lookup_pa (syscntl_va s') (el3_mm s') \<and>
     b_elr_el3 (nsec_state (el3_mon s')) = EL1_NS_FLASH_BASE"
proof -
  let ?lim = "EL3_PGTBL_BASE + EL3_PGTBL_SIZE" and ?h = "0xF001000000 :: u64"
  obtain m1 m where m: "el3_init_maps y (el3_mm s) = Some m1" "pt_inv ?lim m"
    "pages_left ?lim (35 - (page_num t + page_num d)) m" "mem_heap_pool m = mem_heap_pool (el3_mm s)"
    "\<forall>v. vpn v \<notin> {0x40040..<0x40080} \<longrightarrow> usable ?lim m v" "el3_copy y m1 = Some m"
    "section_at m (TEXT_BASE y) (mem_bytes (el3_mm s)) (FLASH_TEXT y) t"
    "section_at m (DATA_BASE y) (mem_bytes (el3_mm s)) (FLASH_DATA y) d"
    using el3_boot_ok [OF reset fits refl y] by blast
  have pn: "page_num i \<le> 16" "page_num t + page_num d \<le> 16" using fits by (simp_all add: image_pages_def)
  have n: "page_num i = (unat i + 4095) div 4096" by (simp add: page_num_def)
  have sz: "unat i + 4095 < 2 ^ 64" using pn by (intro page_num_small) simp
  have vp: "vpn 0 = 0" "vpn ?h = 0xF001000" "vpn (?h + PAGE_SIZE) = 0xF001001" by (simp_all add: vpn_def PAGE_SIZE_def)
  have c: "EL3_FLASH_BASE = 0" "EL3_VA_HEAP_BASE = ?h" by (simp_all add: c_const)
  have reg: "in_region 0 16" by (simp add: in_region_def low_page_def aligned_def vp)
  have page: "vpn (nth_page 0 k) = k" if "k < page_num i" for k
    using region_page(1) [OF reg, of k] that pn by (simp add: vp)
  let ?s = "s\<lparr>el3_mm := m\<rparr>"
  have init: "\<forall>k<page_num i. usable ?lim (el3_mm ?s) (nth_page 0 k)" using m(5) page pn by auto
  have us: "usable ?lim (el3_mm ?s) ?h" "usable ?lim (el3_mm ?s) (?h + PAGE_SIZE)" using m(5) vp by simp_all
  have apart: "\<not> same_path 4 (?h + PAGE_SIZE) ?h"
    "\<forall>k<page_num i. \<not> same_path 4 ?h (nth_page 0 k) \<and> \<not> same_path 4 (?h + PAGE_SIZE) (nth_page 0 k)"
    using page pn unfolding vpn_path4 vp by auto
  have room: "pages_left ?lim 8 (el3_mm ?s)" using m(3) pn by (simp add: pages_left_def)
  have h: "?h = mem_heap_pool (el3_mm ?s)" using m(4) heap c by simp
  have cpu': "el3_mode (cpu_of ?s)" "ucast (secure_state ?s) = r_scr_el3 (cpu_of ?s) AND 1" using cpu by simp_all
  have inv: "pt_inv ?lim (el3_mm ?s)" using m(2) by simp
  show ?thesis
    using el3_start_ok [OF inv n sz init h us apart room cpu'] m(1,6-8) unfolding c by blast
qed

end
