(* ===== verification/El1Boot.thy ===== *)
theory El1Boot
  imports BootRun
begin

text \<open>
  The boot sequence of the EL1 images: as for EL3, with a stack for EL0 and without the system
  registers; once text and data are copied, their pages in flash are unmapped.
\<close>

section \<open>Unmapping\<close>

lemma boot_unmap_loop_wr:
  assumes "i \<le> 3" "boot_wf lim s" "walk s a i = Some t" "x12 AND NOT 0xFFF = t" "walk s a 3 = Some u"
  shows "boot_unmap_loop (Suc (3 - i)) (39 - 9 * i) a x12 s = wr64 (slot u a 3) 0 s"
  using assms
proof (induction "3 - i" arbitrary: i t x12)
  case 0
  then have i: "i = 3" by simp
  then have "t = u" using 0 by (simp del: tbl.simps)
  then show ?case using boot_pte_slot [OF 0(5), of a 3] i by simp
next
  case (Suc n)
  then have i: "i < 3" and n: "n = 3 - Suc i" "3 - i = Suc n" by auto
  let ?x = "39 - 9 * i"
  have x: "?x - 9 = 39 - 9 * Suc i" by simp
  have pte: "boot_pte a ?x x12 = slot t a i" by (rule boot_pte_slot [OF Suc.prems(4)])
  obtain t' where t': "walk s a (Suc i) = Some t'"
    using tbl_less_some [of "mem_bytes s" "mem_pgtbl_base s" a 3 u "Suc i"] Suc.prems(5) i by auto
  then have v: "rd64 s (slot t a i) AND 1 \<noteq> 0" "t' = rd64 s (slot t a i) AND DESC_ADDR"
    using Suc.prems(3) by (auto simp: Let_def rd64_def split: if_splits)
  have c: "rd64 s (slot t a i) AND NOT 0xFFF = t'"
    using Suc.prems(2,3) i v unfolding boot_wf_def clean_tables_def by blast
  have "boot_unmap_loop (Suc (3 - i)) ?x a x12 s = boot_unmap_loop (Suc (3 - Suc i)) (39 - 9 * Suc i) a (rd64 s (slot t a i)) s"
    using v(1) n pte by (simp add: Let_def x)
  then show ?case using Suc.hyps(1) [OF n(1) _ Suc.prems(2) t' c Suc.prems(5)] i by simp
qed

text \<open>Unmapping writes to tables only, and makes none.\<close>

definition tables_only :: "mm \<Rightarrow> mm \<Rightarrow> bool" where
  "tables_only s s' \<longleftrightarrow> (\<forall>t. is_table s' t = is_table s t) \<and> (\<forall>a. data_byte 0 s a \<longrightarrow> mem_bytes s' a = mem_bytes s a)"

lemma tables_only_refl: "tables_only s s"
  by (simp add: tables_only_def)

lemma tables_only_trans: "tables_only s s' \<Longrightarrow> tables_only s' s'' \<Longrightarrow> tables_only s s''"
  unfolding tables_only_def data_byte_def by (simp add: in_pool_def)

lemma boot_unmap_step:
  assumes wf: "boot_wf lim s" and t: "walk s a 3 \<noteq> None"
  shows "boot_step lim 0 {vpn a} s (boot_unmap_va a s)" "walk (boot_unmap_va a s) a 4 = None"
    "walk (boot_unmap_va a s) v 3 = walk s v 3" "tables_only s (boot_unmap_va a s)"
proof -
  obtain u where u: "walk s a 3 = Some u" using t by blast
  have b: "mem_pgtbl_base s AND NOT 0xFFF = mem_pgtbl_base s"
    using wf by (intro frame_not_FFF) (simp add: boot_wf_def pt_wf0)
  have four: "Suc (3 - 0) = 4" "39 - 9 * 0 = (39 :: nat)" by simp_all
  have e: "boot_unmap_va a s = wr64 (slot u a 3) 0 s"
    using boot_unmap_loop_wr [of 0 lim s a "mem_pgtbl_base s" "mem_pgtbl_base s" u, unfolded four] wf b u
    by (simp add: boot_unmap_va_def del: boot_unmap_loop.simps)
  note lf = boot_leaf [OF wf u, where d = 0, folded e]
  show "boot_step lim 0 {vpn a} s (boot_unmap_va a s)"
    using lf(1,3) unfolding boot_step_def vpn_path4 by (metis singleton_iff)
  show "walk (boot_unmap_va a s) v 3 = walk s v 3" by (rule lf(2)) simp
  have wf0: "pt_wf 0 s" using wf by (simp add: boot_wf_def)
  show "tables_only s (boot_unmap_va a s)"
    using leaf_wf(2) [OF wf0 u, of 0] lf(6) unfolding e by (simp add: tables_only_def)
  show "walk (boot_unmap_va a s) a 4 = None" using leaf_walk(3) [OF wf0 u, of a 0] e by simp
qed

lemma pages_unmap:
  assumes "boot_wf lim s" "in_region a (Suc n)" "walk s a 3 \<noteq> None"
  defines "s' \<equiv> pages boot_unmap_va a (Suc n) s"
  shows "boot_step lim 0 {vpn a..vpn a + n} s s' \<and> tables_only s s' \<and> (\<forall>i\<le>n. walk s' (nth_page a i) 4 = None)"
  using assms(1-3) unfolding s'_def
proof (induction n arbitrary: a s)
  case 0
  then show ?case using boot_unmap_step [OF 0(1,3)] by simp
next
  case (Suc n)
  let ?s1 = "boot_unmap_va a s" and ?b = "a + 0x1000"
  note st = boot_unmap_step [OF Suc.prems(1,3)]
  have e: "nth_page a 1 = ?b" by (simp add: push_bit_eq_mult)
  note rg = region_page [OF Suc.prems(2), of 1, unfolded e]
  have t: "walk ?s1 ?b 3 \<noteq> None" using st(3) [of ?b] tbl_path [OF rg(3)] Suc.prems(3) by simp
  note ih = Suc.IH [OF boot_step_facts(1) [OF st(1)] region_tail [OF Suc.prems(2)] t]
  let ?s' = "pages boot_unmap_va ?b (Suc n) ?s1"
  have v: "vpn ?b = vpn a + 1" using rg(1) by simp
  have "boot_step lim 0 {vpn a..vpn a + Suc n} s ?s'"
    by (rule boot_step_trans [OF st(1) conjunct1 [OF ih]]) (auto simp: v)
  moreover have "walk ?s' (nth_page a i) 4 = None" if "i \<le> Suc n" for i
  proof (cases i)
    case 0
    have "walk ?s' a 4 = walk ?s1 a 4" by (rule boot_step_facts(6) [OF conjunct1 [OF ih]]) (simp add: v)
    then show ?thesis using st(2) 0 by simp
  next
    case (Suc j)
    then show ?thesis using ih that unfolding Suc nth_page_Suc PAGE_SIZE_def by simp
  qed
  moreover have "tables_only s ?s'" using tables_only_trans [OF st(4)] ih by blast
  ultimately show ?case by simp
qed

lemma range_unmap:
  assumes "boot_wf lim s" "in_region a (page_num len)" "0 < page_num len \<longrightarrow> walk s a 3 \<noteq> None" "unat len + 4095 < 2 ^ 64"
  shows "\<exists>s'. unmap_va_range a len s = Some s' \<and> boot_step lim 0 {vpn a..<vpn a + page_num len} s s' \<and>
     tables_only s s' \<and> (\<forall>i<page_num len. walk s' (nth_page a i) 4 = None)"
proof (cases "page_num len")
  case 0
  then show ?thesis using map_ranges(3) [OF assms(4)] boot_step_refl [OF assms(1)] tables_only_refl by simp
next
  case (Suc n)
  have "walk s a 3 \<noteq> None" using assms(3) Suc by simp
  note st = pages_unmap [OF assms(1) assms(2) [unfolded Suc] this]
  have "{vpn a..vpn a + n} = {vpn a..<vpn a + Suc n}" by auto
  then show ?thesis using st map_ranges(3) [OF assms(4)] unfolding Suc less_Suc_eq_le by metis
qed


section \<open>The copies\<close>

lemma filled_unmap:
  assumes "filled m F n q len s" "own_pages lo hi s V n q" "pt_wf 0 s" "tables_only s s'"
  shows "filled m F n q len s'"
proof (rule filled_cong [OF assms(1)], intro allI impI)
  fix k b assume k: "k < n" "b < (4096 :: nat)"
  note o = own_pagesD(1) [OF assms(2) k(1)]
  have al: "aligned 12 (q k)" using o walk_frame [OF assms(3)] page_frame_aligned by blast
  have "drop_bit 12 (q k + of_nat b) \<noteq> drop_bit 12 t" if t: "is_table s t" for t
  proof -
    have "aligned 12 t" by (rule page_frame_aligned [OF is_table_frame [OF assms(3) t]])
    then have "drop_bit 12 (q k) \<noteq> drop_bit 12 t" using aligned_same_page [OF al] o t by blast
    then show ?thesis using page_offset [of "q k" b] al k(2) by (simp add: aligned_def)
  qed
  then have "data_byte 0 s (q k + of_nat b)" by (simp add: data_byte_def in_pool_def)
  then show "mem_bytes s' (q k + of_nat b) = mem_bytes s (q k + of_nat b)" using assms(4) by (simp add: tables_only_def)
qed

lemma el1_copy_ok:
  fixes B F V i t d :: u64
  defines "L \<equiv> B + 0x40000" and "n \<equiv> image_pages i t d" and "m \<equiv> page_num t + page_num d" and "y \<equiv> image_lds F V i t d"
  assumes bt: "booted B L V m hi q s" and fits: "n \<le> 16"
    and pool: "in_region B 64" "page_frame B" "unat L = unat B + 0x40000"
    and F: "in_region F n" "vpn F + n < 2 ^ 36" and V: "in_region V m" "vpn V + m < 2 ^ 36"
    and order: "vpn F + n \<le> vpn B" "vpn B + 64 \<le> vpn V"
    and flash: "\<forall>k<n. walk s (nth_page F k) 4 = Some (nth_page F k) \<and> outside L s (nth_page F k)"
    and c: "\<forall>a. outside L s a \<longrightarrow> mem_bytes s a = c a"
  shows "\<exists>s'. el1_copy y s = Some s' \<and> boot_step L 0 {vpn F + page_num i..<vpn F + n} s s' \<and> booted B L V m hi q s' \<and>
     section_at s' (TEXT_BASE y) c (FLASH_TEXT y) t \<and> section_at s' (DATA_BASE y) c (FLASH_DATA y) d \<and>
     (\<forall>k<n. page_num i \<le> k \<longrightarrow> walk s' (nth_page F k) 4 = None)"
proof -
  let ?ni = "page_num i" and ?nt = "page_num t" and ?nd = "page_num d"
  let ?Ft = "nth_page F ?ni" and ?Fd = "nth_page F (?ni + ?nt)"
  have n: "n = ?ni + m" "n = (?ni + ?nt) + ?nd" by (simp_all add: n_def m_def image_pages_def)
  have low: "low_page F" "low_page V" using F(1) V(1) by (auto simp: in_region_def)
  have al: "aligned 12 V" "aligned 12 ?Ft" "aligned 12 ?Fd" using low nth_page_low by (simp_all add: low_page_def del: of_nat_add)
  note y = image_lds_pages [OF low F(2) [unfolded n_def] V(2) [unfolded m_def], folded y_def]
  have le: "?nt \<le> 512" "?nd \<le> 512" using fits n by simp_all
  have sz: "unat t + 4095 < 2 ^ 64" "unat d + 4095 < 2 ^ 64" using le page_num_small by simp_all
  have rFt: "in_region ?Ft m" "vpn ?Ft = vpn F + ?ni" using region_sub [OF F(1) [unfolded n(1)] F(2) [unfolded n(1)]] by blast+
  have rFd: "in_region ?Fd ?nd" "vpn ?Fd = vpn F + (?ni + ?nt)" using region_sub [OF F(1) [unfolded n(2)] F(2) [unfolded n(2)]] by blast+
  have rFt': "in_region ?Ft ?nt" using rFt(1) by (simp add: in_region_def m_def)
  note keep = booted_step [OF _ _ V(1) pool(1,2) pool(3) [symmetric]] and inv = bootedD(1) [OF _ pool(1,2) pool(3) [symmetric]]
  have apart: "{vpn ?Ft..<vpn ?Ft + ?nt} \<inter> {vpn V..<vpn V + m} = {}" "{vpn ?Ft..<vpn ?Ft + ?nt} \<inter> {vpn B..<vpn B + 64} = {}"
    "{vpn ?Fd..<vpn ?Fd + ?nd} \<inter> {vpn V..<vpn V + m} = {}" "{vpn ?Fd..<vpn ?Fd + ?nd} \<inter> {vpn B..<vpn B + 64} = {}"
    unfolding rFt(2) rFd(2) using order n by auto
  have src: "\<forall>k<?nt. walk s (nth_page ?Ft k) 4 = Some (nth_page ?Ft k) \<and> outside L s (nth_page ?Ft k)"
    "\<forall>k<?nd. walk s (nth_page ?Fd k) 4 = Some (nth_page ?Fd k) \<and> outside L s (nth_page ?Fd k)"
    unfolding nth_page_add using flash n by (auto simp: m_def simp del: tbl.simps of_nat_add)
  have up: "mem_pgtbl_base s \<le> B + PAGE_SIZE"
    using bt pool(3) unat_less_u64 [of L] by (simp add: booted_def word_le_nat_alt PAGE_SIZE_def unat_add_small)
  have facts: "boot_wf L r" "own_pages (B + PAGE_SIZE) hi r V (?nt + ?nd) q" "hi \<le> mem_next_pa r" "mem_pgtbl_base r \<le> B + PAGE_SIZE"
    "pt_wf 0 r" "pt_wf L r" if "booted B L V m hi q r" for r
    using that inv [OF that] up bt unfolding booted_def m_def boot_wf_def pt_inv_def by auto
  note f = facts [OF bt]
  obtain s1 where s1: "boot_memcpy V ?Ft t s = Some s1" "boot_step L 0 {} s s1" "filled c ?Ft ?nt q t s1"
    using text_section [OF f(1) inv [OF bt] f(2-4) al(1,2) refl le(1) src(1) c] by blast
  have b1: "booted B L V m hi q s1" using keep [OF bt s1(2)] by simp
  note f1 = facts [OF b1]
  have three: "walk r v 3 \<noteq> None" if "walk r v 4 = Some p" for r v p using that walk_None_mono [of r v 3 4] by auto
  have first: "walk s (nth_page ?Ft 0) 4 = Some ?Ft" if "0 < ?nt" using src(1) that by (metis nth_page_0)
  have a1: "0 < ?nt \<longrightarrow> walk s1 ?Ft 3 \<noteq> None"
    using three [OF step_walk [OF s1(2) _ first]] by (simp del: tbl.simps)
  obtain s2 where s2: "unmap_va_range ?Ft t s1 = Some s2" "boot_step L 0 {vpn ?Ft..<vpn ?Ft + ?nt} s1 s2" "tables_only s1 s2"
    "\<forall>k<?nt. walk s2 (nth_page ?Ft k) 4 = None"
    using range_unmap [OF f1(1) rFt' a1 sz(1)] by blast
  have b2: "booted B L V m hi q s2" by (rule keep [OF b1 s2(2) apart(1,2)])
  note f2 = facts [OF b2]
  have t2: "filled c ?Ft ?nt q t s2" by (rule filled_unmap [OF s1(3) own_pages_split(1) [OF f1(2)] f1(5) s2(3)])
  have st2: "boot_step L 0 {vpn ?Ft..<vpn ?Ft + ?nt} s s2" by (rule boot_step_trans [OF s1(2) s2(2)]) simp_all
  note k2 = boot_step_facts [OF st2]
  have o: "outside L s2 = outside L s" using outside_cong [OF k2(4)] by blast
  have vFd: "vpn (nth_page ?Fd k) \<notin> {vpn ?Ft..<vpn ?Ft + ?nt}" if "k < ?nd" for k
    using region_page(1) [OF rFd(1) that] rFt(2) rFd(2) by simp
  have src2: "\<forall>k<?nd. walk s2 (nth_page ?Fd k) 4 = Some (nth_page ?Fd k) \<and> outside L s2 (nth_page ?Fd k)"
    using src(2) k2(6) vFd by (simp add: o del: tbl.simps of_nat_add)
  have c2: "\<forall>a. outside L s2 a \<longrightarrow> mem_bytes s2 a = c a" using c k2(9) by (simp add: o)
  obtain s3 where s3: "boot_memcpy (nth_page V ?nt) ?Fd d s2 = Some s3" "boot_step L 0 {} s2 s3"
    "filled c ?Ft ?nt q t s3" "filled c ?Fd ?nd (\<lambda>i. q (?nt + i)) d s3"
    using data_section [OF f2(1) inv [OF b2] f2(2-4) al(1,3) refl le(2) src2 t2 c2] by blast
  have b3: "booted B L V m hi q s3" using keep [OF b2 s3(2)] by simp
  note f3 = facts [OF b3]
  have first2: "walk s2 (nth_page ?Fd 0) 4 = Some ?Fd" if "0 < ?nd" using src2 that by (metis nth_page_0)
  have a2: "0 < ?nd \<longrightarrow> walk s3 ?Fd 3 \<noteq> None"
    using three [OF step_walk [OF s3(2) _ first2]] by (simp del: tbl.simps)
  obtain s4 where s4: "unmap_va_range ?Fd d s3 = Some s4" "boot_step L 0 {vpn ?Fd..<vpn ?Fd + ?nd} s3 s4" "tables_only s3 s4"
    "\<forall>k<?nd. walk s4 (nth_page ?Fd k) 4 = None"
    using range_unmap [OF f3(1) rFd(1) a2 sz(2)] by blast
  have b4: "booted B L V m hi q s4" by (rule keep [OF b3 s4(2) apart(3,4)])
  note f4 = facts [OF b4]
  have t4: "filled c ?Ft ?nt q t s4" "filled c ?Fd ?nd (\<lambda>i. q (?nt + i)) d s4"
    by (rule filled_unmap [OF s3(3) own_pages_split(1) [OF f3(2)] f3(5) s4(3)])
       (rule filled_unmap [OF s3(4) own_pages_split(2) [OF f3(2)] f3(5) s4(3)])
  note at = filled_section [OF t4(1) own_pages_split(1) [OF f4(2)] f4(6) al(1) refl]
    filled_section [OF t4(2) own_pages_split(2) [OF f4(2)] f4(6) nth_page_low [OF al(1)] refl]
  have st24: "boot_step L 0 {vpn ?Fd..<vpn ?Fd + ?nd} s2 s4" by (rule boot_step_trans [OF s3(2) s4(2)]) simp_all
  have st: "boot_step L 0 {vpn F + ?ni..<vpn F + n} s s4"
    by (rule boot_step_trans [OF st2 st24]) (unfold rFt(2) rFd(2) n(2), auto)
  have "walk s4 (nth_page F k) 4 = None" if k: "k < n" "?ni \<le> k" for k
  proof (cases "k < ?ni + ?nt")
    case True
    then have "k - ?ni < ?nt" "nth_page ?Ft (k - ?ni) = nth_page F k" using k nth_page_add [of F ?ni "k - ?ni"] by simp_all
    then have "walk s2 (nth_page F k) 4 = None" using s2(4) by metis
    then show ?thesis by (rule step_none [OF st24, rotated]) (use region_page(1) [OF F(1) k(1)] rFd(2) True in auto)
  next
    case False
    then have "k - (?ni + ?nt) < ?nd" "nth_page ?Fd (k - (?ni + ?nt)) = nth_page F k"
      using k n(2) nth_page_add [of F "?ni + ?nt" "k - (?ni + ?nt)"] by simp_all
    then show ?thesis using s4(4) by metis
  qed
  then show ?thesis using s1(1) s2(1) s3(1) s4(1) st b4 at unfolding el1_copy_def y by auto
qed

section \<open>The mappings\<close>

lemma vpn_less: "low_page a \<Longrightarrow> low_page b \<Longrightarrow> vpn a < vpn b \<Longrightarrow> a < b"
proof -
  assume "low_page a" "low_page b" "vpn a < vpn b"
  then have "unat a div 4096 < unat b div 4096" by (simp add: low_page_def low_vpn)
  then have "unat a < unat b" using div_le_mono [of "unat b" "unat a" 4096] by linarith
  then show ?thesis by (simp add: word_less_nat_alt)
qed

text \<open>The mappings over any layout in which flash, device, tables, EL0 stack, image and EL1 stack lie
  in this order.\<close>

lemma el1_maps_at:
  fixes B F V st st0 i t d :: u64
  defines "L \<equiv> B + 0x40000" and "n \<equiv> image_pages i t d" and "m \<equiv> page_num t + page_num d" and "y \<equiv> image_lds F V i t d"
  assumes z: "\<forall>p. aligned 12 p \<and> B \<le> p \<and> p < L \<longrightarrow> zero_page s p" and fits: "n \<le> 16"
    and g: "desc_attr g1" "desc_attr g2" "desc_attr g3"
    and low: "low_page F" "low_page V" "low_page B" "page_frame B" and u: "unat L = unat B + 0x40000" "L \<le> 2 ^ 36"
    and mods: "vpn F mod 512 + 16 \<le> 512" "vpn V mod 512 + 16 \<le> 512" "vpn B mod 512 + 64 \<le> 512"
    and order: "vpn F + 16 \<le> 0x9000" "0x9000 < vpn B" "vpn B + 64 \<le> vpn st0" "vpn st0 < vpn V" "vpn V + 16 \<le> vpn st"
  shows "\<exists>s' hi hi0 q. (Option.bind (map_pa_range (INIT_BASE y) g1 (INIT_SIZE y)
           (s\<lparr>mem_pgtbl_base := B, mem_next_pa := B + PAGE_SIZE\<rparr>))
           (\<lambda>s1. Option.bind (map_pa_range (FLASH_TEXT y) g1 (TEXT_SIZE y) s1)
           (\<lambda>s2. Option.bind (map_pa_range (FLASH_DATA y) g2 (DATA_SIZE y) s2)
           (\<lambda>s3. Option.bind (map_va_range (TEXT_BASE y) g3 (TEXT_SIZE y) s3)
           (\<lambda>s4. Option.bind (map_va_range (DATA_BASE y) g3 (DATA_SIZE y) s4)
           (\<lambda>s5. Option.bind (map_pa_range B g3 0x40000 (boot_map_va st0 g2 (boot_map_va st g3 s5)))
           (\<lambda>s6. Some (boot_map_pa UART0_BASE g2 s6)))))))) = Some s' \<and>
     booted B L V m hi q s' \<and> walk s' st 4 = Some hi \<and> walk s' st0 4 = Some hi0 \<and> hi < hi0 \<and> hi0 < L \<and>
     walk s' UART0_BASE 4 = Some UART0_BASE \<and> (\<forall>k<n. walk s' (nth_page F k) 4 = Some (nth_page F k) \<and> outside L s' (nth_page F k)) \<and>
     pages_left L (34 - m) s' \<and> mem_heap_pool s' = mem_heap_pool s \<and> (\<forall>a. outside L s' a \<longrightarrow> mem_bytes s' a = mem_bytes s a)"
proof -
  have vu: "vpn 0x9000000 = 0x9000" "UART0_BASE = 0x9000000" by (simp_all add: vpn_def c_const)
  have fu: "page_frame 0x9000000" by (simp add: page_frame_def DESC_ADDR_def)
  define s0 where "s0 = s\<lparr>mem_pgtbl_base := B, mem_next_pa := B + PAGE_SIZE\<rparr>"
  have mn: "m \<le> n" "m \<le> 16" using fits by (simp_all add: m_def n_def image_pages_def)
  have "unat B + 4096 \<le> unat L" using u(1) by simp
  note b0 = boot_start [OF low(4) u(2) this z, folded s0_def]
  have reg: "in_region F n" "in_region V m" "in_region B 64" "in_region F 16"
    using low mods fits mn by (simp_all add: in_region_def)
  have "vpn st < 2 ^ 36" by (simp add: vpn_def)
  then have v36: "vpn F + n < 2 ^ 36" "vpn V + m < 2 ^ 36" using order fits mn by linarith+
  have apart: "{vpn F..<vpn F + n} \<inter> {vpn V..<vpn V + m} = {}" using order fits by auto
  have room: "unat (mem_next_pa s0) + (15 + m) * 4096 \<le> unat L" using b0(2) u(1) mn by simp
  obtain s5 q where s5: "\<forall>f :: mm \<Rightarrow> mm option. Option.bind (map_pa_range (INIT_BASE y) g1 (INIT_SIZE y) s0)
           (\<lambda>s1. Option.bind (map_pa_range (FLASH_TEXT y) g1 (TEXT_SIZE y) s1)
           (\<lambda>s2. Option.bind (map_pa_range (FLASH_DATA y) g2 (DATA_SIZE y) s2)
           (\<lambda>s3. Option.bind (map_va_range (TEXT_BASE y) g3 (TEXT_SIZE y) s3)
           (\<lambda>s4. Option.bind (map_va_range (DATA_BASE y) g3 (DATA_SIZE y) s4) f)))) = f s5"
    "boot_step L (15 + m) ({vpn F..<vpn F + n} \<union> {vpn V..<vpn V + m}) s0 s5"
    "\<forall>k<n. walk s5 (nth_page F k) 4 = Some (nth_page F k AND DESC_ADDR)"
    "own_pages (mem_next_pa s0) (mem_next_pa s5) s5 V m q"
    using boot_image [OF b0(1) g(1,1,2,3,3), of F i t d V, folded n_def m_def y_def] reg(1,2) v36 apart room by blast
  have r5: "unat (mem_next_pa s5) + (48 - m) * 4096 \<le> unat L" using boot_step_facts(3) [OF s5(2)] b0(2) u(1) mn by simp
  define s6 where "s6 = boot_map_va st g3 s5"
  have "unat (mem_next_pa s5) + 4 * 4096 \<le> unat L" using r5 mn by simp
  note v6 = one_va [OF boot_step_facts(1) [OF s5(2)] g(3) this, of st, folded s6_def]
  define s7 where "s7 = boot_map_va st0 g2 s6"
  have "unat (mem_next_pa s6) + 4 * 4096 \<le> unat L" using boot_step_facts(3) [OF v6(1)] r5 mn by simp
  note v7 = one_va [OF boot_step_facts(1) [OF v6(1)] g(2) this, of st0, folded s7_def]
  have r7: "unat (mem_next_pa s7) + 3 * 4096 \<le> unat L"
    using boot_step_facts(3) [OF v6(1)] boot_step_facts(3) [OF v7(1)] r5 mn by simp
  obtain s8 where s8: "map_pa_range B g3 0x40000 s7 = Some s8" "boot_step L 3 {vpn B..<vpn B + 64} s7 s8"
    "\<forall>p. aligned 12 p \<longrightarrow> B \<le> p \<longrightarrow> p < L \<longrightarrow> walk s8 p 4 = Some p"
    using boot_pool [OF boot_step_facts(1) [OF v7(1)] r7 g(3) reg(3) low(4) u(1) [symmetric]] by blast
  define s9 where "s9 = boot_map_pa 0x9000000 g2 s8"
  have r8: "unat (mem_next_pa s8) + 3 * 4096 \<le> unat L"
    using boot_step_facts(3) [OF v6(1)] boot_step_facts(3) [OF v7(1)] boot_step_facts(3) [OF s8(2)] r5 mn by simp
  note v9 = one_pa [OF boot_step_facts(1) [OF s8(2)] g(2) r8, of "0x9000000", folded s9_def]
  have late: "boot_step L 6 ({vpn B..<vpn B + 64} \<union> {0x9000}) s7 s9"
    by (rule boot_step_trans [OF s8(2) v9(1)]) (auto simp: vu)
  have late6: "boot_step L 10 ({vpn B..<vpn B + 64} \<union> {vpn st0, 0x9000}) s6 s9"
    by (rule boot_step_trans [OF v7(1) late]) auto
  have after: "boot_step L 14 ({vpn B..<vpn B + 64} \<union> {vpn st, vpn st0, 0x9000}) s5 s9"
    by (rule boot_step_trans [OF v6(1) late6]) auto
  have whole: "boot_step L (29 + m) UNIV s0 s9" by (rule boot_step_trans [OF s5(2) after]) simp_all
  have run: "Option.bind (map_pa_range (INIT_BASE y) g1 (INIT_SIZE y) s0)
           (\<lambda>s1. Option.bind (map_pa_range (FLASH_TEXT y) g1 (TEXT_SIZE y) s1)
           (\<lambda>s2. Option.bind (map_pa_range (FLASH_DATA y) g2 (DATA_SIZE y) s2)
           (\<lambda>s3. Option.bind (map_va_range (TEXT_BASE y) g3 (TEXT_SIZE y) s3)
           (\<lambda>s4. Option.bind (map_va_range (DATA_BASE y) g3 (DATA_SIZE y) s4)
           (\<lambda>s5. Option.bind (map_pa_range B g3 0x40000 (boot_map_va st0 g2 (boot_map_va st g3 s5)))
           (\<lambda>s6. Some (boot_map_pa UART0_BASE g2 s6))))))) = Some s9"
    unfolding vu(2) by (rule trans [OF spec [OF s5(1)]]) (simp add: s8(1) s9_def flip: s6_def s7_def)
  have pool: "walk s9 p 4 = Some p" if p: "aligned 12 p" "B \<le> p" "p < L" for p
    by (rule step_walk [OF v9(1)]) (use pool_page [OF reg(3) low(4) u(1) [symmetric] p] s8(3) p order(2) in \<open>auto simp: vu simp del: tbl.simps\<close>)
  have "own_pages (mem_next_pa s0) (mem_next_pa s5) s9 V m q"
    by (rule own_pages_step [OF s5(4) after reg(2) _ order_refl]) (use mn order fits in auto)
  then have booted: "booted B L V m (mem_next_pa s5) q s9"
    unfolding booted_def using boot_step_facts(1,4) [OF whole] boot_step_facts(2) [OF after] pool by (simp add: s0_def del: tbl.simps)
  have stacks: "walk s9 st 4 = Some (mem_next_pa s5)" "walk s9 st0 4 = Some (mem_next_pa s6)" "mem_next_pa s6 < L"
    using step_walk [OF late6 _ v6(2)] step_walk [OF late _ v7(2)] order fits boot_step_facts(3) [OF v6(1)] r5 mn
    by (simp_all add: word_less_nat_alt del: tbl.simps)
  have uart: "walk s9 0x9000000 4 = Some 0x9000000" using v9(2) fu by (simp add: page_frame_def del: tbl.simps)
  have base: "mem_pgtbl_base s9 = B" using boot_step_facts(4) [OF whole] by (simp add: s0_def)
  have flash: "walk s9 (nth_page F k) 4 = Some (nth_page F k) \<and> outside L s9 (nth_page F k)" if k: "k < n" for k
  proof
    have k16: "k < 16" using k fits by simp
    note rp = region_page [OF reg(4) k16]
    have lt: "nth_page F k < B" using vpn_less [OF rp(2) low(3)] rp(1) order k16 by simp
    then show "outside L s9 (nth_page F k)" by (intro outside_below) (simp add: base)
    have "nth_page F k < 2 ^ 36" using lt u by (auto intro: less_trans less_le_trans simp: word_less_nat_alt word_le_nat_alt)
    then have "nth_page F k AND DESC_ADDR = nth_page F k"
      using frame_below [of "nth_page F k" "2 ^ 36"] rp(2) by (simp add: low_page_def page_frame_def)
    then show "walk s9 (nth_page F k) 4 = Some (nth_page F k)"
      using s5(3) k order k16 by (intro step_walk [OF after]) (simp_all add: rp(1) del: tbl.simps)
  qed
  have "pages_left L (34 - m) s9" using boot_step_facts(3) [OF whole] b0(2) u(1) mn(2) by (simp add: pages_left_def)
  moreover have "outside L s9 a \<Longrightarrow> mem_bytes s9 a = mem_bytes s a" for a
    using boot_step_facts(9) [OF whole, of a] outside_cong [OF boot_step_facts(4) [OF whole]] by (simp add: s0_def)
  ultimately show ?thesis
    using run booted stacks v6(3) uart flash boot_step_facts(5) [OF whole] unfolding s0_def [symmetric] vu(2)
    by (intro exI [of _ s9]) (auto simp: s0_def simp del: tbl.simps)
qed

text \<open>The boot of either image, from RAM as it is after reset.\<close>

lemma el1_boot_at:
  fixes i t d :: u64
  assumes reset: "\<forall>p. aligned 12 p \<and> EL1_PGTBL_BASE w \<le> p \<and> p < EL1_PGTBL_BASE w + EL1_PGTBL_SIZE w \<longrightarrow> zero_page s p"
    and fits: "image_pages i t d \<le> 16" and m: "m = page_num t + page_num d"
    and y: "y = image_lds (EL1_FLASH_BASE w) (EL1_BASE_VA w) i t d" and lim: "lim = EL1_PGTBL_BASE w + EL1_PGTBL_SIZE w"
  shows "\<exists>s1 s' hi hi0 q. el1_init_maps w y s = Some s1 \<and> el1_copy y s1 = Some s' \<and>
     booted (EL1_PGTBL_BASE w) lim (EL1_BASE_VA w) m hi q s' \<and>
     section_at s' (TEXT_BASE y) (mem_bytes s) (FLASH_TEXT y) t \<and> section_at s' (DATA_BASE y) (mem_bytes s) (FLASH_DATA y) d \<and>
     walk s' (EL1_STACK_BASE w - PAGE_SIZE) 4 = Some hi \<and> walk s' (EL0_STACK_BASE w - PAGE_SIZE) 4 = Some hi0 \<and> hi < hi0 \<and> hi0 < lim \<and>
     walk s' UART0_BASE 4 = Some UART0_BASE \<and>
     (\<forall>k<image_pages i t d. mem_lookup_pa (nth_page (EL1_FLASH_BASE w) k) s' = (if k < page_num i then nth_page (EL1_FLASH_BASE w) k else - 1)) \<and>
     pages_left lim (34 - m) s' \<and> mem_heap_pool s' = mem_heap_pool s \<and> (\<forall>a. outside lim s' a \<longrightarrow> mem_bytes s' a = mem_bytes s a)"
proof -
  let ?B = "EL1_PGTBL_BASE w" and ?F = "EL1_FLASH_BASE w" and ?V = "EL1_BASE_VA w" and ?n = "image_pages i t d"
  let ?st = "EL1_STACK_BASE w - PAGE_SIZE" and ?su = "EL0_STACK_BASE w - PAGE_SIZE"
  have L: "lim = ?B + 0x40000" "EL1_PGTBL_SIZE w = 0x40000" by (simp_all add: lim EL1_PGTBL_SIZE_def c_const)
  note low = low_page_def aligned_def take_bit_eq_mask mask_eq_exp_minus_1 page_frame_def DESC_ADDR_def
  have c: "low_page ?F" "low_page ?V" "low_page ?B" "page_frame ?B" "unat (?B + 0x40000) = unat ?B + 0x40000" "?B + 0x40000 \<le> 2 ^ 36"
    "vpn ?F mod 512 + 16 \<le> 512" "vpn ?V mod 512 + 16 \<le> 512" "vpn ?B mod 512 + 64 \<le> 512"
    "vpn ?F + 16 \<le> 0x9000" "0x9000 < vpn ?B" "vpn ?B + 64 \<le> vpn ?su" "vpn ?su < vpn ?V" "vpn ?V + 16 \<le> vpn ?st"
    by (cases "w = SECURE"; simp add: EL1_FLASH_BASE_def EL1_BASE_VA_def EL1_PGTBL_BASE_def EL0_STACK_BASE_def EL1_STACK_BASE_def c_const low vpn_def)+
  have mn: "m \<le> ?n" "m \<le> 16" using fits by (simp_all add: m image_pages_def)
  have reg: "in_region ?F ?n" "in_region ?V m" "in_region ?B 64" using c fits mn by (simp_all add: in_region_def)
  have "vpn ?st < 2 ^ 36" by (simp add: vpn_def)
  then have v36: "vpn ?F + ?n < 2 ^ 36" "vpn ?V + m < 2 ^ 36" using c fits mn by linarith+
  have z: "\<forall>p. aligned 12 p \<and> ?B \<le> p \<and> p < ?B + 0x40000 \<longrightarrow> zero_page s p" using reset L by simp
  obtain s1 hi hi0 q where s1: "el1_init_maps w y s = Some s1" "booted ?B lim ?V m hi q s1" "walk s1 ?st 4 = Some hi" "walk s1 ?su 4 = Some hi0"
    "hi < hi0" "hi0 < lim" "walk s1 UART0_BASE 4 = Some UART0_BASE"
    "\<forall>k<?n. walk s1 (nth_page ?F k) 4 = Some (nth_page ?F k) \<and> outside lim s1 (nth_page ?F k)"
    "pages_left lim (34 - m) s1" "mem_heap_pool s1 = mem_heap_pool s" "\<forall>a. outside lim s1 a \<longrightarrow> mem_bytes s1 a = mem_bytes s a"
    using el1_maps_at [OF z fits page_attrs(3,4,2) c(1-14)] unfolding m y L el1_init_maps_def Let_def by blast
  let ?K = "{vpn ?F + page_num i..<vpn ?F + ?n}"
  have order: "vpn ?F + ?n \<le> vpn ?B" "vpn ?B + 64 \<le> vpn ?V" using c fits by linarith+
  obtain s' where s': "el1_copy y s1 = Some s'" "boot_step lim 0 ?K s1 s'" "booted ?B lim ?V m hi q s'"
    "section_at s' (TEXT_BASE y) (mem_bytes s) (FLASH_TEXT y) t" "section_at s' (DATA_BASE y) (mem_bytes s) (FLASH_DATA y) d"
    "\<forall>k<?n. page_num i \<le> k \<longrightarrow> walk s' (nth_page ?F k) 4 = None"
    using el1_copy_ok [OF s1(2) [unfolded m L] fits reg(3) c(4,5) reg(1) v36(1) reg(2) [unfolded m] v36(2) [unfolded m] order
        s1(8) [unfolded L] s1(11) [unfolded L]] unfolding m y L by blast
  note st = boot_step_facts [OF s'(2)]
  have "vpn UART0_BASE = 0x9000" by (simp add: vpn_def c_const)
  then have "walk s' ?st 4 = Some hi" "walk s' ?su 4 = Some hi0" "walk s' UART0_BASE 4 = Some UART0_BASE"
    using step_walk [OF s'(2) _ s1(3)] step_walk [OF s'(2) _ s1(4)] step_walk [OF s'(2) _ s1(7)] c fits by (simp_all del: tbl.simps)
  moreover have "mem_lookup_pa (nth_page ?F k) s' = (if k < page_num i then nth_page ?F k else - 1)" if k: "k < ?n" for k
  proof (cases "k < page_num i")
    case True
    then have "walk s' (nth_page ?F k) 4 = Some (nth_page ?F k)"
      using step_walk [OF s'(2)] s1(8) k region_page(1) [OF reg(1) k] by (simp del: tbl.simps)
    then show ?thesis using walk_lookup True by simp
  next
    case False
    then show ?thesis using s'(6) k walk_none_lookup by simp
  qed
  moreover have "pages_left lim (34 - m) s'" using s1(9) st(3) by (simp add: pages_left_def)
  moreover have "\<forall>a. outside lim s' a \<longrightarrow> mem_bytes s' a = mem_bytes s a"
    using s1(11) st(9) outside_cong [OF st(4)] by simp
  ultimately show ?thesis
    using s1(1,5,6,10) s'(1,3-5) st(5)
    by - (rule exI [of _ s1], rule exI [of _ s'], rule exI [of _ hi], rule exI [of _ hi0], rule exI [of _ q], simp del: tbl.simps)
qed

end
