(* ===== verification/El1Reset.thy ===== *)
theory El1Reset
  imports El1Boot
begin

text \<open>
  An EL1 image from reset to EL0: the boot code establishes what the C code of the image relies on,
  and leaves flash alone, where the EL0 image lies.
\<close>

definition EL1_VA_HEAP_BASE :: "u32 \<Rightarrow> u64" where
  "EL1_VA_HEAP_BASE secure = (if secure = SECURE then EL1_S_VA_HEAP_BASE else EL1_NS_VA_HEAP_BASE)"

text \<open>The pages, by number, that are taken when el1_start begins: tables, init section and the first
  page of the heap.\<close>

definition taken :: "u32 \<Rightarrow> u64 \<Rightarrow> nat set" where
  "taken w i = {vpn (EL1_PGTBL_BASE w)..<vpn (EL1_PGTBL_BASE w) + 64} \<union>
     {vpn (EL1_FLASH_BASE w)..<vpn (EL1_FLASH_BASE w) + page_num i} \<union> {vpn (EL1_VA_HEAP_BASE w)}"

lemma el1_layout:
  "low_page (EL1_FLASH_BASE w)" "in_region (EL1_FLASH_BASE w) 16" "in_region (EL1_PGTBL_BASE w) 64" "page_frame (EL1_PGTBL_BASE w)"
  "unat (EL1_PGTBL_BASE w) + 0x40000 = unat (EL1_PGTBL_BASE w + EL1_PGTBL_SIZE w)"
  "vpn (EL1_FLASH_BASE w) + 16 \<le> vpn (EL1_PGTBL_BASE w)"
  "vpn (EL1_VA_HEAP_BASE w) \<notin> {vpn (EL1_PGTBL_BASE w)..<vpn (EL1_PGTBL_BASE w) + 64}"
  "vpn (EL1_VA_HEAP_BASE w) \<notin> {vpn (EL1_FLASH_BASE w)..<vpn (EL1_FLASH_BASE w) + 16}"
  "unat (el0_flash_base w) + 0x3ffb0000 \<le> unat (EL1_PGTBL_BASE w)" "unat (EL1_PGTBL_BASE w) < 2 ^ 36"
  by (cases "w = SECURE"; simp add: EL1_FLASH_BASE_def EL1_PGTBL_BASE_def EL1_PGTBL_SIZE_def EL1_VA_HEAP_BASE_def el0_flash_base_def
      c_const vpn_def in_region_def low_page_def aligned_def take_bit_eq_mask mask_eq_exp_minus_1 page_frame_def DESC_ADDR_def)+

text \<open>The EL0 image in flash is as the loader needs it.\<close>

lemma boot_loadable:
  assumes inv: "pt_inv lim s" "boot_wf lim s" "mem_pgtbl_base s = EL1_PGTBL_BASE w"
    and us: "\<And>v. vpn v \<notin> {vpn (EL1_PGTBL_BASE w)..<vpn (EL1_PGTBL_BASE w) + 64} \<Longrightarrow> usable lim s v"
    and room: "pages_left lim (4 * (n + length (elf_addrs L img (el0_flash_base w)))) s"
    and elf: "elf_ok L (el0_flash_base w) n img" "n \<le> 16" "distinct (map vpn (elf_image_pages L (el0_flash_base w) n img))"
      "\<forall>v\<in>set (elf_image_pages L (el0_flash_base w) n img). vpn v \<notin> {vpn (EL1_PGTBL_BASE w)..<vpn (EL1_PGTBL_BASE w) + 64}"
    and img: "\<forall>a. unat (el0_flash_base w) \<le> unat a \<and> unat a < unat (el0_flash_base w) + n * 4096 \<longrightarrow> mem_bytes s a = img a"
  shows "loadable lim L (el0_flash_base w) n img s"
proof -
  let ?f = "el0_flash_base w"
  have al: "aligned 12 ?f" using elf(1) by (simp add: elf_ok_def aligned_def)
  have addr: "unat (page_no ?f j + of_nat b) = unat ?f + (j * 4096 + b)" if "j < n" "b < 4096" for j b
  proof -
    have "j * 4096 + b < 2 ^ 17" using that elf(2) by simp
    then have "unat (of_nat (j * 4096 + b) :: u64) = j * 4096 + b" by (intro unat_of_nat_u64) simp
    then show ?thesis unfolding nth_page_off using el1_layout(9,10) [of w] \<open>j * 4096 + b < 2 ^ 17\<close>
      by (subst unat_add_small) simp_all
  qed
  have bytes: "data_byte lim s (page_no ?f j + of_nat b)" "mem_bytes s (page_no ?f j + of_nat b) = img (page_no ?f j + of_nat b)"
    if "j < n" "b < 4096" for j b
  proof -
    have jb: "j * 4096 + b < n * 4096" using that by linarith
    then show "mem_bytes s (page_no ?f j + of_nat b) = img (page_no ?f j + of_nat b)" using img addr [OF that] by simp
    have "page_no ?f j + of_nat b < mem_pgtbl_base s"
      using addr [OF that] jb elf(2) el1_layout(9) [of w] by (simp add: inv(3) word_less_nat_alt)
    then show "data_byte lim s (page_no ?f j + of_nat b)" by (intro outside_data [OF inv(2)] outside_below)
  qed
  have frame: "page_frame (page_no ?f j)" if "j < n" for j
  proof -
    have "page_no ?f j < 2 ^ 36" using addr [OF that, of 0] that elf(2) el1_layout(9,10) [of w] by (simp add: word_less_nat_alt)
    then show ?thesis using frame_below [of "page_no ?f j" "2 ^ 36"] nth_page_low [OF al] by simp
  qed
  have "distinct_pages (same_path 4) vs" if "distinct (map vpn vs)" for vs
    using that by (induction vs) (auto simp: vpn_path4)
  then show ?thesis
    unfolding loadable_def using elf inv(1) room us bytes frame by blast
qed

text \<open>C5: From RAM as it is after reset, with the EL1 image and a well-formed EL0 image in flash, the
  mappings of el1_init.S are carried out, text and data are copied and their pages in flash
  unmapped, and el1_start gets as far as its last load, the one of EL0's entry point from the ELF
  header. When el1_start begins, text and data read at their link
  addresses as flash did before; when it comes to that load, the sections of EL0 are
  in place, the page tables satisfy the invariant of the C code, no page of the init section
  translates, and control block and interop buffer are the pages that EL3 passed. The load
  goes to a page the loader has unmapped: EL0 is entered exactly if it is answered (\<open>late\<close>), at
  the address it gives, which is the entry point of the image if the removed translation is still
  in the TLB. The architecture does not promise that; without it the load is a data abort.\<close>

theorem el1_reset_to_el0:
  assumes w: "w = el1_secure s" "f = el0_flash_base w" "lim = EL1_PGTBL_BASE w + EL1_PGTBL_SIZE w"
    and reset: "\<forall>p. aligned 12 p \<and> EL1_PGTBL_BASE w \<le> p \<and> p < lim \<longrightarrow> zero_page (el1_mm s) p"
    and heap: "mem_heap_pool (el1_mm s) = EL1_VA_HEAP_BASE w"
    and fits: "image_pages i t d \<le> 16" and y: "y = image_lds (EL1_FLASH_BASE w) (EL1_BASE_VA w) i t d"
    and elf: "elf_ok L f n img"
      "\<forall>a. unat f \<le> unat a \<and> unat a < unat f + n * 4096 \<longrightarrow> mem_bytes (el1_mm s) a = img a"
    and room: "page_num t + page_num d + 10 + 4 * (n + length (elf_addrs L img f)) \<le> 34"
    and away: "distinct (map vpn (buf_va blk # elf_image_pages L f n img))"
      "\<forall>v\<in>set (buf_va blk # elf_image_pages L f n img). vpn v \<notin> taken w i"
  shows "\<exists>m1 m2 s'. el1_init_maps w y (el1_mm s) = Some m1 \<and> el1_copy y m1 = Some m2 \<and>
     section_at m2 (TEXT_BASE y) (mem_bytes (el1_mm s)) (FLASH_TEXT y) t \<and>
     section_at m2 (DATA_BASE y) (mem_bytes (el1_mm s)) (FLASH_DATA y) d \<and>
     (\<forall>late. el1_start L hw late blk (EL1_FLASH_BASE w) i (s\<lparr>el1_mm := m2\<rparr>) =
        map_option (\<lambda>e. (e, SPSR_EL0, s'\<lparr>el1_elr := e\<rparr>)) (late_entry L late f s')) \<and>
     (\<forall>late. header_cached f img late \<longrightarrow> late_entry L late f s' = Some (fld (eh_entry L) img f)) \<and>
     pt_inv lim (el1_mm s') \<and> el1_sysc s' = blk \<and>
     mem_lookup_pa (el1_sysc_va s') (el1_mm s') = el1_sysc_va s AND DESC_ADDR \<and>
     mem_lookup_pa (buf_va blk) (el1_mm s') = buf_pa blk AND DESC_ADDR \<and>
     (\<forall>k<page_num i. mem_lookup_pa (nth_page (EL1_FLASH_BASE w) k) (el1_mm s') = - 1) \<and>
     sections_at (vm_rd aarch64_vm s') L f img"
proof -
  let ?m = "page_num t + page_num d" and ?F = "EL1_FLASH_BASE w" and ?B = "EL1_PGTBL_BASE w" and ?h = "EL1_VA_HEAP_BASE w"
  note lay = el1_layout [of w]
  obtain m1 m2 hi hi0 q where b: "el1_init_maps w y (el1_mm s) = Some m1" "el1_copy y m1 = Some m2"
    "booted ?B lim (EL1_BASE_VA w) ?m hi q m2"
    "section_at m2 (TEXT_BASE y) (mem_bytes (el1_mm s)) (FLASH_TEXT y) t"
    "section_at m2 (DATA_BASE y) (mem_bytes (el1_mm s)) (FLASH_DATA y) d"
    "pages_left lim (34 - ?m) m2" "mem_heap_pool m2 = ?h" "\<forall>a. outside lim m2 a \<longrightarrow> mem_bytes m2 a = mem_bytes (el1_mm s) a"
    using el1_boot_at [OF reset [unfolded w(3)] fits refl y w(3)] heap by auto
  note bd = bootedD [OF b(3) lay(3,4) lay(5) [folded w(3)]]
  have wf: "boot_wf lim m2" "mem_pgtbl_base m2 = ?B" using b(3) unfolding booted_def by blast+
  have n: "n \<le> 16" "page_num i \<le> 16" using room fits by (simp_all add: image_pages_def)
  have left: "pages_left lim (10 + 4 * (n + length (elf_addrs L img f))) m2" using b(6) room by (simp add: pages_left_def)
  then have left': "pages_left lim (4 * (n + length (elf_addrs L img f))) m2" by (simp add: pages_left_def)
  have pool: "vpn v \<notin> {vpn ?B..<vpn ?B + 64}" if "vpn v \<notin> taken w i" for v using that by (simp add: taken_def)
  have flash: "mem_bytes m2 a = img a" if "unat f \<le> unat a \<and> unat a < unat f + n * 4096" for a
  proof -
    have "a < mem_pgtbl_base m2" using that n(1) lay(9) by (simp add: word_less_nat_alt wf(2) w(2))
    then show ?thesis using b(8) elf(2) that outside_below by simp
  qed
  have load: "loadable lim L f n img m2"
    unfolding w(2)
    by (rule boot_loadable [OF bd(1) wf bd(2) left' [unfolded w(2)]])
       (use elf(1) n(1) away pool flash in \<open>simp_all add: w(2)\<close>)
  have init: "vpn (nth_page ?F k) = vpn ?F + k" if "k < page_num i" for k
    using region_page(1) [OF lay(2), of k] that n(2) by simp
  have us: "usable lim m2 ?h" "usable lim m2 (buf_va blk)" "\<forall>k<page_num i. usable lim m2 (nth_page ?F k)"
    using bd(2) lay(6,7) away(2) pool init n(2) by auto
  have apart: "\<not> same_path 4 (buf_va blk) ?h" "\<forall>k<page_num i. \<not> same_path 4 ?h (nth_page ?F k) \<and> \<not> same_path 4 (buf_va blk) (nth_page ?F k)"
    "\<forall>v\<in>set (elf_image_pages L f n img). \<not> same_path 4 v ?h \<and> \<not> same_path 4 v (buf_va blk) \<and> (\<forall>k<page_num i. \<not> same_path 4 v (nth_page ?F k))"
    using away lay(8) init n(2) unfolding vpn_path4 taken_def by (auto simp: image_iff)
  let ?s = "s\<lparr>el1_mm := m2\<rparr>"
  have sz: "unat i + 4095 < 2 ^ 64" using n(2) by (intro page_num_small) simp
  obtain s' where "\<forall>late. el1_start L hw late blk ?F i ?s = map_option (\<lambda>e. (e, SPSR_EL0, s'\<lparr>el1_elr := e\<rparr>)) (late_entry L late f s')"
    "\<forall>late. header_cached f img late \<longrightarrow> late_entry L late f s' = Some (fld (eh_entry L) img f)"
    "pt_inv lim (el1_mm s')" "el1_sysc_va s' = ?h" "el1_sysc s' = blk"
    "mem_lookup_pa ?h (el1_mm s') = el1_sysc_va ?s AND DESC_ADDR" "mem_lookup_pa (buf_va blk) (el1_mm s') = buf_pa blk AND DESC_ADDR"
    "\<forall>k<page_num i. mem_lookup_pa (nth_page ?F k) (el1_mm s') = - 1" "sections_at (vm_rd aarch64_vm s') L f img"
    using el1_start_enters_el0 [of f ?s lim L n img "page_num i" i ?h blk ?F hw] w load left sz us apart b(7)
    by (auto simp: page_num_def)
  then show ?thesis using b(1,2,4,5) by auto
qed

end
