(* ===== verification/BootDemo.thy ===== *)
theory BootDemo
  imports El1Reset El3Demo ElfDemo
begin

text \<open>Closed instances of the boot properties: RAM as it is after reset, images of eight
  pages, and the EL0 image of \<open>ElfDemo\<close> in flash.\<close>

definition reset_mm :: mm where
  "reset_mm = \<lparr>mem_pgtbl_base = 0, mem_next_pa = 0, mem_next_l1_page = 0, mem_heap_pool = EL3_VA_HEAP_BASE, mem_bytes = (\<lambda>_. 0)\<rparr>"

lemma reset_zero: "zero_page reset_mm p"
  by (simp add: zero_page_def rd64_def reset_mm_def load64_def loadn_zero)

lemma demo_sizes: "image_pages 0xC00 0x4010 0x1801 = 8" "page_num 0x4010 + page_num 0x1801 = 7" "page_num 0xC00 = 1"
  by (simp_all add: image_pages_def page_num_def)

lemma el3_reset_to_el1_witness:
  "\<exists>m1 m s'. el3_init_maps (image_lds EL3_FLASH_BASE EL3_BASE_VA 0xC00 0x4010 0x1801) reset_mm = Some m1 \<and>
     el3_copy (image_lds EL3_FLASH_BASE EL3_BASE_VA 0xC00 0x4010 0x1801) m1 = Some m \<and>
     el3_start EL3_FLASH_BASE 0xC00 (demo_el3\<lparr>el3_mm := m\<rparr>) = Some s' \<and> el3_inv s' \<and>
     mem_lookup_pa EL3_FLASH_BASE (el3_mm s') = - 1 \<and> r_elr_el3 (cpu_of s') = EL1_S_FLASH_BASE"
proof -
  let ?s = "demo_el3\<lparr>el3_mm := reset_mm\<rparr>" and ?y = "image_lds EL3_FLASH_BASE EL3_BASE_VA 0xC00 0x4010 0x1801"
  have cpu: "el3_mode (cpu_of ?s)" "ucast (secure_state ?s) = r_scr_el3 (cpu_of ?s) AND 1"
    using demo_el3_inv by (simp_all add: el3_inv_def)
  have z: "\<forall>p. aligned 12 p \<and> EL3_PGTBL_BASE \<le> p \<and> p < EL3_PGTBL_BASE + EL3_PGTBL_SIZE \<longrightarrow> zero_page (el3_mm ?s) p"
    using reset_zero by simp
  have h: "mem_heap_pool (el3_mm ?s) = EL3_VA_HEAP_BASE" by (simp add: reset_mm_def)
  have fits: "image_pages 0xC00 0x4010 0x1801 \<le> 16" using demo_sizes by simp
  obtain m1 m s' where r: "el3_init_maps ?y (el3_mm ?s) = Some m1" "el3_copy ?y m1 = Some m"
    "el3_start EL3_FLASH_BASE 0xC00 (?s\<lparr>el3_mm := m\<rparr>) = Some s'" "el3_inv s'"
    "\<forall>k<page_num 0xC00. mem_lookup_pa (nth_page EL3_FLASH_BASE k) (el3_mm s') = - 1" "r_elr_el3 (cpu_of s') = EL1_S_FLASH_BASE"
    using el3_reset_to_el1 [OF z fits h cpu refl] by blast
  have "mem_lookup_pa EL3_FLASH_BASE (el3_mm s') = - 1" using r(5) [unfolded demo_sizes(3), rule_format, of 0] by simp
  then show ?thesis using r(1-4,6) by simp
qed

definition reset_flash :: mm where
  "reset_flash = reset_mm\<lparr>mem_heap_pool := EL1_S_VA_HEAP_BASE,
     mem_bytes := (\<lambda>a. if drop_bit 12 a = 0x50 \<or> drop_bit 12 a = 0x51 then image_at image64 (0x50000 :: u64) a else 0)\<rparr>"

lemma reset_flash_zero:
  assumes "aligned 12 p" "0x52000 \<le> p"
  shows "zero_page reset_flash p"
proof -
  have "0x52 \<le> unat p div 4096" using assms(2) by (simp add: word_le_nat_alt)
  then have p: "drop_bit 12 p \<noteq> 0x50" "drop_bit 12 p \<noteq> 0x51" unfolding unat_drop12 [symmetric] by auto
  have "rd64 reset_flash (slot p v i) = rd64 reset_mm (slot p v i)" for v i
    by (rule rd64_slot_cong [OF assms(1)]) (use p in \<open>simp add: reset_flash_def reset_mm_def\<close>)
  then show ?thesis using reset_zero by (simp add: zero_page_def)
qed

lemma el1_reset_to_el0_witness:
  "\<exists>m1 m2 s'. el1_init_maps SECURE (image_lds EL1_S_FLASH_BASE EL1_S_BASE_VA 0xC00 0x4010 0x1801) reset_flash = Some m1 \<and>
     el1_copy (image_lds EL1_S_FLASH_BASE EL1_S_BASE_VA 0xC00 0x4010 0x1801) m1 = Some m2 \<and>
     el1_start elf64 load_hw demo_tlb (demo_syscntl\<lparr>buf_va := 0x40100000, buf_pa := 0x90001000\<rparr>) EL1_S_FLASH_BASE 0xC00
       (demo_el1\<lparr>el1_mm := m2\<rparr>) = Some (0x80010000, SPSR_EL0, s') \<and>
     mem_lookup_pa EL1_S_FLASH_BASE (el1_mm s') = - 1"
proof -
  let ?s = "demo_el1\<lparr>el1_mm := reset_flash\<rparr>" and ?blk = "demo_syscntl\<lparr>buf_va := 0x40100000, buf_pa := 0x90001000\<rparr>"
  let ?img = "image_at image64 (0x50000 :: u64)" and ?lim = "EL1_PGTBL_BASE SECURE + EL1_PGTBL_SIZE SECURE"
  have names: "EL1_FLASH_BASE SECURE = EL1_S_FLASH_BASE" "EL1_BASE_VA SECURE = EL1_S_BASE_VA" "EL1_PGTBL_BASE SECURE = 0x41040000"
    "EL1_VA_HEAP_BASE SECURE = EL1_S_VA_HEAP_BASE" "el1_secure ?s = SECURE" "el0_flash_base SECURE = 0x50000"
    by (simp_all add: EL1_FLASH_BASE_def EL1_BASE_VA_def EL1_VA_HEAP_BASE_def EL1_PGTBL_BASE_def el0_flash_base_def demo_el1_def c_const)
  have z: "\<forall>p. aligned 12 p \<and> EL1_PGTBL_BASE SECURE \<le> p \<and> p < ?lim \<longrightarrow> zero_page (el1_mm ?s) p"
  proof (intro allI impI)
    fix p assume p: "aligned 12 p \<and> EL1_PGTBL_BASE SECURE \<le> p \<and> p < ?lim"
    have "0x52000 \<le> (0x41040000 :: u64)" by simp
    then have "0x52000 \<le> p" using p unfolding names by (meson order_trans)
    then show "zero_page (el1_mm ?s) p" using reset_flash_zero p by simp
  qed
  have h: "mem_heap_pool (el1_mm ?s) = EL1_VA_HEAP_BASE SECURE" by (simp add: names reset_flash_def)
  have fits: "image_pages 0xC00 0x4010 0x1801 \<le> 16" using demo_sizes by simp
  have "(0x50000 :: u64) = push_bit 12 0x50" by simp
  then have al: "take_bit 12 (0x50000 :: u64) = 0" by (simp only: take_bit_push_bit) simp
  have bytes: "mem_bytes (el1_mm ?s) a = ?img a" if "unat (0x50000 :: u64) \<le> unat a \<and> unat a < unat (0x50000 :: u64) + 2 * 4096" for a
  proof -
    have "unat (drop_bit 12 a) = 0x50 \<or> unat (drop_bit 12 a) = 0x51" using that unfolding unat_drop12 by auto
    then have "drop_bit 12 a = 0x50 \<or> drop_bit 12 a = 0x51" by (auto simp: word_unat_eq_iff)
    then show ?thesis by (simp add: reset_flash_def)
  qed
  have room: "page_num 0x4010 + page_num 0x1801 + 10 + 4 * (2 + length (elf_addrs elf64 ?img 0x50000)) \<le> 34"
    using arg_cong [OF image64_pages [of "0x50000"], of length] demo_sizes(2) unfolding elf_image_pages_def by simp
  have tk: "taken SECURE 0xC00 = {0x41040..<0x41080} \<union> {0x10..<0x11} \<union> {0xC001000}"
    unfolding taken_def names demo_sizes by (simp add: vpn_def EL1_S_FLASH_BASE_def FLASH_BASE_def EL1_S_VA_HEAP_BASE_def EL1_S_BASE_VA_def)
  have away: "distinct (map vpn (buf_va ?blk # elf_image_pages elf64 0x50000 2 ?img))"
    "\<forall>v\<in>set (buf_va ?blk # elf_image_pages elf64 0x50000 2 ?img). vpn v \<notin> taken SECURE 0xC00"
    by (simp_all add: image64_pages tk vpn_def)
  obtain m1 m2 s' where r: "el1_init_maps SECURE (image_lds EL1_S_FLASH_BASE EL1_S_BASE_VA 0xC00 0x4010 0x1801) (el1_mm ?s) = Some m1"
    "el1_copy (image_lds EL1_S_FLASH_BASE EL1_S_BASE_VA 0xC00 0x4010 0x1801) m1 = Some m2"
    "el1_start elf64 load_hw demo_tlb ?blk EL1_S_FLASH_BASE 0xC00 (?s\<lparr>el1_mm := m2\<rparr>) = Some (fld (eh_entry elf64) ?img 0x50000, SPSR_EL0, s')"
    "\<forall>k<page_num 0xC00. mem_lookup_pa (nth_page EL1_S_FLASH_BASE k) (el1_mm s') = - 1"
    using el1_reset_to_el0 [OF names(5) [symmetric] names(6) [symmetric] refl z h fits refl image64_ok [OF al] _ room away, of load_hw]
      bytes demo_tlb_cached unfolding names by fastforce
  have "mem_lookup_pa EL1_S_FLASH_BASE (el1_mm s') = - 1" using r(4) [unfolded demo_sizes(3), rule_format, of 0] by simp
  then show ?thesis using r(1-3) by (simp add: fields64)
qed

end
