(* ===== verification/Platform.thy ===== *)
theory Platform
  imports Layout
begin

text \<open>
  The memory map of the AArch32 build, \<^verbatim>\<open>common/arm/memory.h\<close>, as functions of the platform
  (\<^verbatim>\<open>platform/*/platform.h\<close>), the descriptor attributes of \<^verbatim>\<open>common/arm/vmsa.h\<close> that the boot
  code uses, and the syndrome layouts of \<^verbatim>\<open>common/arm/exception.h\<close>. A macro has the suffix 32
  where \<open>Layout\<close> has the AArch64 one. The result of the theory is how the areas of RAM and
  the windows of virtual addresses lie to each other on the three platforms.
\<close>

section \<open>Platforms\<close>

record platform =
  p_flash_base :: u32
  p_flash_size :: u32
  p_ram_base :: u32
  p_ram_size :: u32
  p_uart0_base :: u32
  p_sysreg_base :: u32

text \<open>\<^verbatim>\<open>RAM_SIZE\<close> of the virt platform, \<^verbatim>\<open>2*1024*1024*1024\<close>, overflows a C \<^verbatim>\<open>int\<close>; no code uses it.\<close>

definition virt :: platform where
  "virt = \<lparr>p_flash_base = 0x00000000, p_flash_size = 0x08000000, p_ram_base = 0x40000000,
     p_ram_size = 2 * 1024 * 1024 * 1024, p_uart0_base = 0x09000000, p_sysreg_base = 0x1c010000\<rparr>"

definition vexpress_a15 :: platform where
  "vexpress_a15 = \<lparr>p_flash_base = 0x00000000, p_flash_size = 64 * 1024 * 1024, p_ram_base = 0x80000000,
     p_ram_size = 1 * 1024 * 1024 * 1024, p_uart0_base = 0x1c090000, p_sysreg_base = 0x1c010000\<rparr>"

definition vexpress_a9 :: platform where
  "vexpress_a9 = \<lparr>p_flash_base = 0x00000000, p_flash_size = 64 * 1024 * 1024, p_ram_base = 0x60000000,
     p_ram_size = 1 * 1024 * 1024 * 1024, p_uart0_base = 0x10009000, p_sysreg_base = 0x10000000\<rparr>"

section \<open>Memory map\<close>

definition VA_SIZE32 :: "u32" where
  [c_const]: "VA_SIZE32 = 32"

definition TnSZ32 :: "u32" where
  [c_const]: "TnSZ32 = (32 - VA_SIZE32)"

definition STACK_SIZE32 :: "u32" where
  [c_const]: "STACK_SIZE32 = 0x40000"

definition EL3_FLASH_BASE32 :: "platform \<Rightarrow> u32" where
  [c_const]: "EL3_FLASH_BASE32 p = p_flash_base p"

definition EL3_RAM_BASE32 :: "platform \<Rightarrow> u32" where
  [c_const]: "EL3_RAM_BASE32 p = p_ram_base p"

definition EL3_RAM_SIZE32 :: "u32" where
  [c_const]: "EL3_RAM_SIZE32 = (512 * 1024)"

definition EL3_BASE_VA32 :: "u32" where
  [c_const]: "EL3_BASE_VA32 = 0x70000000"

definition EL1_S_PGTBL_SIZE32 :: "u32" where
  [c_const]: "EL1_S_PGTBL_SIZE32 = 0x40000"

definition EL3_PGTBL_SIZE32 :: "u32" where
  [c_const]: "EL3_PGTBL_SIZE32 = EL1_S_PGTBL_SIZE32"

definition EL1_S_RAM_BASE32 :: "platform \<Rightarrow> u32" where
  [c_const]: "EL1_S_RAM_BASE32 p = (p_ram_base p + 0xC000000)"

definition EL1_S_PGTBL_BASE32 :: "platform \<Rightarrow> u32" where
  [c_const]: "EL1_S_PGTBL_BASE32 p = EL1_S_RAM_BASE32 p"

definition EL3_PGTBL_BASE32 :: "platform \<Rightarrow> u32" where
  [c_const]: "EL3_PGTBL_BASE32 p = EL1_S_PGTBL_BASE32 p"

definition EL3_STACK_SIZE32 :: "u32" where
  [c_const]: "EL3_STACK_SIZE32 = STACK_SIZE32"

definition EL3_STACK_BASE32 :: "u32" where
  [c_const]: "EL3_STACK_BASE32 = 0x7FFF0000"

definition EL3_PTE_POOL_BASE32 :: "platform \<Rightarrow> u32" where
  [c_const]: "EL3_PTE_POOL_BASE32 p = EL3_RAM_BASE32 p"

definition EL3_PA_POOL_BASE32 :: "platform \<Rightarrow> u32" where
  [c_const]: "EL3_PA_POOL_BASE32 p = (EL3_PTE_POOL_BASE32 p + (0x40000 - 0x4000))"

definition EL3_INIT_STACK32 :: "platform \<Rightarrow> u32" where
  [c_const]: "EL3_INIT_STACK32 p = EL3_RAM_BASE32 p + EL3_RAM_SIZE32 - 0x1000"

definition EL3_VA_HEAP_BASE32 :: "u32" where
  [c_const]: "EL3_VA_HEAP_BASE32 = EL3_BASE_VA32 + 0x1000000"

definition EL1_S_FLASH_BASE32 :: "platform \<Rightarrow> u32" where
  [c_const]: "EL1_S_FLASH_BASE32 p = (p_flash_base p + 0x10000)"

definition EL1_S_RAM_SIZE32 :: "u32" where
  [c_const]: "EL1_S_RAM_SIZE32 = (512 * 1024)"

definition EL1_S_BASE_VA32 :: "u32" where
  [c_const]: "EL1_S_BASE_VA32 = 0x60000000"

definition EL1_S_STACK_SIZE32 :: "u32" where
  [c_const]: "EL1_S_STACK_SIZE32 = STACK_SIZE32"

definition EL1_S_STACK_BASE32 :: "u32" where
  [c_const]: "EL1_S_STACK_BASE32 = 0x6FFFF000"

definition EL1_S_ABT_STACK_BASE32 :: "u32" where
  [c_const]: "EL1_S_ABT_STACK_BASE32 = EL1_S_STACK_BASE32"

definition EL1_S_IRQ_STACK_BASE32 :: "u32" where
  [c_const]: "EL1_S_IRQ_STACK_BASE32 = EL1_S_ABT_STACK_BASE32 - 0x2000"

definition EL1_S_UND_STACK_BASE32 :: "u32" where
  [c_const]: "EL1_S_UND_STACK_BASE32 = EL1_S_IRQ_STACK_BASE32 - 0x2000"

definition EL1_S_SVC_STACK_BASE32 :: "u32" where
  [c_const]: "EL1_S_SVC_STACK_BASE32 = EL1_S_UND_STACK_BASE32 - 0x2000"

definition EL1_S_PA_POOL_BASE32 :: "platform \<Rightarrow> u32" where
  [c_const]: "EL1_S_PA_POOL_BASE32 p = (EL1_S_PGTBL_BASE32 p + EL1_S_PGTBL_SIZE32)"

definition EL1_S_PTE_POOL_BASE32 :: "platform \<Rightarrow> u32" where
  [c_const]: "EL1_S_PTE_POOL_BASE32 p = (EL1_S_PGTBL_BASE32 p + 0x4000)"

definition EL1_S_INIT_STACK32 :: "platform \<Rightarrow> u32" where
  [c_const]: "EL1_S_INIT_STACK32 p = EL1_S_RAM_BASE32 p + EL1_S_RAM_SIZE32 - 0x1000"

definition EL1_S_VA_HEAP_BASE32 :: "u32" where
  [c_const]: "EL1_S_VA_HEAP_BASE32 = EL1_S_BASE_VA32 + 0x1000000"

definition EL1_NS_FLASH_BASE32 :: "platform \<Rightarrow> u32" where
  [c_const]: "EL1_NS_FLASH_BASE32 p = (p_flash_base p + 0x20000)"

definition EL1_NS_RAM_BASE32 :: "platform \<Rightarrow> u32" where
  [c_const]: "EL1_NS_RAM_BASE32 p = (p_ram_base p + 0x8000000)"

definition EL1_NS_RAM_SIZE32 :: "u32" where
  [c_const]: "EL1_NS_RAM_SIZE32 = (512 * 1024)"

definition EL1_NS_BASE_VA32 :: "u32" where
  [c_const]: "EL1_NS_BASE_VA32 = 0x50000000"

definition EL1_NS_PGTBL_SIZE32 :: "u32" where
  [c_const]: "EL1_NS_PGTBL_SIZE32 = 0x40000"

definition EL1_NS_PGTBL_BASE32 :: "platform \<Rightarrow> u32" where
  [c_const]: "EL1_NS_PGTBL_BASE32 p = EL1_NS_RAM_BASE32 p"

definition EL1_NS_STACK_SIZE32 :: "u32" where
  [c_const]: "EL1_NS_STACK_SIZE32 = STACK_SIZE32"

definition EL1_NS_STACK_BASE32 :: "u32" where
  [c_const]: "EL1_NS_STACK_BASE32 = 0x5FFF0000"

definition EL1_NS_ABT_STACK_BASE32 :: "u32" where
  [c_const]: "EL1_NS_ABT_STACK_BASE32 = EL1_NS_STACK_BASE32"

definition EL1_NS_IRQ_STACK_BASE32 :: "u32" where
  [c_const]: "EL1_NS_IRQ_STACK_BASE32 = EL1_NS_ABT_STACK_BASE32 - 0x2000"

definition EL1_NS_UND_STACK_BASE32 :: "u32" where
  [c_const]: "EL1_NS_UND_STACK_BASE32 = EL1_NS_IRQ_STACK_BASE32 - 0x2000"

definition EL1_NS_SVC_STACK_BASE32 :: "u32" where
  [c_const]: "EL1_NS_SVC_STACK_BASE32 = EL1_NS_UND_STACK_BASE32 - 0x2000"

definition EL1_NS_PA_POOL_BASE32 :: "platform \<Rightarrow> u32" where
  [c_const]: "EL1_NS_PA_POOL_BASE32 p = (EL1_NS_PGTBL_BASE32 p + EL1_NS_PGTBL_SIZE32)"

definition EL1_NS_PTE_POOL_BASE32 :: "platform \<Rightarrow> u32" where
  [c_const]: "EL1_NS_PTE_POOL_BASE32 p = (EL1_NS_PGTBL_BASE32 p + 0x4000)"

definition EL1_NS_INIT_STACK32 :: "platform \<Rightarrow> u32" where
  [c_const]: "EL1_NS_INIT_STACK32 p = EL1_NS_RAM_BASE32 p + EL1_NS_RAM_SIZE32 - 0x1000"

definition EL1_NS_VA_HEAP_BASE32 :: "u32" where
  [c_const]: "EL1_NS_VA_HEAP_BASE32 = EL1_NS_BASE_VA32 + 0x1000000"

definition EL0_S_FLASH_BASE32 :: "platform \<Rightarrow> u32" where
  [c_const]: "EL0_S_FLASH_BASE32 p = (p_flash_base p + 0x50000)"

definition EL0_S_RAM_BASE32 :: "platform \<Rightarrow> u32" where
  [c_const]: "EL0_S_RAM_BASE32 p = (p_ram_base p + 0x4000000)"

definition EL0_S_RAM_SIZE32 :: "u32" where
  [c_const]: "EL0_S_RAM_SIZE32 = (512 * 1024)"

definition EL0_S_BASE_VA32 :: "u32" where
  [c_const]: "EL0_S_BASE_VA32 = 0x000C0000"

definition EL0_S_STACK_SIZE32 :: "u32" where
  [c_const]: "EL0_S_STACK_SIZE32 = STACK_SIZE32"

definition EL0_S_STACK_BASE32 :: "u32" where
  [c_const]: "EL0_S_STACK_BASE32 = 0xEFF0000"

definition EL0_NS_FLASH_BASE32 :: "platform \<Rightarrow> u32" where
  [c_const]: "EL0_NS_FLASH_BASE32 p = (p_flash_base p + 0x30000)"

definition EL0_NS_RAM_BASE32 :: "platform \<Rightarrow> u32" where
  [c_const]: "EL0_NS_RAM_BASE32 p = (p_ram_base p + 0x4000000)"

definition EL0_NS_RAM_SIZE32 :: "u32" where
  [c_const]: "EL0_NS_RAM_SIZE32 = (512 * 1024)"

definition EL0_NS_BASE_VA32 :: "u32" where
  [c_const]: "EL0_NS_BASE_VA32 = 0x00080000"

definition EL0_NS_STACK_SIZE32 :: "u32" where
  [c_const]: "EL0_NS_STACK_SIZE32 = STACK_SIZE32"

definition EL0_NS_STACK_BASE32 :: "u32" where
  [c_const]: "EL0_NS_STACK_BASE32 = 0xFFF0000"

section \<open>Descriptor attributes\<close>

definition ARMV7_PAGE_RW :: u32 where [c_const]: "ARMV7_PAGE_RW = push_bit 9 0"
definition ARMV7_PAGE_RO :: u32 where [c_const]: "ARMV7_PAGE_RO = push_bit 9 1"
definition ARMV7_PAGE_PRIV :: u32 where [c_const]: "ARMV7_PAGE_PRIV = push_bit 5 0"
definition ARMV7_PAGE_USER :: u32 where [c_const]: "ARMV7_PAGE_USER = push_bit 5 1"
definition ARMV7_PAGE_ACCESS :: u32 where [c_const]: "ARMV7_PAGE_ACCESS = push_bit 4 1"
definition PTE32_PRIV_RO :: u32 where [c_const]: "PTE32_PRIV_RO = ARMV7_PAGE_ACCESS OR ARMV7_PAGE_PRIV OR ARMV7_PAGE_RO"
definition PTE32_USER_RO :: u32 where [c_const]: "PTE32_USER_RO = ARMV7_PAGE_ACCESS OR ARMV7_PAGE_USER OR ARMV7_PAGE_RO"

section \<open>Regions\<close>

type_synonym region = "u32 \<times> u32"

definition apart_regions :: "region \<Rightarrow> region \<Rightarrow> bool" where
  "apart_regions r r' \<longleftrightarrow> uint (fst r) + uint (snd r) \<le> uint (fst r') \<or> uint (fst r') + uint (snd r') \<le> uint (fst r)"

definition inside :: "region \<Rightarrow> region \<Rightarrow> bool" where
  "inside r r' \<longleftrightarrow> uint (fst r') \<le> uint (fst r) \<and> uint (fst r) + uint (snd r) \<le> uint (fst r') + uint (snd r')"

fun all_apart :: "region list \<Rightarrow> bool" where
  "all_apart [] \<longleftrightarrow> True"
| "all_apart (r # rs) \<longleftrightarrow> list_all (apart_regions r) rs \<and> all_apart rs"

text \<open>The areas of RAM, the tables in them, and the window of virtual addresses from the image to
  the top of the stacks at each level.\<close>

definition ram_areas :: "platform \<Rightarrow> region list" where
  "ram_areas p = [(EL3_RAM_BASE32 p, EL3_RAM_SIZE32), (EL0_S_RAM_BASE32 p, EL0_S_RAM_SIZE32),
     (EL0_NS_RAM_BASE32 p, EL0_NS_RAM_SIZE32),
     (EL1_NS_RAM_BASE32 p, EL1_NS_RAM_SIZE32), (EL1_S_RAM_BASE32 p, EL1_S_RAM_SIZE32)]"

definition va_windows :: "region list" where
  "va_windows = [(EL0_NS_BASE_VA32, 0x40000), (EL0_S_BASE_VA32, 0x40000),
     (EL0_S_STACK_BASE32 - STACK_SIZE32, STACK_SIZE32), (EL0_NS_STACK_BASE32 - STACK_SIZE32, STACK_SIZE32),
     (EL1_NS_BASE_VA32, EL1_NS_STACK_BASE32 - EL1_NS_BASE_VA32), (EL1_S_BASE_VA32, EL1_S_STACK_BASE32 - EL1_S_BASE_VA32),
     (EL3_BASE_VA32, EL3_STACK_BASE32 - EL3_BASE_VA32)]"

definition secure_window :: region where
  "secure_window = (EL1_S_BASE_VA32, EL1_S_STACK_BASE32 - EL1_S_BASE_VA32)"

text \<open>What EL3 maps at its own address in the first-level table it shares with secure EL1: the init,
  text and data sections in its part of the flash (which ends where the image of secure EL1
  starts), the first page of secure EL1's image, the tables and pools, and the two devices.\<close>

definition el3_direct :: "platform \<Rightarrow> region list" where
  "el3_direct p = [(EL3_FLASH_BASE32 p, 0x10000), (EL1_S_FLASH_BASE32 p, 0x1000), (EL3_PGTBL_BASE32 p, 0x4000), (EL3_PTE_POOL_BASE32 p, 0x3C000),
     (p_uart0_base p, 0x1000), (p_sysreg_base p, 0x1000)]"

lemmas region_defs = apart_regions_def inside_def ram_areas_def va_windows_def secure_window_def el3_direct_def

text \<open>On each of the three platforms the RAM areas lie in RAM and do not overlap, except that the two
  EL0 images are given the same one (which no code uses); the pools of every level lie in its own
  area below its boot stack, and the
  windows of virtual addresses do not overlap. What EL3 maps directly is outside the window of
  secure EL1, which uses the same first-level table, on the virt platform and the Cortex-A15, but
  not on the Cortex-A9: there the page tables of EL3 are mapped where the image of secure EL1 starts.\<close>

lemma arm_layout:
  assumes "p \<in> {virt, vexpress_a15, vexpress_a9}"
  shows "all_apart (remdups (ram_areas p)) \<and> list_all (\<lambda>r. inside r (p_ram_base p, p_ram_size p)) (ram_areas p) \<and>
     all_apart va_windows \<and>
     EL3_PGTBL_BASE32 p = EL1_S_PGTBL_BASE32 p \<and>
     inside (EL3_PTE_POOL_BASE32 p, EL3_PA_POOL_BASE32 p - EL3_PTE_POOL_BASE32 p) (EL3_RAM_BASE32 p, EL3_INIT_STACK32 p - EL3_RAM_BASE32 p) \<and>
     inside (EL1_S_PGTBL_BASE32 p, EL1_S_PGTBL_SIZE32) (EL1_S_RAM_BASE32 p, EL1_S_INIT_STACK32 p - EL1_S_RAM_BASE32 p) \<and>
     inside (EL1_NS_PGTBL_BASE32 p, EL1_NS_PGTBL_SIZE32) (EL1_NS_RAM_BASE32 p, EL1_NS_INIT_STACK32 p - EL1_NS_RAM_BASE32 p) \<and>
     EL1_S_PA_POOL_BASE32 p < EL1_S_INIT_STACK32 p \<and> EL1_NS_PA_POOL_BASE32 p < EL1_NS_INIT_STACK32 p \<and>
     (list_all (apart_regions secure_window) (el3_direct p) \<longleftrightarrow> p \<noteq> vexpress_a9) \<and>
     (EL3_PTE_POOL_BASE32 p = EL1_S_BASE_VA32 \<longleftrightarrow> p = vexpress_a9)"
  using assms
  by (elim insertE emptyE; simp add: region_defs virt_def vexpress_a15_def vexpress_a9_def c_const)

text \<open>Secure and non-secure EL0 are given the same RAM area; no code uses it.\<close>

lemma el0_ram_shared: "EL0_S_RAM_BASE32 p = EL0_NS_RAM_BASE32 p" "EL0_S_RAM_BASE = EL0_NS_RAM_BASE"
  by (simp_all add: c_const)

section \<open>Syndromes\<close>

text \<open>A bit field of a syndrome, from bit \<open>o\<close> on, \<open>n\<close> bits wide; the compilers of both
  architectures allocate fields from the low end.\<close>

definition bits_at :: "nat \<Rightarrow> nat \<Rightarrow> u32 \<Rightarrow> u32" where
  "bits_at b n raw = take_bit n (drop_bit b raw)"

record armv8_data_abort_iss_t =
  da_dfsc :: u32
  da_wnr :: u32
  da_s1ptw :: u32
  da_cm :: u32
  da_ea :: u32
  da_fnv :: u32
  da_res0 :: u32
  da_ar :: u32
  da_sf :: u32
  da_srt :: u32
  da_sse :: u32
  da_sas :: u32
  da_isv :: u32

definition data_abort_iss :: "u32 \<Rightarrow> armv8_data_abort_iss_t" where
  "data_abort_iss raw =
     \<lparr>da_dfsc = bits_at 0 6 raw, da_wnr = bits_at 6 1 raw, da_s1ptw = bits_at 7 1 raw, da_cm = bits_at 8 1 raw,
      da_ea = bits_at 9 1 raw, da_fnv = bits_at 10 1 raw, da_res0 = bits_at 11 3 raw, da_ar = bits_at 14 1 raw,
      da_sf = bits_at 15 1 raw, da_srt = bits_at 16 5 raw, da_sse = bits_at 21 1 raw, da_sas = bits_at 22 2 raw,
      da_isv = bits_at 24 1 raw\<rparr>"

record armv8_inst_abort_iss_t =
  ia_ifsc :: u32
  ia_res0_0 :: u32
  ia_s1ptw :: u32
  ia_res0_1 :: u32
  ia_ea :: u32
  ia_fnv :: u32
  ia_res0_2 :: u32

definition inst_abort_iss :: "u32 \<Rightarrow> armv8_inst_abort_iss_t" where
  "inst_abort_iss raw =
     \<lparr>ia_ifsc = bits_at 0 6 raw, ia_res0_0 = bits_at 6 1 raw, ia_s1ptw = bits_at 7 1 raw, ia_res0_1 = bits_at 8 1 raw,
      ia_ea = bits_at 9 1 raw, ia_fnv = bits_at 10 1 raw, ia_res0_2 = bits_at 11 3 raw\<rparr>"

text \<open>The two layouts agree on the fields they share; two syndromes with the same fields are equal
  in the 25 bits a syndrome has.\<close>

lemma abort_iss_agree:
  "ia_ifsc (inst_abort_iss w) = da_dfsc (data_abort_iss w)" "ia_s1ptw (inst_abort_iss w) = da_s1ptw (data_abort_iss w)"
  "ia_ea (inst_abort_iss w) = da_ea (data_abort_iss w)" "ia_fnv (inst_abort_iss w) = da_fnv (data_abort_iss w)"
  by (simp_all add: inst_abort_iss_def data_abort_iss_def)

lemma bits_at_bit: "bits_at b n v = bits_at b n w \<Longrightarrow> b \<le> k \<Longrightarrow> k < b + n \<Longrightarrow> bit v k = bit w k"
proof -
  assume e: "bits_at b n v = bits_at b n w" and k: "b \<le> k" "k < b + n"
  have "k - b < n" using k by linarith
  then show "bit v k = bit w k"
    using arg_cong [OF e, of "\<lambda>x. bit x (k - b)"] k(1) by (simp add: bits_at_def bit_take_bit_iff bit_drop_bit_eq)
qed

lemma bits_at_extend: "take_bit b v = take_bit b w \<and> bits_at b n v = bits_at b n w \<Longrightarrow> take_bit (b + n) v = take_bit (b + n) w"
proof -
  assume e: "take_bit b v = take_bit b w \<and> bits_at b n v = bits_at b n w"
  have "bit v k = bit w k" if "k < b + n" for k
  proof (cases "k < b")
    case True
    then show ?thesis using arg_cong [OF conjunct1 [OF e], of "\<lambda>x. bit x k"] by (simp add: bit_take_bit_iff)
  next
    case False
    then show ?thesis using bits_at_bit [OF conjunct2 [OF e]] that by simp
  qed
  then show ?thesis by (intro bit_word_eqI) (auto simp: bit_take_bit_iff)
qed

lemma data_abort_iss_inj:
  assumes "data_abort_iss v = data_abort_iss w" shows "take_bit 25 v = take_bit 25 w"
proof -
  note f = assms [unfolded data_abort_iss_def armv8_data_abort_iss_t.ext_inject]
  have t6: "take_bit 6 v = take_bit 6 w" using bits_at_extend [of 0 v w 6] f by simp
  have t7: "take_bit 7 v = take_bit 7 w" using bits_at_extend [of 6 v w 1] t6 f by simp
  have t8: "take_bit 8 v = take_bit 8 w" using bits_at_extend [of 7 v w 1] t7 f by simp
  have t9: "take_bit 9 v = take_bit 9 w" using bits_at_extend [of 8 v w 1] t8 f by simp
  have t10: "take_bit 10 v = take_bit 10 w" using bits_at_extend [of 9 v w 1] t9 f by simp
  have t11: "take_bit 11 v = take_bit 11 w" using bits_at_extend [of 10 v w 1] t10 f by simp
  have t14: "take_bit 14 v = take_bit 14 w" using bits_at_extend [of 11 v w 3] t11 f by simp
  have t15: "take_bit 15 v = take_bit 15 w" using bits_at_extend [of 14 v w 1] t14 f by simp
  have t16: "take_bit 16 v = take_bit 16 w" using bits_at_extend [of 15 v w 1] t15 f by simp
  have t21: "take_bit 21 v = take_bit 21 w" using bits_at_extend [of 16 v w 5] t16 f by simp
  have t22: "take_bit 22 v = take_bit 22 w" using bits_at_extend [of 21 v w 1] t21 f by simp
  have t24: "take_bit 24 v = take_bit 24 w" using bits_at_extend [of 22 v w 2] t22 f by simp
  show "take_bit 25 v = take_bit 25 w" using bits_at_extend [of 24 v w 1] t24 f by simp
qed

end
