(* ===== verification/Boot32.thy ===== *)
theory Boot32
  imports PageTable32Ops Platform BootProofs
begin

text \<open>
  The boot code of the AArch32 images: the routines of \<^verbatim>\<open>common/arm/init_util.S\<close> and the
  mappings of \<^verbatim>\<open>el3/arm/el3_init.S\<close> and \<^verbatim>\<open>el1/arm/el1_init.S\<close>. Besides the state of
  \<open>PageTable32\<close> there is a second pool, for second-level tables, and the table base register.
  A loop runs down a length and ends at 0 only; \<open>None\<close> is one that never gets there.
\<close>

section \<open>The routines\<close>

record boot32 =
  b_mm :: mm32
  b_l1_page :: u32
  b_ttbr0 :: u32

definition boot_allocate_pa32 :: "boot32 \<Rightarrow> u32 \<times> boot32" where
  "boot_allocate_pa32 s = (mem_next_pa32 (b_mm s), s\<lparr>b_mm := (b_mm s)\<lparr>mem_next_pa32 := mem_next_pa32 (b_mm s) + 0x1000\<rparr>\<rparr>)"

definition allocate_l1_page :: "boot32 \<Rightarrow> u32 \<times> boot32" where
  "allocate_l1_page s = (b_l1_page s, s\<lparr>b_l1_page := b_l1_page s + 0x1000\<rparr>)"

definition boot_l1_pte :: "u32 \<Rightarrow> u32 \<Rightarrow> u32" where
  "boot_l1_pte ttbr va = push_bit 2 (drop_bit 20 va AND 0xFFF) OR (ttbr AND push_bit 14 (- 1))"

definition boot_l2_pte :: "u32 \<Rightarrow> u32 \<Rightarrow> u32" where
  "boot_l2_pte d va = push_bit 2 (drop_bit 12 va AND 0xFF) OR (d AND push_bit 10 (- 1))"

definition map_va_to_pa32 :: "u32 \<Rightarrow> u32 \<Rightarrow> u32 \<Rightarrow> boot32 \<Rightarrow> boot32" where
  "map_va_to_pa32 va pgprop pa s =
     (let r8 = boot_l1_pte (b_ttbr0 s) va; r7 = rd32 (b_mm s) r8;
          (r7, s) = (if r7 AND 0x3 \<noteq> 0 then (r7, s)
             else let (p, s) = allocate_l1_page s; r7 = (p OR 0) OR 0x1 in (r7, s\<lparr>b_mm := wr32 r8 r7 (b_mm s)\<rparr>));
          r8 = boot_l2_pte r7 va; r7 = rd32 (b_mm s) r8
      in if r7 AND 0x3 \<noteq> 0 then s else s\<lparr>b_mm := wr32 r8 ((pa OR pgprop) OR 0x2) (b_mm s)\<rparr>)"

definition boot_map_va32 :: "u32 \<Rightarrow> u32 \<Rightarrow> boot32 \<Rightarrow> boot32" where
  "boot_map_va32 va pgprop s = (let (pa, s1) = boot_allocate_pa32 s in map_va_to_pa32 va pgprop pa s1)"

definition boot_map_pa32 :: "u32 \<Rightarrow> u32 \<Rightarrow> boot32 \<Rightarrow> boot32" where
  "boot_map_pa32 pa pgprop s = map_va_to_pa32 pa pgprop pa s"

partial_function (option) map_pa_loop32 :: "u32 \<Rightarrow> u32 \<Rightarrow> u32 \<Rightarrow> boot32 \<Rightarrow> boot32 option" where
  "map_pa_loop32 pa pgprop r2 s =
     (if r2 = 0 then Some s else map_pa_loop32 (pa + 0x1000) pgprop (r2 - 0x1000) (boot_map_pa32 pa pgprop s))"

definition map_pa_range32 :: "u32 \<Rightarrow> u32 \<Rightarrow> u32 \<Rightarrow> boot32 \<Rightarrow> boot32 option" where
  "map_pa_range32 pa pgprop len s = map_pa_loop32 pa pgprop ((len + 0xFFF) AND 0xFFFFF000) s"

partial_function (option) map_va_loop32 :: "u32 \<Rightarrow> u32 \<Rightarrow> u32 \<Rightarrow> boot32 \<Rightarrow> boot32 option" where
  "map_va_loop32 va pgprop r2 s =
     (if r2 = 0 then Some s else map_va_loop32 (va + 0x1000) pgprop (r2 - 0x1000) (boot_map_va32 va pgprop s))"

definition map_va_range32 :: "u32 \<Rightarrow> u32 \<Rightarrow> u32 \<Rightarrow> boot32 \<Rightarrow> boot32 option" where
  "map_va_range32 va pgprop len s = map_va_loop32 va pgprop ((len + 0xFFF) AND 0xFFFFF000) s"

text \<open>\<^verbatim>\<open>unmap_va\<close> has the four levels, the shifts and the eight-byte descriptors of AArch64. A shift by
  more than 31 gives 0.\<close>

fun unmap_loop32 :: "nat \<Rightarrow> nat \<Rightarrow> u32 \<Rightarrow> u32 \<Rightarrow> mm32 \<Rightarrow> mm32" where
  "unmap_loop32 0 r12 va r10 s = s"
| "unmap_loop32 (Suc r11) r12 va r10 s =
     (let r8 = push_bit 3 (drop_bit r12 va AND 0x1FF) OR (r10 AND 0xFFFFF000) in
      if r11 = 0 then wr32 r8 0 s
      else let d = rd32 s r8 in if d AND 0x1 = 0 then s else unmap_loop32 r11 (r12 - 9) va d s)"

definition boot_unmap_va32 :: "platform \<Rightarrow> u32 \<Rightarrow> boot32 \<Rightarrow> boot32" where
  "boot_unmap_va32 p va s = s\<lparr>b_mm := unmap_loop32 4 39 va (EL3_PGTBL_BASE32 p) (b_mm s)\<rparr>"

partial_function (option) unmap_va_loop32 :: "platform \<Rightarrow> u32 \<Rightarrow> u32 \<Rightarrow> boot32 \<Rightarrow> boot32 option" where
  "unmap_va_loop32 p va r1 s =
     (if r1 = 0 then Some s else unmap_va_loop32 p (va + 0x1000) (r1 - 0x1000) (boot_unmap_va32 p va s))"

definition unmap_va_range32 :: "platform \<Rightarrow> u32 \<Rightarrow> u32 \<Rightarrow> boot32 \<Rightarrow> boot32 option" where
  "unmap_va_range32 p va len s = unmap_va_loop32 p va ((len + 0xFFF) AND 0xFFFFF000) s"

text \<open>The copy moves words and ends when the count is exactly 0.\<close>

partial_function (option) boot_memcpy32 :: "u32 \<Rightarrow> u32 \<Rightarrow> u32 \<Rightarrow> mem \<Rightarrow> mem option" where
  "boot_memcpy32 r0 r1 r2 m =
     (if r2 = 0 then Some m
      else boot_memcpy32 (r0 + 4) (r1 + 4) (r2 - 4) (store32 (ucast r0) (load32 m (ucast r1)) m))"

section \<open>The sequences\<close>

partial_function (option) pt_clear_loop :: "u32 \<Rightarrow> u32 \<Rightarrow> mm32 \<Rightarrow> mm32 option" where
  "pt_clear_loop r10 r11 s = (if r11 = 0 then Some s else pt_clear_loop (r10 + 4) (r11 - 4) (wr32 r10 0 s))"

definition el3_init_maps32 :: "platform \<Rightarrow> u32 image_syms \<Rightarrow> boot32 \<Rightarrow> boot32 option" where
  "el3_init_maps32 p y s =
     (let s0 = s\<lparr>b_mm := (b_mm s)\<lparr>mem_next_pa32 := EL3_PA_POOL_BASE32 p\<rparr>, b_l1_page := EL3_PTE_POOL_BASE32 p,
                 b_ttbr0 := EL3_PGTBL_BASE32 p OR 0xB\<rparr>
      in Option.bind (pt_clear_loop (EL3_PGTBL_BASE32 p) EL3_PGTBL_SIZE32 (b_mm s0))
           (\<lambda>m. Option.bind (map_pa_range32 (INIT_BASE y) PTE32_PRIV_RO (INIT_SIZE y) (s0\<lparr>b_mm := m\<rparr>))
           (\<lambda>s1. Option.bind (map_pa_range32 (FLASH_TEXT y) PTE32_PRIV_RO (TEXT_SIZE y) s1)
           (\<lambda>s2. Option.bind (map_pa_range32 (FLASH_DATA y) PTE32_PRIV_RO (DATA_SIZE y) s2)
           (\<lambda>s3. Option.bind (map_va_range32 (TEXT_BASE y) PTE32_PRIV_RW (TEXT_SIZE y) s3)
           (\<lambda>s4. Option.bind (map_va_range32 (DATA_BASE y) PTE32_PRIV_RW (DATA_SIZE y) s4)
           (\<lambda>s5. Option.bind (map_pa_range32 (EL3_PGTBL_BASE32 p) PTE32_PRIV_RW 0x4000 (boot_map_va32 0x7FFEF000 PTE32_PRIV_RW s5))
           (\<lambda>s6. Option.bind (map_pa_range32 (EL3_PTE_POOL_BASE32 p) PTE32_PRIV_RW 0x3C000 s6)
           (\<lambda>s7. Some (boot_map_pa32 (EL1_S_FLASH_BASE32 p) PTE32_PRIV_RO
                   (boot_map_pa32 (p_sysreg_base p) PTE32_PRIV_RW (boot_map_pa32 (p_uart0_base p) PTE32_USER_RW s7))))))))))))"

text \<open>The names of \<^verbatim>\<open>el1/secure/arm/el1.h\<close> and \<^verbatim>\<open>el1/nonsecure/arm/el1.h\<close>.\<close>

definition EL1_PGTBL_BASE32 :: "u32 \<Rightarrow> platform \<Rightarrow> u32" where
  "EL1_PGTBL_BASE32 w p = (if w = SECURE then EL1_S_PGTBL_BASE32 p else EL1_NS_PGTBL_BASE32 p)"

definition EL1_PGTBL_SIZE32 :: "u32 \<Rightarrow> u32" where
  "EL1_PGTBL_SIZE32 w = (if w = SECURE then EL1_S_PGTBL_SIZE32 else EL1_NS_PGTBL_SIZE32)"

definition EL1_PA_POOL_BASE32 :: "u32 \<Rightarrow> platform \<Rightarrow> u32" where
  "EL1_PA_POOL_BASE32 w p = (if w = SECURE then EL1_S_PA_POOL_BASE32 p else EL1_NS_PA_POOL_BASE32 p)"

definition EL1_PTE_POOL_BASE32 :: "u32 \<Rightarrow> platform \<Rightarrow> u32" where
  "EL1_PTE_POOL_BASE32 w p = (if w = SECURE then EL1_S_PTE_POOL_BASE32 p else EL1_NS_PTE_POOL_BASE32 p)"

definition EL1_ABT_STACK_BASE32 :: "u32 \<Rightarrow> u32" where
  "EL1_ABT_STACK_BASE32 w = (if w = SECURE then EL1_S_ABT_STACK_BASE32 else EL1_NS_ABT_STACK_BASE32)"

definition EL1_IRQ_STACK_BASE32 :: "u32 \<Rightarrow> u32" where
  "EL1_IRQ_STACK_BASE32 w = (if w = SECURE then EL1_S_IRQ_STACK_BASE32 else EL1_NS_IRQ_STACK_BASE32)"

definition EL1_UND_STACK_BASE32 :: "u32 \<Rightarrow> u32" where
  "EL1_UND_STACK_BASE32 w = (if w = SECURE then EL1_S_UND_STACK_BASE32 else EL1_NS_UND_STACK_BASE32)"

definition EL1_SVC_STACK_BASE32 :: "u32 \<Rightarrow> u32" where
  "EL1_SVC_STACK_BASE32 w = (if w = SECURE then EL1_S_SVC_STACK_BASE32 else EL1_NS_SVC_STACK_BASE32)"

definition EL0_STACK_BASE32 :: "u32 \<Rightarrow> u32" where
  "EL0_STACK_BASE32 w = (if w = SECURE then EL0_S_STACK_BASE32 else EL0_NS_STACK_BASE32)"

definition el1_init_maps32 :: "u32 \<Rightarrow> platform \<Rightarrow> u32 image_syms \<Rightarrow> boot32 \<Rightarrow> boot32 option" where
  "el1_init_maps32 w p y s =
     (let s0 = s\<lparr>b_mm := (b_mm s)\<lparr>mem_next_pa32 := EL1_PA_POOL_BASE32 w p\<rparr>, b_l1_page := EL1_PTE_POOL_BASE32 w p,
                 b_ttbr0 := EL1_PGTBL_BASE32 w p OR 0xB\<rparr>
      in Option.bind (map_pa_range32 (INIT_BASE y) PTE32_PRIV_RO (INIT_SIZE y) s0)
           (\<lambda>s1. Option.bind (map_pa_range32 (FLASH_TEXT y) PTE32_PRIV_RO (TEXT_SIZE y) s1)
           (\<lambda>s2. Option.bind (map_pa_range32 (FLASH_DATA y) PTE32_PRIV_RO (DATA_SIZE y) s2)
           (\<lambda>s3. Option.bind (map_va_range32 (TEXT_BASE y) PTE32_PRIV_RW (TEXT_SIZE y) s3)
           (\<lambda>s4. Option.bind (map_va_range32 (DATA_BASE y) PTE32_PRIV_RW (DATA_SIZE y) s4)
           (\<lambda>s5. let s6 = boot_map_va32 (EL1_ABT_STACK_BASE32 w - 0x1000) PTE32_PRIV_RW s5;
                     s7 = boot_map_va32 (EL1_IRQ_STACK_BASE32 w - 0x1000) PTE32_PRIV_RW s6;
                     s8 = boot_map_va32 (EL1_UND_STACK_BASE32 w - 0x1000) PTE32_PRIV_RW s7;
                     s9 = boot_map_va32 (EL1_SVC_STACK_BASE32 w - 0x1000) PTE32_PRIV_RW s8;
                     s10 = boot_map_va32 (EL0_STACK_BASE32 w - 0x1000) PTE32_USER_RW s9
                 in Option.bind (map_pa_range32 (EL1_PGTBL_BASE32 w p) PTE32_PRIV_RW (EL1_PGTBL_SIZE32 w) s10)
           (\<lambda>s11. Some (boot_map_pa32 (p_sysreg_base p) PTE32_PRIV_RW (boot_map_pa32 (p_uart0_base p) PTE32_USER_RW s11)))))))))"

section \<open>Copies\<close>

lemma dvd4_unat: "(4 :: u32) dvd w \<longleftrightarrow> 4 dvd unat w"
proof -
  have "(4 :: u32) dvd w \<longleftrightarrow> take_bit 2 w = 0" by (simp add: take_bit_eq_0_iff)
  also have "\<dots> \<longleftrightarrow> unat (take_bit 2 w) = 0" by (simp add: unat_eq_zero)
  also have "\<dots> \<longleftrightarrow> take_bit 2 (unat w) = 0" by (simp only: unsigned_take_bit_eq)
  finally show ?thesis by (simp add: take_bit_eq_0_iff)
qed

lemma boot_memcpy32_div:
  assumes "boot_memcpy32 r0 r1 r2 m = Some m'"
  shows "4 dvd unat r2"
proof (rule boot_memcpy32.raw_induct [where P = "\<lambda>r0 r1 r2 m m'. 4 dvd unat r2", OF _ assms])
  fix copy :: "u32 \<Rightarrow> u32 \<Rightarrow> u32 \<Rightarrow> mem \<Rightarrow> mem option" and r0 r1 r2 m m'
  assume IH: "\<And>r0 r1 r2 m m'. copy r0 r1 r2 m = Some m' \<Longrightarrow> 4 dvd unat r2"
    and step: "(if r2 = 0 then Some m
      else copy (r0 + 4) (r1 + 4) (r2 - 4) (store32 (ucast r0) (load32 m (ucast r1)) m)) = Some m'"
  show "4 dvd unat r2"
  proof (cases "r2 = 0")
    case False
    then have "4 dvd unat (r2 - 4)" using IH step by simp
    then have "(4 :: u32) dvd r2 - 4 + 4" by (intro dvd_add) (simp_all add: dvd4_unat)
    then show ?thesis by (simp add: dvd4_unat)
  qed simp
qed

lemma store32_load32: "store32 a (load32 m b) m' = write_bytes a (bytes_at m b 4) m'"
proof -
  have "ucast (load32 m b) = loadn 4 m b"
    using loadn_bits [of 4 m b] by (intro bit_word_eqI) (auto simp: load32_def bit_simps)
  then show ?thesis using storen_loadn [of 4 a m b m'] by (simp add: store32_def)
qed

lemma unat_ucast_u32: "unat (ucast (a :: u32) :: u64) = unat a"
  using unsigned_less [of a, where 'a = nat] by (simp add: unsigned_ucast_eq take_bit_nat_eq_self)

lemma ucast_step: "unat (a :: u32) + 4 < 2 ^ 32 \<Longrightarrow> (ucast (a + 4) :: u64) = ucast a + 4"
proof -
  assume a: "unat a + 4 < 2 ^ 32"
  then have "unat (a + 4) = unat a + 4" by (subst unat_add_lem [THEN iffD1]) simp_all
  moreover have "unat (ucast a + 4 :: u64) = unat a + 4"
    using a by (subst unat_add_lem [THEN iffD1]) (simp_all add: unat_ucast_u32)
  ultimately show ?thesis by (simp add: word_unat_eq_iff unat_ucast_u32)
qed

lemma boot_memcpy32_copies:
  assumes "unat r2 = 4 * j" "unat r0 + 4 * j < 2 ^ 32" "unat r1 + 4 * j < 2 ^ 32" "apart (ucast r0) (4 * j) (ucast r1) (4 * j)"
  shows "boot_memcpy32 r0 r1 r2 m = Some (write_bytes (ucast r0) (bytes_at m (ucast r1) (4 * j)) m)"
  using assms
proof (induction j arbitrary: r0 r1 r2 m)
  case 0
  then have "r2 = 0" by (simp add: unat_eq_zero)
  then show ?case by (subst boot_memcpy32.simps) simp
next
  case (Suc j)
  let ?a = "ucast r0 :: u64" and ?b = "ucast r1 :: u64" and ?m1 = "write_bytes (ucast r0) (bytes_at m (ucast r1) 4) m"
  have ne: "r2 \<noteq> 0" and le: "(4 :: u32) \<le> r2" using Suc.prems(1) by (auto simp: word_le_nat_alt)
  have r2: "unat (r2 - 4) = 4 * j" using unat_sub [OF le] Suc.prems by simp
  have e: "4 * Suc j = 4 + 4 * j" by simp
  have u: "ucast (r0 + 4) = ?a + 4" "ucast (r1 + 4) = ?b + 4" using Suc.prems(2,3) by (auto intro: ucast_step)
  have ub: "unat (r0 + 4) + 4 * j < 2 ^ 32" "unat (r1 + 4) + 4 * j < 2 ^ 32"
    using Suc.prems(2,3) unat_add_lem [of r0 4] unat_add_lem [of r1 4] by simp_all
  have ap: "apart (?a + 4) (4 * j) (?b + 4) (4 * j)"
    using Suc.prems(4) unfolding apart_iff e within_split [of _ 4, simplified] by blast
  have "boot_memcpy32 r0 r1 r2 m = boot_memcpy32 (r0 + 4) (r1 + 4) (r2 - 4) ?m1"
    using ne by (subst boot_memcpy32.simps) (simp add: store32_load32)
  also have "\<dots> = Some (write_bytes (?a + 4) (bytes_at ?m1 (?b + 4) (4 * j)) ?m1)"
    using Suc.IH [OF r2 ub] ap unfolding u by blast
  also have "bytes_at ?m1 (?b + 4) (4 * j) = bytes_at m (?b + 4) (4 * j)"
  proof (rule bytes_at_cong)
    fix x assume x: "within (?b + 4) (4 * j) x"
    then have "within ?b (4 + 4 * j) x" unfolding within_split [of _ 4, simplified] by simp
    then have "\<not> within ?a 4 x" using Suc.prems(4) unfolding apart_iff e within_split [of _ 4, simplified] by blast
    then show "?m1 x = m x" by (simp add: write_bytes_outside)
  qed
  finally show ?case unfolding e bytes_at_add write_bytes_append by simp
qed

lemma boot_memcpy32_some: "unat r2 = 4 * j \<Longrightarrow> \<exists>m'. boot_memcpy32 r0 r1 r2 m = Some m'"
proof (induction j arbitrary: r0 r1 r2 m)
  case 0
  then have "r2 = 0" by (simp add: unat_eq_zero)
  then show ?case by (subst boot_memcpy32.simps) simp
next
  case (Suc j)
  then have ne: "r2 \<noteq> 0" and le: "(4 :: u32) \<le> r2" by (auto simp: word_le_nat_alt)
  have "unat (r2 - 4) = 4 * j" using unat_sub [OF le] Suc.prems by simp
  then show ?case using Suc.IH ne by (subst boot_memcpy32.simps) simp
qed

text \<open>C36: The copy routine of the AArch32 boot code returns exactly if the number of bytes is a
  multiple of four: for any other size of a section the count never becomes 0 and the image
  does not start.\<close>

theorem boot_memcpy32_returns_iff: "(\<exists>m'. boot_memcpy32 r0 r1 r2 m = Some m') \<longleftrightarrow> 4 dvd unat r2"
  using boot_memcpy32_div boot_memcpy32_some by (metis dvdE)

section \<open>Mapping a page\<close>

lemma boot_ptes: "boot_l1_pte t va = l1_pte t va" "boot_l2_pte d va = l2_pte d va"
proof -
  have m: "push_bit 14 (- 1) = (0xFFFFC000 :: u32)" "push_bit 10 (- 1) = (0xFFFFFC00 :: u32)" by (simp_all add: masks32)
  show "boot_l1_pte t va = l1_pte t va" "boot_l2_pte d va = l2_pte d va"
    unfolding boot_l1_pte_def boot_l2_pte_def l1_pte_def l2_pte_def Let_def m by (simp_all add: or.commute)
qed

text \<open>The register and the C variable name the same first-level table.\<close>

definition same_base :: "boot32 \<Rightarrow> bool" where
  "same_base s \<longleftrightarrow> b_ttbr0 s AND 0xFFFFC000 = mem_pgtbl_base32 (b_mm s) AND 0xFFFFC000"

lemma same_base_l1: "same_base s \<Longrightarrow> l1_pte (b_ttbr0 s) va = l1_pte (mem_pgtbl_base32 (b_mm s)) va"
  by (simp add: same_base_def l1_pte_def)

lemma map_kept:
  assumes "same_base s" "tab32 (b_mm s) va = Some d" "rd32 (b_mm s) (l2_pte d va) AND 0x3 \<noteq> 0"
  shows "map_va_to_pa32 va g pa s = s"
proof -
  have "rd32 (b_mm s) (l1_pte (mem_pgtbl_base32 (b_mm s)) va) = d" "d AND 0x3 \<noteq> 0"
    using assms(2) by (auto simp: tab32_def Let_def split: if_splits)
  then show ?thesis using assms(3) same_base_l1 [OF assms(1), of va] by (simp add: map_va_to_pa32_def boot_ptes Let_def)
qed

text \<open>A page that EL3 has mapped in the table it shares with secure EL1 stays what EL3 made it: the
  page \<^verbatim>\<open>map_va\<close> takes from the pool is lost, and on the Cortex-A9 (\<open>Platform.arm_layout\<close>) the first
  pages of the secure EL1 image are the page tables of EL3.\<close>

lemma boot_map_va32_kept:
  assumes "same_base s" "tab32 (b_mm s) va = Some d" "rd32 (b_mm s) (l2_pte d va) AND 0x3 \<noteq> 0"
  shows "boot_map_va32 va g s = snd (boot_allocate_pa32 s)"
proof -
  let ?s = "snd (boot_allocate_pa32 s)"
  have mm: "mem_pgtbl_base32 (b_mm ?s) = mem_pgtbl_base32 (b_mm s)" "b_ttbr0 ?s = b_ttbr0 s" "rd32 (b_mm ?s) a = rd32 (b_mm s) a" for a
    by (simp_all add: boot_allocate_pa32_def rd32_def)
  have "same_base ?s" "tab32 (b_mm ?s) va = Some d" "rd32 (b_mm ?s) (l2_pte d va) AND 0x3 \<noteq> 0"
    using assms by (simp_all add: same_base_def tab32_def mm)
  from map_kept [OF this] show ?thesis by (simp add: boot_map_va32_def boot_allocate_pa32_def)
qed

text \<open>C35: Where the megabyte of an address has a table, the assembly routine does to a page
  that is not mapped what the C routine does, and nothing to a page that is mapped, whose
  descriptor the C routine replaces.\<close>

theorem boot32_map_agrees:
  assumes "same_base s" "tab32 (b_mm s) va = Some d" "pa AND 0xFFF = 0" "g OR PTE32_ACCESS = g"
  shows "if rd32 (b_mm s) (l2_pte d va) AND 0x3 = 0
     then mem_map_pa32 va pa 0 g (b_mm s) = Some (b_mm (map_va_to_pa32 va g pa s))
     else map_va_to_pa32 va g pa s = s"
proof -
  have t: "rd32 (b_mm s) (l1_pte (mem_pgtbl_base32 (b_mm s)) va) = d" "d AND 0x3 \<noteq> 0"
    using assms(2) by (auto simp: tab32_def Let_def split: if_splits)
  note e = same_base_l1 [OF assms(1), of va]
  show ?thesis
  proof (cases "rd32 (b_mm s) (l2_pte d va) AND 0x3 = 0")
    case True
    have "pa = (pa AND 0xFFF) OR (pa AND NOT 0xFFF)" by (simp flip: bit.conj_disj_distrib)
    then have "pa AND NOT 0xFFF = pa" using assms(3) by simp
    moreover have "pa OR (PTE32_PAGE OR PTE32_ACCESS OR g) = (pa OR g) OR 0x2"
      using assms(4) by (metis (no_types) PTE32_PAGE_def or.assoc or.commute)
    ultimately have "set_page32 (l1_pte (mem_pgtbl_base32 (b_mm s)) va) va pa g (b_mm s) = wr32 (l2_pte d va) ((pa OR g) OR 0x2) (b_mm s)"
      by (simp add: set_page32_def Let_def t(1))
    then show ?thesis
      using True t e by (subst mem_map_pa32.simps) (simp add: map_va_to_pa32_def boot_ptes Let_def)
  next
    case False
    then show ?thesis using map_kept [OF assms(1,2)] by simp
  qed
qed


section \<open>Unmapping a page\<close>

text \<open>The AArch64 walk finds no descriptor with bit 0 set at its second level, where the page
  descriptors of the first megabyte are, and leaves the tables alone.\<close>

lemma boot_unmap32_ineffective:
  fixes m p
  defines "d \<equiv> rd32 m (EL3_PGTBL_BASE32 p AND 0xFFFFF000)"
  assumes "d AND 0x1 = 0 \<or> rd32 m (push_bit 3 (drop_bit 30 va AND 0x1FF) OR (d AND 0xFFFFF000)) AND 0x1 = 0"
  shows "unmap_loop32 4 39 va (EL3_PGTBL_BASE32 p) m = m"
proof -
  have "drop_bit 39 va = 0" by (rule bit_word_eqI) (simp add: bit_drop_bit_eq bit_imp_le_length)
  then show ?thesis using assms(2) by (auto simp: eval_nat_numeral Let_def d_def)
qed

end
