(* ===== verification/Boot32Demo.thy ===== *)
theory Boot32Demo
  imports Boot32 PageTable32Demo
begin

text \<open>The AArch32 boot routine and the C routine on the address space of \<open>PageTable32Demo\<close>.\<close>

definition demo_boot32 :: boot32 where
  "demo_boot32 = \<lparr>b_mm = demo32, b_l1_page = 0x8000, b_ttbr0 = 0xB\<rparr>"

lemma demo_boot32_base: "same_base demo_boot32" "b_mm demo_boot32 = demo32"
  by (simp_all add: same_base_def demo_boot32_def demo32_globals)

lemma ro_access: "PTE32_PRIV_RO OR PTE32_ACCESS = PTE32_PRIV_RO"
  by (simp add: PTE32_PRIV_RO_def PTE32_ACCESS_def ARMV7_PAGE_ACCESS_def ARMV7_PAGE_PRIV_def ARMV7_PAGE_RO_def)

lemma boot32_map_agrees_witness:
  "mem_map_pa32 0x8000 0x60000000 0 PTE32_PRIV_RO demo32 =
     Some (b_mm (map_va_to_pa32 0x8000 PTE32_PRIV_RO 0x60000000 demo_boot32)) \<and>
   map_va_to_pa32 0x1000 PTE32_PRIV_RO 0x60000000 demo_boot32 = demo_boot32"
proof
  have t: "tab32 (b_mm demo_boot32) 0x8000 = Some 0x4001" "tab32 (b_mm demo_boot32) 0x1000 = Some 0x4001"
    by (simp_all add: demo_boot32_base demo32_tab)
  have pa: "(0x60000000 :: u32) AND 0xFFF = 0" by simp
  have d: "rd32 demo32 (l2_pte 0x4001 0x8000) = 0" "rd32 demo32 (l2_pte 0x4001 0x1000) = 0x1032"
    using demo32_desc(2) [of "0x8000"] demo32_desc(1) [of "0x1000"] by simp_all
  show "mem_map_pa32 0x8000 0x60000000 0 PTE32_PRIV_RO demo32 =
     Some (b_mm (map_va_to_pa32 0x8000 PTE32_PRIV_RO 0x60000000 demo_boot32))"
    using boot32_map_agrees [OF demo_boot32_base(1) t(1) pa ro_access] by (simp add: demo_boot32_base d)
  show "map_va_to_pa32 0x1000 PTE32_PRIV_RO 0x60000000 demo_boot32 = demo_boot32"
    using boot32_map_agrees [OF demo_boot32_base(1) t(2) pa ro_access] by (simp add: demo_boot32_base d)
qed

end
