(* ===== verification/Builtins.thy ===== *)
theory Builtins
  imports Layout
begin

text \<open>
  The accessors of system registers: \<^verbatim>\<open>common/aarch64/builtins.S\<close> and \<^verbatim>\<open>common/arm/builtins.S\<close>
  with the macros of the two \<^verbatim>\<open>builtins.h\<close>. A register file is a function; on AArch32 it is
  indexed by the operands of \<^verbatim>\<open>mrc\<close> and \<^verbatim>\<open>mcr\<close>, so that two accessors with the same operands
  would be the same register. It is a plain store: the copies that SCR.NS selects on AArch32, fixed and
  read-only bits and side effects of a write are not in it. The code runs at the level that may access the register.
\<close>

section \<open>AArch64\<close>

datatype sysreg64 = Currentel | Scr_el3 | Sder32_el3 | Cptr_el3 | Cpacr_el1 | Sctlr_el1 | Sctlr_el3

type_synonym sysregs64 = "sysreg64 \<Rightarrow> u64"

definition read_reg64 :: "sysreg64 \<Rightarrow> sysregs64 \<Rightarrow> u64" where
  "read_reg64 reg s = s reg"

text \<open>\<^verbatim>\<open>CurrentEL\<close> is read-only: writing it is an undefined instruction.\<close>

definition write_reg64 :: "sysreg64 \<Rightarrow> u64 \<Rightarrow> sysregs64 \<Rightarrow> sysregs64 option" where
  "write_reg64 reg v s = (if reg = Currentel then None else Some (s(reg := v)))"

datatype macro64 = SCR | SDER | CPTR_EL3 | CPACR | CURRENTEL | SCTLR | SCTLR_EL3

fun READ64 :: "macro64 \<Rightarrow> sysregs64 \<Rightarrow> u64" where
  "READ64 SCR = read_reg64 Scr_el3"
| "READ64 SDER = read_reg64 Sder32_el3"
| "READ64 CPTR_EL3 = read_reg64 Cptr_el3"
| "READ64 CPACR = read_reg64 Cpacr_el1"
| "READ64 CURRENTEL = read_reg64 Currentel"
| "READ64 SCTLR = read_reg64 Sctlr_el1"
| "READ64 SCTLR_EL3 = read_reg64 Sctlr_el3"

text \<open>\<^verbatim>\<open>WRITE_CURRENTEL\<close> expands to the read accessor.\<close>

fun WRITE64 :: "macro64 \<Rightarrow> u64 \<Rightarrow> sysregs64 \<Rightarrow> sysregs64 option" where
  "WRITE64 SCR = write_reg64 Scr_el3"
| "WRITE64 SDER = write_reg64 Sder32_el3"
| "WRITE64 CPTR_EL3 = write_reg64 Cptr_el3"
| "WRITE64 CPACR = write_reg64 Cpacr_el1"
| "WRITE64 CURRENTEL = (\<lambda>v s. let r = read_reg64 Currentel s in Some s)"
| "WRITE64 SCTLR = write_reg64 Sctlr_el1"
| "WRITE64 SCTLR_EL3 = write_reg64 Sctlr_el3"

section \<open>AArch32\<close>

datatype cpreg = Scr | Sder | Cpacr | Sctlr | Mvbar | Nsacr | Dfsr | Dfar | Ifsr | Ifar

text \<open>The operands of the macro \<^verbatim>\<open>RWCP\<close>.\<close>

fun rwcp :: "cpreg \<Rightarrow> nat \<times> nat \<times> nat \<times> nat" where
  "rwcp Scr = (0, 1, 1, 0)"
| "rwcp Sder = (0, 1, 1, 1)"
| "rwcp Cpacr = (0, 1, 0, 2)"
| "rwcp Sctlr = (0, 1, 0, 0)"
| "rwcp Mvbar = (0, 12, 0, 1)"
| "rwcp Nsacr = (0, 1, 1, 2)"
| "rwcp Dfsr = (0, 5, 0, 0)"
| "rwcp Dfar = (0, 6, 0, 0)"
| "rwcp Ifsr = (0, 5, 0, 1)"
| "rwcp Ifar = (0, 6, 0, 2)"

record sysregs32 =
  p15 :: "nat \<times> nat \<times> nat \<times> nat \<Rightarrow> u32"
  psr :: u32

definition read_cpreg :: "cpreg \<Rightarrow> sysregs32 \<Rightarrow> u32" where
  "read_cpreg r s = p15 s (rwcp r)"

definition write_cpreg :: "cpreg \<Rightarrow> u32 \<Rightarrow> sysregs32 \<Rightarrow> sysregs32" where
  "write_cpreg r v s = s\<lparr>p15 := (p15 s)(rwcp r := v)\<rparr>"

definition read_cpsr :: "sysregs32 \<Rightarrow> u32" where
  "read_cpsr s = psr s"

definition write_cpsr :: "u32 \<Rightarrow> sysregs32 \<Rightarrow> sysregs32" where
  "write_cpsr v s = s\<lparr>psr := v\<rparr>"

datatype macro32 = M_SCR | M_SDER | M_CPACR | M_MVBAR | M_NSACR | M_CPSR | M_SCTLR

fun READ32 :: "macro32 \<Rightarrow> sysregs32 \<Rightarrow> u32" where
  "READ32 M_SCR = read_cpreg Scr"
| "READ32 M_SDER = read_cpreg Sder"
| "READ32 M_CPACR = read_cpreg Cpacr"
| "READ32 M_MVBAR = read_cpreg Mvbar"
| "READ32 M_NSACR = read_cpreg Nsacr"
| "READ32 M_CPSR = read_cpsr"
| "READ32 M_SCTLR = read_cpreg Sctlr"

fun WRITE32 :: "macro32 \<Rightarrow> u32 \<Rightarrow> sysregs32 \<Rightarrow> sysregs32" where
  "WRITE32 M_SCR = write_cpreg Scr"
| "WRITE32 M_SDER = write_cpreg Sder"
| "WRITE32 M_CPACR = write_cpreg Cpacr"
| "WRITE32 M_MVBAR = write_cpreg Mvbar"
| "WRITE32 M_NSACR = write_cpreg Nsacr"
| "WRITE32 M_CPSR = write_cpsr"
| "WRITE32 M_SCTLR = write_cpreg Sctlr"

section \<open>Laws\<close>

text \<open>The registers are finitely many, so a statement on all of them is decided by cases.\<close>

instantiation cpreg :: finite
begin

instance
proof
  have "(UNIV :: cpreg set) \<subseteq> {Scr, Sder, Cpacr, Sctlr, Mvbar, Nsacr, Dfsr, Dfar, Ifsr, Ifar}"
    by (auto intro: cpreg.exhaust)
  then show "finite (UNIV :: cpreg set)" by (rule finite_subset) simp
qed

end

lemma rwcp_inj: "rwcp r = rwcp r' \<longleftrightarrow> r = r'"
  by (cases r; cases r'; simp)

locale accessors =
  fixes rd :: "'r \<Rightarrow> 's \<Rightarrow> 'v" and wr :: "'r \<Rightarrow> 'v \<Rightarrow> 's \<Rightarrow> 's"
  assumes read_write: "rd r (wr r' v s) = (if r = r' then v else rd r s)"
begin

text \<open>Setting a register and putting its old value back leaves every register as it was: what
  the test functions do around each check.\<close>

lemma put_back: "rd r' (wr r (rd r s) (wr r v s)) = rd r' s"
  by (simp add: read_write)

lemma independent: "r \<noteq> r' \<Longrightarrow> rd q (wr r v (wr r' w s)) = rd q (wr r' w (wr r v s))"
  by (simp add: read_write)

end

interpretation cp15: accessors read_cpreg write_cpreg
  by unfold_locales (auto simp: read_cpreg_def write_cpreg_def rwcp_inj)

lemma macro32_read_write: "READ32 k (WRITE32 k' v s) = (if k = k' then v else READ32 k s)"
  by (cases k; cases k'; simp add: cp15.read_write read_cpsr_def write_cpsr_def)
    (simp_all add: read_cpreg_def write_cpreg_def)

interpretation macros: accessors READ32 WRITE32
  by unfold_locales (rule macro32_read_write)

text \<open>Every pair of accessors reads what it wrote and touches no other register, on both
  architectures; only \<^verbatim>\<open>WRITE_CURRENTEL\<close> writes nothing, and putting the value read before
  a write back restores every register.\<close>

lemma accessors_round_trip:
  "(WRITE64 k v s = Some s' \<longrightarrow>
      (\<forall>k'. READ64 k' s' = (if k' = k \<and> k \<noteq> CURRENTEL then v else READ64 k' s))) \<and> WRITE64 k v s \<noteq> None \<and>
   read_cpreg r (write_cpreg r' x t) = (if r = r' then x else read_cpreg r t) \<and>
   READ32 h (WRITE32 h' x t) = (if h = h' then x else READ32 h t) \<and>
   READ32 h (WRITE32 h' (READ32 h' t) (WRITE32 h' x t)) = READ32 h t"
proof (intro conjI impI allI)
  show "WRITE64 k v s \<noteq> None" by (cases k) (simp_all add: write_reg64_def Let_def)
  show "READ64 k' s' = (if k' = k \<and> k \<noteq> CURRENTEL then v else READ64 k' s)" if "WRITE64 k v s = Some s'" for k'
    using that by (cases k; cases k'; auto simp: write_reg64_def read_reg64_def Let_def)
  show "read_cpreg r (write_cpreg r' x t) = (if r = r' then x else read_cpreg r t)" by (rule cp15.read_write)
  show "READ32 h (WRITE32 h' x t) = (if h = h' then x else READ32 h t)" by (rule macros.read_write)
  show "READ32 h (WRITE32 h' (READ32 h' t) (WRITE32 h' x t)) = READ32 h t" by (rule macros.put_back)
qed

end
