(* ===== verification/Spec2Isabelle.thy ===== *)
theory Spec2Isabelle
  imports MachineDemo LibDemo LibIo ElfDemo Monitor32Demo El1Vectors El0MainDemo BootDemo Boot32Demo Builtins
begin

text \<open>
  A model of the TrustZone test image for QEMU, and what is proved of it. Paths are below \<^verbatim>\<open>src/\<close>.

  \<^bold>\<open>The program.\<close> Five images lie in flash: a monitor at EL3, and for each of the two security
  states a kernel at EL1 and a program at EL0. After reset the boot code of EL3 builds page tables,
  copies its text and data out of flash and calls \<^verbatim>\<open>el3_start\<close>, which gives every world a register
  buffer and returns to secure EL1. Each EL1 image boots in the same way, loads its EL0 image, an
  ELF file in flash, and returns to EL0. From then on the images exchange operation descriptors:
  SMC leads from EL1 to EL3, SVC from EL0 to EL1, and the monitor switches the worlds. The program
  of non-secure EL0 allocates a block that all images map, and runs a table of tests; a test runs
  at the exception level and in the security state its entry names, executes instructions that
  trap or do not, and compares what the handlers logged with what the architecture documents. The
  image is built for AArch64 (platform virt) and for AArch32 (three platforms); the C code of
  \<^verbatim>\<open>el3\<close>, \<^verbatim>\<open>el1\<close>, \<^verbatim>\<open>el0\<close>, \<^verbatim>\<open>tztest\<close> and \<^verbatim>\<open>libcflat\<close> is shared, page tables, monitor, vectors, boot
  code and register accessors are written twice.

  \<^bold>\<open>Theories and sources.\<close>
  \<^item> \<open>Prelude\<close>: names of the word types, word and list lemmas, the collections the proofs feed.
    \<open>CMemory\<close>: an address space as a byte per address, with little-endian loads and stores.
    \<open>Layout\<close>: the constants of \<^verbatim>\<open>common/aarch64/memory.h\<close>, \<^verbatim>\<open>platform.h\<close>, \<^verbatim>\<open>vmsa.h\<close>, \<^verbatim>\<open>cpu.h\<close>.
    \<open>Platform\<close>: \<^verbatim>\<open>common/arm/memory.h\<close> as functions of a platform, the three \<^verbatim>\<open>platform.h\<close>, and the
    syndrome layouts of \<^verbatim>\<open>common/arm/exception.h\<close>. \<open>Interop\<close>: the descriptors and numbers of
    \<^verbatim>\<open>common/interop.h\<close>, \<^verbatim>\<open>smc.h\<close>, \<^verbatim>\<open>svc.h\<close>, \<^verbatim>\<open>syscntl.h\<close>.
  \<^item> \<open>PageTable\<close>, \<open>PageTableProofs\<close>, \<open>PageTableOps\<close>, \<open>PageTableData\<close>, \<open>PageTableDemo\<close>:
    \<^verbatim>\<open>common/aarch64/mem_util.c\<close>. \<open>PageTable32\<close>, \<open>PageTable32Proofs\<close>, \<open>PageTable32Ops\<close>,
    \<open>PageTable32Demo\<close>: \<^verbatim>\<open>common/arm/mem_util.c\<close>. \<open>Pager\<close>: the interface of both to their clients.
  \<^item> \<open>Monitor\<close>, \<open>MonitorProofs\<close>: \<^verbatim>\<open>el3/aarch64/el3_monitor*\<close>. \<open>Monitor32\<close>, \<open>Monitor32Proofs\<close>,
    \<open>Monitor32Ops\<close>, \<open>Monitor32Demo\<close>: \<^verbatim>\<open>el3/arm/el3_monitor*\<close> and the AArch32 vectors of EL3 and EL1;
    \<open>El3Arm\<close>: the SMC handler of \<^verbatim>\<open>el3/el3.c\<close> as the AArch32 build compiles it.
    \<open>El1Vectors\<close>: \<^verbatim>\<open>el1/aarch64/el1_exception.S\<close>.
  \<^item> \<open>El3\<close>, \<open>El3Proofs\<close>, \<open>El3Start\<close>, \<open>El3Demo\<close>: \<^verbatim>\<open>el3/el3.c\<close> and \<^verbatim>\<open>el3/aarch64/el3_exception.S\<close>.
    \<open>El1\<close>, \<open>El1Start\<close>: \<^verbatim>\<open>el1/el1.c\<close> and the parts of its two images. \<open>El0\<close>, \<open>El0Main\<close>,
    \<open>El0MainDemo\<close>: \<^verbatim>\<open>el0/el0.c\<close> and both main programs.
  \<^item> \<open>ElfLoad\<close>, \<open>ElfMemory\<close>, \<open>ElfLoadProofs\<close>, \<open>ElfLoadOps\<close>, \<open>ElfLoad32\<close>, \<open>ElfDemo\<close>:
    \<^verbatim>\<open>el1/aarch64/el1_loader.c\<close> and \<^verbatim>\<open>el1/arm/el1_loader.c\<close>, once over the paging operations.
  \<^item> \<open>Boot\<close>: \<^verbatim>\<open>common/aarch64/init_util.S\<close>, \<^verbatim>\<open>el3/aarch64/el3_init.S\<close>, \<^verbatim>\<open>el1/aarch64/el1_init.S\<close> and
    the linker scripts of EL3 and EL1; the proofs are in \<open>BootProofs\<close> (one mapping), \<open>BootMaps\<close>
    (ranges), \<open>BootImage\<close> (an image), \<open>BootCopy\<close> (the copies), \<open>BootRun\<close> (EL3), \<open>El1Boot\<close> and
    \<open>El1Reset\<close> (EL1), \<open>BootDemo\<close>. \<open>Boot32\<close>, \<open>Boot32Demo\<close>: \<^verbatim>\<open>common/arm/init_util.S\<close> and the AArch32
    \<^verbatim>\<open>el3_init.S\<close>, \<^verbatim>\<open>el1_init.S\<close>.
  \<^item> \<open>Builtins\<close>: \<^verbatim>\<open>common/*/builtins.S\<close> and \<^verbatim>\<open>builtins.h\<close>. \<open>LibString\<close>, \<open>LibPrintf\<close>,
    \<open>LibPrintfNum\<close>, \<open>LibPrintfProofs\<close>, \<open>LibIo\<close>, \<open>LibDemo\<close>: \<^verbatim>\<open>libcflat/string.c\<close>, \<^verbatim>\<open>printf.c\<close> and
    the headers \<^verbatim>\<open>io.h\<close>.
  \<^item> \<open>TzTest\<close>: \<^verbatim>\<open>tztest/tztest.c\<close> and the test tables. \<open>TestProgs\<close>: the test programs below
    \<^verbatim>\<open>tztest/\<close>. \<open>TestSpec\<close>: what they achieve, over interfaces. \<open>System\<close>, \<open>SystemProofs\<close>,
    \<open>SystemMap\<close>, \<open>SystemRun\<close>, \<open>SystemDemo\<close>: all images in one machine. \<open>Machine\<close>,
    \<open>MachineProofs\<close>, \<open>MachineRun\<close>, \<open>MachineDemo\<close>: that machine with a processor that traps.

  \<^bold>\<open>States.\<close> \<open>mm\<close> (and \<open>mm32\<close>) holds the globals of \<^verbatim>\<open>mem_util.c\<close> and the bytes of physical
  memory; page tables are bytes there, read and written as the code does. A state of EL3 or EL1 is
  a record with its \<open>mm\<close>, its other globals and its registers; \<open>sys\<close> extends the state of EL1 by
  EL3 and the other world. Where C dereferences a pointer with the MMU on, the model translates
  through the tables, and an access without translation is \<open>None\<close> or the fault the code takes.
  Messages on the console are not state, except in \<open>LibPrintf\<close>, where the text sent is.

  \<^bold>\<open>What the lemmas show.\<close>
  \<^item> Page tables: \<open>pt_inv lim s\<close> says that the tables reachable from the base are separate, identity
    mapped pages below the pool pointer, and the pool up to \<open>lim\<close> is free and zero. Mapping,
    unmapping and heap allocation keep it, change one translation and no other, and touch no byte
    outside tables and pool. The locales \<open>page_mapper\<close>, \<open>strict_unmapper\<close> and \<open>heap_loop\<close> state this
    for clients; both architectures interpret the first and the last, only AArch64 the second:
    the AArch32 code does not notice that a page is unmapped already.
  \<^item> Monitor and vectors: a switch exchanges the registers of the worlds, each listed with its member of
    the buffer, and two switches give a world its own back; vectors return to what they interrupt with
    its registers. The handlers they call are arguments under the contract of the procedure call
    standard; for the SMC vector of AArch32 the handler is \<open>el3_handle_smc32\<close>, and the contract
    (\<open>compiled_smc\<close>) leaves open only flags and scratch registers. \<open>smc_served\<close> names the requests it covers.
  \<^item> EL3, EL1, EL0: what each SMC and SVC does to descriptor, state and world; what the exception
    handlers log and skip; that EL3's record of the current world agrees with \<^verbatim>\<open>SCR_EL3\<close> after every
    exception but one request, a write of SCR with another NS bit, which breaks it; start-up
    unmaps the init section and passes the control block on. A test number past the end of a table of
    functions is undefined in C and \<open>None\<close> at every level.
  \<^item> Loader: a well-formed image is loaded section by section and left unmapped from where it lay; the
    loader then reads the entry point from the page it has unmapped, so it returns exactly if that
    load is answered (\<open>late_entry\<close>), and faults if the load goes through the tables. \<open>elf_memory\<close> is the interface to paging, interpreted for both architectures.
  \<^item> Boot: from zeroed table pages and an image that fits its slot in flash, EL3 reaches secure EL1 and
    either EL1 image reaches its late load and with an answer to it EL0, with text and data as in flash
    and \<open>pt_inv\<close> established. On AArch32 the boot routine agrees with the C routine, and the memory map
    is checked on all platforms (the RAM areas given for the two EL0 images are one area).
  \<^item> Library: \<open>vsnprintf\<close> writes the text a specification on lists of characters gives, cut to the
    buffer; decimal conversion and \<open>atol\<close> are inverse; \<open>memmove\<close> is right on overlapping ranges.
  \<^item> Tests: every case of the table has its function; a test that is dispatched runs once, where its entry says; the run
    counts as many passes as the table has and no failure, on every processor with the documented
    traps (\<open>trap_machine\<close>, \<open>reg_ops\<close>, \<open>el1_tests\<close>, \<open>el0_tests\<close>, \<open>interop_peer\<close>, interpreted in
    \<open>MachineProofs\<close> and \<open>SystemRun\<close> on the composed machine).
  \<^item> \<open>field\<close>, \<open>word_store\<close> and \<open>accessors\<close> are the read-over-write laws of descriptor fields, of memory
    words and of system registers, interpreted on each.

  \<^bold>\<open>Loops and bounds.\<close> There is no fuel. A loop that need not end in C is a \<open>partial_function\<close> into
  \<open>option\<close> and \<open>None\<close> is not ending; theorems on such code state that there is a result. The
  bounds are those of the program: 64 pages of tables and RAM for each image, of which the boot
  code uses at most 29 beside text and data; slots of 16 pages in flash, so text and data have at
  most 16; an EL0 image has four pages of the pool for each of its own. The properties take room in
  the pool as a hypothesis where they are about C code, and derive it where they start at reset.

  \<^bold>\<open>Parameters.\<close> The offsets and numbers of the system header \<^verbatim>\<open>elf.h\<close>; what a register or the
  stack holds where the code leaves it uninitialised (in particular the member \<open>pa\<close> of a request to map a page:
  what \<open>main\<close> of non-secure EL0 does is proved for every value but 0, and with 0 there the page is
  shared at physical page 0); the processor's traps and registers; the handlers that vectors call; and,
  for the loader, what its late load is answered with. \<open>header_cached\<close> is the answer the code relies on, the
  removed translation; the architecture permits it and does not promise it.

  \<^bold>\<open>Not modelled.\<close>
  \<^item> The writes of the boot code to single registers: UART set-up, vector bases, floating-point
    access, caches, table base and control, the MMU enable. The boot models start with the MMU off
    and go on with it on at the place where the code enables it.
  \<^item> Caches, TLBs and barriers, apart from the late read above, and interrupts, which stay masked.
  \<^item> The stubs of the EABI (a message and two empty functions), the debug macros, and what is printed
    by the programs outside \<^verbatim>\<open>printf.c\<close>.
  \<^item> Code that no build contains: the block \<^verbatim>\<open>REMOVE_OR_INTEGRATE\<close> of \<^verbatim>\<open>el1_sec.c\<close> and the block
    \<^verbatim>\<open>#if 0\<close> of \<^verbatim>\<open>tztest_el3.c\<close>.
  \<^item> Makefiles, \<^verbatim>\<open>configure\<close> and the linker scripts of EL0, which place sections and hold no logic;
    where they put an EL0 image is in its ELF header, which the loader theorems take as it is.
\<close>

end
